(* ===== verification/Prelude.thy ===== *)
theory Prelude
  imports
    Main
    "HOL-Library.Word"
    "HOL-Library.List_Lexorder"
    "HOL-Library.Char_ord"
    "HOL-Library.Multiset"
    "HOL-Library.AList"
    "HOL-Library.Sublist"
begin

text \<open>
  Shared vocabulary of the development: bytes and strings as the TypeScript code uses them, the
  sorting of arrays with a comparator, insertion-ordered \<^verbatim>\<open>Map\<close> and \<^verbatim>\<open>Set\<close> values as
  association lists and duplicate-free lists, and operations that may throw after having changed
  state.

  A JavaScript string is a \<^typ>\<open>string\<close> whose characters are the code points below 256; a number
  that the code only uses as an integer is an \<^typ>\<open>int\<close> or a \<^typ>\<open>nat\<close>; a \<^verbatim>\<open>Uint8Array\<close> is a list
  of 8-bit words.
\<close>

named_theorems op_simps \<open>unfolding of the state-and-error operations\<close>
named_theorems keeps_intros \<open>introduction rules for state predicates kept by an operation\<close>

section \<open>Bytes\<close>

type_synonym byte = "8 word"
type_synonym bytes = "byte list"

text \<open>The zero digest, \<^verbatim>\<open>new Uint8Array(32)\<close>.\<close>

definition zero32 :: bytes where
  "zero32 = replicate 32 0"

lemma length_zero32 [simp]: "length zero32 = 32"
  by (simp add: zero32_def)

section \<open>Sorting with a comparator\<close>

text \<open>
  \<^verbatim>\<open>Array.prototype.sort(cmp)\<close> is a stable sort; for a comparator that orders its arguments by
  some key the sorted array is determined, and insertion sort computes it.
\<close>

fun js_insert :: "('a \<Rightarrow> 'a \<Rightarrow> int) \<Rightarrow> 'a \<Rightarrow> 'a list \<Rightarrow> 'a list" where
  "js_insert cmp x [] = [x]"
| "js_insert cmp x (y # ys) = (if cmp x y \<le> 0 then x # y # ys else y # js_insert cmp x ys)"

definition js_sort :: "('a \<Rightarrow> 'a \<Rightarrow> int) \<Rightarrow> 'a list \<Rightarrow> 'a list" where
  "js_sort cmp xs = foldr (js_insert cmp) xs []"

lemma js_sort_simps [simp]:
  "js_sort cmp [] = []"
  "js_sort cmp (x # xs) = js_insert cmp x (js_sort cmp xs)"
  by (simp_all add: js_sort_def)

lemma mset_js_insert [simp]: "mset (js_insert cmp x xs) = add_mset x (mset xs)"
  by (induction xs) auto

lemma mset_js_sort [simp]: "mset (js_sort cmp xs) = mset xs"
  by (induction xs) auto

lemma set_js_sort [simp]: "set (js_sort cmp xs) = set xs"
  by (metis mset_js_sort set_mset_mset)

lemma length_js_sort [simp]: "length (js_sort cmp xs) = length xs"
  by (metis mset_js_sort size_mset)

lemma js_sort_eq_Nil [simp]: "js_sort cmp xs = [] \<longleftrightarrow> xs = []"
  by (metis length_0_conv length_js_sort)

text \<open>The contract of a comparator that sorts by a key.\<close>

locale keyed_comparator =
  fixes cmp :: "'a \<Rightarrow> 'a \<Rightarrow> int"
    and key :: "'a \<Rightarrow> 'k::linorder"
  assumes cmp_le: "cmp a b \<le> 0 \<Longrightarrow> key a \<le> key b"
    and cmp_gt: "0 < cmp a b \<Longrightarrow> key b \<le> key a"
begin

lemma key_insert_head:
  "key ` set (js_insert cmp x xs) = insert (key x) (key ` set xs)"
  by (induction xs) auto

lemma sorted_key_insert:
  "sorted (map key xs) \<Longrightarrow> sorted (map key (js_insert cmp x xs))"
proof (induction xs)
  case Nil
  then show ?case by simp
next
  case (Cons y ys)
  show ?case
  proof (cases "cmp x y \<le> 0")
    case True
    with Cons.prems cmp_le [OF True] show ?thesis by auto
  next
    case False
    then have "key y \<le> key x" using cmp_gt by simp
    moreover have "sorted (map key (js_insert cmp x ys))"
      using Cons by simp
    moreover have "set (map key (js_insert cmp x ys)) = insert (key x) (set (map key ys))"
      using key_insert_head [of x ys] by simp
    ultimately show ?thesis using False Cons.prems by auto
  qed
qed

lemma sorted_key_sort: "sorted (map key (js_sort cmp xs))"
  by (induction xs) (auto intro: sorted_key_insert)

lemma hd_sort_minimal:
  assumes "y \<in> set xs"
  shows "key (hd (js_sort cmp xs)) \<le> key y"
proof -
  from assms obtain z zs where zs: "js_sort cmp xs = z # zs"
    by (metis js_sort_eq_Nil list.exhaust list.set_cases)
  moreover have "y \<in> set (z # zs)" using assms set_js_sort zs by metis
  ultimately show ?thesis using sorted_key_sort [of xs] by auto
qed

end

text \<open>A comparator whose key is the element itself is a linear order: the sorted array is unique.\<close>

locale linear_comparator = keyed_comparator cmp "\<lambda>x. x"
  for cmp :: "'a::linorder \<Rightarrow> 'a \<Rightarrow> int" +
  assumes cmp_eq: "cmp a b = 0 \<longleftrightarrow> a = b"
begin

lemma js_sort_is_sort: "js_sort cmp xs = sort xs"
  using sorted_key_sort [of xs] by (metis list.map_ident mset_js_sort properties_for_sort)

lemma js_sort_cong: "mset xs = mset ys \<Longrightarrow> js_sort cmp xs = js_sort cmp ys"
  by (simp add: js_sort_is_sort) (metis mset_sort properties_for_sort sorted_sort)

end

section \<open>Strings\<close>

definition startsWith :: "string \<Rightarrow> string \<Rightarrow> bool" where
  "startsWith s p \<longleftrightarrow> take (length p) s = p"

fun indexOf :: "string \<Rightarrow> string \<Rightarrow> nat option" where
  "indexOf [] p = (if p = [] then Some 0 else None)"
| "indexOf (c # cs) p =
     (if startsWith (c # cs) p then Some 0 else map_option Suc (indexOf cs p))"

definition str_includes :: "string \<Rightarrow> string \<Rightarrow> bool" where
  "str_includes s p \<longleftrightarrow> indexOf s p \<noteq> None"

lemma startsWith_prefix: "startsWith s p \<longleftrightarrow> prefix p s"
  by (auto simp: startsWith_def prefix_def) (metis append_take_drop_id)

lemma startsWith_append [simp]: "startsWith (p @ s) p"
  by (simp add: startsWith_def)

lemma indexOf_Some:
  "indexOf s p = Some n \<Longrightarrow> n \<le> length s \<and> startsWith (drop n s) p"
proof (induction s arbitrary: n)
  case Nil
  then show ?case by (auto simp: startsWith_def split: if_splits)
next
  case (Cons c cs)
  then show ?case by (auto split: if_splits)
qed

lemma indexOf_least: "indexOf s p = Some n \<Longrightarrow> m < n \<Longrightarrow> \<not> startsWith (drop m s) p"
proof (induction s arbitrary: n m)
  case Nil
  then show ?case by (auto split: if_splits)
next
  case (Cons c cs)
  then show ?case by (cases m) (auto split: if_splits)
qed

lemma indexOf_append: "\<exists>n \<le> length xs. indexOf (xs @ p @ ys) p = Some n"
proof (induction xs)
  case Nil
  have "startsWith (p @ ys) p" by simp
  then have "indexOf (p @ ys) p = Some 0"
    by (cases "p @ ys") (auto simp del: startsWith_append)
  then show ?case by simp
next
  case (Cons x xs)
  then obtain n where "n \<le> length xs" "indexOf (xs @ p @ ys) p = Some n" by auto
  then show ?case by auto
qed

lemma indexOf_split:
  assumes "indexOf s p = Some n"
  shows "s = take n s @ p @ drop (n + length p) s"
proof -
  have "take (length p) (drop n s) = p"
    using indexOf_Some [OF assms] by (simp add: startsWith_def)
  then show ?thesis
    by (metis add.commute append_take_drop_id drop_drop)
qed

text \<open>\<^verbatim>\<open>TextEncoder.encode\<close>: one byte below 128, two bytes from there on.\<close>

fun utf8 :: "string \<Rightarrow> bytes" where
  "utf8 [] = []"
| "utf8 (c # cs) =
     (let n = of_char c :: nat
      in (if n < 128 then [of_nat n] else [of_nat (192 + n div 64), of_nat (128 + n mod 64)]) @ utf8 cs)"

section \<open>Sets in insertion order\<close>

definition set_add :: "'a \<Rightarrow> 'a list \<Rightarrow> 'a list" where
  "set_add x xs = (if x \<in> set xs then xs else xs @ [x])"

lemma set_set_add [simp]: "set (set_add x xs) = insert x (set xs)"
  by (auto simp: set_add_def)

lemma distinct_set_add [simp]: "distinct (set_add x xs) \<longleftrightarrow> distinct xs"
  by (auto simp: set_add_def)

text \<open>\<^verbatim>\<open>[...new Set(xs)]\<close>: the distinct elements in the order of their first occurrence.\<close>

definition js_unique :: "'a list \<Rightarrow> 'a list" where
  "js_unique xs = fold set_add xs []"

lemma set_fold_set_add [simp]: "set (fold set_add xs acc) = set acc \<union> set xs"
  by (induction xs arbitrary: acc) auto

lemma distinct_fold_set_add: "distinct acc \<Longrightarrow> distinct (fold set_add xs acc)"
  by (induction xs arbitrary: acc) auto

lemma set_js_unique [simp]: "set (js_unique xs) = set xs"
  by (simp add: js_unique_def)

lemma distinct_js_unique [simp]: "distinct (js_unique xs)"
  by (simp add: js_unique_def distinct_fold_set_add)

lemma js_unique_eq_Nil [simp]: "js_unique xs = [] \<longleftrightarrow> xs = []"
  by (metis set_empty set_js_unique)

section \<open>Text\<close>

text \<open>
  \<^verbatim>\<open>trim\<close> removes white space at both ends (below code point 256: tab to carriage return, space and
  the no-break space); \<^verbatim>\<open>toLowerCase\<close> shifts the letters of ASCII and of Latin-1.
\<close>

definition is_space :: "char \<Rightarrow> bool" where
  "is_space c = (let n = of_char c :: nat in (9 \<le> n \<and> n \<le> 13) \<or> n = 32 \<or> n = 160)"

definition str_trim :: "string \<Rightarrow> string" where
  "str_trim s = rev (dropWhile is_space (rev (dropWhile is_space s)))"

definition lower_char :: "char \<Rightarrow> char" where
  "lower_char c =
     (let n = of_char c :: nat
      in if (65 \<le> n \<and> n \<le> 90) \<or> (192 \<le> n \<and> n \<le> 222 \<and> n \<noteq> 215) then char_of (n + 32) else c)"

definition toLowerCase :: "string \<Rightarrow> string" where
  "toLowerCase s = map lower_char s"

fun join_with :: "string \<Rightarrow> string list \<Rightarrow> string" where
  "join_with sep [] = []"
| "join_with sep [x] = x"
| "join_with sep (x # y # ys) = x @ sep @ join_with sep (y # ys)"

fun show_nat :: "nat \<Rightarrow> string" where
  "show_nat n = (if n < 10 then [char_of (48 + n)] else show_nat (n div 10) @ [char_of (48 + n mod 10)])"

declare show_nat.simps [simp del]

definition digits_val :: "string \<Rightarrow> nat" where
  "digits_val s = foldl (\<lambda>a c. 10 * a + (of_char c - 48)) 0 s"

lemma digits_val_show_nat [simp]: "digits_val (show_nat n) = n"
proof (induction n rule: show_nat.induct)
  case (1 n)
  show ?case
  proof (cases "n < 10")
    case True
    then show ?thesis by (simp add: show_nat.simps [of n] digits_val_def)
  next
    case False
    then have "digits_val (show_nat (n div 10)) = n div 10" using 1 by simp
    then show ?thesis using False by (simp add: show_nat.simps [of n] digits_val_def)
  qed
qed

lemma show_nat_nonempty [simp]: "show_nat n \<noteq> []"
  by (simp add: show_nat.simps [of n])

lemma show_nat_inj [simp]: "show_nat m = show_nat n \<longleftrightarrow> m = n"
  by (metis digits_val_show_nat)

definition show_int :: "int \<Rightarrow> string" where
  "show_int i = (if i < 0 then ''-'' @ show_nat (nat (- i)) else show_nat (nat i))"

text \<open>\<^verbatim>\<open>byte.toString(16).padStart(2, '0')\<close> for each byte.\<close>

definition hex_digit :: "nat \<Rightarrow> char" where
  "hex_digit n = (if n < 10 then char_of (48 + n) else char_of (87 + n))"

definition hex_bytes :: "bytes \<Rightarrow> string" where
  "hex_bytes bs = concat (map (\<lambda>b. [hex_digit (unat b div 16), hex_digit (unat b mod 16)]) bs)"

lemma hex_digit_inj: "hex_digit m = hex_digit n \<Longrightarrow> m < 16 \<Longrightarrow> n < 16 \<Longrightarrow> m = n"
  by (simp add: hex_digit_def split: if_splits)

lemma hex_bytes_Cons: "hex_bytes (b # bs) = hex_digit (unat b div 16) # hex_digit (unat b mod 16) # hex_bytes bs"
  by (simp add: hex_bytes_def)

lemma byte_nibbles: "unat (b :: byte) div 16 < 16" "unat (b :: byte) mod 16 < 16"
  using unsigned_less [of b, where 'a = nat] by auto

lemma hex_bytes_inj [simp]: "hex_bytes a = hex_bytes b \<longleftrightarrow> a = b"
proof
  show "hex_bytes a = hex_bytes b \<Longrightarrow> a = b"
  proof (induction a arbitrary: b)
    case Nil
    then show ?case by (cases b) (simp_all add: hex_bytes_def)
  next
    case (Cons x a)
    then obtain y b' where b: "b = y # b'" by (cases b) (simp_all add: hex_bytes_def)
    have "unat x div 16 = unat y div 16" "unat x mod 16 = unat y mod 16" "hex_bytes a = hex_bytes b'"
      using Cons.prems b hex_digit_inj byte_nibbles by (simp_all add: hex_bytes_Cons)
    then show ?case using Cons.IH b by (metis div_mult_mod_eq unsigned_word_eqI)
  qed
qed simp

text \<open>A text is determined by its bytes.\<close>

lemma byte_of_nat_inj: "m < 256 \<Longrightarrow> n < 256 \<Longrightarrow> (of_nat m :: byte) = of_nat n \<longleftrightarrow> m = n"
  by (simp add: of_nat_inverse word_of_nat_eq_iff take_bit_eq_mod)

lemma utf8_char: "utf8 [c] = (if (of_char c :: nat) < 128 then [of_nat (of_char c)]
    else [of_nat (192 + of_char c div 64), of_nat (128 + of_char c mod 64)])"
  by (simp add: Let_def)

lemma utf8_char_prefix_free:
  assumes "utf8 [c] @ x = utf8 [d] @ y"
  shows "c = d \<and> x = y"
proof -
  define m n where mn: "m = (of_char c :: nat)" "n = (of_char d :: nat)"
  have b: "m < 256" "n < 256" by (simp_all add: mn)
  have "m div 64 < 4" "n div 64 < 4" "m mod 64 < 64" "n mod 64 < 64" using b by auto
  then have w: "192 + m div 64 < 256" "192 + n div 64 < 256" "128 + m mod 64 < 256" "128 + n mod 64 < 256"
    by linarith+
  have eq: "(if m < 128 then [of_nat m] else [of_nat (192 + m div 64), of_nat (128 + m mod 64)]) @ x
        = (if n < 128 then [of_nat n :: byte] else [of_nat (192 + n div 64), of_nat (128 + n mod 64)]) @ y"
    using assms unfolding utf8_char mn .
  have "m = n \<and> x = y"
  proof (cases "m < 128"; cases "n < 128")
    assume "\<not> m < 128" "\<not> n < 128"
    then have "192 + m div 64 = 192 + n div 64 \<and> 128 + m mod 64 = 128 + n mod 64 \<and> x = y"
      using eq w byte_of_nat_inj [of "192 + m div 64" "192 + n div 64"]
        byte_of_nat_inj [of "128 + m mod 64" "128 + n mod 64"] by (simp del: of_nat_add)
    then show ?thesis by (metis add_left_cancel div_mult_mod_eq)
  next
    assume "m < 128" "\<not> n < 128"
    then show ?thesis using eq w b byte_of_nat_inj [of m "192 + n div 64"] by (simp del: of_nat_add)
  next
    assume "\<not> m < 128" "n < 128"
    then show ?thesis using eq w b byte_of_nat_inj [of "192 + m div 64" n] by (simp del: of_nat_add)
  next
    assume "m < 128" "n < 128"
    then show ?thesis using eq b byte_of_nat_inj [of m n] by simp
  qed
  then show ?thesis by (simp add: mn)
qed

lemma utf8_Cons: "utf8 (c # cs) = utf8 [c] @ utf8 cs"
  by (simp add: Let_def)

lemma utf8_inj [simp]: "utf8 a = utf8 b \<longleftrightarrow> a = b"
proof
  show "utf8 a = utf8 b \<Longrightarrow> a = b"
  proof (induction a arbitrary: b)
    case Nil
    then show ?case by (cases b) (auto simp: Let_def split: if_splits)
  next
    case (Cons c a)
    obtain d b' where b: "b = d # b'" using Cons.prems by (cases b) (auto simp: Let_def split: if_splits)
    have "utf8 [c] @ utf8 a = utf8 [d] @ utf8 b'" using Cons.prems b utf8_Cons by metis
    then show ?case using utf8_char_prefix_free Cons.IH b by blast
  qed
qed simp

lemma dropWhile_idem [simp]: "dropWhile P (dropWhile P xs) = dropWhile P xs"
  by (metis dropWhile_eq_Nil_conv dropWhile_eq_self_iff hd_dropWhile)

lemma dropWhile_rev_keeps_hd:
  assumes "\<not> P (hd xs)" "xs \<noteq> []"
  shows "rev (dropWhile P (rev xs)) \<noteq> [] \<and> hd (rev (dropWhile P (rev xs))) = hd xs"
proof -
  from assms obtain y ys where xs: "xs = y # ys" "\<not> P y" by (cases xs) auto
  then have "dropWhile P (rev xs) = (if \<forall>x\<in>set ys. P x then [y] else dropWhile P (rev ys) @ [y])"
    by (auto simp: dropWhile_append)
  then show ?thesis using xs by auto
qed

lemma str_trim_idem [simp]: "str_trim (str_trim s) = str_trim s"
proof -
  define t where "t = dropWhile is_space s"
  have trim: "str_trim s = rev (dropWhile is_space (rev t))" by (simp add: str_trim_def t_def)
  have "dropWhile is_space (str_trim s) = str_trim s"
  proof (cases "t = []")
    case False
    then have "\<not> is_space (hd t)" by (simp add: t_def hd_dropWhile)
    then have "\<not> is_space (hd (str_trim s))"
      using dropWhile_rev_keeps_hd [OF _ False] trim by simp
    then show ?thesis by (simp add: dropWhile_eq_self_iff)
  qed (simp add: trim)
  then show ?thesis by (simp add: str_trim_def [of "str_trim s"]) (simp add: trim)
qed

section \<open>Operations that change state and may throw\<close>

text \<open>
  An asynchronous method of the code is a function from the state to its outcome, \<open>Inl error\<close> when
  it throws, and the state it leaves: what was written before a throw stays written. Most code only
  tells errors apart by their message, a string.
\<close>

type_synonym ('s, 'e, 'a) eop = "'s \<Rightarrow> ('e + 'a) \<times> 's"
type_synonym ('s, 'a) op = "('s, string, 'a) eop"

definition ret :: "'a \<Rightarrow> ('s, 'e, 'a) eop" where
  "ret x = (\<lambda>s. (Inr x, s))"

definition throw :: "'e \<Rightarrow> ('s, 'e, 'a) eop" where
  "throw e = (\<lambda>s. (Inl e, s))"

definition bindM :: "('s, 'e, 'a) eop \<Rightarrow> ('a \<Rightarrow> ('s, 'e, 'b) eop) \<Rightarrow> ('s, 'e, 'b) eop" where
  "bindM m f = (\<lambda>s. case m s of (Inl e, s') \<Rightarrow> (Inl e, s') | (Inr x, s') \<Rightarrow> f x s')"

definition catchM :: "('s, 'e, 'a) eop \<Rightarrow> ('e \<Rightarrow> ('s, 'e, 'a) eop) \<Rightarrow> ('s, 'e, 'a) eop" where
  "catchM m h = (\<lambda>s. case m s of (Inl e, s') \<Rightarrow> h e s' | (Inr x, s') \<Rightarrow> (Inr x, s'))"

definition getM :: "('s \<Rightarrow> 'a) \<Rightarrow> ('s, 'e, 'a) eop" where
  "getM f = (\<lambda>s. (Inr (f s), s))"

definition modM :: "('s \<Rightarrow> 's) \<Rightarrow> ('s, 'e, unit) eop" where
  "modM f = (\<lambda>s. (Inr (), f s))"

definition liftE :: "'e + 'a \<Rightarrow> ('s, 'e, 'a) eop" where
  "liftE r = (\<lambda>s. (r, s))"

fun forM :: "'a list \<Rightarrow> ('a \<Rightarrow> ('s, 'e, unit) eop) \<Rightarrow> ('s, 'e, unit) eop" where
  "forM [] f = ret ()"
| "forM (x # xs) f = bindM (f x) (\<lambda>_. forM xs f)"

text \<open>The loops of the code that count: the sum of the counts of the iterations.\<close>

fun countM :: "'a list \<Rightarrow> ('a \<Rightarrow> ('s, 'e, nat) eop) \<Rightarrow> ('s, 'e, nat) eop" where
  "countM [] f = ret 0"
| "countM (x # xs) f = bindM (f x) (\<lambda>n. bindM (countM xs f) (\<lambda>m. ret (n + m)))"

lemma ret_run [op_simps]: "ret x s = (Inr x, s)"
  by (simp add: ret_def)

lemma throw_run [op_simps]: "throw e s = (Inl e, s)"
  by (simp add: throw_def)

lemma getM_run [op_simps]: "getM f s = (Inr (f s), s)"
  by (simp add: getM_def)

lemma modM_run [op_simps]: "modM f s = (Inr (), f s)"
  by (simp add: modM_def)

lemma liftE_run [op_simps]: "liftE r s = (r, s)"
  by (simp add: liftE_def)

lemma bindM_run [op_simps]:
  "bindM m f s = (case fst (m s) of Inl e \<Rightarrow> (Inl e, snd (m s)) | Inr x \<Rightarrow> f x (snd (m s)))"
  by (simp add: bindM_def split: prod.splits sum.splits)

lemma catchM_run [op_simps]:
  "catchM m h s = (case fst (m s) of Inl e \<Rightarrow> h e (snd (m s)) | Inr x \<Rightarrow> (Inr x, snd (m s)))"
  by (simp add: catchM_def split: prod.splits sum.splits)

text \<open>An operation keeps a predicate when no run of it, thrown or not, leaves the predicate.\<close>

definition keeps :: "('s \<Rightarrow> bool) \<Rightarrow> ('s, 'e, 'a) eop \<Rightarrow> bool" where
  "keeps P m \<longleftrightarrow> (\<forall>s. P s \<longrightarrow> P (snd (m s)))"

lemma keepsD: "keeps P m \<Longrightarrow> P s \<Longrightarrow> m s = (r, s') \<Longrightarrow> P s'"
  by (metis keeps_def snd_conv)

lemma keeps_ret [keeps_intros]: "keeps P (ret x)"
  by (simp add: keeps_def op_simps)

lemma keeps_throw [keeps_intros]: "keeps P (throw e)"
  by (simp add: keeps_def op_simps)

lemma keeps_getM [keeps_intros]: "keeps P (getM f)"
  by (simp add: keeps_def op_simps)

lemma keeps_liftE [keeps_intros]: "keeps P (liftE r)"
  by (simp add: keeps_def op_simps)

lemma keeps_modM: "(\<And>s. P s \<Longrightarrow> P (f s)) \<Longrightarrow> keeps P (modM f)"
  by (simp add: keeps_def op_simps)

lemma keeps_bindM [keeps_intros]:
  assumes "keeps P m" "\<And>x. keeps P (f x)"
  shows "keeps P (bindM m f)"
  using assms by (auto simp: keeps_def op_simps split: prod.splits sum.splits)

lemma keeps_catchM [keeps_intros]:
  assumes "keeps P m" "\<And>e. keeps P (h e)"
  shows "keeps P (catchM m h)"
  using assms by (auto simp: keeps_def op_simps split: prod.splits sum.splits)

lemma keeps_if [keeps_intros]:
  "(b \<Longrightarrow> keeps P m) \<Longrightarrow> (\<not> b \<Longrightarrow> keeps P n) \<Longrightarrow> keeps P (if b then m else n)"
  by simp

lemma keeps_option [keeps_intros]:
  "keeps P m \<Longrightarrow> (\<And>x. v = Some x \<Longrightarrow> keeps P (f x)) \<Longrightarrow> keeps P (case v of None \<Rightarrow> m | Some x \<Rightarrow> f x)"
  by (cases v) auto

lemma keeps_forM [keeps_intros]: "(\<And>x. x \<in> set xs \<Longrightarrow> keeps P (f x)) \<Longrightarrow> keeps P (forM xs f)"
  by (induction xs) (auto intro!: keeps_intros)

lemma keeps_countM [keeps_intros]: "(\<And>x. x \<in> set xs \<Longrightarrow> keeps P (f x)) \<Longrightarrow> keeps P (countM xs f)"
  by (induction xs) (auto intro!: keeps_intros)

text \<open>Code that only computes, and may throw, is a sum.\<close>

definition bindE :: "'e + 'a \<Rightarrow> ('a \<Rightarrow> 'e + 'b) \<Rightarrow> 'e + 'b" where
  "bindE r f = (case r of Inl e \<Rightarrow> Inl e | Inr x \<Rightarrow> f x)"

lemma bindE_simps [simp]: "bindE (Inl e) f = Inl e" "bindE (Inr x) f = f x"
  by (simp_all add: bindE_def)

lemma bindE_Inr: "bindE r f = Inr y \<longleftrightarrow> (\<exists>x. r = Inr x \<and> f x = Inr y)"
  by (cases r) auto

text \<open>A check before the rest: \<^verbatim>\<open>if (bad) throw new Error(e)\<close>.\<close>

definition throw_if :: "bool \<Rightarrow> 'e \<Rightarrow> 'e + unit" where
  "throw_if bad e = (if bad then Inl e else Inr ())"

lemma throw_if_Inr [simp]: "throw_if bad e = Inr u \<longleftrightarrow> \<not> bad"
  by (simp add: throw_if_def)

lemma bindE_throw_if_Inr [simp]: "bindE (throw_if bad e) f = Inr y \<longleftrightarrow> \<not> bad \<and> f () = Inr y"
  by (simp add: throw_if_def)

section \<open>Association lists\<close>

lemma map_of_delete_key: "map_of (AList.delete k xs) = (map_of xs)(k := None)"
  by (rule delete_conv')

lemma map_of_update_key: "map_of (AList.update k v xs) = (map_of xs)(k \<mapsto> v)"
  by (rule update_conv')

lemma distinct_keys_update [simp]: "distinct (map fst (AList.update k v xs)) = distinct (map fst xs)"
proof
  show "distinct (map fst xs) \<Longrightarrow> distinct (map fst (AList.update k v xs))"
    by (rule distinct_update)
  show "distinct (map fst (AList.update k v xs)) \<Longrightarrow> distinct (map fst xs)"
    by (induction xs) (auto simp: dom_update split: if_splits)
qed

lemma map_of_in_values: "map_of xs k = Some v \<Longrightarrow> v \<in> snd ` set xs"
  by (metis image_eqI map_of_SomeD snd_conv)

end
