(* ===== verification/Rdf.thy ===== *)
theory Rdf
  imports Prelude
begin

text \<open>
  RDF quads and what the publisher does to them before they are hashed:
  \<^verbatim>\<open>packages/core/src/crypto/canonicalize.ts\<close> (the N-Triple line of a triple and its hash),
  \<^verbatim>\<open>packages/core/src/crypto/root-entity.ts\<close>, and of \<^verbatim>\<open>packages/publisher/src\<close> the files
  \<^verbatim>\<open>skolemize.ts\<close>, \<^verbatim>\<open>auto-partition.ts\<close> and \<^verbatim>\<open>validation.ts\<close>.
  The lemmas show that a partition has no blank-node subjects, that each group holds only its root
  entity and skolemized children of it, and that no other quad is lost, so that the partition of a
  data set passes the validation rules of the receiving node.
\<close>

section \<open>Quads and terms\<close>

record Quad =
  subject :: string
  predicate :: string
  object :: string
  graph :: string

definition formatTerm :: "string \<Rightarrow> string" where
  "formatTerm term =
     (if startsWith term [CHR 0x22] then term
      else if startsWith term ''_:'' then term
      else if startsWith term ''<'' then term
      else ''<'' @ term @ ''>'')"

definition formatNTriple :: "string \<Rightarrow> string \<Rightarrow> string \<Rightarrow> string" where
  "formatNTriple s p obj = formatTerm s @ '' '' @ formatTerm p @ '' '' @ formatTerm obj @ '' .''"

text \<open>The hash of one triple; \<open>h\<close> is \<^verbatim>\<open>sha256\<close> in \<^verbatim>\<open>hashTriple\<close> and \<^verbatim>\<open>keccak256\<close> in \<^verbatim>\<open>hashTripleV10\<close>.\<close>

definition hashTriple :: "(bytes \<Rightarrow> bytes) \<Rightarrow> string \<Rightarrow> string \<Rightarrow> string \<Rightarrow> bytes" where
  "hashTriple h s p obj = h (utf8 (formatNTriple s p obj))"

definition hashTripleV10 :: "(bytes \<Rightarrow> bytes) \<Rightarrow> string \<Rightarrow> string \<Rightarrow> string \<Rightarrow> bytes" where
  "hashTripleV10 h s p obj = h (utf8 (formatNTriple s p obj))"

fun resolveRootEntitiesLoop :: "(string \<times> Quad list) list \<Rightarrow> Quad list \<Rightarrow> (string \<times> Quad list) list" where
  "resolveRootEntitiesLoop entities [] = entities"
| "resolveRootEntitiesLoop entities (q # qs) =
     (if startsWith (subject q) ''_:'' then resolveRootEntitiesLoop entities qs
      else let group = (case map_of entities (subject q) of None \<Rightarrow> [] | Some g \<Rightarrow> g)
           in resolveRootEntitiesLoop (AList.update (subject q) (group @ [q]) entities) qs)"

definition resolveRootEntities :: "Quad list \<Rightarrow> (string \<times> Quad list) list" where
  "resolveRootEntities quads = resolveRootEntitiesLoop [] quads"

section \<open>Skolemization\<close>

definition GENID_SEGMENT :: string where
  "GENID_SEGMENT = ''/.well-known/genid/''"

definition isBlankNode :: "string \<Rightarrow> bool" where
  "isBlankNode term = startsWith term ''_:''"

definition isSkolemizedUri :: "string \<Rightarrow> bool" where
  "isSkolemizedUri uri = str_includes uri GENID_SEGMENT"

definition rootEntityFromSkolemized :: "string \<Rightarrow> string option" where
  "rootEntityFromSkolemized uri =
     (case indexOf uri GENID_SEGMENT of None \<Rightarrow> None | Some idx \<Rightarrow> Some (take idx uri))"

fun collectBlankNodes :: "string list \<Rightarrow> Quad list \<Rightarrow> string list" where
  "collectBlankNodes bs [] = bs"
| "collectBlankNodes bs (q # qs) =
     (let bs1 = (if isBlankNode (subject q) then set_add (subject q) bs else bs);
          bs2 = (if isBlankNode (object q) then set_add (object q) bs1 else bs1)
      in collectBlankNodes bs2 qs)"

definition skolemUri :: "string \<Rightarrow> string \<Rightarrow> string" where
  "skolemUri rootEntity bn = rootEntity @ GENID_SEGMENT @ drop 2 bn"

definition skolemize :: "string \<Rightarrow> Quad list \<Rightarrow> Quad list" where
  "skolemize rootEntity quads =
     (let blankNodes = collectBlankNodes [] quads in
      if blankNodes = [] then quads
      else let mapping = map (\<lambda>bn. (bn, skolemUri rootEntity bn)) blankNodes;
               look = (\<lambda>t. case map_of mapping t of None \<Rightarrow> t | Some u \<Rightarrow> u)
           in map (\<lambda>q. \<lparr>subject = look (subject q), predicate = predicate q,
                        object = look (object q), graph = graph q\<rparr>) quads)"

section \<open>Partition into knowledge assets\<close>

fun findRootEntities :: "string list \<Rightarrow> Quad list \<Rightarrow> string list" where
  "findRootEntities rs [] = rs"
| "findRootEntities rs (q # qs) =
     findRootEntities
       (if \<not> isBlankNode (subject q) \<and> \<not> isSkolemizedUri (subject q) then set_add (subject q) rs else rs) qs"

type_synonym blank_map = "(string \<times> string) list"

fun assignDirect :: "string list \<Rightarrow> blank_map \<Rightarrow> Quad list \<Rightarrow> blank_map" where
  "assignDirect roots m [] = m"
| "assignDirect roots m (q # qs) =
     assignDirect roots
       (if subject q \<in> set roots \<and> isBlankNode (object q)
        then AList.update (object q) (subject q) m else m) qs"

text \<open>One pass of the propagation loop; the flag is \<^verbatim>\<open>changed\<close>.\<close>

fun propagatePass :: "blank_map \<Rightarrow> bool \<Rightarrow> Quad list \<Rightarrow> blank_map \<times> bool" where
  "propagatePass m changed [] = (m, changed)"
| "propagatePass m changed (q # qs) =
     (if isBlankNode (subject q) \<and> map_of m (subject q) \<noteq> None
         \<and> isBlankNode (object q) \<and> map_of m (object q) = None
      then propagatePass (AList.update (object q) (the (map_of m (subject q))) m) True qs
      else propagatePass m changed qs)"

lemma propagatePass_grows:
  "propagatePass m ch qs = (m', ch') \<Longrightarrow>
     dom (map_of m) \<subseteq> dom (map_of m') \<and> (ch \<longrightarrow> ch') \<and>
     (\<not> ch \<and> ch' \<longrightarrow> (\<exists>q \<in> set qs. object q \<in> dom (map_of m') - dom (map_of m)))"
proof (induction m ch qs rule: propagatePass.induct)
  case (2 m ch q qs)
  show ?case
  proof (cases "isBlankNode (subject q) \<and> map_of m (subject q) \<noteq> None
      \<and> isBlankNode (object q) \<and> map_of m (object q) = None")
    case True
    with "2.prems" "2.IH"(1) have
      "dom (map_of (AList.update (object q) (the (map_of m (subject q))) m)) \<subseteq> dom (map_of m')" "ch'"
      by simp_all
    then have "dom (map_of m) \<subseteq> dom (map_of m')" "object q \<in> dom (map_of m')"
      by (simp_all add: update_conv')
    moreover have "object q \<notin> dom (map_of m)" using True by auto
    ultimately show ?thesis using \<open>ch'\<close> by simp
  next
    case False
    with "2.prems" have "propagatePass m ch qs = (m', ch')" by (simp only: propagatePass.simps if_False)
    from "2.IH"(2) [OF False this] show ?thesis by auto
  qed
qed auto

lemma propagatePass_shrinks:
  assumes "propagatePass m False qs = (m', True)"
  shows "card (object ` set qs - dom (map_of m')) < card (object ` set qs - dom (map_of m))"
  using propagatePass_grows [OF assms] by (intro psubset_card_mono) auto

function propagate :: "Quad list \<Rightarrow> blank_map \<Rightarrow> blank_map" where
  "propagate quads m =
     (let (m', changed) = propagatePass m False quads
      in if changed then propagate quads m' else m')"
  by pat_completeness auto
termination
  by (relation "measure (\<lambda>(quads, m). card (object ` set quads - dom (map_of m)))")
    (auto dest: propagatePass_shrinks [OF sym])

declare propagate.simps [simp del]

text \<open>
  The quads of one root entity: its own, and those of the blank nodes assigned to it.
\<close>

definition quadsOfRoot :: "blank_map \<Rightarrow> Quad list \<Rightarrow> string \<Rightarrow> Quad list" where
  "quadsOfRoot m quads r =
     filter (\<lambda>q. subject q = r \<or> isBlankNode (subject q) \<and> map_of m (subject q) = Some r) quads"

fun pushSkolemized :: "(string \<times> Quad list) list \<Rightarrow> Quad list \<Rightarrow> (string \<times> Quad list) list" where
  "pushSkolemized groups [] = groups"
| "pushSkolemized groups (q # qs) =
     pushSkolemized
       (if isSkolemizedUri (subject q)
        then case rootEntityFromSkolemized (subject q) of
               None \<Rightarrow> groups
             | Some r \<Rightarrow> (if r = [] then groups
                        else case map_of groups r of
                               None \<Rightarrow> groups
                             | Some g \<Rightarrow> AList.update r (g @ [q]) groups)
        else groups) qs"

definition blankToRoot :: "Quad list \<Rightarrow> blank_map" where
  "blankToRoot quads = propagate quads (assignDirect (findRootEntities [] quads) [] quads)"

definition autoPartition :: "Quad list \<Rightarrow> (string \<times> Quad list) list" where
  "autoPartition quads =
     (let rootEntities = findRootEntities [] quads;
          m = blankToRoot quads;
          groups = map (\<lambda>r. (r, skolemize r (quadsOfRoot m quads r))) rootEntities
      in pushSkolemized groups quads)"

section \<open>Validation of a publish request\<close>

record KAManifestEntry =
  tokenId :: nat
  rootEntity :: string
  privateMerkleRoot :: "bytes option"
  privateTripleCount :: "int option"

datatype rule_error =
    Rule1 string string
  | Rule2 string
  | Rule3 string
  | Rule4 string string
  | Rule5 string

record ValidationOptions =
  allowUpsert :: bool
  upsertableEntities :: "string list option"
  expectedGraph :: "string option"

definition no_options :: ValidationOptions where
  "no_options = \<lparr>allowUpsert = False, upsertableEntities = None, expectedGraph = None\<rparr>"

definition hasPublicTriples :: "Quad list \<Rightarrow> KAManifestEntry \<Rightarrow> bool" where
  "hasPublicTriples nquads m =
     list_ex (\<lambda>q. subject q = rootEntity m \<or>
       isSkolemizedUri (subject q) \<and> rootEntityFromSkolemized (subject q) = Some (rootEntity m)) nquads"

definition rule2_ok :: "string list \<Rightarrow> string \<Rightarrow> bool" where
  "rule2_ok rootEntities s =
     (s \<in> set rootEntities \<or>
      isSkolemizedUri s \<and> (case rootEntityFromSkolemized s of
                             None \<Rightarrow> False | Some r \<Rightarrow> r \<noteq> [] \<and> r \<in> set rootEntities))"

definition validatePublishRequest ::
  "Quad list \<Rightarrow> KAManifestEntry list \<Rightarrow> string \<Rightarrow> string list \<Rightarrow> ValidationOptions \<Rightarrow> bool \<times> rule_error list"
where
  "validatePublishRequest nquads manifest contextGraphId existingEntities options =
     (let contextGraph = (case expectedGraph options of
                            Some g \<Rightarrow> g | None \<Rightarrow> ''did:dkg:context-graph:'' @ contextGraphId);
          rootEntities = map rootEntity manifest;
          e1 = map (\<lambda>q. Rule1 (graph q) contextGraph)
                 (filter (\<lambda>q. graph q \<noteq> [] \<and> graph q \<noteq> contextGraph) nquads);
          e2 = map (\<lambda>q. Rule2 (subject q)) (filter (\<lambda>q. \<not> rule2_ok rootEntities (subject q)) nquads);
          e3 = map (\<lambda>m. Rule3 (rootEntity m))
                 (filter (\<lambda>m. let pub = hasPublicTriples nquads m;
                                 fullyPrivate = ((case privateTripleCount m of None \<Rightarrow> 0 | Some n \<Rightarrow> n) > 0 \<and> \<not> pub)
                             in \<not> pub \<and> \<not> fullyPrivate) manifest);
          e4 = map (\<lambda>m. Rule4 (rootEntity m) contextGraphId)
                 (filter (\<lambda>m. rootEntity m \<in> set existingEntities \<and>
                    \<not> (allowUpsert options \<and>
                        (case upsertableEntities options of None \<Rightarrow> False | Some us \<Rightarrow> rootEntity m \<in> set us)))
                   manifest);
          e5 = map (\<lambda>q. Rule5 (subject q)) (filter (\<lambda>q. isBlankNode (subject q)) nquads);
          errors = e1 @ e2 @ e3 @ e4 @ e5
      in (errors = [], errors))"

section \<open>What a partition contains\<close>

definition skolemTerm :: "string \<Rightarrow> string \<Rightarrow> string" where
  "skolemTerm r t = (if isBlankNode t then skolemUri r t else t)"

definition skolemQuad :: "string \<Rightarrow> Quad \<Rightarrow> Quad" where
  "skolemQuad r q = q\<lparr>subject := skolemTerm r (subject q), object := skolemTerm r (object q)\<rparr>"

lemma set_collectBlankNodes:
  "set (collectBlankNodes bs qs) =
     set bs \<union> {t \<in> subject ` set qs \<union> object ` set qs. isBlankNode t}"
  by (induction bs qs rule: collectBlankNodes.induct) (auto simp: Let_def)

lemma map_of_same_fun: "map_of (map (\<lambda>x. (x, f x)) xs) t = (if t \<in> set xs then Some (f t) else None)"
  by (induction xs) auto

lemma skolemize_map: "skolemize r qs = map (skolemQuad r) qs"
proof (cases "collectBlankNodes [] qs = []")
  case True
  then have "{t \<in> subject ` set qs \<union> object ` set qs. isBlankNode t} = {}"
    using set_collectBlankNodes [of "[]" qs] by simp
  then have "map (skolemQuad r) qs = map (\<lambda>q. q) qs"
    by (intro map_cong) (auto simp: skolemQuad_def skolemTerm_def)
  with True show ?thesis by (simp add: skolemize_def)
next
  case False
  have "t \<in> subject ` set qs \<union> object ` set qs \<Longrightarrow>
    (case map_of (map (\<lambda>bn. (bn, skolemUri r bn)) (collectBlankNodes [] qs)) t of
       None \<Rightarrow> t | Some u \<Rightarrow> u) = skolemTerm r t" for t
    by (auto simp: map_of_same_fun set_collectBlankNodes skolemTerm_def)
  with False show ?thesis
    by (auto simp: skolemize_def skolemQuad_def Let_def intro!: map_cong Quad.equality)
qed

lemma set_findRootEntities:
  "set (findRootEntities rs qs) =
     set rs \<union> {s \<in> subject ` set qs. \<not> isBlankNode s \<and> \<not> isSkolemizedUri s}"
  by (induction rs qs rule: findRootEntities.induct) auto

lemma distinct_findRootEntities: "distinct rs \<Longrightarrow> distinct (findRootEntities rs qs)"
  by (induction rs qs rule: findRootEntities.induct) auto

definition pushed :: "string \<Rightarrow> Quad \<Rightarrow> bool" where
  "pushed r q \<longleftrightarrow> r \<noteq> [] \<and> rootEntityFromSkolemized (subject q) = Some r"

lemma rootEntity_skolemized: "rootEntityFromSkolemized s = Some r \<Longrightarrow> isSkolemizedUri s"
  by (auto simp: rootEntityFromSkolemized_def isSkolemizedUri_def str_includes_def split: option.splits)

lemma pushSkolemized_keys: "map fst (pushSkolemized gs qs) = map fst gs"
  by (induction gs qs rule: pushSkolemized.induct)
    (auto simp: update_keys map_of_eq_None_iff split: option.splits dest: map_of_SomeD intro: rev_image_eqI)

lemma pushSkolemized_group:
  "map_of (pushSkolemized gs qs) r = map_option (\<lambda>g. g @ filter (pushed r) qs) (map_of gs r)"
proof (induction gs qs rule: pushSkolemized.induct)
  case (1 gs)
  then show ?case by (simp add: option.map_ident)
next
  case (2 gs q qs)
  let ?gs = "if isSkolemizedUri (subject q)
        then case rootEntityFromSkolemized (subject q) of
               None \<Rightarrow> gs
             | Some r \<Rightarrow> (if r = [] then gs
                        else case map_of gs r of
                               None \<Rightarrow> gs
                             | Some g \<Rightarrow> AList.update r (g @ [q]) gs)
        else gs"
  have "map_of ?gs r = map_option (\<lambda>g. g @ (if pushed r q then [q] else [])) (map_of gs r)"
    by (auto simp: pushed_def update_conv' map_option_case split: option.splits
        dest: rootEntity_skolemized)
  with 2 show ?case by (simp add: option.map_comp comp_def)
qed

lemma autoPartition_keys: "map fst (autoPartition qs) = findRootEntities [] qs"
  by (simp add: autoPartition_def pushSkolemized_keys comp_def)

lemma autoPartition_group:
  "map_of (autoPartition qs) r =
     (if r \<in> set (findRootEntities [] qs)
      then Some (map (skolemQuad r) (quadsOfRoot (blankToRoot qs) qs r) @ filter (pushed r) qs)
      else None)"
  by (simp add: autoPartition_def pushSkolemized_group map_of_same_fun skolemize_map)

lemma autoPartition_mem:
  "(r, g) \<in> set (autoPartition qs) \<longleftrightarrow>
     r \<in> set (findRootEntities [] qs) \<and>
     g = map (skolemQuad r) (quadsOfRoot (blankToRoot qs) qs r) @ filter (pushed r) qs"
proof -
  have "distinct (map fst (autoPartition qs))"
    by (simp add: autoPartition_keys distinct_findRootEntities)
  then show ?thesis
    using map_of_eq_Some_iff [of "autoPartition qs" r g] by (auto simp: autoPartition_group split: if_splits)
qed

text \<open>A child URI lies under its root.\<close>

lemma pushed_subject: "pushed r q \<Longrightarrow> \<exists>l. subject q = r @ GENID_SEGMENT @ l"
  using indexOf_split by (fastforce simp: pushed_def rootEntityFromSkolemized_def split: option.splits)

lemma group_subject:
  assumes "(r, g) \<in> set (autoPartition qs)" and "q \<in> set g"
  shows "subject q = r \<or> (\<exists>l. subject q = r @ GENID_SEGMENT @ l)"
proof -
  from assms(1) have r: "\<not> isBlankNode r"
    by (auto simp: autoPartition_mem set_findRootEntities)
  from assms consider
      q' where "q = skolemQuad r q'" "subject q' = r \<or> isBlankNode (subject q')"
    | "pushed r q"
    by (auto simp: autoPartition_mem quadsOfRoot_def)
  then show ?thesis
  proof cases
    case 1
    then show ?thesis
      using r by (auto simp: skolemQuad_def skolemTerm_def skolemUri_def)
  next
    case 2
    then show ?thesis using pushed_subject by blast
  qed
qed

lemma not_blank_append:
  assumes "\<not> isBlankNode r"
  shows "\<not> isBlankNode (r @ GENID_SEGMENT @ l)"
proof -
  consider "r = []" | c where "r = [c]" | c d r' where "r = c # d # r'"
    by (metis list.exhaust)
  then show ?thesis
    using assms by cases (auto simp: isBlankNode_def startsWith_def GENID_SEGMENT_def)
qed

text \<open>
  \<^verbatim>\<open>rootEntityFromSkolemized\<close> cuts at the first occurrence of the segment.  It recovers the root
  whenever the root neither contains the segment nor ends with it up to the final slash.
\<close>

lemma GENID_border:
  "0 < k \<Longrightarrow> k < length GENID_SEGMENT \<Longrightarrow>
   drop k GENID_SEGMENT = take (length GENID_SEGMENT - k) GENID_SEGMENT \<Longrightarrow> k = 18"
proof -
  assume a: "0 < k" "k < length GENID_SEGMENT"
    "drop k GENID_SEGMENT = take (length GENID_SEGMENT - k) GENID_SEGMENT"
  have "\<forall>k \<in> set [1..<19]. drop k GENID_SEGMENT = take (19 - k) GENID_SEGMENT \<longrightarrow> k = 18"
    by code_simp
  moreover have len: "length GENID_SEGMENT = 19" by (simp add: GENID_SEGMENT_def)
  moreover have "k \<in> set [1..<19]" using a(1,2) len by simp
  ultimately show "k = 18" using a(3) by (metis len)
qed

definition clean_root :: "string \<Rightarrow> bool" where
  "clean_root r \<longleftrightarrow> \<not> isSkolemizedUri r \<and> \<not> suffix (take 18 GENID_SEGMENT) r"

lemma rootEntity_of_child:
  assumes "clean_root r"
  shows "rootEntityFromSkolemized (r @ GENID_SEGMENT @ l) = Some r"
proof -
  let ?G = GENID_SEGMENT and ?u = "r @ GENID_SEGMENT @ l"
  have G: "length ?G = 19" by (simp add: GENID_SEGMENT_def)
  obtain n where n: "n \<le> length r" "indexOf ?u ?G = Some n"
    using indexOf_append by blast
  have occ: "take 19 (drop n ?u) = ?G"
    using indexOf_Some [OF n(2)] G by (simp add: startsWith_def)
  have "n = length r"
  proof (rule ccontr)
    assume "n \<noteq> length r"
    define k where "k = length r - n"
    have k: "0 < k" "n + k = length r" using n(1) \<open>n \<noteq> length r\<close> by (simp_all add: k_def)
    have u: "drop n ?u = drop n r @ ?G @ l" and dr: "length (drop n r) = k"
      using k by (simp_all)
    show False
    proof (cases "19 \<le> k")
      case True
      then have "take 19 (drop n r) = ?G" using occ dr by (simp only: u) simp
      then have "r = take n r @ ?G @ drop 19 (drop n r)"
        by (metis append_take_drop_id)
      then have "\<exists>m. indexOf r ?G = Some m" using indexOf_append by metis
      with assms show False by (auto simp: clean_root_def isSkolemizedUri_def str_includes_def)
    next
      case False
      then have "drop n r @ take (19 - k) ?G = ?G" using occ dr G by (simp only: u) simp
      then have split: "drop n r = take k ?G" "take (19 - k) ?G = drop k ?G"
        using dr by (metis append_eq_conv_conj)+
      then have "k = 18" using GENID_border [of k] k(1) G False by simp
      then have "suffix (take 18 ?G) r" using split(1) suffix_drop by metis
      with assms show False by (simp add: clean_root_def)
    qed
  qed
  with n(2) show ?thesis by (simp add: rootEntityFromSkolemized_def)
qed

lemma child_is_skolemized: "isSkolemizedUri (r @ GENID_SEGMENT @ l)"
  using indexOf_append [of r GENID_SEGMENT l] by (auto simp: isSkolemizedUri_def str_includes_def)

text \<open>
  The conversion is total on the quads it is meant for: every quad whose subject is a root entity,
  a blank node reachable from one, or a skolemized child of one is in exactly the group of its root.
\<close>

definition placedUnder :: "Quad list \<Rightarrow> Quad \<Rightarrow> string \<Rightarrow> bool" where
  "placedUnder qs q r \<longleftrightarrow>
     r \<in> set (findRootEntities [] qs) \<and>
     (subject q = r \<or> isBlankNode (subject q) \<and> map_of (blankToRoot qs) (subject q) = Some r \<or> pushed r q)"

lemma partition_no_loss:
  assumes "q \<in> set qs" and "placedUnder qs q r"
  shows "\<exists>g. (r, g) \<in> set (autoPartition qs) \<and> (skolemQuad r q \<in> set g \<or> q \<in> set g)"
  using assms by (auto simp: placedUnder_def autoPartition_mem quadsOfRoot_def)

lemma rule_filters:
  assumes "\<forall>q \<in> set nq. graph q = [] \<or> graph q = ''did:dkg:context-graph:'' @ cg"
    and "\<forall>q \<in> set nq. rule2_ok (map rootEntity manifest) (subject q)"
    and "\<forall>m \<in> set manifest. hasPublicTriples nq m"
    and "\<forall>q \<in> set nq. \<not> isBlankNode (subject q)"
  shows "validatePublishRequest nq manifest cg [] no_options = (True, [])"
  using assms by (auto simp: validatePublishRequest_def no_options_def Let_def filter_empty_conv)

lemma partition_validates:
  assumes graphs: "\<forall>q \<in> set qs. graph q = [] \<or> graph q = ''did:dkg:context-graph:'' @ cg"
    and roots: "\<forall>r \<in> set (findRootEntities [] qs). r \<noteq> [] \<and> clean_root r"
    and manifest: "map rootEntity manifest = map fst (autoPartition qs)"
  shows "validatePublishRequest (concat (map snd (autoPartition qs))) manifest cg [] no_options = (True, [])"
proof (rule rule_filters)
  let ?nq = "concat (map snd (autoPartition qs))"
  have mem: "\<exists>r g. (r, g) \<in> set (autoPartition qs) \<and> q \<in> set g" if "q \<in> set ?nq" for q
    using that by fastforce
  have root_of: "r \<in> set (map rootEntity manifest)" "r \<noteq> []" "clean_root r" "\<not> isBlankNode r"
    if "(r, g) \<in> set (autoPartition qs)" for r g
    using that roots by (auto simp: manifest autoPartition_keys autoPartition_mem set_findRootEntities)
  show "\<forall>q \<in> set ?nq. graph q = [] \<or> graph q = ''did:dkg:context-graph:'' @ cg"
    using graphs by (fastforce simp: autoPartition_mem quadsOfRoot_def skolemQuad_def)
  show "\<forall>q \<in> set ?nq. rule2_ok (map rootEntity manifest) (subject q)"
  proof
    fix q assume "q \<in> set ?nq"
    then obtain r g where g: "(r, g) \<in> set (autoPartition qs)" "q \<in> set g" using mem by blast
    from group_subject [OF this] root_of [OF g(1)] show "rule2_ok (map rootEntity manifest) (subject q)"
      by (auto simp: rule2_ok_def child_is_skolemized rootEntity_of_child)
  qed
  show "\<forall>q \<in> set ?nq. \<not> isBlankNode (subject q)"
  proof
    fix q assume "q \<in> set ?nq"
    then obtain r g where g: "(r, g) \<in> set (autoPartition qs)" "q \<in> set g" using mem by blast
    from group_subject [OF this] root_of(4) [OF g(1)] show "\<not> isBlankNode (subject q)"
      by (auto simp: not_blank_append)
  qed
  show "\<forall>m \<in> set manifest. hasPublicTriples ?nq m"
  proof
    fix m assume "m \<in> set manifest"
    then have "rootEntity m \<in> set (map fst (autoPartition qs))" by (simp flip: manifest)
    then obtain g where g: "(rootEntity m, g) \<in> set (autoPartition qs)" by auto
    then obtain q where "q \<in> set qs" "subject q = rootEntity m" "\<not> isBlankNode (rootEntity m)"
      by (auto simp: autoPartition_mem set_findRootEntities)
    then have "subject (skolemQuad (rootEntity m) q) = rootEntity m"
      by (simp add: skolemQuad_def skolemTerm_def)
    moreover have "skolemQuad (rootEntity m) q \<in> set g"
      using g \<open>q \<in> set qs\<close> \<open>subject q = rootEntity m\<close>
      by (auto simp: autoPartition_mem quadsOfRoot_def)
    then have "skolemQuad (rootEntity m) q \<in> set ?nq"
      using g by (simp add: image_iff) (metis snd_conv)
    ultimately show "hasPublicTriples ?nq m" by (auto simp: hasPublicTriples_def list_ex_iff)
  qed
qed

end
