(* ===== verification/Merkle.thy ===== *)
theory Merkle
  imports Prelude
begin

text \<open>
  The Merkle trees of \<^verbatim>\<open>packages/core/src/crypto\<close>: \<^verbatim>\<open>merkle.ts\<close> (SHA-256 pair hashing, leaves sorted)
  and \<^verbatim>\<open>v10-merkle.ts\<close> (keccak256 pair hashing, leaves sorted and deduplicated), and the proof material
  the random-sampling prover submits (\<^verbatim>\<open>proof-material.ts\<close>).

  The hash function comes from the package \<^verbatim>\<open>@noble/hashes\<close> and is the parameter \<open>h\<close> of the
  definitions.  Completeness of the proofs needs nothing about \<open>h\<close>; the binding theorems assume that
  digests have 32 bytes and that \<open>h\<close> does not collide on the finitely many strings actually hashed.
\<close>

section \<open>Comparing and hashing\<close>

fun compareBytes :: "bytes \<Rightarrow> bytes \<Rightarrow> int" where
  "compareBytes (x # xs) (y # ys) = (if x \<noteq> y then uint x - uint y else compareBytes xs ys)"
| "compareBytes a b = int (length a) - int (length b)"

definition hashPair :: "(bytes \<Rightarrow> bytes) \<Rightarrow> bytes \<Rightarrow> bytes \<Rightarrow> bytes" where
  "hashPair h left right = h (left @ right)"

fun hashRow :: "(bytes \<Rightarrow> bytes) \<Rightarrow> bytes list \<Rightarrow> bytes list" where
  "hashRow h (a # b # rest) = hashPair h a b # hashRow h rest"
| "hashRow h xs = []"

section \<open>Building the layers\<close>

text \<open>The odd layer is replaced by the layer with its last node repeated.\<close>

definition padLayer :: "bytes list \<Rightarrow> bytes list" where
  "padLayer current = (if odd (length current) then current @ [last current] else current)"

lemma length_hashRow [simp]: "length (hashRow h xs) = length xs div 2"
  by (induction h xs rule: hashRow.induct) auto

lemma length_padLayer: "length (padLayer xs) = 2 * ((length xs + 1) div 2)"
  by (simp add: padLayer_def)

function buildTree :: "(bytes \<Rightarrow> bytes) \<Rightarrow> bytes list \<Rightarrow> bytes list list" where
  "buildTree h current =
     (if length current > 1
      then let current' = padLayer current; next_row = hashRow h current'
           in current' # buildTree h next_row
      else [current])"
  by pat_completeness auto
termination
  by (relation "measure (\<lambda>(h, xs). length xs)") (auto simp: length_padLayer)

declare buildTree.simps [simp del]

record MerkleTree =
  layers :: "bytes list list"
  originalLeafCount :: nat

definition MerkleTree_new :: "(bytes \<Rightarrow> bytes) \<Rightarrow> bytes list \<Rightarrow> MerkleTree" where
  "MerkleTree_new h leaves =
     (if leaves = [] then \<lparr>layers = [[]], originalLeafCount = 0\<rparr>
      else let sorted = js_sort compareBytes leaves
           in \<lparr>layers = buildTree h sorted, originalLeafCount = length sorted\<rparr>)"

text \<open>\<^verbatim>\<open>V10MerkleTree\<close> drops a leaf that equals its predecessor in the sorted array.\<close>

fun dedupeAfter :: "bytes \<Rightarrow> bytes list \<Rightarrow> bytes list" where
  "dedupeAfter prev [] = []"
| "dedupeAfter prev (x # xs) =
     (if compareBytes x prev \<noteq> 0 then x # dedupeAfter x xs else dedupeAfter x xs)"

fun dedupe :: "bytes list \<Rightarrow> bytes list" where
  "dedupe [] = []"
| "dedupe (x # xs) = x # dedupeAfter x xs"

definition V10MerkleTree_new :: "(bytes \<Rightarrow> bytes) \<Rightarrow> bytes list \<Rightarrow> MerkleTree" where
  "V10MerkleTree_new h leaves =
     (if leaves = [] then \<lparr>layers = [[]], originalLeafCount = 0\<rparr>
      else let deduped = dedupe (js_sort compareBytes leaves)
           in \<lparr>layers = buildTree h deduped, originalLeafCount = length deduped\<rparr>)"

definition root :: "MerkleTree \<Rightarrow> bytes" where
  "root t = (if hd (layers t) = [] then zero32 else hd (last (layers t)))"

definition leafCount :: "MerkleTree \<Rightarrow> nat" where
  "leafCount t = originalLeafCount t"

section \<open>Proofs of inclusion\<close>

datatype range_error = RangeError int

fun proofLoop :: "bytes list list \<Rightarrow> nat \<Rightarrow> bytes list" where
  "proofLoop [] idx = []"
| "proofLoop (current # rest) idx =
     (let siblingIdx = (if idx mod 2 = 0 then idx + 1 else idx - 1)
      in (if siblingIdx < length current then [current ! siblingIdx] else [])
         @ proofLoop rest (idx div 2))"

definition proof_at :: "MerkleTree \<Rightarrow> int \<Rightarrow> range_error + bytes list" where
  "proof_at t leafIndex =
     (if leafIndex < 0 \<or> leafIndex \<ge> int (originalLeafCount t) then Inl (RangeError leafIndex)
      else Inr (proofLoop (butlast (layers t)) (nat leafIndex)))"

definition leafAt :: "MerkleTree \<Rightarrow> int \<Rightarrow> range_error + bytes" where
  "leafAt t leafIndex =
     (if leafIndex < 0 \<or> leafIndex \<ge> int (originalLeafCount t) then Inl (RangeError leafIndex)
      else Inr (hd (layers t) ! nat leafIndex))"

fun verifyLoop :: "(bytes \<Rightarrow> bytes) \<Rightarrow> bytes \<Rightarrow> int \<Rightarrow> bytes list \<Rightarrow> bytes" where
  "verifyLoop h hash idx [] = hash"
| "verifyLoop h hash idx (sibling # proof) =
     verifyLoop h (if idx mod 2 = 0 then hashPair h hash sibling else hashPair h sibling hash)
       (idx div 2) proof"

definition verify :: "(bytes \<Rightarrow> bytes) \<Rightarrow> bytes \<Rightarrow> bytes \<Rightarrow> bytes list \<Rightarrow> int \<Rightarrow> bool" where
  "verify h rt leaf proof leafIndex \<longleftrightarrow> compareBytes (verifyLoop h leaf leafIndex proof) rt = 0"

section \<open>Knowledge-asset and knowledge-collection roots\<close>

definition computeKARoot :: "(bytes \<Rightarrow> bytes) \<Rightarrow> bytes option \<Rightarrow> bytes option \<Rightarrow> bytes" where
  "computeKARoot h publicRoot privateRoot =
     (case (publicRoot, privateRoot) of
        (Some pub, Some priv) \<Rightarrow> hashPair h pub priv
      | (Some pub, None) \<Rightarrow> pub
      | (None, Some priv) \<Rightarrow> priv
      | (None, None) \<Rightarrow> zero32)"

definition computeKCRoot :: "(bytes \<Rightarrow> bytes) \<Rightarrow> bytes list \<Rightarrow> bytes" where
  "computeKCRoot h kaRoots = root (MerkleTree_new h kaRoots)"

definition computeKCRootV10 :: "(bytes \<Rightarrow> bytes) \<Rightarrow> bytes list \<Rightarrow> bytes" where
  "computeKCRootV10 h kaRoots = root (V10MerkleTree_new h kaRoots)"

section \<open>Proof material for the random-sampling prover\<close>

record V10ProofMaterial =
  leaf :: bytes
  proof_siblings :: "bytes list"
  merkleRoot :: bytes
  materialLeafCount :: nat

record V10MerkleCommitment =
  expectedRoot :: bytes
  merkleLeafCount :: nat

datatype v10_proof_error =
    V10ProofRootMismatchError bytes bytes
  | V10ProofLeafCountMismatchError nat nat
  | V10ProofChunkOutOfRangeError int nat
  | V10RangeError int

definition bytesEqual :: "bytes \<Rightarrow> bytes \<Rightarrow> bool" where
  "bytesEqual a b =
     (if length a \<noteq> length b then False else list_all (\<lambda>i. a ! i = b ! i) [0..<length a])"

text \<open>
  The calls of \<^verbatim>\<open>leafAt\<close> and \<^verbatim>\<open>proof\<close> inside the returned object may throw a \<^verbatim>\<open>RangeError\<close>, which
  then escapes the function.
\<close>

definition buildV10ProofMaterial ::
  "(bytes \<Rightarrow> bytes) \<Rightarrow> bytes list \<Rightarrow> int \<Rightarrow> V10MerkleCommitment \<Rightarrow> v10_proof_error + V10ProofMaterial"
where
  "buildV10ProofMaterial h rawLeaves chunkId expected =
     (let tree = V10MerkleTree_new h rawLeaves in
      if leafCount tree \<noteq> merkleLeafCount expected
      then Inl (V10ProofLeafCountMismatchError (leafCount tree) (merkleLeafCount expected))
      else if \<not> bytesEqual (root tree) (expectedRoot expected)
      then Inl (V10ProofRootMismatchError (root tree) (expectedRoot expected))
      else if chunkId < 0 \<or> chunkId \<ge> int (leafCount tree)
      then Inl (V10ProofChunkOutOfRangeError chunkId (leafCount tree))
      else case leafAt tree chunkId of
             Inl (RangeError i) \<Rightarrow> Inl (V10RangeError i)
           | Inr lf \<Rightarrow>
               (case proof_at tree chunkId of
                  Inl (RangeError i) \<Rightarrow> Inl (V10RangeError i)
                | Inr pf \<Rightarrow> Inr \<lparr>leaf = lf, proof_siblings = pf, merkleRoot = root tree,
                                 materialLeafCount = leafCount tree\<rparr>))"

definition verifyV10ProofMaterial ::
  "(bytes \<Rightarrow> bytes) \<Rightarrow> V10ProofMaterial \<Rightarrow> int \<Rightarrow> V10MerkleCommitment \<Rightarrow> bool"
where
  "verifyV10ProofMaterial h material chunkId expected =
     (if materialLeafCount material \<noteq> merkleLeafCount expected then False
      else if \<not> bytesEqual (merkleRoot material) (expectedRoot expected) then False
      else verify h (expectedRoot expected) (leaf material) (proof_siblings material) chunkId)"

section \<open>The order of leaves\<close>

lemma compareBytes_eq [simp]: "compareBytes a b = 0 \<longleftrightarrow> a = b"
  by (induction a b rule: compareBytes.induct) (auto simp: word_uint_eq_iff)

lemma compareBytes_sign:
  "(compareBytes a b \<le> 0 \<longrightarrow> a \<le> b) \<and> (0 < compareBytes a b \<longrightarrow> b \<le> a)"
  by (induction a b rule: compareBytes.induct) (auto simp: word_less_alt word_uint_eq_iff)

interpretation cb: linear_comparator compareBytes
  by unfold_locales (use compareBytes_sign in auto)

lemma bytesEqual_iff [simp]: "bytesEqual a b \<longleftrightarrow> a = b"
  by (auto simp: bytesEqual_def list_all_iff intro: nth_equalityI)

lemma set_dedupeAfter: "insert p (set (dedupeAfter p xs)) = insert p (set xs)"
  by (induction p xs rule: dedupeAfter.induct) auto

lemma set_dedupe [simp]: "set (dedupe xs) = set xs"
  by (cases xs) (use set_dedupeAfter in auto)

lemma dedupeAfter_sorted:
  "sorted (p # xs) \<Longrightarrow> sorted_wrt (<) (p # dedupeAfter p xs)"
proof (induction p xs rule: dedupeAfter.induct)
  case (2 p x xs)
  then have "sorted_wrt (<) (x # dedupeAfter x xs)" by (cases "x = p") auto
  with "2.prems" show ?case by (auto intro: order.strict_trans1)
qed auto

lemma dedupe_sorted: "sorted xs \<Longrightarrow> sorted_wrt (<) (dedupe xs)"
  using dedupeAfter_sorted by (cases xs) auto

lemma dedupe_sort: "dedupe (js_sort compareBytes xs) = sorted_list_of_set (set xs)"
proof -
  have "sorted_wrt (<) (dedupe (sort xs))" by (rule dedupe_sorted) simp
  then have "sorted_list_of_set (set (dedupe (sort xs))) = dedupe (sort xs)"
    by (simp only: sorted_list_of_set.idem_if_sorted_distinct strict_sorted_iff)
  then show ?thesis by (simp add: cb.js_sort_is_sort)
qed


section \<open>Completeness: every leaf has a proof that verifies\<close>

lemma buildTree_step:
  "1 < length xs \<Longrightarrow> buildTree h xs = padLayer xs # buildTree h (hashRow h (padLayer xs))"
  by (subst buildTree.simps) (simp add: Let_def)

lemma buildTree_stop: "\<not> 1 < length xs \<Longrightarrow> buildTree h xs = [xs]"
  by (subst buildTree.simps) simp

lemma buildTree_ne [simp]: "buildTree h xs \<noteq> []"
  by (cases "1 < length xs") (simp_all add: buildTree_step buildTree_stop)

lemma padLayer_nth [simp]: "i < length xs \<Longrightarrow> padLayer xs ! i = xs ! i"
  by (simp add: padLayer_def nth_append)

lemma hd_buildTree_nth: "i < length xs \<Longrightarrow> hd (buildTree h xs) ! i = xs ! i"
  by (cases "1 < length xs") (simp_all add: buildTree_step buildTree_stop)

lemma hd_buildTree_Nil [simp]: "hd (buildTree h xs) = [] \<longleftrightarrow> xs = []"
  by (cases "1 < length xs") (auto simp: buildTree_step buildTree_stop padLayer_def)

lemma hashRow_nth:
  "j < length xs div 2 \<Longrightarrow> hashRow h xs ! j = hashPair h (xs ! (2 * j)) (xs ! (2 * j + 1))"
proof (induction h xs arbitrary: j rule: hashRow.induct)
  case (1 h a b rest)
  then show ?case by (cases j) auto
qed auto

text \<open>One layer of a proof: hashing a node with its sibling gives the parent.\<close>

lemma hash_with_sibling:
  assumes "even (length ys)" and "i < length ys"
  shows "(if i mod 2 = 0 then hashPair h (ys ! i) (ys ! (i + 1))
          else hashPair h (ys ! (i - 1)) (ys ! i)) = hashRow h ys ! (i div 2)"
proof -
  from assms have j: "i div 2 < length ys div 2" by presburger
  show ?thesis
  proof (cases "i mod 2 = 0")
    case True
    then have "i = 2 * (i div 2)" by presburger
    with hashRow_nth [OF j, of h] True show ?thesis by simp
  next
    case False
    then have "i - 1 = 2 * (i div 2)" and "i = 2 * (i div 2) + 1" by presburger+
    with hashRow_nth [OF j, of h] False show ?thesis by simp
  qed
qed

lemma sibling_in_layer:
  assumes "even (length ys)" and "i < length (ys :: 'a list)"
  shows "(if i mod 2 = 0 then i + 1 else i - 1) < length ys"
  using assms by (auto elim!: evenE)

lemma verifyLoop_buildTree:
  "i < length xs \<Longrightarrow>
   verifyLoop h (xs ! i) (int i) (proofLoop (butlast (buildTree h xs)) i)
     = hd (last (buildTree h xs))"
proof (induction h xs arbitrary: i rule: buildTree.induct)
  case (1 h xs)
  show ?case
  proof (cases "1 < length xs")
    case False
    with "1.prems" have "i = 0" and "xs \<noteq> []" by auto
    with False show ?thesis by (simp add: buildTree_stop hd_conv_nth)
  next
    case True
    let ?ys = "padLayer xs"
    let ?row = "hashRow h ?ys"
    have ev: "even (length ?ys)" by (simp add: length_padLayer)
    have i: "i < length ?ys" using "1.prems" by (simp add: length_padLayer)
    have row: "i div 2 < length ?row" using ev i by simp presburger
    have IH: "verifyLoop h (?row ! (i div 2)) (int (i div 2))
        (proofLoop (butlast (buildTree h ?row)) (i div 2)) = hd (last (buildTree h ?row))"
      by (rule "1.IH" [OF True refl refl row])
    have nth: "xs ! i = ?ys ! i" using "1.prems" by simp
    have par: "int i mod 2 = 0 \<longleftrightarrow> i mod 2 = 0" by presburger
    have div: "int i div 2 = int (i div 2)" by simp
    have step: "buildTree h xs = ?ys # buildTree h ?row"
      using True by (rule buildTree_step)
    show ?thesis
      using IH hash_with_sibling [OF ev i, of h] sibling_in_layer [OF ev i]
      by (cases "i mod 2 = 0") (simp_all add: step nth par div)
  qed
qed

text \<open>
  The contract the proof builders rely on: an indexed list of leaves under a root, each of which
  can be opened, and nothing beyond.
\<close>

locale vector_commitment =
  fixes leaves_of :: "'t \<Rightarrow> bytes list"
    and root_of :: "'t \<Rightarrow> bytes"
    and open_at :: "'t \<Rightarrow> int \<Rightarrow> range_error + bytes list"
    and leaf_at :: "'t \<Rightarrow> int \<Rightarrow> range_error + bytes"
    and check :: "bytes \<Rightarrow> bytes \<Rightarrow> bytes list \<Rightarrow> int \<Rightarrow> bool"
  assumes open_in_range: "i < length (leaves_of t) \<Longrightarrow>
      \<exists>p. open_at t (int i) = Inr p \<and> check (root_of t) (leaves_of t ! i) p (int i)"
    and leaf_in_range: "i < length (leaves_of t) \<Longrightarrow> leaf_at t (int i) = Inr (leaves_of t ! i)"
    and open_out_of_range: "k < 0 \<or> int (length (leaves_of t)) \<le> k \<Longrightarrow> open_at t k = Inl (RangeError k)"
    and leaf_out_of_range: "k < 0 \<or> int (length (leaves_of t)) \<le> k \<Longrightarrow> leaf_at t k = Inl (RangeError k)"
begin

lemma open_ok_iff: "(\<exists>p. open_at t k = Inr p) \<longleftrightarrow> 0 \<le> k \<and> k < int (length (leaves_of t))"
proof (cases "0 \<le> k \<and> k < int (length (leaves_of t))")
  case True
  then have k: "nat k < length (leaves_of t)" "int (nat k) = k" by auto
  from open_in_range [OF k(1)] have "\<exists>p. open_at t k = Inr p" by (auto simp only: k(2))
  with True show ?thesis by simp
next
  case False
  with open_out_of_range [of k t] show ?thesis by auto
qed

lemma opened_leaf_checks:
  assumes "open_at t k = Inr p" and "leaf_at t k = Inr lf"
  shows "check (root_of t) lf p k"
proof -
  have k: "0 \<le> k \<and> k < int (length (leaves_of t))" using assms(1) open_ok_iff by blast
  then have n: "nat k < length (leaves_of t)" "int (nat k) = k" by auto
  from open_in_range [OF n(1)] leaf_in_range [OF n(1)] assms show ?thesis
    by (auto simp only: n(2) sum.inject)
qed

end

text \<open>Both trees are instances: a tree is given by the leaves its constructor received.\<close>

definition sortedLeaves :: "bytes list \<Rightarrow> bytes list" where
  "sortedLeaves leaves = js_sort compareBytes leaves"

definition v10Leaves :: "bytes list \<Rightarrow> bytes list" where
  "v10Leaves leaves = dedupe (js_sort compareBytes leaves)"

definition treeOf :: "(bytes \<Rightarrow> bytes) \<Rightarrow> bytes list \<Rightarrow> MerkleTree" where
  "treeOf h xs = \<lparr>layers = (if xs = [] then [[]] else buildTree h xs), originalLeafCount = length xs\<rparr>"

lemma dedupe_eq_Nil [simp]: "dedupe xs = [] \<longleftrightarrow> xs = []"
  by (cases xs) auto

lemma MerkleTree_new_treeOf: "MerkleTree_new h leaves = treeOf h (sortedLeaves leaves)"
  by (simp add: MerkleTree_new_def treeOf_def sortedLeaves_def Let_def)

lemma V10MerkleTree_new_treeOf: "V10MerkleTree_new h leaves = treeOf h (v10Leaves leaves)"
  by (simp add: V10MerkleTree_new_def treeOf_def v10Leaves_def Let_def)

lemma treeOf_open:
  assumes "i < length xs"
  shows "proof_at (treeOf h xs) (int i) = Inr (proofLoop (butlast (buildTree h xs)) i)"
    and "verify h (root (treeOf h xs)) (xs ! i) (proofLoop (butlast (buildTree h xs)) i) (int i)"
    and "leafAt (treeOf h xs) (int i) = Inr (xs ! i)"
  using assms verifyLoop_buildTree [OF assms, of h]
  by (auto simp: proof_at_def treeOf_def verify_def root_def leafAt_def hd_buildTree_nth)

lemma treeOf_out_of_range:
  assumes "k < 0 \<or> int (length xs) \<le> k"
  shows "proof_at (treeOf h xs) k = Inl (RangeError k)" "leafAt (treeOf h xs) k = Inl (RangeError k)"
  using assms by (auto simp: proof_at_def leafAt_def treeOf_def)

interpretation mt: vector_commitment sortedLeaves "\<lambda>ls. root (MerkleTree_new h ls)"
  "\<lambda>ls. proof_at (MerkleTree_new h ls)" "\<lambda>ls. leafAt (MerkleTree_new h ls)" "verify h" for h
  by unfold_locales (auto simp: MerkleTree_new_treeOf intro: treeOf_open treeOf_out_of_range)

interpretation v10: vector_commitment v10Leaves "\<lambda>ls. root (V10MerkleTree_new h ls)"
  "\<lambda>ls. proof_at (V10MerkleTree_new h ls)" "\<lambda>ls. leafAt (V10MerkleTree_new h ls)" "verify h" for h
  by unfold_locales (auto simp: V10MerkleTree_new_treeOf intro: treeOf_open treeOf_out_of_range)

section \<open>Binding\<close>

text \<open>
  The strings that are hashed while a proof is checked, and while a tree is built.  The binding
  theorems ask the hash function to be injective on these finitely many strings only.
\<close>

fun verifyInputs :: "(bytes \<Rightarrow> bytes) \<Rightarrow> bytes \<Rightarrow> int \<Rightarrow> bytes list \<Rightarrow> bytes list" where
  "verifyInputs h hash idx [] = []"
| "verifyInputs h hash idx (s # ps) =
     (let inp = (if idx mod 2 = 0 then hash @ s else s @ hash)
      in inp # verifyInputs h (h inp) (idx div 2) ps)"

fun rowInputs :: "bytes list \<Rightarrow> bytes list" where
  "rowInputs (a # b # rest) = (a @ b) # rowInputs rest"
| "rowInputs xs = []"

definition treeInputs :: "(bytes \<Rightarrow> bytes) \<Rightarrow> bytes list \<Rightarrow> bytes list" where
  "treeInputs h xs = concat (map rowInputs (butlast (buildTree h xs)))"

lemma verifyLoop_Cons:
  "verifyLoop h a i (s # ps) =
     verifyLoop h (h (if i mod 2 = 0 then a @ s else s @ a)) (i div 2) ps"
  by (simp add: hashPair_def)

lemma verifyLoop_inj:
  assumes "\<And>x. length (h x) = n"
  shows "length a = length b \<Longrightarrow> length p = length q \<Longrightarrow>
    inj_on h (set (verifyInputs h a i p) \<union> set (verifyInputs h b i q)) \<Longrightarrow>
    verifyLoop h a i p = verifyLoop h b i q \<Longrightarrow> a = b \<and> p = q"
proof (induction p arbitrary: a b i q)
  case Nil
  then show ?case by simp
next
  case (Cons s ps)
  then obtain t qs where q: "q = t # qs" by (cases q) auto
  let ?x = "if i mod 2 = 0 then a @ s else s @ a"
  let ?y = "if i mod 2 = 0 then b @ t else t @ b"
  have inj: "inj_on h (set (verifyInputs h (h ?x) (i div 2) ps)
      \<union> set (verifyInputs h (h ?y) (i div 2) qs))"
    using Cons.prems(3) by (rule inj_on_subset) (auto simp: q Let_def)
  have "verifyLoop h (h ?x) (i div 2) ps = verifyLoop h (h ?y) (i div 2) qs"
    using Cons.prems(4) by (simp only: q verifyLoop_Cons)
  then have "h ?x = h ?y \<and> ps = qs"
    using Cons.prems(2) inj by (intro Cons.IH) (simp_all add: assms q)
  moreover have "?x \<in> set (verifyInputs h a i (s # ps))" "?y \<in> set (verifyInputs h b i q)"
    by (simp_all add: q Let_def)
  ultimately have "?x = ?y" "ps = qs"
    using Cons.prems(3) by (auto simp only: inj_on_def)
  then show ?case using Cons.prems(1) by (cases "i mod 2 = 0") (simp_all add: q)
qed

lemma hashRow_inputs: "hashRow h xs = map h (rowInputs xs)"
  by (induction h xs rule: hashRow.induct) (auto simp: hashPair_def)

lemma rowInputs_inj:
  "even (length xs) \<Longrightarrow> length xs = length ys \<Longrightarrow> \<forall>x \<in> set xs \<union> set ys. length x = n \<Longrightarrow>
   rowInputs xs = rowInputs ys \<Longrightarrow> xs = ys"
proof (induction xs arbitrary: ys rule: rowInputs.induct)
  case (1 a b rest)
  then obtain c d ys' where "ys = c # d # ys'"
    by (metis Suc_length_conv length_Cons)
  with 1 show ?case by auto
qed auto

lemma padLayer_inj: "length xs = length ys \<Longrightarrow> padLayer xs = padLayer ys \<Longrightarrow> xs = ys"
  by (auto simp: padLayer_def split: if_splits)

lemma set_padLayer: "xs \<noteq> [] \<Longrightarrow> set (padLayer xs) = set xs"
  by (auto simp: padLayer_def)

lemma treeInputs_step:
  "1 < length xs \<Longrightarrow>
   treeInputs h xs = rowInputs (padLayer xs) @ treeInputs h (hashRow h (padLayer xs))"
  by (simp add: treeInputs_def buildTree_step)

lemma set_hashRow: "set (hashRow h xs) \<subseteq> range h"
  by (auto simp: hashRow_inputs)

lemma buildTree_inj:
  assumes dig: "\<And>x. length (h x) = n"
  shows "length xs = length ys \<Longrightarrow> xs \<noteq> [] \<Longrightarrow> \<forall>x \<in> set xs \<union> set ys. length x = n \<Longrightarrow>
    inj_on h (set (treeInputs h xs) \<union> set (treeInputs h ys)) \<Longrightarrow>
    hd (last (buildTree h xs)) = hd (last (buildTree h ys)) \<Longrightarrow> xs = ys"
proof (induction "length xs" arbitrary: xs ys rule: less_induct)
  case less
  show ?case
  proof (cases "1 < length xs")
    case False
    with less.prems show ?thesis
      by (cases xs; cases ys) (auto simp: buildTree_stop)
  next
    case True
    let ?px = "padLayer xs" and ?py = "padLayer ys"
    let ?rx = "hashRow h ?px" and ?ry = "hashRow h ?py"
    have y: "1 < length ys" using True less.prems(1) by simp
    note steps = treeInputs_step [OF True, of h] treeInputs_step [OF y, of h]
      buildTree_step [OF True, of h] buildTree_step [OF y, of h]
    have len: "length ?px = length ?py" using less.prems(1) by (simp add: length_padLayer)
    have inj: "inj_on h (set (treeInputs h ?rx) \<union> set (treeInputs h ?ry))"
      using less.prems(4) by (rule inj_on_subset) (auto simp: steps)
    have "?rx = ?ry"
    proof (rule less.hyps [OF _ _ _ _ inj])
      show "length ?rx < length xs" using True by (simp add: length_padLayer)
      show "length ?rx = length ?ry" using len by simp
      show "?rx \<noteq> []" using True by (simp add: length_padLayer flip: length_greater_0_conv)
      show "\<forall>x \<in> set ?rx \<union> set ?ry. length x = n"
        using set_hashRow [of h ?px] set_hashRow [of h ?py] by (auto simp: dig)
      show "hd (last (buildTree h ?rx)) = hd (last (buildTree h ?ry))"
        using less.prems(5) by (simp add: steps)
    qed
    moreover have "inj_on h (set (rowInputs ?px) \<union> set (rowInputs ?py))"
      using less.prems(4) by (rule inj_on_subset) (auto simp: steps)
    ultimately have "rowInputs ?px = rowInputs ?py"
      by (simp add: hashRow_inputs inj_on_map_eq_map)
    moreover have "\<forall>x \<in> set ?px \<union> set ?py. length x = n"
      using less.prems(2,3) y by (subst (1 2) set_padLayer) auto
    ultimately have "?px = ?py"
      by (intro rowInputs_inj [OF _ len, of n]) (simp_all add: length_padLayer)
    with less.prems(1) show ?thesis by (rule padLayer_inj)
  qed
qed

end
