(* ===== verification/FlatKC.thy ===== *)
theory FlatKC
  imports Rdf Merkle
begin

text \<open>
  The commitment of a knowledge collection: \<^verbatim>\<open>packages/publisher/src/merkle.ts\<close>, the roots and leaf
  counts computed from quads, over the trees of \<^theory_text>\<open>Merkle\<close> and the triple hashes of
  \<^theory_text>\<open>Rdf\<close>.  The properties at the end state what the commitment guarantees between a
  publisher, the chain and a random-sampling prover.
\<close>

section \<open>Roots from quads\<close>

definition computeTripleHash :: "(bytes \<Rightarrow> bytes) \<Rightarrow> Quad \<Rightarrow> bytes" where
  "computeTripleHash h q = hashTriple h (subject q) (predicate q) (object q)"

definition computePublicRoot :: "(bytes \<Rightarrow> bytes) \<Rightarrow> Quad list \<Rightarrow> bytes option" where
  "computePublicRoot h publicQuads =
     (if publicQuads = [] then None
      else Some (root (MerkleTree_new h (map (computeTripleHash h) publicQuads))))"

definition computePrivateRoot :: "(bytes \<Rightarrow> bytes) \<Rightarrow> Quad list \<Rightarrow> bytes option" where
  "computePrivateRoot h privateQuads =
     (if privateQuads = [] then None
      else Some (root (MerkleTree_new h (map (computeTripleHash h) privateQuads))))"

definition computeFlatKCRoot :: "(bytes \<Rightarrow> bytes) \<Rightarrow> Quad list \<Rightarrow> bytes list \<Rightarrow> bytes" where
  "computeFlatKCRoot h publicQuads privateRoots =
     root (MerkleTree_new h (map (computeTripleHash h) publicQuads @ privateRoots))"

definition computeTripleHashV10 :: "(bytes \<Rightarrow> bytes) \<Rightarrow> Quad \<Rightarrow> bytes" where
  "computeTripleHashV10 h q = hashTripleV10 h (subject q) (predicate q) (object q)"

definition computePublicRootV10 :: "(bytes \<Rightarrow> bytes) \<Rightarrow> Quad list \<Rightarrow> bytes option" where
  "computePublicRootV10 h publicQuads =
     (if publicQuads = [] then None
      else Some (root (V10MerkleTree_new h (map (computeTripleHashV10 h) publicQuads))))"

definition computePrivateRootV10 :: "(bytes \<Rightarrow> bytes) \<Rightarrow> Quad list \<Rightarrow> bytes option" where
  "computePrivateRootV10 h privateQuads =
     (if privateQuads = [] then None
      else Some (root (V10MerkleTree_new h (map (computeTripleHashV10 h) privateQuads))))"

definition flatLeavesV10 :: "(bytes \<Rightarrow> bytes) \<Rightarrow> Quad list \<Rightarrow> bytes list \<Rightarrow> bytes list" where
  "flatLeavesV10 h publicQuads privateRoots = map (computeTripleHashV10 h) publicQuads @ privateRoots"

definition computeFlatKCRootV10 :: "(bytes \<Rightarrow> bytes) \<Rightarrow> Quad list \<Rightarrow> bytes list \<Rightarrow> bytes" where
  "computeFlatKCRootV10 h publicQuads privateRoots =
     root (V10MerkleTree_new h (flatLeavesV10 h publicQuads privateRoots))"

definition computeFlatKCMerkleLeafCountV10 :: "(bytes \<Rightarrow> bytes) \<Rightarrow> Quad list \<Rightarrow> bytes list \<Rightarrow> nat" where
  "computeFlatKCMerkleLeafCountV10 h publicQuads privateRoots =
     leafCount (V10MerkleTree_new h (flatLeavesV10 h publicQuads privateRoots))"

section \<open>Facts about the trees\<close>

lemma v10Leaves_set: "v10Leaves xs = sorted_list_of_set (set xs)"
  by (simp add: v10Leaves_def dedupe_sort)

lemma v10Leaves_cong: "set xs = set ys \<Longrightarrow> v10Leaves xs = v10Leaves ys"
  by (simp only: v10Leaves_set)

lemma leafCount_v10: "leafCount (V10MerkleTree_new h xs) = card (set xs)"
  by (simp add: leafCount_def V10MerkleTree_new_treeOf treeOf_def v10Leaves_set)

lemma length_v10Leaves: "length (v10Leaves xs) = card (set xs)"
  by (simp add: v10Leaves_set)

lemma V10_cong: "set xs = set ys \<Longrightarrow> V10MerkleTree_new h xs = V10MerkleTree_new h ys"
  by (simp only: V10MerkleTree_new_treeOf v10Leaves_set)

lemma root_treeOf: "root (treeOf h xs) = (if xs = [] then zero32 else hd (last (buildTree h xs)))"
  by (cases "xs = []") (simp_all add: root_def treeOf_def)

lemma buildV10_Inr:
  assumes "leafCount (V10MerkleTree_new h xs) = merkleLeafCount c"
    and "root (V10MerkleTree_new h xs) = expectedRoot c"
    and "0 \<le> k" "k < int (merkleLeafCount c)"
  shows "\<exists>m. buildV10ProofMaterial h xs k c = Inr m \<and> verifyV10ProofMaterial h m k c
    \<and> leaf m = v10Leaves xs ! nat k"
proof -
  let ?t = "V10MerkleTree_new h xs"
  have len: "length (v10Leaves xs) = leafCount ?t" by (simp add: leafCount_v10 length_v10Leaves)
  have n: "nat k < length (v10Leaves xs)" "int (nat k) = k" using assms(1,3,4) len by simp_all
  obtain p where p: "proof_at ?t k = Inr p" "verify h (root ?t) (v10Leaves xs ! nat k) p k"
    using v10.open_in_range [OF n(1), of h] by (auto simp only: n(2))
  have lf: "leafAt ?t k = Inr (v10Leaves xs ! nat k)"
    using v10.leaf_in_range [OF n(1), of h] by (simp only: n(2))
  show ?thesis
    using assms p lf by (simp add: buildV10ProofMaterial_def verifyV10ProofMaterial_def Let_def)
qed

section \<open>Properties\<close>

text \<open>
  C1. A knowledge collection can always be proved.  Whatever the public quads and private roots, for
  each chunk index below the leaf count that the publisher commits to, any node holding the same set
  of leaves (in any order, with any repetitions) builds proof material for that chunk, and the
  material passes the verifier against the commitment.
\<close>

theorem committed_kc_provable:
  assumes "set leaves = set (flatLeavesV10 h quads privateRoots)"
    and "0 \<le> chunkId" and "chunkId < int (computeFlatKCMerkleLeafCountV10 h quads privateRoots)"
  shows "\<exists>m. buildV10ProofMaterial h leaves chunkId
      \<lparr>expectedRoot = computeFlatKCRootV10 h quads privateRoots,
       merkleLeafCount = computeFlatKCMerkleLeafCountV10 h quads privateRoots\<rparr> = Inr m
    \<and> verifyV10ProofMaterial h m chunkId
      \<lparr>expectedRoot = computeFlatKCRootV10 h quads privateRoots,
       merkleLeafCount = computeFlatKCMerkleLeafCountV10 h quads privateRoots\<rparr>
    \<and> leaf m \<in> set leaves"
proof -
  let ?c = "\<lparr>expectedRoot = computeFlatKCRootV10 h quads privateRoots,
       merkleLeafCount = computeFlatKCMerkleLeafCountV10 h quads privateRoots\<rparr>"
  have tree: "V10MerkleTree_new h leaves = V10MerkleTree_new h (flatLeavesV10 h quads privateRoots)"
    using assms(1) by (rule V10_cong)
  have "nat chunkId < length (v10Leaves leaves)"
    using assms by (simp add: length_v10Leaves computeFlatKCMerkleLeafCountV10_def leafCount_v10)
  then have "v10Leaves leaves ! nat chunkId \<in> set leaves"
    by (metis List.finite_set nth_mem set_sorted_list_of_set v10Leaves_set)
  moreover have "\<exists>m. buildV10ProofMaterial h leaves chunkId ?c = Inr m
      \<and> verifyV10ProofMaterial h m chunkId ?c \<and> leaf m = v10Leaves leaves ! nat chunkId"
    using assms(2,3)
    by (intro buildV10_Inr)
      (simp_all add: tree computeFlatKCRootV10_def computeFlatKCMerkleLeafCountV10_def)
  ultimately show ?thesis by metis
qed

text \<open>A hash function for the examples: the first 32 bytes, padded with zeros.\<close>

definition pad32 :: "bytes \<Rightarrow> bytes" where
  "pad32 x = take 32 (x @ zero32)"

lemma length_pad32 [simp]: "length (pad32 x) = 32"
  by (simp add: pad32_def zero32_def)

definition sample_quads :: "Quad list" where
  "sample_quads =
     [\<lparr>subject = ''u:a'', predicate = ''u:p'', object = ''u:b'', graph = []\<rparr>,
      \<lparr>subject = ''u:b'', predicate = ''u:p'', object = ''u:c'', graph = ''g''\<rparr>]"

theorem committed_kc_provable_witness:
  "\<exists>m. buildV10ProofMaterial pad32 (rev (flatLeavesV10 pad32 sample_quads [zero32])) 2
      \<lparr>expectedRoot = computeFlatKCRootV10 pad32 sample_quads [zero32],
       merkleLeafCount = computeFlatKCMerkleLeafCountV10 pad32 sample_quads [zero32]\<rparr> = Inr m
    \<and> verifyV10ProofMaterial pad32 m 2
      \<lparr>expectedRoot = computeFlatKCRootV10 pad32 sample_quads [zero32],
       merkleLeafCount = computeFlatKCMerkleLeafCountV10 pad32 sample_quads [zero32]\<rparr>
    \<and> leaf m \<in> set (rev (flatLeavesV10 pad32 sample_quads [zero32]))"
proof (rule committed_kc_provable)
  show "(2 :: int) < int (computeFlatKCMerkleLeafCountV10 pad32 sample_quads [zero32])"
    by code_simp
qed simp_all

text \<open>
  C24. Proof material is only ever produced for the commitment it is asked for: the builder either
  returns material that passes the verifier, with recomputed root and leaf count equal to the
  expected ones and the chunk in range, or it reports exactly the first check that failed.
\<close>

theorem buildV10ProofMaterial_outcome:
  "case buildV10ProofMaterial h leaves chunkId c of
     Inr m \<Rightarrow> materialLeafCount m = merkleLeafCount c \<and> merkleRoot m = expectedRoot c
       \<and> 0 \<le> chunkId \<and> chunkId < int (merkleLeafCount c) \<and> leaf m \<in> set leaves
       \<and> verifyV10ProofMaterial h m chunkId c
   | Inl (V10ProofLeafCountMismatchError a b) \<Rightarrow>
       a = card (set leaves) \<and> b = merkleLeafCount c \<and> a \<noteq> b
   | Inl (V10ProofRootMismatchError a b) \<Rightarrow>
       card (set leaves) = merkleLeafCount c \<and> a = root (V10MerkleTree_new h leaves)
       \<and> b = expectedRoot c \<and> a \<noteq> b
   | Inl (V10ProofChunkOutOfRangeError k n) \<Rightarrow>
       card (set leaves) = merkleLeafCount c \<and> root (V10MerkleTree_new h leaves) = expectedRoot c
       \<and> k = chunkId \<and> n = merkleLeafCount c \<and> (k < 0 \<or> int n \<le> k)
   | Inl (V10RangeError k) \<Rightarrow> False"
proof (cases "card (set leaves) = merkleLeafCount c \<and> root (V10MerkleTree_new h leaves) = expectedRoot c
    \<and> 0 \<le> chunkId \<and> chunkId < int (merkleLeafCount c)")
  case True
  then obtain m where m: "buildV10ProofMaterial h leaves chunkId c = Inr m"
    "verifyV10ProofMaterial h m chunkId c" "leaf m = v10Leaves leaves ! nat chunkId"
    using buildV10_Inr [of h leaves c chunkId] by (auto simp: leafCount_v10)
  have "nat chunkId < length (v10Leaves leaves)" using True by (auto simp: length_v10Leaves)
  then have "leaf m \<in> set leaves"
    using m(3) by (metis List.finite_set nth_mem set_sorted_list_of_set v10Leaves_set)
  with True m show ?thesis
    by (simp add: verifyV10ProofMaterial_def split: if_splits)
next
  case False
  then show ?thesis
    by (auto simp: buildV10ProofMaterial_def Let_def leafCount_v10 split: if_splits)
qed

text \<open>
  C17. A leaf cannot be substituted.  Two proofs of the same depth that the verifier accepts for the
  same root and index open the same 32-byte leaf with the same siblings, provided the hash function
  does not collide on the strings hashed in the two checks.
\<close>

theorem proof_binding:
  assumes digests: "\<And>x. length (h x) = 32"
    and "length lf = 32" "length lf' = 32" "length p = length p'"
    and "verify h rt lf p k" "verify h rt lf' p' k"
    and "inj_on h (set (verifyInputs h lf k p) \<union> set (verifyInputs h lf' k p'))"
  shows "lf = lf' \<and> p = p'"
  using assms by (intro verifyLoop_inj [where h = h and i = k, OF digests]) (simp_all add: verify_def)

theorem proof_binding_witness:
  "verify pad32 (pad32 zero32) zero32 [zero32] 0 \<and> (zero32 = zero32 \<and> [zero32] = [zero32])"
  using proof_binding [of pad32 zero32 zero32 "[zero32]" "[zero32]" "pad32 zero32" 0]
  by (simp add: verify_def hashPair_def pad32_def zero32_def)

text \<open>
  C11. The on-chain commitment binds the content.  Two leaf sets of 32-byte leaves with the same V10
  root and the same leaf count are equal, provided the hash function does not collide on the strings
  hashed while the two trees are built.
\<close>

theorem commitment_binding:
  assumes digests: "\<And>x. length (h x) = 32"
    and "\<forall>l \<in> set ls \<union> set ls'. length l = 32"
    and "leafCount (V10MerkleTree_new h ls) = leafCount (V10MerkleTree_new h ls')"
    and "root (V10MerkleTree_new h ls) = root (V10MerkleTree_new h ls')"
    and "inj_on h (set (treeInputs h (v10Leaves ls)) \<union> set (treeInputs h (v10Leaves ls')))"
  shows "set ls = set ls'"
proof -
  have sets: "set (v10Leaves xs) = set xs" for xs by (simp add: v10Leaves_set)
  have len: "length (v10Leaves ls) = length (v10Leaves ls')"
    using assms(3) by (simp add: length_v10Leaves leafCount_v10)
  show ?thesis
  proof (cases "v10Leaves ls = []")
    case True
    with len show ?thesis by (metis length_0_conv sets)
  next
    case False
    moreover from this len have "v10Leaves ls' \<noteq> []" by auto
    ultimately have "v10Leaves ls = v10Leaves ls'"
      using assms len
      by (intro buildTree_inj [OF digests len]) (simp_all add: sets V10MerkleTree_new_treeOf root_treeOf)
    then show ?thesis by (metis sets)
  qed
qed

theorem commitment_binding_witness:
  "leafCount (V10MerkleTree_new pad32 [zero32]) = leafCount (V10MerkleTree_new pad32 [zero32, zero32])
   \<and> set [zero32] = set [zero32, zero32]"
proof -
  have h: "v10Leaves [zero32] = [zero32]" "v10Leaves [zero32, zero32] = [zero32]"
    by (simp_all add: v10Leaves_def)
  show ?thesis
    using commitment_binding [of pad32 "[zero32]" "[zero32, zero32]"]
    by (simp add: h V10MerkleTree_new_treeOf treeInputs_def buildTree_stop leafCount_def treeOf_def)
qed

text \<open>
  The V10 commitment is a function of the set of triples: the order of the quads, repeated quads
  and the named graph of a quad change neither the root nor the leaf count.
\<close>

theorem flat_commitment_set:
  assumes "(\<lambda>q. (subject q, predicate q, object q)) ` set quads
      = (\<lambda>q. (subject q, predicate q, object q)) ` set quads'"
    and "set privateRoots = set privateRoots'"
  shows "computeFlatKCRootV10 h quads privateRoots = computeFlatKCRootV10 h quads' privateRoots'
    \<and> computeFlatKCMerkleLeafCountV10 h quads privateRoots
      = computeFlatKCMerkleLeafCountV10 h quads' privateRoots'"
proof -
  have hash: "computeTripleHashV10 h = (\<lambda>(s, p, obj). hashTripleV10 h s p obj) \<circ> (\<lambda>q. (subject q, predicate q, object q))"
    by (auto simp: computeTripleHashV10_def)
  have "set (map (computeTripleHashV10 h) quads) = set (map (computeTripleHashV10 h) quads')"
    unfolding hash by (simp only: set_map image_comp [symmetric] assms(1))
  then have "set (flatLeavesV10 h quads privateRoots) = set (flatLeavesV10 h quads' privateRoots')"
    by (simp only: flatLeavesV10_def set_append assms(2))
  from V10_cong [OF this, of h] show ?thesis
    by (simp add: computeFlatKCRootV10_def computeFlatKCMerkleLeafCountV10_def)
qed

theorem flat_commitment_set_witness:
  "computeFlatKCRootV10 pad32 sample_quads [] = computeFlatKCRootV10 pad32 (map (graph_update (\<lambda>_. ''x'')) (rev sample_quads)) []
    \<and> computeFlatKCMerkleLeafCountV10 pad32 sample_quads []
      = computeFlatKCMerkleLeafCountV10 pad32 (map (graph_update (\<lambda>_. ''x'')) (rev sample_quads)) []"
  by (rule flat_commitment_set) (auto simp: sample_quads_def)

text \<open>
  The partition of a data set into knowledge assets is accepted by the receiving node: if the
  quads carry no graph or the context graph's, and no root entity contains the skolem segment or ends
  with it up to the last slash, then the validation rules report no error for the partitioned quads
  with one manifest entry per group.
\<close>

theorem partition_accepted:
  assumes "\<forall>q \<in> set qs. graph q = [] \<or> graph q = ''did:dkg:context-graph:'' @ cg"
    and "\<forall>r \<in> set (findRootEntities [] qs). r \<noteq> [] \<and> clean_root r"
    and "map rootEntity manifest = map fst (autoPartition qs)"
  shows "validatePublishRequest (concat (map snd (autoPartition qs))) manifest cg [] no_options = (True, [])"
  using assms by (rule partition_validates)

definition sample_blank_quads :: "Quad list" where
  "sample_blank_quads =
     [\<lparr>subject = ''u:a'', predicate = ''u:p'', object = ''_:x'', graph = []\<rparr>,
      \<lparr>subject = ''_:x'', predicate = ''u:p'', object = ''_:y'', graph = []\<rparr>,
      \<lparr>subject = ''_:y'', predicate = ''u:p'', object = ''u:a'', graph = []\<rparr>]"

definition sample_manifest :: "KAManifestEntry list" where
  "sample_manifest = [\<lparr>tokenId = 1, rootEntity = ''u:a'', privateMerkleRoot = None, privateTripleCount = None\<rparr>]"

theorem partition_accepted_witness:
  "validatePublishRequest (concat (map snd (autoPartition sample_blank_quads))) sample_manifest ''7'' [] no_options
     = (True, []) \<and> length (concat (map snd (autoPartition sample_blank_quads))) = 3"
proof
  have "findRootEntities [] sample_blank_quads = [''u:a'']" by code_simp
  moreover have "clean_root ''u:a''"
    by (simp add: clean_root_def isSkolemizedUri_def str_includes_def startsWith_def GENID_SEGMENT_def
        suffix_def)
  ultimately show "validatePublishRequest (concat (map snd (autoPartition sample_blank_quads))) sample_manifest ''7'' [] no_options
     = (True, [])"
    by (intro partition_accepted) (simp_all add: autoPartition_keys sample_manifest_def sample_blank_quads_def)
  show "length (concat (map snd (autoPartition sample_blank_quads))) = 3"
    by code_simp
qed

text \<open>
  Nothing the partition is meant for is lost: a quad whose subject is a root entity, a blank node
  reachable from one, or a skolemized child of one appears (with its blank nodes skolemized) in the
  group of that root, and a group holds nothing but quads about its root and children of it.
\<close>

theorem partition_complete:
  assumes "q \<in> set qs" and "placedUnder qs q r"
  shows "\<exists>g. (r, g) \<in> set (autoPartition qs) \<and> (skolemQuad r q \<in> set g \<or> q \<in> set g)
    \<and> (\<forall>q' \<in> set g. subject q' = r \<or> (\<exists>l. subject q' = r @ GENID_SEGMENT @ l))"
  using partition_no_loss [OF assms] group_subject by blast

theorem partition_complete_witness:
  "\<exists>g. (''u:a'', g) \<in> set (autoPartition sample_blank_quads)
    \<and> (skolemQuad ''u:a'' (sample_blank_quads ! 2) \<in> set g \<or> sample_blank_quads ! 2 \<in> set g)
    \<and> (\<forall>q' \<in> set g. subject q' = ''u:a'' \<or> (\<exists>l. subject q' = ''u:a'' @ GENID_SEGMENT @ l))"
proof (rule partition_complete)
  show "sample_blank_quads ! 2 \<in> set sample_blank_quads" by (simp add: sample_blank_quads_def)
  have "map_of (blankToRoot sample_blank_quads) ''_:y'' = Some ''u:a''" by code_simp
  moreover have "findRootEntities [] sample_blank_quads = [''u:a'']" by code_simp
  ultimately show "placedUnder sample_blank_quads (sample_blank_quads ! 2) ''u:a''"
    by (simp add: placedUnder_def sample_blank_quads_def isBlankNode_def startsWith_def)
qed

end
