(* ===== verification/LiftJob.thy ===== *)
theory LiftJob
  imports Prelude
begin

text \<open>
  The data of an asynchronous publish job: \<^verbatim>\<open>packages/publisher/src/lift-job-states.ts\<close> (the states
  and the transitions between them), \<^verbatim>\<open>lift-job-types.ts\<close> (the job and its metadata) and
  \<^verbatim>\<open>lift-job-failures.ts\<close> (the failure codes and the policy of each).
  The lemmas show that the transition table is acyclic along the order of the states, so that every
  chain of transitions ends, and what \<^verbatim>\<open>createLiftJobFailureMetadata\<close> accepts.

  A job is one record whose optional parts are options; the union type of the code is the predicate
  \<open>job_matches_status\<close> of the theory \<open>LiftPublisher\<close>. Times are integers (milliseconds).
\<close>

section \<open>States and transitions\<close>

datatype LiftJobState = Accepted | Claimed | Validated | Broadcast | Included | Finalized | Failed

definition LIFT_JOB_STATES :: "LiftJobState list" where
  "LIFT_JOB_STATES = [Accepted, Claimed, Validated, Broadcast, Included, Finalized, Failed]"

fun state_text :: "LiftJobState \<Rightarrow> string" where
  "state_text Accepted = ''accepted''"
| "state_text Claimed = ''claimed''"
| "state_text Validated = ''validated''"
| "state_text Broadcast = ''broadcast''"
| "state_text Included = ''included''"
| "state_text Finalized = ''finalized''"
| "state_text Failed = ''failed''"

datatype LiftTransitionType = CREATE | MUTATE | REVOKE

fun transition_text :: "LiftTransitionType \<Rightarrow> string" where
  "transition_text CREATE = ''CREATE''"
| "transition_text MUTATE = ''MUTATE''"
| "transition_text REVOKE = ''REVOKE''"

datatype LiftAuthorityType = Owner | Multisig | Quorum | Capability

fun authority_text :: "LiftAuthorityType \<Rightarrow> string" where
  "authority_text Owner = ''owner''"
| "authority_text Multisig = ''multisig''"
| "authority_text Quorum = ''quorum''"
| "authority_text Capability = ''capability''"

fun LIFT_JOB_ALLOWED_TRANSITIONS :: "LiftJobState \<Rightarrow> LiftJobState list" where
  "LIFT_JOB_ALLOWED_TRANSITIONS Accepted = [Claimed, Failed]"
| "LIFT_JOB_ALLOWED_TRANSITIONS Claimed = [Validated, Failed]"
| "LIFT_JOB_ALLOWED_TRANSITIONS Validated = [Broadcast, Finalized, Failed]"
| "LIFT_JOB_ALLOWED_TRANSITIONS Broadcast = [Included, Failed]"
| "LIFT_JOB_ALLOWED_TRANSITIONS Included = [Finalized, Failed]"
| "LIFT_JOB_ALLOWED_TRANSITIONS Finalized = []"
| "LIFT_JOB_ALLOWED_TRANSITIONS Failed = []"

definition getAllowedLiftJobTransitions :: "LiftJobState \<Rightarrow> LiftJobState list" where
  "getAllowedLiftJobTransitions state = LIFT_JOB_ALLOWED_TRANSITIONS state"

definition isTerminalLiftJobState :: "LiftJobState \<Rightarrow> bool" where
  "isTerminalLiftJobState state = (state = Finalized \<or> state = Failed)"

definition canTransitionLiftJob :: "LiftJobState \<Rightarrow> LiftJobState \<Rightarrow> bool" where
  "canTransitionLiftJob from to = (to \<in> set (LIFT_JOB_ALLOWED_TRANSITIONS from))"

definition assertLiftJobTransition :: "LiftJobState \<Rightarrow> LiftJobState \<Rightarrow> string + unit" where
  "assertLiftJobTransition from to =
     (if canTransitionLiftJob from to then Inr ()
      else let allowed = getAllowedLiftJobTransitions from;
               allowedText = (if length allowed > 0 then join_with '', '' (map state_text allowed) else ''<none>'')
           in Inl (''Invalid LiftJob transition: '' @ state_text from @ '' -> '' @ state_text to
                   @ ''. Allowed: '' @ allowedText))"

text \<open>The states in the order the table lists them; transitions only go up in this order.\<close>

fun state_rank :: "LiftJobState \<Rightarrow> nat" where
  "state_rank Accepted = 0"
| "state_rank Claimed = 1"
| "state_rank Validated = 2"
| "state_rank Broadcast = 3"
| "state_rank Included = 4"
| "state_rank Finalized = 5"
| "state_rank Failed = 6"

lemma state_rank_inj: "state_rank a = state_rank b \<longleftrightarrow> a = b"
  by (cases a; cases b) simp_all

instantiation LiftJobState :: linorder
begin

definition less_eq_LiftJobState :: "LiftJobState \<Rightarrow> LiftJobState \<Rightarrow> bool" where
  "less_eq_LiftJobState a b \<longleftrightarrow> state_rank a \<le> state_rank b"

definition less_LiftJobState :: "LiftJobState \<Rightarrow> LiftJobState \<Rightarrow> bool" where
  "less_LiftJobState a b \<longleftrightarrow> state_rank a < state_rank b"

instance
  by standard (auto simp: less_eq_LiftJobState_def less_LiftJobState_def state_rank_inj)

end

lemma canTransition_less: "canTransitionLiftJob a b \<Longrightarrow> a < b"
  by (cases a) (auto simp: canTransitionLiftJob_def less_LiftJobState_def)

lemma terminal_no_transition:
  "isTerminalLiftJobState a \<longleftrightarrow> (\<forall>b. \<not> canTransitionLiftJob a b)"
  by (cases a) (auto simp: isTerminalLiftJobState_def canTransitionLiftJob_def)

lemma assertLiftJobTransition_ok [simp]:
  "assertLiftJobTransition a b = Inr u \<longleftrightarrow> canTransitionLiftJob a b"
  by (cases u) (simp add: assertLiftJobTransition_def Let_def)

section \<open>Failures\<close>

datatype LiftJobFailurePhase = ValidationPhase | BroadcastPhase | ConfirmationPhase | RecoveryPhase

datatype LiftJobFailureMode = Retryable | Terminal | Timeout

datatype LiftJobFailureResolution =
  Reset_to_accepted | Fail_job | Check_chain_then_finalize_or_reset | Retry_recovery

type_synonym LiftJobTimeoutHandling = LiftJobFailureResolution

datatype LiftJobFailureCode =
  Workspace_unavailable | Workspace_slice_not_found | Canonicalization_failed | Authority_unavailable
| Authority_forbidden | Validation_timeout | Wallet_claim_timeout | Wallet_unavailable | Rpc_unavailable
| Tx_submit_timeout | Tx_reverted | Insufficient_funds | Nonce_conflict | Inclusion_timeout
| Finality_timeout | Confirmation_mismatch | Chain_reorg | Recovery_lookup_timeout
| Recovery_chain_unavailable | Recovery_state_inconsistent

fun code_text :: "LiftJobFailureCode \<Rightarrow> string" where
  "code_text Workspace_unavailable = ''workspace_unavailable''"
| "code_text Workspace_slice_not_found = ''workspace_slice_not_found''"
| "code_text Canonicalization_failed = ''canonicalization_failed''"
| "code_text Authority_unavailable = ''authority_unavailable''"
| "code_text Authority_forbidden = ''authority_forbidden''"
| "code_text Validation_timeout = ''validation_timeout''"
| "code_text Wallet_claim_timeout = ''wallet_claim_timeout''"
| "code_text Wallet_unavailable = ''wallet_unavailable''"
| "code_text Rpc_unavailable = ''rpc_unavailable''"
| "code_text Tx_submit_timeout = ''tx_submit_timeout''"
| "code_text Tx_reverted = ''tx_reverted''"
| "code_text Insufficient_funds = ''insufficient_funds''"
| "code_text Nonce_conflict = ''nonce_conflict''"
| "code_text Inclusion_timeout = ''inclusion_timeout''"
| "code_text Finality_timeout = ''finality_timeout''"
| "code_text Confirmation_mismatch = ''confirmation_mismatch''"
| "code_text Chain_reorg = ''chain_reorg''"
| "code_text Recovery_lookup_timeout = ''recovery_lookup_timeout''"
| "code_text Recovery_chain_unavailable = ''recovery_chain_unavailable''"
| "code_text Recovery_state_inconsistent = ''recovery_state_inconsistent''"

fun phase_text :: "LiftJobFailurePhase \<Rightarrow> string" where
  "phase_text ValidationPhase = ''validation''"
| "phase_text BroadcastPhase = ''broadcast''"
| "phase_text ConfirmationPhase = ''confirmation''"
| "phase_text RecoveryPhase = ''recovery''"

fun mode_text :: "LiftJobFailureMode \<Rightarrow> string" where
  "mode_text Retryable = ''retryable''"
| "mode_text Terminal = ''terminal''"
| "mode_text Timeout = ''timeout''"

fun resolution_text :: "LiftJobFailureResolution \<Rightarrow> string" where
  "resolution_text Reset_to_accepted = ''reset_to_accepted''"
| "resolution_text Fail_job = ''fail_job''"
| "resolution_text Check_chain_then_finalize_or_reset = ''check_chain_then_finalize_or_reset''"
| "resolution_text Retry_recovery = ''retry_recovery''"

record LiftJobTimeoutMetadata =
  timeoutMs :: int
  timeoutAt :: int
  handling :: LiftJobTimeoutHandling

record LiftJobFailurePolicy =
  policy_code :: LiftJobFailureCode
  policy_phase :: LiftJobFailurePhase
  policy_mode :: LiftJobFailureMode
  policy_retryable :: bool
  policy_resolution :: LiftJobFailureResolution
  policy_timeoutHandling :: "LiftJobTimeoutHandling option"

definition mk_policy ::
  "LiftJobFailureCode \<Rightarrow> LiftJobFailurePhase \<Rightarrow> LiftJobFailureMode \<Rightarrow> bool \<Rightarrow> LiftJobFailureResolution
   \<Rightarrow> LiftJobTimeoutHandling option \<Rightarrow> LiftJobFailurePolicy" where
  "mk_policy c ph md rt rs th =
     \<lparr>policy_code = c, policy_phase = ph, policy_mode = md, policy_retryable = rt, policy_resolution = rs,
      policy_timeoutHandling = th\<rparr>"

fun LIFT_JOB_FAILURE_POLICIES :: "LiftJobFailureCode \<Rightarrow> LiftJobFailurePolicy" where
  "LIFT_JOB_FAILURE_POLICIES Workspace_unavailable = mk_policy Workspace_unavailable ValidationPhase Retryable True Reset_to_accepted None"
| "LIFT_JOB_FAILURE_POLICIES Workspace_slice_not_found = mk_policy Workspace_slice_not_found ValidationPhase Terminal False Fail_job None"
| "LIFT_JOB_FAILURE_POLICIES Canonicalization_failed = mk_policy Canonicalization_failed ValidationPhase Terminal False Fail_job None"
| "LIFT_JOB_FAILURE_POLICIES Authority_unavailable = mk_policy Authority_unavailable ValidationPhase Retryable True Reset_to_accepted None"
| "LIFT_JOB_FAILURE_POLICIES Authority_forbidden = mk_policy Authority_forbidden ValidationPhase Terminal False Fail_job None"
| "LIFT_JOB_FAILURE_POLICIES Validation_timeout =
     mk_policy Validation_timeout ValidationPhase Timeout True Reset_to_accepted (Some Reset_to_accepted)"
| "LIFT_JOB_FAILURE_POLICIES Wallet_claim_timeout =
     mk_policy Wallet_claim_timeout BroadcastPhase Timeout True Reset_to_accepted (Some Reset_to_accepted)"
| "LIFT_JOB_FAILURE_POLICIES Wallet_unavailable = mk_policy Wallet_unavailable BroadcastPhase Retryable True Reset_to_accepted None"
| "LIFT_JOB_FAILURE_POLICIES Rpc_unavailable = mk_policy Rpc_unavailable BroadcastPhase Retryable True Reset_to_accepted None"
| "LIFT_JOB_FAILURE_POLICIES Tx_submit_timeout =
     mk_policy Tx_submit_timeout BroadcastPhase Timeout True Check_chain_then_finalize_or_reset
       (Some Check_chain_then_finalize_or_reset)"
| "LIFT_JOB_FAILURE_POLICIES Tx_reverted = mk_policy Tx_reverted BroadcastPhase Terminal False Fail_job None"
| "LIFT_JOB_FAILURE_POLICIES Insufficient_funds = mk_policy Insufficient_funds BroadcastPhase Terminal False Fail_job None"
| "LIFT_JOB_FAILURE_POLICIES Nonce_conflict = mk_policy Nonce_conflict BroadcastPhase Retryable True Reset_to_accepted None"
| "LIFT_JOB_FAILURE_POLICIES Inclusion_timeout =
     mk_policy Inclusion_timeout ConfirmationPhase Timeout True Check_chain_then_finalize_or_reset
       (Some Check_chain_then_finalize_or_reset)"
| "LIFT_JOB_FAILURE_POLICIES Finality_timeout =
     mk_policy Finality_timeout ConfirmationPhase Timeout True Check_chain_then_finalize_or_reset
       (Some Check_chain_then_finalize_or_reset)"
| "LIFT_JOB_FAILURE_POLICIES Confirmation_mismatch = mk_policy Confirmation_mismatch ConfirmationPhase Terminal False Fail_job None"
| "LIFT_JOB_FAILURE_POLICIES Chain_reorg =
     mk_policy Chain_reorg ConfirmationPhase Retryable True Check_chain_then_finalize_or_reset None"
| "LIFT_JOB_FAILURE_POLICIES Recovery_lookup_timeout =
     mk_policy Recovery_lookup_timeout RecoveryPhase Timeout True Retry_recovery (Some Retry_recovery)"
| "LIFT_JOB_FAILURE_POLICIES Recovery_chain_unavailable = mk_policy Recovery_chain_unavailable RecoveryPhase Retryable True Retry_recovery None"
| "LIFT_JOB_FAILURE_POLICIES Recovery_state_inconsistent = mk_policy Recovery_state_inconsistent RecoveryPhase Terminal False Fail_job None"

fun LIFT_JOB_FAILURE_ALLOWED_STATES :: "LiftJobFailureCode \<Rightarrow> LiftJobState list" where
  "LIFT_JOB_FAILURE_ALLOWED_STATES Workspace_unavailable = [Accepted, Claimed, Validated]"
| "LIFT_JOB_FAILURE_ALLOWED_STATES Workspace_slice_not_found = [Accepted, Claimed, Validated]"
| "LIFT_JOB_FAILURE_ALLOWED_STATES Canonicalization_failed = [Claimed, Validated]"
| "LIFT_JOB_FAILURE_ALLOWED_STATES Authority_unavailable = [Claimed, Validated]"
| "LIFT_JOB_FAILURE_ALLOWED_STATES Authority_forbidden = [Claimed, Validated]"
| "LIFT_JOB_FAILURE_ALLOWED_STATES Validation_timeout = [Claimed, Validated]"
| "LIFT_JOB_FAILURE_ALLOWED_STATES Wallet_claim_timeout = [Accepted, Claimed]"
| "LIFT_JOB_FAILURE_ALLOWED_STATES Wallet_unavailable = [Claimed, Broadcast]"
| "LIFT_JOB_FAILURE_ALLOWED_STATES Rpc_unavailable = [Broadcast]"
| "LIFT_JOB_FAILURE_ALLOWED_STATES Tx_submit_timeout = [Broadcast]"
| "LIFT_JOB_FAILURE_ALLOWED_STATES Tx_reverted = [Broadcast]"
| "LIFT_JOB_FAILURE_ALLOWED_STATES Insufficient_funds = [Broadcast]"
| "LIFT_JOB_FAILURE_ALLOWED_STATES Nonce_conflict = [Broadcast]"
| "LIFT_JOB_FAILURE_ALLOWED_STATES Inclusion_timeout = [Broadcast, Included]"
| "LIFT_JOB_FAILURE_ALLOWED_STATES Finality_timeout = [Included]"
| "LIFT_JOB_FAILURE_ALLOWED_STATES Confirmation_mismatch = [Broadcast, Included]"
| "LIFT_JOB_FAILURE_ALLOWED_STATES Chain_reorg = [Broadcast, Included]"
| "LIFT_JOB_FAILURE_ALLOWED_STATES Recovery_lookup_timeout = [Broadcast, Included]"
| "LIFT_JOB_FAILURE_ALLOWED_STATES Recovery_chain_unavailable = [Broadcast, Included]"
| "LIFT_JOB_FAILURE_ALLOWED_STATES Recovery_state_inconsistent = [Broadcast, Included]"

definition getLiftJobFailurePolicy :: "LiftJobFailureCode \<Rightarrow> LiftJobFailurePolicy" where
  "getLiftJobFailurePolicy code = LIFT_JOB_FAILURE_POLICIES code"

text \<open>What a caller of \<^verbatim>\<open>createLiftJobFailureMetadata\<close> gives, and the metadata it makes of it.\<close>

record FailureParams =
  failedFromState :: LiftJobState
  code :: LiftJobFailureCode
  message :: string
  errorPayloadRef :: string
  stackTraceRef :: "string option"
  rpcResponseRef :: "string option"
  revertReasonRef :: "string option"
  timeout :: "LiftJobTimeoutMetadata option"

record LiftJobFailureMetadata = FailureParams +
  phase :: LiftJobFailurePhase
  mode :: LiftJobFailureMode
  retryable :: bool
  resolution :: LiftJobFailureResolution

definition createLiftJobFailureMetadata :: "FailureParams \<Rightarrow> string + LiftJobFailureMetadata" where
  "createLiftJobFailureMetadata params =
     (let policy = getLiftJobFailurePolicy (code params);
          allowedStates = LIFT_JOB_FAILURE_ALLOWED_STATES (code params);
          metadata = FailureParams.extend params
            (LiftJobFailureMetadata.fields (policy_phase policy) (policy_mode policy)
               (policy_retryable policy) (policy_resolution policy))
      in if failedFromState params \<notin> set allowedStates
         then Inl (''Invalid LiftJob failure state for code '' @ code_text (code params) @ '': ''
                   @ state_text (failedFromState params) @ ''. Allowed: ''
                   @ join_with '', '' (map state_text allowedStates))
         else if policy_mode policy = Timeout
         then (case timeout params of
                 None \<Rightarrow> Inl (''Timeout metadata is required for LiftJob failure code '' @ code_text (code params))
               | Some t \<Rightarrow>
                   (case policy_timeoutHandling policy of
                      None \<Rightarrow> Inl (''Timeout handling is not configured for LiftJob failure code ''
                                    @ code_text (code params))
                    | Some expected \<Rightarrow>
                        if handling t \<noteq> expected
                        then Inl (''Invalid timeout handling for LiftJob failure code '' @ code_text (code params)
                                  @ '': '' @ resolution_text (handling t) @ ''. Expected: ''
                                  @ resolution_text expected)
                        else Inr metadata))
         else if timeout params \<noteq> None
         then Inl (''Timeout metadata is not allowed for non-timeout LiftJob failure code ''
                   @ code_text (code params))
         else Inr metadata)"

definition isRetryableLiftJobFailure :: "LiftJobFailureCode \<Rightarrow> bool" where
  "isRetryableLiftJobFailure c = policy_retryable (getLiftJobFailurePolicy c)"

definition isTerminalLiftJobFailure :: "LiftJobFailureCode \<Rightarrow> bool" where
  "isTerminalLiftJobFailure c = (policy_mode (getLiftJobFailurePolicy c) = Terminal)"

definition isTimeoutLiftJobFailure :: "LiftJobFailureCode \<Rightarrow> bool" where
  "isTimeoutLiftJobFailure c = (policy_mode (getLiftJobFailurePolicy c) = Timeout)"

section \<open>The job\<close>

record LiftAuthorityProof =
  auth_type :: LiftAuthorityType
  proofRef :: string

record LiftRequest =
  swmId :: string
  shareOperationId :: string
  roots :: "string list"
  contextGraphId :: string
  namespace :: string
  scope :: string
  transitionType :: LiftTransitionType
  authority :: LiftAuthorityProof
  priorVersion :: "string option"

record LiftJobTimestamps =
  acceptedAt :: int
  claimedAt :: "int option"
  validatedAt :: "int option"
  broadcastAt :: "int option"
  includedAt :: "int option"
  finalizedAt :: "int option"
  failedAt :: "int option"
  lastRetriedAt :: "int option"
  nextRetryAt :: "int option"
  lastRecoveredAt :: "int option"
  updatedAt :: int

record LiftJobRetryMetadata =
  retryCount :: nat
  maxRetries :: nat
  lastRetryReason :: "string option"

datatype RecoveryAction = Recovery_reset_to_accepted | Finalized_from_chain

record LiftJobRecoveryMetadata =
  action :: RecoveryAction
  recoveredFromStatus :: LiftJobState
  txHashChecked :: "string option"
  recovery_note :: "string option"

record LiftJobClaimMetadata =
  claim_walletId :: string
  claimedBy :: "string option"
  claimToken :: "string option"
  claimLeaseExpiresAt :: "int option"

record LiftJobValidationMetadata =
  canonicalRoots :: "string list"
  canonicalRootMap :: "(string \<times> string) list"
  swmQuadCount :: nat
  authorityProofRef :: string
  val_transitionType :: LiftTransitionType
  val_priorVersion :: "string option"

record LiftJobBroadcastMetadata =
  bc_txHash :: string
  bc_walletId :: string
  bc_merkleRoot :: "string option"
  bc_publicByteSize :: "nat option"

record LiftJobInclusionMetadata =
  inc_txHash :: string
  blockNumber :: int
  blockHash :: "string option"
  blockTimestamp :: "int option"

datatype FinalizationMode = Published | Noop

record LiftJobFinalizationMetadata =
  fin_mode :: "FinalizationMode option"
  fin_txHash :: "string option"
  fin_ual :: "string option"
  fin_batchId :: "string option"
  fin_startKAId :: "string option"
  fin_endKAId :: "string option"
  fin_publisherAddress :: "string option"

record LiftJobControlPlaneRefs =
  jobRef :: "string option"
  walletLockRef :: "string option"

record LiftJob =
  jobId :: string
  jobSlug :: string
  request :: LiftRequest
  status :: LiftJobState
  timestamps :: LiftJobTimestamps
  retries :: LiftJobRetryMetadata
  recovery :: "LiftJobRecoveryMetadata option"
  controlPlane :: "LiftJobControlPlaneRefs option"
  claim :: "LiftJobClaimMetadata option"
  validation :: "LiftJobValidationMetadata option"
  broadcast :: "LiftJobBroadcastMetadata option"
  inclusion :: "LiftJobInclusionMetadata option"
  finalization :: "LiftJobFinalizationMetadata option"
  failure :: "LiftJobFailureMetadata option"

section \<open>Facts about failures\<close>

text \<open>
  The metadata is made exactly for a state the code can occur in, with timeout metadata exactly for
  timeout codes and then with the handling the policy names; it carries the policy of its code.
\<close>

lemma policy_timeout_handling:
  "policy_mode (LIFT_JOB_FAILURE_POLICIES c) = Timeout \<Longrightarrow>
   policy_timeoutHandling (LIFT_JOB_FAILURE_POLICIES c) = Some (policy_resolution (LIFT_JOB_FAILURE_POLICIES c))"
  by (cases c) (simp_all add: mk_policy_def)

lemma createFailure_Inr:
  "createLiftJobFailureMetadata p = Inr f \<longleftrightarrow>
     f = FailureParams.extend p
           (LiftJobFailureMetadata.fields (policy_phase (getLiftJobFailurePolicy (code p)))
             (policy_mode (getLiftJobFailurePolicy (code p)))
             (policy_retryable (getLiftJobFailurePolicy (code p)))
             (policy_resolution (getLiftJobFailurePolicy (code p)))) \<and>
     failedFromState p \<in> set (LIFT_JOB_FAILURE_ALLOWED_STATES (code p)) \<and>
     (if isTimeoutLiftJobFailure (code p)
      then \<exists>t. timeout p = Some t \<and> handling t = policy_resolution (getLiftJobFailurePolicy (code p))
      else timeout p = None)"
  using policy_timeout_handling [of "code p"]
  by (auto simp: createLiftJobFailureMetadata_def Let_def getLiftJobFailurePolicy_def isTimeoutLiftJobFailure_def
      split: option.splits)

lemma createFailure_sel:
  assumes "createLiftJobFailureMetadata p = Inr f"
  shows "failedFromState f = failedFromState p" "code f = code p" "message f = message p"
    "resolution f = policy_resolution (getLiftJobFailurePolicy (code p))"
    "retryable f = policy_retryable (getLiftJobFailurePolicy (code p))"
  using assms unfolding createFailure_Inr
  by (simp_all add: FailureParams.defs LiftJobFailureMetadata.defs)

end
