(* ===== verification/SparqlSafe.thy ===== *)
theory SparqlSafe
  imports Prelude
begin

text \<open>
  Text that is spliced into SPARQL: \<^verbatim>\<open>packages/core/src/sparql-safe.ts\<close>, and \<^verbatim>\<open>JSON.stringify\<close> of a
  string, which the publisher uses to write literals. The regular expressions are matchers over the
  characters. The lemmas show that what \<^verbatim>\<open>sparqlString\<close> and \<^verbatim>\<open>JSON.stringify\<close> produce is always one
  complete literal for \<^verbatim>\<open>assertSafeRdfTerm\<close> and that reading it back gives the value, so that no
  value can end the literal early.
\<close>

abbreviation QUOTE :: char where "QUOTE \<equiv> CHR 0x22"
abbreviation BACKSLASH :: char where "BACKSLASH \<equiv> CHR 0x5C"
abbreviation NL :: char where "NL \<equiv> CHR 0x0A"
abbreviation CR :: char where "CR \<equiv> CHR 0x0D"
abbreviation TAB :: char where "TAB \<equiv> CHR 0x09"

section \<open>IRIs\<close>

text \<open>The class \<^verbatim>\<open>UNSAFE_IRI_CHARS\<close>.\<close>

definition unsafe_iri_char :: "char \<Rightarrow> bool" where
  "unsafe_iri_char c \<longleftrightarrow>
     c \<in> set ''<>{}|^`'' \<or> c = QUOTE \<or> c = BACKSLASH \<or> (of_char c :: nat) \<le> 32"

definition assertSafeIri :: "string \<Rightarrow> string + string" where
  "assertSafeIri value =
     (if value = [] \<or> list_ex unsafe_iri_char value then Inl (''Unsafe or empty IRI value: '' @ value)
      else Inr value)"

definition is_alpha :: "char \<Rightarrow> bool" where
  "is_alpha c = (let n = of_char c :: nat in (65 \<le> n \<and> n \<le> 90) \<or> (97 \<le> n \<and> n \<le> 122))"

definition is_digit :: "char \<Rightarrow> bool" where
  "is_digit c = (let n = of_char c :: nat in 48 \<le> n \<and> n \<le> 57)"

definition scheme_char :: "char \<Rightarrow> bool" where
  "scheme_char c = (is_alpha c \<or> is_digit c \<or> c \<in> set ''+.-'')"

text \<open>
  \<^verbatim>\<open>IRI_SCHEME_RE\<close>: a letter, scheme characters, a colon, and one or more characters that are safe in
  an IRI. The scheme characters exclude the colon, so the first colon is the one the pattern means.
\<close>

definition isSafeIri :: "string \<Rightarrow> bool" where
  "isSafeIri value =
     (case value of [] \<Rightarrow> False
      | c # cs \<Rightarrow> is_alpha c \<and>
          (case dropWhile scheme_char cs of
             [] \<Rightarrow> False
           | d # rest \<Rightarrow> d = CHR '':'' \<and> rest \<noteq> [] \<and>
               list_all (\<lambda>x. \<not> unsafe_iri_char x \<and> \<not> is_space x) rest))"

definition sparqlIri :: "string \<Rightarrow> string + string" where
  "sparqlIri value =
     (case assertSafeIri value of Inl e \<Rightarrow> Inl e | Inr _ \<Rightarrow> Inr (''<'' @ value @ ''>''))"

section \<open>String literals\<close>

text \<open>A \<^verbatim>\<open>replace\<close> of one character everywhere.\<close>

definition replace_char :: "char \<Rightarrow> string \<Rightarrow> string \<Rightarrow> string" where
  "replace_char c r s = concat (map (\<lambda>x. if x = c then r else [x]) s)"

definition escapeSparqlLiteral :: "string \<Rightarrow> string" where
  "escapeSparqlLiteral value =
     replace_char TAB [BACKSLASH, CHR ''t'']
       (replace_char CR [BACKSLASH, CHR ''r'']
         (replace_char NL [BACKSLASH, CHR ''n'']
           (replace_char QUOTE [BACKSLASH, QUOTE]
             (replace_char BACKSLASH [BACKSLASH, BACKSLASH] value))))"

definition sparqlString :: "string \<Rightarrow> string" where
  "sparqlString value = [QUOTE] @ escapeSparqlLiteral value @ [QUOTE]"

definition is_hex :: "char \<Rightarrow> bool" where
  "is_hex c = (is_digit c \<or> c \<in> set ''abcdefABCDEF'')"

text \<open>The optional suffix of \<^verbatim>\<open>SAFE_RDF_LITERAL\<close>: a language tag or a datatype.\<close>

fun lang_tail :: "bool \<Rightarrow> string \<Rightarrow> bool" where
  "lang_tail nonempty [] = nonempty"
| "lang_tail nonempty (c # cs) =
     (if c = CHR ''-'' then nonempty \<and> lang_tail False cs
      else (is_alpha c \<or> is_digit c) \<and> lang_tail True cs)"

fun lang_head :: "bool \<Rightarrow> string \<Rightarrow> bool" where
  "lang_head nonempty [] = nonempty"
| "lang_head nonempty (c # cs) =
     (if c = CHR ''-'' then nonempty \<and> lang_tail False cs else is_alpha c \<and> lang_head True cs)"

definition iri_body :: "string \<Rightarrow> bool" where
  "iri_body s = (s \<noteq> [] \<and> last s = CHR ''>'' \<and> butlast s \<noteq> []
                 \<and> list_all (\<lambda>c. \<not> unsafe_iri_char c) (butlast s))"

definition literal_suffix :: "string \<Rightarrow> bool" where
  "literal_suffix s =
     (case s of [] \<Rightarrow> True
      | c # cs \<Rightarrow> if c = CHR ''@'' then lang_head False cs
                  else startsWith s ''^^<'' \<and> iri_body (drop 3 s))"

text \<open>
  The body of the literal: a plain character, a two-character escape, or a Unicode escape; the first
  bare quote ends it.
\<close>

function literal_body :: "string \<Rightarrow> bool" where
  "literal_body s =
     (case s of
        [] \<Rightarrow> False
      | c # cs \<Rightarrow>
          if c = QUOTE then literal_suffix cs
          else if c = BACKSLASH
          then (case cs of
                  [] \<Rightarrow> False
                | e # rest \<Rightarrow>
                    if e \<in> set ''tbnrf'' \<or> e = QUOTE \<or> e = CHR 0x27 \<or> e = BACKSLASH then literal_body rest
                    else if e = CHR ''u''
                    then length rest \<ge> 4 \<and> list_all is_hex (take 4 rest) \<and> literal_body (drop 4 rest)
                    else if e = CHR ''U''
                    then length rest \<ge> 8 \<and> list_all is_hex (take 8 rest) \<and> literal_body (drop 8 rest)
                    else False)
          else c \<noteq> CR \<and> c \<noteq> NL \<and> literal_body cs)"
  by pat_completeness auto
termination by (relation "measure length") auto

declare literal_body.simps [simp del]

definition SAFE_RDF_LITERAL :: "string \<Rightarrow> bool" where
  "SAFE_RDF_LITERAL s = (case s of [] \<Rightarrow> False | c # cs \<Rightarrow> c = QUOTE \<and> literal_body cs)"

definition SAFE_RDF_IRI_TERM :: "string \<Rightarrow> bool" where
  "SAFE_RDF_IRI_TERM s = (case s of [] \<Rightarrow> False | c # cs \<Rightarrow> c = CHR ''<'' \<and> iri_body cs)"

definition assertSafeRdfTerm :: "string \<Rightarrow> string + unit" where
  "assertSafeRdfTerm value =
     (if SAFE_RDF_LITERAL value then Inr ()
      else if SAFE_RDF_IRI_TERM value then Inr ()
      else Inl (''Unsafe RDF term for CAS condition: '' @ take 80 value))"

text \<open>
  \<^verbatim>\<open>sparqlInt\<close> of a finite integer, a \<^verbatim>\<open>number\<close> or a \<^verbatim>\<open>bigint\<close>: both branches check the same bounds.
\<close>

definition sparqlInt :: "int \<Rightarrow> int option \<Rightarrow> int option \<Rightarrow> string + string" where
  "sparqlInt value mn mx =
     (case mn of
        Some m \<Rightarrow> if value < m then Inl (''SPARQL integer '' @ show_int value @ '' below minimum '' @ show_int m)
                  else (case mx of
                          Some x \<Rightarrow> if value > x then Inl (''SPARQL integer '' @ show_int value @ '' above maximum '' @ show_int x)
                                    else Inr (show_int value)
                        | None \<Rightarrow> Inr (show_int value))
      | None \<Rightarrow> (case mx of
                    Some x \<Rightarrow> if value > x then Inl (''SPARQL integer '' @ show_int value @ '' above maximum '' @ show_int x)
                              else Inr (show_int value)
                  | None \<Rightarrow> Inr (show_int value)))"

section \<open>JSON strings\<close>

text \<open>
  \<^verbatim>\<open>JSON.stringify\<close> of a string below code point 256: the short escapes, \<^verbatim>\<open>\u00xx\<close> for the other
  control characters, every other character as it is.
\<close>

definition json_char :: "char \<Rightarrow> string" where
  "json_char c =
     (if c = QUOTE then [BACKSLASH, QUOTE]
      else if c = BACKSLASH then [BACKSLASH, BACKSLASH]
      else if c = CHR 0x08 then [BACKSLASH, CHR ''b'']
      else if c = TAB then [BACKSLASH, CHR ''t'']
      else if c = NL then [BACKSLASH, CHR ''n'']
      else if c = CHR 0x0C then [BACKSLASH, CHR ''f'']
      else if c = CR then [BACKSLASH, CHR ''r'']
      else if (of_char c :: nat) < 32
      then [BACKSLASH] @ ''u00'' @ [hex_digit (of_char c div 16), hex_digit (of_char c mod 16)]
      else [c])"

definition json_string :: "string \<Rightarrow> string" where
  "json_string s = [QUOTE] @ concat (map json_char s) @ [QUOTE]"

text \<open>
  \<^verbatim>\<open>JSON.parse\<close> of a quoted string; a text that is not one is refused. Code points from 256 up, which
  a Unicode escape may name, are outside the model's characters and refused too.
\<close>

definition hex_value :: "char \<Rightarrow> nat" where
  "hex_value c = (let n = of_char c in
     if n \<le> 57 then n - 48 else if n \<le> 70 then n - 55 else n - 87)"

function json_body :: "string \<Rightarrow> string option" where
  "json_body s =
     (case s of
        [] \<Rightarrow> None
      | c # cs \<Rightarrow>
          if c = QUOTE then (if list_all (\<lambda>x. x \<in> {CHR '' '', TAB, NL, CR}) cs then Some [] else None)
          else if c = BACKSLASH
          then (case cs of
                  [] \<Rightarrow> None
                | e # rest \<Rightarrow>
                    if e = QUOTE \<or> e = BACKSLASH \<or> e = CHR ''/'' then map_option ((#) e) (json_body rest)
                    else if e = CHR ''b'' then map_option ((#) (CHR 0x08)) (json_body rest)
                    else if e = CHR ''t'' then map_option ((#) TAB) (json_body rest)
                    else if e = CHR ''n'' then map_option ((#) NL) (json_body rest)
                    else if e = CHR ''f'' then map_option ((#) (CHR 0x0C)) (json_body rest)
                    else if e = CHR ''r'' then map_option ((#) CR) (json_body rest)
                    else if e = CHR ''u'' \<and> length rest \<ge> 4 \<and> list_all is_hex (take 4 rest)
                            \<and> take 2 rest = ''00''
                    then map_option ((#) (char_of (16 * hex_value (rest ! 2) + hex_value (rest ! 3))))
                           (json_body (drop 4 rest))
                    else None)
          else if (of_char c :: nat) < 32 then None
          else map_option ((#) c) (json_body cs))"
  by pat_completeness auto
termination by (relation "measure length") auto

declare json_body.simps [simp del]

definition json_parse_string :: "string \<Rightarrow> string option" where
  "json_parse_string s = (case s of [] \<Rightarrow> None | c # cs \<Rightarrow> if c = QUOTE then json_body cs else None)"

section \<open>Safety of the written literals\<close>

text \<open>The five replacements are one pass over the characters.\<close>

definition esc_char :: "char \<Rightarrow> string" where
  "esc_char c =
     (if c = BACKSLASH then [BACKSLASH, BACKSLASH]
      else if c = QUOTE then [BACKSLASH, QUOTE]
      else if c = NL then [BACKSLASH, CHR ''n'']
      else if c = CR then [BACKSLASH, CHR ''r'']
      else if c = TAB then [BACKSLASH, CHR ''t'']
      else [c])"

lemma replace_char_append [simp]: "replace_char c r (xs @ ys) = replace_char c r xs @ replace_char c r ys"
  by (simp add: replace_char_def)

lemma replace_char_Cons: "replace_char c r (x # xs) = (if x = c then r else [x]) @ replace_char c r xs"
  by (simp add: replace_char_def)

lemma replace_char_Nil [simp]: "replace_char c r [] = []"
  by (simp add: replace_char_def)

lemma escape_Nil [simp]: "escapeSparqlLiteral [] = []"
  by (simp add: escapeSparqlLiteral_def)

lemma escape_Cons [simp]: "escapeSparqlLiteral (c # cs) = esc_char c @ escapeSparqlLiteral cs"
  by (simp add: escapeSparqlLiteral_def esc_char_def replace_char_Cons)

lemma esc_char_prefix_free: "esc_char c @ xs = esc_char d @ ys \<longleftrightarrow> c = d \<and> xs = ys"
  by (auto simp: esc_char_def split: if_splits)

lemma literal_body_esc: "literal_body (esc_char c @ rest) = literal_body rest"
  by (subst literal_body.simps) (simp add: esc_char_def)

lemma literal_body_end: "literal_body [QUOTE]"
  by (subst literal_body.simps) (simp add: literal_suffix_def)

lemma literal_body_escape: "literal_body (escapeSparqlLiteral v @ [QUOTE])"
  by (induction v) (simp_all add: literal_body_end literal_body_esc)

lemma escape_inj: "escapeSparqlLiteral a = escapeSparqlLiteral b \<longleftrightarrow> a = b"
proof (induction a arbitrary: b)
  case Nil
  then show ?case by (cases b) (auto simp: esc_char_def)
next
  case (Cons c cs)
  then show ?case
    by (cases b) (simp_all add: esc_char_prefix_free, simp add: esc_char_def)
qed

text \<open>The same for \<^verbatim>\<open>JSON.stringify\<close>, which reads back by \<^verbatim>\<open>JSON.parse\<close>.\<close>

lemma less_16_cases:
  "(d::nat) < 16 \<longleftrightarrow> d = 0 \<or> d = 1 \<or> d = 2 \<or> d = 3 \<or> d = 4 \<or> d = 5 \<or> d = 6 \<or> d = 7 \<or> d = 8
     \<or> d = 9 \<or> d = 10 \<or> d = 11 \<or> d = 12 \<or> d = 13 \<or> d = 14 \<or> d = 15"
  by presburger

lemma hex_digit_hex: "d < 16 \<Longrightarrow> is_hex (hex_digit d) \<and> hex_value (hex_digit d) = d"
  unfolding less_16_cases
  by (elim disjE; hypsubst; code_simp)

lemma of_char_control:
  assumes "(of_char c :: nat) < 32"
  shows "of_char c div 16 < (16::nat)" "of_char c mod 16 < (16::nat)"
    "char_of (16 * (of_char c div 16) + (of_char c mod 16 :: nat)) = c"
  using assms by simp_all

lemma literal_body_json: "literal_body (json_char c @ rest) = literal_body rest"
proof (cases "c \<in> {QUOTE, BACKSLASH, CHR 0x08, TAB, NL, CHR 0x0C, CR} \<or> \<not> (of_char c :: nat) < 32")
  case True
  then show ?thesis by (subst literal_body.simps) (auto simp: json_char_def)
next
  case False
  then have "json_char c = [BACKSLASH, CHR ''u'', CHR ''0'', CHR ''0'', hex_digit (of_char c div 16),
      hex_digit (of_char c mod 16)]"
    by (simp add: json_char_def)
  then show ?thesis using False hex_digit_hex of_char_control
    by (subst literal_body.simps) (simp add: is_hex_def is_digit_def)
qed

lemma json_body_json: "json_body (json_char c @ rest) = map_option ((#) c) (json_body rest)"
proof (cases "c \<in> {QUOTE, BACKSLASH, CHR 0x08, TAB, NL, CHR 0x0C, CR} \<or> \<not> (of_char c :: nat) < 32")
  case True
  then show ?thesis by (subst json_body.simps) (auto simp: json_char_def)
next
  case False
  then have "json_char c = [BACKSLASH, CHR ''u'', CHR ''0'', CHR ''0'', hex_digit (of_char c div 16),
      hex_digit (of_char c mod 16)]"
    by (simp add: json_char_def)
  then show ?thesis using False hex_digit_hex of_char_control
    by (subst json_body.simps) (simp add: is_hex_def is_digit_def nth_Cons')
qed

lemma json_parse_stringify [simp]: "json_parse_string (json_string s) = Some s"
proof -
  have "json_body [QUOTE] = Some []" by (subst json_body.simps) simp
  then have "json_body (concat (map json_char s) @ [QUOTE]) = Some s"
    by (induction s) (simp_all add: json_body_json)
  then show ?thesis by (simp add: json_parse_string_def json_string_def)
qed

lemma json_string_inj [simp]: "json_string a = json_string b \<longleftrightarrow> a = b"
  by (metis json_parse_stringify option.inject)

lemma json_string_safe [simp]: "assertSafeRdfTerm (json_string s) = Inr ()"
proof -
  have "literal_body (concat (map json_char s) @ [QUOTE])"
    by (induction s) (simp_all add: literal_body_json literal_body_end)
  then show ?thesis by (simp add: assertSafeRdfTerm_def SAFE_RDF_LITERAL_def json_string_def)
qed

lemma isSafeIri_assertSafeIri: "isSafeIri v \<Longrightarrow> assertSafeIri v = Inr v"
proof -
  assume "isSafeIri v"
  then obtain c cs d rest where v: "v = c # cs" "is_alpha c" "dropWhile scheme_char cs = d # rest"
    "d = CHR '':''" "list_all (\<lambda>x. \<not> unsafe_iri_char x) rest"
    by (auto simp: isSafeIri_def list_all_iff split: list.splits)
  have split: "cs = takeWhile scheme_char cs @ d # rest"
    using v(3) by (metis takeWhile_dropWhile_id)
  have alnum: "\<not> unsafe_iri_char x" if "scheme_char x \<or> is_alpha x" for x
    using that by (auto simp: unsafe_iri_char_def scheme_char_def is_alpha_def is_digit_def)
  have "\<forall>x \<in> set (takeWhile scheme_char cs). \<not> unsafe_iri_char x"
    using alnum by (metis set_takeWhileD)
  moreover have "\<not> unsafe_iri_char d" by (simp add: v(4) unsafe_iri_char_def)
  moreover have "set v = insert c (set (takeWhile scheme_char cs) \<union> insert d (set rest))"
    using arg_cong [OF split, of set] v(1) by simp
  ultimately have "\<not> list_ex unsafe_iri_char v"
    using v(2,5) alnum by (auto simp: list_ex_iff list_all_iff)
  then show ?thesis using v(1) by (simp add: assertSafeIri_def)
qed

text \<open>The digits of a numeral.\<close>

lemma show_nat_digits: "c \<in> set (show_nat n) \<Longrightarrow> is_digit c"
proof (induction n rule: show_nat.induct)
  case (1 n)
  show ?case
  proof (cases "n < 10")
    case True
    then show ?thesis using 1(2) by (simp add: show_nat.simps [of n] is_digit_def)
  next
    case False
    moreover have "is_digit (char_of (48 + n mod 10) :: char)" by (simp add: is_digit_def)
    ultimately show ?thesis using 1 by (auto simp: show_nat.simps [of n])
  qed
qed

lemma hd_show_nat: "is_digit (hd (show_nat n @ x))"
  using show_nat_digits [of "hd (show_nat n)" n] by simp

lemma show_nat_not_minus: "show_nat n @ x \<noteq> CHR ''-'' # y"
proof
  assume "show_nat n @ x = CHR ''-'' # y"
  then have "is_digit (CHR ''-'')" by (metis hd_show_nat list.sel(1))
  then show False by (simp add: is_digit_def)
qed

lemma show_int_inj [simp]: "show_int i = show_int j \<longleftrightarrow> i = j"
proof
  assume eq: "show_int i = show_int j"
  have "show_nat n \<noteq> CHR ''-'' # s" "CHR ''-'' # s \<noteq> show_nat n" for n s
    using show_nat_not_minus [of n "[]" s] by (metis append_Nil2)+
  then show "i = j" using eq by (auto simp: show_int_def split: if_splits)
qed simp

end
