(* ===== verification/LiftSlice.thy ===== *)
theory LiftSlice
  imports LiftJob Rdf SparqlSafe
begin

text \<open>
  What the asynchronous publisher computes between claiming a job and broadcasting it, all of
  \<^verbatim>\<open>packages/publisher/src\<close>: \<^verbatim>\<open>workspace-resolution.ts\<close> (the slice of shared memory a request
  selects), \<^verbatim>\<open>async-lift-validation.ts\<close> (its validation and the renaming of its root entities to
  canonical ones), \<^verbatim>\<open>async-lift-subtraction.ts\<close> (the removal of quads that are already published) and
  \<^verbatim>\<open>async-lift-publish-options.ts\<close> (the options of the publish call).

  The triple store is a parameter: \<open>query\<close> maps the text of a SPARQL query to its result or to the
  error it throws. The hash \<open>h\<close> is \<^verbatim>\<open>sha256\<close>. The opaque members of a slice (callbacks and the
  operation context), which are only copied, are left out.
\<close>

section \<open>Query results\<close>

datatype QueryResult =
    Bindings "(string \<times> string) list list"
  | QuadsResult "Quad list"
  | BooleanResult bool

fun result_type :: "QueryResult \<Rightarrow> string" where
  "result_type (Bindings _) = ''bindings''"
| "result_type (QuadsResult _) = ''quads''"
| "result_type (BooleanResult _) = ''boolean''"

type_synonym sparql_query = "string \<Rightarrow> string + QueryResult"

datatype AccessPolicy = Public | OwnerOnly | AllowList

fun policy_text :: "AccessPolicy \<Rightarrow> string" where
  "policy_text Public = ''public''"
| "policy_text OwnerOnly = ''ownerOnly''"
| "policy_text AllowList = ''allowList''"

record LiftResolvedPublishSlice =
  quads :: "Quad list"
  privateQuads :: "Quad list option"
  publisherPeerId :: "string option"
  accessPolicy :: "AccessPolicy option"
  allowedPeers :: "string list option"
  entityProofs :: "bool option"
  targetGraphUri :: "string option"
  targetMetaGraphUri :: "string option"
  publishContextGraphId :: "string option"

section \<open>Resolution of the shared-memory slice\<close>

definition DKG :: string where
  "DKG = ''http://dkg.io/ontology/''"

definition PROV :: string where
  "PROV = ''http://www.w3.org/ns/prov#''"

definition dataGraphUri :: "string \<Rightarrow> string" where
  "dataGraphUri cg = ''did:dkg:context-graph:'' @ cg"

definition metaGraphUri :: "string \<Rightarrow> string" where
  "metaGraphUri cg = ''did:dkg:context-graph:'' @ cg @ ''/_meta''"

definition privateGraphUri :: "string \<Rightarrow> string" where
  "privateGraphUri cg = ''did:dkg:context-graph:'' @ cg @ ''/_private''"

definition workspaceGraphUri :: "string \<Rightarrow> string" where
  "workspaceGraphUri cg = ''did:dkg:context-graph:'' @ cg @ ''/_shared_memory''"

definition workspaceMetaGraphUri :: "string \<Rightarrow> string" where
  "workspaceMetaGraphUri cg = ''did:dkg:context-graph:'' @ cg @ ''/_shared_memory_meta''"

text \<open>\<^verbatim>\<open>value.slice(1, value.lastIndexOf('"'))\<close> for a text that starts with a quote.\<close>

definition between_quotes :: "string \<Rightarrow> string" where
  "between_quotes v = (let body = rev (dropWhile (\<lambda>c. c \<noteq> QUOTE) (rev v)) in drop 1 (butlast body))"

definition stripLiteral :: "string option \<Rightarrow> string option" where
  "stripLiteral value =
     (case value of None \<Rightarrow> None
      | Some v \<Rightarrow>
          if v = [] then None
          else if startsWith v [QUOTE]
          then (case json_parse_string v of Some x \<Rightarrow> Some x | None \<Rightarrow> Some (between_quotes v))
          else Some v)"

definition ws_normalizeRoots :: "string list \<Rightarrow> string list" where
  "ws_normalizeRoots rs = js_unique (filter isSafeIri (map str_trim rs))"

definition unsafe_id_char :: "char \<Rightarrow> bool" where
  "unsafe_id_char c = (is_space c \<or> c \<in> set ''<>{}|^`'' \<or> c = QUOTE \<or> c = BACKSLASH)"

definition safeWorkspaceIdPart :: "string \<Rightarrow> string \<Rightarrow> string + string" where
  "safeWorkspaceIdPart value fieldName =
     (let normalized = str_trim value
      in if length normalized = 0 then Inl (''Shared-memory resolution requires a non-empty '' @ fieldName)
         else if list_ex unsafe_id_char normalized
         then Inl (''Shared-memory resolution rejected unsafe '' @ fieldName @ '': '' @ value)
         else Inr normalized)"

definition workspaceOperationSubject :: "string \<Rightarrow> string \<Rightarrow> string + string" where
  "workspaceOperationSubject cg op =
     bindE (safeWorkspaceIdPart cg ''contextGraphId'') (\<lambda>ncg.
     bindE (safeWorkspaceIdPart op ''shareOperationId'') (\<lambda>nop.
     let subj = ''urn:dkg:share:'' @ ncg @ '':'' @ nop
     in bindE (assertSafeIri subj) (\<lambda>_. Inr subj)))"

datatype WorkspaceSelection = All_quads | RootEntities "string list"

definition buildWorkspaceSelectionQuery :: "string \<Rightarrow> string \<Rightarrow> WorkspaceSelection \<Rightarrow> string + string" where
  "buildWorkspaceSelectionQuery workspaceGraph cg selection =
     (case selection of
        All_quads \<Rightarrow>
          Inr (''CONSTRUCT { ?s ?p ?o } WHERE { GRAPH <'' @ workspaceGraph @ ''> { ?s ?p ?o } }'')
      | RootEntities rs \<Rightarrow>
          let rts = ws_normalizeRoots rs
          in if length rts = 0
             then Inl (if length rs > 0
                       then ''No valid rootEntities provided (all '' @ show_nat (length rs)
                            @ '' entries failed IRI validation)''
                       else ''No rootEntities provided for context graph '' @ cg)
             else Inr (''CONSTRUCT { ?s ?p ?o } WHERE {'' @ [NL] @
                       ''    GRAPH <'' @ workspaceGraph @ ''> {'' @ [NL] @
                       ''      VALUES ?root { '' @ join_with '' '' (map (\<lambda>r. ''<'' @ r @ ''>'') rts) @ '' }'' @ [NL] @
                       ''      ?s ?p ?o .'' @ [NL] @
                       ''      FILTER('' @ [NL] @
                       ''        ?s = ?root'' @ [NL] @
                       ''        || STRSTARTS(STR(?s), CONCAT(STR(?root), '' @ [QUOTE] @ ''/.well-known/genid/'' @ [QUOTE] @ ''))'' @ [NL] @
                       ''      )'' @ [NL] @
                       ''    }'' @ [NL] @
                       ''  }''))"

definition resolveWorkspaceSelection :: "sparql_query \<Rightarrow> string \<Rightarrow> WorkspaceSelection \<Rightarrow> string + Quad list" where
  "resolveWorkspaceSelection query cg selection =
     bindE (buildWorkspaceSelectionQuery (workspaceGraphUri cg) cg selection) (\<lambda>sparql.
     bindE (query sparql) (\<lambda>result.
     let qs = (case result of QuadsResult qs \<Rightarrow> map (\<lambda>q. q\<lparr>graph := ''''\<rparr>) qs | _ \<Rightarrow> [])
     in if length qs = 0
        then Inl (''No quads in shared memory for context graph '' @ cg @ '' matching selection'')
        else Inr qs))"

record ResolvedWorkspaceOperation =
  rootEntities :: "string list"
  op_publisherPeerId :: "string option"

definition operationQuery :: "string \<Rightarrow> string \<Rightarrow> string" where
  "operationQuery workspaceMetaGraph subj =
     ''SELECT ?root ?publisherPeerId WHERE {'' @ [NL] @
     ''      GRAPH <'' @ workspaceMetaGraph @ ''> {'' @ [NL] @
     ''        OPTIONAL { <'' @ subj @ ''> <'' @ DKG @ ''rootEntity> ?root }'' @ [NL] @
     ''        OPTIONAL { <'' @ subj @ ''> <'' @ PROV @ ''wasAttributedTo> ?publisherPeerId }'' @ [NL] @
     ''      }'' @ [NL] @
     ''    }''"

definition present_column :: "string \<Rightarrow> (string \<times> string) list list \<Rightarrow> string list" where
  "present_column k rows = js_unique (List.map_filter (\<lambda>row. stripLiteral (map_of row k)) rows)"

definition resolveWorkspaceOperation :: "sparql_query \<Rightarrow> string \<Rightarrow> string \<Rightarrow> string + ResolvedWorkspaceOperation" where
  "resolveWorkspaceOperation query cg op =
     bindE (workspaceOperationSubject cg op) (\<lambda>subj.
     bindE (query (operationQuery (workspaceMetaGraphUri cg) subj)) (\<lambda>result.
     case result of
       Bindings rows \<Rightarrow>
         let rs = present_column ''root'' rows;
             peers = present_column ''publisherPeerId'' rows
         in if length rs = 0
            then Inl (''No shared-memory roots found for context graph '' @ cg @ '' share operation '' @ op)
            else Inr \<lparr>rootEntities = rs,
                      op_publisherPeerId = (case peers of [] \<Rightarrow> None | p # _ \<Rightarrow> Some p)\<rparr>
     | _ \<Rightarrow> Inl (''Unexpected shared-memory metadata query result for '' @ op @ '': '' @ result_type result)))"

definition resolveOnChainContextGraphId :: "sparql_query \<Rightarrow> string \<Rightarrow> string + string option" where
  "resolveOnChainContextGraphId query cg =
     bindE (query (''SELECT ?id WHERE { GRAPH <did:dkg:context-graph:ontology> { <did:dkg:context-graph:'' @ cg
                   @ ''> <https://dkg.network/ontology#ParanetOnChainId> ?id } } LIMIT 1'')) (\<lambda>result.
     case result of
       Bindings (row # _) \<Rightarrow>
         Inr (case stripLiteral (map_of row ''id'') of
                None \<Rightarrow> None
              | Some v \<Rightarrow> if v = [] then None else Some (str_trim v))
     | _ \<Rightarrow> Inr None)"

definition resolveLiftWorkspaceSlice :: "sparql_query \<Rightarrow> LiftRequest \<Rightarrow> string + LiftResolvedPublishSlice" where
  "resolveLiftWorkspaceSlice query req =
     bindE (resolveWorkspaceOperation query (contextGraphId req) (shareOperationId req)) (\<lambda>operation.
     let requestedRoots = ws_normalizeRoots (roots req);
         missing = filter (\<lambda>r. r \<notin> set (rootEntities operation)) requestedRoots
     in if length missing > 0
        then Inl (''Lift shared-memory resolution roots are not part of share operation ''
                  @ shareOperationId req @ '': '' @ join_with '', '' missing)
        else bindE (resolveWorkspaceSelection query (contextGraphId req) (RootEntities requestedRoots)) (\<lambda>qs.
             bindE (resolveOnChainContextGraphId query (contextGraphId req)) (\<lambda>cgid.
             Inr \<lparr>quads = qs, privateQuads = None, publisherPeerId = op_publisherPeerId operation,
                  accessPolicy = None, allowedPeers = None, entityProofs = None, targetGraphUri = None,
                  targetMetaGraphUri = None, publishContextGraphId = cgid\<rparr>)))"

section \<open>Validation and canonical roots\<close>

definition normalizePriorVersion :: "string option \<Rightarrow> string option" where
  "normalizePriorVersion value =
     (case value of None \<Rightarrow> None
      | Some v \<Rightarrow> let normalized = str_trim v in if normalized = [] then None else Some normalized)"

definition validatePriorVersion :: "LiftTransitionType \<Rightarrow> string option \<Rightarrow> string + unit" where
  "validatePriorVersion tt prior =
     bindE (throw_if (tt = CREATE \<and> prior \<noteq> None) ''Lift validation rejects priorVersion for CREATE transitions'') (\<lambda>_.
     throw_if ((tt = MUTATE \<or> tt = REVOKE) \<and> prior = None)
       (''Lift validation requires priorVersion for '' @ transition_text tt @ '' transitions''))"

definition normalizeRoots :: "string list \<Rightarrow> string list" where
  "normalizeRoots rs = js_unique (filter (\<lambda>r. r \<noteq> []) (map str_trim rs))"

definition isRootOrSkolemDescendant :: "string \<Rightarrow> string list \<Rightarrow> bool" where
  "isRootOrSkolemDescendant subj rs =
     list_ex (\<lambda>r. subj = r \<or> startsWith subj (r @ ''/.well-known/genid/'')) rs"

fun assertSubjectsBelongToRoots :: "Quad list \<Rightarrow> string list \<Rightarrow> string + unit" where
  "assertSubjectsBelongToRoots [] rs = Inr ()"
| "assertSubjectsBelongToRoots (q # qs) rs =
     (if isRootOrSkolemDescendant (subject q) rs then assertSubjectsBelongToRoots qs rs
      else Inl (''Lift validation found subject outside requested roots: '' @ subject q))"

text \<open>The part after the last slash or colon.\<close>

definition rootTail :: "string \<Rightarrow> string" where
  "rootTail r = rev (takeWhile (\<lambda>c. c \<noteq> CHR ''/'' \<and> c \<noteq> CHR '':'') (rev (str_trim r)))"

definition slug_char :: "char \<Rightarrow> bool" where
  "slug_char c = (let n = of_char c :: nat in (97 \<le> n \<and> n \<le> 122) \<or> (48 \<le> n \<and> n \<le> 57))"

text \<open>\<^verbatim>\<open>replace(/[^a-z0-9]+/g, '-')\<close>; the flag says that the run in progress has its dash already.\<close>

fun dash_runs :: "bool \<Rightarrow> string \<Rightarrow> string" where
  "dash_runs inrun [] = []"
| "dash_runs inrun (c # cs) =
     (if slug_char c then c # dash_runs False cs
      else if inrun then dash_runs True cs else CHR ''-'' # dash_runs True cs)"

definition slugPart :: "string \<Rightarrow> string" where
  "slugPart value =
     (let dashed = dash_runs False (toLowerCase (str_trim value));
          normalized = rev (dropWhile ((=) (CHR ''-'')) (rev (dropWhile ((=) (CHR ''-'')) dashed)))
      in if normalized = [] then ''unknown'' else normalized)"

definition shortRootHash :: "(bytes \<Rightarrow> bytes) \<Rightarrow> string \<Rightarrow> string" where
  "shortRootHash h r = hex_bytes (take 6 (h (utf8 r)))"

definition canonicalRootIri :: "(bytes \<Rightarrow> bytes) \<Rightarrow> LiftRequest \<Rightarrow> string \<Rightarrow> string" where
  "canonicalRootIri h req r =
     ''dkg:'' @ slugPart (contextGraphId req) @ '':'' @ slugPart (namespace req) @ '':'' @ slugPart (scope req)
     @ ''/'' @ slugPart (rootTail r) @ ''-'' @ shortRootHash h r"

fun assertNoCollisionsLoop :: "(string \<times> string) list \<Rightarrow> (string \<times> string) list \<Rightarrow> string + unit" where
  "assertNoCollisionsLoop reverse [] = Inr ()"
| "assertNoCollisionsLoop reverse ((sourceRoot, canonicalRoot) # rest) =
     (case map_of reverse canonicalRoot of
        Some existing \<Rightarrow>
          if existing \<noteq> [] \<and> existing \<noteq> sourceRoot
          then Inl (''Lift validation canonical root collision: '' @ sourceRoot @ '' and '' @ existing
                    @ '' both map to '' @ canonicalRoot)
          else assertNoCollisionsLoop (AList.update canonicalRoot sourceRoot reverse) rest
      | None \<Rightarrow> assertNoCollisionsLoop (AList.update canonicalRoot sourceRoot reverse) rest)"

definition assertNoCanonicalRootCollisions :: "(string \<times> string) list \<Rightarrow> string + unit" where
  "assertNoCanonicalRootCollisions m = assertNoCollisionsLoop [] m"

fun canonicalizeTerm :: "(string \<times> string) list \<Rightarrow> string \<Rightarrow> string" where
  "canonicalizeTerm [] trm = trm"
| "canonicalizeTerm ((r, canonicalRoot) # rest) trm =
     (if trm = r then canonicalRoot
      else if startsWith trm (r @ ''/.well-known/genid/'') then canonicalRoot @ drop (length r) trm
      else canonicalizeTerm rest trm)"

definition canonicalizeObject :: "(string \<times> string) list \<Rightarrow> string \<Rightarrow> string" where
  "canonicalizeObject m obj = (if startsWith obj [QUOTE] then obj else canonicalizeTerm m obj)"

definition canonicalizeQuads :: "(string \<times> string) list \<Rightarrow> Quad list \<Rightarrow> Quad list" where
  "canonicalizeQuads m qs =
     map (\<lambda>q. q\<lparr>subject := canonicalizeTerm m (subject q), object := canonicalizeObject m (object q)\<rparr>) qs"

record ValidatedLiftPublishPayload =
  payload_validation :: LiftJobValidationMetadata
  payload_resolved :: LiftResolvedPublishSlice

definition validateLiftPublishPayload ::
  "(bytes \<Rightarrow> bytes) \<Rightarrow> LiftRequest \<Rightarrow> LiftResolvedPublishSlice \<Rightarrow> string + ValidatedLiftPublishPayload" where
  "validateLiftPublishPayload h req resolved =
     (let proof = str_trim (proofRef (authority req));
          prior = normalizePriorVersion (priorVersion req);
          requestedRoots = normalizeRoots (roots req);
          priv = (case privateQuads resolved of None \<Rightarrow> [] | Some p \<Rightarrow> p);
          count = length (quads resolved) + length priv;
          rootMap = map (\<lambda>r. (r, canonicalRootIri h req r)) requestedRoots
      in bindE (throw_if (length proof = 0) ''Lift validation requires a non-empty authority proof reference'') (\<lambda>_.
         bindE (validatePriorVersion (transitionType req) prior) (\<lambda>_.
         bindE (throw_if (length requestedRoots = 0) ''Lift validation requires at least one valid root'') (\<lambda>_.
         bindE (throw_if (count = 0) ''Lift validation requires at least one resolved shared-memory quad'') (\<lambda>_.
         bindE (assertSubjectsBelongToRoots (quads resolved) requestedRoots) (\<lambda>_.
         bindE (assertSubjectsBelongToRoots priv requestedRoots) (\<lambda>_.
         bindE (assertNoCanonicalRootCollisions rootMap) (\<lambda>_.
         Inr \<lparr>payload_validation =
                \<lparr>canonicalRoots = map (\<lambda>r. the (map_of rootMap r)) requestedRoots,
                 canonicalRootMap = rootMap, swmQuadCount = count, authorityProofRef = proof,
                 val_transitionType = transitionType req, val_priorVersion = prior\<rparr>,
              payload_resolved = resolved
                \<lparr>quads := canonicalizeQuads rootMap (quads resolved),
                 privateQuads := map_option (canonicalizeQuads rootMap) (privateQuads resolved)\<rparr>\<rparr>))))))))"

section \<open>Subtraction of published quads\<close>

text \<open>\<^verbatim>\<open>JSON.parse\<close> refuses a text; the wording of the exception is the engine's.\<close>

definition JSON_ERROR :: string where
  "JSON_ERROR = ''Unexpected token in JSON''"

definition stripTerm :: "string option \<Rightarrow> string + string option" where
  "stripTerm value =
     (case value of None \<Rightarrow> Inr None
      | Some v \<Rightarrow>
          if v = [] then Inr None
          else if startsWith v [QUOTE]
          then (case json_parse_string v of Some x \<Rightarrow> Inr (Some x) | None \<Rightarrow> Inl JSON_ERROR)
          else Inr (Some v))"

definition safeStringLiteral :: "string \<Rightarrow> string + string" where
  "safeStringLiteral value = bindE (assertSafeRdfTerm (json_string value)) (\<lambda>_. Inr (json_string value))"

fun mapE :: "('a \<Rightarrow> string + 'b) \<Rightarrow> 'a list \<Rightarrow> string + 'b list" where
  "mapE f [] = Inr []"
| "mapE f (x # xs) = bindE (f x) (\<lambda>y. bindE (mapE f xs) (\<lambda>ys. Inr (y # ys)))"

definition confirmedRootsQuery :: "string \<Rightarrow> string \<Rightarrow> string" where
  "confirmedRootsQuery metaGraph values =
     ''SELECT DISTINCT ?root WHERE {'' @ [NL] @
     ''      GRAPH <'' @ metaGraph @ ''> {'' @ [NL] @
     ''        VALUES ?rootValue { '' @ values @ '' }'' @ [NL] @
     ''        ?ka <'' @ DKG @ ''rootEntity> ?root ; <'' @ DKG @ ''partOf> ?kc .'' @ [NL] @
     ''        ?kc <'' @ DKG @ ''status> '' @ [QUOTE] @ ''confirmed'' @ [QUOTE] @ '' .'' @ [NL] @
     ''        FILTER(STR(?root) = ?rootValue)'' @ [NL] @
     ''      }'' @ [NL] @
     ''    }''"

definition loadConfirmedRoots :: "sparql_query \<Rightarrow> string \<Rightarrow> string list \<Rightarrow> string + string list" where
  "loadConfirmedRoots query cg rs =
     (if length rs = 0 then Inr []
      else bindE (mapE safeStringLiteral rs) (\<lambda>values.
           bindE (query (confirmedRootsQuery (metaGraphUri cg) (join_with '' '' values))) (\<lambda>result.
           case result of
             Bindings rows \<Rightarrow> bindE (mapE (\<lambda>row. stripTerm (map_of row ''root'')) rows) (\<lambda>vs.
                               Inr (js_unique (List.map_filter (\<lambda>v. v) vs)))
           | _ \<Rightarrow> Inr [])))"

definition toQuadKey :: "Quad \<Rightarrow> string" where
  "toQuadKey q = subject q @ '' '' @ predicate q @ '' '' @ object q"

definition authoritativeQuery :: "string \<Rightarrow> string \<Rightarrow> string" where
  "authoritativeQuery g values =
     ''CONSTRUCT {'' @ [NL] @
     ''      ?s ?p ?o'' @ [NL] @
     ''    } WHERE {'' @ [NL] @
     ''      GRAPH <'' @ g @ ''> {'' @ [NL] @
     ''        VALUES ?rootValue { '' @ values @ '' }'' @ [NL] @
     ''        ?s ?p ?o .'' @ [NL] @
     ''        FILTER('' @ [NL] @
     ''          STR(?s) = ?rootValue'' @ [NL] @
     ''          || STRSTARTS(STR(?s), CONCAT(?rootValue, '' @ [QUOTE] @ ''/.well-known/genid/'' @ [QUOTE] @ ''))'' @ [NL] @
     ''        )'' @ [NL] @
     ''      }'' @ [NL] @
     ''    }''"

definition loadAuthoritativeQuadKeys :: "sparql_query \<Rightarrow> string \<Rightarrow> string list \<Rightarrow> string + string list" where
  "loadAuthoritativeQuadKeys query g confirmedRoots =
     (if length confirmedRoots = 0 then Inr []
      else bindE (mapE safeStringLiteral confirmedRoots) (\<lambda>values.
           bindE (query (authoritativeQuery g (join_with '' '' values))) (\<lambda>result.
           case result of
             QuadsResult qs \<Rightarrow> Inr (js_unique (map (\<lambda>q. toQuadKey (q\<lparr>graph := ''''\<rparr>)) qs))
           | _ \<Rightarrow> Inr [])))"

fun rootForSubject :: "string \<Rightarrow> string list \<Rightarrow> string option" where
  "rootForSubject subj [] = None"
| "rootForSubject subj (r # rs) =
     (if subj = r \<or> startsWith subj (r @ ''/.well-known/genid/'') then Some r else rootForSubject subj rs)"

text \<open>
  The loop keeps the remaining quads and counts the removed ones; \<^verbatim>\<open>!root\<close> also holds for the empty
  string.
\<close>

fun subtractLoop :: "string list \<Rightarrow> string list \<Rightarrow> Quad list \<Rightarrow> Quad list \<times> nat" where
  "subtractLoop confirmedRoots keys [] = ([], 0)"
| "subtractLoop confirmedRoots keys (q # qs) =
     (let (remaining, removedCount) = subtractLoop confirmedRoots keys qs
      in case rootForSubject (subject q) confirmedRoots of
           None \<Rightarrow> (q # remaining, removedCount)
         | Some r \<Rightarrow>
             if r = [] then (q # remaining, removedCount)
             else if toQuadKey q \<in> set keys then (remaining, Suc removedCount)
             else (q # remaining, removedCount))"

definition subtractGraphExactMatches :: "Quad list \<Rightarrow> string list \<Rightarrow> string list \<Rightarrow> Quad list \<times> nat" where
  "subtractGraphExactMatches qs confirmedRoots keys = subtractLoop confirmedRoots keys qs"

record ExactQuadSubtractionResult =
  sub_resolved :: LiftResolvedPublishSlice
  alreadyPublishedPublicCount :: nat
  alreadyPublishedPrivateCount :: nat

definition subtractFinalizedExactQuads ::
  "sparql_query \<Rightarrow> LiftRequest \<Rightarrow> LiftJobValidationMetadata \<Rightarrow> LiftResolvedPublishSlice
   \<Rightarrow> string + ExactQuadSubtractionResult" where
  "subtractFinalizedExactQuads query req vld resolved =
     (if transitionType req \<noteq> CREATE
      then Inr \<lparr>sub_resolved = resolved, alreadyPublishedPublicCount = 0, alreadyPublishedPrivateCount = 0\<rparr>
      else bindE (loadConfirmedRoots query (contextGraphId req) (canonicalRoots vld)) (\<lambda>confirmedRoots.
           bindE (loadAuthoritativeQuadKeys query (dataGraphUri (contextGraphId req)) confirmedRoots) (\<lambda>pub.
           bindE (loadAuthoritativeQuadKeys query (privateGraphUri (contextGraphId req)) confirmedRoots) (\<lambda>prv.
           let (pubRemaining, pubRemoved) = subtractGraphExactMatches (quads resolved) confirmedRoots pub;
               (prvRemaining, prvRemoved) = subtractGraphExactMatches
                  (case privateQuads resolved of None \<Rightarrow> [] | Some p \<Rightarrow> p) confirmedRoots prv
           in Inr \<lparr>sub_resolved = resolved\<lparr>quads := pubRemaining,
                      privateQuads := (if length prvRemaining > 0 then Some prvRemaining else None)\<rparr>,
                   alreadyPublishedPublicCount = pubRemoved,
                   alreadyPublishedPrivateCount = prvRemoved\<rparr>))))"

section \<open>Publish options\<close>

record PublishOptions =
  po_contextGraphId :: string
  po_quads :: "Quad list"
  po_privateQuads :: "Quad list option"
  po_publisherPeerId :: "string option"
  po_accessPolicy :: AccessPolicy
  po_allowedPeers :: "string list option"
  po_entityProofs :: "bool option"
  po_targetGraphUri :: "string option"
  po_targetMetaGraphUri :: "string option"
  po_publishContextGraphId :: "string option"

definition version_text :: "string option \<Rightarrow> string" where
  "version_text v = (case v of None \<Rightarrow> ''<none>'' | Some x \<Rightarrow> x)"

definition mapLiftRequestToPublishOptions ::
  "LiftRequest \<Rightarrow> LiftJobValidationMetadata \<Rightarrow> LiftResolvedPublishSlice \<Rightarrow> string + PublishOptions" where
  "mapLiftRequestToPublishOptions req vld resolved =
     (let proof = str_trim (authorityProofRef vld);
          requestPrior = normalizePriorVersion (priorVersion req);
          priv = (case privateQuads resolved of None \<Rightarrow> [] | Some p \<Rightarrow> p);
          peer = map_option str_trim (publisherPeerId resolved);
          peers = js_unique (filter (\<lambda>p. p \<noteq> [])
                    (map str_trim (case allowedPeers resolved of None \<Rightarrow> [] | Some a \<Rightarrow> a)));
          policy = (case accessPolicy resolved of Some p \<Rightarrow> p
                    | None \<Rightarrow> if length priv > 0 then OwnerOnly else Public)
      in bindE (throw_if (length proof = 0) ''Lift publish mapping requires a non-empty authorityProofRef'') (\<lambda>_.
         bindE (throw_if (transitionType req \<noteq> val_transitionType vld)
           (''Lift publish mapping requires validation.transitionType to match request.transitionType. Request: ''
            @ transition_text (transitionType req) @ '', validation: '' @ transition_text (val_transitionType vld))) (\<lambda>_.
         bindE (throw_if (requestPrior \<noteq> val_priorVersion vld)
           (''Lift publish mapping requires validation.priorVersion to match request.priorVersion. Request: ''
            @ version_text requestPrior @ '', validation: '' @ version_text (val_priorVersion vld))) (\<lambda>_.
         bindE (throw_if (policy \<noteq> Public \<and> (peer = None \<or> peer = Some []))
           (''Lift publish mapping requires publisherPeerId when accessPolicy is '' @ policy_text policy)) (\<lambda>_.
         bindE (throw_if (policy = AllowList \<and> length peers = 0)
           ''Lift publish mapping requires non-empty allowedPeers for allowList access'') (\<lambda>_.
         bindE (throw_if (policy \<noteq> AllowList \<and> length peers > 0)
           ''Lift publish mapping only allows allowedPeers when accessPolicy is allowList'') (\<lambda>_.
         Inr \<lparr>po_contextGraphId = contextGraphId req, po_quads = quads resolved,
              po_privateQuads = (if length priv > 0 then Some priv else None),
              po_publisherPeerId = peer, po_accessPolicy = policy,
              po_allowedPeers = (if length peers > 0 then Some peers else None),
              po_entityProofs = entityProofs resolved, po_targetGraphUri = targetGraphUri resolved,
              po_targetMetaGraphUri = targetMetaGraphUri resolved,
              po_publishContextGraphId = publishContextGraphId resolved\<rparr>)))))))"

record AsyncPreparedPublishPayload =
  prep_contextGraphId :: string
  prep_scope :: string
  prep_transitionType :: LiftTransitionType
  prep_authority :: LiftAuthorityProof
  prep_authorityProofRef :: string
  prep_priorVersion :: "string option"
  prep_quads :: "Quad list"
  prep_privateQuads :: "Quad list"
  publishOptions :: PublishOptions

definition prepareAsyncPublishPayload ::
  "LiftRequest \<Rightarrow> LiftJobValidationMetadata \<Rightarrow> LiftResolvedPublishSlice \<Rightarrow> string + AsyncPreparedPublishPayload" where
  "prepareAsyncPublishPayload req vld resolved =
     bindE (mapLiftRequestToPublishOptions req vld resolved) (\<lambda>po.
     Inr \<lparr>prep_contextGraphId = contextGraphId req, prep_scope = scope req,
          prep_transitionType = transitionType req, prep_authority = authority req,
          prep_authorityProofRef = str_trim (authorityProofRef vld),
          prep_priorVersion = val_priorVersion vld, prep_quads = po_quads po,
          prep_privateQuads = (case po_privateQuads po of None \<Rightarrow> [] | Some p \<Rightarrow> p),
          publishOptions = po\<rparr>)"

section \<open>Facts about canonical roots\<close>

lemma set_dash_runs: "c \<in> set (dash_runs b s) \<Longrightarrow> slug_char c \<or> c = CHR ''-''"
  by (induction b s rule: dash_runs.induct) (auto split: if_splits)

lemma set_slugPart: "c \<in> set (slugPart v) \<Longrightarrow> slug_char c \<or> c = CHR ''-''"
proof (cases "slugPart v = ''unknown''")
  case True
  assume "c \<in> set (slugPart v)"
  then show ?thesis unfolding True by (auto simp: slug_char_def)
next
  case False
  assume "c \<in> set (slugPart v)"
  with False have "c \<in> set (dash_runs False (toLowerCase (str_trim v)))"
    by (auto simp: slugPart_def Let_def split: if_splits dest!: set_dropWhileD)
  then show ?thesis by (rule set_dash_runs)
qed

lemma slash_not_in_slug [simp]: "CHR ''/'' \<notin> set (slugPart v)"
  using set_slugPart [of "CHR ''/''" v] by (auto simp: slug_char_def)

lemma slash_not_in_hex [simp]: "CHR ''/'' \<notin> set (hex_bytes bs)"
proof -
  have "hex_digit d \<noteq> CHR ''/''" if "d < 16" for d
    using that unfolding less_16_cases by (elim disjE; hypsubst; code_simp)
  moreover have "unat b div 16 < 16 \<and> unat b mod 16 < 16" for b :: byte
    using unsigned_less [of b] by (simp add: div_less_iff_less_mult)
  ultimately have "hex_digit (unat b div 16) \<noteq> CHR ''/'' \<and> hex_digit (unat b mod 16) \<noteq> CHR ''/''" for b :: byte
    by blast
  then show ?thesis by (simp add: hex_bytes_def) metis
qed

definition canon_prefix :: "LiftRequest \<Rightarrow> string" where
  "canon_prefix req =
     ''dkg:'' @ slugPart (contextGraphId req) @ '':'' @ slugPart (namespace req) @ '':'' @ slugPart (scope req)"

definition canon_name :: "(bytes \<Rightarrow> bytes) \<Rightarrow> string \<Rightarrow> string" where
  "canon_name h r = slugPart (rootTail r) @ ''-'' @ shortRootHash h r"

lemma canonicalRootIri_split:
  "canonicalRootIri h req r = canon_prefix req @ ''/'' @ canon_name h r"
  "CHR ''/'' \<notin> set (canon_prefix req)" "CHR ''/'' \<notin> set (canon_name h r)"
  by (simp_all add: canonicalRootIri_def canon_prefix_def canon_name_def shortRootHash_def)

lemma split_at_slash:
  assumes "CHR ''/'' \<notin> set a" "CHR ''/'' \<notin> set b" "x = [] \<or> hd x = CHR ''/''" "y = [] \<or> hd y = CHR ''/''"
    and "a @ x = b @ y"
  shows "a = b \<and> x = y"
proof -
  have tw: "takeWhile ((\<noteq>) (CHR ''/'')) (c @ z) = c"
    if "CHR ''/'' \<notin> set c" "z = [] \<or> hd z = CHR ''/''" for c z
  proof -
    have "takeWhile ((\<noteq>) (CHR ''/'')) z = []" using that(2) by (cases z) auto
    then show ?thesis using that(1) by (subst takeWhile_append2) auto
  qed
  have "a = b" using tw [OF assms(1,3)] tw [OF assms(2,4)] assms(5) by simp
  then show ?thesis using assms(5) by simp
qed

lemma canonical_suffix_unique:
  assumes "canonicalRootIri h req r @ x = canonicalRootIri h req r' @ y"
    and "x = [] \<or> hd x = CHR ''/''" "y = [] \<or> hd y = CHR ''/''"
  shows "canonicalRootIri h req r = canonicalRootIri h req r' \<and> x = y"
proof -
  have "canon_name h r @ x = canon_name h r' @ y"
    using assms(1) by (simp add: canonicalRootIri_split(1))
  then show ?thesis
    using split_at_slash [OF canonicalRootIri_split(3) canonicalRootIri_split(3) assms(2,3)]
    by (simp add: canonicalRootIri_split(1))
qed

lemma canonicalizeTerm_cases:
  "isRootOrSkolemDescendant t (map fst m) \<Longrightarrow>
     \<exists>r c suf. (r, c) \<in> set m \<and> t = r @ suf \<and> (suf = [] \<or> startsWith suf ''/.well-known/genid/'')
       \<and> canonicalizeTerm m t = c @ suf"
proof (induction m)
  case Nil
  then show ?case by (simp add: isRootOrSkolemDescendant_def)
next
  case (Cons rc m)
  obtain r c where rc: "rc = (r, c)" by (cases rc)
  show ?case
  proof (cases "t = r")
    case True
    then show ?thesis using rc by (intro exI [of _ r] exI [of _ c] exI [of _ "[]"]) simp
  next
    case ne: False
    show ?thesis
    proof (cases "startsWith t (r @ ''/.well-known/genid/'')")
      case True
      then obtain z where z: "t = r @ ''/.well-known/genid/'' @ z" by (auto simp: startsWith_prefix prefix_def)
      then have "startsWith (drop (length r) t) ''/.well-known/genid/''"
        by (simp add: startsWith_prefix prefix_def)
      then show ?thesis using rc ne True z
        by (intro exI [of _ r] exI [of _ c] exI [of _ "drop (length r) t"]) simp
    next
      case False
      then have "isRootOrSkolemDescendant t (map fst m)"
        using Cons.prems ne rc by (simp add: isRootOrSkolemDescendant_def)
      with Cons.IH show ?thesis using ne False rc by auto
    qed
  qed
qed

lemma genid_suffix: "suf = [] \<or> startsWith suf ''/.well-known/genid/'' \<Longrightarrow> suf = [] \<or> hd suf = CHR ''/''"
  by (cases suf) (auto simp: startsWith_def)

lemma noCollisions_distinct:
  "assertNoCollisionsLoop rv m = Inr () \<Longrightarrow> distinct (map fst m) \<Longrightarrow> [] \<notin> fst ` set m \<Longrightarrow>
   (\<And>c r. map_of rv c = Some r \<Longrightarrow> r \<noteq> [] \<and> r \<notin> fst ` set m) \<Longrightarrow>
   distinct (map snd m) \<and> (\<forall>c \<in> snd ` set m. map_of rv c = None)"
proof (induction rv m rule: assertNoCollisionsLoop.induct)
  case (2 rv s c rest)
  have none: "map_of rv c = None"
  proof (rule ccontr)
    assume "map_of rv c \<noteq> None"
    then obtain r where "map_of rv c = Some r" by auto
    with "2.prems"(1,4) show False by (fastforce split: if_splits)
  qed
  have "distinct (map snd rest) \<and> (\<forall>c' \<in> snd ` set rest. map_of (AList.update c s rv) c' = None)"
  proof (rule "2.IH"(1) [OF none])
    show "assertNoCollisionsLoop (AList.update c s rv) rest = Inr ()" using "2.prems"(1) none by simp
    show "distinct (map fst rest)" "[] \<notin> fst ` set rest" using "2.prems"(2,3) by auto
    show "r \<noteq> [] \<and> r \<notin> fst ` set rest" if "map_of (AList.update c s rv) c' = Some r" for c' r
      using that "2.prems"(2,3) "2.prems"(4) [of c' r] by (auto simp: update_conv' split: if_splits)
  qed
  then show ?case using none by (auto simp: update_conv' split: if_splits)
qed simp

lemma normalizeRoots_facts: "distinct (normalizeRoots rs)" "[] \<notin> set (normalizeRoots rs)"
  by (simp_all add: normalizeRoots_def)

lemma assertSubjects_Inr:
  "assertSubjectsBelongToRoots qs rs = Inr u \<longleftrightarrow> (\<forall>q \<in> set qs. isRootOrSkolemDescendant (subject q) rs)"
  by (induction qs) auto

text \<open>The root map a successful validation builds.\<close>

definition rootMapOf :: "(bytes \<Rightarrow> bytes) \<Rightarrow> LiftRequest \<Rightarrow> (string \<times> string) list" where
  "rootMapOf h req = map (\<lambda>r. (r, canonicalRootIri h req r)) (normalizeRoots (roots req))"

lemma map_of_rootMap:
  "r \<in> set (normalizeRoots (roots req)) \<Longrightarrow> map_of (rootMapOf h req) r = Some (canonicalRootIri h req r)"
  by (simp add: rootMapOf_def map_of_map_restrict restrict_map_def)

abbreviation private_list :: "LiftResolvedPublishSlice \<Rightarrow> Quad list" where
  "private_list r \<equiv> (case privateQuads r of None \<Rightarrow> [] | Some p \<Rightarrow> p)"

lemma validate_Inr:
  assumes "validateLiftPublishPayload h req resolved = Inr p"
  shows "canonicalRootMap (payload_validation p) = rootMapOf h req"
    and "canonicalRoots (payload_validation p) = map (canonicalRootIri h req) (normalizeRoots (roots req))"
    and "authorityProofRef (payload_validation p) = str_trim (proofRef (authority req))"
    and "str_trim (proofRef (authority req)) \<noteq> []"
    and "val_transitionType (payload_validation p) = transitionType req"
    and "val_priorVersion (payload_validation p) = normalizePriorVersion (priorVersion req)"
    and "quads (payload_resolved p) = canonicalizeQuads (rootMapOf h req) (quads resolved)"
    and "privateQuads (payload_resolved p) = map_option (canonicalizeQuads (rootMapOf h req)) (privateQuads resolved)"
    and "\<forall>q \<in> set (quads resolved) \<union> set (private_list resolved).
           isRootOrSkolemDescendant (subject q) (normalizeRoots (roots req))"
    and "assertNoCanonicalRootCollisions (rootMapOf h req) = Inr ()"
    and "swmQuadCount (payload_validation p) = length (quads resolved) + length (private_list resolved)"
    and "0 < length (quads resolved) + length (private_list resolved)"
  using assms
  unfolding validateLiftPublishPayload_def Let_def rootMapOf_def [symmetric]
  by (auto simp: bindE_Inr assertSubjects_Inr map_of_rootMap)

lemma rootMap_distinct:
  assumes "assertNoCanonicalRootCollisions (rootMapOf h req) = Inr ()"
  shows "distinct (map (canonicalRootIri h req) (normalizeRoots (roots req)))"
  using noCollisions_distinct [of "[]" "rootMapOf h req"] assms normalizeRoots_facts [of "roots req"]
  by (simp add: assertNoCanonicalRootCollisions_def rootMapOf_def comp_def image_image)

lemma canonicalizeTerm_inj:
  assumes "distinct (map (canonicalRootIri h req) (normalizeRoots (roots req)))"
    and "isRootOrSkolemDescendant s (normalizeRoots (roots req))"
    and "isRootOrSkolemDescendant t (normalizeRoots (roots req))"
    and eq: "canonicalizeTerm (rootMapOf h req) s = canonicalizeTerm (rootMapOf h req) t"
  shows "s = t"
proof -
  have fst: "map fst (rootMapOf h req) = normalizeRoots (roots req)" by (simp add: rootMapOf_def comp_def)
  obtain r x where s: "r \<in> set (normalizeRoots (roots req))" "s = r @ x"
    "x = [] \<or> startsWith x ''/.well-known/genid/''"
    "canonicalizeTerm (rootMapOf h req) s = canonicalRootIri h req r @ x"
    using canonicalizeTerm_cases [of s "rootMapOf h req"] assms(2) fst by (auto simp: rootMapOf_def)
  obtain r' y where t: "r' \<in> set (normalizeRoots (roots req))" "t = r' @ y"
    "y = [] \<or> startsWith y ''/.well-known/genid/''"
    "canonicalizeTerm (rootMapOf h req) t = canonicalRootIri h req r' @ y"
    using canonicalizeTerm_cases [of t "rootMapOf h req"] assms(3) fst by (auto simp: rootMapOf_def)
  have "canonicalRootIri h req r = canonicalRootIri h req r' \<and> x = y"
    using canonical_suffix_unique [OF _ genid_suffix [OF s(3)] genid_suffix [OF t(3)]] eq s(4) t(4) by simp
  then show ?thesis using assms(1) s(1,2) t(1,2) by (auto simp: distinct_map inj_on_def)
qed

lemma canonicalizeTerm_descends:
  assumes "isRootOrSkolemDescendant s (normalizeRoots (roots req))"
  shows "isRootOrSkolemDescendant (canonicalizeTerm (rootMapOf h req) s)
           (map (canonicalRootIri h req) (normalizeRoots (roots req)))"
proof -
  have "map fst (rootMapOf h req) = normalizeRoots (roots req)" by (simp add: rootMapOf_def comp_def)
  with canonicalizeTerm_cases [of s "rootMapOf h req"] assms
  obtain r x where rx: "r \<in> set (normalizeRoots (roots req))" "x = [] \<or> startsWith x ''/.well-known/genid/''"
    "canonicalizeTerm (rootMapOf h req) s = canonicalRootIri h req r @ x"
    by (auto simp: rootMapOf_def)
  then show ?thesis
    unfolding isRootOrSkolemDescendant_def list_ex_iff
    by (intro bexI [of _ "canonicalRootIri h req r"]) (auto simp: startsWith_prefix)
qed

section \<open>Facts about subtraction\<close>

definition already_published :: "string list \<Rightarrow> string list \<Rightarrow> Quad \<Rightarrow> bool" where
  "already_published confirmedRoots keys q \<longleftrightarrow>
     isRootOrSkolemDescendant (subject q) confirmedRoots \<and> toQuadKey q \<in> set keys"

lemma rootForSubject_None: "rootForSubject s rs = None \<longleftrightarrow> \<not> isRootOrSkolemDescendant s rs"
  by (induction rs) (auto simp: isRootOrSkolemDescendant_def)

lemma rootForSubject_in: "rootForSubject s rs = Some r \<Longrightarrow> r \<in> set rs"
  by (induction rs) (auto split: if_splits)

lemma subtractLoop_filter:
  assumes "[] \<notin> set confirmedRoots"
  shows "subtractLoop confirmedRoots keys qs =
    (filter (\<lambda>q. \<not> already_published confirmedRoots keys q) qs,
     length (filter (already_published confirmedRoots keys) qs))"
proof (induction qs)
  case (Cons q qs)
  then show ?case using rootForSubject_None [of "subject q" confirmedRoots] rootForSubject_in [of "subject q" confirmedRoots] assms
    by (cases "rootForSubject (subject q) confirmedRoots") (auto simp: already_published_def)
qed simp

end
