(* ===== verification/LiftPublisher.thy ===== *)
theory LiftPublisher
  imports LiftSlice
begin

text \<open>
  The asynchronous publisher, \<^verbatim>\<open>packages/publisher/src/async-lift-publisher-impl.ts\<close>, with
  \<^verbatim>\<open>async-lift-publish-result.ts\<close> (results and failures of the publish call) and
  \<^verbatim>\<open>async-lift-publisher-utils.ts\<close>. One operation per method, over the state that the publisher keeps
  in the triple store: the jobs by id and the wallet locks by wallet id. The theory \<open>LiftControlPlane\<close>
  relates these two maps to the quads the code writes.

  Each method is one step of the state. What the process outside decides is read from the
  environment at the current tick: the clock, the id generator, the answers of the chain, of the
  publish call and of the triple store when it is asked for workspace data; every reading advances the tick.

  The publisher's own reads and writes of jobs, locks and control graphs succeed here, so the operations describe a
  publisher whose control store answers. In the code these calls may throw, and the error leaves the method; between the
  removal and the insertion of \<^verbatim>\<open>writeJob\<close> such an error loses the job. Concurrent calls on one publisher are run one after the
  other, as \<^verbatim>\<open>withClaimLock\<close> does for claims.
\<close>

section \<open>Results and failures of the publish call\<close>

record OnChainPublishResult =
  oc_batchId :: int
  oc_startKAId :: "int option"
  oc_endKAId :: "int option"
  oc_txHash :: string
  oc_blockNumber :: int
  oc_blockTimestamp :: int
  oc_publisherAddress :: string

datatype PublishStatus = Tentative | Confirmed | PublishFailed

fun publish_status_text :: "PublishStatus \<Rightarrow> string" where
  "publish_status_text Tentative = ''tentative''"
| "publish_status_text Confirmed = ''confirmed''"
| "publish_status_text PublishFailed = ''failed''"

record PublishResult =
  pr_ual :: string
  pr_merkleRoot :: bytes
  pr_status :: PublishStatus
  onChainResult :: "OnChainPublishResult option"

record AsyncLiftPublishSuccess =
  success_status :: LiftJobState
  success_broadcast :: LiftJobBroadcastMetadata
  success_inclusion :: LiftJobInclusionMetadata
  success_finalization :: "LiftJobFinalizationMetadata option"

definition toHex :: "bytes \<Rightarrow> string" where
  "toHex bs = ''0x'' @ hex_bytes bs"

definition mapPublishResultToLiftJobSuccess ::
  "PublishResult \<Rightarrow> string \<Rightarrow> nat option \<Rightarrow> string + AsyncLiftPublishSuccess" where
  "mapPublishResultToLiftJobSuccess publishResult walletId publicByteSize =
     (case onChainResult publishResult of
        None \<Rightarrow>
          Inl (''Canonical publish returned status '' @ publish_status_text (pr_status publishResult)
               @ '' without onChainResult. Async lift can only map results that include chain submission/finality details.''
               @ '' Check chain configuration, publisher wallet, and canonical publish behavior.'')
      | Some onChain \<Rightarrow>
          let bc = \<lparr>bc_txHash = oc_txHash onChain, bc_walletId = walletId,
                    bc_merkleRoot = Some (toHex (pr_merkleRoot publishResult)), bc_publicByteSize = publicByteSize\<rparr>;
              inc = \<lparr>inc_txHash = oc_txHash onChain, blockNumber = oc_blockNumber onChain,
                     blockHash = None, blockTimestamp = Some (oc_blockTimestamp onChain)\<rparr>
          in case pr_status publishResult of
               Tentative \<Rightarrow> Inr \<lparr>success_status = Included, success_broadcast = bc, success_inclusion = inc,
                                 success_finalization = None\<rparr>
             | Confirmed \<Rightarrow>
                 Inr \<lparr>success_status = Finalized, success_broadcast = bc, success_inclusion = inc,
                      success_finalization = Some
                        \<lparr>fin_mode = Some Published, fin_txHash = Some (oc_txHash onChain),
                         fin_ual = Some (pr_ual publishResult),
                         fin_batchId = Some (show_int (oc_batchId onChain)),
                         fin_startKAId = map_option show_int (oc_startKAId onChain),
                         fin_endKAId = map_option show_int (oc_endKAId onChain),
                         fin_publisherAddress = Some (oc_publisherAddress onChain)\<rparr>\<rparr>
             | PublishFailed \<Rightarrow>
                 Inl ''Async lift publish result cannot map failed canonical publish into success state'')"

definition classifyPublishFailureCode :: "string \<Rightarrow> LiftJobState \<Rightarrow> LiftJobFailureCode" where
  "classifyPublishFailureCode lowerMessage failedFrom =
     (if str_includes lowerMessage ''timeout'' \<or> str_includes lowerMessage ''timed out''
      then (if failedFrom = Included then Finality_timeout else Tx_submit_timeout)
      else if str_includes lowerMessage ''insufficient funds'' then Insufficient_funds
      else if str_includes lowerMessage ''nonce'' then Nonce_conflict
      else if str_includes lowerMessage ''revert'' \<or> str_includes lowerMessage ''reverted'' then Tx_reverted
      else if str_includes lowerMessage ''reorg'' then Chain_reorg
      else if str_includes lowerMessage ''mismatch'' then Confirmation_mismatch
      else if failedFrom = Included then Confirmation_mismatch
      else Rpc_unavailable)"

text \<open>The input of \<^verbatim>\<open>recordPublishFailure\<close>; \<open>error_message\<close> is the message of the error.\<close>

record AsyncLiftPublishFailureInput =
  error_message :: string
  in_failedFromState :: LiftJobState
  in_errorPayloadRef :: string
  in_stackTraceRef :: "string option"
  in_rpcResponseRef :: "string option"
  in_revertReasonRef :: "string option"
  in_timeout :: "LiftJobTimeoutMetadata option"

definition mapPublishExceptionToLiftJobFailure :: "AsyncLiftPublishFailureInput \<Rightarrow> string + LiftJobFailureMetadata" where
  "mapPublishExceptionToLiftJobFailure inp =
     createLiftJobFailureMetadata
       \<lparr>failedFromState = in_failedFromState inp,
        code = classifyPublishFailureCode (toLowerCase (error_message inp)) (in_failedFromState inp),
        message = error_message inp, errorPayloadRef = in_errorPayloadRef inp,
        stackTraceRef = in_stackTraceRef inp, rpcResponseRef = in_rpcResponseRef inp,
        revertReasonRef = in_revertReasonRef inp, timeout = in_timeout inp\<rparr>"

section \<open>State and environment\<close>

datatype WalletLockStatus = Lock_active | Lock_expired | Lock_released

record WalletLockRecord =
  lock_walletId :: string
  lock_jobId :: string
  acquiredAt :: int
  expiresAt :: int
  lock_status :: WalletLockStatus
  lock_claimToken :: "string option"
  lastHeartbeatAt :: "int option"

record LiftState =
  jobs :: "(string \<times> LiftJob) list"
  walletLocks :: "(string \<times> WalletLockRecord) list"
  paused :: bool
  graphEnsured :: bool
  ticks :: nat

text \<open>\<^verbatim>\<open>resolvedSliceOverrides\<close>: the members that are given replace those of the resolved slice.\<close>

record SliceOverrides =
  o_quads :: "Quad list option"
  o_privateQuads :: "Quad list option"
  o_publisherPeerId :: "string option"
  o_accessPolicy :: "AccessPolicy option"
  o_allowedPeers :: "string list option"
  o_entityProofs :: "bool option"
  o_targetGraphUri :: "string option"
  o_targetMetaGraphUri :: "string option"
  o_publishContextGraphId :: "string option"

record LiftEnv =
  clock :: "nat \<Rightarrow> int"
  idGenerator :: "nat \<Rightarrow> string"
  env_maxRetries :: nat
  recoveryLookupTimeoutMs :: int
  chainRecoveryResolver ::
    "(nat \<Rightarrow> LiftJob \<Rightarrow> string + (LiftJobInclusionMetadata \<times> LiftJobFinalizationMetadata) option) option"
  publishExecutor :: "(nat \<Rightarrow> string \<Rightarrow> PublishOptions \<Rightarrow> string + PublishResult) option"
  resolvedSliceOverrides :: SliceOverrides
  store_query :: "nat \<Rightarrow> sparql_query"
  sha256 :: "bytes \<Rightarrow> bytes"
  localeCompare :: "string \<Rightarrow> string \<Rightarrow> int"

type_synonym 'a lift_op = "(LiftState, 'a) op"

definition lockLeaseMs :: int where
  "lockLeaseMs = 5 * 60 * 1000"

definition DEFAULT_RECOVERY_LOOKUP_TIMEOUT_MS :: int where
  "DEFAULT_RECOVERY_LOOKUP_TIMEOUT_MS = 15 * 60 * 1000"

text \<open>The constructor: the configured values, or the defaults.\<close>

definition newAsyncLiftPublisher :: "LiftEnv \<Rightarrow> nat option \<Rightarrow> int option \<Rightarrow> LiftEnv" where
  "newAsyncLiftPublisher env cfgMaxRetries cfgTimeout =
     env\<lparr>env_maxRetries := (case cfgMaxRetries of Some n \<Rightarrow> n | None \<Rightarrow> 3),
         recoveryLookupTimeoutMs :=
           (case cfgTimeout of Some t \<Rightarrow> t | None \<Rightarrow> DEFAULT_RECOVERY_LOOKUP_TIMEOUT_MS)\<rparr>"

definition init_state :: LiftState where
  "init_state = \<lparr>jobs = [], walletLocks = [], paused = False, graphEnsured = False, ticks = 0\<rparr>"

text \<open>A reading of the environment at the current tick.\<close>

definition readEnv :: "(nat \<Rightarrow> 'a) \<Rightarrow> 'a lift_op" where
  "readEnv f = (\<lambda>s. (Inr (f (ticks s)), s\<lparr>ticks := Suc (ticks s)\<rparr>))"

definition nowM :: "LiftEnv \<Rightarrow> int lift_op" where
  "nowM env = readEnv (clock env)"

section \<open>The control plane\<close>

definition jobSubject :: "string \<Rightarrow> string" where
  "jobSubject jid = ''urn:dkg:publisher:lift-job:'' @ jid"

definition requestSubject :: "string \<Rightarrow> string" where
  "requestSubject jid = ''urn:dkg:publisher:lift-request:'' @ jid"

definition walletLockSubject :: "string \<Rightarrow> string" where
  "walletLockSubject wid = ''urn:dkg:publisher:wallet-lock:'' @ wid"

text \<open>The code keeps only non-empty parts, by \<^verbatim>\<open>filter(Boolean)\<close>; a slug part is never empty.\<close>

definition slugRootTail :: "string \<Rightarrow> string" where
  "slugRootTail v = slugPart (rootTail v)"

definition createRootRangeSlug :: "string list \<Rightarrow> string" where
  "createRootRangeSlug rs =
     (if length rs = 0 then ''no-roots''
      else let normalized = sort (filter (\<lambda>x. x \<noteq> []) (map slugRootTail rs))
           in if length normalized = 0 then ''no-roots''
              else if length normalized = 1 then normalized ! 0
              else if length normalized = 2 then normalized ! 0 @ ''-'' @ normalized ! 1
              else normalized ! 0 @ ''-'' @ last normalized @ ''-plus-'' @ show_nat (length normalized - 2))"

definition createJobSlug :: "LiftRequest \<Rightarrow> string" where
  "createJobSlug req =
     join_with ''/'' (filter (\<lambda>x. x \<noteq> [])
       [slugPart (contextGraphId req), slugPart (scope req), toLowerCase (transition_text (transitionType req)),
        slugPart (shareOperationId req), createRootRangeSlug (roots req)])"

definition compareAcceptedJobs :: "(string \<Rightarrow> string \<Rightarrow> int) \<Rightarrow> LiftJob \<Rightarrow> LiftJob \<Rightarrow> int" where
  "compareAcceptedJobs lc a b =
     (let timeDelta = acceptedAt (timestamps a) - acceptedAt (timestamps b)
      in if timeDelta \<noteq> 0 then timeDelta else lc (jobId a) (jobId b))"

definition getRecoveryTxHash :: "LiftJob \<Rightarrow> string option" where
  "getRecoveryTxHash j = map_option bc_txHash (broadcast j)"

definition isFailedJob :: "LiftJob \<Rightarrow> bool" where
  "isFailedJob j = (status j = Failed \<and> failure j \<noteq> None)"

definition ensureGraph :: "unit lift_op" where
  "ensureGraph = modM (\<lambda>s. s\<lparr>graphEnsured := True\<rparr>)"

definition writeJob :: "LiftJob \<Rightarrow> unit lift_op" where
  "writeJob j = modM (\<lambda>s. s\<lparr>jobs := AList.update (jobId j) j (jobs s)\<rparr>)"

definition deleteJob :: "string \<Rightarrow> unit lift_op" where
  "deleteJob jid = modM (\<lambda>s. s\<lparr>jobs := AList.delete jid (jobs s)\<rparr>)"

text \<open>The claim token is written only when it is not empty.\<close>

definition writeWalletLock :: "WalletLockRecord \<Rightarrow> unit lift_op" where
  "writeWalletLock l =
     modM (\<lambda>s. s\<lparr>walletLocks := AList.update (lock_walletId l)
       (l\<lparr>lock_claimToken := (if lock_claimToken l = Some [] then None else lock_claimToken l)\<rparr>) (walletLocks s)\<rparr>)"

definition deleteWalletLock :: "string \<Rightarrow> unit lift_op" where
  "deleteWalletLock wid = modM (\<lambda>s. s\<lparr>walletLocks := AList.delete wid (walletLocks s)\<rparr>)"

text \<open>A lock whose job reference carries no id is read as no lock.\<close>

definition readWalletLock :: "string \<Rightarrow> WalletLockRecord option lift_op" where
  "readWalletLock wid =
     getM (\<lambda>s. case map_of (walletLocks s) wid of
                 None \<Rightarrow> None
               | Some l \<Rightarrow> if lock_jobId l = [] then None else Some l)"

definition hasActiveWalletLock :: "LiftEnv \<Rightarrow> string \<Rightarrow> bool lift_op" where
  "hasActiveWalletLock env wid =
     bindM (nowM env) (\<lambda>now.
     getM (\<lambda>s. case map_of (walletLocks s) wid of
                 None \<Rightarrow> False
               | Some l \<Rightarrow> lock_status l = Lock_active \<and> expiresAt l > now))"

definition getStatus :: "string \<Rightarrow> LiftJob option lift_op" where
  "getStatus jid = bindM ensureGraph (\<lambda>_. getM (\<lambda>s. map_of (jobs s) jid))"

definition getRequiredJob :: "string \<Rightarrow> LiftJob lift_op" where
  "getRequiredJob jid =
     bindM (getStatus jid) (\<lambda>j.
     case j of None \<Rightarrow> throw (''LiftJob not found: '' @ jid) | Some j \<Rightarrow> ret j)"

definition listJobs :: "LiftEnv \<Rightarrow> LiftJobState option \<Rightarrow> LiftJob list lift_op" where
  "listJobs env st =
     bindM ensureGraph (\<lambda>_.
     getM (\<lambda>s. js_sort (compareAcceptedJobs (localeCompare env))
                 (filter (\<lambda>j. case st of None \<Rightarrow> True | Some x \<Rightarrow> status j = x) (map snd (jobs s)))))"

section \<open>Building jobs\<close>

text \<open>
  \<^verbatim>\<open>Partial<LiftJob>\<close>: \<open>None\<close> is an absent key. For the optional members \<open>Some None\<close> is a key with the
  value \<^verbatim>\<open>undefined\<close>, which the spread copies.
\<close>

record PartialLiftJob =
  d_jobId :: "string option"
  d_jobSlug :: "string option"
  d_request :: "LiftRequest option"
  d_timestamps :: "LiftJobTimestamps option"
  d_retries :: "LiftJobRetryMetadata option"
  d_recovery :: "LiftJobRecoveryMetadata option option"
  d_controlPlane :: "LiftJobControlPlaneRefs option option"
  d_claim :: "LiftJobClaimMetadata option option"
  d_validation :: "LiftJobValidationMetadata option option"
  d_broadcast :: "LiftJobBroadcastMetadata option option"
  d_inclusion :: "LiftJobInclusionMetadata option option"
  d_finalization :: "LiftJobFinalizationMetadata option option"
  d_failure :: "LiftJobFailureMetadata option option"

definition no_data :: PartialLiftJob where
  "no_data = \<lparr>d_jobId = None, d_jobSlug = None, d_request = None, d_timestamps = None, d_retries = None,
              d_recovery = None, d_controlPlane = None, d_claim = None, d_validation = None,
              d_broadcast = None, d_inclusion = None, d_finalization = None, d_failure = None\<rparr>"

definition over :: "'a option \<Rightarrow> 'a \<Rightarrow> 'a" where
  "over d cur = (case d of None \<Rightarrow> cur | Some v \<Rightarrow> v)"

lemma over_simps [simp]: "over None x = x" "over (Some v) x = v"
  by (simp_all add: over_def)

text \<open>The first value that is given: \<^verbatim>\<open>a ?? b\<close>, and the spread of an optional member.\<close>

definition orElse :: "'a option \<Rightarrow> 'a option \<Rightarrow> 'a option" where
  "orElse a b = (case a of None \<Rightarrow> b | Some x \<Rightarrow> Some x)"

lemma orElse_simps [simp]: "orElse None b = b" "orElse (Some x) b = Some x"
  by (simp_all add: orElse_def)

definition mergeTimestamps :: "LiftJobTimestamps \<Rightarrow> LiftJobTimestamps option \<Rightarrow> LiftJobTimestamps" where
  "mergeTimestamps cur d =
     (case d of None \<Rightarrow> cur
      | Some t \<Rightarrow>
          \<lparr>acceptedAt = acceptedAt t, claimedAt = orElse (claimedAt t) (claimedAt cur),
           validatedAt = orElse (validatedAt t) (validatedAt cur),
           broadcastAt = orElse (broadcastAt t) (broadcastAt cur),
           includedAt = orElse (includedAt t) (includedAt cur),
           finalizedAt = orElse (finalizedAt t) (finalizedAt cur),
           failedAt = orElse (failedAt t) (failedAt cur),
           lastRetriedAt = orElse (lastRetriedAt t) (lastRetriedAt cur),
           nextRetryAt = orElse (nextRetryAt t) (nextRetryAt cur),
           lastRecoveredAt = orElse (lastRecoveredAt t) (lastRecoveredAt cur),
           updatedAt = updatedAt t\<rparr>)"

definition mergedJob :: "LiftJob \<Rightarrow> LiftJobState \<Rightarrow> PartialLiftJob \<Rightarrow> int \<Rightarrow> LiftJob" where
  "mergedJob cur st d now =
     (let ts = mergeTimestamps (timestamps cur) (d_timestamps d);
          stamp = (\<lambda>at old. if st = at then orElse old (Some now) else old)
      in \<lparr>jobId = over (d_jobId d) (jobId cur),
          jobSlug = over (d_jobSlug d) (jobSlug cur),
          request = over (d_request d) (request cur),
          status = st,
          timestamps = ts\<lparr>claimedAt := stamp Claimed (claimedAt ts),
                          validatedAt := stamp Validated (validatedAt ts),
                          broadcastAt := stamp Broadcast (broadcastAt ts),
                          includedAt := stamp Included (includedAt ts),
                          finalizedAt := stamp Finalized (finalizedAt ts),
                          failedAt := stamp Failed (failedAt ts),
                          updatedAt := now\<rparr>,
          retries = over (d_retries d) (retries cur),
          recovery = over (d_recovery d) (recovery cur),
          controlPlane = over (d_controlPlane d) (controlPlane cur),
          claim = over (d_claim d) (claim cur),
          validation = over (d_validation d) (validation cur),
          broadcast = over (d_broadcast d) (broadcast cur),
          inclusion = over (d_inclusion d) (inclusion cur),
          finalization = over (d_finalization d) (finalization cur),
          failure = over (d_failure d) (failure cur)\<rparr>)"

definition mergeJob :: "LiftEnv \<Rightarrow> LiftJob \<Rightarrow> LiftJobState \<Rightarrow> PartialLiftJob \<Rightarrow> LiftJob lift_op" where
  "mergeJob env cur st d =
     bindM (nowM env) (\<lambda>now.
     bindM (if status cur \<noteq> st then liftE (assertLiftJobTransition (status cur) st) else ret ()) (\<lambda>_.
     ret (mergedJob cur st d now)))"

fun is_active :: "LiftJobState \<Rightarrow> bool" where
  "is_active st = (st = Claimed \<or> st = Validated \<or> st = Broadcast \<or> st = Included)"

declare is_active.simps [simp del]

definition assertJobMatchesStatus :: "LiftJob \<Rightarrow> string + unit" where
  "assertJobMatchesStatus j =
     (case status j of
        Accepted \<Rightarrow> Inr ()
      | Claimed \<Rightarrow> throw_if (claim j = None) ''Claimed LiftJob requires claim metadata''
      | Validated \<Rightarrow> throw_if (claim j = None \<or> validation j = None)
          ''Validated LiftJob requires claim and validation metadata''
      | Broadcast \<Rightarrow> throw_if (claim j = None \<or> validation j = None \<or> broadcast j = None)
          ''Broadcast LiftJob requires claim, validation, and broadcast metadata''
      | Included \<Rightarrow> throw_if (claim j = None \<or> validation j = None \<or> broadcast j = None \<or> inclusion j = None)
          ''Included LiftJob requires claim, validation, broadcast, and inclusion metadata''
      | Finalized \<Rightarrow>
          (case finalization j of
             None \<Rightarrow> Inl ''Finalized LiftJob requires claim, validation, and finalization metadata''
           | Some fin \<Rightarrow>
               bindE (throw_if (claim j = None \<or> validation j = None)
                 ''Finalized LiftJob requires claim, validation, and finalization metadata'') (\<lambda>_.
               throw_if (fin_mode fin \<noteq> Some Noop \<and> (broadcast j = None \<or> inclusion j = None))
                 ''Published finalized LiftJob requires broadcast and inclusion metadata''))
      | Failed \<Rightarrow> throw_if (failure j = None) ''Failed LiftJob requires failure metadata'')"

definition buildClaimedJob :: "LiftJob \<Rightarrow> string \<Rightarrow> string \<Rightarrow> int \<Rightarrow> int \<Rightarrow> LiftJob" where
  "buildClaimedJob j walletId tok now lockExpiresAt =
     j\<lparr>claim := Some \<lparr>claim_walletId = walletId,
                      claimedBy = (case claim j of None \<Rightarrow> None | Some c \<Rightarrow> claimedBy c),
                      claimToken = Some tok, claimLeaseExpiresAt = Some lockExpiresAt\<rparr>,
       controlPlane := Some \<lparr>jobRef = (case controlPlane j of None \<Rightarrow> None | Some c \<Rightarrow> jobRef c),
                             walletLockRef = Some (walletLockSubject walletId)\<rparr>,
       timestamps := (timestamps j)\<lparr>claimedAt := Some now, updatedAt := now\<rparr>\<rparr>"

definition refreshActiveLease :: "LiftEnv \<Rightarrow> LiftJob \<Rightarrow> LiftJob lift_op" where
  "refreshActiveLease env j =
     (case claim j of None \<Rightarrow> ret j
      | Some c \<Rightarrow>
          if \<not> is_active (status j) then ret j
          else bindM (nowM env) (\<lambda>now.
               ret (j\<lparr>claim := Some (c\<lparr>claimLeaseExpiresAt := Some (now + lockLeaseMs)\<rparr>),
                      timestamps := (timestamps j)\<lparr>updatedAt := now\<rparr>\<rparr>)))"

definition accepted_timestamps :: "int \<Rightarrow> int \<Rightarrow> LiftJobTimestamps" where
  "accepted_timestamps acc upd =
     \<lparr>acceptedAt = acc, claimedAt = None, validatedAt = None, broadcastAt = None, includedAt = None,
      finalizedAt = None, failedAt = None, lastRetriedAt = None, nextRetryAt = None,
      lastRecoveredAt = None, updatedAt = upd\<rparr>"

definition accepted_job ::
  "string \<Rightarrow> string \<Rightarrow> LiftRequest \<Rightarrow> LiftJobTimestamps \<Rightarrow> LiftJobRetryMetadata
   \<Rightarrow> LiftJobRecoveryMetadata option \<Rightarrow> LiftJobControlPlaneRefs option \<Rightarrow> LiftJob" where
  "accepted_job jid slug req ts rt rec cp =
     \<lparr>jobId = jid, jobSlug = slug, request = req, status = Accepted, timestamps = ts, retries = rt,
      recovery = rec, controlPlane = cp, claim = None, validation = None, broadcast = None,
      inclusion = None, finalization = None, failure = None\<rparr>"

definition resetJobToAccepted :: "LiftEnv \<Rightarrow> LiftJob \<Rightarrow> LiftJobState \<Rightarrow> string option \<Rightarrow> LiftJob lift_op" where
  "resetJobToAccepted env j recoveredFrom tx =
     bindM (nowM env) (\<lambda>now.
     ret (accepted_job (jobId j) (jobSlug j) (request j)
       ((accepted_timestamps (acceptedAt (timestamps j)) now)\<lparr>lastRecoveredAt := Some now\<rparr>)
       (retries j)
       (Some \<lparr>action = Recovery_reset_to_accepted, recoveredFromStatus = recoveredFrom, txHashChecked = tx,
              recovery_note = None\<rparr>)
       (controlPlane j)))"

definition resetFailedJobToAccepted :: "LiftEnv \<Rightarrow> LiftJob \<Rightarrow> LiftJobFailureMetadata \<Rightarrow> LiftJob lift_op" where
  "resetFailedJobToAccepted env j f =
     bindM (nowM env) (\<lambda>now.
     ret (accepted_job (jobId j) (jobSlug j) (request j)
       ((accepted_timestamps (acceptedAt (timestamps j)) now)
          \<lparr>lastRecoveredAt := Some now, lastRetriedAt := Some now\<rparr>)
       (retries j)
       (if failedFromState f = Claimed \<or> failedFromState f = Validated \<or> failedFromState f = Broadcast
        then Some \<lparr>action = Recovery_reset_to_accepted, recoveredFromStatus = failedFromState f,
                   txHashChecked = getRecoveryTxHash j, recovery_note = None\<rparr>
        else None)
       (controlPlane j)))"

text \<open>\<^verbatim>\<open>job.broadcast.txHash\<close> throws a \<^verbatim>\<open>TypeError\<close> when the job has no broadcast metadata.\<close>

definition finalizeRecoveredJob ::
  "LiftEnv \<Rightarrow> LiftJob \<Rightarrow> LiftJobInclusionMetadata \<Rightarrow> LiftJobFinalizationMetadata \<Rightarrow> LiftJob lift_op" where
  "finalizeRecoveredJob env j inc fin =
     bindM (nowM env) (\<lambda>now.
     case broadcast j of
       None \<Rightarrow> throw ''TypeError: Cannot read properties of undefined''
     | Some bc \<Rightarrow>
         ret (j\<lparr>status := Finalized, inclusion := Some inc, finalization := Some fin,
                recovery := Some \<lparr>action = Finalized_from_chain, recoveredFromStatus = status j,
                                  txHashChecked = Some (bc_txHash bc), recovery_note = None\<rparr>,
                timestamps := (timestamps j)
                  \<lparr>failedAt := None, includedAt := orElse (includedAt (timestamps j)) (Some now),
                   finalizedAt := Some now, lastRecoveredAt := Some now, updatedAt := now\<rparr>\<rparr>))"

definition hasInconclusiveRecoveryTimedOut :: "LiftEnv \<Rightarrow> LiftJob \<Rightarrow> bool lift_op" where
  "hasInconclusiveRecoveryTimedOut env j =
     bindM (nowM env) (\<lambda>now.
     let startedAt = (case orElse (includedAt (timestamps j)) (broadcastAt (timestamps j)) of
                        Some t \<Rightarrow> t | None \<Rightarrow> updatedAt (timestamps j))
     in ret (now - startedAt \<ge> recoveryLookupTimeoutMs env))"

definition failInconclusiveRecovery :: "LiftEnv \<Rightarrow> LiftJob \<Rightarrow> LiftJob lift_op" where
  "failInconclusiveRecovery env j =
     bindM (nowM env) (\<lambda>now.
     bindM (liftE (createLiftJobFailureMetadata
       \<lparr>failedFromState = status j, code = Recovery_lookup_timeout,
        message = ''Chain recovery remained inconclusive for '' @ show_int (recoveryLookupTimeoutMs env)
                  @ ''ms after '' @ state_text (status j),
        errorPayloadRef = ''urn:dkg:publisher:error:'' @ jobId j @ '':recovery-timeout'',
        stackTraceRef = None, rpcResponseRef = None, revertReasonRef = None,
        timeout = Some \<lparr>timeoutMs = recoveryLookupTimeoutMs env, timeoutAt = now, handling = Retry_recovery\<rparr>\<rparr>)) (\<lambda>f.
     mergeJob env j Failed (no_data\<lparr>d_failure := Some (Some f)\<rparr>)))"

definition computePublicByteSize :: "Quad list \<Rightarrow> nat" where
  "computePublicByteSize qs =
     length (utf8 (join_with [NL] (map (\<lambda>q.
       ''<'' @ subject q @ ''> <'' @ predicate q @ ''> ''
       @ (if startsWith (object q) [QUOTE] then object q else ''<'' @ object q @ ''>'')
       @ '' <'' @ graph q @ ''> .'') qs)))"

section \<open>Wallet locks\<close>

definition lockMatchesJob :: "WalletLockRecord \<Rightarrow> LiftJob \<Rightarrow> bool" where
  "lockMatchesJob l j =
     (if lock_jobId l \<noteq> jobId j then False
      else case (case claim j of None \<Rightarrow> None | Some c \<Rightarrow> claimToken c, lock_claimToken l) of
             (Some jt, Some lt) \<Rightarrow> if jt \<noteq> [] \<and> lt \<noteq> [] then lt = jt else True
           | _ \<Rightarrow> True)"

definition releaseWalletLockForJob :: "LiftJob \<Rightarrow> unit lift_op" where
  "releaseWalletLockForJob j =
     (case claim j of
        None \<Rightarrow> ret ()
      | Some c \<Rightarrow>
          if claim_walletId c = [] then ret ()
          else bindM (readWalletLock (claim_walletId c)) (\<lambda>l.
               case l of None \<Rightarrow> ret ()
               | Some l \<Rightarrow> if \<not> lockMatchesJob l j then ret () else deleteWalletLock (claim_walletId c)))"

definition syncWalletLockForJob :: "LiftEnv \<Rightarrow> LiftJob \<Rightarrow> unit lift_op" where
  "syncWalletLockForJob env j =
     (case claim j of
        None \<Rightarrow> ret ()
      | Some c \<Rightarrow>
          if claim_walletId c = [] then ret ()
          else bindM (readWalletLock (claim_walletId c)) (\<lambda>currentLock.
               if is_active (status j)
               then (if (case currentLock of None \<Rightarrow> False | Some l \<Rightarrow> \<not> lockMatchesJob l j) then ret ()
                     else bindM (case claimedAt (timestamps j) of Some t \<Rightarrow> ret t | None \<Rightarrow> nowM env) (\<lambda>acquired.
                          bindM (nowM env) (\<lambda>heartbeat.
                          writeWalletLock \<lparr>lock_walletId = claim_walletId c, lock_jobId = jobId j, acquiredAt = acquired,
                            expiresAt = (case claimLeaseExpiresAt c of Some t \<Rightarrow> t | None \<Rightarrow> acquired + lockLeaseMs),
                            lock_status = Lock_active, lock_claimToken = claimToken c,
                            lastHeartbeatAt = Some heartbeat\<rparr>)))
               else (case currentLock of None \<Rightarrow> ret ()
                     | Some l \<Rightarrow> if lockMatchesJob l j then deleteWalletLock (claim_walletId c) else ret ())))"

definition lock_stale :: "LiftState \<Rightarrow> int \<Rightarrow> WalletLockRecord \<Rightarrow> bool" where
  "lock_stale s now l =
     (expiresAt l \<le> now \<or>
      (case (if lock_jobId l = [] then None else map_of (jobs s) (lock_jobId l)) of
         None \<Rightarrow> True
       | Some j \<Rightarrow> status j = Accepted \<or> status j = Failed \<or> status j = Finalized
                   \<or> map_option claim_walletId (claim j) \<noteq> Some (lock_walletId l)))"

definition sweepStaleWalletLocks :: "LiftEnv \<Rightarrow> unit lift_op" where
  "sweepStaleWalletLocks env =
     bindM (nowM env) (\<lambda>now.
     bindM (getM (\<lambda>s. filter (\<lambda>l. lock_status l = Lock_active) (map snd (walletLocks s)))) (\<lambda>locks.
     forM locks (\<lambda>l.
       if lock_walletId l = [] then ret ()
       else bindM (getM (\<lambda>s. lock_stale s now l)) (\<lambda>stale.
            if \<not> stale then ret () else deleteWalletLock (lock_walletId l)))))"

section \<open>The public operations\<close>

definition lift :: "LiftEnv \<Rightarrow> LiftRequest \<Rightarrow> string lift_op" where
  "lift env req =
     bindM ensureGraph (\<lambda>_.
     bindM (nowM env) (\<lambda>now.
     bindM (readEnv (idGenerator env)) (\<lambda>jid.
     bindM (writeJob (accepted_job jid (createJobSlug req) req (accepted_timestamps now now)
              \<lparr>retryCount = 0, maxRetries = env_maxRetries env, lastRetryReason = None\<rparr> None
              (Some \<lparr>jobRef = Some (jobSubject jid), walletLockRef = None\<rparr>))) (\<lambda>_.
     ret jid))))"

text \<open>
  \<^verbatim>\<open>withClaimLock\<close> runs the claims of one control graph one after the other, so a claim is one step.
\<close>

definition claimNext :: "LiftEnv \<Rightarrow> string \<Rightarrow> LiftJob option lift_op" where
  "claimNext env walletId =
     bindM ensureGraph (\<lambda>_.
     bindM (getM paused) (\<lambda>p.
     if p then ret None
     else bindM (hasActiveWalletLock env walletId) (\<lambda>locked.
     if locked then ret None
     else bindM (listJobs env (Some Accepted)) (\<lambda>accepted.
     case js_sort (compareAcceptedJobs (localeCompare env)) accepted of
       [] \<Rightarrow> ret None
     | next # _ \<Rightarrow>
         bindM (nowM env) (\<lambda>now.
         let tok = walletId @ '':'' @ show_int now @ '':'' @ jobId next;
             lockExpiresAt = now + lockLeaseMs
         in bindM (mergeJob env next Claimed (no_data\<lparr>d_claim := Some (Some
                     \<lparr>claim_walletId = walletId, claimedBy = None, claimToken = None, claimLeaseExpiresAt = None\<rparr>)\<rparr>)) (\<lambda>claimed.
            let claimedJob = buildClaimedJob claimed walletId tok now lockExpiresAt
            in bindM (liftE (assertJobMatchesStatus claimedJob)) (\<lambda>_.
               bindM (writeJob claimedJob) (\<lambda>_.
               bindM (writeWalletLock \<lparr>lock_walletId = walletId, lock_jobId = jobId claimedJob, acquiredAt = now,
                        expiresAt = lockExpiresAt, lock_status = Lock_active, lock_claimToken = Some tok,
                        lastHeartbeatAt = Some now\<rparr>) (\<lambda>_.
               ret (Some claimedJob))))))))))"

text \<open>The tail the writing methods share: check, write, and bring the wallet lock in line.\<close>

definition commitJob :: "LiftEnv \<Rightarrow> LiftJob \<Rightarrow> LiftJob lift_op" where
  "commitJob env next =
     bindM (liftE (assertJobMatchesStatus next)) (\<lambda>_.
     bindM (writeJob next) (\<lambda>_.
     bindM (syncWalletLockForJob env next) (\<lambda>_.
     ret next)))"

definition update :: "LiftEnv \<Rightarrow> string \<Rightarrow> LiftJobState \<Rightarrow> PartialLiftJob \<Rightarrow> unit lift_op" where
  "update env jid st d =
     bindM ensureGraph (\<lambda>_.
     bindM (getRequiredJob jid) (\<lambda>cur.
     bindM (mergeJob env cur st d) (\<lambda>merged.
     bindM (refreshActiveLease env merged) (\<lambda>next.
     bindM (commitJob env next) (\<lambda>_.
     ret ())))))"

text \<open>The writes of \<^verbatim>\<open>recordPublishResult\<close> once the result is mapped.\<close>

definition recordMapped :: "LiftEnv \<Rightarrow> AsyncLiftPublishSuccess \<Rightarrow> LiftJob \<Rightarrow> LiftJob lift_op" where
  "recordMapped env mapped cur =
     (let bc = no_data\<lparr>d_broadcast := Some (Some (success_broadcast mapped))\<rparr>;
          inc = bc\<lparr>d_inclusion := Some (Some (success_inclusion mapped))\<rparr>;
          fin = inc\<lparr>d_finalization := Some (success_finalization mapped)\<rparr>
      in bindM (if status cur = Validated then bindM (mergeJob env cur Broadcast bc) (commitJob env) else ret cur) (\<lambda>next.
         if success_status mapped = Included
         then bindM (mergeJob env next Included inc) (commitJob env)
         else bindM (if status next = Broadcast then bindM (mergeJob env next Included inc) (commitJob env)
                     else ret next) (\<lambda>next.
              bindM (mergeJob env next Finalized fin) (commitJob env))))"

definition recordPublishResult :: "LiftEnv \<Rightarrow> string \<Rightarrow> PublishResult \<Rightarrow> nat option \<Rightarrow> LiftJob lift_op" where
  "recordPublishResult env jid publishResult publicByteSize =
     bindM ensureGraph (\<lambda>_.
     bindM (getRequiredJob jid) (\<lambda>cur.
     case (claim cur, validation cur) of
       (Some c, Some _) \<Rightarrow>
         bindM (liftE (mapPublishResultToLiftJobSuccess publishResult (claim_walletId c) publicByteSize)) (\<lambda>mapped.
         recordMapped env mapped cur)
     | _ \<Rightarrow> throw (''LiftJob '' @ jid @ '' must be claimed and validated before recording publish results'')))"

definition recordPublishFailure :: "LiftEnv \<Rightarrow> string \<Rightarrow> AsyncLiftPublishFailureInput \<Rightarrow> LiftJob lift_op" where
  "recordPublishFailure env jid inp =
     bindM ensureGraph (\<lambda>_.
     bindM (getRequiredJob jid) (\<lambda>cur.
     bindM (liftE (mapPublishExceptionToLiftJobFailure inp)) (\<lambda>f.
     bindM (mergeJob env cur Failed (no_data\<lparr>d_failure := Some (Some f)\<rparr>)) (commitJob env))))"

definition executionFailureCode :: "string \<Rightarrow> LiftJobFailureCode" where
  "executionFailureCode lower =
     (if str_includes lower ''timeout'' \<or> str_includes lower ''timed out'' \<or> str_includes lower ''unavailable''
         \<or> str_includes lower ''query'' \<or> str_includes lower ''store''
      then Workspace_unavailable
      else if str_includes lower ''authority'' then Authority_forbidden
      else if str_includes lower ''workspace'' \<or> str_includes lower ''root'' then Workspace_slice_not_found
      else Canonicalization_failed)"

definition recordExecutionFailure :: "LiftEnv \<Rightarrow> string \<Rightarrow> LiftJobState \<Rightarrow> string \<Rightarrow> LiftJob lift_op" where
  "recordExecutionFailure env jid failedFrom msg =
     bindM (getRequiredJob jid) (\<lambda>cur.
     if failedFrom = Claimed \<or> failedFrom = Validated
     then bindM (liftE (createLiftJobFailureMetadata
            \<lparr>failedFromState = failedFrom, code = executionFailureCode (toLowerCase msg), message = msg,
             errorPayloadRef = ''urn:dkg:publisher:error:'' @ jid, stackTraceRef = None, rpcResponseRef = None,
             revertReasonRef = None, timeout = None\<rparr>)) (\<lambda>f.
          bindM (mergeJob env cur Failed (no_data\<lparr>d_failure := Some (Some f)\<rparr>)) (commitJob env))
     else bindM (if str_includes (toLowerCase msg) ''timeout'' \<or> str_includes (toLowerCase msg) ''timed out''
                 then bindM (nowM env) (\<lambda>now. ret (Some \<lparr>timeoutMs = 0, timeoutAt = now,
                        handling = Check_chain_then_finalize_or_reset\<rparr>))
                 else ret None) (\<lambda>tmo.
          recordPublishFailure env jid
            \<lparr>error_message = msg, in_failedFromState = (if failedFrom = Included then Included else Broadcast),
             in_errorPayloadRef = ''urn:dkg:publisher:error:'' @ jid, in_stackTraceRef = None,
             in_rpcResponseRef = None, in_revertReasonRef = None, in_timeout = tmo\<rparr>))"

definition finalizeNoopPublish :: "LiftEnv \<Rightarrow> string \<Rightarrow> LiftJob lift_op" where
  "finalizeNoopPublish env jid =
     bindM (getRequiredJob jid) (\<lambda>cur.
     bindM (mergeJob env cur Finalized (no_data\<lparr>d_finalization := Some (Some
       \<lparr>fin_mode = Some Noop, fin_txHash = None, fin_ual = None, fin_batchId = None, fin_startKAId = None,
        fin_endKAId = None, fin_publisherAddress = None\<rparr>)\<rparr>)) (commitJob env))"

definition applyOverrides :: "SliceOverrides \<Rightarrow> LiftResolvedPublishSlice \<Rightarrow> LiftResolvedPublishSlice" where
  "applyOverrides ov r =
     \<lparr>quads = over (o_quads ov) (quads r),
      privateQuads = orElse (o_privateQuads ov) (privateQuads r),
      publisherPeerId = orElse (o_publisherPeerId ov) (publisherPeerId r),
      accessPolicy = orElse (o_accessPolicy ov) (accessPolicy r),
      allowedPeers = orElse (o_allowedPeers ov) (allowedPeers r),
      entityProofs = orElse (o_entityProofs ov) (entityProofs r),
      targetGraphUri = orElse (o_targetGraphUri ov) (targetGraphUri r),
      targetMetaGraphUri = orElse (o_targetMetaGraphUri ov) (targetMetaGraphUri r),
      publishContextGraphId = orElse (o_publishContextGraphId ov) (publishContextGraphId r)\<rparr>"

text \<open>
  The body of the \<^verbatim>\<open>try\<close> of \<^verbatim>\<open>processNext\<close>, from the claimed job on. \<^verbatim>\<open>failureState\<close> is local to the
  method: \<open>attempt st m\<close> is the part of the body that runs while it has the value \<open>st\<close>, with the
  \<^verbatim>\<open>catch\<close> clause around it.
\<close>

definition attempt :: "LiftEnv \<Rightarrow> string \<Rightarrow> LiftJobState \<Rightarrow> 'a lift_op \<Rightarrow> ('a \<Rightarrow> LiftJob lift_op) \<Rightarrow> LiftJob lift_op" where
  "attempt env jid st m k =
     bindM (catchM (bindM m (\<lambda>x. ret (Inr x)))
                   (\<lambda>e. bindM (recordExecutionFailure env jid st e) (\<lambda>j. ret (Inl j)))) (\<lambda>r.
     case r of Inl j \<Rightarrow> ret j | Inr x \<Rightarrow> k x)"

definition resolveAndValidate :: "LiftEnv \<Rightarrow> LiftRequest \<Rightarrow> ValidatedLiftPublishPayload lift_op" where
  "resolveAndValidate env req =
     bindM (readEnv (store_query env)) (\<lambda>query.
     bindM (liftE (resolveLiftWorkspaceSlice query req)) (\<lambda>resolved.
     liftE (validateLiftPublishPayload (sha256 env) req (applyOverrides (resolvedSliceOverrides env) resolved))))"

definition processClaimed ::
  "LiftEnv \<Rightarrow> (nat \<Rightarrow> string \<Rightarrow> PublishOptions \<Rightarrow> string + PublishResult) \<Rightarrow> string \<Rightarrow> LiftJob \<Rightarrow> LiftJob lift_op" where
  "processClaimed env executor walletId claimed =
     attempt env (jobId claimed) (status claimed)
       (bindM (resolveAndValidate env (request claimed)) (\<lambda>validated.
        bindM (update env (jobId claimed) Validated
                 (no_data\<lparr>d_validation := Some (Some (payload_validation validated))\<rparr>)) (\<lambda>_.
        ret validated)))
     (\<lambda>validated.
     attempt env (jobId claimed) Validated
       (bindM (readEnv (store_query env)) (\<lambda>query.
        bindM (liftE (subtractFinalizedExactQuads query (request claimed) (payload_validation validated)
                        (payload_resolved validated))) (\<lambda>subtracted.
        if length (quads (sub_resolved subtracted)) = 0
           \<and> (case privateQuads (sub_resolved subtracted) of None \<Rightarrow> 0 | Some p \<Rightarrow> length p) = 0
        then bindM (finalizeNoopPublish env (jobId claimed)) (\<lambda>j. ret (Inl j))
        else bindM (liftE (prepareAsyncPublishPayload (request claimed) (payload_validation validated)
                             (sub_resolved subtracted))) (\<lambda>prepared.
             ret (Inr prepared)))))
     (\<lambda>r. case r of
        Inl j \<Rightarrow> ret j
      | Inr prepared \<Rightarrow>
          attempt env (jobId claimed) Broadcast
            (bindM (readEnv executor) (\<lambda>run.
             bindM (liftE (run walletId (publishOptions prepared))) (\<lambda>publishResult.
             recordPublishResult env (jobId claimed) publishResult
               (Some (computePublicByteSize (po_quads (publishOptions prepared)))))))
            ret))"

definition processNext :: "LiftEnv \<Rightarrow> string \<Rightarrow> LiftJob option lift_op" where
  "processNext env walletId =
     (case publishExecutor env of
        None \<Rightarrow> throw ''Async lift publisher processNext requires a configured publishExecutor''
      | Some executor \<Rightarrow>
          bindM (claimNext env walletId) (\<lambda>claimed.
          case claimed of
            None \<Rightarrow> ret None
          | Some c \<Rightarrow> bindM (processClaimed env executor walletId c) (\<lambda>j. ret (Some j))))"

definition inspectPreparedPayload :: "LiftEnv \<Rightarrow> string \<Rightarrow> (AsyncPreparedPublishPayload \<times> nat \<times> nat) option lift_op" where
  "inspectPreparedPayload env jid =
     bindM ensureGraph (\<lambda>_.
     bindM (getStatus jid) (\<lambda>j.
     case j of None \<Rightarrow> ret None
     | Some j \<Rightarrow>
         bindM (resolveAndValidate env (request j)) (\<lambda>validated.
         bindM (readEnv (store_query env)) (\<lambda>query.
         bindM (liftE (subtractFinalizedExactQuads query (request j) (payload_validation validated)
                         (payload_resolved validated))) (\<lambda>subtracted.
         bindM (liftE (prepareAsyncPublishPayload (request j) (payload_validation validated)
                         (sub_resolved subtracted))) (\<lambda>prepared.
         ret (Some (prepared, alreadyPublishedPublicCount subtracted, alreadyPublishedPrivateCount subtracted))))))))"

section \<open>Recovery and maintenance\<close>

definition resetInterrupted :: "LiftEnv \<Rightarrow> LiftJob \<Rightarrow> nat lift_op" where
  "resetInterrupted env j =
     bindM (releaseWalletLockForJob j) (\<lambda>_.
     bindM (resetJobToAccepted env j (status j) (getRecoveryTxHash j)) (\<lambda>r.
     bindM (writeJob r) (\<lambda>_.
     ret 1)))"

definition recoverJob :: "LiftEnv \<Rightarrow> LiftJob \<Rightarrow> nat lift_op" where
  "recoverJob env j =
     (if status j = Claimed \<or> status j = Validated then resetInterrupted env j
      else case chainRecoveryResolver env of
             Some resolver \<Rightarrow>
               bindM (readEnv resolver) (\<lambda>ask.
               bindM (liftE (ask j)) (\<lambda>resolved.
               case resolved of
                 Some (inc, fin) \<Rightarrow>
                   bindM (releaseWalletLockForJob j) (\<lambda>_.
                   bindM (finalizeRecoveredJob env j inc fin) (\<lambda>r.
                   bindM (writeJob r) (\<lambda>_. ret 1)))
               | None \<Rightarrow>
                   bindM (hasInconclusiveRecoveryTimedOut env j) (\<lambda>timedOut.
                   if timedOut
                   then bindM (releaseWalletLockForJob j) (\<lambda>_.
                        bindM (failInconclusiveRecovery env j) (\<lambda>r.
                        bindM (writeJob r) (\<lambda>_. ret 1)))
                   else ret 0)))
           | None \<Rightarrow> if status j = Broadcast then resetInterrupted env j else ret 0)"

definition retryRecoveryJob ::
  "LiftEnv \<Rightarrow> (nat \<Rightarrow> LiftJob \<Rightarrow> string + (LiftJobInclusionMetadata \<times> LiftJobFinalizationMetadata) option)
   \<Rightarrow> LiftJob \<Rightarrow> nat lift_op" where
  "retryRecoveryJob env resolver j =
     bindM (readEnv resolver) (\<lambda>ask.
     bindM (liftE (ask j)) (\<lambda>resolved.
     case (resolved, failure j) of
       (Some (inc, fin), Some f) \<Rightarrow>
         bindM (releaseWalletLockForJob j) (\<lambda>_.
         bindM (finalizeRecoveredJob env
                  (j\<lparr>failure := None, status := (if failedFromState f = Included then Included else Broadcast)\<rparr>)
                  inc fin) (\<lambda>r.
         bindM (writeJob r) (\<lambda>_. ret 1)))
     | _ \<Rightarrow> ret 0))"

definition needs_retry_recovery :: "LiftJob \<Rightarrow> bool" where
  "needs_retry_recovery j =
     (isFailedJob j \<and> map_option resolution (failure j) = Some Retry_recovery \<and> broadcast j \<noteq> None)"

definition recover :: "LiftEnv \<Rightarrow> nat lift_op" where
  "recover env =
     bindM ensureGraph (\<lambda>_.
     bindM (sweepStaleWalletLocks env) (\<lambda>_.
     bindM (listJobs env None) (\<lambda>all.
     bindM (countM (filter (\<lambda>j. is_active (status j)) all) (recoverJob env)) (\<lambda>recovered.
     case chainRecoveryResolver env of
       None \<Rightarrow> ret recovered
     | Some resolver \<Rightarrow>
         bindM (listJobs env (Some Failed)) (\<lambda>failed.
         bindM (countM (filter needs_retry_recovery failed) (retryRecoveryJob env resolver)) (\<lambda>more.
         ret (recovered + more)))))))"

definition getStats :: "LiftEnv \<Rightarrow> (LiftJobState \<Rightarrow> nat) lift_op" where
  "getStats env =
     bindM (listJobs env None) (\<lambda>all.
     ret (fold (\<lambda>j stats. stats(status j := stats (status j) + 1)) all (\<lambda>_. 0)))"

definition pause :: "unit lift_op" where
  "pause = modM (\<lambda>s. s\<lparr>paused := True\<rparr>)"

definition resume :: "unit lift_op" where
  "resume = modM (\<lambda>s. s\<lparr>paused := False\<rparr>)"

definition cancel :: "string \<Rightarrow> unit lift_op" where
  "cancel jid =
     bindM ensureGraph (\<lambda>_.
     bindM (getRequiredJob jid) (\<lambda>j.
     if status j \<noteq> Accepted
     then throw (''Only accepted LiftJobs can be cancelled. Current status: '' @ state_text (status j))
     else bindM (releaseWalletLockForJob j) (\<lambda>_. deleteJob jid)))"

definition retryJob :: "LiftEnv \<Rightarrow> LiftJob \<Rightarrow> nat lift_op" where
  "retryJob env j =
     (case failure j of
        None \<Rightarrow> ret 0
      | Some f \<Rightarrow>
          if \<not> retryable f \<or> retryCount (retries j) \<ge> maxRetries (retries j) then ret 0
          else if resolution f = Retry_recovery then ret 0
          else bindM (resetFailedJobToAccepted env j f) (\<lambda>reset.
               bindM (nowM env) (\<lambda>retriedAt.
               bindM (releaseWalletLockForJob j) (\<lambda>_.
               bindM (writeJob (reset
                 \<lparr>retries := (retries reset)\<lparr>retryCount := retryCount (retries j) + 1,
                                          lastRetryReason := Some (code_text (code f))\<rparr>,
                  timestamps := (timestamps reset)\<lparr>lastRetriedAt := Some retriedAt, updatedAt := retriedAt\<rparr>\<rparr>)) (\<lambda>_.
               ret 1)))))"

text \<open>The filter of \<^verbatim>\<open>retry\<close> only has the value \<^verbatim>\<open>failed\<close>.\<close>

definition retry :: "LiftEnv \<Rightarrow> nat lift_op" where
  "retry env =
     bindM ensureGraph (\<lambda>_.
     bindM (listJobs env (Some Failed)) (\<lambda>failed.
     countM (filter isFailedJob failed) (retryJob env)))"

definition clearJob :: "LiftJobState \<Rightarrow> LiftJob \<Rightarrow> nat lift_op" where
  "clearJob st j =
     (if st = Failed \<and> isFailedJob j \<and> map_option resolution (failure j) = Some Retry_recovery then ret 0
      else bindM (releaseWalletLockForJob j) (\<lambda>_. bindM (deleteJob (jobId j)) (\<lambda>_. ret 1)))"

definition clear :: "LiftEnv \<Rightarrow> LiftJobState \<Rightarrow> nat lift_op" where
  "clear env st =
     bindM ensureGraph (\<lambda>_.
     bindM (listJobs env (Some st)) (\<lambda>js.
     countM js (clearJob st)))"

end
