(* ===== verification/LiftLifecycle.thy ===== *)
theory LiftLifecycle
  imports LiftPublisher
begin

text \<open>
  What the asynchronous publisher promises of a job, and that every operation keeps the promise.
  The inductive relation \<open>lifecycle\<close> says how one job may change; an operation \<^emph>\<open>evolves\<close> the state when
  every job in it changes by a chain of such changes. Everything about a single job (its status
  order, its immutable parts, its retry budget) is proved on the relation alone.
\<close>

section \<open>Well-formed jobs\<close>

definition retry_recovery_ok :: "LiftJob \<Rightarrow> bool" where
  "retry_recovery_ok j \<longleftrightarrow>
     (case failure j of None \<Rightarrow> True
      | Some f \<Rightarrow> resolution f = Retry_recovery \<longrightarrow> claim j \<noteq> None \<and> validation j \<noteq> None \<and> broadcast j \<noteq> None)"

definition job_ok :: "string \<Rightarrow> LiftJob \<Rightarrow> bool" where
  "job_ok k j \<longleftrightarrow> jobId j = k \<and> assertJobMatchesStatus j = Inr () \<and> retry_recovery_ok j
                  \<and> retryCount (retries j) \<le> maxRetries (retries j)"

text \<open>The parts of a job that \<^verbatim>\<open>LIFT_JOB_IMMUTABLE_FIELDS\<close> names.\<close>

definition same_core :: "LiftJob \<Rightarrow> LiftJob \<Rightarrow> bool" where
  "same_core a b \<longleftrightarrow> jobId a = jobId b \<and> jobSlug a = jobSlug b \<and> request a = request b
     \<and> acceptedAt (timestamps a) = acceptedAt (timestamps b) \<and> maxRetries (retries a) = maxRetries (retries b)"

definition fresh_accepted :: "LiftJob \<Rightarrow> bool" where
  "fresh_accepted j \<longleftrightarrow> status j = Accepted \<and> claim j = None \<and> validation j = None \<and> broadcast j = None
     \<and> inclusion j = None \<and> finalization j = None \<and> failure j = None"

inductive lifecycle :: "string \<Rightarrow> LiftJob option \<Rightarrow> LiftJob option \<Rightarrow> bool" for k where
  progressed: "job_ok k j \<Longrightarrow> job_ok k j' \<Longrightarrow> same_core j j' \<Longrightarrow> retryCount (retries j') = retryCount (retries j) \<Longrightarrow>
    status j' = status j \<or> canTransitionLiftJob (status j) (status j') \<Longrightarrow> lifecycle k (Some j) (Some j')"
| reset: "job_ok k j \<Longrightarrow> job_ok k j' \<Longrightarrow> same_core j j' \<Longrightarrow> retryCount (retries j') = retryCount (retries j) \<Longrightarrow>
    status j = Claimed \<or> status j = Validated \<or> status j = Broadcast \<Longrightarrow> fresh_accepted j' \<Longrightarrow>
    lifecycle k (Some j) (Some j')"
| chain_finalized: "job_ok k j \<Longrightarrow> job_ok k j' \<Longrightarrow> same_core j j' \<Longrightarrow> retryCount (retries j') = retryCount (retries j) \<Longrightarrow>
    status j = Broadcast \<or> status j = Included
      \<or> (status j = Failed \<and> map_option resolution (failure j) = Some Retry_recovery) \<Longrightarrow>
    status j' = Finalized \<Longrightarrow> inclusion j' \<noteq> None \<Longrightarrow> broadcast j' = broadcast j \<Longrightarrow>
    lifecycle k (Some j) (Some j')"
| retried: "job_ok k j \<Longrightarrow> job_ok k j' \<Longrightarrow> same_core j j' \<Longrightarrow> status j = Failed \<Longrightarrow> failure j = Some f \<Longrightarrow>
    retryable f \<Longrightarrow> resolution f \<noteq> Retry_recovery \<Longrightarrow> retryCount (retries j) < maxRetries (retries j) \<Longrightarrow>
    retryCount (retries j') = retryCount (retries j) + 1 \<Longrightarrow> fresh_accepted j' \<Longrightarrow>
    lifecycle k (Some j) (Some j')"
| removed: "job_ok k j \<Longrightarrow> status j = Accepted \<or> status j = Finalized \<or> status j = Failed \<Longrightarrow>
    \<not> (status j = Failed \<and> map_option resolution (failure j) = Some Retry_recovery) \<Longrightarrow>
    lifecycle k (Some j) None"

inductive_cases lifecycle_NoneE: "lifecycle k None y"
inductive_cases lifecycle_SomeE: "lifecycle k (Some j) y"

text \<open>What a request adds.\<close>

definition submitted :: "string \<Rightarrow> LiftJob \<Rightarrow> bool" where
  "submitted k j \<longleftrightarrow> job_ok k j \<and> fresh_accepted j \<and> retryCount (retries j) = 0"

text \<open>A job that is well-formed before a change is so after it.\<close>

lemma lifecycle_job_ok: "lifecycle k x (Some j') \<Longrightarrow> job_ok k j'"
  by (auto elim: lifecycle.cases)

lemma lifecycles_job_ok:
  "(lifecycle k)\<^sup>*\<^sup>* x y \<Longrightarrow> y = Some j' \<Longrightarrow> (\<And>j. x = Some j \<Longrightarrow> job_ok k j) \<Longrightarrow> job_ok k j'"
  by (induction arbitrary: j' rule: rtranclp_induct) (auto dest: lifecycle_job_ok)

section \<open>Evolution of the state\<close>

definition evolves :: "LiftState \<Rightarrow> LiftState \<Rightarrow> bool" where
  "evolves s s' \<longleftrightarrow> (\<forall>k. (lifecycle k)\<^sup>*\<^sup>* (map_of (jobs s) k) (map_of (jobs s') k))"

definition jobs_ok :: "LiftState \<Rightarrow> bool" where
  "jobs_ok s \<longleftrightarrow> (\<forall>k j. map_of (jobs s) k = Some j \<longrightarrow> job_ok k j)"

definition keys_ok :: "LiftState \<Rightarrow> bool" where
  "keys_ok s \<longleftrightarrow> distinct (map fst (jobs s))"

lemma evolves_same: "jobs s' = jobs s \<Longrightarrow> evolves s s'"
  by (simp add: evolves_def)

lemma evolves_trans [trans]: "evolves a b \<Longrightarrow> evolves b c \<Longrightarrow> evolves a c"
  unfolding evolves_def by (meson rtranclp_trans)

lemma evolves_jobs_ok: "evolves s s' \<Longrightarrow> jobs_ok s \<Longrightarrow> jobs_ok s'"
  unfolding evolves_def jobs_ok_def by (metis lifecycles_job_ok)

text \<open>A change of the one job \<open>k\<close>.\<close>

definition evolves_at :: "string \<Rightarrow> LiftState \<Rightarrow> LiftState \<Rightarrow> bool" where
  "evolves_at k s s' \<longleftrightarrow> (\<forall>k'. k' \<noteq> k \<longrightarrow> map_of (jobs s') k' = map_of (jobs s) k')
     \<and> (lifecycle k)\<^sup>*\<^sup>* (map_of (jobs s) k) (map_of (jobs s') k)"

lemma evolves_at_evolves: "evolves_at k s s' \<Longrightarrow> evolves s s'"
  unfolding evolves_at_def evolves_def by (metis rtranclp.rtrancl_refl)

lemma evolves_at_same: "jobs s' = jobs s \<Longrightarrow> evolves_at k s s'"
  by (simp add: evolves_at_def)

lemma evolves_at_trans: "evolves_at k a b \<Longrightarrow> evolves_at k b c \<Longrightarrow> evolves_at k a c"
  unfolding evolves_at_def by (metis rtranclp_trans)

lemma evolves_at_update:
  assumes "lifecycle k (map_of (jobs s) k) (Some j)" "jobs s' = AList.update k j (jobs s)"
  shows "evolves_at k s s'"
  using assms by (auto simp: evolves_at_def update_conv')

lemma evolves_at_delete:
  assumes "lifecycle k (map_of (jobs s) k) None" "jobs s' = AList.delete k (jobs s)"
  shows "evolves_at k s s'"
  using assms by (auto simp: evolves_at_def delete_conv')

section \<open>Running the operations\<close>

text \<open>Every operation of the publisher is determined; these equations run the ones that do not loop.\<close>

lemma readEnv_run [op_simps]: "readEnv f s = (Inr (f (ticks s)), s\<lparr>ticks := Suc (ticks s)\<rparr>)"
  by (simp add: readEnv_def)

lemma nowM_run [op_simps]: "nowM env s = (Inr (clock env (ticks s)), s\<lparr>ticks := Suc (ticks s)\<rparr>)"
  by (simp add: nowM_def op_simps)

lemma ensureGraph_run [op_simps]: "ensureGraph s = (Inr (), s\<lparr>graphEnsured := True\<rparr>)"
  by (simp add: ensureGraph_def op_simps)

lemma writeJob_run [op_simps]: "writeJob j s = (Inr (), s\<lparr>jobs := AList.update (jobId j) j (jobs s)\<rparr>)"
  by (simp add: writeJob_def op_simps)

lemma deleteJob_run [op_simps]: "deleteJob k s = (Inr (), s\<lparr>jobs := AList.delete k (jobs s)\<rparr>)"
  by (simp add: deleteJob_def op_simps)

lemma getRequiredJob_run [op_simps]:
  "getRequiredJob k s =
     (case map_of (jobs s) k of None \<Rightarrow> (Inl (''LiftJob not found: '' @ k), s\<lparr>graphEnsured := True\<rparr>)
      | Some j \<Rightarrow> (Inr j, s\<lparr>graphEnsured := True\<rparr>))"
  by (simp add: getRequiredJob_def getStatus_def op_simps split: option.splits)

lemma mergeJob_run [op_simps]:
  "mergeJob env cur st d s =
     (if status cur = st \<or> canTransitionLiftJob (status cur) st
      then (Inr (mergedJob cur st d (clock env (ticks s))), s\<lparr>ticks := Suc (ticks s)\<rparr>)
      else (Inl (projl (assertLiftJobTransition (status cur) st)), s\<lparr>ticks := Suc (ticks s)\<rparr>))"
  by (auto simp: mergeJob_def op_simps assertLiftJobTransition_def Let_def)

text \<open>The operations on wallet locks never throw and leave the jobs and the pause flag as they are.\<close>

definition lock_only :: "'a lift_op \<Rightarrow> bool" where
  "lock_only m \<longleftrightarrow> (\<forall>s. (\<exists>x. fst (m s) = Inr x) \<and> jobs (snd (m s)) = jobs s \<and> paused (snd (m s)) = paused s)"

lemma lock_only_ret: "lock_only (ret x)"
  by (simp add: lock_only_def op_simps)

lemma lock_only_now: "lock_only (nowM env)"
  by (simp add: lock_only_def op_simps)

lemma lock_only_getM: "lock_only (getM f)"
  by (simp add: lock_only_def op_simps)

lemma lock_only_bindM: "lock_only m \<Longrightarrow> (\<And>x. lock_only (f x)) \<Longrightarrow> lock_only (bindM m f)"
  unfolding lock_only_def
  by (auto simp: op_simps split: sum.splits) (metis sum.distinct(1))+

lemma lock_only_forM: "(\<And>x. lock_only (f x)) \<Longrightarrow> lock_only (forM xs f)"
  by (induction xs) (auto intro: lock_only_ret lock_only_bindM)

lemma lock_only_option: "lock_only m \<Longrightarrow> (\<And>x. lock_only (f x)) \<Longrightarrow> lock_only (case v of None \<Rightarrow> m | Some x \<Rightarrow> f x)"
  by (cases v) auto

lemma lock_only_if: "lock_only m \<Longrightarrow> lock_only n \<Longrightarrow> lock_only (if b then m else n)"
  by simp

lemma lock_only_locks: "lock_only (writeWalletLock l)" "lock_only (deleteWalletLock w)" "lock_only (readWalletLock w)"
  by (simp_all add: lock_only_def writeWalletLock_def deleteWalletLock_def readWalletLock_def op_simps)

lemmas lock_only_intros = lock_only_ret lock_only_now lock_only_getM lock_only_bindM lock_only_forM
  lock_only_option lock_only_if lock_only_locks

lemma lock_only_release: "lock_only (releaseWalletLockForJob j)"
  unfolding releaseWalletLockForJob_def by (intro lock_only_intros)

lemma lock_only_sync: "lock_only (syncWalletLockForJob env j)"
  unfolding syncWalletLockForJob_def by (intro lock_only_intros)

lemma lock_only_sweep: "lock_only (sweepStaleWalletLocks env)"
  unfolding sweepStaleWalletLocks_def by (intro lock_only_intros)

lemma lock_only_unit_run:
  assumes "lock_only (m :: unit lift_op)"
  shows "m s = (Inr (), snd (m s))" "jobs (snd (m s)) = jobs s" "paused (snd (m s)) = paused s"
  using assms unfolding lock_only_def by (metis old.unit.exhaust prod.collapse)+

lemma fst_lock_ops [simp]:
  "fst (releaseWalletLockForJob j s) = Inr ()"
  "fst (syncWalletLockForJob env j s) = Inr ()"
  "fst (sweepStaleWalletLocks env s) = Inr ()"
  by (metis fst_conv lock_only_release lock_only_sync lock_only_sweep lock_only_unit_run(1))+

lemmas jobs_lock_ops [simp] = lock_only_unit_run(2) [OF lock_only_release]
  lock_only_unit_run(2) [OF lock_only_sync] lock_only_unit_run(2) [OF lock_only_sweep]

lemmas paused_lock_ops [simp] = lock_only_unit_run(3) [OF lock_only_release]
  lock_only_unit_run(3) [OF lock_only_sync] lock_only_unit_run(3) [OF lock_only_sweep]

section \<open>One write\<close>

lemma commitJob_run [op_simps]:
  "commitJob env j s =
     (case assertJobMatchesStatus j of Inl e \<Rightarrow> (Inl e, s)
      | Inr _ \<Rightarrow> (Inr j, snd (syncWalletLockForJob env j (s\<lparr>jobs := AList.update (jobId j) j (jobs s)\<rparr>))))"
  by (simp add: commitJob_def op_simps split: sum.splits)

text \<open>
  Data that respects \<^verbatim>\<open>LIFT_JOB_IMMUTABLE_FIELDS\<close>, that removes no progress metadata, and whose
  failure, when it is one for \<^verbatim>\<open>recover\<close>, comes with the metadata recovery reads.
\<close>

definition data_wf :: "LiftJob \<Rightarrow> PartialLiftJob \<Rightarrow> bool" where
  "data_wf cur d \<longleftrightarrow>
     d_jobId d = None \<and> d_jobSlug d = None \<and> d_request d = None \<and> d_retries d = None
     \<and> (\<forall>t. d_timestamps d = Some t \<longrightarrow> acceptedAt t = acceptedAt (timestamps cur))
     \<and> d_claim d \<noteq> Some None \<and> d_validation d \<noteq> Some None \<and> d_broadcast d \<noteq> Some None
     \<and> (\<forall>f. d_failure d = Some (Some f) \<longrightarrow> resolution f = Retry_recovery \<longrightarrow>
           claim cur \<noteq> None \<and> validation cur \<noteq> None \<and> broadcast cur \<noteq> None)"

lemma mergedJob_sel [simp]:
  "status (mergedJob cur st d now) = st"
  "claim (mergedJob cur st d now) = over (d_claim d) (claim cur)"
  "validation (mergedJob cur st d now) = over (d_validation d) (validation cur)"
  "broadcast (mergedJob cur st d now) = over (d_broadcast d) (broadcast cur)"
  "inclusion (mergedJob cur st d now) = over (d_inclusion d) (inclusion cur)"
  "finalization (mergedJob cur st d now) = over (d_finalization d) (finalization cur)"
  "failure (mergedJob cur st d now) = over (d_failure d) (failure cur)"
  "jobId (mergedJob cur st d now) = over (d_jobId d) (jobId cur)"
  "jobSlug (mergedJob cur st d now) = over (d_jobSlug d) (jobSlug cur)"
  "request (mergedJob cur st d now) = over (d_request d) (request cur)"
  "retries (mergedJob cur st d now) = over (d_retries d) (retries cur)"
  by (simp_all add: mergedJob_def Let_def)

lemma mergedJob_acceptedAt [simp]:
  "acceptedAt (timestamps (mergedJob cur st d now)) =
     (case d_timestamps d of None \<Rightarrow> acceptedAt (timestamps cur) | Some t \<Rightarrow> acceptedAt t)"
  by (simp add: mergedJob_def Let_def mergeTimestamps_def split: option.splits)

lemma no_data_sel [simp]:
  "d_jobId no_data = None" "d_jobSlug no_data = None" "d_request no_data = None" "d_retries no_data = None"
  "d_timestamps no_data = None" "d_claim no_data = None" "d_validation no_data = None"
  "d_broadcast no_data = None" "d_inclusion no_data = None" "d_finalization no_data = None"
  "d_failure no_data = None"
  by (simp_all add: no_data_def)

lemma over_not_None: "x \<noteq> None \<Longrightarrow> d \<noteq> Some None \<Longrightarrow> over d x \<noteq> None"
  by (cases d) auto

lemma mergedJob_core:
  assumes "job_ok k cur" "data_wf cur d"
  shows "same_core cur (mergedJob cur st d now)" "jobId (mergedJob cur st d now) = k"
    "retries (mergedJob cur st d now) = retries cur" "retry_recovery_ok (mergedJob cur st d now)"
proof -
  show "same_core cur (mergedJob cur st d now)" "jobId (mergedJob cur st d now) = k"
    "retries (mergedJob cur st d now) = retries cur"
    using assms by (cases "d_timestamps d"; simp add: same_core_def data_wf_def job_ok_def)+
  have keep: "claim cur \<noteq> None \<Longrightarrow> over (d_claim d) (claim cur) \<noteq> None"
    "validation cur \<noteq> None \<Longrightarrow> over (d_validation d) (validation cur) \<noteq> None"
    "broadcast cur \<noteq> None \<Longrightarrow> over (d_broadcast d) (broadcast cur) \<noteq> None"
    using assms(2) by (auto simp: data_wf_def over_def split: option.splits)
  have "claim cur \<noteq> None \<and> validation cur \<noteq> None \<and> broadcast cur \<noteq> None"
    if "over (d_failure d) (failure cur) = Some f" "resolution f = Retry_recovery" for f
    using that assms by (cases "d_failure d") (auto simp: data_wf_def job_ok_def retry_recovery_ok_def)
  then show "retry_recovery_ok (mergedJob cur st d now)"
    using keep unfolding retry_recovery_ok_def by (auto split: option.splits)
qed

text \<open>The renewal of the lease of a job keeps everything but the lease and \<^verbatim>\<open>updatedAt\<close>.\<close>

definition lease_only :: "LiftJob \<Rightarrow> LiftJob \<Rightarrow> bool" where
  "lease_only a b \<longleftrightarrow> same_core a b \<and> status b = status a \<and> retries b = retries a
     \<and> (claim b = None \<longleftrightarrow> claim a = None) \<and> validation b = validation a \<and> broadcast b = broadcast a
     \<and> inclusion b = inclusion a \<and> finalization b = finalization a \<and> failure b = failure a"

lemma refresh_run:
  "\<exists>j'. fst (refreshActiveLease env j s) = Inr j' \<and> lease_only j j' \<and> jobs (snd (refreshActiveLease env j s)) = jobs s"
  by (auto simp: refreshActiveLease_def op_simps lease_only_def same_core_def split: option.splits)

lemma lease_only_ok:
  "lease_only a b \<Longrightarrow> assertJobMatchesStatus b = assertJobMatchesStatus a \<and> retry_recovery_ok b = retry_recovery_ok a"
  by (auto simp: lease_only_def assertJobMatchesStatus_def retry_recovery_ok_def
      split: LiftJobState.splits option.splits)

lemma same_core_trans: "same_core a b \<Longrightarrow> same_core b c \<Longrightarrow> same_core a c"
  by (simp add: same_core_def)

lemma commit_progress:
  assumes "map_of (jobs s) k = Some cur" "job_ok k cur" "same_core cur j" "retries j = retries cur"
    "retry_recovery_ok j" "status j = status cur \<or> canTransitionLiftJob (status cur) (status j)"
  shows "evolves_at k s (snd (commitJob env j s))"
    "fst (commitJob env j s) = Inr j' \<Longrightarrow> j' = j \<and> job_ok k j \<and> map_of (jobs (snd (commitJob env j s))) k = Some j"
proof -
  have ok: "job_ok k j" if "assertJobMatchesStatus j = Inr ()"
    using assms that by (simp add: job_ok_def same_core_def)
  have "jobId j = k" using assms by (simp add: job_ok_def same_core_def)
  show "evolves_at k s (snd (commitJob env j s))"
  proof (cases "assertJobMatchesStatus j")
    case (Inr u)
    then have "lifecycle k (map_of (jobs s) k) (Some j)"
      using assms ok by (auto intro: lifecycle.progressed)
    then show ?thesis using Inr \<open>jobId j = k\<close> by (auto simp: commitJob_run intro: evolves_at_update)
  qed (simp add: commitJob_run evolves_at_same)
  show "fst (commitJob env j s) = Inr j' \<Longrightarrow> j' = j \<and> job_ok k j \<and> map_of (jobs (snd (commitJob env j s))) k = Some j"
    using ok \<open>jobId j = k\<close> by (cases "assertJobMatchesStatus j") (auto simp: op_simps update_conv')
qed

lemma merge_commit:
  assumes "map_of (jobs s) k = Some cur" "job_ok k cur" "data_wf cur d"
  shows "evolves_at k s (snd (bindM (mergeJob env cur st d) (commitJob env) s))"
    "fst (bindM (mergeJob env cur st d) (commitJob env) s) = Inr j' \<Longrightarrow>
       j' = mergedJob cur st d (clock env (ticks s)) \<and> job_ok k j'
       \<and> map_of (jobs (snd (bindM (mergeJob env cur st d) (commitJob env) s))) k = Some j'"
proof -
  let ?j = "mergedJob cur st d (clock env (ticks s))"
  let ?s = "s\<lparr>ticks := Suc (ticks s)\<rparr>"
  have s: "map_of (jobs ?s) k = Some cur" using assms(1) by simp
  have at: "evolves_at k ?s t \<Longrightarrow> evolves_at k s t" for t by (simp add: evolves_at_def)
  note core = mergedJob_core [OF assms(2,3), of st "clock env (ticks s)"]
  show "evolves_at k s (snd (bindM (mergeJob env cur st d) (commitJob env) s))"
  proof (cases "status cur = st \<or> canTransitionLiftJob (status cur) st")
    case True
    then have "bindM (mergeJob env cur st d) (commitJob env) s = commitJob env ?j ?s"
      by (simp add: bindM_run mergeJob_run)
    then show ?thesis using at [OF commit_progress(1) [OF s assms(2) core(1,3,4)]] True by auto
  qed (simp add: bindM_run mergeJob_run evolves_at_same)
  assume r: "fst (bindM (mergeJob env cur st d) (commitJob env) s) = Inr j'"
  then have True: "status cur = st \<or> canTransitionLiftJob (status cur) st"
    by (auto simp: bindM_run mergeJob_run split: if_splits)
  then have "bindM (mergeJob env cur st d) (commitJob env) s = commitJob env ?j ?s"
    by (simp add: bindM_run mergeJob_run)
  then show "j' = ?j \<and> job_ok k j' \<and> map_of (jobs (snd (bindM (mergeJob env cur st d) (commitJob env) s))) k = Some j'"
    using commit_progress(2) [OF s assms(2) core(1,3,4), of env j'] True r by auto
qed

section \<open>Operations that evolve the state\<close>

definition good :: "LiftState \<Rightarrow> bool" where
  "good s \<longleftrightarrow> jobs_ok s \<and> keys_ok s"

definition evolving :: "'a lift_op \<Rightarrow> bool" where
  "evolving m \<longleftrightarrow> (\<forall>s. good s \<longrightarrow> evolves s (snd (m s)) \<and> keys_ok (snd (m s)))"

named_theorems evolving_intros \<open>operations that change jobs only along their life cycle\<close>

lemma evolvingD: "evolving m \<Longrightarrow> good s \<Longrightarrow> evolves s (snd (m s)) \<and> good (snd (m s))"
  unfolding evolving_def good_def using evolves_jobs_ok by blast

lemma evolving_same: "(\<And>s. jobs (snd (m s)) = jobs s) \<Longrightarrow> evolving m"
  by (simp add: evolving_def good_def keys_ok_def evolves_same)

lemma evolving_basic [evolving_intros]:
  "evolving (ret x)" "evolving (throw e)" "evolving (getM f)" "evolving (liftE r)" "evolving (readEnv g)"
  "evolving (nowM env)" "evolving ensureGraph"
  "evolving (releaseWalletLockForJob j)" "evolving (sweepStaleWalletLocks env)" "evolving (listJobs env st)"
  by (rule evolving_same, simp add: op_simps listJobs_def)+

lemma evolving_bindM [evolving_intros]:
  assumes "evolving m" "\<And>x. evolving (f x)"
  shows "evolving (bindM m f)"
  unfolding evolving_def
proof (intro allI impI)
  fix s assume "good s"
  then have m: "evolves s (snd (m s))" "good (snd (m s))" using evolvingD [OF assms(1)] by auto
  show "evolves s (snd (bindM m f s)) \<and> keys_ok (snd (bindM m f s))"
  proof (cases "fst (m s)")
    case (Inl e)
    then show ?thesis using m by (simp add: bindM_run good_def)
  next
    case (Inr x)
    then show ?thesis using evolvingD [OF assms(2) m(2), of x] m evolves_trans
      by (auto simp: bindM_run good_def)
  qed
qed

lemma evolving_catchM [evolving_intros]:
  assumes "evolving m" "\<And>e. evolving (h e)"
  shows "evolving (catchM m h)"
  unfolding evolving_def
proof (intro allI impI)
  fix s assume "good s"
  then have m: "evolves s (snd (m s))" "good (snd (m s))" using evolvingD [OF assms(1)] by auto
  show "evolves s (snd (catchM m h s)) \<and> keys_ok (snd (catchM m h s))"
  proof (cases "fst (m s)")
    case (Inl e)
    then show ?thesis using evolvingD [OF assms(2) m(2), of e] m evolves_trans
      by (auto simp: catchM_run good_def)
  next
    case (Inr x)
    then show ?thesis using m by (simp add: catchM_run good_def)
  qed
qed

lemma evolving_if [evolving_intros]: "evolving m \<Longrightarrow> evolving n \<Longrightarrow> evolving (if b then m else n)"
  by simp

lemma evolving_option [evolving_intros]:
  "evolving m \<Longrightarrow> (\<And>x. evolving (f x)) \<Longrightarrow> evolving (case v of None \<Rightarrow> m | Some x \<Rightarrow> f x)"
  by (cases v) auto

lemma evolving_sum [evolving_intros]:
  "(\<And>x. evolving (f x)) \<Longrightarrow> (\<And>x. evolving (g x)) \<Longrightarrow> evolving (case v of Inl x \<Rightarrow> f x | Inr y \<Rightarrow> g y)"
  by (cases v) auto

text \<open>The keys of the two maps stay distinct.\<close>

lemma keeps_keys_sync [keeps_intros]:
  "keeps keys_ok (syncWalletLockForJob env j)" "keeps keys_ok (releaseWalletLockForJob j)"
  "keeps keys_ok (sweepStaleWalletLocks env)" "keeps keys_ok (nowM env)" "keeps keys_ok ensureGraph"
  "keeps keys_ok (readEnv g)" "keeps keys_ok (getRequiredJob k)"
  by (auto simp: keeps_def keys_ok_def op_simps split: option.splits)

lemma keeps_keys_write [keeps_intros]: "keeps keys_ok (writeJob j)" "keeps keys_ok (deleteJob k)"
  by (auto simp: keeps_def keys_ok_def op_simps distinct_delete)

lemma keeps_keys_commit [keeps_intros]: "keeps keys_ok (commitJob env j)" "keeps keys_ok (mergeJob env cur st d)"
  unfolding commitJob_def mergeJob_def by (intro keeps_intros)+

text \<open>An operation on the job it looks up.\<close>

lemma evolving_lookup:
  assumes "\<And>s cur. good s \<Longrightarrow> map_of (jobs s) k = Some cur \<Longrightarrow> job_ok k cur \<Longrightarrow> evolves s (snd (f cur s))"
    and "\<And>cur. keeps keys_ok (f cur)"
  shows "evolving (bindM (getRequiredJob k) f)"
  unfolding evolving_def
proof (intro allI impI)
  fix s assume good: "good s"
  let ?s = "s\<lparr>graphEnsured := True\<rparr>"
  have g: "good ?s" using good by (simp add: good_def jobs_ok_def keys_ok_def)
  show "evolves s (snd (bindM (getRequiredJob k) f s)) \<and> keys_ok (snd (bindM (getRequiredJob k) f s))"
  proof (cases "map_of (jobs s) k")
    case None
    then show ?thesis using good by (simp add: op_simps evolves_same good_def keys_ok_def)
  next
    case (Some cur)
    then have "job_ok k cur" using good by (simp add: good_def jobs_ok_def)
    then have "evolves ?s (snd (f cur ?s))" using assms(1) [OF g] Some by simp
    moreover have "keys_ok (snd (f cur ?s))" using assms(2) g by (simp add: keeps_def good_def)
    ultimately show ?thesis using Some by (simp add: op_simps evolves_def)
  qed
qed

lemma evolving_merge_commit:
  assumes "\<And>cur. job_ok k cur \<Longrightarrow> data_wf cur (d cur)"
  shows "evolving (bindM (getRequiredJob k) (\<lambda>cur. bindM (mergeJob env cur st (d cur)) (commitJob env)))"
  by (intro evolving_lookup keeps_intros) (auto intro: evolves_at_evolves merge_commit(1) assms)

lemma evolving_update:
  assumes "\<And>cur. job_ok k cur \<Longrightarrow> data_wf cur d"
  shows "evolving (update env k st d)"
  unfolding update_def
proof (rule evolving_bindM [OF evolving_basic(7)], rule evolving_lookup)
  fix s cur
  assume s: "good s" "map_of (jobs s) k = Some cur" "job_ok k cur"
  let ?j = "mergedJob cur st d (clock env (ticks s))"
  let ?s = "s\<lparr>ticks := Suc (ticks s)\<rparr>"
  obtain j' where j': "fst (refreshActiveLease env ?j ?s) = Inr j'" "lease_only ?j j'"
    "jobs (snd (refreshActiveLease env ?j ?s)) = jobs s"
    using refresh_run [of env ?j ?s] by auto
  let ?t = "snd (refreshActiveLease env ?j ?s)"
  note core = mergedJob_core [OF s(3) assms [OF s(3)], of st "clock env (ticks s)"]
  have m: "fst (mergeJob env cur st d s) = Inr ?j \<and> snd (mergeJob env cur st d s) = ?s"
    if "status cur = st \<or> canTransitionLiftJob (status cur) st"
    using that by (simp add: mergeJob_run)
  show "evolves s (snd (bindM (mergeJob env cur st d) (\<lambda>merged.
      bindM (refreshActiveLease env merged) (\<lambda>next. bindM (commitJob env next) (\<lambda>_. ret ()))) s))"
  proof (cases "status cur = st \<or> canTransitionLiftJob (status cur) st")
    case True
    have "evolves_at k ?t (snd (commitJob env j' ?t))"
    proof (rule commit_progress(1))
      show "map_of (jobs ?t) k = Some cur" using j'(3) s(2) by simp
      show "same_core cur j'" using core(1) j'(2) same_core_trans by (auto simp: lease_only_def)
      show "retries j' = retries cur" using core(3) j'(2) by (simp add: lease_only_def)
      show "retry_recovery_ok j'" using core(4) lease_only_ok [OF j'(2)] by simp
      show "status j' = status cur \<or> canTransitionLiftJob (status cur) (status j')"
        using True j'(2) by (auto simp: lease_only_def)
    qed (rule s(3))
    then have "evolves s (snd (commitJob env j' ?t))"
      using evolves_trans [OF evolves_same [OF j'(3)]] evolves_at_evolves by blast
    then show ?thesis using m [OF True] j'(1)
      by (simp add: bindM_run [of "mergeJob env cur st d"] bindM_run [of "refreshActiveLease env ?j"]
          bindM_run [of "commitJob env j'"] ret_run split: sum.splits)
  next
    case False
    then show ?thesis by (simp add: bindM_run mergeJob_run evolves_same)
  qed
next
  have lease: "keeps keys_ok (refreshActiveLease env j)" for j
    unfolding refreshActiveLease_def by (intro keeps_intros)
  show "keeps keys_ok (bindM (mergeJob env cur st d) (\<lambda>merged.
      bindM (refreshActiveLease env merged) (\<lambda>next. bindM (commitJob env next) (\<lambda>_. ret ()))))" for cur
    by (intro keeps_intros lease)
qed

section \<open>The writing operations\<close>

lemma evolving_getRequiredJob [evolving_intros]: "evolving (getRequiredJob k)"
  by (rule evolving_same) (simp add: op_simps split: option.splits)

lemma mapResult_Inr:
  "mapPublishResultToLiftJobSuccess r w n = Inr m \<Longrightarrow>
     success_status m = Included \<or> (success_status m = Finalized \<and> success_finalization m \<noteq> None)"
  by (auto simp: mapPublishResultToLiftJobSuccess_def Let_def split: option.splits PublishStatus.splits)

lemma data_wf_simple:
  "data_wf cur (no_data\<lparr>d_broadcast := Some (Some b)\<rparr>)"
  "data_wf cur (no_data\<lparr>d_broadcast := Some (Some b), d_inclusion := i\<rparr>)"
  "data_wf cur (no_data\<lparr>d_broadcast := Some (Some b), d_inclusion := i, d_finalization := fi\<rparr>)"
  "data_wf cur (no_data\<lparr>d_finalization := fi\<rparr>)"
  "data_wf cur (no_data\<lparr>d_validation := Some (Some v)\<rparr>)"
  "data_wf cur (no_data\<lparr>d_claim := Some (Some c)\<rparr>)"
  "resolution f \<noteq> Retry_recovery \<Longrightarrow> data_wf cur (no_data\<lparr>d_failure := Some (Some f)\<rparr>)"
  by (simp_all add: data_wf_def)

text \<open>A failure of the publish call is never one that only \<^verbatim>\<open>recover\<close> may resolve.\<close>

lemma classify_not_retry_recovery:
  "policy_resolution (getLiftJobFailurePolicy (classifyPublishFailureCode m st)) \<noteq> Retry_recovery"
  by (simp add: classifyPublishFailureCode_def getLiftJobFailurePolicy_def mk_policy_def)

lemma mapException_resolution:
  "mapPublishExceptionToLiftJobFailure inp = Inr f \<Longrightarrow> resolution f \<noteq> Retry_recovery"
  using classify_not_retry_recovery createFailure_sel(4)
  by (fastforce simp: mapPublishExceptionToLiftJobFailure_def)

lemma executionFailure_resolution:
  "createLiftJobFailureMetadata p = Inr f \<Longrightarrow> code p = executionFailureCode m \<Longrightarrow> resolution f \<noteq> Retry_recovery"
  using createFailure_sel(4) [of p f]
  by (auto simp: executionFailureCode_def getLiftJobFailurePolicy_def mk_policy_def split: if_splits)

lemma bindM_liftE_Inr: "r = Inr x \<Longrightarrow> bindM (liftE r) f s = f x s"
  by (simp add: bindM_run liftE_run)

lemma evolving_liftE:
  "(\<And>x. r = Inr x \<Longrightarrow> evolving (f x)) \<Longrightarrow> evolving (bindM (liftE r) f)"
proof (cases r)
  case (Inl e)
  then have "bindM (liftE r) f = throw e" by (auto simp: bindM_run liftE_run throw_run)
  then show ?thesis by (simp add: evolving_basic)
next
  case (Inr x)
  assume "\<And>x. r = Inr x \<Longrightarrow> evolving (f x)"
  moreover have "bindM (liftE r) f = f x" using Inr by (auto simp: bindM_run liftE_run)
  ultimately show ?thesis using Inr by simp
qed

text \<open>Reordering a pure step with the look-up of the job.\<close>

lemma lookup_liftE:
  "bindM (getRequiredJob k) (\<lambda>cur. bindM (liftE (Inr x)) (f cur)) = bindM (getRequiredJob k) (\<lambda>cur. f cur x)"
  by (rule ext) (simp add: op_simps split: option.splits)

lemma keeps_keys_merge_commit [keeps_intros]:
  "keeps keys_ok (bindM (mergeJob env cur st d) (commitJob env))"
  by (intro keeps_intros)

lemma evolving_recordPublishFailure: "evolving (recordPublishFailure env k inp)"
  unfolding recordPublishFailure_def
proof (rule evolving_bindM [OF evolving_basic(7)], rule evolving_lookup)
  fix s :: LiftState and cur
  assume s: "map_of (jobs s) k = Some cur" "job_ok k cur"
  show "evolves s (snd (bindM (liftE (mapPublishExceptionToLiftJobFailure inp))
      (\<lambda>f. bindM (mergeJob env cur Failed (no_data\<lparr>d_failure := Some (Some f)\<rparr>)) (commitJob env)) s))"
  proof (cases "mapPublishExceptionToLiftJobFailure inp")
    case (Inl e)
    then show ?thesis by (simp add: bindM_run liftE_run evolves_same)
  next
    case (Inr f)
    then have "data_wf cur (no_data\<lparr>d_failure := Some (Some f)\<rparr>)"
      by (simp add: data_wf_simple mapException_resolution)
    from evolves_at_evolves [OF merge_commit(1) [OF s this]] show ?thesis
      by (simp only: bindM_liftE_Inr [OF Inr])
  qed
qed (intro keeps_intros)

lemma evolving_finalizeNoop: "evolving (finalizeNoopPublish env k)"
  unfolding finalizeNoopPublish_def by (rule evolving_merge_commit) (rule data_wf_simple)

lemma evolving_recordExecutionFailure: "evolving (recordExecutionFailure env k st m)"
proof (cases "st = Claimed \<or> st = Validated")
  case True
  show ?thesis unfolding recordExecutionFailure_def if_P [OF True]
  proof (intro evolving_lookup keeps_intros)
    fix s :: LiftState and cur
  assume s: "map_of (jobs s) k = Some cur" "job_ok k cur"
    let ?p = "\<lparr>failedFromState = st, code = executionFailureCode (toLowerCase m), message = m,
             errorPayloadRef = ''urn:dkg:publisher:error:'' @ k, stackTraceRef = None, rpcResponseRef = None,
             revertReasonRef = None, timeout = None\<rparr>"
    show "evolves s (snd (bindM (liftE (createLiftJobFailureMetadata ?p))
        (\<lambda>f. bindM (mergeJob env cur Failed (no_data\<lparr>d_failure := Some (Some f)\<rparr>)) (commitJob env)) s))"
    proof (cases "createLiftJobFailureMetadata ?p")
      case (Inl e)
      then show ?thesis by (simp add: bindM_run liftE_run evolves_same)
    next
      case (Inr f)
      then have "resolution f \<noteq> Retry_recovery" using executionFailure_resolution [OF Inr] by simp
      then have "data_wf cur (no_data\<lparr>d_failure := Some (Some f)\<rparr>)" by (simp add: data_wf_simple)
      from evolves_at_evolves [OF merge_commit(1) [OF s this]] show ?thesis
        by (simp only: bindM_liftE_Inr [OF Inr])
    qed
  qed
next
  case False
  show ?thesis unfolding recordExecutionFailure_def if_not_P [OF False]
    by (intro evolving_intros evolving_recordPublishFailure)
qed

text \<open>Up to three writes of one job; each continues from the job the previous one wrote.\<close>

lemma evolves_at_chain:
  assumes "evolves_at k s (snd (m s))"
    and "\<And>x. fst (m s) = Inr x \<Longrightarrow> evolves_at k (snd (m s)) (snd (f x (snd (m s))))"
  shows "evolves_at k s (snd (bindM m f s))"
proof (cases "fst (m s)")
  case (Inr x)
  then show ?thesis using assms evolves_at_trans by (simp add: bindM_run)
qed (simp add: bindM_run assms)

lemma recordMapped_evolves:
  fixes s :: LiftState
  assumes "map_of (jobs s) k = Some cur" "job_ok k cur"
  shows "evolves_at k s (snd (recordMapped env mapped cur s))"
proof -
  let ?m = "\<lambda>cur st d. bindM (mergeJob env cur st d) (commitJob env)"
  let ?b = "no_data\<lparr>d_broadcast := Some (Some (success_broadcast mapped))\<rparr>"
  let ?i = "?b\<lparr>d_inclusion := Some (Some (success_inclusion mapped))\<rparr>"
  let ?f = "?i\<lparr>d_finalization := Some (success_finalization mapped)\<rparr>"
  define at where "at j t \<longleftrightarrow> map_of (jobs t) k = Some j \<and> job_ok k j" for j and t :: LiftState
  have merge: "evolves_at k t (snd (?m j st d t))" "fst (?m j st d t) = Inr x \<Longrightarrow> at x (snd (?m j st d t))"
    if "at j t" "d \<in> {?b, ?i, ?f}" for t j st d x
    using merge_commit [of t k j d] that data_wf_simple(1,2,3) unfolding at_def by auto
  have opt: "evolves_at k t (snd ((if c then ?m j st d else ret j) t))"
    "fst ((if c then ?m j st d else ret j) t) = Inr x \<Longrightarrow> at x (snd ((if c then ?m j st d else ret j) t))"
    if "at j t" "d \<in> {?b, ?i, ?f}" for t j st d c x
    using merge [OF that] that by (cases c; simp add: ret_run evolves_at_same)+
  let ?opt = "\<lambda>c j st d. if c then ?m j st d else ret j"
  have last: "evolves_at k t (snd (bindM (?opt (status j = Broadcast) j Included ?i)
      (\<lambda>next. ?m next Finalized ?f) t))" if "at j t" for j t
  proof (rule evolves_at_chain)
    show "evolves_at k t (snd (?opt (status j = Broadcast) j Included ?i t))"
      by (rule opt(1) [OF that]) blast
    fix x assume "fst (?opt (status j = Broadcast) j Included ?i t) = Inr x"
    then have "at x (snd (?opt (status j = Broadcast) j Included ?i t))"
      by (rule opt(2) [OF that, rotated]) blast
    then show "evolves_at k (snd (?opt (status j = Broadcast) j Included ?i t))
        (snd (?m x Finalized ?f (snd (?opt (status j = Broadcast) j Included ?i t))))"
      by (rule merge(1)) blast
  qed
  have cur: "at cur s" using assms by (simp add: at_def)
  show ?thesis
    unfolding recordMapped_def Let_def
  proof (rule evolves_at_chain)
    show "evolves_at k s (snd (?opt (status cur = Validated) cur Broadcast ?b s))"
      by (rule opt(1) [OF cur]) blast
    fix x assume "fst (?opt (status cur = Validated) cur Broadcast ?b s) = Inr x"
    then have x: "at x (snd (?opt (status cur = Validated) cur Broadcast ?b s))"
      by (rule opt(2) [OF cur, rotated]) blast
    show "evolves_at k (snd (?opt (status cur = Validated) cur Broadcast ?b s))
        (snd ((if success_status mapped = Included then ?m x Included ?i
               else bindM (?opt (status x = Broadcast) x Included ?i) (\<lambda>next. ?m next Finalized ?f))
          (snd (?opt (status cur = Validated) cur Broadcast ?b s))))"
      using merge(1) [OF x, of ?i Included] last [OF x] by (cases "success_status mapped = Included") simp_all
  qed
qed

lemma evolving_recordPublishResult: "evolving (recordPublishResult env k r n)"
  unfolding recordPublishResult_def
proof (rule evolving_bindM [OF evolving_basic(7)], rule evolving_lookup)
  fix s :: LiftState and cur
  assume s: "map_of (jobs s) k = Some cur" "job_ok k cur"
  show "evolves s (snd ((case (claim cur, validation cur) of
       (Some c, Some _) \<Rightarrow>
         bindM (liftE (mapPublishResultToLiftJobSuccess r (claim_walletId c) n)) (\<lambda>mapped. recordMapped env mapped cur)
     | _ \<Rightarrow> throw (''LiftJob '' @ k @ '' must be claimed and validated before recording publish results'')) s))"
    using evolves_at_evolves [OF recordMapped_evolves [OF s]]
    by (auto simp: op_simps intro!: evolves_same split: option.splits sum.splits)
next
  have "keeps keys_ok (recordMapped env mapped cur)" for mapped cur
    unfolding recordMapped_def Let_def by (intro keeps_intros)
  then show "keeps keys_ok (case (claim cur, validation cur) of
       (Some c, Some _) \<Rightarrow>
         bindM (liftE (mapPublishResultToLiftJobSuccess r (claim_walletId c) n)) (\<lambda>mapped. recordMapped env mapped cur)
     | _ \<Rightarrow> throw (''LiftJob '' @ k @ '' must be claimed and validated before recording publish results''))" for cur
    by (auto split: option.splits intro!: keeps_intros)
qed

end
