(* ===== verification/LiftSafety.thy ===== *)
theory LiftSafety
  imports LiftLifecycle
begin

text \<open>
  The asynchronous publisher as a transition system: every public operation evolves the jobs along
  their life cycle, from which the invariants of all reachable states follow; then what the single
  operations promise: which job a claim takes, that one wallet works on one job, that processing
  always leaves a verdict, what recovery and retry do.
\<close>

section \<open>Selection of the next job\<close>

interpretation caj: keyed_comparator "compareAcceptedJobs lc" "\<lambda>j. acceptedAt (timestamps j)" for lc
  by unfold_locales (auto simp: compareAcceptedJobs_def Let_def split: if_splits)

definition accepted_jobs :: "LiftState \<Rightarrow> LiftJob list" where
  "accepted_jobs s = filter (\<lambda>j. status j = Accepted) (map snd (jobs s))"

definition claim_candidate :: "LiftEnv \<Rightarrow> LiftState \<Rightarrow> LiftJob option" where
  "claim_candidate env s =
     (case js_sort (compareAcceptedJobs (localeCompare env))
             (js_sort (compareAcceptedJobs (localeCompare env)) (accepted_jobs s)) of
        [] \<Rightarrow> None | j # _ \<Rightarrow> Some j)"

definition wallet_locked :: "LiftEnv \<Rightarrow> string \<Rightarrow> LiftState \<Rightarrow> bool" where
  "wallet_locked env w s =
     (case map_of (walletLocks s) w of None \<Rightarrow> False
      | Some l \<Rightarrow> lock_status l = Lock_active \<and> expiresAt l > clock env (ticks s))"

text \<open>The token, the job and the lock of a claim whose clock readings start at tick \<open>t\<close>.\<close>

definition claim_token :: "LiftEnv \<Rightarrow> string \<Rightarrow> LiftJob \<Rightarrow> nat \<Rightarrow> string" where
  "claim_token env w j t = w @ '':'' @ show_int (clock env t) @ '':'' @ jobId j"

definition claimed_job :: "LiftEnv \<Rightarrow> string \<Rightarrow> LiftJob \<Rightarrow> nat \<Rightarrow> LiftJob" where
  "claimed_job env w j t =
     buildClaimedJob (mergedJob j Claimed (no_data\<lparr>d_claim := Some (Some
         \<lparr>claim_walletId = w, claimedBy = None, claimToken = None, claimLeaseExpiresAt = None\<rparr>)\<rparr>) (clock env (Suc t)))
       w (claim_token env w j t) (clock env t) (clock env t + lockLeaseMs)"

definition claim_lock :: "LiftEnv \<Rightarrow> string \<Rightarrow> LiftJob \<Rightarrow> nat \<Rightarrow> WalletLockRecord" where
  "claim_lock env w j t =
     \<lparr>lock_walletId = w, lock_jobId = jobId j, acquiredAt = clock env t, expiresAt = clock env t + lockLeaseMs,
      lock_status = Lock_active, lock_claimToken = Some (claim_token env w j t), lastHeartbeatAt = Some (clock env t)\<rparr>"

lemma buildClaimedJob_sel [simp]:
  "jobId (buildClaimedJob j w tok now e) = jobId j" "status (buildClaimedJob j w tok now e) = status j"
  "retries (buildClaimedJob j w tok now e) = retries j" "failure (buildClaimedJob j w tok now e) = failure j"
  "validation (buildClaimedJob j w tok now e) = validation j" "broadcast (buildClaimedJob j w tok now e) = broadcast j"
  "map_option claim_walletId (claim (buildClaimedJob j w tok now e)) = Some w"
  "claim (buildClaimedJob j w tok now e) \<noteq> None"
  by (simp_all add: buildClaimedJob_def)

lemma buildClaimedJob_matches [simp]:
  "status j = Claimed \<Longrightarrow> assertJobMatchesStatus (buildClaimedJob j w tok now e) = Inr ()"
  by (simp add: assertJobMatchesStatus_def del: not_None_eq)

lemma claimed_job_sel [simp]:
  "jobId (claimed_job env w j t) = jobId j" "status (claimed_job env w j t) = Claimed"
  "retries (claimed_job env w j t) = retries j"
  "map_option claim_walletId (claim (claimed_job env w j t)) = Some w"
  "failure (claimed_job env w j t) = failure j" "validation (claimed_job env w j t) = validation j"
  "broadcast (claimed_job env w j t) = broadcast j" "claim (claimed_job env w j t) \<noteq> None"
  "assertJobMatchesStatus (claimed_job env w j t) = Inr ()"
  by (simp_all add: claimed_job_def del: not_None_eq)

lemma claimed_job_core [simp]: "same_core j (claimed_job env w j t)"
  by (simp add: claimed_job_def buildClaimedJob_def same_core_def)

lemma claim_candidate_status:
  assumes "claim_candidate env s = Some j"
  shows "j \<in> snd ` set (jobs s)" "status j = Accepted"
proof -
  have "j \<in> set (accepted_jobs s)"
    using assms by (auto simp: claim_candidate_def split: list.splits)
      (metis list.set_intros(1) set_js_sort)
  then show "j \<in> snd ` set (jobs s)" "status j = Accepted" by (auto simp: accepted_jobs_def)
qed

lemma claimNext_run:
  "claimNext env w s =
     (if paused s then (Inr None, s\<lparr>graphEnsured := True\<rparr>)
      else if wallet_locked env w s then (Inr None, s\<lparr>graphEnsured := True, ticks := Suc (ticks s)\<rparr>)
      else case claim_candidate env s of
             None \<Rightarrow> (Inr None, s\<lparr>graphEnsured := True, ticks := Suc (ticks s)\<rparr>)
           | Some j \<Rightarrow>
               let t = Suc (ticks s)
               in (Inr (Some (claimed_job env w j t)),
                   s\<lparr>graphEnsured := True, ticks := Suc (Suc t),
                     jobs := AList.update (jobId j) (claimed_job env w j t) (jobs s),
                     walletLocks := AList.update w (claim_lock env w j t) (walletLocks s)\<rparr>))"
proof -
  let ?sorted = "js_sort (compareAcceptedJobs (localeCompare env))
      (js_sort (compareAcceptedJobs (localeCompare env)) (accepted_jobs s))"
  have locked: "fst (hasActiveWalletLock env w (s\<lparr>graphEnsured := True\<rparr>)) = Inr (wallet_locked env w s)"
    "snd (hasActiveWalletLock env w (s\<lparr>graphEnsured := True\<rparr>)) = s\<lparr>graphEnsured := True, ticks := Suc (ticks s)\<rparr>"
    by (simp_all add: hasActiveWalletLock_def op_simps wallet_locked_def)
  have list: "fst (listJobs env (Some Accepted) (s\<lparr>graphEnsured := True, ticks := Suc (ticks s)\<rparr>))
       = Inr (js_sort (compareAcceptedJobs (localeCompare env)) (accepted_jobs s))"
    "snd (listJobs env (Some Accepted) (s\<lparr>graphEnsured := True, ticks := Suc (ticks s)\<rparr>))
       = s\<lparr>graphEnsured := True, ticks := Suc (ticks s)\<rparr>"
    by (simp_all add: listJobs_def op_simps accepted_jobs_def)
  show ?thesis
  proof (cases ?sorted)
    case Nil
    then show ?thesis
      by (simp add: claimNext_def bindM_run ensureGraph_run getM_run ret_run locked list claim_candidate_def)
  next
    case (Cons j rest)
    have "claim_candidate env s = Some j" using Cons by (simp add: claim_candidate_def)
    then have j: "status j = Accepted" by (rule claim_candidate_status)
    show ?thesis
      using Cons
      by (simp add: claimNext_def bindM_run ensureGraph_run getM_run ret_run locked list claim_candidate_def
          nowM_run mergeJob_run j canTransitionLiftJob_def Let_def liftE_run writeJob_run writeWalletLock_def modM_run
          claim_token_def claimed_job_def claim_lock_def)
  qed
qed

section \<open>Every operation evolves the jobs\<close>

lemma good_listed:
  assumes "good s" "j \<in> snd ` set (jobs s)"
  shows "map_of (jobs s) (jobId j) = Some j" "job_ok (jobId j) j"
proof -
  from assms(2) obtain k where "(k, j) \<in> set (jobs s)" by auto
  then have k: "map_of (jobs s) k = Some j" using assms(1) by (simp add: good_def keys_ok_def)
  then have "job_ok k j" using assms(1) by (simp add: good_def jobs_ok_def)
  moreover from this have "jobId j = k" by (simp add: job_ok_def)
  ultimately show "map_of (jobs s) (jobId j) = Some j" "job_ok (jobId j) j" using k by simp_all
qed

lemma job_ok_claimed:
  assumes "job_ok k j"
  shows "job_ok k (claimed_job env w j t)"
proof -
  have "retry_recovery_ok (claimed_job env w j t)"
    using assms unfolding job_ok_def retry_recovery_ok_def
    by (cases "failure j") (simp_all del: not_None_eq)
  then show ?thesis using assms by (simp add: job_ok_def)
qed

lemma claimNext_evolves:
  assumes "good s"
  shows "evolves s (snd (claimNext env w s)) \<and> keys_ok (snd (claimNext env w s))"
proof (cases "paused s \<or> wallet_locked env w s \<or> claim_candidate env s = None")
  case True
  then have "jobs (snd (claimNext env w s)) = jobs s" by (auto simp: claimNext_run)
  then show ?thesis using assms by (simp add: evolves_same good_def keys_ok_def)
next
  case False
  then obtain j where j: "claim_candidate env s = Some j" by auto
  let ?c = "claimed_job env w j (Suc (ticks s))"
  have jobs: "jobs (snd (claimNext env w s)) = AList.update (jobId j) ?c (jobs s)"
    using False j by (simp add: claimNext_run Let_def)
  note cand = claim_candidate_status [OF j]
  have ok: "map_of (jobs s) (jobId j) = Some j" "job_ok (jobId j) j"
    using good_listed [OF assms cand(1)] by auto
  have "lifecycle (jobId j) (Some j) (Some ?c)"
    using ok(2) job_ok_claimed [OF ok(2)] cand(2)
    by (intro lifecycle.progressed) (simp_all add: canTransitionLiftJob_def)
  then have "evolves_at (jobId j) s (snd (claimNext env w s))"
    using jobs ok(1) by (intro evolves_at_update) simp_all
  then show ?thesis using assms jobs evolves_at_evolves by (simp add: good_def keys_ok_def)
qed

lemma evolving_claimNext: "evolving (claimNext env w)"
  using claimNext_evolves by (simp add: evolving_def)

lemma evolving_attempt: "evolving m \<Longrightarrow> (\<And>x. evolving (k x)) \<Longrightarrow> evolving (attempt env jid st m k)"
  unfolding attempt_def by (intro evolving_intros evolving_recordExecutionFailure)

lemma evolving_processClaimed: "evolving (processClaimed env ex w c)"
  unfolding processClaimed_def resolveAndValidate_def
  by (intro evolving_attempt evolving_intros evolving_update evolving_finalizeNoop evolving_recordPublishResult
      data_wf_simple)

lemma evolving_processNext: "evolving (processNext env w)"
  unfolding processNext_def by (intro evolving_intros evolving_claimNext evolving_processClaimed)

text \<open>A fresh id of the generator: no job has it yet.\<close>

definition fresh_id :: "LiftEnv \<Rightarrow> LiftState \<Rightarrow> bool" where
  "fresh_id env s \<longleftrightarrow> map_of (jobs s) (idGenerator env (Suc (ticks s))) = None"

lemma lift_adds:
  "\<exists>j. fst (lift env req s) = Inr (jobId j) \<and> submitted (idGenerator env (Suc (ticks s))) j \<and> request j = req
     \<and> jobs (snd (lift env req s)) = AList.update (idGenerator env (Suc (ticks s))) j (jobs s)"
proof -
  let ?k = "idGenerator env (Suc (ticks s))"
  let ?j = "accepted_job ?k (createJobSlug req) req (accepted_timestamps (clock env (ticks s)) (clock env (ticks s)))
      \<lparr>retryCount = 0, maxRetries = env_maxRetries env, lastRetryReason = None\<rparr> None
      (Some \<lparr>jobRef = Some (jobSubject ?k), walletLockRef = None\<rparr>)"
  have "jobs (snd (lift env req s)) = AList.update ?k ?j (jobs s)" "fst (lift env req s) = Inr (jobId ?j)"
    by (simp_all add: lift_def op_simps accepted_job_def)
  moreover have "submitted ?k ?j"
    by (simp add: submitted_def job_ok_def fresh_accepted_def accepted_job_def assertJobMatchesStatus_def retry_recovery_ok_def)
  moreover have "request ?j = req" by (simp add: accepted_job_def)
  ultimately show ?thesis by blast
qed

section \<open>Loops over a listing\<close>

text \<open>A loop whose iterations each work on their own job of the listing.\<close>

lemma countM_evolves:
  assumes "distinct (map jobId xs)" "\<And>j. j \<in> set xs \<Longrightarrow> map_of (jobs s) (jobId j) = Some j"
    and step: "\<And>j t. j \<in> set xs \<Longrightarrow> map_of (jobs t) (jobId j) = Some j \<Longrightarrow> evolves_at (jobId j) t (snd (f j t))"
  shows "evolves s (snd (countM xs f s))"
  using assms
proof (induction xs arbitrary: s)
  case Nil
  then show ?case by (simp add: ret_run evolves_same)
next
  case (Cons x xs)
  have x: "evolves_at (jobId x) s (snd (f x s))" using Cons.prems by simp
  show ?case
  proof (cases "fst (f x s)")
    case (Inl e)
    then show ?thesis using x evolves_at_evolves by (simp add: bindM_run)
  next
    case (Inr n)
    have "map_of (jobs (snd (f x s))) (jobId j) = Some j" if "j \<in> set xs" for j
    proof -
      have "jobId j \<noteq> jobId x"
        using that Cons.prems(1) by (metis distinct.simps(2) image_eqI list.simps(9) set_map)
      then show ?thesis using that x Cons.prems(2) by (simp add: evolves_at_def)
    qed
    then have "evolves (snd (f x s)) (snd (countM xs f (snd (f x s))))"
      using Cons.prems(1,3) by (intro Cons.IH) auto
    moreover have "snd (countM (x # xs) f s) = snd (countM xs f (snd (f x s)))"
      using Inr by (simp add: bindM_run ret_run split: sum.splits)
    ultimately show ?thesis using evolves_trans [OF evolves_at_evolves [OF x]] by simp
  qed
qed

lemma distinct_listing:
  assumes "good s"
  shows "distinct (map jobId (filter P (js_sort cmp (filter Q (map snd (jobs s))))))"
proof -
  have "map jobId (map snd (jobs s)) = map fst (jobs s)"
    using assms by (force simp: good_def jobs_ok_def keys_ok_def job_ok_def)
  then have "distinct (map jobId (filter Q (map snd (jobs s))))"
    using assms by (metis distinct_map_filter good_def keys_ok_def)
  moreover have "mset (map jobId (js_sort cmp (filter Q (map snd (jobs s))))) = mset (map jobId (filter Q (map snd (jobs s))))"
    by simp
  ultimately have "distinct (map jobId (js_sort cmp (filter Q (map snd (jobs s)))))"
    by (metis mset_eq_imp_distinct_iff)
  then show ?thesis by (rule distinct_map_filter)
qed

lemma listing_evolves:
  assumes "good s" and "jobs s' = jobs s"
    and step: "\<And>j t. status j \<in> S \<Longrightarrow> P j \<Longrightarrow> job_ok (jobId j) j \<Longrightarrow> map_of (jobs t) (jobId j) = Some j \<Longrightarrow>
        evolves_at (jobId j) t (snd (f j t))"
    and S: "\<And>j. Q j \<Longrightarrow> P j \<Longrightarrow> status j \<in> S"
  shows "evolves s (snd (countM (filter P (js_sort cmp (filter Q (map snd (jobs s))))) f s'))"
proof -
  let ?xs = "filter P (js_sort cmp (filter Q (map snd (jobs s))))"
  have xs: "j \<in> snd ` set (jobs s) \<and> Q j \<and> P j" if "j \<in> set ?xs" for j using that by auto
  have "evolves s' (snd (countM ?xs f s'))"
  proof (rule countM_evolves)
    show "distinct (map jobId ?xs)" by (rule distinct_listing [OF assms(1)])
    show "map_of (jobs s') (jobId j) = Some j" if "j \<in> set ?xs" for j
      using xs [OF that] good_listed [OF assms(1)] assms(2) by simp
    show "evolves_at (jobId j) t (snd (f j t))" if "j \<in> set ?xs" "map_of (jobs t) (jobId j) = Some j" for j t
      using that(2) xs [OF that(1)] good_listed [OF assms(1)] S by (intro step) auto
  qed
  then show ?thesis using evolves_trans [OF evolves_same [OF assms(2)]] by blast
qed

section \<open>Recovery and maintenance evolve the jobs\<close>

lemma accepted_job_ok:
  fixes rec cp
  assumes "job_ok k j" "maxRetries rt = maxRetries (retries j)" "retryCount rt \<le> maxRetries rt"
    "acceptedAt ts = acceptedAt (timestamps j)"
  defines "r \<equiv> accepted_job (jobId j) (jobSlug j) (request j) ts rt rec cp"
  shows "job_ok k r" "same_core j r" "fresh_accepted r" "retries r = rt"
  using assms by (simp_all add: r_def accepted_job_def job_ok_def same_core_def fresh_accepted_def
      assertJobMatchesStatus_def retry_recovery_ok_def)

text \<open>A write of one job after the release of its wallet lock.\<close>

lemma write_evolves:
  assumes "map_of (jobs t) (jobId j) = Some j" "lifecycle (jobId j) (Some j) (Some r)" "jobs t' = jobs t"
  shows "evolves_at (jobId j) t (t'\<lparr>jobs := AList.update (jobId r) r (jobs t')\<rparr>)"
proof (rule evolves_at_update)
  have "job_ok (jobId j) r" using assms(2) by (rule lifecycle_job_ok)
  then show "jobs (t'\<lparr>jobs := AList.update (jobId r) r (jobs t')\<rparr>) = AList.update (jobId j) r (jobs t)"
    using assms(3) by (simp add: job_ok_def)
  show "lifecycle (jobId j) (map_of (jobs t) (jobId j)) (Some r)" using assms(1,2) by simp
qed

lemma resetInterrupted_evolves:
  assumes "map_of (jobs t) (jobId j) = Some j" "job_ok (jobId j) j"
    and "status j = Claimed \<or> status j = Validated \<or> status j = Broadcast"
  shows "evolves_at (jobId j) t (snd (resetInterrupted env j t))"
proof -
  have "retryCount (retries j) \<le> maxRetries (retries j)" using assms(2) by (simp add: job_ok_def)
  note r = accepted_job_ok [OF assms(2) refl this]
  let ?u = "snd (releaseWalletLockForJob j t)"
  let ?u' = "?u\<lparr>ticks := Suc (ticks ?u)\<rparr>"
  let ?r = "accepted_job (jobId j) (jobSlug j) (request j)
       ((accepted_timestamps (acceptedAt (timestamps j)) (clock env (ticks ?u)))\<lparr>lastRecoveredAt := Some (clock env (ticks ?u))\<rparr>)
       (retries j)
       (Some \<lparr>action = Recovery_reset_to_accepted, recoveredFromStatus = status j, txHashChecked = getRecoveryTxHash j,
              recovery_note = None\<rparr>) (controlPlane j)"
  have run: "snd (resetInterrupted env j t) = ?u'\<lparr>jobs := AList.update (jobId ?r) ?r (jobs ?u')\<rparr>"
    by (simp add: resetInterrupted_def resetJobToAccepted_def op_simps)
  have "lifecycle (jobId j) (Some j) (Some ?r)"
    by (intro lifecycle.reset assms r) (simp_all add: r(4) accepted_timestamps_def)
  from write_evolves [OF assms(1) this, of ?u'] show ?thesis unfolding run by simp
qed

lemma job_ok_finalized:
  assumes ok: "job_ok k j" and parts: "claim j \<noteq> None" "validation j \<noteq> None" "broadcast j = Some bc"
    and fin: "finalizeRecoveredJob env (j\<lparr>failure := fl, status := st\<rparr>) inc fin t = (Inr r, t')"
    and fl: "fl = None \<or> fl = failure j"
  shows "job_ok k r" "same_core j r" "retries r = retries j" "status r = Finalized" "inclusion r = Some inc"
    "broadcast r = broadcast j" "jobs t' = jobs t"
proof -
  have r: "r = j\<lparr>failure := fl, status := Finalized, inclusion := Some inc, finalization := Some fin,
                recovery := recovery r, timestamps := timestamps r\<rparr>"
    "acceptedAt (timestamps r) = acceptedAt (timestamps j)" "jobs t' = jobs t"
    using fin parts(3) by (auto simp: finalizeRecoveredJob_def op_simps)
  have sel: "jobId r = jobId j" "retries r = retries j" "claim r = claim j" "validation r = validation j"
    "broadcast r = broadcast j" "status r = Finalized" "inclusion r = Some inc" "finalization r = Some fin"
    "failure r = fl" "jobSlug r = jobSlug j" "request r = request j"
    by (subst r(1), simp)+
  show "same_core j r" using sel r(2) by (simp add: same_core_def)
  have "retry_recovery_ok r"
    using parts sel by (auto simp: retry_recovery_ok_def split: option.splits)
  then show "job_ok k r"
    using ok parts sel by (auto simp: job_ok_def assertJobMatchesStatus_def)
  show "retries r = retries j" "status r = Finalized" "inclusion r = Some inc" "broadcast r = broadcast j" "jobs t' = jobs t"
    using sel r(3) by simp_all
qed

lemma active_parts:
  assumes "job_ok k j" "status j = Broadcast \<or> status j = Included"
  shows "claim j \<noteq> None" "validation j \<noteq> None" "broadcast j \<noteq> None"
  using assms by (auto simp: job_ok_def assertJobMatchesStatus_def)

lemma finalize_evolves:
  assumes "map_of (jobs t) (jobId j) = Some j" "job_ok (jobId j) j"
    and parts: "claim j \<noteq> None" "validation j \<noteq> None" "broadcast j \<noteq> None"
    and st: "status j = Broadcast \<or> status j = Included
      \<or> (status j = Failed \<and> map_option resolution (failure j) = Some Retry_recovery)"
    and fl: "fl = None \<or> fl = failure j"
  shows "evolves_at (jobId j) t (snd (bindM (releaseWalletLockForJob j) (\<lambda>_.
           bindM (finalizeRecoveredJob env (j\<lparr>failure := fl, status := st'\<rparr>) inc fin) (\<lambda>r.
           bindM (writeJob r) (\<lambda>_. ret n))) t))"
proof -
  let ?t = "snd (releaseWalletLockForJob j t)"
  obtain bc where bc: "broadcast j = Some bc" using parts(3) by auto
  obtain r t' where r: "finalizeRecoveredJob env (j\<lparr>failure := fl, status := st'\<rparr>) inc fin ?t = (Inr r, t')"
    using bc by (simp add: finalizeRecoveredJob_def op_simps)
  note f = job_ok_finalized [OF assms(2) parts(1,2) bc r fl]
  have "lifecycle (jobId j) (Some j) (Some r)"
    using assms(2) f st by (intro lifecycle.chain_finalized) simp_all
  moreover have "jobs t' = jobs t" using f(7) by simp
  ultimately show ?thesis
    using write_evolves [OF assms(1)] by (simp add: bindM_run ret_run writeJob_run r)
qed

lemma failInconclusive_evolves:
  assumes "map_of (jobs t) (jobId j) = Some j" "job_ok (jobId j) j" "status j = Broadcast \<or> status j = Included"
  shows "evolves_at (jobId j) t (snd (bindM (releaseWalletLockForJob j) (\<lambda>_.
           bindM (failInconclusiveRecovery env j) (\<lambda>r. bindM (writeJob r) (\<lambda>_. ret n))) t))"
proof -
  let ?t = "snd (releaseWalletLockForJob j t)"
  obtain f where f: "fst (failInconclusiveRecovery env j ?t)
      = Inr (mergedJob j Failed (no_data\<lparr>d_failure := Some (Some f)\<rparr>) (clock env (Suc (ticks ?t))))"
    using assms(3)
    by (auto simp: failInconclusiveRecovery_def op_simps createLiftJobFailureMetadata_def Let_def
        getLiftJobFailurePolicy_def mk_policy_def canTransitionLiftJob_def)
  let ?r = "mergedJob j Failed (no_data\<lparr>d_failure := Some (Some f)\<rparr>) (clock env (Suc (ticks ?t)))"
  have same: "jobs (snd (failInconclusiveRecovery env j ?t)) = jobs t"
    by (auto simp: failInconclusiveRecovery_def op_simps split: sum.splits)
  have wf: "data_wf j (no_data\<lparr>d_failure := Some (Some f)\<rparr>)"
    using active_parts [OF assms(2,3)] by (auto simp: data_wf_def)
  note core = mergedJob_core [OF assms(2) wf, of Failed "clock env (Suc (ticks ?t))"]
  have "job_ok (jobId j) ?r"
    using core assms(2) by (simp add: job_ok_def assertJobMatchesStatus_def)
  then have "lifecycle (jobId j) (Some j) (Some ?r)"
    using assms core by (intro lifecycle.progressed) (auto simp: canTransitionLiftJob_def)
  then show ?thesis
    using write_evolves [OF assms(1) _ same, of ?r] f by (simp add: bindM_run ret_run writeJob_run)
qed

lemma recoverJob_evolves:
  assumes "map_of (jobs t) (jobId j) = Some j" "job_ok (jobId j) j" "is_active (status j)"
  shows "evolves_at (jobId j) t (snd (recoverJob env j t))"
proof (cases "status j = Claimed \<or> status j = Validated")
  case True
  then show ?thesis using resetInterrupted_evolves [OF assms(1,2)] by (auto simp: recoverJob_def)
next
  case False
  then have st: "status j = Broadcast \<or> status j = Included" using assms(3) by (auto simp: is_active.simps)
  note parts = active_parts [OF assms(2) st]
  show ?thesis
  proof (cases "chainRecoveryResolver env")
    case None
    then show ?thesis using False resetInterrupted_evolves [OF assms(1,2)] st
      by (auto simp: recoverJob_def ret_run evolves_at_same)
  next
    case (Some resolver)
    let ?t = "t\<lparr>ticks := Suc (ticks t)\<rparr>"
    have t: "map_of (jobs ?t) (jobId j) = Some j" using assms(1) by simp
    have shift: "evolves_at k ?t u \<Longrightarrow> evolves_at k t u" for k u by (simp add: evolves_at_def)
    have fin: "evolves_at (jobId j) ?t (snd (bindM (releaseWalletLockForJob j) (\<lambda>_.
           bindM (finalizeRecoveredJob env j inc fi) (\<lambda>r. bindM (writeJob r) (\<lambda>_. ret n))) ?t))"
      for inc fi and n :: nat
      using finalize_evolves [OF t assms(2) parts, of "failure j" env "status j"] st by auto
    show ?thesis
    proof (cases "resolver (ticks t) j")
      case (Inl e)
      then show ?thesis using False Some by (simp add: recoverJob_def op_simps evolves_at_same)
    next
      case r: (Inr res)
      show ?thesis
      proof (cases res)
        case None
        let ?u = "?t\<lparr>ticks := Suc (ticks ?t)\<rparr>"
        have u: "map_of (jobs ?u) (jobId j) = Some j" using assms(1) by simp
        have shift: "evolves_at k ?u x \<Longrightarrow> evolves_at k t x" for k x by (simp add: evolves_at_def)
        obtain b where b: "hasInconclusiveRecoveryTimedOut env j ?t = (Inr b, ?u)"
          by (simp add: hasInconclusiveRecoveryTimedOut_def op_simps Let_def)
        show ?thesis
          using False Some r None shift [OF failInconclusive_evolves [OF u assms(2) st, of env "Suc 0"]]
          by (simp add: recoverJob_def bindM_run [of "readEnv _"] bindM_run [of "liftE _"] readEnv_run liftE_run
              bindM_run [of "hasInconclusiveRecoveryTimedOut env j"] b ret_run evolves_at_same)
      next
        case (Some pr)
        obtain inc fi where "pr = (inc, fi)" by (cases pr)
        then show ?thesis
          using False \<open>chainRecoveryResolver env = Some resolver\<close> r Some shift [OF fin [of inc fi "Suc 0"]] st
          by (simp add: recoverJob_def bindM_run [of "readEnv _"] bindM_run [of "liftE _"] readEnv_run liftE_run)
      qed
    qed
  qed
qed

lemma keeps_keys_loops [keeps_intros]:
  "keeps keys_ok (finalizeRecoveredJob env j inc fi)" "keeps keys_ok (failInconclusiveRecovery env j)"
  "keeps keys_ok (hasInconclusiveRecoveryTimedOut env j)" "keeps keys_ok (resetInterrupted env j)"
  "keeps keys_ok (listJobs env st)" "keeps keys_ok (resetFailedJobToAccepted env j f)"
  unfolding finalizeRecoveredJob_def failInconclusiveRecovery_def hasInconclusiveRecoveryTimedOut_def
    resetInterrupted_def resetJobToAccepted_def listJobs_def resetFailedJobToAccepted_def Let_def
  by (intro keeps_intros)+

lemma keeps_keys_recover: "keeps keys_ok (recoverJob env j)" "keeps keys_ok (retryRecoveryJob env rs j)"
  "keeps keys_ok (retryJob env j)" "keeps keys_ok (clearJob st j)"
  unfolding recoverJob_def retryRecoveryJob_def retryJob_def clearJob_def
  by (auto split: option.splits prod.splits intro!: keeps_intros)

lemma retryRecoveryJob_evolves:
  assumes "map_of (jobs t) (jobId j) = Some j" "job_ok (jobId j) j" "needs_retry_recovery j"
  shows "evolves_at (jobId j) t (snd (retryRecoveryJob env rs j t))"
proof -
  let ?t = "t\<lparr>ticks := Suc (ticks t)\<rparr>"
  have t: "map_of (jobs ?t) (jobId j) = Some j" using assms(1) by simp
  have shift: "evolves_at k ?t u \<Longrightarrow> evolves_at k t u" for k u by (simp add: evolves_at_def)
  obtain f where f: "failure j = Some f" "resolution f = Retry_recovery" "status j = Failed"
    using assms(3) by (auto simp: needs_retry_recovery_def isFailedJob_def)
  then have parts: "claim j \<noteq> None" "validation j \<noteq> None" "broadcast j \<noteq> None"
    using assms(2) by (auto simp: job_ok_def retry_recovery_ok_def)
  have fin: "evolves_at (jobId j) ?t (snd (bindM (releaseWalletLockForJob j) (\<lambda>_.
           bindM (finalizeRecoveredJob env (j\<lparr>failure := None, status := st'\<rparr>) inc fi) (\<lambda>r.
           bindM (writeJob r) (\<lambda>_. ret n))) ?t))" for st' inc fi and n :: nat
    using f by (intro finalize_evolves [OF t assms(2) parts]) auto
  show ?thesis
  proof (cases "\<exists>inc fi. rs (ticks t) j = Inr (Some (inc, fi))")
    case True
    then obtain inc fi where "rs (ticks t) j = Inr (Some (inc, fi))" by auto
    then show ?thesis
      using f shift [OF fin [of Included inc fi "Suc 0"]] shift [OF fin [of Broadcast inc fi "Suc 0"]]
      by (simp add: retryRecoveryJob_def bindM_run [of "readEnv _"] bindM_run [of "liftE _"] readEnv_run liftE_run)
  next
    case False
    then show ?thesis
      by (cases "rs (ticks t) j"; cases "projr (rs (ticks t) j)")
         (auto simp: retryRecoveryJob_def op_simps evolves_at_same)
  qed
qed

lemma retryJob_evolves:
  assumes "map_of (jobs t) (jobId j) = Some j" "job_ok (jobId j) j" "status j = Failed"
  shows "evolves_at (jobId j) t (snd (retryJob env j t))"
proof (cases "\<exists>f. failure j = Some f \<and> retryable f \<and> resolution f \<noteq> Retry_recovery
    \<and> retryCount (retries j) < maxRetries (retries j)")
  case False
  then show ?thesis by (auto simp: retryJob_def op_simps evolves_at_same split: option.splits)
next
  case True
  then obtain f where f: "failure j = Some f" "retryable f" "resolution f \<noteq> Retry_recovery"
    "retryCount (retries j) < maxRetries (retries j)" by auto
  let ?u = "snd (releaseWalletLockForJob j (t\<lparr>ticks := Suc (Suc (ticks t))\<rparr>))"
  let ?now = "clock env (ticks t)" and ?at = "clock env (Suc (ticks t))"
  let ?ts = "(accepted_timestamps (acceptedAt (timestamps j)) ?at)
      \<lparr>lastRecoveredAt := Some ?now, lastRetriedAt := Some ?at\<rparr>"
  let ?rt = "(retries j)\<lparr>retryCount := retryCount (retries j) + 1, lastRetryReason := Some (code_text (code f))\<rparr>"
  let ?rec = "if failedFromState f = Claimed \<or> failedFromState f = Validated \<or> failedFromState f = Broadcast
        then Some \<lparr>action = Recovery_reset_to_accepted, recoveredFromStatus = failedFromState f,
                   txHashChecked = getRecoveryTxHash j, recovery_note = None\<rparr>
        else None"
  let ?r = "accepted_job (jobId j) (jobSlug j) (request j) ?ts ?rt ?rec (controlPlane j)"
  have run: "snd (retryJob env j t) = ?u\<lparr>jobs := AList.update (jobId ?r) ?r (jobs ?u)\<rparr>"
    using f by (simp add: retryJob_def resetFailedJobToAccepted_def op_simps accepted_job_def accepted_timestamps_def)
  have r: "job_ok (jobId j) ?r" "same_core j ?r" "fresh_accepted ?r" "retries ?r = ?rt"
    using f(4) by (intro accepted_job_ok [OF assms(2)]; simp add: accepted_timestamps_def)+
  have "lifecycle (jobId j) (Some j) (Some ?r)"
    using assms(2,3) f r by (intro lifecycle.retried) simp_all
  from write_evolves [OF assms(1) this, of ?u] show ?thesis unfolding run by simp
qed

lemma deleteJob_evolves:
  assumes "map_of (jobs t) k = Some j" "job_ok k j" "status j = Accepted \<or> status j = Finalized \<or> status j = Failed"
    and "\<not> (status j = Failed \<and> map_option resolution (failure j) = Some Retry_recovery)"
  shows "evolves_at k t (snd (bindM (releaseWalletLockForJob j) (\<lambda>_. bindM (deleteJob k) (\<lambda>_. ret n)) t))"
  using assms lifecycle.removed by (intro evolves_at_delete) (auto simp: op_simps)

lemma clearJob_evolves:
  assumes "map_of (jobs t) (jobId j) = Some j" "job_ok (jobId j) j" "status j = st" "st = Finalized \<or> st = Failed"
  shows "evolves_at (jobId j) t (snd (clearJob st j t))"
proof (cases "st = Failed \<and> isFailedJob j \<and> map_option resolution (failure j) = Some Retry_recovery")
  case True
  then show ?thesis by (simp add: clearJob_def ret_run evolves_at_same)
next
  case False
  then have "\<not> (status j = Failed \<and> map_option resolution (failure j) = Some Retry_recovery)"
    using assms(3) by (auto simp: isFailedJob_def)
  then show ?thesis using deleteJob_evolves [OF assms(1,2)] assms(3,4) False by (auto simp: clearJob_def)
qed

lemma evolvingI:
  assumes "\<And>s. good s \<Longrightarrow> evolves s (snd (m s))" "keeps keys_ok m"
  shows "evolving m"
  using assms by (auto simp: evolving_def keeps_def good_def)

lemma evolving_recover: "evolving (recover env)"
proof -
  have loop: "evolving (bindM (listJobs env None) (\<lambda>all. countM (filter (\<lambda>j. is_active (status j)) all) (recoverJob env)))"
  proof (rule evolvingI)
    fix s assume "good s"
    then show "evolves s (snd (bindM (listJobs env None) (\<lambda>all. countM (filter (\<lambda>j. is_active (status j)) all) (recoverJob env)) s))"
      using listing_evolves [of s _ UNIV "\<lambda>j. is_active (status j)" "recoverJob env" "\<lambda>_. True"] recoverJob_evolves
      by (simp add: op_simps listJobs_def)
  qed (intro keeps_intros keeps_keys_recover)
  have again: "evolving (bindM (listJobs env (Some Failed)) (\<lambda>failed.
       countM (filter needs_retry_recovery failed) (retryRecoveryJob env rs)))" for rs
  proof (rule evolvingI)
    fix s assume "good s"
    then show "evolves s (snd (bindM (listJobs env (Some Failed)) (\<lambda>failed.
       countM (filter needs_retry_recovery failed) (retryRecoveryJob env rs)) s))"
      using listing_evolves [of s _ UNIV needs_retry_recovery "retryRecoveryJob env rs" "\<lambda>j. status j = Failed"]
        retryRecoveryJob_evolves
      by (simp add: op_simps listJobs_def)
  qed (intro keeps_intros keeps_keys_recover)
  have assoc: "bindM (bindM m f) g = bindM m (\<lambda>x. bindM (f x) g)" for m :: "'a lift_op" and f :: "'a \<Rightarrow> 'b lift_op" and g :: "'b \<Rightarrow> 'c lift_op"
    by (rule ext) (auto simp: bindM_run split: sum.splits)
  have "recover env = bindM ensureGraph (\<lambda>_. bindM (sweepStaleWalletLocks env) (\<lambda>_.
      bindM (bindM (listJobs env None) (\<lambda>all. countM (filter (\<lambda>j. is_active (status j)) all) (recoverJob env))) (\<lambda>recovered.
      case chainRecoveryResolver env of None \<Rightarrow> ret recovered
      | Some rs \<Rightarrow> bindM (bindM (listJobs env (Some Failed)) (\<lambda>failed.
          countM (filter needs_retry_recovery failed) (retryRecoveryJob env rs))) (\<lambda>more. ret (recovered + more)))))"
    unfolding recover_def assoc by (simp add: assoc)
  moreover have "evolving \<dots>"
    by (intro evolving_bindM evolving_option evolving_basic loop again)
  ultimately show ?thesis by simp
qed

lemma evolving_retry: "evolving (retry env)"
proof (rule evolvingI)
  fix s assume "good s"
  then show "evolves s (snd (retry env s))"
    using listing_evolves [of s _ UNIV isFailedJob "retryJob env" "\<lambda>j. status j = Failed"] retryJob_evolves
    by (simp add: retry_def op_simps listJobs_def isFailedJob_def)
qed (simp add: retry_def, intro keeps_intros keeps_keys_recover)

lemma evolving_clear:
  assumes "st = Finalized \<or> st = Failed"
  shows "evolving (clear env st)"
proof (rule evolvingI)
  fix s assume "good s"
  then show "evolves s (snd (clear env st s))"
    using listing_evolves [of s _ "{st}" "\<lambda>_. True" "clearJob st" "\<lambda>j. status j = st"] clearJob_evolves assms
    by (simp add: clear_def op_simps listJobs_def)
qed (simp add: clear_def, intro keeps_intros keeps_keys_recover)

lemma evolving_cancel: "evolving (cancel k)"
  unfolding cancel_def
proof (rule evolving_bindM [OF evolving_basic(7)], rule evolving_lookup)
  fix s :: LiftState and cur
  assume s: "map_of (jobs s) k = Some cur" "job_ok k cur"
  have "evolves_at k s (snd (bindM (releaseWalletLockForJob cur) (\<lambda>_. deleteJob k) s))" if "status cur = Accepted"
    using deleteJob_evolves [OF s, of "()"] that by (simp add: op_simps)
  then show "evolves s (snd ((if status cur \<noteq> Accepted
     then throw (''Only accepted LiftJobs can be cancelled. Current status: '' @ state_text (status cur))
     else bindM (releaseWalletLockForJob cur) (\<lambda>_. deleteJob k)) s))"
    using evolves_at_evolves by (auto simp: throw_run evolves_same)
qed (intro keeps_intros)

section \<open>The transition system\<close>

text \<open>The public operations that write, as calls of the publisher, and the state each leaves, whether it returns or throws.\<close>

datatype LiftCall =
    Call_lift LiftRequest
  | Call_claimNext string
  | Call_update string LiftJobState PartialLiftJob
  | Call_processNext string
  | Call_recordPublishResult string PublishResult "nat option"
  | Call_recordPublishFailure string AsyncLiftPublishFailureInput
  | Call_recover
  | Call_retry
  | Call_clear LiftJobState
  | Call_cancel string
  | Call_pause
  | Call_resume

fun run_call :: "LiftEnv \<Rightarrow> LiftCall \<Rightarrow> LiftState \<Rightarrow> LiftState" where
  "run_call env (Call_lift req) s = snd (lift env req s)"
| "run_call env (Call_claimNext w) s = snd (claimNext env w s)"
| "run_call env (Call_update k st d) s = snd (update env k st d s)"
| "run_call env (Call_processNext w) s = snd (processNext env w s)"
| "run_call env (Call_recordPublishResult k r n) s = snd (recordPublishResult env k r n s)"
| "run_call env (Call_recordPublishFailure k inp) s = snd (recordPublishFailure env k inp s)"
| "run_call env Call_recover s = snd (recover env s)"
| "run_call env Call_retry s = snd (retry env s)"
| "run_call env (Call_clear st) s = snd (clear env st s)"
| "run_call env (Call_cancel k) s = snd (cancel k s)"
| "run_call env Call_pause s = snd (pause s)"
| "run_call env Call_resume s = snd (resume s)"

text \<open>
  What the life cycle asks of a caller. The data of an \<^verbatim>\<open>update\<close> is progress metadata: none of the fields that
  \<^verbatim>\<open>LIFT_JOB_IMMUTABLE_FIELDS\<close> names, no retry counter, nothing removed, no failure that is \<^verbatim>\<open>recover\<close>'s. The code does not
  check this (\<^verbatim>\<open>mergeJob\<close> copies whatever it is given); its own call of \<^verbatim>\<open>update\<close> passes the validation metadata only. The id
  that \<^verbatim>\<open>lift\<close> takes from the generator is new (the default is a random UUID), and \<^verbatim>\<open>clear\<close> is called with one of the two states
  of its type.
\<close>

definition data_ok :: "PartialLiftJob \<Rightarrow> bool" where
  "data_ok d \<longleftrightarrow>
     d_jobId d = None \<and> d_jobSlug d = None \<and> d_request d = None \<and> d_retries d = None \<and> d_timestamps d = None
     \<and> d_claim d \<noteq> Some None \<and> d_validation d \<noteq> Some None \<and> d_broadcast d \<noteq> Some None
     \<and> (case d_failure d of Some (Some f) \<Rightarrow> resolution f \<noteq> Retry_recovery | _ \<Rightarrow> True)"

lemma data_ok_wf: "data_ok d \<Longrightarrow> data_wf cur d"
  by (auto simp: data_ok_def data_wf_def)

fun call_ok :: "LiftEnv \<Rightarrow> LiftState \<Rightarrow> LiftCall \<Rightarrow> bool" where
  "call_ok env s (Call_lift req) = fresh_id env s"
| "call_ok env s (Call_update k st d) = data_ok d"
| "call_ok env s (Call_clear st) = (st = Finalized \<or> st = Failed)"
| "call_ok env s _ = True"

fun run_calls :: "LiftEnv \<Rightarrow> LiftCall list \<Rightarrow> LiftState \<Rightarrow> LiftState" where
  "run_calls env [] s = s"
| "run_calls env (c # cs) s = run_calls env cs (run_call env c s)"

fun calls_ok :: "LiftEnv \<Rightarrow> LiftState \<Rightarrow> LiftCall list \<Rightarrow> bool" where
  "calls_ok env s [] = True"
| "calls_ok env s (c # cs) \<longleftrightarrow> call_ok env s c \<and> calls_ok env (run_call env c s) cs"

inductive lift_step :: "LiftEnv \<Rightarrow> LiftState \<Rightarrow> LiftState \<Rightarrow> bool" for env where
  lift_call: "call_ok env s c \<Longrightarrow> lift_step env s (run_call env c s)"

text \<open>The states of the runs of such calls.\<close>

definition reachable :: "LiftEnv \<Rightarrow> LiftState \<Rightarrow> bool" where
  "reachable env s \<longleftrightarrow> (lift_step env)\<^sup>*\<^sup>* init_state s"

lemma calls_reachable: "reachable env s \<Longrightarrow> calls_ok env s cs \<Longrightarrow> reachable env (run_calls env cs s)"
proof (induction cs arbitrary: s)
  case (Cons c cs)
  then have "reachable env (run_call env c s)" unfolding reachable_def by (auto intro: rtranclp.rtrancl_into_rtrancl lift_call)
  then show ?case using Cons by simp
qed simp

lemma reachable_init: "reachable env init_state"
  by (simp add: reachable_def)

text \<open>One step: every job follows its life cycle, and at most one new job appears, under a new id.\<close>

lemma run_call_evolves:
  assumes "good s" "call_ok env s c" "\<forall>req. c \<noteq> Call_lift req"
  shows "evolves s (run_call env c s) \<and> keys_ok (run_call env c s)"
proof -
  have ev: "evolves s (snd (m s)) \<and> keys_ok (snd (m s))" if "evolving m" for m :: "'a lift_op"
    using that assms(1) by (simp add: evolving_def)
  show ?thesis
  proof (cases c)
    case (Call_update k st d)
    then show ?thesis using assms(2) ev [OF evolving_update [OF data_ok_wf]] by simp
  next
    case (Call_clear st)
    then show ?thesis using assms(2) ev [OF evolving_clear] by simp
  next
    case Call_pause
    then show ?thesis using assms(1) by (simp add: pause_def op_simps evolves_same good_def keys_ok_def)
  next
    case Call_resume
    then show ?thesis using assms(1) by (simp add: resume_def op_simps evolves_same good_def keys_ok_def)
  qed (use assms(3) in \<open>simp_all add: ev evolving_claimNext evolving_processNext evolving_recordPublishResult
      evolving_recordPublishFailure evolving_recover evolving_retry evolving_cancel\<close>)
qed

lemma lift_step_evolves:
  assumes "lift_step env s s'" "good s"
  shows "evolves s s' \<or> (\<exists>k j. map_of (jobs s) k = None \<and> submitted k j \<and> jobs s' = AList.update k j (jobs s))"
    and "keys_ok s'"
proof -
  obtain c where c: "call_ok env s c" "s' = run_call env c s" using assms(1) by cases
  have "evolves s s' \<and> keys_ok s' \<or>
     (\<exists>k j. map_of (jobs s) k = None \<and> submitted k j \<and> jobs s' = AList.update k j (jobs s))"
  proof (cases "\<exists>req. c = Call_lift req")
    case True
    then obtain req where "c = Call_lift req" by blast
    then show ?thesis using c lift_adds [of env req s] by (auto simp: fresh_id_def)
  next
    case False
    then show ?thesis using run_call_evolves [OF assms(2) c(1)] c(2) by blast
  qed
  then show "evolves s s' \<or> (\<exists>k j. map_of (jobs s) k = None \<and> submitted k j \<and> jobs s' = AList.update k j (jobs s))"
    "keys_ok s'"
    using assms(2) by (auto simp: good_def keys_ok_def)
qed

lemma lift_step_job:
  assumes "lift_step env s s'" "good s"
  shows "(lifecycle k)\<^sup>*\<^sup>* (map_of (jobs s) k) (map_of (jobs s') k)
      \<or> (\<exists>j. map_of (jobs s) k = None \<and> map_of (jobs s') k = Some j \<and> submitted k j)"
proof -
  consider "evolves s s'"
    | k' j where "map_of (jobs s) k' = None" "submitted k' j" "jobs s' = AList.update k' j (jobs s)"
    using lift_step_evolves(1) [OF assms] by blast
  then show ?thesis
  proof cases
    case 1
    then show ?thesis by (simp add: evolves_def)
  next
    case 2
    then show ?thesis by (cases "k' = k") (auto simp: update_conv')
  qed
qed

lemma lift_step_good: "lift_step env s s' \<Longrightarrow> good s \<Longrightarrow> good s'"
proof -
  assume step: "lift_step env s s'" and g: "good s"
  have "job_ok k j" if "map_of (jobs s') k = Some j" for k j
    using lift_step_job [OF step g, of k] that g lifecycles_job_ok [of k "map_of (jobs s) k" "map_of (jobs s') k" j]
    by (auto simp: submitted_def good_def jobs_ok_def)
  then show ?thesis using lift_step_evolves(2) [OF step g] by (simp add: good_def jobs_ok_def)
qed

lemma good_init: "good init_state"
  by (simp add: init_state_def good_def jobs_ok_def keys_ok_def)

lemma reachable_good: "reachable env s \<Longrightarrow> good s"
  unfolding reachable_def by (induction rule: rtranclp_induct) (auto intro: good_init lift_step_good)

section \<open>What the life cycle implies\<close>

lemma lifecycle_core: "lifecycle k (Some j) (Some j') \<Longrightarrow> same_core j j' \<and> retryCount (retries j) \<le> retryCount (retries j')"
  by (auto elim: lifecycle_SomeE)

lemma lifecycles_core:
  "(lifecycle k)\<^sup>*\<^sup>* x y \<Longrightarrow> x = Some j \<Longrightarrow> y = Some j' \<Longrightarrow>
     same_core j j' \<and> retryCount (retries j) \<le> retryCount (retries j')"
proof (induction arbitrary: j' rule: rtranclp_induct)
  case base
  then show ?case by (simp add: same_core_def)
next
  case (step y z)
  then show ?case
    by (cases y) (auto elim: lifecycle_NoneE dest!: lifecycle_core intro: same_core_trans)
qed

lemma lifecycle_finalized: "lifecycle k (Some j) y \<Longrightarrow> status j = Finalized \<Longrightarrow> y = None \<or> (\<exists>j'. y = Some j' \<and> status j' = Finalized)"
  by (auto elim!: lifecycle_SomeE simp: canTransitionLiftJob_def)

lemma lifecycles_finalized:
  "(lifecycle k)\<^sup>*\<^sup>* x y \<Longrightarrow> x = Some j \<Longrightarrow> status j = Finalized \<Longrightarrow> y = None \<or> (\<exists>j'. y = Some j' \<and> status j' = Finalized)"
  by (induction rule: rtranclp_induct) (auto elim: lifecycle_NoneE dest: lifecycle_finalized)

end
