(* ===== verification/LiftProcessing.thy ===== *)
theory LiftProcessing
  imports LiftSafety
begin

text \<open>
  Processing in full: \<^verbatim>\<open>processNext\<close> runs a claimed job to a verdict. Whatever the workspace
  queries, the validation, the publish call or its result do, the job ends included, finalized or
  failed, the failure carries a code that is legal for it, and nothing is thrown, as long as the
  publisher's own store of jobs and locks answers.
\<close>

section \<open>Processing a claimed job\<close>

text \<open>The job \<open>k\<close> is stored with status \<open>st\<close>.\<close>

definition at_status :: "LiftJobState \<Rightarrow> string \<Rightarrow> LiftState \<Rightarrow> bool" where
  "at_status st k s \<longleftrightarrow> (\<exists>j. map_of (jobs s) k = Some j \<and> status j = st \<and> job_ok k j)"

lemma at_status_cong: "jobs s' = jobs s \<Longrightarrow> at_status st k s' = at_status st k s"
  by (simp add: at_status_def)

text \<open>A merge that the status checks allow is written and returned.\<close>

lemma merge_commit_returns:
  assumes "map_of (jobs s) k = Some cur" "job_ok k cur" "data_wf cur d" "canTransitionLiftJob (status cur) st"
    and "assertJobMatchesStatus (mergedJob cur st d (clock env (ticks s))) = Inr ()"
  shows "\<exists>j. fst (bindM (mergeJob env cur st d) (commitJob env) s) = Inr j \<and> status j = st
     \<and> map_of (jobs (snd (bindM (mergeJob env cur st d) (commitJob env) s))) k = Some j \<and> job_ok k j"
proof -
  have r: "fst (bindM (mergeJob env cur st d) (commitJob env) s) = Inr (mergedJob cur st d (clock env (ticks s)))"
    using assms(4,5) by (simp add: bindM_run mergeJob_run commitJob_run)
  show ?thesis using merge_commit(2) [OF assms(1,2,3) r] r
    by (intro exI [of _ "mergedJob cur st d (clock env (ticks s))"]) simp
qed

lemma fail_returns:
  assumes "map_of (jobs s) k = Some cur" "job_ok k cur" "status cur \<noteq> Finalized" "status cur \<noteq> Failed"
    and "resolution f \<noteq> Retry_recovery"
  shows "\<exists>j. fst (bindM (mergeJob env cur Failed (no_data\<lparr>d_failure := Some (Some f)\<rparr>)) (commitJob env) s) = Inr j
     \<and> status j = Failed
     \<and> map_of (jobs (snd (bindM (mergeJob env cur Failed (no_data\<lparr>d_failure := Some (Some f)\<rparr>)) (commitJob env) s))) k = Some j
     \<and> job_ok k j"
  using assms by (intro merge_commit_returns data_wf_simple)
    (cases "status cur"; simp add: canTransitionLiftJob_def assertJobMatchesStatus_def)+

text \<open>The codes of a failure before the broadcast can all occur in the states they are recorded for.\<close>

lemma executionFailure_made:
  assumes "st = Claimed \<or> st = Validated"
  shows "\<exists>f. createLiftJobFailureMetadata
     \<lparr>failedFromState = st, code = executionFailureCode m, message = msg, errorPayloadRef = r, stackTraceRef = None,
      rpcResponseRef = None, revertReasonRef = None, timeout = None\<rparr> = Inr f \<and> resolution f \<noteq> Retry_recovery"
proof -
  have "\<exists>f. createLiftJobFailureMetadata
     \<lparr>failedFromState = st, code = executionFailureCode m, message = msg, errorPayloadRef = r, stackTraceRef = None,
      rpcResponseRef = None, revertReasonRef = None, timeout = None\<rparr> = Inr f"
    unfolding createFailure_Inr using assms
    by (auto simp: executionFailureCode_def isTimeoutLiftJobFailure_def getLiftJobFailurePolicy_def mk_policy_def)
  then show ?thesis using executionFailure_resolution by (metis FailureParams.select_convs(2))
qed

lemma publishFailure_made:
  assumes "str_includes (toLowerCase m) ''timeout'' \<or> str_includes (toLowerCase m) ''timed out''
     \<longleftrightarrow> tmo \<noteq> None" "\<And>t. tmo = Some t \<Longrightarrow> handling t = Check_chain_then_finalize_or_reset"
  shows "\<exists>f. mapPublishExceptionToLiftJobFailure
     \<lparr>error_message = m, in_failedFromState = Broadcast, in_errorPayloadRef = r, in_stackTraceRef = None,
      in_rpcResponseRef = None, in_revertReasonRef = None, in_timeout = tmo\<rparr> = Inr f"
  unfolding mapPublishExceptionToLiftJobFailure_def createFailure_Inr using assms
  by (auto simp: classifyPublishFailureCode_def isTimeoutLiftJobFailure_def getLiftJobFailurePolicy_def mk_policy_def)

lemma recordPublishFailure_run:
  assumes "map_of (jobs u) k = Some cur" "mapPublishExceptionToLiftJobFailure inp = Inr f"
  shows "recordPublishFailure env k inp u
    = bindM (mergeJob env cur Failed (no_data\<lparr>d_failure := Some (Some f)\<rparr>)) (commitJob env) (u\<lparr>graphEnsured := True\<rparr>)"
  using assms by (simp add: recordPublishFailure_def bindM_run [of ensureGraph] ensureGraph_run
      bindM_run [of "getRequiredJob k"] getRequiredJob_run bindM_liftE_Inr)

lemma recordExecutionFailure_returns:
  assumes "at_status st k s" "failedFrom = st \<and> (st = Claimed \<or> st = Validated) \<or> failedFrom = Broadcast \<and> st = Validated"
  shows "\<exists>j. fst (recordExecutionFailure env k failedFrom m s) = Inr j \<and> status j = Failed
     \<and> map_of (jobs (snd (recordExecutionFailure env k failedFrom m s))) k = Some j"
proof -
  from assms(1) obtain cur where cur: "map_of (jobs s) k = Some cur" "status cur = st" "job_ok k cur"
    by (auto simp: at_status_def)
  let ?s = "s\<lparr>graphEnsured := True\<rparr>"
  show ?thesis
  proof (cases "failedFrom = Broadcast")
    case False
    then have st: "failedFrom = Claimed \<or> failedFrom = Validated" "st = failedFrom" using assms(2) by auto
    obtain f where f: "createLiftJobFailureMetadata
        \<lparr>failedFromState = failedFrom, code = executionFailureCode (toLowerCase m), message = m,
         errorPayloadRef = ''urn:dkg:publisher:error:'' @ k, stackTraceRef = None, rpcResponseRef = None,
         revertReasonRef = None, timeout = None\<rparr> = Inr f" "resolution f \<noteq> Retry_recovery"
      using executionFailure_made [OF st(1)] by blast
    have run: "recordExecutionFailure env k failedFrom m s
        = bindM (mergeJob env cur Failed (no_data\<lparr>d_failure := Some (Some f)\<rparr>)) (commitJob env) ?s"
      unfolding recordExecutionFailure_def if_P [OF st(1)]
      by (simp only: bindM_run [of "getRequiredJob k"] getRequiredJob_run cur(1) option.case fst_conv snd_conv sum.case
          bindM_liftE_Inr [OF f(1)])
    show ?thesis unfolding run
      using fail_returns [of ?s k cur f env] cur f(2) st by auto
  next
    case True
    then have st: "st = Validated" using assms(2) by auto
    let ?timed = "str_includes (toLowerCase m) ''timeout'' \<or> str_includes (toLowerCase m) ''timed out''"
    define tmo where "tmo = (if ?timed then Some \<lparr>timeoutMs = 0, timeoutAt = clock env (ticks s),
        handling = Check_chain_then_finalize_or_reset\<rparr> else None)"
    let ?inp = "\<lparr>error_message = m, in_failedFromState = Broadcast, in_errorPayloadRef = ''urn:dkg:publisher:error:'' @ k,
        in_stackTraceRef = None, in_rpcResponseRef = None, in_revertReasonRef = None, in_timeout = tmo\<rparr>"
    let ?s' = "if ?timed then ?s\<lparr>ticks := Suc (ticks s)\<rparr> else ?s"
    have "?timed \<longleftrightarrow> tmo \<noteq> None" "\<And>t. tmo = Some t \<Longrightarrow> handling t = Check_chain_then_finalize_or_reset"
      by (auto simp: tmo_def split: if_splits)
    from publishFailure_made [OF this] obtain f where f: "mapPublishExceptionToLiftJobFailure ?inp = Inr f"
      by blast
    have "recordExecutionFailure env k failedFrom m s = recordPublishFailure env k ?inp ?s'"
      using True cur(1) by (simp add: recordExecutionFailure_def bindM_run getRequiredJob_run nowM_run ret_run tmo_def)
    moreover have "recordPublishFailure env k ?inp ?s'
        = bindM (mergeJob env cur Failed (no_data\<lparr>d_failure := Some (Some f)\<rparr>)) (commitJob env) (?s'\<lparr>graphEnsured := True\<rparr>)"
      using cur(1) by (intro recordPublishFailure_run f) simp
    ultimately show ?thesis
      using fail_returns [of "?s'\<lparr>graphEnsured := True\<rparr>" k cur f env] cur mapException_resolution [OF f] st by auto
  qed
qed

section \<open>The steps of processing\<close>

lemma at_statusE:
  assumes "at_status st k s"
  obtains j where "map_of (jobs s) k = Some j" "status j = st" "job_ok k j"
  using assms by (auto simp: at_status_def)

lemma update_validated_returns:
  fixes env v
  assumes "at_status Claimed k s"
  defines "m \<equiv> update env k Validated (no_data\<lparr>d_validation := Some (Some v)\<rparr>)"
  shows "fst (m s) = Inr ()" "at_status Validated k (snd (m s))"
proof -
  obtain cur where cur: "map_of (jobs s) k = Some cur" "status cur = Claimed" "job_ok k cur"
    using assms(1) by (rule at_statusE)
  let ?d = "no_data\<lparr>d_validation := Some (Some v)\<rparr>"
  let ?j = "mergedJob cur Validated ?d (clock env (ticks s))"
  let ?s = "s\<lparr>graphEnsured := True, ticks := Suc (ticks s)\<rparr>"
  obtain j' where j': "fst (refreshActiveLease env ?j ?s) = Inr j'" "lease_only ?j j'"
    "jobs (snd (refreshActiveLease env ?j ?s)) = jobs s"
    using refresh_run [of env ?j ?s] by auto
  let ?t = "snd (refreshActiveLease env ?j ?s)"
  have "claim cur \<noteq> None" using cur by (auto simp: job_ok_def assertJobMatchesStatus_def)
  then have matches: "assertJobMatchesStatus j' = Inr ()"
    using lease_only_ok [OF j'(2)] by (simp add: assertJobMatchesStatus_def)
  have run: "m s = (Inr (), snd (commitJob env j' ?t))"
    using cur j'(1) matches
    by (simp add: m_def update_def bindM_run ensureGraph_run getRequiredJob_run mergeJob_run canTransitionLiftJob_def
        ret_run commitJob_run)
  then show "fst (m s) = Inr ()" by simp
  note core = mergedJob_core [OF cur(3) data_wf_simple(5) [where v = v], of Validated "clock env (ticks s)"]
  have id: "jobId j' = k" using j'(2) core(2) by (simp add: lease_only_def same_core_def)
  have "job_ok k j'"
    using core j'(2) lease_only_ok [OF j'(2)] matches cur(3) id by (simp add: job_ok_def lease_only_def)
  moreover have "status j' = Validated" using j'(2) by (simp add: lease_only_def)
  moreover have "map_of (jobs (snd (m s))) k = Some j'"
    using run matches id j'(3) by (simp add: commitJob_run update_conv')
  ultimately show "at_status Validated k (snd (m s))" by (auto simp: at_status_def)
qed

lemma finalizeNoop_returns:
  assumes "at_status Validated k s"
  shows "\<exists>j. fst (finalizeNoopPublish env k s) = Inr j \<and> status j = Finalized
     \<and> map_of (jobs (snd (finalizeNoopPublish env k s))) k = Some j"
proof -
  obtain cur where cur: "map_of (jobs s) k = Some cur" "status cur = Validated" "job_ok k cur"
    using assms by (rule at_statusE)
  let ?s = "s\<lparr>graphEnsured := True\<rparr>"
  let ?d = "no_data\<lparr>d_finalization := Some (Some
       \<lparr>fin_mode = Some Noop, fin_txHash = None, fin_ual = None, fin_batchId = None, fin_startKAId = None,
        fin_endKAId = None, fin_publisherAddress = None\<rparr>)\<rparr>"
  have run: "finalizeNoopPublish env k s = bindM (mergeJob env cur Finalized ?d) (commitJob env) ?s"
    using cur(1) by (simp add: finalizeNoopPublish_def bindM_run [of "getRequiredJob k"] getRequiredJob_run)
  have parts: "claim cur \<noteq> None" "validation cur \<noteq> None"
    using cur by (auto simp: job_ok_def assertJobMatchesStatus_def)
  show ?thesis unfolding run
    using merge_commit_returns [of ?s k cur ?d Finalized env] cur parts
    by (auto simp: data_wf_simple canTransitionLiftJob_def assertJobMatchesStatus_def)
qed

lemma recordMapped_returns:
  assumes "at_status Validated k s" "map_of (jobs s) k = Some cur"
    and "success_status mapped = Included \<or> (success_status mapped = Finalized \<and> success_finalization mapped \<noteq> None)"
  shows "\<exists>j. fst (recordMapped env mapped cur s) = Inr j \<and> status j = success_status mapped
     \<and> map_of (jobs (snd (recordMapped env mapped cur s))) k = Some j"
proof -
  let ?m = "\<lambda>cur st d. bindM (mergeJob env cur st d) (commitJob env)"
  let ?b = "no_data\<lparr>d_broadcast := Some (Some (success_broadcast mapped))\<rparr>"
  let ?i = "?b\<lparr>d_inclusion := Some (Some (success_inclusion mapped))\<rparr>"
  let ?f = "?i\<lparr>d_finalization := Some (success_finalization mapped)\<rparr>"
  have cur: "status cur = Validated" "job_ok k cur" using assms(1,2) by (auto simp: at_status_def)
  have parts: "claim cur \<noteq> None" "validation cur \<noteq> None"
    using cur by (auto simp: job_ok_def assertJobMatchesStatus_def)
  obtain b where b: "fst (?m cur Broadcast ?b s) = Inr b" "status b = Broadcast"
    "map_of (jobs (snd (?m cur Broadcast ?b s))) k = Some b" "job_ok k b"
    using merge_commit_returns [OF assms(2) cur(2) data_wf_simple(1) [where b = "success_broadcast mapped"], of Broadcast env] cur parts
    by (auto simp: canTransitionLiftJob_def assertJobMatchesStatus_def)
  have bp: "claim b \<noteq> None" "validation b \<noteq> None" using active_parts [OF b(4)] b(2) by auto
  let ?s1 = "snd (?m cur Broadcast ?b s)"
  obtain i where i: "fst (?m b Included ?i ?s1) = Inr i" "status i = Included"
    "map_of (jobs (snd (?m b Included ?i ?s1))) k = Some i" "job_ok k i"
    using merge_commit_returns [OF b(3,4) data_wf_simple(2) [where b = "success_broadcast mapped"
        and i = "Some (Some (success_inclusion mapped))"], of Included env] b bp
    by (auto simp: canTransitionLiftJob_def assertJobMatchesStatus_def)
  have ip: "claim i \<noteq> None" "validation i \<noteq> None" using active_parts [OF i(4)] i(2) by auto
  let ?s2 = "snd (?m b Included ?i ?s1)"
  show ?thesis
  proof (cases "success_status mapped = Included")
    case True
    then have "recordMapped env mapped cur s = ?m b Included ?i ?s1"
      using cur b(1) by (simp add: recordMapped_def Let_def bindM_run [of "?m cur Broadcast ?b"])
    then show ?thesis using True i by simp
  next
    case False
    then have fin: "success_status mapped = Finalized" "success_finalization mapped \<noteq> None" using assms(3) by auto
    have "recordMapped env mapped cur s = ?m i Finalized ?f ?s2"
      using cur b i(1) False
      by (simp add: recordMapped_def Let_def bindM_run [of "?m cur Broadcast ?b"] bindM_run [of "?m b Included ?i"])
    moreover obtain f where "fst (?m i Finalized ?f ?s2) = Inr f" "status f = Finalized"
      "map_of (jobs (snd (?m i Finalized ?f ?s2))) k = Some f"
      using merge_commit_returns [OF i(3,4) data_wf_simple(3) [where b = "success_broadcast mapped"
          and i = "Some (Some (success_inclusion mapped))" and fi = "Some (success_finalization mapped)"], of Finalized env] i(2) ip fin(2)
      by (auto simp: canTransitionLiftJob_def assertJobMatchesStatus_def)
    ultimately show ?thesis using fin by auto
  qed
qed

text \<open>The outcome of processing: the job is returned as it is stored, with a final status.\<close>

definition verdict :: "string \<Rightarrow> LiftJob lift_op \<Rightarrow> LiftState \<Rightarrow> bool" where
  "verdict k m s \<longleftrightarrow> (\<exists>j. fst (m s) = Inr j \<and> status j \<in> {Included, Finalized, Failed}
     \<and> map_of (jobs (snd (m s))) k = Some j)"

lemma attempt_run:
  "attempt env k st m K s =
     (case fst (m s) of Inl e \<Rightarrow> recordExecutionFailure env k st e (snd (m s)) | Inr x \<Rightarrow> K x (snd (m s)))"
  by (auto simp: attempt_def op_simps split: sum.splits) (metis prod.collapse)+

lemma attempt_verdict:
  assumes "\<And>e. fst (m s) = Inl e \<Longrightarrow> at_status cur k (snd (m s))"
    and "failedFrom = cur \<and> (cur = Claimed \<or> cur = Validated) \<or> failedFrom = Broadcast \<and> cur = Validated"
    and "\<And>x. fst (m s) = Inr x \<Longrightarrow> verdict k (K x) (snd (m s))"
  shows "verdict k (attempt env k failedFrom m K) s"
proof (cases "fst (m s)")
  case (Inl e)
  then show ?thesis
    using recordExecutionFailure_returns [OF assms(1) assms(2), of e env e]
    by (auto simp: verdict_def attempt_run)
next
  case (Inr x)
  then show ?thesis using assms(3) by (simp add: verdict_def attempt_run)
qed

lemma publish_verdict:
  assumes "at_status Validated k s"
  shows "verdict k (attempt env k Broadcast
      (bindM (readEnv executor) (\<lambda>run. bindM (liftE (run w po)) (\<lambda>r. recordPublishResult env k r n))) ret) s"
    (is "verdict k (attempt env k Broadcast ?m ret) s")
proof (rule attempt_verdict [where cur = Validated])
  obtain cur where cur: "map_of (jobs s) k = Some cur" "status cur = Validated" "job_ok k cur"
    using assms by (rule at_statusE)
  then obtain c v where cv: "claim cur = Some c" "validation cur = Some v"
    by (auto simp: job_ok_def assertJobMatchesStatus_def)
  let ?s = "s\<lparr>ticks := Suc (ticks s)\<rparr>"
  let ?u = "?s\<lparr>graphEnsured := True\<rparr>"
  have run: "?m s = (case executor (ticks s) w po of Inl e \<Rightarrow> (Inl e, ?s)
      | Inr r \<Rightarrow> (case mapPublishResultToLiftJobSuccess r (claim_walletId c) n of
            Inl e \<Rightarrow> (Inl e, ?u) | Inr mapped \<Rightarrow> recordMapped env mapped cur ?u))"
    using cur(1) cv
    by (simp add: bindM_run readEnv_run liftE_run recordPublishResult_def ensureGraph_run getRequiredJob_run
        split: sum.splits)
  have u: "at_status Validated k ?u" "map_of (jobs ?u) k = Some cur"
    using cur assms by (simp_all add: at_status_def)
  show "at_status Validated k (snd (?m s))" if "fst (?m s) = Inl e" for e
    using that assms run mapResult_Inr recordMapped_returns [OF u, of _ env]
    by (auto simp: at_status_def split: sum.splits) fastforce+
  show "verdict k (ret j) (snd (?m s))" if "fst (?m s) = Inr j" for j
    using that run mapResult_Inr recordMapped_returns [OF u, of _ env]
    by (auto simp: verdict_def ret_run split: sum.splits) fastforce+
qed simp

lemma validate_stage:
  fixes env k req
  assumes "at_status Claimed k s"
  defines "m \<equiv> bindM (resolveAndValidate env req) (\<lambda>v.
      bindM (update env k Validated (no_data\<lparr>d_validation := Some (Some (payload_validation v))\<rparr>)) (\<lambda>_. ret v))"
  shows "fst (m s) = Inl e \<Longrightarrow> at_status Claimed k (snd (m s))" "fst (m s) = Inr v \<Longrightarrow> at_status Validated k (snd (m s))"
proof -
  have "jobs (snd (resolveAndValidate env req s)) = jobs s"
    by (auto simp: resolveAndValidate_def op_simps split: sum.splits)
  then have c: "at_status Claimed k (snd (resolveAndValidate env req s))" using assms(1) at_status_cong by blast
  show "fst (m s) = Inl e \<Longrightarrow> at_status Claimed k (snd (m s))" "fst (m s) = Inr v \<Longrightarrow> at_status Validated k (snd (m s))"
    using c update_validated_returns [OF c, of env]
    by (auto simp: m_def bindM_run ret_run split: sum.splits)
qed

lemma processClaimed_verdict:
  assumes "at_status Claimed (jobId c) s" "status c = Claimed"
  shows "verdict (jobId c) (processClaimed env ex w c) s"
  unfolding processClaimed_def assms(2)
proof (rule attempt_verdict [where cur = Claimed])
  let ?k = "jobId c"
  let ?m1 = "bindM (resolveAndValidate env (request c)) (\<lambda>v. bindM (update env ?k Validated
      (no_data\<lparr>d_validation := Some (Some (payload_validation v))\<rparr>)) (\<lambda>_. ret v))"
  show "at_status Claimed ?k (snd (?m1 s))" if "fst (?m1 s) = Inl e" for e
    using validate_stage(1) [OF assms(1) that] .
  fix v assume "fst (?m1 s) = Inr v"
  then have t: "at_status Validated ?k (snd (?m1 s))" by (rule validate_stage(2) [OF assms(1)])
  define t where "t = snd (?m1 s)"
  let ?sub = "\<lambda>query. subtractFinalizedExactQuads query (request c) (payload_validation v) (payload_resolved v)"
  let ?prep = "\<lambda>sub. prepareAsyncPublishPayload (request c) (payload_validation v) (sub_resolved sub)"
  let ?none = "\<lambda>sub. length (quads (sub_resolved sub)) = 0
     \<and> (case privateQuads (sub_resolved sub) of None \<Rightarrow> 0 | Some p \<Rightarrow> length p) = 0"
  let ?m2 = "bindM (readEnv (store_query env)) (\<lambda>query. bindM (liftE (?sub query)) (\<lambda>sub.
        if ?none sub then bindM (finalizeNoopPublish env ?k) (\<lambda>j. ret (Inl j))
        else bindM (liftE (?prep sub)) (\<lambda>prepared. ret (Inr prepared))))"
  let ?K = "\<lambda>r. case r of Inl j \<Rightarrow> ret j
      | Inr prepared \<Rightarrow> attempt env ?k Broadcast
            (bindM (readEnv ex) (\<lambda>run. bindM (liftE (run w (publishOptions prepared))) (\<lambda>publishResult.
             recordPublishResult env ?k publishResult (Some (computePublicByteSize (po_quads (publishOptions prepared))))))) ret"
  let ?t = "t\<lparr>ticks := Suc (ticks t)\<rparr>"
  have vt: "at_status Validated ?k ?t" using t at_status_cong [of ?t t] by (simp add: t_def)
  note noop = finalizeNoop_returns [OF vt, of env]
  have m2: "?m2 t = (case ?sub (store_query env (ticks t)) of Inl e \<Rightarrow> (Inl e, ?t)
      | Inr sub \<Rightarrow> if ?none sub then bindM (finalizeNoopPublish env ?k) (\<lambda>j. ret (Inl j)) ?t
                  else (case ?prep sub of Inl e \<Rightarrow> (Inl e, ?t) | Inr prepared \<Rightarrow> (Inr (Inr prepared), ?t)))"
    by (simp add: bindM_run [of "readEnv _"] readEnv_run bindM_run [of "liftE _"] liftE_run ret_run split: sum.splits)
  show "verdict ?k (attempt env ?k Validated ?m2 ?K) (snd (?m1 s))"
    unfolding t_def [symmetric]
  proof (rule attempt_verdict [where cur = Validated])
    show "at_status Validated ?k (snd (?m2 t))" if "fst (?m2 t) = Inl e" for e
      using that vt noop unfolding m2 by (auto simp: bindM_run ret_run split: sum.splits if_splits)
    show "verdict ?k (?K r) (snd (?m2 t))" if "fst (?m2 t) = Inr r" for r
      using that vt noop publish_verdict [OF vt, of env ex w] unfolding m2
      by (auto simp: bindM_run [of "finalizeNoopPublish env ?k"] ret_run verdict_def split: sum.splits if_splits)
  qed simp
qed simp

end
