(* ===== verification/LiftProperties.thy ===== *)
theory LiftProperties
  imports LiftProcessing
begin

text \<open>
  The properties of the asynchronous publisher, each with an instance on a concrete publisher: a
  sample environment, request and run.
\<close>

section \<open>Loops that return\<close>

lemma countM_returns:
  assumes "distinct (map jobId xs)" "\<And>j. j \<in> set xs \<Longrightarrow> map_of (jobs s) (jobId j) = Some j"
    and step: "\<And>j t. j \<in> set xs \<Longrightarrow> map_of (jobs t) (jobId j) = Some j \<Longrightarrow> evolves_at (jobId j) t (snd (f j t))"
    and R: "\<And>j t n. j \<in> set xs \<Longrightarrow> map_of (jobs t) (jobId j) = Some j \<Longrightarrow> fst (f j t) = Inr n \<Longrightarrow>
              R j (map_of (jobs (snd (f j t))) (jobId j))"
    and "fst (countM xs f s) = Inr n"
  shows "(\<forall>j \<in> set xs. R j (map_of (jobs (snd (countM xs f s))) (jobId j)))
     \<and> (\<forall>k. k \<notin> jobId ` set xs \<longrightarrow> map_of (jobs (snd (countM xs f s))) k = map_of (jobs s) k)"
  using assms
proof (induction xs arbitrary: s n)
  case Nil
  then show ?case by (simp add: ret_run)
next
  case (Cons x xs)
  let ?t = "snd (f x s)"
  obtain a b where ab: "fst (f x s) = Inr a" "fst (countM xs f ?t) = Inr b"
    using Cons.prems(5) by (auto simp: bindM_run split: sum.splits)
  have x: "evolves_at (jobId x) s ?t" using Cons.prems(2,3) by simp
  have neq: "jobId j \<noteq> jobId x" if "j \<in> set xs" for j
    using that Cons.prems(1) by (metis distinct.simps(2) image_eqI list.simps(9) set_map)
  have t: "map_of (jobs ?t) (jobId j) = Some j" if "j \<in> set xs" for j
    using that x Cons.prems(2) neq by (simp add: evolves_at_def)
  have fin: "snd (countM (x # xs) f s) = snd (countM xs f ?t)" using ab by (simp add: bindM_run ret_run)
  have ih: "(\<forall>j \<in> set xs. R j (map_of (jobs (snd (countM xs f ?t))) (jobId j)))
     \<and> (\<forall>k. k \<notin> jobId ` set xs \<longrightarrow> map_of (jobs (snd (countM xs f ?t))) k = map_of (jobs ?t) k)"
    using Cons.prems(1,3,4) t ab(2) by (intro Cons.IH) auto
  have "jobId x \<notin> jobId ` set xs" using neq by (metis imageE)
  then have "R x (map_of (jobs (snd (countM xs f ?t))) (jobId x))"
    using ih Cons.prems(2,4) ab(1) by simp
  moreover have "map_of (jobs (snd (countM xs f ?t))) k = map_of (jobs s) k" if "k \<notin> jobId ` set (x # xs)" for k
    using that ih x by (simp add: evolves_at_def)
  ultimately show ?case unfolding fin using ih by simp
qed

lemma listing_returns:
  assumes "good s" "jobs s' = jobs s"
    and step: "\<And>j t. P j \<Longrightarrow> Q j \<Longrightarrow> job_ok (jobId j) j \<Longrightarrow> map_of (jobs t) (jobId j) = Some j \<Longrightarrow>
        evolves_at (jobId j) t (snd (f j t))"
    and R: "\<And>j t n. P j \<Longrightarrow> Q j \<Longrightarrow> job_ok (jobId j) j \<Longrightarrow> map_of (jobs t) (jobId j) = Some j \<Longrightarrow> fst (f j t) = Inr n \<Longrightarrow>
              R j (map_of (jobs (snd (f j t))) (jobId j))"
    and run: "countM (filter P (js_sort cmp (filter Q (map snd (jobs s))))) f s' = (Inr n, s'')"
    and k: "map_of (jobs s) k = Some j"
  shows "if P j \<and> Q j then R j (map_of (jobs s'') k) else map_of (jobs s'') k = Some j"
proof -
  let ?xs = "filter P (js_sort cmp (filter Q (map snd (jobs s))))"
  have xs: "j \<in> snd ` set (jobs s) \<and> Q j \<and> P j" if "j \<in> set ?xs" for j using that by auto
  have listed: "map_of (jobs s') (jobId j) = Some j \<and> job_ok (jobId j) j" if "j \<in> set ?xs" for j
    using xs [OF that] good_listed [OF assms(1)] assms(2) by simp
  have all: "(\<forall>j \<in> set ?xs. R j (map_of (jobs (snd (countM ?xs f s'))) (jobId j)))
     \<and> (\<forall>k. k \<notin> jobId ` set ?xs \<longrightarrow> map_of (jobs (snd (countM ?xs f s'))) k = map_of (jobs s') k)"
    using run by (intro countM_returns [where n = n] distinct_listing [OF assms(1)] step R) (auto simp: listed dest: xs listed)
  have kj: "jobId j = k" using k assms(1) by (auto simp: good_def jobs_ok_def job_ok_def)
  have mem: "j \<in> set ?xs" if "P j \<and> Q j" using that map_of_in_values [OF k] by auto
  have "k \<notin> jobId ` set ?xs" if "\<not> (P j \<and> Q j)"
  proof
    assume "k \<in> jobId ` set ?xs"
    then obtain j' where j': "j' \<in> set ?xs" "jobId j' = k" by auto
    then have "map_of (jobs s) k = Some j'" using listed [OF j'(1)] j'(2) assms(2) by auto
    then show False using that k xs [OF j'(1)] by simp
  qed
  then show ?thesis using all mem kj k run assms(2) by auto
qed

section \<open>What one iteration of recovery leaves\<close>

definition recovered_ok :: "LiftEnv \<Rightarrow> LiftJob option \<Rightarrow> bool" where
  "recovered_ok env y \<longleftrightarrow> (\<exists>j. y = Some j \<and> status j \<noteq> Claimed \<and> status j \<noteq> Validated
     \<and> (chainRecoveryResolver env = None \<longrightarrow> status j \<noteq> Broadcast))"

lemma resetInterrupted_result:
  "map_of (jobs (snd (resetInterrupted env j t))) (jobId j) = Some r \<Longrightarrow> status r = Accepted"
  "\<exists>r. map_of (jobs (snd (resetInterrupted env j t))) (jobId j) = Some r"
  by (auto simp: resetInterrupted_def resetJobToAccepted_def op_simps accepted_job_def update_conv')

lemma finalizeRecovered_result:
  "finalizeRecoveredJob env j inc fi t = (Inr r, t') \<Longrightarrow> status r = Finalized \<and> jobId r = jobId j"
  by (auto simp: finalizeRecoveredJob_def op_simps split: option.splits)

lemma failInconclusive_result:
  "failInconclusiveRecovery env j t = (Inr r, t') \<Longrightarrow> status r = Failed \<and> jobId r = jobId j"
  by (auto simp: failInconclusiveRecovery_def op_simps split: sum.splits if_splits)

lemma write_result:
  "fst (bindM m (\<lambda>r. bindM (writeJob r) (\<lambda>_. ret n)) t) = Inr x \<Longrightarrow>
   (\<And>r t'. m t = (Inr r, t') \<Longrightarrow> status r = st \<and> jobId r = k) \<Longrightarrow>
   \<exists>r. map_of (jobs (snd (bindM m (\<lambda>r. bindM (writeJob r) (\<lambda>_. ret n)) t))) k = Some r \<and> status r = st"
  by (cases "m t") (auto simp: op_simps update_conv' split: sum.splits)

lemma recoverJob_result:
  assumes "map_of (jobs t) (jobId j) = Some j" "is_active (status j)" "fst (recoverJob env j t) = Inr n"
  shows "recovered_ok env (map_of (jobs (snd (recoverJob env j t))) (jobId j))"
proof (cases "status j = Claimed \<or> status j = Validated \<or> (status j = Broadcast \<and> chainRecoveryResolver env = None)")
  case True
  then have "recoverJob env j t = resetInterrupted env j t" by (auto simp: recoverJob_def)
  then show ?thesis using resetInterrupted_result [of env j t] by (fastforce simp: recovered_ok_def)
next
  case False
  then have st: "status j = Broadcast \<or> status j = Included" using assms(2) by (auto simp: is_active.simps)
  show ?thesis
  proof (cases "chainRecoveryResolver env")
    case None
    then show ?thesis using False st assms(1) by (auto simp: recoverJob_def op_simps recovered_ok_def)
  next
    case (Some rs)
    let ?t = "t\<lparr>ticks := Suc (ticks t)\<rparr>"
    let ?t' = "?t\<lparr>ticks := Suc (ticks ?t)\<rparr>"
    obtain b where b: "hasInconclusiveRecoveryTimedOut env j ?t = (Inr b, ?t')"
      by (simp add: hasInconclusiveRecoveryTimedOut_def op_simps Let_def)
    have run: "recoverJob env j t = (case rs (ticks t) j of Inl e \<Rightarrow> (Inl e, ?t)
      | Inr (Some (inc, fi)) \<Rightarrow> bindM (finalizeRecoveredJob env j inc fi) (\<lambda>r. bindM (writeJob r) (\<lambda>_. ret (1::nat)))
           (snd (releaseWalletLockForJob j ?t))
      | Inr None \<Rightarrow> if b then bindM (failInconclusiveRecovery env j) (\<lambda>r. bindM (writeJob r) (\<lambda>_. ret (1::nat)))
           (snd (releaseWalletLockForJob j ?t')) else (Inr 0, ?t'))"
      using False st Some b
      by (auto simp: recoverJob_def bindM_run [of "readEnv _"] bindM_run [of "liftE _"] readEnv_run liftE_run
          bindM_run [of "releaseWalletLockForJob j"] bindM_run [of "hasInconclusiveRecoveryTimedOut env j"] ret_run
          split: sum.splits option.splits)
    have fail: "\<exists>r. map_of (jobs (snd (bindM (failInconclusiveRecovery env j) (\<lambda>r. bindM (writeJob r) (\<lambda>_. ret (1::nat)))
        (snd (releaseWalletLockForJob j ?t'))))) (jobId j) = Some r \<and> status r = Failed"
      if "fst (bindM (failInconclusiveRecovery env j) (\<lambda>r. bindM (writeJob r) (\<lambda>_. ret (1::nat)))
        (snd (releaseWalletLockForJob j ?t'))) = Inr n"
      by (rule write_result [OF that]) (rule failInconclusive_result)
    have fin: "\<exists>r. map_of (jobs (snd (bindM (finalizeRecoveredJob env j inc fi) (\<lambda>r. bindM (writeJob r) (\<lambda>_. ret (1::nat)))
        (snd (releaseWalletLockForJob j ?t))))) (jobId j) = Some r \<and> status r = Finalized"
      if "fst (bindM (finalizeRecoveredJob env j inc fi) (\<lambda>r. bindM (writeJob r) (\<lambda>_. ret (1::nat)))
        (snd (releaseWalletLockForJob j ?t))) = Inr n" for inc fi
      by (rule write_result [OF that]) (rule finalizeRecovered_result)
    show ?thesis
    proof (cases "rs (ticks t) j")
      case (Inl e)
      then show ?thesis using assms(3) run by simp
    next
      case (Inr res)
      show ?thesis
      proof (cases res)
        case None
        then show ?thesis using assms(1,3) st Some Inr fail unfolding run recovered_ok_def
          by (cases b) auto
      next
        case (Some pr)
        then show ?thesis using assms(3) Inr fin [of "fst pr" "snd pr"] \<open>chainRecoveryResolver env = Some rs\<close> unfolding run recovered_ok_def
          by (cases pr) auto
      qed
    qed
  qed
qed

lemma lifecycles_None: "(lifecycle k)\<^sup>*\<^sup>* x y \<Longrightarrow> x = None \<Longrightarrow> y = None"
  by (induction rule: rtranclp_induct) (auto elim: lifecycle_NoneE)

lemma evolves_present: "evolves s s' \<Longrightarrow> map_of (jobs s') k = Some j' \<Longrightarrow> \<exists>j. map_of (jobs s) k = Some j"
  unfolding evolves_def using lifecycles_None [of k "map_of (jobs s) k" "map_of (jobs s') k"]
  by (cases "map_of (jobs s) k") (auto, metis)

lemma retryRecoveryJob_result:
  assumes "map_of (jobs t) (jobId j) = Some j" "job_ok (jobId j) j" "needs_retry_recovery j"
    "fst (retryRecoveryJob env rs j t) = Inr n"
  shows "\<exists>r. map_of (jobs (snd (retryRecoveryJob env rs j t))) (jobId j) = Some r
     \<and> (status r = Failed \<or> status r = Finalized)"
proof -
  obtain f where f: "failure j = Some f" "status j = Failed"
    using assms(3) by (auto simp: needs_retry_recovery_def isFailedJob_def)
  let ?j = "j\<lparr>failure := None, status := (if failedFromState f = Included then Included else Broadcast)\<rparr>"
  let ?t = "t\<lparr>ticks := Suc (ticks t)\<rparr>"
  have run: "retryRecoveryJob env rs j t = (case rs (ticks t) j of Inl e \<Rightarrow> (Inl e, ?t)
      | Inr None \<Rightarrow> (Inr 0, ?t)
      | Inr (Some (inc, fi)) \<Rightarrow> bindM (finalizeRecoveredJob env ?j inc fi) (\<lambda>r. bindM (writeJob r) (\<lambda>_. ret (1::nat)))
          (snd (releaseWalletLockForJob j ?t)))"
    using f by (auto simp: retryRecoveryJob_def bindM_run [of "readEnv _"] bindM_run [of "liftE _"] readEnv_run liftE_run
        bindM_run [of "releaseWalletLockForJob j"] ret_run split: sum.splits option.splits)
  have fin: "\<exists>r. map_of (jobs (snd (bindM (finalizeRecoveredJob env ?j inc fi) (\<lambda>r. bindM (writeJob r) (\<lambda>_. ret (1::nat)))
        (snd (releaseWalletLockForJob j ?t))))) (jobId ?j) = Some r \<and> status r = Finalized"
    if "fst (bindM (finalizeRecoveredJob env ?j inc fi) (\<lambda>r. bindM (writeJob r) (\<lambda>_. ret (1::nat)))
        (snd (releaseWalletLockForJob j ?t))) = Inr n" for inc fi
    by (rule write_result [OF that]) (rule finalizeRecovered_result)
  show ?thesis
  proof (cases "\<exists>inc fi. rs (ticks t) j = Inr (Some (inc, fi))")
    case True
    then obtain inc fi where "rs (ticks t) j = Inr (Some (inc, fi))" by auto
    then show ?thesis using assms(4) fin [of inc fi] unfolding run by auto
  next
    case False
    then show ?thesis using assms(1,4) f unfolding run
      by (auto split: sum.splits option.splits)
  qed
qed

text \<open>A successful recovery leaves no job that was interrupted before its broadcast.\<close>

lemma recover_result:
  assumes "good s" "recover env s = (Inr n, s')" "map_of (jobs s') k = Some j'"
  shows "recovered_ok env (Some j')"
proof -
  let ?cmp = "compareAcceptedJobs (localeCompare env)"
  define s0 where "s0 = (snd (sweepStaleWalletLocks env (s\<lparr>graphEnsured := True\<rparr>)))\<lparr>graphEnsured := True\<rparr>"
  have jobs0: "jobs s0 = jobs s" by (simp add: s0_def)
  then have good0: "good s0" using assms(1) by (simp add: good_def jobs_ok_def keys_ok_def)
  let ?xs = "filter (\<lambda>j. is_active (status j)) (js_sort ?cmp (filter (\<lambda>_. True) (map snd (jobs s0))))"
  let ?tail = "\<lambda>n1 s1. case chainRecoveryResolver env of None \<Rightarrow> (Inr n1, s1)
     | Some rs \<Rightarrow> bindM (countM (filter needs_retry_recovery
           (js_sort ?cmp (filter (\<lambda>j. status j = Failed) (map snd (jobs s1))))) (retryRecoveryJob env rs))
         (\<lambda>more. ret (n1 + more)) (s1\<lparr>graphEnsured := True\<rparr>)"
  have "recover env s = (case countM ?xs (recoverJob env) s0 of (Inl e, s1) \<Rightarrow> (Inl e, s1) | (Inr n1, s1) \<Rightarrow> ?tail n1 s1)"
    by (auto simp: recover_def bindM_run ensureGraph_run listJobs_def getM_run s0_def ret_run
        split: sum.splits prod.splits option.splits)
  then obtain n1 s1 where s1: "countM ?xs (recoverJob env) s0 = (Inr n1, s1)" "?tail n1 s1 = (Inr n, s')"
    using assms(2) by (auto split: prod.splits sum.splits)
  have one: "if is_active (status j) \<and> True then recovered_ok env (map_of (jobs s1) k) else map_of (jobs s1) k = Some j"
    if "map_of (jobs s0) k = Some j" for j
    by (rule listing_returns [OF good0 refl _ _ s1(1) that]) (auto intro: recoverJob_evolves recoverJob_result)
  have "evolves s0 (snd (countM ?xs (recoverJob env) s0))"
    by (rule listing_evolves [OF good0 refl, where S = UNIV]) (auto intro: recoverJob_evolves)
  then have ev1: "evolves s0 s1" using s1(1) by simp
  have keys1: "keys_ok s1"
    using good0 s1(1) keeps_countM [of ?xs keys_ok "recoverJob env"] keeps_keys_recover(1) [of env]
    by (auto simp: keeps_def good_def)
  have good1: "good s1" using evolves_jobs_ok [OF ev1] good0 keys1 by (simp add: good_def)
  have ok1: "recovered_ok env (Some j)" if "map_of (jobs s1) k = Some j" for j
    using one evolves_present [OF ev1 that] that by (auto simp: recovered_ok_def is_active.simps split: if_splits)
  show ?thesis
  proof (cases "chainRecoveryResolver env")
    case None
    then show ?thesis using s1(2) ok1 assms(3) by simp
  next
    case (Some rs)
    let ?ys = "filter needs_retry_recovery (js_sort ?cmp (filter (\<lambda>j. status j = Failed) (map snd (jobs s1))))"
    let ?s1 = "s1\<lparr>graphEnsured := True\<rparr>"
    obtain n2 where run2: "countM ?ys (retryRecoveryJob env rs) ?s1 = (Inr n2, s')"
      using s1(2) Some by (cases "countM ?ys (retryRecoveryJob env rs) ?s1")
        (auto simp: bindM_run ret_run split: sum.splits)
    have "evolves s1 (snd (countM ?ys (retryRecoveryJob env rs) ?s1))"
      by (rule listing_evolves [OF good1, where S = UNIV]) (auto intro: retryRecoveryJob_evolves)
    then obtain j1 where j1: "map_of (jobs s1) k = Some j1"
      using run2 evolves_present assms(3) by fastforce
    have "if needs_retry_recovery j1 \<and> status j1 = Failed
        then \<exists>r. map_of (jobs s') k = Some r \<and> (status r = Failed \<or> status r = Finalized)
        else map_of (jobs s') k = Some j1"
      by (rule listing_returns [OF good1 _ _ _ run2 j1]) (auto intro: retryRecoveryJob_evolves retryRecoveryJob_result)
    then show ?thesis using assms(3) ok1 [OF j1] by (auto simp: recovered_ok_def split: if_splits)
  qed
qed

section \<open>A sample publisher\<close>

definition sample_env :: LiftEnv where
  "sample_env =
     \<lparr>clock = (\<lambda>n. 1000 * int n), idGenerator = (\<lambda>n. replicate n (CHR ''j'')), env_maxRetries = 3,
      recoveryLookupTimeoutMs = 900000, chainRecoveryResolver = None,
      publishExecutor = Some (\<lambda>_ _ _. Inl ''nonce too low''),
      resolvedSliceOverrides = \<lparr>o_quads = None, o_privateQuads = None, o_publisherPeerId = None, o_accessPolicy = None,
        o_allowedPeers = None, o_entityProofs = None, o_targetGraphUri = None, o_targetMetaGraphUri = None,
        o_publishContextGraphId = None\<rparr>,
      store_query = (\<lambda>_ _. Inl ''store offline''), sha256 = (\<lambda>_. zero32), localeCompare = (\<lambda>_ _. 0)\<rparr>"

definition sample_request :: LiftRequest where
  "sample_request =
     \<lparr>swmId = ''swm'', shareOperationId = ''op'', roots = [''urn:a''], contextGraphId = ''cg'', namespace = ''ns'',
      scope = ''sc'', transitionType = CREATE, authority = \<lparr>auth_type = Owner, proofRef = ''proof''\<rparr>,
      priorVersion = None\<rparr>"

definition sample_one :: LiftState where
  "sample_one = snd (lift sample_env sample_request init_state)"

definition sample_two :: LiftState where
  "sample_two = snd (lift sample_env sample_request sample_one)"

definition sample_claimed :: LiftState where
  "sample_claimed = snd (claimNext sample_env ''w1'' sample_two)"

definition sample_job :: "string \<Rightarrow> int \<Rightarrow> LiftJob" where
  "sample_job k t =
     accepted_job k (createJobSlug sample_request) sample_request (accepted_timestamps t t)
       \<lparr>retryCount = 0, maxRetries = 3, lastRetryReason = None\<rparr> None
       (Some \<lparr>jobRef = Some (jobSubject k), walletLockRef = None\<rparr>)"

lemma sample_job_sel [simp]:
  "jobId (sample_job k t) = k" "status (sample_job k t) = Accepted" "acceptedAt (timestamps (sample_job k t)) = t"
  "request (sample_job k t) = sample_request"
  by (simp_all add: sample_job_def accepted_job_def accepted_timestamps_def)

lemma sample_one_eq: "sample_one = \<lparr>jobs = [(''j'', sample_job ''j'' 0)], walletLocks = [], paused = False, graphEnsured = True, ticks = 2\<rparr>"
  by (simp add: sample_one_def lift_def op_simps init_state_def sample_env_def sample_job_def accepted_job_def)

lemma sample_two_eq: "sample_two = \<lparr>jobs = [(''j'', sample_job ''j'' 0), (''jjj'', sample_job ''jjj'' 2000)],
    walletLocks = [], paused = False, graphEnsured = True, ticks = 4\<rparr>"
  by (simp add: sample_two_def sample_one_eq lift_def op_simps sample_env_def sample_job_def accepted_job_def numeral_eq_Suc)

lemma sample_two_jobs: "jobs sample_two = [(''j'', sample_job ''j'' 0), (''jjj'', sample_job ''jjj'' 2000)]"
  by (simp add: sample_two_eq)

lemma sample_candidate: "claim_candidate sample_env sample_two = Some (sample_job ''j'' 0)"
  by (simp add: claim_candidate_def accepted_jobs_def sample_two_eq compareAcceptedJobs_def sample_env_def)

lemma sample_claim:
  "claimNext sample_env ''w1'' sample_two = (Inr (Some (claimed_job sample_env ''w1'' (sample_job ''j'' 0) 5)), sample_claimed)"
  "jobs sample_claimed = [(''j'', claimed_job sample_env ''w1'' (sample_job ''j'' 0) 5), (''jjj'', sample_job ''jjj'' 2000)]"
  "walletLocks sample_claimed = [(''w1'', claim_lock sample_env ''w1'' (sample_job ''j'' 0) 5)]"
  "paused sample_claimed = False" "ticks sample_claimed = 7"
  unfolding sample_claimed_def claimNext_run sample_candidate
  by (simp_all add: sample_two_eq wallet_locked_def Let_def numeral_eq_Suc)

lemma sample_fresh: "fresh_id sample_env init_state" "fresh_id sample_env sample_one"
  by (simp_all add: fresh_id_def init_state_def sample_one_eq sample_env_def numeral_eq_Suc)

lemma sample_reachable:
  "reachable sample_env sample_one" "reachable sample_env sample_two" "reachable sample_env sample_claimed"
proof -
  have one: "lift_step sample_env init_state sample_one"
    unfolding sample_one_def using lift_call [of sample_env init_state "Call_lift sample_request"] sample_fresh(1) by simp
  have two: "lift_step sample_env sample_one sample_two"
    unfolding sample_two_def using lift_call [of sample_env sample_one "Call_lift sample_request"] sample_fresh(2) by simp
  have claimed: "lift_step sample_env sample_two sample_claimed"
    unfolding sample_claimed_def using lift_call [of sample_env sample_two "Call_claimNext ''w1''"] by simp
  show "reachable sample_env sample_one" "reachable sample_env sample_two" "reachable sample_env sample_claimed"
    unfolding reachable_def using one two claimed by (meson rtranclp.intros)+
qed

section \<open>Invariants and the life cycle\<close>

text \<open>
  C19. After any sequence of calls of the publisher's operations in which every \<^verbatim>\<open>update\<close> carries progress metadata only and
  every new job gets a new id (\<open>calls_ok\<close>), a stored job has the id it is stored under, the metadata its status requires
  (\<^verbatim>\<open>assertJobMatchesStatus\<close> accepts it) and at most \<^verbatim>\<open>maxRetries\<close> retries. An \<^verbatim>\<open>update\<close> with a retry counter in its data can
  break the limit: see \<open>update_breaks_retry_limit\<close>.
\<close>

theorem lift_jobs_wellformed:
  assumes "calls_ok env init_state calls" "map_of (jobs (run_calls env calls init_state)) k = Some j"
  shows "jobId j = k \<and> assertJobMatchesStatus j = Inr () \<and> retryCount (retries j) \<le> maxRetries (retries j)"
  using reachable_good [OF calls_reachable [OF reachable_init assms(1)]] assms(2) by (simp add: good_def jobs_ok_def job_ok_def)

definition sample_calls :: "LiftCall list" where
  "sample_calls = [Call_lift sample_request, Call_lift sample_request, Call_claimNext ''w1'']"

lemma sample_calls_ok: "calls_ok sample_env init_state sample_calls" "run_calls sample_env sample_calls init_state = sample_claimed"
  using sample_fresh by (simp_all add: sample_calls_def sample_one_def [symmetric] sample_two_def [symmetric] sample_claimed_def [symmetric])

theorem lift_jobs_wellformed_witness:
  "assertJobMatchesStatus (claimed_job sample_env ''w1'' (sample_job ''j'' 0) 5) = Inr ()
   \<and> map_of (jobs (run_calls sample_env sample_calls init_state)) ''j'' = Some (claimed_job sample_env ''w1'' (sample_job ''j'' 0) 5)"
  using lift_jobs_wellformed [OF sample_calls_ok(1), of "''j''"] by (simp add: sample_calls_ok(2) sample_claim)

text \<open>
  C3. The publisher implements the life cycle of a job. After any sequence of calls as in \<open>calls_ok\<close>, a further call changes
  each job by a chain of life-cycle changes, whether the call returns or throws, or submits a new job under a new id; the call
  itself is any public operation, an \<^verbatim>\<open>update\<close> with progress metadata only and a \<^verbatim>\<open>lift\<close> with a new id (\<open>call_ok\<close>).
\<close>

theorem lift_refines_lifecycle:
  assumes "calls_ok env init_state calls" "call_ok env (run_calls env calls init_state) c"
  shows "(lifecycle k)\<^sup>*\<^sup>* (map_of (jobs (run_calls env calls init_state)) k)
       (map_of (jobs (run_call env c (run_calls env calls init_state))) k)
    \<or> (\<exists>j. map_of (jobs (run_calls env calls init_state)) k = None
         \<and> map_of (jobs (run_call env c (run_calls env calls init_state))) k = Some j \<and> submitted k j)"
  by (rule lift_step_job [OF lift_call [OF assms(2)] reachable_good [OF calls_reachable [OF reachable_init assms(1)]]])

theorem lift_refines_lifecycle_witness:
  "(lifecycle ''j'')\<^sup>*\<^sup>* (Some (sample_job ''j'' 0)) (Some (claimed_job sample_env ''w1'' (sample_job ''j'' 0) 5))"
proof -
  define two where "two = [Call_lift sample_request, Call_lift sample_request]"
  have two: "calls_ok sample_env init_state two" "run_calls sample_env two init_state = sample_two"
    using sample_fresh by (simp_all add: two_def sample_one_def [symmetric] sample_two_def [symmetric])
  show ?thesis
    using lift_refines_lifecycle [OF two(1), of "Call_claimNext ''w1''" "''j''"]
    by (simp add: two(2) sample_claim(1,2) sample_two_jobs)
qed

text \<open>
  What \<open>call_ok\<close> excludes does leave the life cycle: an \<^verbatim>\<open>update\<close> that names a retry counter writes it, beyond the limit.
\<close>

lemma update_breaks_retry_limit:
  "\<exists>j. map_of (jobs (run_call sample_env (Call_update ''j'' Accepted
       (no_data\<lparr>d_retries := Some \<lparr>retryCount = 99, maxRetries = 3, lastRetryReason = None\<rparr>\<rparr>)) sample_one)) ''j'' = Some j
     \<and> maxRetries (retries j) < retryCount (retries j)"
  by (simp add: update_def op_simps sample_one_eq refreshActiveLease_def assertJobMatchesStatus_def update_conv' split: option.splits)

text \<open>
  No operation changes the parts of a job that the code declares immutable (id, slug, request,
  acceptance time, retry limit), lowers its retry count, or takes it out of the finalized state: a
  finalized job is only ever cleared.
\<close>

theorem lift_step_keeps_identity:
  assumes "reachable env s" "lift_step env s s'" "map_of (jobs s) k = Some j" "map_of (jobs s') k = Some j'"
  shows "same_core j j' \<and> retryCount (retries j) \<le> retryCount (retries j')
    \<and> (status j = Finalized \<longrightarrow> status j' = Finalized)"
proof -
  have chain: "(lifecycle k)\<^sup>*\<^sup>* (Some j) (Some j')"
    using lift_step_job [OF assms(2) reachable_good [OF assms(1)], of k] assms(3,4) by auto
  show ?thesis
    using lifecycles_core [OF chain refl refl] lifecycles_finalized [OF chain refl] by blast
qed

theorem lift_step_keeps_identity_witness:
  "same_core (sample_job ''j'' 0) (claimed_job sample_env ''w1'' (sample_job ''j'' 0) 5)"
  using lift_step_keeps_identity [OF sample_reachable(2) lift_call [of sample_env sample_two "Call_claimNext ''w1''"], of "''j''"]
  by (simp add: sample_claim(1,2) sample_two_jobs)

section \<open>Claims\<close>

text \<open>
  \<^verbatim>\<open>claimNext\<close>, with the store of jobs and locks answering, does not throw. It returns null exactly when the publisher is paused, the wallet holds
  an unexpired active lock or no job is accepted; otherwise it claims, for the wallet, an accepted job
  that was accepted no later than any other, and locks the wallet on that job for the lease.
\<close>

theorem claimNext_outcome:
  "case claimNext env w s of
     (Inl _, _) \<Rightarrow> False
   | (Inr None, s') \<Rightarrow> jobs s' = jobs s \<and> walletLocks s' = walletLocks s
        \<and> (paused s \<or> wallet_locked env w s \<or> accepted_jobs s = [])
   | (Inr (Some c), s') \<Rightarrow>
        \<not> paused s \<and> \<not> wallet_locked env w s \<and> status c = Claimed
        \<and> map_option claim_walletId (claim c) = Some w
        \<and> (\<exists>j \<in> set (accepted_jobs s). jobId c = jobId j \<and>
             (\<forall>j' \<in> set (accepted_jobs s). acceptedAt (timestamps j) \<le> acceptedAt (timestamps j')))
        \<and> jobs s' = AList.update (jobId c) c (jobs s)
        \<and> map_option lock_jobId (map_of (walletLocks s') w) = Some (jobId c)
        \<and> map_option expiresAt (map_of (walletLocks s') w) = Some (clock env (Suc (ticks s)) + lockLeaseMs)"
proof (cases "paused s \<or> wallet_locked env w s \<or> accepted_jobs s = []")
  case True
  then show ?thesis by (auto simp: claimNext_run claim_candidate_def)
next
  case False
  let ?cmp = "compareAcceptedJobs (localeCompare env)"
  let ?sorted = "js_sort ?cmp (js_sort ?cmp (accepted_jobs s))"
  obtain j rest where j: "?sorted = j # rest" using False by (cases ?sorted) auto
  then have cand: "claim_candidate env s = Some j" by (simp add: claim_candidate_def)
  have "j \<in> set (accepted_jobs s)" using j by (metis list.set_intros(1) set_js_sort)
  moreover have "acceptedAt (timestamps j) \<le> acceptedAt (timestamps j')" if "j' \<in> set (accepted_jobs s)" for j'
    using caj.hd_sort_minimal [of j' "js_sort ?cmp (accepted_jobs s)" "localeCompare env"] that j by simp
  ultimately have "\<exists>j0 \<in> set (accepted_jobs s). jobId j = jobId j0 \<and>
      (\<forall>j' \<in> set (accepted_jobs s). acceptedAt (timestamps j0) \<le> acceptedAt (timestamps j'))"
    by blast
  then show ?thesis
    using False cand by (simp add: claimNext_run Let_def update_conv' claim_lock_def)
qed

theorem claimNext_outcome_witness:
  "\<exists>j \<in> set (accepted_jobs sample_two). jobId j = ''j'' \<and>
     (\<forall>j' \<in> set (accepted_jobs sample_two). acceptedAt (timestamps j) \<le> acceptedAt (timestamps j'))"
  using claimNext_outcome [where env = sample_env and w = "''w1''" and s = sample_two] by (auto simp: sample_claim(1))

text \<open>
  C36. Two claims one after the other never take the same job, and the same wallet gets a second job
  only when the lease of its first claim has run out.
\<close>

theorem claims_disjoint:
  assumes "reachable env s" "claimNext env w s = (Inr (Some j), s1)" "claimNext env w' s1 = (Inr (Some j'), s2)"
  shows "jobId j \<noteq> jobId j' \<and> (w' = w \<longrightarrow> clock env (Suc (ticks s)) + lockLeaseMs \<le> clock env (ticks s1))"
proof -
  obtain c where c: "claim_candidate env s = Some c" "j = claimed_job env w c (Suc (ticks s))"
    "jobs s1 = AList.update (jobId c) j (jobs s)"
    "walletLocks s1 = AList.update w (claim_lock env w c (Suc (ticks s))) (walletLocks s)"
    using assms(2) by (auto simp: claimNext_run Let_def split: if_splits option.splits)
  obtain c' where c': "claim_candidate env s1 = Some c'" "jobId j' = jobId c'" "\<not> wallet_locked env w' s1"
    using assms(3) by (auto simp: claimNext_run Let_def split: if_splits option.splits)
  have "good s1" using evolvingD [OF evolving_claimNext reachable_good [OF assms(1)], of env w] assms(2) by simp
  then have "map_of (jobs s1) (jobId c') = Some c'" using good_listed claim_candidate_status(1) [OF c'(1)] by blast
  moreover have "map_of (jobs s1) (jobId j) = Some j" using c(2,3) by (simp add: update_conv')
  moreover have "status c' = Accepted" "status j = Claimed" using claim_candidate_status(2) [OF c'(1)] c(2) by simp_all
  ultimately have "jobId j \<noteq> jobId j'" using c'(2) by (metis LiftJobState.distinct(1) option.inject)
  moreover have "clock env (Suc (ticks s)) + lockLeaseMs \<le> clock env (ticks s1)" if "w' = w"
    using c'(3) c(4) that by (simp add: wallet_locked_def update_conv' claim_lock_def)
  ultimately show ?thesis by blast
qed

theorem claims_disjoint_witness:
  "fst (claimNext sample_env ''w2'' sample_claimed) = Inr (Some (claimed_job sample_env ''w2'' (sample_job ''jjj'' 2000) 8))
   \<and> jobId (claimed_job sample_env ''w1'' (sample_job ''j'' 0) 5) \<noteq> jobId (claimed_job sample_env ''w2'' (sample_job ''jjj'' 2000) 8)"
proof -
  have "claim_candidate sample_env sample_claimed = Some (sample_job ''jjj'' 2000)"
    by (simp add: claim_candidate_def accepted_jobs_def sample_claim)
  then have second: "fst (claimNext sample_env ''w2'' sample_claimed)
      = Inr (Some (claimed_job sample_env ''w2'' (sample_job ''jjj'' 2000) 8))"
    by (simp add: claimNext_run sample_claim wallet_locked_def Let_def)
  then have "claimNext sample_env ''w2'' sample_claimed
      = (Inr (Some (claimed_job sample_env ''w2'' (sample_job ''jjj'' 2000) 8)), snd (claimNext sample_env ''w2'' sample_claimed))"
    by (metis prod.collapse)
  from claims_disjoint [OF sample_reachable(2) sample_claim(1) this] second show ?thesis by blast
qed

section \<open>Processing, recovery and retry\<close>

text \<open>
  With a publish executor configured and the store of jobs and locks answering, \<^verbatim>\<open>processNext\<close> does not throw: it returns null
  when nothing is claimed, and otherwise the claimed job as stored, included, finalized or failed, whatever the queries of the
  workspace, the validation, the executor and its result do. (A failure of the publisher's own writes is outside the model: in
  the code it escapes, as the claim and the recording of the failure are outside the \<^verbatim>\<open>try\<close>.)
\<close>

theorem processNext_verdict:
  assumes "reachable env s" "publishExecutor env = Some ex"
  shows "case fst (processNext env w s) of
      Inl _ \<Rightarrow> False
    | Inr None \<Rightarrow> fst (claimNext env w s) = Inr None
    | Inr (Some j) \<Rightarrow> status j \<in> {Included, Finalized, Failed} \<and> map_of (jobs (snd (processNext env w s))) (jobId j) = Some j"
proof -
  have good: "good s" by (rule reachable_good [OF assms(1)])
  have good': "good (snd (processNext env w s))" using evolvingD [OF evolving_processNext good] by simp
  show ?thesis
  proof (cases "paused s \<or> wallet_locked env w s \<or> claim_candidate env s = None")
    case True
    then have "fst (claimNext env w s) = Inr None" by (auto simp: claimNext_run)
    then show ?thesis using assms(2) by (simp add: processNext_def bindM_run ret_run)
  next
    case False
    then obtain j where j: "claim_candidate env s = Some j" by auto
    let ?c = "claimed_job env w j (Suc (ticks s))"
    let ?t = "snd (claimNext env w s)"
    have c: "fst (claimNext env w s) = Inr (Some ?c)" "jobs ?t = AList.update (jobId j) ?c (jobs s)"
      using False j by (simp_all add: claimNext_run Let_def)
    have "job_ok (jobId j) j" using good_listed(2) [OF good claim_candidate_status(1) [OF j]] .
    then have "at_status Claimed (jobId ?c) ?t"
      using job_ok_claimed [of "jobId j" j env w] c(2) by (simp add: at_status_def update_conv')
    from processClaimed_verdict [OF this, of env ex w] obtain r where r: "fst (processClaimed env ex w ?c ?t) = Inr r"
      "status r \<in> {Included, Finalized, Failed}" "map_of (jobs (snd (processClaimed env ex w ?c ?t))) (jobId ?c) = Some r"
      by (auto simp: verdict_def)
    have run: "fst (processNext env w s) = Inr (Some r)"
      "jobs (snd (processNext env w s)) = jobs (snd (processClaimed env ex w ?c ?t))"
      using assms(2) c(1) r(1) by (simp_all add: processNext_def bindM_run ret_run)
    then have "jobId r = jobId ?c" using good' r(3) by (auto simp: good_def jobs_ok_def job_ok_def)
    then show ?thesis using run r by simp
  qed
qed

theorem processNext_verdict_witness:
  "case fst (processNext sample_env ''w1'' sample_one) of
      Inl _ \<Rightarrow> False
    | Inr None \<Rightarrow> fst (claimNext sample_env ''w1'' sample_one) = Inr None
    | Inr (Some j) \<Rightarrow> status j \<in> {Included, Finalized, Failed}
        \<and> map_of (jobs (snd (processNext sample_env ''w1'' sample_one))) (jobId j) = Some j"
  by (rule processNext_verdict [OF sample_reachable(1)]) (simp add: sample_env_def)

text \<open>
  C37. When \<^verbatim>\<open>recover\<close> returns, no job is left claimed or validated, and without a chain resolver none is
  left broadcast either: interrupted work is claimable again, resolved from the chain, or failed.
\<close>

theorem recover_leaves_no_interrupted:
  assumes "reachable env s" "recover env s = (Inr n, s')" "map_of (jobs s') k = Some j"
  shows "status j \<noteq> Claimed \<and> status j \<noteq> Validated \<and> (chainRecoveryResolver env = None \<longrightarrow> status j \<noteq> Broadcast)"
  using recover_result [OF reachable_good [OF assms(1)] assms(2,3)] by (simp add: recovered_ok_def)

lemma sample_recover: "\<exists>s' j. recover sample_env sample_claimed = (Inr 1, s') \<and> map_of (jobs s') ''j'' = Some j"
proof -
  have none: "chainRecoveryResolver sample_env = None" by (simp add: sample_env_def)
  have active: "filter (\<lambda>j. is_active (status j)) (js_sort (compareAcceptedJobs (localeCompare sample_env))
      (map snd (jobs sample_claimed))) = [claimed_job sample_env ''w1'' (sample_job ''j'' 0) 5]"
    by (simp add: sample_claim is_active.simps)
  show ?thesis
    by (simp add: recover_def op_simps listJobs_def none active recoverJob_def resetInterrupted_def
        resetJobToAccepted_def accepted_job_def update_conv')
qed

theorem recover_leaves_no_interrupted_witness:
  "\<exists>s' j. recover sample_env sample_claimed = (Inr 1, s') \<and> map_of (jobs s') ''j'' = Some j \<and> status j \<noteq> Claimed"
  using sample_recover recover_leaves_no_interrupted [OF sample_reachable(3)] by blast

text \<open>The jobs that \<^verbatim>\<open>retry\<close> takes up again.\<close>

definition retry_eligible :: "LiftJob \<Rightarrow> bool" where
  "retry_eligible j =
     (status j = Failed \<and> retryCount (retries j) < maxRetries (retries j) \<and>
      (case failure j of None \<Rightarrow> False | Some f \<Rightarrow> retryable f \<and> resolution f \<noteq> Retry_recovery))"

lemma retryJob_result:
  assumes "map_of (jobs t) (jobId j) = Some j" "status j = Failed"
  shows "\<exists>n. fst (retryJob env j t) = Inr n"
    and "if retry_eligible j
         then \<exists>r. map_of (jobs (snd (retryJob env j t))) (jobId j) = Some r \<and> fresh_accepted r \<and> same_core j r
                \<and> retryCount (retries r) = retryCount (retries j) + 1
         else map_of (jobs (snd (retryJob env j t))) (jobId j) = Some j"
  using assms
  by (auto simp: retryJob_def op_simps resetFailedJobToAccepted_def retry_eligible_def accepted_job_def
      accepted_timestamps_def fresh_accepted_def same_core_def update_conv' split: option.splits)

lemma countM_total: "(\<And>x s. x \<in> set xs \<Longrightarrow> \<exists>n. fst (f x s) = Inr n) \<Longrightarrow> \<exists>n. fst (countM xs f s) = Inr n"
proof (induction xs arbitrary: s)
  case (Cons x xs)
  then obtain n m where "fst (f x s) = Inr n" "fst (countM xs f (snd (f x s))) = Inr m" by fastforce
  then show ?case by (simp add: bindM_run ret_run)
qed (simp add: ret_run)

text \<open>
  \<^verbatim>\<open>retry\<close>, with the store of jobs and locks answering, does not throw and treats every job by its policy: a failed job whose failure is retryable,
  is not left to \<^verbatim>\<open>recover\<close> and has retries left becomes accepted again, with one retry more and without
  the metadata of the failed attempt; every other job stays exactly as it is.
\<close>

theorem retry_outcome:
  assumes "reachable env s" "map_of (jobs s) k = Some j"
  shows "(\<exists>n. fst (retry env s) = Inr n) \<and>
    (if retry_eligible j
     then \<exists>r. map_of (jobs (snd (retry env s))) k = Some r \<and> fresh_accepted r \<and> same_core j r
            \<and> retryCount (retries r) = retryCount (retries j) + 1
     else map_of (jobs (snd (retry env s))) k = Some j)"
proof -
  have good: "good s" by (rule reachable_good [OF assms(1)])
  have kj: "jobId j = k" using good assms(2) by (auto simp: good_def jobs_ok_def job_ok_def)
  let ?xs = "filter isFailedJob (js_sort (compareAcceptedJobs (localeCompare env))
      (filter (\<lambda>j. status j = Failed) (map snd (jobs s))))"
  let ?s = "s\<lparr>graphEnsured := True\<rparr>"
  have run: "retry env s = countM ?xs (retryJob env) ?s"
    by (simp add: retry_def bindM_run ensureGraph_run listJobs_def getM_run)
  have total: "\<exists>n. fst (retryJob env x t) = Inr n" for x t
    by (auto simp: retryJob_def op_simps resetFailedJobToAccepted_def split: option.splits)
  then obtain n where n: "fst (countM ?xs (retryJob env) ?s) = Inr n"
    using countM_total [of ?xs "retryJob env" ?s] by blast
  let ?R = "\<lambda>j y. if retry_eligible j then \<exists>r. y = Some r \<and> fresh_accepted r \<and> same_core j r
      \<and> retryCount (retries r) = retryCount (retries j) + 1 else y = Some j"
  have "if isFailedJob j \<and> status j = Failed then ?R j (map_of (jobs (snd (retry env s))) k)
        else map_of (jobs (snd (retry env s))) k = Some j"
  proof (rule listing_returns [OF good _ _ _ _ assms(2)])
    show "jobs ?s = jobs s" by simp
    show "evolves_at (jobId j) t (snd (retryJob env j t))"
      if "status j = Failed" "job_ok (jobId j) j" "map_of (jobs t) (jobId j) = Some j" for j t
      using retryJob_evolves that by blast
    show "?R j (map_of (jobs (snd (retryJob env j t))) (jobId j))"
      if "status j = Failed" "map_of (jobs t) (jobId j) = Some j" for j t
      using retryJob_result(2) that by blast
    show "countM ?xs (retryJob env) ?s = (Inr n, snd (retry env s))" using n run by (metis prod.collapse)
  qed
  moreover have "isFailedJob j" if "retry_eligible j"
    using that by (auto simp: retry_eligible_def isFailedJob_def split: option.splits)
  moreover have "status j = Failed" if "isFailedJob j" using that by (simp add: isFailedJob_def)
  ultimately show ?thesis using n run by (cases "isFailedJob j") auto
qed

theorem retry_outcome_witness:
  "\<not> retry_eligible (sample_job ''j'' 0) \<and> map_of (jobs (snd (retry sample_env sample_one))) ''j'' = Some (sample_job ''j'' 0)"
proof -
  have "\<not> retry_eligible (sample_job ''j'' 0)" by (simp add: retry_eligible_def)
  then show ?thesis
    using retry_outcome [OF sample_reachable(1), of "''j''" "sample_job ''j'' 0"] by (simp add: sample_one_eq)
qed

text \<open>
  C38. A failure after inclusion whose message speaks of a revert, a nonce or insufficient funds cannot be
  recorded: its code is legal only before inclusion, so \<^verbatim>\<open>recordPublishFailure\<close> throws and the job stays
  as it was instead of being failed.
\<close>

theorem included_failure_not_recorded:
  assumes "map_of (jobs s) k = Some j" "in_failedFromState inp = Included"
    and "let m = toLowerCase (error_message inp) in
      (str_includes m ''revert'' \<or> str_includes m ''nonce'' \<or> str_includes m ''insufficient funds'')
      \<and> \<not> str_includes m ''timeout'' \<and> \<not> str_includes m ''timed out''"
  shows "(\<exists>e. fst (recordPublishFailure env k inp s) = Inl e) \<and> jobs (snd (recordPublishFailure env k inp s)) = jobs s"
proof -
  have "\<exists>e. mapPublishExceptionToLiftJobFailure inp = Inl e"
    using assms(2,3)
    by (auto simp: mapPublishExceptionToLiftJobFailure_def createLiftJobFailureMetadata_def classifyPublishFailureCode_def Let_def)
  then show ?thesis
    using assms(1) by (auto simp: recordPublishFailure_def op_simps)
qed

definition sample_included :: LiftState where
  "sample_included = sample_one\<lparr>jobs := [(''j'', (sample_job ''j'' 0)\<lparr>status := Included\<rparr>)]\<rparr>"

definition sample_revert :: AsyncLiftPublishFailureInput where
  "sample_revert = \<lparr>error_message = ''execution reverted'', in_failedFromState = Included, in_errorPayloadRef = ''e'',
     in_stackTraceRef = None, in_rpcResponseRef = None, in_revertReasonRef = None, in_timeout = None\<rparr>"

theorem included_failure_not_recorded_witness:
  "map_of (jobs (snd (recordPublishFailure sample_env ''j'' sample_revert sample_included))) ''j''
     = Some ((sample_job ''j'' 0)\<lparr>status := Included\<rparr>)"
proof -
  have "let m = toLowerCase (error_message sample_revert) in
      (str_includes m ''revert'' \<or> str_includes m ''nonce'' \<or> str_includes m ''insufficient funds'')
      \<and> \<not> str_includes m ''timeout'' \<and> \<not> str_includes m ''timed out''" by code_simp
  moreover have "map_of (jobs sample_included) ''j'' = Some ((sample_job ''j'' 0)\<lparr>status := Included\<rparr>)"
    by (simp add: sample_included_def)
  ultimately show ?thesis
    using included_failure_not_recorded [of sample_included "''j''" _ sample_revert sample_env]
    by (simp add: sample_revert_def)
qed

section \<open>The slice that is published\<close>

lemma canonicalizeQuads_subject:
  "q \<in> set (canonicalizeQuads m xs) \<Longrightarrow> subject q \<in> canonicalizeTerm m ` subject ` set xs"
  by (auto simp: canonicalizeQuads_def)

text \<open>
  C12. Validation that succeeds renames the requested root entities consistently: the canonical roots are
  as many as the requested ones and pairwise distinct, every subject of the validated slice is a
  canonical root or a skolemized child of one, and two different subjects keep different names.
\<close>

theorem validated_slice_canonical:
  assumes "validateLiftPublishPayload h req resolved = Inr p"
  shows "distinct (canonicalRoots (payload_validation p))
    \<and> length (canonicalRoots (payload_validation p)) = length (normalizeRoots (roots req))
    \<and> (\<forall>q \<in> set (quads (payload_resolved p)) \<union> set (private_list (payload_resolved p)).
         isRootOrSkolemDescendant (subject q) (canonicalRoots (payload_validation p)))
    \<and> inj_on (canonicalizeTerm (canonicalRootMap (payload_validation p)))
         (subject ` (set (quads resolved) \<union> set (private_list resolved)))"
proof -
  note v = validate_Inr [OF assms]
  note dist = rootMap_distinct [OF v(10)]
  have "isRootOrSkolemDescendant (subject q) (canonicalRoots (payload_validation p))"
    if q: "q \<in> set (quads (payload_resolved p)) \<union> set (private_list (payload_resolved p))" for q
  proof -
    have priv: "private_list (payload_resolved p) = canonicalizeQuads (rootMapOf h req) (private_list resolved)"
      by (cases "privateQuads resolved") (simp_all add: v(8) canonicalizeQuads_def)
    have "subject q \<in> canonicalizeTerm (rootMapOf h req) ` subject ` (set (quads resolved) \<union> set (private_list resolved))"
      using q canonicalizeQuads_subject [of q _ "quads resolved"] canonicalizeQuads_subject [of q _ "private_list resolved"]
      unfolding priv v(7) image_Un by blast
    then obtain q0 where q0: "q0 \<in> set (quads resolved) \<union> set (private_list resolved)"
      "subject q = canonicalizeTerm (rootMapOf h req) (subject q0)" by blast
    show ?thesis unfolding v(2) q0(2) by (rule canonicalizeTerm_descends) (use v(9) q0(1) in blast)
  qed
  moreover have "inj_on (canonicalizeTerm (canonicalRootMap (payload_validation p)))
         (subject ` (set (quads resolved) \<union> set (private_list resolved)))"
    unfolding v(1)
  proof (rule inj_onI)
    fix x y
    assume "x \<in> subject ` (set (quads resolved) \<union> set (private_list resolved))"
      "y \<in> subject ` (set (quads resolved) \<union> set (private_list resolved))"
      and eq: "canonicalizeTerm (rootMapOf h req) x = canonicalizeTerm (rootMapOf h req) y"
    then have "isRootOrSkolemDescendant x (normalizeRoots (roots req))"
      "isRootOrSkolemDescendant y (normalizeRoots (roots req))" using v(9) by blast+
    then show "x = y" using canonicalizeTerm_inj [OF dist] eq by blast
  qed
  ultimately show ?thesis using dist v(2) by auto
qed

definition sample_slice :: LiftResolvedPublishSlice where
  "sample_slice =
     \<lparr>quads = [\<lparr>subject = ''urn:a'', predicate = ''urn:p'', object = ''urn:b'', graph = []\<rparr>], privateQuads = None,
      publisherPeerId = None, accessPolicy = None, allowedPeers = None, entityProofs = None, targetGraphUri = None,
      targetMetaGraphUri = None, publishContextGraphId = None\<rparr>"

lemma sample_validated: "\<exists>p. validateLiftPublishPayload (\<lambda>_. zero32) sample_request sample_slice = Inr p"
proof -
  have "case validateLiftPublishPayload (\<lambda>_. zero32) sample_request sample_slice of Inl _ \<Rightarrow> False | Inr _ \<Rightarrow> True"
    by code_simp
  then show ?thesis by (auto split: sum.splits)
qed

theorem validated_slice_canonical_witness:
  "\<exists>p. validateLiftPublishPayload (\<lambda>_. zero32) sample_request sample_slice = Inr p
     \<and> distinct (canonicalRoots (payload_validation p))"
  using sample_validated validated_slice_canonical [of "\<lambda>_. zero32" sample_request sample_slice] by blast

text \<open>
  A slice that validation accepts, with a peer and no explicit policy, always maps to publish options:
  the checks on authority, transition type and prior version cannot fail any more. The options carry
  the validated quads, and are public exactly when there are no private ones.
\<close>

theorem validated_slice_publishable:
  assumes "validateLiftPublishPayload h req resolved = Inr p" "accessPolicy (payload_resolved p) = None"
    and "allowedPeers (payload_resolved p) = None"
    and "map_option str_trim (publisherPeerId (payload_resolved p)) \<notin> {None, Some []}"
  shows "\<exists>po. mapLiftRequestToPublishOptions req (payload_validation p) (payload_resolved p) = Inr po
    \<and> po_quads po = quads (payload_resolved p)
    \<and> (po_accessPolicy po = Public \<longleftrightarrow> private_list (payload_resolved p) = [])"
proof -
  note v = validate_Inr [OF assms(1)]
  have "str_trim (authorityProofRef (payload_validation p)) \<noteq> []" using v(3,4) by simp
  then show ?thesis
    using v(5,6) assms(2,3,4) by (auto simp: mapLiftRequestToPublishOptions_def Let_def throw_if_def js_unique_def)
qed

theorem validated_slice_publishable_witness:
  "\<exists>p po. validateLiftPublishPayload (\<lambda>_. zero32) sample_request (sample_slice\<lparr>publisherPeerId := Some ''peer''\<rparr>) = Inr p
     \<and> mapLiftRequestToPublishOptions sample_request (payload_validation p) (payload_resolved p) = Inr po"
proof -
  let ?s = "sample_slice\<lparr>publisherPeerId := Some ''peer''\<rparr>"
  have "case validateLiftPublishPayload (\<lambda>_. zero32) sample_request ?s of Inl _ \<Rightarrow> False
     | Inr p \<Rightarrow> accessPolicy (payload_resolved p) = None \<and> allowedPeers (payload_resolved p) = None
         \<and> map_option str_trim (publisherPeerId (payload_resolved p)) = Some ''peer''"
    by code_simp
  then obtain p where "validateLiftPublishPayload (\<lambda>_. zero32) sample_request ?s = Inr p"
    "accessPolicy (payload_resolved p) = None" "allowedPeers (payload_resolved p) = None"
    "map_option str_trim (publisherPeerId (payload_resolved p)) = Some ''peer''"
    by (auto split: sum.splits)
  then show ?thesis
    using validated_slice_publishable [of "\<lambda>_. zero32" sample_request ?s p] by auto
qed

text \<open>
  Subtraction removes exactly the quads of confirmed roots that the authoritative graph already
  holds: the rest is kept in order, and the count is the number of quads removed.
\<close>

theorem subtraction_exact:
  assumes "[] \<notin> set confirmedRoots"
  shows "subtractGraphExactMatches qs confirmedRoots keys =
    (filter (\<lambda>q. \<not> (isRootOrSkolemDescendant (subject q) confirmedRoots \<and> toQuadKey q \<in> set keys)) qs,
     length qs - length (filter (\<lambda>q. \<not> (isRootOrSkolemDescendant (subject q) confirmedRoots \<and> toQuadKey q \<in> set keys)) qs))"
  using sum_length_filter_compl [of "already_published confirmedRoots keys" qs]
  by (simp add: subtractGraphExactMatches_def subtractLoop_filter [OF assms] already_published_def)

theorem subtraction_exact_witness:
  "subtractGraphExactMatches (quads sample_slice) [''urn:a''] [''urn:a urn:p urn:b''] = ([], 1)"
proof -
  have "filter (\<lambda>q. \<not> (isRootOrSkolemDescendant (subject q) [''urn:a''] \<and> toQuadKey q \<in> set [''urn:a urn:p urn:b'']))
      (quads sample_slice) = []" by code_simp
  moreover have "length (quads sample_slice) = 1" by code_simp
  ultimately show ?thesis
    using subtraction_exact [of "[''urn:a'']" "quads sample_slice" "[''urn:a urn:p urn:b'']"] by simp
qed

text \<open>
  A string spliced into SPARQL by \<^verbatim>\<open>sparqlString\<close> is one complete literal, whatever characters it has,
  and different strings give different literals; the same holds of the literals of the control plane,
  which \<^verbatim>\<open>JSON.parse\<close> reads back.
\<close>

theorem sparql_literals_safe:
  "assertSafeRdfTerm (sparqlString v) = Inr () \<and> (sparqlString v = sparqlString w \<longleftrightarrow> v = w)
   \<and> assertSafeRdfTerm (json_string v) = Inr () \<and> json_parse_string (json_string v) = Some v"
proof -
  have "assertSafeRdfTerm (sparqlString v) = Inr ()"
    using literal_body_escape [of v] by (simp add: sparqlString_def assertSafeRdfTerm_def SAFE_RDF_LITERAL_def)
  then show ?thesis using escape_inj [of v w] by (simp add: sparqlString_def)
qed

end
