(* ===== verification/LiftControlPlane.thy ===== *)
theory LiftControlPlane
  imports LiftPublisher
begin

text \<open>
  How the asynchronous publisher keeps its jobs in the triple store:
  \<^verbatim>\<open>packages/publisher/src/async-lift-control-plane.ts\<close> turns a job and a wallet lock into quads, and
  \<^verbatim>\<open>writeJob\<close> and \<^verbatim>\<open>deleteJob\<close> replace and remove them. The lemmas show that the quads of the control
  graph represent the map of jobs that the theory \<open>LiftPublisher\<close> works on: the look-up of a job by its
  payload and the look-up of the jobs with a status give what the map gives, after every write and
  every removal.

  The store is the list of its quads; an insertion keeps the quads that are there. The JSON text of a
  job is the parameter \<open>json\<close>.
\<close>

section \<open>Serialization\<close>

definition XSD_INTEGER :: string where
  "XSD_INTEGER = ''http://www.w3.org/2001/XMLSchema#integer''"

definition XSD_BOOLEAN :: string where
  "XSD_BOOLEAN = ''http://www.w3.org/2001/XMLSchema#boolean''"

definition DEFAULT_CONTROL_GRAPH_URI :: string where
  "DEFAULT_CONTROL_GRAPH_URI = ''urn:dkg:publisher:control-plane''"

definition RDF_TYPE_PREDICATE :: string where
  "RDF_TYPE_PREDICATE = ''http://www.w3.org/1999/02/22-rdf-syntax-ns#type''"

text \<open>The vocabulary of the control plane: every constant \<^verbatim>\<open>CONTROL_*\<close> is this prefix and a local name.\<close>

definition control :: "string \<Rightarrow> string" where
  "control name = ''urn:dkg:publisher:'' @ name"

definition quad :: "string \<Rightarrow> string \<Rightarrow> string \<Rightarrow> string \<Rightarrow> Quad" where
  "quad s p ob g = \<lparr>subject = s, predicate = p, object = ob, graph = g\<rparr>"

definition iri :: "string \<Rightarrow> string" where
  "iri value = ''<'' @ value @ ''>''"

definition literal :: "string \<Rightarrow> string" where
  "literal value = json_string value"

definition integer :: "int \<Rightarrow> string" where
  "integer value = [QUOTE] @ show_int value @ [QUOTE] @ ''^^<'' @ XSD_INTEGER @ ''>''"

definition boolean :: "bool \<Rightarrow> string" where
  "boolean value = [QUOTE] @ (if value then ''true'' else ''false'') @ [QUOTE] @ ''^^<'' @ XSD_BOOLEAN @ ''>''"

definition pushOptional :: "string \<Rightarrow> string \<Rightarrow> 'a option \<Rightarrow> string \<Rightarrow> ('a \<Rightarrow> string) \<Rightarrow> Quad list" where
  "pushOptional s p value g formatter =
     (case value of None \<Rightarrow> [] | Some v \<Rightarrow> [quad s p (formatter v) g])"

definition lock_status_text :: "WalletLockStatus \<Rightarrow> string" where
  "lock_status_text st = (case st of Lock_active \<Rightarrow> ''active'' | Lock_expired \<Rightarrow> ''expired'' | Lock_released \<Rightarrow> ''released'')"

definition serializeWalletLock :: "WalletLockRecord \<Rightarrow> string \<Rightarrow> Quad list" where
  "serializeWalletLock l g =
     (let s = walletLockSubject (lock_walletId l)
      in [quad s RDF_TYPE_PREDICATE (iri (control ''WalletLock'')) g,
          quad s (control ''walletId'') (literal (lock_walletId l)) g,
          quad s (control ''lockedJob'') (iri (jobSubject (lock_jobId l))) g,
          quad s (control ''lockStatus'') (literal (lock_status_text (lock_status l))) g,
          quad s (control ''lockAcquiredAt'') (integer (acquiredAt l)) g,
          quad s (control ''lockExpiresAt'') (integer (expiresAt l)) g]
         @ (case lock_claimToken l of
              None \<Rightarrow> []
            | Some t \<Rightarrow> if t = [] then [] else [quad s (control ''claimToken'') (literal t) g])
         @ pushOptional s (control ''lockLastHeartbeatAt'') (lastHeartbeatAt l) g integer)"

definition serializeRequest :: "LiftRequest \<Rightarrow> string \<Rightarrow> string \<Rightarrow> Quad list" where
  "serializeRequest req s g =
     [quad s RDF_TYPE_PREDICATE (iri (control ''LiftRequest'')) g,
      quad s (control ''contextGraphId'') (literal (contextGraphId req)) g,
      quad s (control ''scope'') (literal (scope req)) g,
      quad s (control ''namespace'') (literal (namespace req)) g,
      quad s (control ''transitionType'') (literal (transition_text (transitionType req))) g,
      quad s (control ''shareOperationId'') (literal (shareOperationId req)) g,
      quad s (control ''authorityType'') (literal (authority_text (auth_type (authority req)))) g,
      quad s (control ''authorityProofRef'') (literal (proofRef (authority req))) g,
      quad s (control ''swmId'') (literal (swmId req)) g]
     @ map (\<lambda>r. quad s (control ''root'') (literal r) g) (roots req)
     @ pushOptional s (control ''priorVersion'') (priorVersion req) g literal"

fun finalization_mode_text :: "FinalizationMode \<Rightarrow> string" where
  "finalization_mode_text Published = ''published''"
| "finalization_mode_text Noop = ''noop''"

fun recovery_action_text :: "RecoveryAction \<Rightarrow> string" where
  "recovery_action_text Recovery_reset_to_accepted = ''reset_to_accepted''"
| "recovery_action_text Finalized_from_chain = ''finalized_from_chain''"

definition serializeFailure :: "LiftJobFailureMetadata \<Rightarrow> string \<Rightarrow> string \<Rightarrow> Quad list" where
  "serializeFailure f s g =
     [quad s (control ''failureCode'') (literal (code_text (code f))) g,
      quad s (control ''failurePhase'') (literal (phase_text (phase f))) g,
      quad s (control ''failureMode'') (literal (mode_text (mode f))) g,
      quad s (control ''failureRetryable'') (boolean (retryable f)) g,
      quad s (control ''failureResolution'') (literal (resolution_text (resolution f))) g,
      quad s (control ''failureMessage'') (literal (message f)) g,
      quad s (control ''errorPayloadRef'') (literal (errorPayloadRef f)) g]
     @ pushOptional s (control ''stackTraceRef'') (stackTraceRef f) g literal
     @ pushOptional s (control ''rpcResponseRef'') (rpcResponseRef f) g literal
     @ pushOptional s (control ''revertReasonRef'') (revertReasonRef f) g literal
     @ pushOptional s (control ''timeoutMs'') (map_option timeoutMs (timeout f)) g integer
     @ pushOptional s (control ''timeoutAt'') (map_option timeoutAt (timeout f)) g integer
     @ pushOptional s (control ''timeoutHandling'') (map_option handling (timeout f)) g (\<lambda>h. literal (resolution_text h))"

definition serializeTimestamps :: "LiftJob \<Rightarrow> string \<Rightarrow> string \<Rightarrow> Quad list" where
  "serializeTimestamps j s g =
     pushOptional s (control ''claimedAt'') (claimedAt (timestamps j)) g integer
     @ pushOptional s (control ''validatedAt'') (validatedAt (timestamps j)) g integer
     @ pushOptional s (control ''broadcastAt'') (broadcastAt (timestamps j)) g integer
     @ pushOptional s (control ''includedAt'') (includedAt (timestamps j)) g integer
     @ pushOptional s (control ''finalizedAt'') (finalizedAt (timestamps j)) g integer
     @ pushOptional s (control ''failedAt'') (failedAt (timestamps j)) g integer
     @ pushOptional s (control ''lastRetriedAt'') (lastRetriedAt (timestamps j)) g integer
     @ pushOptional s (control ''nextRetryAt'') (nextRetryAt (timestamps j)) g integer
     @ pushOptional s (control ''lastRecoveredAt'') (lastRecoveredAt (timestamps j)) g integer
     @ pushOptional s (control ''lastRetryReason'') (lastRetryReason (retries j)) g literal
     @ pushOptional s (control ''jobRef'') (case controlPlane j of None \<Rightarrow> None | Some c \<Rightarrow> jobRef c) g iri
     @ pushOptional s (control ''walletLockRef'') (case controlPlane j of None \<Rightarrow> None | Some c \<Rightarrow> walletLockRef c) g iri"

definition serializeProgress :: "LiftJob \<Rightarrow> string \<Rightarrow> string \<Rightarrow> Quad list" where
  "serializeProgress j s g =
     (case claim j of None \<Rightarrow> []
      | Some c \<Rightarrow> quad s (control ''walletId'') (literal (claim_walletId c)) g
          # pushOptional s (control ''claimedBy'') (claimedBy c) g literal
          @ pushOptional s (control ''claimToken'') (claimToken c) g literal
          @ pushOptional s (control ''claimLeaseExpiresAt'') (claimLeaseExpiresAt c) g integer)
     @ (case validation j of None \<Rightarrow> []
        | Some v \<Rightarrow> pushOptional s (control ''priorVersion'') (val_priorVersion v) g literal
            @ [quad s (control ''authorityProofRef'') (literal (authorityProofRef v)) g])
     @ (case broadcast j of None \<Rightarrow> []
        | Some b \<Rightarrow> [quad s (control ''txHash'') (literal (bc_txHash b)) g,
                     quad s (control ''walletId'') (literal (bc_walletId b)) g]
            @ pushOptional s (control ''merkleRoot'') (bc_merkleRoot b) g literal
            @ pushOptional s (control ''publicByteSize'') (map_option int (bc_publicByteSize b)) g integer)
     @ (case inclusion j of None \<Rightarrow> []
        | Some i \<Rightarrow> quad s (control ''blockNumber'') (integer (blockNumber i)) g
            # pushOptional s (control ''blockHash'') (blockHash i) g literal
            @ pushOptional s (control ''blockTimestamp'') (blockTimestamp i) g integer)
     @ (case finalization j of None \<Rightarrow> []
        | Some f \<Rightarrow> pushOptional s (control ''finalizationMode'') (map_option finalization_mode_text (fin_mode f)) g literal
            @ pushOptional s (control ''ual'') (fin_ual f) g literal
            @ pushOptional s (control ''batchId'') (fin_batchId f) g literal
            @ pushOptional s (control ''startKAId'') (fin_startKAId f) g literal
            @ pushOptional s (control ''endKAId'') (fin_endKAId f) g literal
            @ pushOptional s (control ''publisherAddress'') (fin_publisherAddress f) g literal)
     @ (case failure j of None \<Rightarrow> [] | Some f \<Rightarrow> serializeFailure f s g)
     @ (case recovery j of None \<Rightarrow> []
        | Some r \<Rightarrow> [quad s (control ''recoveryAction'') (literal (recovery_action_text (action r))) g,
                     quad s (control ''recoveredFromStatus'') (literal (state_text (recoveredFromStatus r))) g]
            @ pushOptional s (control ''txHashChecked'') (txHashChecked r) g literal)"

definition serializeJob :: "(LiftJob \<Rightarrow> string) \<Rightarrow> LiftJob \<Rightarrow> string \<Rightarrow> Quad list" where
  "serializeJob json j g =
     (let s = jobSubject (jobId j); r = requestSubject (jobId j)
      in [quad s RDF_TYPE_PREDICATE (iri (control ''LiftJob'')) g,
          quad s (control ''hasRequest'') (iri r) g,
          quad s (control ''status'') (literal (state_text (status j))) g,
          quad s (control ''jobSlug'') (literal (jobSlug j)) g,
          quad s (control ''payload'') (literal (json j)) g,
          quad s (control ''acceptedAt'') (integer (acceptedAt (timestamps j))) g,
          quad s (control ''updatedAt'') (integer (updatedAt (timestamps j))) g,
          quad s (control ''retryCount'') (integer (int (retryCount (retries j)))) g,
          quad s (control ''maxRetries'') (integer (int (maxRetries (retries j)))) g]
         @ serializeRequest (request j) r g
         @ serializeTimestamps j s g
         @ serializeProgress j s g)"

section \<open>The store\<close>

definition store_insert :: "Quad list \<Rightarrow> Quad list \<Rightarrow> Quad list" where
  "store_insert new store = fold set_add new store"

definition deleteBySubject :: "string \<Rightarrow> string \<Rightarrow> Quad list \<Rightarrow> Quad list" where
  "deleteBySubject s g store = filter (\<lambda>q. \<not> (subject q = s \<and> graph q = g)) store"

definition writeJobQuads :: "(LiftJob \<Rightarrow> string) \<Rightarrow> string \<Rightarrow> LiftJob \<Rightarrow> Quad list \<Rightarrow> Quad list" where
  "writeJobQuads json g j store =
     store_insert (serializeJob json j g) (deleteBySubject (jobSubject (jobId j)) g store)"

definition deleteJobQuads :: "string \<Rightarrow> string \<Rightarrow> Quad list \<Rightarrow> Quad list" where
  "deleteJobQuads g k store =
     deleteBySubject (requestSubject k) g (deleteBySubject (jobSubject k) g store)"

text \<open>The objects of a subject and a predicate: the triple pattern of the look-ups.\<close>

definition objects_of :: "string \<Rightarrow> Quad list \<Rightarrow> string \<Rightarrow> string \<Rightarrow> string set" where
  "objects_of g store s p = {object q | q. q \<in> set store \<and> subject q = s \<and> predicate q = p \<and> graph q = g}"

definition represents :: "(LiftJob \<Rightarrow> string) \<Rightarrow> string \<Rightarrow> Quad list \<Rightarrow> (string \<times> LiftJob) list \<Rightarrow> bool" where
  "represents json g store js \<longleftrightarrow>
     (\<forall>k. objects_of g store (jobSubject k) (control ''payload'')
            = (case map_of js k of None \<Rightarrow> {} | Some j \<Rightarrow> {literal (json j)}) \<and>
          objects_of g store (jobSubject k) (control ''status'')
            = (case map_of js k of None \<Rightarrow> {} | Some j \<Rightarrow> {literal (state_text (status j))}))"

section \<open>The quads represent the jobs\<close>

lemma subject_simps [simp]:
  "jobSubject a = jobSubject b \<longleftrightarrow> a = b" "jobSubject a \<noteq> requestSubject b" "requestSubject b \<noteq> jobSubject a"
  by (simp_all add: jobSubject_def requestSubject_def)

lemma control_inj [simp]: "control a = control b \<longleftrightarrow> a = b"
  by (simp add: control_def)

lemma control_not_type [simp]: "control a \<noteq> RDF_TYPE_PREDICATE" "RDF_TYPE_PREDICATE \<noteq> control a"
  by (simp_all add: control_def RDF_TYPE_PREDICATE_def)

lemma quad_sel [simp]:
  "subject (quad s p ob g) = s" "predicate (quad s p ob g) = p" "object (quad s p ob g) = ob" "graph (quad s p ob g) = g"
  by (simp_all add: quad_def)

text \<open>The predicates of the optional quads.\<close>

lemma in_pushOptional:
  "q \<in> set (pushOptional s p v g f) \<Longrightarrow> subject q = s \<and> predicate q = p \<and> graph q = g"
  by (auto simp: pushOptional_def split: option.splits)

definition other_predicate :: "string \<Rightarrow> Quad \<Rightarrow> bool" where
  "other_predicate s q \<longleftrightarrow> subject q = s \<and> predicate q \<noteq> control ''payload'' \<and> predicate q \<noteq> control ''status''"

lemma other_pushOptional:
  "p \<noteq> control ''payload'' \<Longrightarrow> p \<noteq> control ''status'' \<Longrightarrow> list_all (other_predicate s) (pushOptional s p v g f)"
  by (auto simp: list_all_iff other_predicate_def dest: in_pushOptional)

lemma other_quad: "p \<noteq> control ''payload'' \<Longrightarrow> p \<noteq> control ''status'' \<Longrightarrow> other_predicate s (quad s p ob g)"
  by (simp add: other_predicate_def)

lemma other_Timestamps: "list_all (other_predicate s) (serializeTimestamps j s g)"
  by (simp add: serializeTimestamps_def other_pushOptional)

lemma other_Failure: "list_all (other_predicate s) (serializeFailure f s g)"
  by (simp add: serializeFailure_def other_pushOptional other_quad)

lemma other_Progress: "list_all (other_predicate s) (serializeProgress j s g)"
  unfolding serializeProgress_def list_all_append
  by (intro conjI; simp add: other_pushOptional other_quad other_Failure split: option.split)

lemma subject_Request: "q \<in> set (serializeRequest req s g) \<Longrightarrow> subject q = s"
  by (auto simp: serializeRequest_def dest: in_pushOptional)

lemma objects_Nil [simp]: "objects_of g [] s p = {}"
  by (simp add: objects_of_def)

lemma objects_Cons: "objects_of g (q # qs) s p =
    (if subject q = s \<and> predicate q = p \<and> graph q = g then insert (object q) (objects_of g qs s p) else objects_of g qs s p)"
  by (auto simp: objects_of_def)

lemma objects_append: "objects_of g (xs @ ys) s p = objects_of g xs s p \<union> objects_of g ys s p"
  by (auto simp: objects_of_def)

text \<open>Of the quads of one job only one carries the payload and one the status, under the job's subject.\<close>

lemma serializeJob_objects:
  assumes "p = control ''payload'' \<or> p = control ''status''"
  shows "objects_of g (serializeJob json j g) (jobSubject k) p =
    (if k = jobId j then {if p = control ''payload'' then literal (json j) else literal (state_text (status j))} else {})"
proof -
  let ?s = "jobSubject (jobId j)"
  let ?rest = "serializeTimestamps j ?s g @ serializeProgress j ?s g"
  have "list_all (other_predicate ?s) ?rest" using other_Timestamps other_Progress by simp
  then have none: "objects_of g ?rest (jobSubject k) p = {}"
    using assms by (auto simp: objects_of_def list_all_iff other_predicate_def)
  have req: "objects_of g (serializeRequest (request j) (requestSubject (jobId j)) g) (jobSubject k) p = {}"
    by (auto simp: objects_of_def dest: subject_Request)
  let ?head = "[quad ?s RDF_TYPE_PREDICATE (iri (control ''LiftJob'')) g,
          quad ?s (control ''hasRequest'') (iri (requestSubject (jobId j))) g,
          quad ?s (control ''status'') (literal (state_text (status j))) g,
          quad ?s (control ''jobSlug'') (literal (jobSlug j)) g,
          quad ?s (control ''payload'') (literal (json j)) g,
          quad ?s (control ''acceptedAt'') (integer (acceptedAt (timestamps j))) g,
          quad ?s (control ''updatedAt'') (integer (updatedAt (timestamps j))) g,
          quad ?s (control ''retryCount'') (integer (int (retryCount (retries j)))) g,
          quad ?s (control ''maxRetries'') (integer (int (maxRetries (retries j)))) g]"
  have "objects_of g (serializeJob json j g) (jobSubject k) p
      = objects_of g ?head (jobSubject k) p
        \<union> objects_of g (serializeRequest (request j) (requestSubject (jobId j)) g) (jobSubject k) p
        \<union> objects_of g ?rest (jobSubject k) p"
    by (simp add: serializeJob_def Let_def objects_append objects_Cons)
  moreover have "objects_of g ?head (jobSubject k) p = (if k = jobId j
      then {if p = control ''payload'' then literal (json j) else literal (state_text (status j))} else {})"
    using assms by (elim disjE) (simp_all add: objects_Cons)
  ultimately show ?thesis using none req by simp
qed

lemma objects_insert: "objects_of g (store_insert new store) s p = objects_of g new s p \<union> objects_of g store s p"
  by (auto simp: objects_of_def store_insert_def)

lemma objects_delete: "objects_of g (deleteBySubject s' g store) s p = (if s = s' then {} else objects_of g store s p)"
  by (auto simp: objects_of_def deleteBySubject_def)

lemma represents_write:
  assumes "represents json g store js"
  shows "represents json g (writeJobQuads json g j store) (AList.update (jobId j) j js)"
  using assms unfolding represents_def writeJobQuads_def objects_insert objects_delete
  by (auto simp: serializeJob_objects update_conv')

lemma represents_delete:
  assumes "represents json g store js"
  shows "represents json g (deleteJobQuads g k store) (AList.delete k js)"
  using assms unfolding represents_def deleteJobQuads_def objects_delete
  by (auto simp: delete_conv')

text \<open>
  C20. The quads of the control graph implement the map of jobs: whatever quads represent the jobs before a
  write or a removal, the quads after it represent the updated map, so that the look-up of a payload
  finds exactly the last job written under an id and the look-up by status finds it under its status.
\<close>

theorem control_graph_refines_jobs:
  assumes "represents json g store (jobs s)"
  shows "represents json g (writeJobQuads json g j store) (jobs (snd (writeJob j s)))
    \<and> represents json g (deleteJobQuads g k store) (jobs (snd (deleteJob k s)))"
  using represents_write [OF assms] represents_delete [OF assms]
  by (simp add: writeJob_def deleteJob_def modM_def)

theorem control_graph_refines_jobs_witness:
  "represents (\<lambda>_. ''{}'') DEFAULT_CONTROL_GRAPH_URI (deleteJobQuads DEFAULT_CONTROL_GRAPH_URI ''a'' [])
     (jobs (snd (deleteJob ''a'' init_state)))"
proof -
  have "represents (\<lambda>_. ''{}'') DEFAULT_CONTROL_GRAPH_URI [] (jobs init_state)"
    by (simp add: represents_def objects_of_def init_state_def)
  from control_graph_refines_jobs [OF this] show ?thesis by blast
qed

end
