(* ===== verification/AkaCanonical.thy ===== *)
theory AkaCanonical
  imports SparqlSafe
begin

text \<open>
  The data of attested knowledge assets and what is hashed and signed of it:
  \<^verbatim>\<open>packages/attested-assets/src/types.ts\<close>, \<^verbatim>\<open>canonical.ts\<close>, \<^verbatim>\<open>quorum.ts\<close> and \<^verbatim>\<open>reducer.ts\<close>. The lemmas
  show that the canonical JSON text determines the value up to the order of object keys, so that a
  signature binds the whole signing context, and what the quorum threshold guarantees.

  SHA-256, Ed25519, the protobuf codecs and \<^verbatim>\<open>localeCompare\<close> are parameters, fields of the environment.
  Numbers are integers; \<^verbatim>\<open>uint32\<close> fields of the wire format are natural numbers.
\<close>

section \<open>Types\<close>

datatype SessionStatus = St_proposed | St_active | St_finalized | St_aborted | St_other string

datatype MemberRole = Role_creator | Role_member

fun role_text :: "MemberRole \<Rightarrow> string" where
  "role_text Role_creator = ''creator''"
| "role_text Role_member = ''member''"

record SessionMember =
  m_peerId :: string
  m_pubKey :: bytes
  m_displayName :: string
  m_role :: MemberRole

record QuorumPolicy =
  qp_type :: string
  qp_numerator :: nat
  qp_denominator :: nat
  qp_minSigners :: nat

record ReducerConfig =
  rc_name :: string
  rc_version :: string
  rc_hash :: string

record SessionConfig =
  sc_sessionId :: string
  sc_contextGraphId :: string
  sc_appId :: string
  sc_createdBy :: string
  sc_createdAt :: string
  sc_membership :: "SessionMember list"
  sc_membershipRoot :: string
  sc_quorumPolicy :: QuorumPolicy
  sc_reducer :: ReducerConfig
  sc_genesisStateHash :: string
  sc_roundTimeout :: nat
  sc_maxRounds :: "nat option"
  sc_status :: SessionStatus
  sc_configHash :: string

text \<open>The type of an event read from the wire can be any text.\<close>

datatype AKAEventType =
    E_SessionProposed | E_SessionAccepted | E_SessionActivated | E_SessionFinalized | E_SessionAborted
  | E_RoundStart | E_InputSubmitted | E_RoundProposal | E_RoundAck | E_RoundFinalized | E_RoundTimeout
  | E_unknown string

fun type_text :: "AKAEventType \<Rightarrow> string" where
  "type_text E_SessionProposed = ''SessionProposed''"
| "type_text E_SessionAccepted = ''SessionAccepted''"
| "type_text E_SessionActivated = ''SessionActivated''"
| "type_text E_SessionFinalized = ''SessionFinalized''"
| "type_text E_SessionAborted = ''SessionAborted''"
| "type_text E_RoundStart = ''RoundStart''"
| "type_text E_InputSubmitted = ''InputSubmitted''"
| "type_text E_RoundProposal = ''RoundProposal''"
| "type_text E_RoundAck = ''RoundAck''"
| "type_text E_RoundFinalized = ''RoundFinalized''"
| "type_text E_RoundTimeout = ''RoundTimeout''"
| "type_text (E_unknown t) = t"

record AKAEvent =
  ev_mode :: string
  ev_type :: AKAEventType
  ev_sessionId :: string
  ev_round :: nat
  ev_prevStateHash :: string
  ev_signerPeerId :: string
  ev_signature :: bytes
  ev_timestamp :: int
  ev_nonce :: string
  ev_payload :: bytes

record RoundStartPayload =
  rsp_round :: nat
  rsp_prevStateHash :: string
  rsp_deadline :: int

record InputPayload =
  ip_round :: nat
  ip_data :: bytes

record RoundProposalPayload =
  rp_round :: nat
  rp_prevStateHash :: string
  rp_inputSetHash :: string
  rp_nextStateHash :: string
  rp_includedMembers :: "string list"
  rp_includedInputs :: "bytes list"

record RoundAckPayload =
  ra_round :: nat
  ra_prevStateHash :: string
  ra_inputSetHash :: string
  ra_nextStateHash :: string
  ra_turnCommitment :: string

record RoundFinalizedPayload =
  rf_round :: nat
  rf_nextStateHash :: string
  rf_signerPeerIds :: "string list"
  rf_signatures :: "bytes list"

record SessionAcceptedPayload =
  sa_sessionId :: string
  sa_configHash :: string

text \<open>A reducer may throw.\<close>

record ReducerModule =
  rm_name :: string
  rm_version :: string
  rm_hash :: string
  rm_reduce :: "bytes \<Rightarrow> bytes list \<Rightarrow> string + bytes"
  rm_genesisState :: "SessionMember list \<Rightarrow> string + bytes"

datatype RoundStatus =
    R_awaiting_start | R_collecting_inputs | R_awaiting_proposal | R_awaiting_acks | R_finalized | R_timed_out

record RoundState =
  rs_round :: nat
  rs_status :: RoundStatus
  rs_proposerPeerId :: string
  rs_viewChangeCount :: nat
  rs_inputs :: "(string \<times> InputPayload) list"
  rs_proposal :: "RoundProposalPayload option"
  rs_acks :: "(string \<times> RoundAckPayload) list"
  rs_ackSignatures :: "(string \<times> bytes) list"
  rs_startTime :: "int option"
  rs_deadline :: "int option"

record SessionState =
  ss_config :: SessionConfig
  ss_currentRound :: nat
  ss_latestFinalizedRound :: nat
  ss_latestStateHash :: string
  ss_latestStateBytes :: bytes
  ss_roundStates :: "(nat \<times> RoundState) list"
  ss_equivocators :: "string list"
  ss_inactiveMembers :: "(string \<times> nat) list"
  ss_consecutiveSkips :: nat
  ss_acceptedMembers :: "string list"

section \<open>Reducer registry\<close>

type_synonym ReducerRegistry = "(string \<times> ReducerModule) list"

definition registry_key :: "string \<Rightarrow> string \<Rightarrow> string" where
  "registry_key name version = name @ ''@'' @ version"

definition register :: "ReducerModule \<Rightarrow> ReducerRegistry \<Rightarrow> ReducerRegistry" where
  "register reducer reg = AList.update (registry_key (rm_name reducer) (rm_version reducer)) reducer reg"

definition unregister :: "string \<Rightarrow> string \<Rightarrow> ReducerRegistry \<Rightarrow> ReducerRegistry" where
  "unregister name version reg = AList.delete (registry_key name version) reg"

definition get_reducer :: "ReducerRegistry \<Rightarrow> string \<Rightarrow> string \<Rightarrow> ReducerModule option" where
  "get_reducer reg name version = map_of reg (registry_key name version)"

definition has_reducer :: "ReducerRegistry \<Rightarrow> string \<Rightarrow> string \<Rightarrow> bool" where
  "has_reducer reg name version = (map_of reg (registry_key name version) \<noteq> None)"

definition matches :: "ReducerRegistry \<Rightarrow> ReducerConfig \<Rightarrow> bool" where
  "matches reg config =
     (case get_reducer reg (rc_name config) (rc_version config) of
        None \<Rightarrow> False
      | Some reducer \<Rightarrow> rm_hash reducer = rc_hash config)"

definition resolve :: "ReducerRegistry \<Rightarrow> ReducerConfig \<Rightarrow> ReducerModule option" where
  "resolve reg config =
     (case get_reducer reg (rc_name config) (rc_version config) of
        None \<Rightarrow> None
      | Some reducer \<Rightarrow> if rm_hash reducer = rc_hash config then Some reducer else None)"

definition listRegistered :: "ReducerRegistry \<Rightarrow> (string \<times> string \<times> string) list" where
  "listRegistered reg = map (\<lambda>(_, r). (rm_name r, rm_version r, rm_hash r)) reg"

lemma matches_resolve: "matches reg config \<longleftrightarrow> (\<exists>r. resolve reg config = Some r)"
  by (auto simp: matches_def resolve_def split: option.splits)

lemma resolve_hash: "resolve reg config = Some r \<Longrightarrow> rm_hash r = rc_hash config"
  by (auto simp: resolve_def split: option.splits if_splits)

section \<open>Quorum\<close>

text \<open>
  \<^verbatim>\<open>quorumThreshold\<close>: \<open>None\<close> stands for the results that no count reaches, \<^verbatim>\<open>Infinity\<close> and \<^verbatim>\<open>NaN\<close>, when the
  denominator is 0. The division is exact: the products stay below \<open>2 ^ 53\<close>, where the rounded quotient
  has the ceiling of the exact one.
\<close>

definition ceil_div :: "int \<Rightarrow> int \<Rightarrow> int" where
  "ceil_div a b = - ((- a) div b)"

definition quorumThreshold :: "QuorumPolicy \<Rightarrow> int \<Rightarrow> int option" where
  "quorumThreshold policy activeMemberCount =
     (let a = activeMemberCount * int (qp_numerator policy) in
      if qp_denominator policy = 0
      then (if a < 0 then Some (int (qp_minSigners policy)) else None)
      else Some (max (ceil_div a (int (qp_denominator policy))) (int (qp_minSigners policy))))"

definition isQuorumMet :: "QuorumPolicy \<Rightarrow> int \<Rightarrow> nat \<Rightarrow> bool" where
  "isQuorumMet policy activeMemberCount ackCount =
     (case quorumThreshold policy activeMemberCount of
        None \<Rightarrow> False
      | Some t \<Rightarrow> int ackCount \<ge> t)"

definition getActiveMemberCount :: "nat \<Rightarrow> nat \<Rightarrow> nat \<Rightarrow> int" where
  "getActiveMemberCount totalMembers equivocatorCount inactiveCount =
     int totalMembers - int equivocatorCount - int inactiveCount"

lemma le_div_iff_mult: "0 < b \<Longrightarrow> c \<le> a div b \<longleftrightarrow> c * b \<le> a" for a b c :: int
proof
  assume b: "0 < b" and "c \<le> a div b"
  then have "c * b \<le> a div b * b" by simp
  also have "\<dots> \<le> a" using b by (simp add: minus_mod_eq_div_mult [symmetric])
  finally show "c * b \<le> a" .
next
  assume b: "0 < b" and "c * b \<le> a"
  then have "c * b div b \<le> a div b" by (intro zdiv_mono1) auto
  then show "c \<le> a div b" using b by simp
qed

lemma ceil_div_le_iff: "0 < b \<Longrightarrow> ceil_div a b \<le> c \<longleftrightarrow> a \<le> c * b"
  using le_div_iff_mult [of b "- c" "- a"] by (auto simp: ceil_div_def)

lemma isQuorumMet_iff:
  "isQuorumMet policy active acks \<longleftrightarrow>
     (if qp_denominator policy = 0 then active * int (qp_numerator policy) < 0 \<and> qp_minSigners policy \<le> acks
      else active * int (qp_numerator policy) \<le> int acks * int (qp_denominator policy)
           \<and> qp_minSigners policy \<le> acks)"
  by (auto simp: isQuorumMet_def quorumThreshold_def Let_def ceil_div_le_iff)

text \<open>Two quorums of the same members overlap in more than the fraction's excess over one half.\<close>

lemma quorum_overlap:
  assumes fin: "finite M" and A: "A \<subseteq> M" and B: "B \<subseteq> M"
    and qA: "isQuorumMet policy (int (card M)) (card A)" and qB: "isQuorumMet policy (int (card M)) (card B)"
  shows "card M * (2 * qp_numerator policy) \<le> (card M + card (A \<inter> B)) * qp_denominator policy"
proof -
  have den: "qp_denominator policy \<noteq> 0"
    using qA by (auto simp: isQuorumMet_iff mult_less_0_iff split: if_splits)
  have "card M * qp_numerator policy \<le> card A * qp_denominator policy"
    and "card M * qp_numerator policy \<le> card B * qp_denominator policy"
    using qA qB den by (simp_all add: isQuorumMet_iff flip: of_nat_mult)
  then have "card M * (2 * qp_numerator policy) \<le> (card A + card B) * qp_denominator policy"
    by (simp add: algebra_simps)
  also have "card A + card B = card (A \<union> B) + card (A \<inter> B)"
    using fin A B by (meson card_Un_Int finite_subset)
  also have "\<dots> * qp_denominator policy \<le> (card M + card (A \<inter> B)) * qp_denominator policy"
    using fin A B by (simp add: card_mono)
  finally show ?thesis .
qed

lemma quorum_intersect:
  assumes "finite M" "A \<subseteq> M" "B \<subseteq> M" "M \<noteq> {}"
    and "isQuorumMet policy (int (card M)) (card A)" "isQuorumMet policy (int (card M)) (card B)"
    and "qp_denominator policy < 2 * qp_numerator policy"
  shows "A \<inter> B \<noteq> {}"
proof
  assume "A \<inter> B = {}"
  then have "card M * (2 * qp_numerator policy) \<le> card M * qp_denominator policy"
    using quorum_overlap [OF assms(1-3,5,6)] by simp
  moreover have "0 < card M" using assms(1,4) by (simp add: card_gt_0_iff)
  ultimately show False using assms(7) by simp
qed

section \<open>Canonical JSON\<close>

datatype Json =
    JUndef | JNull | JBool bool | JNum int | JStr string | JArr "Json list" | JObj "(string \<times> Json) list"

lemma size_JObj_member: "(k, v) \<in> set kvs \<Longrightarrow> size v < size (JObj kvs)"
  by (induction kvs) auto

text \<open>
  \<^verbatim>\<open>canonicalJsonEncode\<close>: \<^verbatim>\<open>undefined\<close> is written as \<^verbatim>\<open>null\<close>, and left out in an object; the default
  \<^verbatim>\<open>sort()\<close> orders keys by code units.
\<close>

function canonicalJsonEncode :: "Json \<Rightarrow> string" where
  "canonicalJsonEncode JUndef = ''null''"
| "canonicalJsonEncode JNull = ''null''"
| "canonicalJsonEncode (JBool b) = (if b then ''true'' else ''false'')"
| "canonicalJsonEncode (JNum n) = show_int n"
| "canonicalJsonEncode (JStr s) = json_string s"
| "canonicalJsonEncode (JArr vs) = ''['' @ join_with '','' (map canonicalJsonEncode vs) @ '']''"
| "canonicalJsonEncode (JObj kvs) =
     ''{'' @ join_with '','' (map (\<lambda>(k, v). json_string k @ '':'' @ canonicalJsonEncode v)
                      (filter (\<lambda>(k, v). v \<noteq> JUndef) (sort_key fst kvs))) @ ''}''"
  by pat_completeness auto
termination
  by (relation "measure size") (auto dest: size_JObj_member simp: less_Suc_eq_le elim: size_list_estimation')

text \<open>What the text determines: the value with undefined entries dropped and keys sorted.\<close>

function canon :: "Json \<Rightarrow> Json" where
  "canon JUndef = JNull"
| "canon JNull = JNull"
| "canon (JBool b) = JBool b"
| "canon (JNum n) = JNum n"
| "canon (JStr s) = JStr s"
| "canon (JArr vs) = JArr (map canon vs)"
| "canon (JObj kvs) =
     JObj (map (\<lambda>(k, v). (k, canon v)) (filter (\<lambda>(k, v). v \<noteq> JUndef) (sort_key fst kvs)))"
  by pat_completeness auto
termination
  by (relation "measure size") (auto dest: size_JObj_member simp: less_Suc_eq_le elim: size_list_estimation')

definition delim :: "string \<Rightarrow> bool" where
  "delim x \<longleftrightarrow> (case x of [] \<Rightarrow> True | c # _ \<Rightarrow> c \<in> set '',]}'')"

lemma delim_simps [simp]: "delim []" "delim (c # x) \<longleftrightarrow> c \<in> set '',]}''"
  by (simp_all add: delim_def)

lemma of_char_digit: "d < 10 \<Longrightarrow> of_char (char_of (48 + d) :: char) = 48 + d" for d :: nat
  by simp

lemma takeWhile_show_nat: "delim x \<Longrightarrow> takeWhile is_digit (show_nat n @ x) = show_nat n"
proof -
  assume "delim x"
  then have "takeWhile is_digit x = []" by (cases x) (auto simp: is_digit_def)
  then show ?thesis using show_nat_digits by (simp add: takeWhile_append)
qed

lemma show_nat_prefix_free:
  assumes "show_nat n @ x = show_nat m @ y" "delim x" "delim y"
  shows "n = m \<and> x = y"
proof -
  have "show_nat n = show_nat m"
    using assms takeWhile_show_nat by metis
  then show ?thesis using assms(1) digits_val_show_nat by (metis same_append_eq)
qed

lemma show_int_prefix_free:
  assumes "show_int i @ x = show_int j @ y" "delim x" "delim y"
  shows "i = j \<and> x = y"
proof (cases "i < 0 \<longleftrightarrow> j < 0")
  case True
  then have "show_nat (nat \<bar>i\<bar>) @ x = show_nat (nat \<bar>j\<bar>) @ y"
    using assms(1) by (auto simp: show_int_def split: if_splits)
  then have "nat \<bar>i\<bar> = nat \<bar>j\<bar> \<and> x = y" using assms show_nat_prefix_free by blast
  then show ?thesis using True by auto
next
  case False
  then show ?thesis
    using assms(1) show_nat_not_minus show_nat_not_minus [symmetric] by (auto simp: show_int_def split: if_splits)
qed

lemma control_char_inj:
  assumes "(of_char c :: nat) < 32" "(of_char d :: nat) < 32"
    and "hex_digit (of_char c div 16) = hex_digit (of_char d div 16)"
    and "hex_digit (of_char c mod 16) = hex_digit (of_char d mod 16)"
  shows "c = d"
proof -
  have "(of_char c :: nat) div 16 = of_char d div 16" using assms by (intro hex_digit_inj) auto
  moreover have "(of_char c :: nat) mod 16 = of_char d mod 16" using assms by (intro hex_digit_inj) auto
  ultimately have "(of_char c :: nat) = of_char d" by (metis div_mult_mod_eq)
  then show ?thesis by simp
qed

lemma json_char_prefix_free:
  assumes "json_char c @ x = json_char d @ y"
  shows "c = d \<and> x = y"
  using assms by (auto simp: json_char_def split: if_splits intro: control_char_inj)

lemma json_char_not_quote: "json_char c @ x \<noteq> QUOTE # y"
  by (auto simp: json_char_def)

lemma json_chars_prefix_free:
  "concat (map json_char a) @ QUOTE # x = concat (map json_char b) @ QUOTE # y \<Longrightarrow> a = b \<and> x = y"
proof (induction a arbitrary: b)
  case Nil
  then show ?case by (cases b) (auto dest: sym simp: json_char_not_quote)
next
  case (Cons c a)
  then show ?case
  proof (cases b)
    case (Cons d b')
    then show ?thesis using Cons.prems Cons.IH [of b'] json_char_prefix_free [of c _ d] by fastforce
  qed (auto simp: json_char_not_quote)
qed

lemma json_string_prefix_free: "json_string a @ x = json_string b @ y \<Longrightarrow> a = b \<and> x = y"
  using json_chars_prefix_free [of a x b y] by (simp add: json_string_def)

text \<open>Comma-separated items before a closing bracket.\<close>

lemma join_with_prefix_free:
  assumes "\<And>v w x y. v \<in> set vs \<Longrightarrow> f v @ x = f w @ y \<Longrightarrow> delim x \<Longrightarrow> delim y \<Longrightarrow> P v w \<and> x = y"
    and "\<And>v x. \<not> delim (f v @ x)"
    and "join_with '','' (map f vs) @ c # x = join_with '','' (map f ws) @ c # y"
    and "c \<in> set '']}''"
  shows "list_all2 P vs ws \<and> x = y"
  using assms(1,3)
proof (induction vs arbitrary: ws)
  case Nil
  show ?case
  proof (cases ws)
    case (Cons w ws')
    then have "\<exists>z. c # x = f w @ z" using Nil(2) by (cases ws') auto
    then show ?thesis using assms(2,4) by (metis delim_simps(2) list.set_intros(1,2) set_ConsD)
  qed (use Nil in auto)
next
  case (Cons v vs)
  define rest where "rest us z = (if us = [] then c # z else CHR '','' # join_with '','' (map f us) @ c # z)" for us z
  have step: "join_with '','' (map f (u # us)) @ c # z = f u @ rest us z" for u us z
    by (cases us) (auto simp: rest_def)
  have del: "delim (rest us z)" for us z using assms(4) by (auto simp: rest_def)
  show ?case
  proof (cases ws)
    case Nil
    then have "c # y = f v @ rest vs x" using Cons.prems(2) step by simp
    then show ?thesis using assms(2,4) by (metis delim_simps(2) list.set_intros(1,2) set_ConsD)
  next
    case (Cons w ws')
    then have "f v @ rest vs x = f w @ rest ws' y" using Cons.prems(2) step by simp
    then have P: "P v w" and eq: "rest vs x = rest ws' y"
      using Cons.prems(1) [of v "rest vs x" w "rest ws' y"] del by simp_all
    have "join_with '','' (map f vs) @ c # x = join_with '','' (map f ws') @ c # y"
      using eq assms(4) by (auto simp: rest_def split: if_splits)
    then show ?thesis using Cons.IH [of ws'] Cons.prems(1) P Cons by auto
  qed
qed

text \<open>The text of a value is not empty and starts with none of the delimiters.\<close>

lemma digit_not_delim: "is_digit c \<Longrightarrow> \<not> delim (c # x)"
  by (auto simp: is_digit_def)

lemma encode_not_delim [simp]: "\<not> delim (canonicalJsonEncode v @ x)"
proof (cases v)
  case (JNum n)
  have "\<not> delim (show_nat k @ x)" for k
    using hd_show_nat [of k x] digit_not_delim by (cases "show_nat k @ x") auto
  then show ?thesis using JNum by (simp add: show_int_def)
qed (auto simp: json_string_def)

lemma pair_not_delim: "\<not> delim (json_string k @ z)"
  by (simp add: json_string_def)

text \<open>First characters tell the kinds of values apart.\<close>

fun json_kind :: "Json \<Rightarrow> nat" where
  "json_kind JUndef = 0" | "json_kind JNull = 0" | "json_kind (JBool b) = (if b then 1 else 2)"
| "json_kind (JNum n) = 3" | "json_kind (JStr s) = 4" | "json_kind (JArr vs) = 5" | "json_kind (JObj kvs) = 6"

definition char_kind :: "char \<Rightarrow> nat" where
  "char_kind c = (if c = CHR ''n'' then 0 else if c = CHR ''t'' then 1 else if c = CHR ''f'' then 2
     else if is_digit c \<or> c = CHR ''-'' then 3 else if c = QUOTE then 4 else if c = CHR ''['' then 5 else 6)"

lemma digit_kind: "is_digit c \<Longrightarrow> char_kind c = 3"
  by (auto simp: is_digit_def char_kind_def)

lemma char_kind_encode: "char_kind (hd (canonicalJsonEncode v @ x)) = json_kind v"
proof (cases v)
  case (JNum n)
  have "char_kind (hd (show_nat k @ x)) = 3" for k
    by (rule digit_kind) (rule hd_show_nat)
  moreover have "char_kind (CHR ''-'') = 3" by (simp add: char_kind_def)
  ultimately show ?thesis using JNum by (simp add: show_int_def del: hd_append2)
qed (auto simp: char_kind_def json_string_def is_digit_def)

lemma encode_same_kind: "canonicalJsonEncode v @ x = canonicalJsonEncode w @ y \<Longrightarrow> json_kind v = json_kind w"
  by (metis char_kind_encode)

lemma encode_prefix_free:
  "canonicalJsonEncode v @ x = canonicalJsonEncode w @ y \<Longrightarrow> delim x \<Longrightarrow> delim y
   \<Longrightarrow> canon v = canon w \<and> x = y"
proof (induction v arbitrary: w x y rule: canonicalJsonEncode.induct)
  case (4 n)
  then obtain m where "w = JNum m" using encode_same_kind [OF 4(1)] by (cases w) (auto split: if_splits)
  then show ?case using 4 show_int_prefix_free [of n x m y] by simp
next
  case (5 s)
  then obtain t where "w = JStr t" using encode_same_kind [OF 5(1)] by (cases w) (auto split: if_splits)
  then show ?case using 5(1) json_string_prefix_free [of s x t y] by simp
next
  case (6 vs)
  then obtain ws where w: "w = JArr ws" using encode_same_kind [OF 6(2)] by (cases w) (auto split: if_splits)
  then have eq: "join_with '','' (map canonicalJsonEncode vs) @ CHR '']'' # x
                 = join_with '','' (map canonicalJsonEncode ws) @ CHR '']'' # y"
    using 6(2) by simp
  have "list_all2 (\<lambda>v w. canon v = canon w) vs ws \<and> x = y"
    by (rule join_with_prefix_free [OF _ _ eq]) (rule 6(1), assumption+, simp_all)
  then show ?case by (simp add: w list_all2_conv_all_nth list_eq_iff_nth_eq)
next
  case (7 kvs)
  define pick where "pick = (\<lambda>us :: (string \<times> Json) list. filter (\<lambda>(k, v). v \<noteq> JUndef) (sort_key fst us))"
  define f where "f = (\<lambda>(k, v). json_string k @ '':'' @ canonicalJsonEncode v)"
  obtain us where w: "w = JObj us" using encode_same_kind [OF 7(2)] by (cases w) (auto split: if_splits)
  have eq: "join_with '','' (map f (pick kvs)) @ CHR ''}'' # x = join_with '','' (map f (pick us)) @ CHR ''}'' # y"
    using 7(2) w by (simp add: pick_def f_def)
  have "list_all2 (\<lambda>(k, v) (k', v'). k = k' \<and> canon v = canon v') (pick kvs) (pick us) \<and> x = y"
  proof (rule join_with_prefix_free [OF _ _ eq])
    fix p q z z' assume p: "p \<in> set (pick kvs)" and pq: "f p @ z = f q @ z'" "delim z" "delim z'"
    obtain k v k' v' where pv: "p = (k, v)" "q = (k', v')" by fastforce
    have "k = k' \<and> '':'' @ canonicalJsonEncode v @ z = '':'' @ canonicalJsonEncode v' @ z'"
      by (rule json_string_prefix_free) (use pq(1) pv in \<open>simp add: f_def\<close>)
    then have "k = k'" and "canonicalJsonEncode v @ z = canonicalJsonEncode v' @ z'" by simp_all
    moreover have "canon v = canon v' \<and> z = z'"
      by (rule 7(1) [OF p [unfolded pick_def pv] refl calculation(2) pq(2,3)])
    ultimately show "(case p of (k, v) \<Rightarrow> \<lambda>(k', v'). k = k' \<and> canon v = canon v') q \<and> z = z'"
      by (simp add: pv)
  qed (auto simp: f_def pair_not_delim split: prod.splits)
  then show ?case
    by (simp add: w pick_def list_all2_conv_all_nth list_eq_iff_nth_eq split_beta)
next
  case 1
  then have "json_kind w = 0" using encode_same_kind [OF 1(1)] by simp
  then show ?case using 1 by (cases w) (simp_all split: if_splits)
next
  case 2
  then have "json_kind w = 0" using encode_same_kind [OF 2(1)] by simp
  then show ?case using 2 by (cases w) (simp_all split: if_splits)
next
  case (3 b)
  then have "json_kind w = (if b then 1 else 2)" using encode_same_kind [OF 3(1)] by simp
  then show ?case using 3 by (cases w) (simp_all split: if_splits)
qed

text \<open>
  The order of the keys of an object, and undefined entries, do not change the text; nothing else
  is lost.
\<close>

lemma canon_encode [simp]: "canonicalJsonEncode (canon v) = canonicalJsonEncode v"
proof (induction v rule: canon.induct)
  case (6 vs)
  then show ?case by (simp cong: map_cong)
next
  case (7 kvs)
  define ps where "ps = filter (\<lambda>(k, v). v \<noteq> JUndef) (sort_key fst kvs)"
  define qs where "qs = map (\<lambda>(k, v). (k, canon v)) ps"
  have "sorted (map fst ps)" by (simp add: ps_def sorted_filter split_beta)
  then have "sorted (map fst qs)" by (simp add: qs_def comp_def split_beta)
  then have sort: "sort_key fst qs = qs" by (simp add: sort_key_id_if_sorted)
  have "canon v \<noteq> JUndef" for v by (cases v) auto
  then have fil: "filter (\<lambda>(k, v). v \<noteq> JUndef) qs = qs" by (auto simp: qs_def filter_id_conv)
  have "map (\<lambda>(k, v). json_string k @ '':'' @ canonicalJsonEncode v) qs
        = map (\<lambda>(k, v). json_string k @ '':'' @ canonicalJsonEncode v) ps"
    using 7 by (auto simp: qs_def ps_def)
  then show ?case by (simp only: canon.simps canonicalJsonEncode.simps flip: ps_def qs_def) (simp add: sort fil)
qed simp_all

lemma canonicalJsonEncode_eq_iff: "canonicalJsonEncode v = canonicalJsonEncode w \<longleftrightarrow> canon v = canon w"
  by (metis append_Nil2 canon_encode delim_simps(1) encode_prefix_free)

section \<open>The environment\<close>

text \<open>
  What the package imports or is configured with: the local peer and its key, the hash and signature
  functions (\<^verbatim>\<open>verify\<close> may reject with an error, \<open>None\<close>), the protobuf codecs of \<^verbatim>\<open>proto/aka-events.ts\<close>
  (decoding malformed bytes throws, \<open>None\<close>), and per reading the clock, a random suffix, and whether
  \<^verbatim>\<open>gossip.publish\<close> succeeds.
\<close>

record AkaEnv =
  localPeerId :: string
  secretKey :: bytes
  network :: string
  proposerGraceMs :: int
  acceptTimeoutMs :: int
  aka_sha256 :: "bytes \<Rightarrow> bytes"
  ed25519Sign :: "bytes \<Rightarrow> bytes \<Rightarrow> bytes"
  ed25519Verify :: "bytes \<Rightarrow> bytes \<Rightarrow> bytes \<Rightarrow> bool option"
  localeCompare :: "string \<Rightarrow> string \<Rightarrow> int"
  toISOString :: "int \<Rightarrow> string"
  wire_SessionConfig :: "SessionConfig \<times> nat \<Rightarrow> bytes"
  unwire_SessionConfig :: "bytes \<Rightarrow> (SessionConfig \<times> nat) option"
  encodeAKAEvent :: "AKAEvent \<Rightarrow> bytes"
  decodeAKAEvent :: "bytes \<Rightarrow> AKAEvent option"
  encodeRoundStartPayload :: "RoundStartPayload \<Rightarrow> bytes"
  decodeRoundStartPayload :: "bytes \<Rightarrow> RoundStartPayload option"
  encodeInputPayload :: "InputPayload \<Rightarrow> bytes"
  decodeInputPayload :: "bytes \<Rightarrow> InputPayload option"
  encodeRoundProposalPayload :: "RoundProposalPayload \<Rightarrow> bytes"
  decodeRoundProposalPayload :: "bytes \<Rightarrow> RoundProposalPayload option"
  encodeRoundAckPayload :: "RoundAckPayload \<Rightarrow> bytes"
  decodeRoundAckPayload :: "bytes \<Rightarrow> RoundAckPayload option"
  encodeRoundFinalizedPayload :: "RoundFinalizedPayload \<Rightarrow> bytes"
  decodeRoundFinalizedPayload :: "bytes \<Rightarrow> RoundFinalizedPayload option"
  encodeSessionAcceptedPayload :: "SessionAcceptedPayload \<Rightarrow> bytes"
  aka_clock :: "nat \<Rightarrow> int"
  randomSuffix :: "nat \<Rightarrow> string"
  publish_ok :: "nat \<Rightarrow> bool"

text \<open>On the wire the number of rounds is 0 where the configuration has none.\<close>

definition encodeSessionConfig :: "AkaEnv \<Rightarrow> SessionConfig \<Rightarrow> bytes" where
  "encodeSessionConfig env config =
     wire_SessionConfig env (config, case sc_maxRounds config of None \<Rightarrow> 0 | Some n \<Rightarrow> n)"

definition decodeSessionConfig :: "AkaEnv \<Rightarrow> bytes \<Rightarrow> SessionConfig option" where
  "decodeSessionConfig env buf =
     map_option (\<lambda>(raw, maxRounds). raw\<lparr>sc_maxRounds := if maxRounds = 0 then None else Some maxRounds\<rparr>)
       (unwire_SessionConfig env buf)"

section \<open>Hashes\<close>

definition sha256Hex :: "AkaEnv \<Rightarrow> bytes \<Rightarrow> string" where
  "sha256Hex env data = hex_bytes (aka_sha256 env data)"

definition sha256String :: "AkaEnv \<Rightarrow> string \<Rightarrow> string" where
  "sha256String env str = sha256Hex env (utf8 str)"

text \<open>\<^verbatim>\<open>Array.from(bytes)\<close> as a JSON array of numbers.\<close>

definition json_bytes :: "bytes \<Rightarrow> Json" where
  "json_bytes bs = JArr (map (\<lambda>b. JNum (uint b)) bs)"

definition json_member :: "SessionMember \<Rightarrow> Json" where
  "json_member m = JObj [(''displayName'', JStr (m_displayName m)), (''peerId'', JStr (m_peerId m)),
     (''pubKey'', json_bytes (m_pubKey m)), (''role'', JStr (role_text (m_role m)))]"

definition json_policy :: "QuorumPolicy \<Rightarrow> Json" where
  "json_policy p = JObj [(''type'', JStr (qp_type p)), (''numerator'', JNum (int (qp_numerator p))),
     (''denominator'', JNum (int (qp_denominator p))), (''minSigners'', JNum (int (qp_minSigners p)))]"

definition json_reducer :: "ReducerConfig \<Rightarrow> Json" where
  "json_reducer r = JObj [(''name'', JStr (rc_name r)), (''version'', JStr (rc_version r)), (''hash'', JStr (rc_hash r))]"

definition json_config :: "SessionConfig \<Rightarrow> Json" where
  "json_config c = JObj [(''sessionId'', JStr (sc_sessionId c)), (''contextGraphId'', JStr (sc_contextGraphId c)),
     (''appId'', JStr (sc_appId c)), (''createdBy'', JStr (sc_createdBy c)), (''createdAt'', JStr (sc_createdAt c)),
     (''membership'', JArr (map json_member (sc_membership c))), (''membershipRoot'', JStr (sc_membershipRoot c)),
     (''quorumPolicy'', json_policy (sc_quorumPolicy c)), (''reducer'', json_reducer (sc_reducer c)),
     (''genesisStateHash'', JStr (sc_genesisStateHash c)), (''roundTimeout'', JNum (int (sc_roundTimeout c))),
     (''maxRounds'', case sc_maxRounds c of None \<Rightarrow> JNull | Some n \<Rightarrow> JNum (int n))]"

definition computeConfigHash :: "AkaEnv \<Rightarrow> SessionConfig \<Rightarrow> string" where
  "computeConfigHash env config = sha256String env (canonicalJsonEncode (json_config config))"

definition computeMembershipRoot :: "AkaEnv \<Rightarrow> SessionMember list \<Rightarrow> string" where
  "computeMembershipRoot env members =
     sha256String env (canonicalJsonEncode
       (JArr (map json_member (js_sort (\<lambda>a b. localeCompare env (m_peerId a) (m_peerId b)) members))))"

definition computeSessionId :: "AkaEnv \<Rightarrow> string \<Rightarrow> string \<Rightarrow> string \<Rightarrow> string \<Rightarrow> string" where
  "computeSessionId env contextGraphId creatorPeerId createdAt nonce =
     sha256String env (contextGraphId @ creatorPeerId @ createdAt @ nonce)"

definition computeInputSetHash :: "AkaEnv \<Rightarrow> bytes list \<Rightarrow> string" where
  "computeInputSetHash env inputs = sha256String env (canonicalJsonEncode (JArr (map json_bytes inputs)))"

definition computeStateHash :: "AkaEnv \<Rightarrow> bytes \<Rightarrow> string" where
  "computeStateHash env stateBytes = sha256Hex env stateBytes"

definition computeTurnCommitment ::
  "AkaEnv \<Rightarrow> string \<Rightarrow> nat \<Rightarrow> string \<Rightarrow> string \<Rightarrow> string \<Rightarrow> string \<Rightarrow> string \<Rightarrow> string" where
  "computeTurnCommitment env sessionId round prevStateHash inputSetHash nextStateHash reducerVersion membershipRoot =
     sha256String env (sessionId @ ''|'' @ show_nat round @ ''|'' @ prevStateHash @ ''|'' @ inputSetHash
       @ ''|'' @ nextStateHash @ ''|'' @ reducerVersion @ ''|'' @ membershipRoot)"

section \<open>Signatures\<close>

record SigningContext =
  ctx_domain :: string
  ctx_network :: string
  ctx_contextGraphId :: string
  ctx_sessionId :: string
  ctx_round :: nat
  ctx_type :: AKAEventType

text \<open>The payload that is signed is always the array of the payload's bytes.\<close>

definition buildSigningPayload :: "SigningContext \<Rightarrow> bytes \<Rightarrow> bytes" where
  "buildSigningPayload ctx payload = utf8 (canonicalJsonEncode (JObj
     [(''domain'', JStr (ctx_domain ctx)), (''network'', JStr (ctx_network ctx)),
      (''contextGraphId'', JStr (ctx_contextGraphId ctx)), (''payload'', json_bytes payload),
      (''round'', JNum (int (ctx_round ctx))), (''sessionId'', JStr (ctx_sessionId ctx)),
      (''type'', JStr (type_text (ctx_type ctx)))]))"

definition signAKAPayload :: "AkaEnv \<Rightarrow> SigningContext \<Rightarrow> bytes \<Rightarrow> bytes \<Rightarrow> bytes" where
  "signAKAPayload env ctx payload secret = ed25519Sign env (buildSigningPayload ctx payload) secret"

definition verifyAKASignature :: "AkaEnv \<Rightarrow> SigningContext \<Rightarrow> bytes \<Rightarrow> bytes \<Rightarrow> bytes \<Rightarrow> bool option" where
  "verifyAKASignature env ctx payload signature publicKey =
     ed25519Verify env signature (buildSigningPayload ctx payload) publicKey"

declare canonicalJsonEncode.simps [simp del]

lemma json_bytes_canon [simp]: "canon (json_bytes bs) = json_bytes bs"
  by (simp add: json_bytes_def)

lemma json_bytes_defined [simp]: "json_bytes bs \<noteq> JUndef"
  by (simp add: json_bytes_def)

lemma json_bytes_inj [simp]: "json_bytes a = json_bytes b \<longleftrightarrow> a = b"
proof -
  have "inj (\<lambda>b :: byte. JNum (uint b))" by (auto simp: inj_def word_uint_eq_iff)
  then show ?thesis by (simp add: json_bytes_def inj_map_eq_map)
qed

text \<open>The bytes that are signed determine the context and the payload.\<close>

lemma buildSigningPayload_inj:
  "buildSigningPayload c p = buildSigningPayload c' p' \<longleftrightarrow>
     ctx_domain c = ctx_domain c' \<and> ctx_network c = ctx_network c' \<and> ctx_contextGraphId c = ctx_contextGraphId c'
     \<and> ctx_sessionId c = ctx_sessionId c' \<and> ctx_round c = ctx_round c'
     \<and> type_text (ctx_type c) = type_text (ctx_type c') \<and> p = p'"
  by (auto simp: buildSigningPayload_def canonicalJsonEncode_eq_iff split: if_splits)

end
