(* ===== verification/AkaValidator.thy ===== *)
theory AkaValidator
  imports AkaCanonical
begin

text \<open>
  The validation of incoming session events, \<^verbatim>\<open>packages/attested-assets/src/session-validator.ts\<close>. The
  validator keeps the nonces and the event tuples it has accepted; \<^verbatim>\<open>validate\<close> runs the checks in their
  order and records the event when all pass. The lemmas give the exact condition of acceptance and
  that an accepted event is never accepted again.
\<close>

record SessionValidator =
  seenNonces :: "(string \<times> string list) list"
  seenTuples :: "string list"

definition DEFAULT_CLOCK_SKEW_TOLERANCE :: int where
  "DEFAULT_CLOCK_SKEW_TOLERANCE = 5000"

text \<open>A check is passed, gives a reason against the event, or throws.\<close>

datatype Verdict = Valid | Invalid string | Throws string

definition check :: "bool \<Rightarrow> string \<Rightarrow> Verdict" where
  "check ok reason = (if ok then Valid else Invalid reason)"

lemma check_Valid [simp]: "check ok reason = Valid \<longleftrightarrow> ok"
  by (simp add: check_def)

section \<open>Checks\<close>

fun isRoundEvent :: "AKAEventType \<Rightarrow> bool" where
  "isRoundEvent t = (type_text t \<in> set [''RoundStart'', ''InputSubmitted'', ''RoundProposal'', ''RoundAck'',
     ''RoundFinalized'', ''RoundTimeout''])"

definition checkMode :: "AKAEvent \<Rightarrow> Verdict" where
  "checkMode event =
     check (ev_mode event = ''AKA'') (''invalid mode: expected AKA, got '' @ ev_mode event)"

fun status_text :: "SessionStatus \<Rightarrow> string" where
  "status_text St_proposed = ''proposed''"
| "status_text St_active = ''active''"
| "status_text St_finalized = ''finalized''"
| "status_text St_aborted = ''aborted''"
| "status_text (St_other s) = s"

definition checkSessionExists :: "AKAEvent \<Rightarrow> SessionState \<Rightarrow> Verdict" where
  "checkSessionExists event session =
     (if sc_sessionId (ss_config session) \<noteq> ev_sessionId event
      then Invalid (''session '' @ ev_sessionId event @ '' not found'')
      else if type_text (ev_type event) \<noteq> ''SessionAccepted'' \<and> type_text (ev_type event) \<noteq> ''SessionActivated''
              \<and> type_text (ev_type event) \<noteq> ''SessionAborted''
      then check (status_text (sc_status (ss_config session)) = ''active'')
             (''session is '' @ status_text (sc_status (ss_config session)) @ '', not active'')
      else Valid)"

text \<open>\<^verbatim>\<open>membership.find\<close>: the first member with the peer id.\<close>

definition find_member :: "SessionMember list \<Rightarrow> string \<Rightarrow> SessionMember option" where
  "find_member ms peer = find (\<lambda>m. m_peerId m = peer) ms"

definition checkMembership :: "AKAEvent \<Rightarrow> SessionState \<Rightarrow> Verdict" where
  "checkMembership event session =
     check (find_member (sc_membership (ss_config session)) (ev_signerPeerId event) \<noteq> None)
       (''signer '' @ ev_signerPeerId event @ '' is not a session member'')"

definition checkSchemaConformance :: "AKAEvent \<Rightarrow> Verdict" where
  "checkSchemaConformance event =
     (if type_text (ev_type event) = [] \<or> ev_sessionId event = [] \<or> ev_signerPeerId event = [] \<or> ev_nonce event = []
      then Invalid ''missing required fields''
      else check (ev_signature event \<noteq> []) ''missing signature'')"

definition checkStateLinkage :: "AKAEvent \<Rightarrow> SessionState \<Rightarrow> Verdict" where
  "checkStateLinkage event session =
     check (ev_prevStateHash event = ss_latestStateHash session)
       (''state linkage mismatch: event references '' @ ev_prevStateHash event @ '', local is ''
        @ ss_latestStateHash session)"

definition nonceKey :: "AKAEvent \<Rightarrow> string" where
  "nonceKey event = ev_sessionId event @ ''|'' @ ev_signerPeerId event"

definition payloadSuffix :: "AkaEnv \<Rightarrow> AKAEvent \<Rightarrow> string" where
  "payloadSuffix env event =
     (if type_text (ev_type event) = ''RoundAck'' then ''|'' @ hex_bytes (aka_sha256 env (ev_payload event)) else [])"

definition tupleKey :: "AkaEnv \<Rightarrow> AKAEvent \<Rightarrow> string" where
  "tupleKey env event = ev_sessionId event @ ''|'' @ show_nat (ev_round event) @ ''|'' @ ev_signerPeerId event
     @ ''|'' @ type_text (ev_type event) @ payloadSuffix env event"

definition seen_nonce :: "SessionValidator \<Rightarrow> AKAEvent \<Rightarrow> bool" where
  "seen_nonce v event =
     (case map_of (seenNonces v) (nonceKey event) of None \<Rightarrow> False | Some nonces \<Rightarrow> ev_nonce event \<in> set nonces)"

definition checkReplayProtection :: "AkaEnv \<Rightarrow> SessionValidator \<Rightarrow> AKAEvent \<Rightarrow> Verdict" where
  "checkReplayProtection env v event =
     (if seen_nonce v event then Invalid (''duplicate nonce: '' @ ev_nonce event)
      else check (tupleKey env event \<notin> set (seenTuples v)) (''duplicate event tuple: '' @ tupleKey env event))"

definition round_of :: "SessionState \<Rightarrow> nat \<Rightarrow> RoundState option" where
  "round_of session r = map_of (ss_roundStates session) r"

text \<open>\<^verbatim>\<open>!roundState?.startTime\<close> holds without a round, without a start time and for the time 0.\<close>

definition checkTiming :: "AKAEvent \<Rightarrow> SessionState \<Rightarrow> Verdict" where
  "checkTiming event session =
     (case Option.bind (round_of session (ev_round event)) rs_startTime of
        None \<Rightarrow> Valid
      | Some startTime \<Rightarrow>
          if startTime = 0 then Valid
          else let lower = startTime - DEFAULT_CLOCK_SKEW_TOLERANCE;
                   upper = startTime + int (sc_roundTimeout (ss_config session)) + DEFAULT_CLOCK_SKEW_TOLERANCE
               in check (lower \<le> ev_timestamp event \<and> ev_timestamp event \<le> upper)
                    (''timestamp '' @ show_int (ev_timestamp event) @ '' outside valid window [''
                     @ show_int lower @ '', '' @ show_int upper @ '']''))"

definition checkEquivocation :: "AKAEvent \<Rightarrow> SessionState \<Rightarrow> Verdict" where
  "checkEquivocation event session =
     check (ev_signerPeerId event \<notin> set (ss_equivocators session))
       (''signer '' @ ev_signerPeerId event @ '' is an equivocator'')"

definition checkCreatorAuthority :: "AKAEvent \<Rightarrow> SessionState \<Rightarrow> Verdict" where
  "checkCreatorAuthority event session =
     check (ev_signerPeerId event = sc_createdBy (ss_config session))
       (ev_signerPeerId event @ '' is not the session creator (expected '' @ sc_createdBy (ss_config session) @ '')'')"

definition checkProposerAuthority :: "AKAEvent \<Rightarrow> SessionState \<Rightarrow> Verdict" where
  "checkProposerAuthority event session =
     (case round_of session (ev_round event) of
        None \<Rightarrow> Valid
      | Some rs \<Rightarrow> check (ev_signerPeerId event = rs_proposerPeerId rs)
          (ev_signerPeerId event @ '' is not the proposer for round '' @ show_nat (ev_round event)
           @ '' (expected '' @ rs_proposerPeerId rs @ '')''))"

definition event_context :: "AkaEnv \<Rightarrow> AKAEvent \<Rightarrow> SessionState \<Rightarrow> SigningContext" where
  "event_context env event session =
     \<lparr>ctx_domain = ''AKA-v1'', ctx_network = network env, ctx_contextGraphId = sc_contextGraphId (ss_config session),
      ctx_sessionId = ev_sessionId event, ctx_round = ev_round event, ctx_type = ev_type event\<rparr>"

definition checkSignature :: "AkaEnv \<Rightarrow> AKAEvent \<Rightarrow> SessionState \<Rightarrow> Verdict" where
  "checkSignature env event session =
     (case find_member (sc_membership (ss_config session)) (ev_signerPeerId event) of
        None \<Rightarrow> Invalid ''signer not found in membership''
      | Some member \<Rightarrow>
          (case verifyAKASignature env (event_context env event session) (ev_payload event) (ev_signature event)
                  (m_pubKey member) of
             None \<Rightarrow> Throws ''verify''
           | Some valid \<Rightarrow> check valid ''invalid Ed25519 signature''))"

section \<open>Validation\<close>

fun first_failure :: "Verdict list \<Rightarrow> Verdict" where
  "first_failure [] = Valid"
| "first_failure (v # vs) = (if v = Valid then first_failure vs else v)"

definition event_checks :: "AkaEnv \<Rightarrow> SessionValidator \<Rightarrow> AKAEvent \<Rightarrow> SessionState \<Rightarrow> Verdict list" where
  "event_checks env v event session =
     [checkMode event, checkSessionExists event session, checkMembership event session, checkSchemaConformance event,
      checkReplayProtection env v event, checkSignature env event session]
     @ (if isRoundEvent (ev_type event)
        then [checkStateLinkage event session, checkTiming event session, checkEquivocation event session] else [])
     @ (if type_text (ev_type event) \<in> set [''RoundProposal'', ''RoundStart'', ''RoundFinalized'']
        then [checkProposerAuthority event session] else [])
     @ (if type_text (ev_type event) = ''SessionActivated'' then [checkCreatorAuthority event session] else [])"

definition recordEvent :: "AkaEnv \<Rightarrow> AKAEvent \<Rightarrow> SessionValidator \<Rightarrow> SessionValidator" where
  "recordEvent env event v =
     v\<lparr>seenTuples := set_add (tupleKey env event) (seenTuples v),
       seenNonces := (let nonces = (case map_of (seenNonces v) (nonceKey event) of None \<Rightarrow> [] | Some ns \<Rightarrow> ns)
                      in AList.update (nonceKey event) (set_add (ev_nonce event) nonces) (seenNonces v))\<rparr>"

text \<open>
  A call of \<^verbatim>\<open>validate\<close> that runs to its end with no other call of the same validator in between. The code waits for the check of the
  signature between the look at the seen events and the record of the new one; the interleavings of concurrent calls are
  in \<open>AkaConcurrent\<close>.
\<close>

definition validate :: "AkaEnv \<Rightarrow> AKAEvent \<Rightarrow> SessionState \<Rightarrow> SessionValidator \<Rightarrow> Verdict \<times> SessionValidator" where
  "validate env event session v =
     (case first_failure (event_checks env v event session) of
        Valid \<Rightarrow> (Valid, recordEvent env event v)
      | failure \<Rightarrow> (failure, v))"

definition reset_session :: "string \<Rightarrow> SessionValidator \<Rightarrow> SessionValidator" where
  "reset_session sessionId v =
     v\<lparr>seenNonces := filter (\<lambda>(key, _). \<not> startsWith key sessionId) (seenNonces v),
       seenTuples := filter (\<lambda>tuple. \<not> startsWith tuple sessionId) (seenTuples v)\<rparr>"

definition detectEquivocation :: "RoundAckPayload \<Rightarrow> RoundAckPayload \<Rightarrow> bool" where
  "detectEquivocation existing incoming \<longleftrightarrow> ra_nextStateHash existing \<noteq> ra_nextStateHash incoming"

section \<open>Facts\<close>

lemma first_failure_Valid: "first_failure vs = Valid \<longleftrightarrow> (\<forall>v \<in> set vs. v = Valid)"
  by (induction vs) auto

lemma validate_Valid:
  "fst (validate env event session v) = Valid \<longleftrightarrow> (\<forall>c \<in> set (event_checks env v event session). c = Valid)"
  by (auto simp: validate_def first_failure_Valid [symmetric] split: Verdict.splits)

lemma validate_state:
  "snd (validate env event session v) =
     (if fst (validate env event session v) = Valid then recordEvent env event v else v)"
  by (simp add: validate_def split: Verdict.splits)

text \<open>What a validated event satisfies.\<close>

lemma validate_facts:
  assumes "fst (validate env event session v) = Valid"
  shows validate_mode: "ev_mode event = ''AKA''"
    and validate_session: "sc_sessionId (ss_config session) = ev_sessionId event"
    and validate_member: "\<exists>m. find_member (sc_membership (ss_config session)) (ev_signerPeerId event) = Some m
          \<and> verifyAKASignature env (event_context env event session) (ev_payload event) (ev_signature event)
              (m_pubKey m) = Some True"
    and validate_fresh: "\<not> seen_nonce v event \<and> tupleKey env event \<notin> set (seenTuples v)"
    and validate_round: "isRoundEvent (ev_type event) \<Longrightarrow>
          ev_prevStateHash event = ss_latestStateHash session
          \<and> ev_signerPeerId event \<notin> set (ss_equivocators session)"
  using assms
  by (auto simp: validate_Valid event_checks_def checkMode_def checkSessionExists_def checkReplayProtection_def
      checkSignature_def checkStateLinkage_def checkEquivocation_def check_def split: if_splits option.splits)

lemma find_member_Some: "find_member ms p = Some m \<Longrightarrow> m \<in> set ms \<and> m_peerId m = p"
  by (auto simp: find_member_def find_Some_iff)

text \<open>The fingerprints only grow, and an event that has been recorded is refused.\<close>

definition has_seen :: "AkaEnv \<Rightarrow> AKAEvent \<Rightarrow> SessionValidator \<Rightarrow> bool" where
  "has_seen env event v \<longleftrightarrow> tupleKey env event \<in> set (seenTuples v)"

lemma has_seen_recordEvent: "has_seen env e (recordEvent env event v) \<longleftrightarrow> tupleKey env e = tupleKey env event \<or> has_seen env e v"
  by (auto simp: has_seen_def recordEvent_def)

lemma has_seen_validate: "has_seen env e v \<Longrightarrow> has_seen env e (snd (validate env event session v))"
  by (simp add: validate_state has_seen_recordEvent)

lemma has_seen_refused: "has_seen env e v \<Longrightarrow> fst (validate env e session v) \<noteq> Valid"
  using validate_fresh by (auto simp: has_seen_def)

lemma validate_records: "fst (validate env e session v) = Valid \<Longrightarrow> has_seen env e (snd (validate env e session v))"
  by (simp add: validate_state has_seen_recordEvent)

end
