(* ===== verification/AkaManager.thy ===== *)
theory AkaManager
  imports AkaValidator
begin

text \<open>
  The session manager, \<^verbatim>\<open>packages/attested-assets/src/session-manager.ts\<close>, with the gossip handler
  \<^verbatim>\<open>gossip-handler.ts\<close> it publishes through. One operation per method. The state holds the sessions, the
  validator, the reducer registry, the keyed timers and the unkeyed ones, the topics, what has been
  published and what has been emitted on the event bus.

  Each method is one step: the asynchronous gaps inside a method are not interleaved. A call whose
  promise the code does not await, or whose rejection it drops, is \<open>detached\<close>. A timer is an entry
  that holds the action of its callback; it fires at most once.
\<close>

section \<open>State\<close>

datatype TimerAction =
    A_abort string string | A_start string | A_propose string nat | A_timeout string nat

record Timer =
  tm_ms :: int
  tm_action :: TimerAction
  tm_armed :: bool

datatype BusEvent =
    SESSION_PROPOSED string SessionConfig | MEMBER_ACCEPTED string string | SESSION_ACTIVATED string
  | SESSION_FINALIZED string | SESSION_ABORTED string "string option" | ROUND_STARTED string nat
  | ROUND_FINALIZED string nat string | ROUND_TIMEOUT string nat nat string | INPUT_RECEIVED string nat string
  | ACK_RECEIVED string nat string nat | EQUIVOCATION_DETECTED string nat string

record AkaState =
  sessions :: "(string \<times> SessionState) list"
  validator :: SessionValidator
  registry :: ReducerRegistry
  timers :: "(string \<times> Timer) list"
  looseTimers :: "TimerAction list"
  gh_handlers :: "(string \<times> nat list) list"
  gh_bound :: "string list"
  gs_topics :: "string list"
  gs_handlers :: "string list"
  published :: "(string \<times> bytes) list"
  bus :: "BusEvent list"
  aka_ticks :: nat

type_synonym 'a aka_op = "(AkaState, 'a) op"

definition init_aka :: AkaState where
  "init_aka = \<lparr>sessions = [], validator = \<lparr>seenNonces = [], seenTuples = []\<rparr>, registry = [], timers = [],
     looseTimers = [], gh_handlers = [], gh_bound = [], gs_topics = [], gs_handlers = [], published = [], bus = [],
     aka_ticks = 0\<rparr>"

text \<open>\<^verbatim>\<open>MAX_CONSECUTIVE_SKIPS\<close> and the manager's only handler on the gossip topics.\<close>

definition MAX_CONSECUTIVE_SKIPS :: nat where
  "MAX_CONSECUTIVE_SKIPS = 3"

definition incomingEventHandler :: nat where
  "incomingEventHandler = 0"

definition readAka :: "(nat \<Rightarrow> 'a) \<Rightarrow> 'a aka_op" where
  "readAka f = (\<lambda>s. (Inr (f (aka_ticks s)), s\<lparr>aka_ticks := Suc (aka_ticks s)\<rparr>))"

definition nowA :: "AkaEnv \<Rightarrow> int aka_op" where
  "nowA env = readAka (aka_clock env)"

definition emit :: "BusEvent \<Rightarrow> unit aka_op" where
  "emit e = modM (\<lambda>s. s\<lparr>bus := bus s @ [e]\<rparr>)"

definition detached :: "unit aka_op \<Rightarrow> unit aka_op" where
  "detached m = catchM m (\<lambda>_. ret ())"

definition getSession :: "AkaState \<Rightarrow> string \<Rightarrow> SessionState option" where
  "getSession s sid = map_of (sessions s) sid"

definition modSession :: "string \<Rightarrow> (SessionState \<Rightarrow> SessionState) \<Rightarrow> unit aka_op" where
  "modSession sid f = modM (\<lambda>s. s\<lparr>sessions := AList.map_entry sid f (sessions s)\<rparr>)"

definition modRound :: "string \<Rightarrow> nat \<Rightarrow> (RoundState \<Rightarrow> RoundState) \<Rightarrow> unit aka_op" where
  "modRound sid r f = modSession sid (\<lambda>ss. ss\<lparr>ss_roundStates := AList.map_entry r f (ss_roundStates ss)\<rparr>)"

text \<open>Access to a session that is present.\<close>

definition withSession :: "string \<Rightarrow> (SessionState \<Rightarrow> 'a aka_op) \<Rightarrow> 'a aka_op" where
  "withSession sid f = bindM (getM (\<lambda>s. getSession s sid))
     (\<lambda>so. case so of None \<Rightarrow> throw ''TypeError'' | Some session \<Rightarrow> f session)"

definition setStatus :: "SessionStatus \<Rightarrow> SessionState \<Rightarrow> SessionState" where
  "setStatus st ss = ss\<lparr>ss_config := (ss_config ss)\<lparr>sc_status := st\<rparr>\<rparr>"

section \<open>Timers\<close>

definition clearTimer :: "string \<Rightarrow> unit aka_op" where
  "clearTimer key = modM (\<lambda>s. s\<lparr>timers := AList.delete key (timers s)\<rparr>)"

definition setTimer :: "string \<Rightarrow> int \<Rightarrow> TimerAction \<Rightarrow> unit aka_op" where
  "setTimer key ms fn = bindM (clearTimer key)
     (\<lambda>_. modM (\<lambda>s. s\<lparr>timers := AList.update key \<lparr>tm_ms = ms, tm_action = fn, tm_armed = True\<rparr> (timers s)\<rparr>))"

definition setTimeout :: "TimerAction \<Rightarrow> unit aka_op" where
  "setTimeout fn = modM (\<lambda>s. s\<lparr>looseTimers := looseTimers s @ [fn]\<rparr>)"

definition accept_key :: "string \<Rightarrow> string" where
  "accept_key sid = ''accept-'' @ sid"

definition input_key :: "string \<Rightarrow> nat \<Rightarrow> string" where
  "input_key sid r = ''input-'' @ sid @ ''-'' @ show_nat r"

definition timeout_key :: "string \<Rightarrow> nat \<Rightarrow> string" where
  "timeout_key sid r = ''timeout-'' @ sid @ ''-'' @ show_nat r"

definition grace_key :: "string \<Rightarrow> nat \<Rightarrow> string" where
  "grace_key sid r = ''proposer-grace-'' @ sid @ ''-'' @ show_nat r"

section \<open>Gossip topics\<close>

definition contextGraphSessionsTopic :: "string \<Rightarrow> string" where
  "contextGraphSessionsTopic cg = ''dkg/context-graph/'' @ cg @ ''/sessions''"

definition sessionTopic :: "string \<Rightarrow> string \<Rightarrow> string" where
  "sessionTopic cg sid = ''dkg/context-graph/'' @ cg @ ''/sessions/'' @ sid"

definition ensureTopicSubscription :: "string \<Rightarrow> unit aka_op" where
  "ensureTopicSubscription topic = modM (\<lambda>s.
     if topic \<in> set (gh_bound s) then s
     else s\<lparr>gs_topics := set_add topic (gs_topics s), gs_handlers := set_add topic (gs_handlers s),
            gh_bound := gh_bound s @ [topic]\<rparr>)"

definition teardownTopicSubscription :: "string \<Rightarrow> unit aka_op" where
  "teardownTopicSubscription topic = modM (\<lambda>s.
     s\<lparr>gs_handlers := removeAll topic (gs_handlers s), gh_bound := removeAll topic (gh_bound s),
       gs_topics := removeAll topic (gs_topics s), gh_handlers := AList.delete topic (gh_handlers s)\<rparr>)"

definition gh_subscribeContextGraph :: "string \<Rightarrow> unit aka_op" where
  "gh_subscribeContextGraph cg = ensureTopicSubscription (contextGraphSessionsTopic cg)"

definition gh_unsubscribeContextGraph :: "string \<Rightarrow> unit aka_op" where
  "gh_unsubscribeContextGraph cg = teardownTopicSubscription (contextGraphSessionsTopic cg)"

definition subscribeSession :: "string \<Rightarrow> string \<Rightarrow> unit aka_op" where
  "subscribeSession cg sid = ensureTopicSubscription (sessionTopic cg sid)"

definition unsubscribeSession :: "string \<Rightarrow> string \<Rightarrow> unit aka_op" where
  "unsubscribeSession cg sid = teardownTopicSubscription (sessionTopic cg sid)"

definition onEvent :: "string \<Rightarrow> nat \<Rightarrow> unit aka_op" where
  "onEvent topic h = modM (\<lambda>s. s\<lparr>gh_handlers :=
     AList.update topic (set_add h (case map_of (gh_handlers s) topic of None \<Rightarrow> [] | Some hs \<Rightarrow> hs)) (gh_handlers s)\<rparr>)"

definition offEvent :: "string \<Rightarrow> nat \<Rightarrow> unit aka_op" where
  "offEvent topic h = modM (\<lambda>s. case map_of (gh_handlers s) topic of
       None \<Rightarrow> s
     | Some hs \<Rightarrow> s\<lparr>gh_handlers := (if removeAll h hs = [] then AList.delete topic (gh_handlers s)
                                   else AList.update topic (removeAll h hs) (gh_handlers s))\<rparr>)"

text \<open>\<^verbatim>\<open>publishEvent\<close> rejects when the gossip layer gives up.\<close>

definition publishEvent :: "AkaEnv \<Rightarrow> string \<Rightarrow> AKAEvent \<Rightarrow> unit aka_op" where
  "publishEvent env topic event =
     bindM (readAka (publish_ok env)) (\<lambda>ok.
     if ok then modM (\<lambda>s. s\<lparr>published := published s @ [(topic, encodeAKAEvent env event)]\<rparr>)
     else throw ''publish failed'')"

definition subscribeContextGraph :: "string \<Rightarrow> unit aka_op" where
  "subscribeContextGraph cg =
     bindM (gh_subscribeContextGraph cg) (\<lambda>_. onEvent (contextGraphSessionsTopic cg) incomingEventHandler)"

section \<open>Sessions and rounds\<close>

definition initSessionState :: "SessionConfig \<Rightarrow> bytes \<Rightarrow> SessionState" where
  "initSessionState config genesisState =
     \<lparr>ss_config = config, ss_currentRound = 0, ss_latestFinalizedRound = 0,
      ss_latestStateHash = sc_genesisStateHash config, ss_latestStateBytes = genesisState, ss_roundStates = [],
      ss_equivocators = [], ss_inactiveMembers = [], ss_consecutiveSkips = 0, ss_acceptedMembers = []\<rparr>"

text \<open>\<^verbatim>\<open>membership[i].peerId\<close>, which throws out of range.\<close>

definition peer_at :: "SessionMember list \<Rightarrow> nat \<Rightarrow> string + string" where
  "peer_at ms i = (if i < length ms then Inr (m_peerId (ms ! i)) else Inl ''TypeError'')"

definition new_round :: "nat \<Rightarrow> string \<Rightarrow> RoundState" where
  "new_round r proposer =
     \<lparr>rs_round = r, rs_status = R_awaiting_start, rs_proposerPeerId = proposer, rs_viewChangeCount = 0, rs_inputs = [],
      rs_proposal = None, rs_acks = [], rs_ackSignatures = [], rs_startTime = None, rs_deadline = None\<rparr>"

definition getOrCreateRoundState :: "string \<Rightarrow> nat \<Rightarrow> RoundState aka_op" where
  "getOrCreateRoundState sid r = withSession sid (\<lambda>session.
     case round_of session r of
       Some rs \<Rightarrow> ret rs
     | None \<Rightarrow>
         let ms = sc_membership (ss_config session); N = length ms in
         bindM (liftE (peer_at ms (r mod N))) (\<lambda>proposer.
         bindM (modSession sid (\<lambda>ss. ss\<lparr>ss_roundStates := AList.update r (new_round r proposer) (ss_roundStates ss)\<rparr>))
         (\<lambda>_. ret (new_round r proposer))))"

definition getStateBytes :: "SessionState \<Rightarrow> bytes" where
  "getStateBytes session = ss_latestStateBytes session"

definition buildEvent :: "AkaEnv \<Rightarrow> AKAEventType \<Rightarrow> string \<Rightarrow> nat \<Rightarrow> string \<Rightarrow> bytes \<Rightarrow> AKAEvent aka_op" where
  "buildEvent env ty sid r prevStateHash payload =
     bindM (nowA env) (\<lambda>t.
     withSession sid (\<lambda>session.
     let nonce = localPeerId env @ ''-'' @ take 8 sid @ ''-'' @ type_text ty @ ''-'' @ show_nat r @ ''-'' @ show_int t;
         ctx = \<lparr>ctx_domain = ''AKA-v1'', ctx_network = network env,
                ctx_contextGraphId = sc_contextGraphId (ss_config session), ctx_sessionId = sid, ctx_round = r, ctx_type = ty\<rparr>;
         signature = signAKAPayload env ctx payload (secretKey env)
     in bindM (nowA env) (\<lambda>t'.
        ret \<lparr>ev_mode = ''AKA'', ev_type = ty, ev_sessionId = sid, ev_round = r, ev_prevStateHash = prevStateHash,
             ev_signerPeerId = localPeerId env, ev_signature = signature, ev_timestamp = t', ev_nonce = nonce,
             ev_payload = payload\<rparr>)))"

text \<open>\<^verbatim>\<open>buildEvent\<close> followed by \<^verbatim>\<open>publishEvent\<close> on the session's topic.\<close>

definition sendEvent :: "AkaEnv \<Rightarrow> AKAEventType \<Rightarrow> string \<Rightarrow> nat \<Rightarrow> string \<Rightarrow> bytes \<Rightarrow> unit aka_op" where
  "sendEvent env ty sid r prevStateHash payload =
     bindM (buildEvent env ty sid r prevStateHash payload) (\<lambda>event.
     withSession sid (\<lambda>session. publishEvent env (sessionTopic (sc_contextGraphId (ss_config session)) sid) event))"

definition abortSession :: "AkaEnv \<Rightarrow> string \<Rightarrow> string \<Rightarrow> unit aka_op" where
  "abortSession env sid reason =
     bindM (getM (\<lambda>s. getSession s sid)) (\<lambda>so. case so of None \<Rightarrow> ret () | Some session \<Rightarrow>
     bindM (modSession sid (setStatus St_aborted)) (\<lambda>_.
     bindM (sendEvent env E_SessionAborted sid (ss_currentRound session) (ss_latestStateHash session) (utf8 reason)) (\<lambda>_.
     bindM (unsubscribeSession (sc_contextGraphId (ss_config session)) sid) (\<lambda>_.
     emit (SESSION_ABORTED sid (Some reason))))))"

section \<open>The calls of the application\<close>

definition createSession ::
  "AkaEnv \<Rightarrow> string \<Rightarrow> string \<Rightarrow> SessionMember list \<Rightarrow> QuorumPolicy \<Rightarrow> ReducerConfig \<Rightarrow> nat \<Rightarrow> nat option
   \<Rightarrow> SessionConfig aka_op" where
  "createSession env cg appId membership quorumPolicy reducerConfig roundTimeout maxRounds =
     (let peerIds = map m_peerId membership in
      bindM (liftE (throw_if (length membership < 2) ''membership must have at least 2 members'')) (\<lambda>_.
      bindM (liftE (throw_if (\<not> distinct peerIds) ''duplicate peerId in membership'')) (\<lambda>_.
      bindM (liftE (throw_if (localPeerId env \<notin> set peerIds) ''localPeerId must be included in membership'')) (\<lambda>_.
      bindM (getM (\<lambda>s. resolve (registry s) reducerConfig)) (\<lambda>ro. case ro of
        None \<Rightarrow> throw (''reducer '' @ rc_name reducerConfig @ ''@'' @ rc_version reducerConfig
                        @ '' not found or hash mismatch'')
      | Some reducer \<Rightarrow>
      bindM (nowA env) (\<lambda>t0.
      bindM (nowA env) (\<lambda>t1.
      bindM (readAka (randomSuffix env)) (\<lambda>rnd.
      let createdAt = toISOString env t0;
          nonce = show_int t1 @ ''-'' @ rnd;
          sid = computeSessionId env cg (localPeerId env) createdAt nonce;
          membershipRoot = computeMembershipRoot env membership
      in
      bindM (liftE (rm_genesisState reducer membership)) (\<lambda>genesisState.
      let genesisStateHash = computeStateHash env genesisState;
          config = \<lparr>sc_sessionId = sid, sc_contextGraphId = cg, sc_appId = appId, sc_createdBy = localPeerId env,
                    sc_createdAt = createdAt, sc_membership = membership, sc_membershipRoot = membershipRoot,
                    sc_quorumPolicy = quorumPolicy, sc_reducer = reducerConfig, sc_genesisStateHash = genesisStateHash,
                    sc_roundTimeout = roundTimeout, sc_maxRounds = maxRounds, sc_status = St_proposed, sc_configHash = []\<rparr>;
          sessionConfig = config\<lparr>sc_configHash := computeConfigHash env config\<rparr>
      in
      bindM (modM (\<lambda>s. s\<lparr>sessions := AList.update sid (initSessionState sessionConfig genesisState) (sessions s)\<rparr>)) (\<lambda>_.
      bindM (subscribeSession cg sid) (\<lambda>_.
      bindM (onEvent (sessionTopic cg sid) incomingEventHandler) (\<lambda>_.
      bindM (buildEvent env E_SessionProposed sid 0 genesisStateHash (encodeSessionConfig env sessionConfig)) (\<lambda>event.
      bindM (publishEvent env (contextGraphSessionsTopic cg) event) (\<lambda>_.
      bindM (emit (SESSION_PROPOSED sid sessionConfig)) (\<lambda>_.
      bindM (setTimer (accept_key sid) (acceptTimeoutMs env) (A_abort sid ''acceptance timeout'')) (\<lambda>_.
      ret sessionConfig))))))))))))))))"

definition requireSession :: "string \<Rightarrow> (SessionState \<Rightarrow> 'a aka_op) \<Rightarrow> 'a aka_op" where
  "requireSession sid f = bindM (getM (\<lambda>s. getSession s sid))
     (\<lambda>so. case so of None \<Rightarrow> throw (''session '' @ sid @ '' not found'') | Some session \<Rightarrow> f session)"

definition acceptSession :: "AkaEnv \<Rightarrow> string \<Rightarrow> unit aka_op" where
  "acceptSession env sid = requireSession sid (\<lambda>session.
     sendEvent env E_SessionAccepted sid 0 (sc_genesisStateHash (ss_config session))
       (encodeSessionAcceptedPayload env \<lparr>sa_sessionId = sid, sa_configHash = sc_configHash (ss_config session)\<rparr>))"

text \<open>The members other than the creator who have not accepted yet.\<close>

definition pendingMembers :: "SessionState \<Rightarrow> SessionMember list" where
  "pendingMembers session =
     filter (\<lambda>m. m_peerId m \<notin> set (ss_acceptedMembers session))
       (filter (\<lambda>m. m_peerId m \<noteq> sc_createdBy (ss_config session)) (sc_membership (ss_config session)))"

definition announceActivation :: "AkaEnv \<Rightarrow> string \<Rightarrow> string \<Rightarrow> unit aka_op" where
  "announceActivation env sid genesisStateHash =
     bindM (modSession sid (setStatus St_active)) (\<lambda>_.
     bindM (clearTimer (accept_key sid)) (\<lambda>_.
     bindM (sendEvent env E_SessionActivated sid 0 genesisStateHash []) (\<lambda>_.
     emit (SESSION_ACTIVATED sid))))"

definition activateSession :: "AkaEnv \<Rightarrow> string \<Rightarrow> unit aka_op" where
  "activateSession env sid = requireSession sid (\<lambda>session.
     if sc_createdBy (ss_config session) \<noteq> localPeerId env then throw ''only the creator can activate a session''
     else if pendingMembers session \<noteq> []
     then throw (''cannot activate: members have not yet accepted: '' @ join_with '', '' (map m_peerId (pendingMembers session)))
     else announceActivation env sid (sc_genesisStateHash (ss_config session)))"

definition roundMismatch :: "nat option \<Rightarrow> nat \<Rightarrow> string + unit" where
  "roundMismatch requested r = (case requested of None \<Rightarrow> Inr () | Some q \<Rightarrow>
     throw_if (q \<noteq> r) (''round mismatch: requested '' @ show_nat q @ '' but current round is '' @ show_nat r))"

text \<open>\<^verbatim>\<open>Math.floor(roundTimeout * 0.8)\<close>.\<close>

definition inputWindow :: "nat \<Rightarrow> int" where
  "inputWindow roundTimeout = int (4 * roundTimeout div 5)"

definition startRound :: "AkaEnv \<Rightarrow> string \<Rightarrow> nat option \<Rightarrow> unit aka_op" where
  "startRound env sid requestedRound = requireSession sid (\<lambda>session.
     bindM (liftE (throw_if (status_text (sc_status (ss_config session)) \<noteq> ''active'') ''session not active'')) (\<lambda>_.
     let r = ss_currentRound session; rt = sc_roundTimeout (ss_config session) in
     bindM (liftE (roundMismatch requestedRound r)) (\<lambda>_.
     bindM (getOrCreateRoundState sid r) (\<lambda>roundState.
     bindM (liftE (throw_if (rs_proposerPeerId roundState \<noteq> localPeerId env)
                     (''not the proposer for round '' @ show_nat r))) (\<lambda>_.
     bindM (nowA env) (\<lambda>t.
     bindM (nowA env) (\<lambda>t'.
     bindM (modRound sid r (\<lambda>rs. rs\<lparr>rs_status := R_collecting_inputs, rs_startTime := Some t',
                                    rs_deadline := Some (t + int rt)\<rparr>)) (\<lambda>_.
     bindM (sendEvent env E_RoundStart sid r (ss_latestStateHash session)
              (encodeRoundStartPayload env \<lparr>rsp_round = r, rsp_prevStateHash = ss_latestStateHash session,
                                            rsp_deadline = t + int rt\<rparr>)) (\<lambda>_.
     bindM (emit (ROUND_STARTED sid r)) (\<lambda>_.
     bindM (setTimer (input_key sid r) (inputWindow rt) (A_propose sid r)) (\<lambda>_.
     setTimer (timeout_key sid r) (int rt) (A_timeout sid r))))))))))))"

definition submitInput :: "AkaEnv \<Rightarrow> string \<Rightarrow> bytes \<Rightarrow> nat option \<Rightarrow> unit aka_op" where
  "submitInput env sid data requestedRound = requireSession sid (\<lambda>session.
     let r = ss_currentRound session in
     bindM (liftE (roundMismatch requestedRound r)) (\<lambda>_.
     case round_of session r of
       None \<Rightarrow> throw (''round '' @ show_nat r @ '' is not collecting inputs'')
     | Some rs \<Rightarrow>
         if rs_status rs \<noteq> R_collecting_inputs then throw (''round '' @ show_nat r @ '' is not collecting inputs'')
         else sendEvent env E_InputSubmitted sid r (ss_latestStateHash session)
                (encodeInputPayload env \<lparr>ip_round = r, ip_data = data\<rparr>)))"

definition listSessions :: "AkaState \<Rightarrow> string \<Rightarrow> string \<Rightarrow> SessionConfig list" where
  "listSessions s cg status = filter (\<lambda>c. (cg = [] \<or> sc_contextGraphId c = cg) \<and> (status = [] \<or> status_text (sc_status c) = status))
     (map (ss_config \<circ> snd) (sessions s))"

definition destroy :: "unit aka_op" where
  "destroy = modM (\<lambda>s. s\<lparr>timers := [], sessions := []\<rparr>)"

section \<open>Proposals, acknowledgements and finality\<close>

definition validateAndAck :: "AkaEnv \<Rightarrow> string \<Rightarrow> nat \<Rightarrow> RoundProposalPayload \<Rightarrow> unit aka_op" where
  "validateAndAck env sid r proposal = withSession sid (\<lambda>session.
     bindM (getM (\<lambda>s. resolve (registry s) (sc_reducer (ss_config session)))) (\<lambda>ro. case ro of None \<Rightarrow> ret () | Some reducer \<Rightarrow>
     if computeInputSetHash env (rp_includedInputs proposal) \<noteq> rp_inputSetHash proposal then ret ()
     else bindM (liftE (rm_reduce reducer (getStateBytes session) (rp_includedInputs proposal))) (\<lambda>localNextState.
     if computeStateHash env localNextState \<noteq> rp_nextStateHash proposal then ret ()
     else let config = ss_config session;
              turnCommitment = computeTurnCommitment env (sc_sessionId config) r (rp_prevStateHash proposal)
                (rp_inputSetHash proposal) (rp_nextStateHash proposal) (rc_version (sc_reducer config)) (sc_membershipRoot config);
              ackPayload = \<lparr>ra_round = r, ra_prevStateHash = rp_prevStateHash proposal,
                ra_inputSetHash = rp_inputSetHash proposal, ra_nextStateHash = rp_nextStateHash proposal,
                ra_turnCommitment = turnCommitment\<rparr>
          in sendEvent env E_RoundAck (sc_sessionId config) r (rp_prevStateHash proposal) (encodeRoundAckPayload env ackPayload))))"

text \<open>The proposal a proposer builds from the inputs it holds: members in code unit order.\<close>

definition sortedMembers :: "RoundState \<Rightarrow> string list" where
  "sortedMembers rs = sort (map fst (rs_inputs rs))"

definition sortedInputs :: "RoundState \<Rightarrow> bytes list" where
  "sortedInputs rs = map (\<lambda>m. case map_of (rs_inputs rs) m of None \<Rightarrow> [] | Some i \<Rightarrow> ip_data i) (sortedMembers rs)"

definition proposeRound :: "AkaEnv \<Rightarrow> string \<Rightarrow> nat \<Rightarrow> unit aka_op" where
  "proposeRound env sid r =
     bindM (getM (\<lambda>s. getSession s sid)) (\<lambda>so. case so of None \<Rightarrow> ret () | Some session \<Rightarrow>
     (case round_of session r of None \<Rightarrow> ret () | Some rs \<Rightarrow>
     if rs_proposerPeerId rs \<noteq> localPeerId env then ret ()
     else if rs_proposal rs \<noteq> None then ret ()
     else bindM (getM (\<lambda>s. resolve (registry s) (sc_reducer (ss_config session)))) (\<lambda>ro. case ro of None \<Rightarrow> ret () | Some reducer \<Rightarrow>
     bindM (liftE (rm_reduce reducer (getStateBytes session) (sortedInputs rs))) (\<lambda>nextStateBytes.
     let proposal = \<lparr>rp_round = r, rp_prevStateHash = ss_latestStateHash session,
           rp_inputSetHash = computeInputSetHash env (sortedInputs rs), rp_nextStateHash = computeStateHash env nextStateBytes,
           rp_includedMembers = sortedMembers rs, rp_includedInputs = sortedInputs rs\<rparr>
     in bindM (modRound sid r (\<lambda>rs. rs\<lparr>rs_proposal := Some proposal, rs_status := R_awaiting_acks\<rparr>)) (\<lambda>_.
        bindM (sendEvent env E_RoundProposal sid r (ss_latestStateHash session) (encodeRoundProposalPayload env proposal)) (\<lambda>_.
        validateAndAck env sid r proposal))))))"

text \<open>\<^verbatim>\<open>maxRounds && round >= maxRounds\<close>.\<close>

definition lastRound :: "SessionConfig \<Rightarrow> nat \<Rightarrow> bool" where
  "lastRound config r = (case sc_maxRounds config of None \<Rightarrow> False | Some n \<Rightarrow> n \<noteq> 0 \<and> n \<le> r)"

definition quorumReached :: "SessionState \<Rightarrow> nat \<Rightarrow> bool" where
  "quorumReached session acks = isQuorumMet (sc_quorumPolicy (ss_config session))
     (getActiveMemberCount (length (sc_membership (ss_config session))) (length (ss_equivocators session))
        (length (ss_inactiveMembers session))) acks"

text \<open>The reducer's result becomes the state, when the reducer is registered here.\<close>

definition advanceState :: "string \<Rightarrow> RoundProposalPayload \<Rightarrow> unit aka_op" where
  "advanceState sid proposal = withSession sid (\<lambda>session.
     bindM (getM (\<lambda>s. resolve (registry s) (sc_reducer (ss_config session)))) (\<lambda>ro. case ro of None \<Rightarrow> ret () | Some reducer \<Rightarrow>
     bindM (liftE (rm_reduce reducer (getStateBytes session) (rp_includedInputs proposal))) (\<lambda>nextStateBytes.
     modSession sid (\<lambda>ss. ss\<lparr>ss_latestStateBytes := nextStateBytes\<rparr>))))"

definition markFinalized :: "string \<Rightarrow> nat \<Rightarrow> RoundProposalPayload \<Rightarrow> unit aka_op" where
  "markFinalized sid r proposal =
     bindM (modRound sid r (\<lambda>rs. rs\<lparr>rs_status := R_finalized\<rparr>)) (\<lambda>_.
     modSession sid (\<lambda>ss. ss\<lparr>ss_latestFinalizedRound := r, ss_latestStateHash := rp_nextStateHash proposal,
                              ss_consecutiveSkips := 0\<rparr>))"

text \<open>The end of a finalized round: its timers go, and the next round begins unless it was the last.\<close>

definition nextRoundAfter :: "AkaEnv \<Rightarrow> string \<Rightarrow> nat \<Rightarrow> RoundProposalPayload \<Rightarrow> unit aka_op" where
  "nextRoundAfter env sid r proposal =
     bindM (clearTimer (timeout_key sid r)) (\<lambda>_.
     bindM (clearTimer (input_key sid r)) (\<lambda>_.
     bindM (emit (ROUND_FINALIZED sid r (rp_nextStateHash proposal))) (\<lambda>_.
     withSession sid (\<lambda>session.
     if lastRound (ss_config session) r then ret ()
     else bindM (modSession sid (\<lambda>ss. ss\<lparr>ss_currentRound := r + 1\<rparr>)) (\<lambda>_.
          bindM (getOrCreateRoundState sid (r + 1)) (\<lambda>next.
          if rs_proposerPeerId next = localPeerId env then setTimeout (A_start sid) else ret ()))))))"

definition checkQuorumAndFinalize :: "AkaEnv \<Rightarrow> string \<Rightarrow> nat \<Rightarrow> unit aka_op" where
  "checkQuorumAndFinalize env sid r = withSession sid (\<lambda>session.
     case round_of session r of None \<Rightarrow> ret () | Some rs \<Rightarrow>
     (case rs_proposal rs of None \<Rightarrow> ret () | Some proposal \<Rightarrow>
     if rs_status rs = R_finalized then ret ()
     else if rs_proposerPeerId rs \<noteq> localPeerId env then ret ()
     else if \<not> quorumReached session (length (rs_acks rs)) then ret ()
     else bindM (advanceState sid proposal) (\<lambda>_.
          bindM (markFinalized sid r proposal) (\<lambda>_.
          let signerPeerIds = map fst (rs_acks rs);
              signatures = map (\<lambda>p. case map_of (rs_ackSignatures rs) p of None \<Rightarrow> [] | Some sg \<Rightarrow> sg) signerPeerIds
          in bindM (sendEvent env E_RoundFinalized sid r (rp_prevStateHash proposal)
                     (encodeRoundFinalizedPayload env \<lparr>rf_round = r, rf_nextStateHash = rp_nextStateHash proposal,
                        rf_signerPeerIds = signerPeerIds, rf_signatures = signatures\<rparr>)) (\<lambda>_.
             nextRoundAfter env sid r proposal)))))"

section \<open>Incoming events\<close>

definition proposed_context :: "AkaEnv \<Rightarrow> SessionConfig \<Rightarrow> SigningContext" where
  "proposed_context env config =
     \<lparr>ctx_domain = ''AKA-v1'', ctx_network = network env, ctx_contextGraphId = sc_contextGraphId config,
      ctx_sessionId = sc_sessionId config, ctx_round = 0, ctx_type = E_SessionProposed\<rparr>"

text \<open>A malformed proposal, and an error while it is handled, are dropped.\<close>

definition handleSessionProposed :: "AkaEnv \<Rightarrow> AKAEvent \<Rightarrow> unit aka_op" where
  "handleSessionProposed env event = detached (
     case decodeSessionConfig env (ev_payload event) of None \<Rightarrow> throw ''malformed'' | Some config \<Rightarrow>
     if computeConfigHash env config \<noteq> sc_configHash config then ret ()
     else if sc_sessionId config \<noteq> ev_sessionId event then ret ()
     else if ev_signerPeerId event \<noteq> sc_createdBy config then ret ()
     else (case find_member (sc_membership config) (ev_signerPeerId event) of None \<Rightarrow> ret () | Some creator \<Rightarrow>
     (case verifyAKASignature env (proposed_context env config) (ev_payload event) (ev_signature event) (m_pubKey creator) of
        None \<Rightarrow> throw ''verify''
      | Some sigValid \<Rightarrow>
     if \<not> sigValid then ret ()
     else if \<not> list_ex (\<lambda>m. m_peerId m = localPeerId env) (sc_membership config) then ret ()
     else bindM (getM (\<lambda>s. resolve (registry s) (sc_reducer config))) (\<lambda>ro. case ro of None \<Rightarrow> ret () | Some reducer \<Rightarrow>
     bindM (liftE (rm_genesisState reducer (sc_membership config))) (\<lambda>genesisState.
     bindM (modM (\<lambda>s. s\<lparr>sessions := AList.update (sc_sessionId config) (initSessionState config genesisState) (sessions s)\<rparr>)) (\<lambda>_.
     bindM (subscribeSession (sc_contextGraphId config) (sc_sessionId config)) (\<lambda>_.
     bindM (onEvent (sessionTopic (sc_contextGraphId config) (sc_sessionId config)) incomingEventHandler) (\<lambda>_.
     emit (SESSION_PROPOSED (sc_sessionId config) config)))))))))"

definition handleSessionAccepted :: "AKAEvent \<Rightarrow> unit aka_op" where
  "handleSessionAccepted event = (let sid = ev_sessionId event in
     bindM (modSession sid (\<lambda>ss. ss\<lparr>ss_acceptedMembers := set_add (ev_signerPeerId event) (ss_acceptedMembers ss)\<rparr>))
       (\<lambda>_. emit (MEMBER_ACCEPTED sid (ev_signerPeerId event))))"

definition becomeActive :: "AkaEnv \<Rightarrow> string \<Rightarrow> unit aka_op" where
  "becomeActive env sid =
     bindM (modSession sid (setStatus St_active)) (\<lambda>_.
     bindM (clearTimer (accept_key sid)) (\<lambda>_.
     bindM (emit (SESSION_ACTIVATED sid)) (\<lambda>_.
     bindM (getOrCreateRoundState sid 1) (\<lambda>rs.
     bindM (modSession sid (\<lambda>ss. ss\<lparr>ss_currentRound := 1\<rparr>)) (\<lambda>_.
     if rs_proposerPeerId rs = localPeerId env
     then setTimer (grace_key sid 1) (proposerGraceMs env) (A_start sid) else ret ())))))"

definition handleSessionActivated :: "AkaEnv \<Rightarrow> AKAEvent \<Rightarrow> unit aka_op" where
  "handleSessionActivated env event = withSession (ev_sessionId event) (\<lambda>session.
     if pendingMembers session \<noteq> [] then ret () else becomeActive env (ev_sessionId event))"

definition decoded :: "'a option \<Rightarrow> ('a \<Rightarrow> 'b aka_op) \<Rightarrow> 'b aka_op" where
  "decoded p f = (case p of None \<Rightarrow> throw ''malformed payload'' | Some x \<Rightarrow> f x)"

definition handleRoundStart :: "AkaEnv \<Rightarrow> AKAEvent \<Rightarrow> unit aka_op" where
  "handleRoundStart env event = (let sid = ev_sessionId event; r = ev_round event in
     bindM (getOrCreateRoundState sid r) (\<lambda>_.
     bindM (modRound sid r (\<lambda>rs. rs\<lparr>rs_status := R_collecting_inputs, rs_startTime := Some (ev_timestamp event)\<rparr>)) (\<lambda>_.
     decoded (decodeRoundStartPayload env (ev_payload event)) (\<lambda>payload.
     withSession sid (\<lambda>session.
     let deadline = (if rsp_deadline payload \<noteq> 0 then rsp_deadline payload
                     else ev_timestamp event + int (sc_roundTimeout (ss_config session)))
     in bindM (modRound sid r (\<lambda>rs. rs\<lparr>rs_deadline := Some deadline\<rparr>)) (\<lambda>_. emit (ROUND_STARTED sid r)))))))"

definition handleInputSubmitted :: "AkaEnv \<Rightarrow> AKAEvent \<Rightarrow> unit aka_op" where
  "handleInputSubmitted env event = (let sid = ev_sessionId event; r = ev_round event; peer = ev_signerPeerId event in
     withSession sid (\<lambda>session.
     case round_of session r of None \<Rightarrow> ret () | Some rs \<Rightarrow>
     if rs_status rs \<noteq> R_collecting_inputs then ret ()
     else if map_of (rs_inputs rs) peer \<noteq> None then ret ()
     else decoded (decodeInputPayload env (ev_payload event)) (\<lambda>payload.
          bindM (modRound sid r (\<lambda>rs. rs\<lparr>rs_inputs := AList.update peer payload (rs_inputs rs)\<rparr>)) (\<lambda>_.
          emit (INPUT_RECEIVED sid r peer)))))"

definition handleRoundProposal :: "AkaEnv \<Rightarrow> AKAEvent \<Rightarrow> unit aka_op" where
  "handleRoundProposal env event = (let sid = ev_sessionId event; r = ev_round event in
     withSession sid (\<lambda>session.
     case round_of session r of None \<Rightarrow> ret () | Some rs \<Rightarrow>
     if ev_signerPeerId event \<noteq> rs_proposerPeerId rs then ret ()
     else decoded (decodeRoundProposalPayload env (ev_payload event)) (\<lambda>proposal.
          bindM (modRound sid r (\<lambda>rs. rs\<lparr>rs_proposal := Some proposal, rs_status := R_awaiting_acks\<rparr>)) (\<lambda>_.
          detached (validateAndAck env sid r proposal)))))"

definition ack_matches :: "RoundAckPayload \<Rightarrow> RoundProposalPayload \<Rightarrow> bool" where
  "ack_matches ack proposal \<longleftrightarrow> ra_prevStateHash ack = rp_prevStateHash proposal
     \<and> ra_inputSetHash ack = rp_inputSetHash proposal \<and> ra_nextStateHash ack = rp_nextStateHash proposal"

definition handleRoundAck :: "AkaEnv \<Rightarrow> AKAEvent \<Rightarrow> unit aka_op" where
  "handleRoundAck env event = (let sid = ev_sessionId event; r = ev_round event; peer = ev_signerPeerId event in
     withSession sid (\<lambda>session.
     case round_of session r of None \<Rightarrow> ret () | Some rs \<Rightarrow>
     decoded (decodeRoundAckPayload env (ev_payload event)) (\<lambda>ack.
     if (case rs_proposal rs of None \<Rightarrow> False | Some proposal \<Rightarrow> \<not> ack_matches ack proposal) then ret ()
     else if (case map_of (rs_acks rs) peer of None \<Rightarrow> False | Some existing \<Rightarrow> detectEquivocation existing ack)
     then bindM (modSession sid (\<lambda>ss. ss\<lparr>ss_equivocators := set_add peer (ss_equivocators ss)\<rparr>)) (\<lambda>_.
          bindM (modRound sid r (\<lambda>rs. rs\<lparr>rs_acks := AList.delete peer (rs_acks rs),
                                         rs_ackSignatures := AList.delete peer (rs_ackSignatures rs)\<rparr>)) (\<lambda>_.
          emit (EQUIVOCATION_DETECTED sid r peer)))
     else bindM (modRound sid r (\<lambda>rs. rs\<lparr>rs_acks := AList.update peer ack (rs_acks rs),
                                         rs_ackSignatures := AList.update peer (ev_signature event) (rs_ackSignatures rs)\<rparr>)) (\<lambda>_.
          bindM (emit (ACK_RECEIVED sid r peer (length (AList.update peer ack (rs_acks rs))))) (\<lambda>_.
          detached (checkQuorumAndFinalize env sid r))))))"

text \<open>\<^verbatim>\<open>new Map(membership.map(m => [m.peerId, m]))\<close>: a later entry replaces an earlier one.\<close>

definition memberByPeerId :: "SessionMember list \<Rightarrow> string \<Rightarrow> SessionMember option" where
  "memberByPeerId ms p = map_of (rev (map (\<lambda>m. (m_peerId m, m)) ms)) p"

definition expectedAck :: "AkaEnv \<Rightarrow> SessionConfig \<Rightarrow> nat \<Rightarrow> RoundProposalPayload \<Rightarrow> string \<Rightarrow> RoundAckPayload" where
  "expectedAck env config r proposal nextStateHash =
     \<lparr>ra_round = r, ra_prevStateHash = rp_prevStateHash proposal, ra_inputSetHash = rp_inputSetHash proposal,
      ra_nextStateHash = nextStateHash,
      ra_turnCommitment = computeTurnCommitment env (sc_sessionId config) r (rp_prevStateHash proposal)
        (rp_inputSetHash proposal) nextStateHash (rc_version (sc_reducer config)) (sc_membershipRoot config)\<rparr>"

definition ack_context :: "AkaEnv \<Rightarrow> SessionConfig \<Rightarrow> AKAEvent \<Rightarrow> SigningContext" where
  "ack_context env config event =
     \<lparr>ctx_domain = ''AKA-v1'', ctx_network = network env, ctx_contextGraphId = sc_contextGraphId config,
      ctx_sessionId = ev_sessionId event, ctx_round = ev_round event, ctx_type = E_RoundAck\<rparr>"

text \<open>The checks of a finality certificate; an error among them counts as a failure.\<close>

definition certificate_ok :: "AkaEnv \<Rightarrow> AKAEvent \<Rightarrow> SessionState \<Rightarrow> RoundProposalPayload \<Rightarrow> RoundFinalizedPayload \<Rightarrow> bool" where
  "certificate_ok env event session proposal fin =
     (let config = ss_config session;
          ids = rf_signerPeerIds fin;
          ack = encodeRoundAckPayload env (expectedAck env config (ev_round event) proposal (rf_nextStateHash fin))
      in distinct ids
       \<and> length (rf_signatures fin) = length ids
       \<and> \<not> list_ex (\<lambda>sig. length sig < 64) (rf_signatures fin)
       \<and> quorumReached session (card (set ids))
       \<and> list_all (\<lambda>p. memberByPeerId (sc_membership config) p \<noteq> None) ids
       \<and> list_all (\<lambda>(p, sig). case memberByPeerId (sc_membership config) p of
             None \<Rightarrow> False
           | Some member \<Rightarrow> verifyAKASignature env (ack_context env config event) ack sig (m_pubKey member) = Some True)
           (zip ids (rf_signatures fin)))"

definition handleRoundFinalized :: "AkaEnv \<Rightarrow> AKAEvent \<Rightarrow> unit aka_op" where
  "handleRoundFinalized env event = (let sid = ev_sessionId event; r = ev_round event in
     withSession sid (\<lambda>session.
     case Option.bind (round_of session r) rs_proposal of None \<Rightarrow> ret () | Some proposal \<Rightarrow>
     (case decodeRoundFinalizedPayload env (ev_payload event) of None \<Rightarrow> ret () | Some fin \<Rightarrow>
     if \<not> certificate_ok env event session proposal fin then ret ()
     else bindM (advanceState sid proposal) (\<lambda>_.
          bindM (markFinalized sid r proposal) (\<lambda>_.
          nextRoundAfter env sid r proposal)))))"

definition handleSessionFinalized :: "AKAEvent \<Rightarrow> unit aka_op" where
  "handleSessionFinalized event = (let sid = ev_sessionId event in
     bindM (modSession sid (setStatus St_finalized)) (\<lambda>_.
     withSession sid (\<lambda>session.
     bindM (unsubscribeSession (sc_contextGraphId (ss_config session)) sid) (\<lambda>_.
     emit (SESSION_FINALIZED sid)))))"

definition dispatchEvent :: "AkaEnv \<Rightarrow> AKAEvent \<Rightarrow> unit aka_op" where
  "dispatchEvent env event = (let t = type_text (ev_type event) in
     if t = ''SessionAccepted'' then handleSessionAccepted event
     else if t = ''SessionActivated'' then handleSessionActivated env event
     else if t = ''RoundStart'' then handleRoundStart env event
     else if t = ''InputSubmitted'' then handleInputSubmitted env event
     else if t = ''RoundProposal'' then handleRoundProposal env event
     else if t = ''RoundAck'' then handleRoundAck env event
     else if t = ''RoundFinalized'' then detached (handleRoundFinalized env event)
     else if t = ''SessionFinalized'' then handleSessionFinalized event
     else if t = ''SessionAborted''
     then bindM (modSession (ev_sessionId event) (setStatus St_aborted)) (\<lambda>_. emit (SESSION_ABORTED (ev_sessionId event) None))
     else ret ())"

definition validateM :: "AkaEnv \<Rightarrow> AKAEvent \<Rightarrow> SessionState \<Rightarrow> bool aka_op" where
  "validateM env event session = (\<lambda>s.
     let (verdict, v) = validate env event session (validator s) in
     (case verdict of Throws e \<Rightarrow> Inl e | _ \<Rightarrow> Inr (verdict = Valid), s\<lparr>validator := v\<rparr>))"

definition handleIncomingEvent :: "AkaEnv \<Rightarrow> AKAEvent \<Rightarrow> unit aka_op" where
  "handleIncomingEvent env event =
     bindM (getM (\<lambda>s. getSession s (ev_sessionId event))) (\<lambda>so. case so of
       None \<Rightarrow> if type_text (ev_type event) = ''SessionProposed'' then handleSessionProposed env event else ret ()
     | Some session \<Rightarrow> bindM (validateM env event session) (\<lambda>valid. if valid then dispatchEvent env event else ret ()))"

text \<open>
  A message on a topic reaches the manager when the topic's handler is bound and the manager is
  registered there; a malformed message is dropped.
\<close>

definition receiveMessage :: "AkaEnv \<Rightarrow> string \<Rightarrow> bytes \<Rightarrow> unit aka_op" where
  "receiveMessage env topic data =
     bindM (getM (\<lambda>s. if topic \<in> set (gs_handlers s) then case map_of (gh_handlers s) topic of None \<Rightarrow> [] | Some hs \<Rightarrow> hs else []))
       (\<lambda>handlers. case decodeAKAEvent env data of
          None \<Rightarrow> ret ()
        | Some event \<Rightarrow> forM handlers (\<lambda>_. detached (handleIncomingEvent env event)))"

section \<open>Timeouts\<close>

text \<open>The next member in rotation becomes the proposer of the round.\<close>

definition rotateProposer :: "string \<Rightarrow> nat \<Rightarrow> SessionState \<Rightarrow> nat \<Rightarrow> string aka_op" where
  "rotateProposer sid r session vc = (let ms = sc_membership (ss_config session); N = length ms in
     bindM (modRound sid r (\<lambda>rs. rs\<lparr>rs_status := R_timed_out, rs_viewChangeCount := vc\<rparr>)) (\<lambda>_.
     bindM (liftE (peer_at ms ((r mod N + vc) mod N))) (\<lambda>proposer.
     bindM (modRound sid r (\<lambda>rs. rs\<lparr>rs_proposerPeerId := proposer\<rparr>)) (\<lambda>_.
     ret proposer))))"

text \<open>Every member has had its turn: the round is skipped, and the third skip in a row aborts.\<close>

definition skipRound :: "AkaEnv \<Rightarrow> string \<Rightarrow> nat \<Rightarrow> SessionState \<Rightarrow> unit aka_op" where
  "skipRound env sid r session =
     bindM (modSession sid (\<lambda>ss. ss\<lparr>ss_consecutiveSkips := Suc (ss_consecutiveSkips ss)\<rparr>)) (\<lambda>_.
     if MAX_CONSECUTIVE_SKIPS \<le> Suc (ss_consecutiveSkips session)
     then detached (abortSession env sid ''too many consecutive skips'')
     else bindM (modSession sid (\<lambda>ss. ss\<lparr>ss_currentRound := r + 1\<rparr>)) (\<lambda>_.
          bindM (getOrCreateRoundState sid (r + 1)) (\<lambda>next.
          if rs_proposerPeerId next = localPeerId env then detached (startRound env sid None)
          else setTimer (timeout_key sid (r + 1)) (int (sc_roundTimeout (ss_config session))) (A_timeout sid (r + 1)))))"

definition retryRound :: "AkaEnv \<Rightarrow> string \<Rightarrow> nat \<Rightarrow> SessionState \<Rightarrow> nat \<Rightarrow> string \<Rightarrow> unit aka_op" where
  "retryRound env sid r session vc proposer =
     bindM (modRound sid r (\<lambda>rs. rs\<lparr>rs_status := R_awaiting_start\<rparr>)) (\<lambda>_.
     bindM (if proposer = localPeerId env then detached (startRound env sid None)
            else setTimer (timeout_key sid r) (int (sc_roundTimeout (ss_config session))) (A_timeout sid r)) (\<lambda>_.
     emit (ROUND_TIMEOUT sid r vc proposer)))"

definition handleRoundTimeout :: "AkaEnv \<Rightarrow> string \<Rightarrow> nat \<Rightarrow> unit aka_op" where
  "handleRoundTimeout env sid r =
     bindM (getM (\<lambda>s. getSession s sid)) (\<lambda>so. case so of None \<Rightarrow> ret () | Some session \<Rightarrow>
     (case round_of session r of None \<Rightarrow> ret () | Some rs \<Rightarrow>
     if rs_status rs = R_finalized then ret ()
     else let vc = Suc (rs_viewChangeCount rs) in
       bindM (rotateProposer sid r session vc) (\<lambda>proposer.
       if length (sc_membership (ss_config session)) \<le> vc then skipRound env sid r session
       else retryRound env sid r session vc proposer)))"

fun runAction :: "AkaEnv \<Rightarrow> TimerAction \<Rightarrow> unit aka_op" where
  "runAction env (A_abort sid reason) = detached (abortSession env sid reason)"
| "runAction env (A_start sid) = detached (startRound env sid None)"
| "runAction env (A_propose sid r) = detached (proposeRound env sid r)"
| "runAction env (A_timeout sid r) = handleRoundTimeout env sid r"

definition fireTimer :: "AkaEnv \<Rightarrow> string \<Rightarrow> unit aka_op" where
  "fireTimer env key = bindM (getM (\<lambda>s. map_of (timers s) key)) (\<lambda>t. case t of
     None \<Rightarrow> ret ()
   | Some tm \<Rightarrow> if \<not> tm_armed tm then ret ()
       else bindM (modM (\<lambda>s. s\<lparr>timers := AList.map_entry key (\<lambda>tm. tm\<lparr>tm_armed := False\<rparr>) (timers s)\<rparr>)) (\<lambda>_. runAction env (tm_action tm)))"

definition fireLoose :: "AkaEnv \<Rightarrow> nat \<Rightarrow> unit aka_op" where
  "fireLoose env i = bindM (getM looseTimers) (\<lambda>ts.
     if i < length ts then bindM (modM (\<lambda>s. s\<lparr>looseTimers := take i ts @ drop (Suc i) ts\<rparr>)) (\<lambda>_. runAction env (ts ! i)) else ret ())"

end
