(* ===== verification/AkaSafety.thy ===== *)
theory AkaSafety
  imports AkaManager
begin

text \<open>
  Runs of the session manager and a proof rule for invariants of its sessions. An input is a call of
  the application, a message on a topic or the firing of a timer; a run is a sequence of inputs. The
  locale \<open>aka_invariant\<close> states what an invariant of a single session must be closed under, one
  assumption per kind of update the code makes, and proves that every input keeps it.
\<close>

section \<open>Runs\<close>

datatype AkaInput =
    C_create string string "SessionMember list" QuorumPolicy ReducerConfig nat "nat option"
  | C_accept string | C_activate string | C_start string "nat option" | C_submit string bytes "nat option"
  | C_subscribe string | C_register ReducerModule | C_unregister string string | C_destroy
  | C_message string bytes | C_fire string | C_fireLoose nat

fun aka_exec :: "AkaEnv \<Rightarrow> AkaInput \<Rightarrow> AkaState \<Rightarrow> AkaState" where
  "aka_exec env (C_create cg app ms qp rc rt mr) s = snd (createSession env cg app ms qp rc rt mr s)"
| "aka_exec env (C_accept sid) s = snd (acceptSession env sid s)"
| "aka_exec env (C_activate sid) s = snd (activateSession env sid s)"
| "aka_exec env (C_start sid req) s = snd (startRound env sid req s)"
| "aka_exec env (C_submit sid data req) s = snd (submitInput env sid data req s)"
| "aka_exec env (C_subscribe cg) s = snd (subscribeContextGraph cg s)"
| "aka_exec env (C_register rm) s = s\<lparr>registry := register rm (registry s)\<rparr>"
| "aka_exec env (C_unregister name version) s = s\<lparr>registry := unregister name version (registry s)\<rparr>"
| "aka_exec env C_destroy s = snd (destroy s)"
| "aka_exec env (C_message topic data) s = snd (receiveMessage env topic data s)"
| "aka_exec env (C_fire key) s = snd (fireTimer env key s)"
| "aka_exec env (C_fireLoose i) s = snd (fireLoose env i s)"

inductive aka_reachable :: "AkaEnv \<Rightarrow> (AkaInput \<Rightarrow> bool) \<Rightarrow> AkaState \<Rightarrow> bool" for env allowed where
  start: "aka_reachable env allowed init_aka"
| step: "aka_reachable env allowed s \<Longrightarrow> allowed i \<Longrightarrow> aka_reachable env allowed (aka_exec env i s)"

section \<open>Sessions one by one\<close>

lemma getSession_map_entry [simp]:
  "map_of (AList.map_entry k f xs) k' = (if k = k' then map_option f (map_of xs k') else map_of xs k')"
  by (induction xs) auto

lemma getSession_update [simp]: "map_of (AList.update k v xs) = (map_of xs)(k \<mapsto> v)"
  by (rule update_conv')

definition peers :: "SessionState \<Rightarrow> string set" where
  "peers ss = m_peerId ` set (sc_membership (ss_config ss))"

lemma validate_signer: "fst (validate env e ss v) = Valid \<Longrightarrow> ev_signerPeerId e \<in> peers ss"
  using validate_member [of env e ss v] by (auto simp: peers_def dest!: find_member_Some intro: rev_image_eqI)

text \<open>What no update takes back: the members, the creator, an acceptance.\<close>

definition grows :: "SessionState \<Rightarrow> SessionState \<Rightarrow> bool" where
  "grows ss ss' \<longleftrightarrow> sc_membership (ss_config ss') = sc_membership (ss_config ss)
     \<and> sc_createdBy (ss_config ss') = sc_createdBy (ss_config ss)
     \<and> set (ss_acceptedMembers ss) \<subseteq> set (ss_acceptedMembers ss')"

lemma grows_setStatus [simp]: "grows ss (setStatus st ss)"
  by (simp add: grows_def setStatus_def)

definition stable_cond :: "(SessionState \<Rightarrow> bool) \<Rightarrow> bool" where
  "stable_cond cond \<longleftrightarrow> (\<forall>ss ss'. grows ss ss' \<longrightarrow> cond ss \<longrightarrow> cond ss')"

lemma stableD: "stable_cond cond \<Longrightarrow> grows ss ss' \<Longrightarrow> cond ss \<Longrightarrow> cond ss'"
  by (auto simp: stable_cond_def)

lemma stable_intros: "stable_cond (\<lambda>_. True)" "stable_cond (\<lambda>ss. p \<in> peers ss)" "stable_cond (\<lambda>ss. pendingMembers ss = [])"
  by (auto simp: stable_cond_def grows_def peers_def pendingMembers_def filter_empty_conv)

text \<open>The invariant of all sessions, with a further condition on one of them.\<close>

definition focused ::
  "(SessionValidator \<Rightarrow> bool) \<Rightarrow> (string \<Rightarrow> SessionState \<Rightarrow> bool) \<Rightarrow> string \<Rightarrow> (SessionState \<Rightarrow> bool) \<Rightarrow> AkaState \<Rightarrow> bool" where
  "focused Q I sid cond s \<longleftrightarrow> Q (validator s) \<and> (\<forall>k ss. getSession s k = Some ss \<longrightarrow> I k ss \<and> (k = sid \<longrightarrow> cond ss))"

lemma keeps_same_sessions:
  assumes "\<And>s. sessions (f s) = sessions s" "\<And>s. validator (f s) = validator s"
  shows "keeps (focused Q I sid cond) (modM f)"
  using assms by (auto simp: keeps_def op_simps focused_def getSession_def)

lemma keeps_readAka [keeps_intros]: "keeps (focused Q I sid cond) (readAka f)"
  by (auto simp: keeps_def readAka_def focused_def getSession_def)

lemma keeps_modSession:
  assumes "\<And>ss. I k ss \<Longrightarrow> (k = sid \<Longrightarrow> cond ss) \<Longrightarrow> I k (f ss)" "\<And>ss. grows ss (f ss)" "stable_cond cond"
  shows "keeps (focused Q I sid cond) (modSession k f)"
  using assms stableD [OF assms(3) assms(2)]
  by (auto simp: keeps_def modSession_def op_simps focused_def getSession_def split: if_splits)

lemma keeps_getSession:
  assumes "\<And>ss. I k ss \<Longrightarrow> (k = sid \<Longrightarrow> cond ss) \<Longrightarrow> keeps (focused Q I sid cond) (f ss)" "keeps (focused Q I sid cond) n"
  shows "keeps (focused Q I sid cond) (bindM (getM (\<lambda>s. getSession s k)) (\<lambda>so. case so of None \<Rightarrow> n | Some ss \<Rightarrow> f ss))"
  unfolding keeps_def
proof (intro allI impI)
  fix s assume s: "focused Q I sid cond s"
  show "focused Q I sid cond
          (snd (bindM (getM (\<lambda>s. getSession s k)) (\<lambda>so. case so of None \<Rightarrow> n | Some ss \<Rightarrow> f ss) s))"
  proof (cases "getSession s k")
    case None
    then show ?thesis using assms(2) s by (simp add: op_simps keeps_def)
  next
    case (Some ss)
    then have "keeps (focused Q I sid cond) (f ss)" using s by (intro assms(1)) (auto simp: focused_def)
    then show ?thesis using Some s by (simp add: op_simps keeps_def)
  qed
qed

lemma keeps_withSession:
  assumes "\<And>ss. I k ss \<Longrightarrow> (k = sid \<Longrightarrow> cond ss) \<Longrightarrow> keeps (focused Q I sid cond) (f ss)"
  shows "keeps (focused Q I sid cond) (withSession k f)"
  unfolding withSession_def by (intro keeps_getSession keeps_intros assms)

lemma keeps_requireSession:
  assumes "\<And>ss. I k ss \<Longrightarrow> (k = sid \<Longrightarrow> cond ss) \<Longrightarrow> keeps (focused Q I sid cond) (f ss)"
  shows "keeps (focused Q I sid cond) (requireSession k f)"
  unfolding requireSession_def by (intro keeps_getSession keeps_intros assms)

lemma keeps_detached [keeps_intros]: "keeps P m \<Longrightarrow> keeps P (detached m)"
  unfolding detached_def by (intro keeps_intros)

lemma keeps_decoded [keeps_intros]: "(\<And>x. keeps P (f x)) \<Longrightarrow> keeps P (decoded p f)"
  unfolding decoded_def by (intro keeps_intros)

lemma keeps_plain [keeps_intros]:
  "keeps (focused Q I sid cond) (emit e)"
  "keeps (focused Q I sid cond) (clearTimer key)"
  "keeps (focused Q I sid cond) (setTimer key ms fn)"
  "keeps (focused Q I sid cond) (setTimeout fn)"
  "keeps (focused Q I sid cond) (ensureTopicSubscription topic)"
  "keeps (focused Q I sid cond) (teardownTopicSubscription topic)"
  "keeps (focused Q I sid cond) (onEvent topic h)"
  "keeps (focused Q I sid cond) (subscribeSession cg k)"
  "keeps (focused Q I sid cond) (unsubscribeSession cg k)"
  "keeps (focused Q I sid cond) (subscribeContextGraph cg)"
  "keeps (focused Q I sid cond) (publishEvent env topic event)"
  "keeps (focused Q I sid cond) (nowA env)"
  by (simp_all add: emit_def clearTimer_def setTimer_def setTimeout_def ensureTopicSubscription_def
      teardownTopicSubscription_def onEvent_def subscribeSession_def unsubscribeSession_def subscribeContextGraph_def
      gh_subscribeContextGraph_def publishEvent_def nowA_def keeps_same_sessions keeps_intros)

lemma keeps_buildEvent [keeps_intros]: "keeps (focused Q I sid cond) (buildEvent env ty k r h p)"
  unfolding buildEvent_def Let_def by (intro keeps_intros keeps_withSession)

lemma keeps_sendEvent [keeps_intros]: "keeps (focused Q I sid cond) (sendEvent env ty k r h p)"
  unfolding sendEvent_def by (intro keeps_intros keeps_withSession)

section \<open>Invariants of a session\<close>

lemma map_entry_twice: "AList.map_entry k g (AList.map_entry k f xs) = AList.map_entry k (g \<circ> f) xs"
  by (induction xs) auto

lemma peer_at_mod: "ms \<noteq> [] \<Longrightarrow> peer_at ms (i mod length ms) = Inr (m_peerId (ms ! (i mod length ms)))"
  by (simp add: peer_at_def)

text \<open>Updates of a round that leave who proposes, the inputs and the acknowledgements alone.\<close>

definition free_update :: "RoundState \<Rightarrow> RoundState \<Rightarrow> bool" where
  "free_update rs rs' \<longleftrightarrow> rs_round rs' = rs_round rs \<and> rs_proposerPeerId rs' = rs_proposerPeerId rs
     \<and> rs_viewChangeCount rs' = rs_viewChangeCount rs \<and> rs_inputs rs' = rs_inputs rs
     \<and> rs_acks rs' = rs_acks rs \<and> rs_ackSignatures rs' = rs_ackSignatures rs"

abbreviation updRound :: "nat \<Rightarrow> (RoundState \<Rightarrow> RoundState) \<Rightarrow> SessionState \<Rightarrow> SessionState" where
  "updRound r f ss \<equiv> ss\<lparr>ss_roundStates := AList.map_entry r f (ss_roundStates ss)\<rparr>"

definition proposer_index :: "SessionState \<Rightarrow> nat \<Rightarrow> nat \<Rightarrow> nat" where
  "proposer_index ss r vc = (let N = length (sc_membership (ss_config ss)) in (r mod N + vc) mod N)"

locale aka_invariant =
  fixes env :: AkaEnv
    and Q :: "SessionValidator \<Rightarrow> bool"
    and I :: "string \<Rightarrow> SessionState \<Rightarrow> bool"
    and ok :: "string \<Rightarrow> bool"
    and status_ok :: "SessionStatus \<Rightarrow> bool"
  assumes inv_init: "localPeerId env \<in> m_peerId ` set (sc_membership c) \<Longrightarrow> status_ok (sc_status c)
        \<Longrightarrow> I (sc_sessionId c) (initSessionState c g)"
    and inv_members: "I k ss \<Longrightarrow> sc_membership (ss_config ss) \<noteq> []"
    and inv_proposed: "status_ok St_proposed"
    and inv_record: "Q v \<Longrightarrow> Q (recordEvent env e v)"
    and inv_ended: "I k ss \<Longrightarrow> st = St_aborted \<or> st = St_finalized \<Longrightarrow> I k (setStatus st ss)"
    and inv_active: "I k ss \<Longrightarrow> pendingMembers ss = [] \<Longrightarrow> I k (setStatus St_active ss)"
    and inv_bytes: "I k ss \<Longrightarrow> I k (ss\<lparr>ss_latestStateBytes := b\<rparr>)"
    and inv_finalize: "I k ss
        \<Longrightarrow> I k (ss\<lparr>ss_latestFinalizedRound := r, ss_latestStateHash := h, ss_consecutiveSkips := 0\<rparr>)"
    and inv_current: "I k ss \<Longrightarrow> I k (ss\<lparr>ss_currentRound := r\<rparr>)"
    and inv_skip: "I k ss \<Longrightarrow> I k (ss\<lparr>ss_consecutiveSkips := n\<rparr>)"
    and inv_accept: "I k ss \<Longrightarrow> p \<in> peers ss \<Longrightarrow> ok p
        \<Longrightarrow> I k (ss\<lparr>ss_acceptedMembers := set_add p (ss_acceptedMembers ss)\<rparr>)"
    and inv_equivocator: "I k ss \<Longrightarrow> p \<in> peers ss
        \<Longrightarrow> I k (ss\<lparr>ss_equivocators := set_add p (ss_equivocators ss)\<rparr>)"
    and inv_new_round: "I k ss \<Longrightarrow> round_of ss r = None
        \<Longrightarrow> peer_at (sc_membership (ss_config ss)) (proposer_index ss r 0) = Inr p
        \<Longrightarrow> I k (ss\<lparr>ss_roundStates := AList.update r (new_round r p) (ss_roundStates ss)\<rparr>)"
    and inv_free: "I k ss \<Longrightarrow> (\<And>rs. free_update rs (f rs)) \<Longrightarrow> I k (updRound r f ss)"
    and inv_view_change: "I k ss
        \<Longrightarrow> peer_at (sc_membership (ss_config ss)) (proposer_index ss r vc) = Inr p
        \<Longrightarrow> I k (updRound r (\<lambda>rs. rs\<lparr>rs_status := R_timed_out, rs_viewChangeCount := vc, rs_proposerPeerId := p\<rparr>) ss)"
    and inv_input: "I k ss \<Longrightarrow> p \<in> peers ss
        \<Longrightarrow> I k (updRound r (\<lambda>rs. rs\<lparr>rs_inputs := AList.update p x (rs_inputs rs)\<rparr>) ss)"
    and inv_ack: "I k ss \<Longrightarrow> p \<in> peers ss
        \<Longrightarrow> I k (updRound r (\<lambda>rs. rs\<lparr>rs_acks := AList.update p a (rs_acks rs),
                                      rs_ackSignatures := AList.update p sg (rs_ackSignatures rs)\<rparr>) ss)"
    and inv_unack: "I k ss
        \<Longrightarrow> I k (updRound r (\<lambda>rs. rs\<lparr>rs_acks := AList.delete p (rs_acks rs),
                                      rs_ackSignatures := AList.delete p (rs_ackSignatures rs)\<rparr>) ss)"
begin

lemma keeps_free_round:
  assumes "stable_cond cond" "\<And>rs. free_update rs (f rs)"
  shows "keeps (focused Q I sid cond) (modRound k r f)"
  unfolding modRound_def using assms by (intro keeps_modSession inv_free) (auto simp: grows_def)

lemma keeps_getOrCreateRoundState:
  assumes st: "stable_cond cond"
  shows "keeps (focused Q I sid cond) (getOrCreateRoundState k r)"
  unfolding keeps_def
proof (intro allI impI)
  fix s assume s: "focused Q I sid cond s"
  show "focused Q I sid cond (snd (getOrCreateRoundState k r s))"
  proof (cases "getSession s k")
    case None
    then show ?thesis using s by (simp add: getOrCreateRoundState_def withSession_def op_simps)
  next
    case (Some ss)
    let ?f = "\<lambda>p ss. ss\<lparr>ss_roundStates := AList.update r (new_round r p) (ss_roundStates ss)\<rparr>"
    have g: "grows ss (?f p ss)" for p by (simp add: grows_def)
    have I: "I k ss" "k = sid \<Longrightarrow> cond ss" using Some s by (auto simp: focused_def)
    then have "I k (?f p ss)" "k = sid \<Longrightarrow> cond (?f p ss)"
      if "round_of ss r = None" "peer_at (sc_membership (ss_config ss)) (r mod length (sc_membership (ss_config ss))) = Inr p" for p
      using inv_new_round [OF I(1) that(1)] that(2) stableD [OF st g I(2)] by (auto simp: proposer_index_def Let_def)
    then show ?thesis
      using s Some by (auto simp: getOrCreateRoundState_def withSession_def op_simps Let_def modSession_def
          focused_def getSession_def split: option.splits sum.splits if_splits)
  qed
qed

lemmas keeps_rules = keeps_intros keeps_withSession keeps_requireSession keeps_getSession keeps_free_round
  keeps_getOrCreateRoundState keeps_modSession

lemma keeps_abortSession:
  "stable_cond cond \<Longrightarrow> keeps (focused Q I sid cond) (abortSession env k reason)"
  unfolding abortSession_def
  by (intro keeps_rules) (auto intro: inv_ended)

lemma keeps_startRound:
  "stable_cond cond \<Longrightarrow> keeps (focused Q I sid cond) (startRound env k req)"
  unfolding startRound_def Let_def
  by (intro keeps_rules) (auto simp: free_update_def)

lemma keeps_validateAndAck:
  "stable_cond cond \<Longrightarrow> keeps (focused Q I sid cond) (validateAndAck env k r p)"
  unfolding validateAndAck_def Let_def by (intro keeps_rules)

lemma keeps_proposeRound:
  "stable_cond cond \<Longrightarrow> keeps (focused Q I sid cond) (proposeRound env k r)"
  unfolding proposeRound_def Let_def
  by (intro keeps_rules keeps_validateAndAck) (auto simp: free_update_def)

lemma keeps_advanceState:
  "stable_cond cond \<Longrightarrow> keeps (focused Q I sid cond) (advanceState k p)"
  unfolding advanceState_def
  by (intro keeps_rules) (auto simp: grows_def intro: inv_bytes)

lemma keeps_markFinalized:
  "stable_cond cond \<Longrightarrow> keeps (focused Q I sid cond) (markFinalized k r p)"
  unfolding markFinalized_def
  by (intro keeps_rules) (auto simp: grows_def free_update_def intro: inv_finalize)

lemma keeps_nextRoundAfter:
  "stable_cond cond \<Longrightarrow> keeps (focused Q I sid cond) (nextRoundAfter env k r p)"
  unfolding nextRoundAfter_def
  by (intro keeps_rules) (auto simp: grows_def intro: inv_current)

lemma keeps_checkQuorumAndFinalize:
  "stable_cond cond \<Longrightarrow> keeps (focused Q I sid cond) (checkQuorumAndFinalize env k r)"
  unfolding checkQuorumAndFinalize_def Let_def
  by (intro keeps_rules keeps_advanceState keeps_markFinalized keeps_nextRoundAfter)

text \<open>The handlers of validated events; the focus is on the event's session.\<close>

lemma keeps_handleSessionAccepted:
  assumes "ok (ev_signerPeerId e)"
  shows "keeps (focused Q I (ev_sessionId e) (\<lambda>ss. ev_signerPeerId e \<in> peers ss)) (handleSessionAccepted e)"
  unfolding handleSessionAccepted_def Let_def using assms
  by (intro keeps_rules) (auto simp: grows_def intro: inv_accept stable_intros)

lemma keeps_handleRoundStart:
  "stable_cond cond \<Longrightarrow> keeps (focused Q I sid cond) (handleRoundStart env e)"
  unfolding handleRoundStart_def Let_def
  by (intro keeps_rules) (auto simp: free_update_def)

lemma keeps_handleInputSubmitted:
  "keeps (focused Q I (ev_sessionId e) (\<lambda>ss. ev_signerPeerId e \<in> peers ss)) (handleInputSubmitted env e)"
  unfolding handleInputSubmitted_def Let_def modRound_def
  by (intro keeps_rules) (auto simp: grows_def intro: inv_input stable_intros)

lemma keeps_handleRoundProposal:
  "stable_cond cond \<Longrightarrow> keeps (focused Q I sid cond) (handleRoundProposal env e)"
  unfolding handleRoundProposal_def Let_def
  by (intro keeps_rules keeps_validateAndAck) (auto simp: free_update_def)

lemma keeps_handleRoundAck:
  "keeps (focused Q I (ev_sessionId e) (\<lambda>ss. ev_signerPeerId e \<in> peers ss)) (handleRoundAck env e)"
  unfolding handleRoundAck_def Let_def modRound_def
  by (intro keeps_rules keeps_checkQuorumAndFinalize)
    (auto simp: grows_def intro: inv_equivocator inv_ack inv_unack stable_intros)

lemma keeps_handleRoundFinalized:
  "stable_cond cond \<Longrightarrow> keeps (focused Q I sid cond) (handleRoundFinalized env e)"
  unfolding handleRoundFinalized_def Let_def
  by (intro keeps_rules keeps_advanceState keeps_markFinalized keeps_nextRoundAfter)

lemma keeps_handleSessionFinalized:
  "stable_cond cond \<Longrightarrow> keeps (focused Q I sid cond) (handleSessionFinalized e)"
  unfolding handleSessionFinalized_def Let_def
  by (intro keeps_rules) (auto intro: inv_ended)

lemma keeps_activation:
  "stable_cond cond \<Longrightarrow> (\<And>ss. cond ss \<Longrightarrow> pendingMembers ss = [])
   \<Longrightarrow> keeps (focused Q I k cond) (modSession k (setStatus St_active))"
  by (intro keeps_modSession) (auto intro: inv_active)

text \<open>
  An operation that reads a session and goes on under a condition on it may assume the condition of
  the session from there on.
\<close>

lemma focus_session:
  assumes "focused Q I sid (\<lambda>_. True) s" "getSession s k = Some ss" "cond ss"
    and "keeps (focused Q I k cond) m"
  shows "focused Q I sid (\<lambda>_. True) (snd (m s))"
proof -
  have "focused Q I k cond s" using assms(1-3) by (auto simp: focused_def)
  then have "focused Q I k cond (snd (m s))" using assms(4) by (simp add: keeps_def)
  then show ?thesis by (auto simp: focused_def)
qed

abbreviation inv :: "AkaState \<Rightarrow> bool" where
  "inv \<equiv> focused Q I [] (\<lambda>_. True)"

lemma keeps_from_read:
  assumes "\<And>ss s. inv s \<Longrightarrow> getSession s k = Some ss \<Longrightarrow> inv (snd (f ss s))" "keeps inv n"
  shows "keeps inv (bindM (getM (\<lambda>s. getSession s k)) (\<lambda>so. case so of None \<Rightarrow> n | Some ss \<Rightarrow> f ss))"
  using assms by (auto simp: keeps_def op_simps split: option.splits)

lemma keeps_announceActivation:
  "keeps (focused Q I k (\<lambda>ss. pendingMembers ss = [])) (announceActivation env k h)"
  unfolding announceActivation_def
  by (intro keeps_rules keeps_activation) (auto intro: stable_intros)

lemma keeps_activateSession: "keeps inv (activateSession env k)"
  unfolding activateSession_def requireSession_def
  by (rule keeps_from_read)
    (auto simp: op_simps keeps_throw intro: focus_session [OF _ _ _ keeps_announceActivation])

lemma keeps_becomeActive: "keeps (focused Q I k (\<lambda>ss. pendingMembers ss = [])) (becomeActive env k)"
  unfolding becomeActive_def
  by (intro keeps_rules keeps_activation) (auto simp: grows_def intro: stable_intros inv_current)

lemma keeps_handleSessionActivated: "keeps inv (handleSessionActivated env e)"
  unfolding handleSessionActivated_def withSession_def
  by (rule keeps_from_read)
    (auto simp: op_simps keeps_throw intro: focus_session [OF _ _ _ keeps_becomeActive])

lemma rotateProposer_run:
  assumes "sc_membership (ss_config ss) \<noteq> []"
  shows "\<exists>p. peer_at (sc_membership (ss_config ss)) (proposer_index ss r vc) = Inr p
     \<and> rotateProposer k r ss vc s = (Inr p, snd (modSession k (updRound r
          (\<lambda>rs. rs\<lparr>rs_status := R_timed_out, rs_viewChangeCount := vc, rs_proposerPeerId := p\<rparr>)) s))"
  using assms peer_at_mod [OF assms]
  by (auto simp: rotateProposer_def modRound_def modSession_def op_simps Let_def proposer_index_def map_entry_twice comp_def)

lemma rotateProposer_inv:
  assumes s: "inv s" "getSession s k = Some ss"
  shows "\<exists>p. fst (rotateProposer k r ss vc s) = Inr p \<and> inv (snd (rotateProposer k r ss vc s))"
proof -
  have I: "I k ss" using s by (simp add: focused_def)
  obtain p where p: "peer_at (sc_membership (ss_config ss)) (proposer_index ss r vc) = Inr p"
    and run: "rotateProposer k r ss vc s = (Inr p, snd (modSession k (updRound r
          (\<lambda>rs. rs\<lparr>rs_status := R_timed_out, rs_viewChangeCount := vc, rs_proposerPeerId := p\<rparr>)) s))"
    using rotateProposer_run [OF inv_members [OF I]] by blast
  then show ?thesis using s inv_view_change [OF I p]
    by (auto simp: run modSession_def op_simps focused_def getSession_def split: if_splits)
qed

lemma keeps_skipRound: "keeps inv (skipRound env k r ss)"
  unfolding skipRound_def
  by (intro keeps_rules keeps_abortSession keeps_startRound)
    (auto simp: grows_def intro: stable_intros inv_skip inv_current)

lemma keeps_retryRound: "keeps inv (retryRound env k r ss vc p)"
  unfolding retryRound_def
  by (intro keeps_rules keeps_startRound) (auto simp: free_update_def intro: stable_intros)

lemma keeps_handleRoundTimeout: "keeps inv (handleRoundTimeout env k r)"
  unfolding handleRoundTimeout_def
proof (rule keeps_from_read)
  fix ss s assume s: "inv s" "getSession s k = Some ss"
  have "inv (snd ((if N \<le> vc then skipRound env k r ss else retryRound env k r ss vc p) s'))" if "inv s'" for N vc p s'
    using keeps_skipRound keeps_retryRound that by (simp add: keeps_def)
  moreover have "\<exists>p. fst (rotateProposer k r ss vc s) = Inr p \<and> inv (snd (rotateProposer k r ss vc s))" for vc
    using s by (rule rotateProposer_inv)
  ultimately show "inv (snd ((case round_of ss r of None \<Rightarrow> ret () | Some rs \<Rightarrow>
     if rs_status rs = R_finalized then ret ()
     else let vc = Suc (rs_viewChangeCount rs) in
       bindM (rotateProposer k r ss vc) (\<lambda>proposer.
       if length (sc_membership (ss_config ss)) \<le> vc then skipRound env k r ss
       else retryRound env k r ss vc proposer)) s))"
    using s by (auto simp: op_simps Let_def split: option.splits sum.splits)
qed (intro keeps_intros)

text \<open>A new session, created here or proposed by another node.\<close>

lemma keeps_new_session:
  assumes "localPeerId env \<in> m_peerId ` set (sc_membership c)" "status_ok (sc_status c)" "sc_sessionId c = k"
  shows "keeps inv (modM (\<lambda>s. s\<lparr>sessions := AList.update k (initSessionState c g) (sessions s)\<rparr>))"
  using inv_init [OF assms(1,2)] assms(3)
  by (auto simp: keeps_def op_simps focused_def getSession_def split: if_splits)

lemma keeps_throw_if:
  "(\<not> bad \<Longrightarrow> keeps P m) \<Longrightarrow> keeps P (bindM (liftE (throw_if bad e)) (\<lambda>_. m))"
  by (auto simp: keeps_def op_simps throw_if_def)

lemma keeps_createSession: "keeps inv (createSession env cg app ms qp rc rt mr)"
  unfolding createSession_def Let_def
  by (intro keeps_throw_if keeps_rules keeps_new_session) (auto intro: inv_proposed)

lemma keeps_handleSessionProposed:
  assumes "\<And>c. decodeSessionConfig env (ev_payload e) = Some c \<Longrightarrow> status_ok (sc_status c)"
  shows "keeps inv (handleSessionProposed env e)"
  unfolding handleSessionProposed_def
  by (intro keeps_rules keeps_new_session) (auto simp: list_ex_iff assms intro: rev_image_eqI)

text \<open>A validated event of a session: its signer is a member.\<close>

lemma dispatchEvent_inv:
  assumes s: "inv s" "getSession s (ev_sessionId e) = Some ss" "ev_signerPeerId e \<in> peers ss" "ok (ev_signerPeerId e)"
  shows "inv (snd (dispatchEvent env e s))"
proof -
  note member = focus_session [OF s(1,2), where cond = "\<lambda>ss. ev_signerPeerId e \<in> peers ss", OF s(3)]
  have "inv (snd (handleSessionAccepted e s))" "inv (snd (handleInputSubmitted env e s))" "inv (snd (handleRoundAck env e s))"
    by (intro member keeps_handleSessionAccepted keeps_handleInputSubmitted keeps_handleRoundAck s(4))+
  moreover have "keeps inv (handleSessionActivated env e)" "keeps inv (handleRoundStart env e)"
    "keeps inv (handleRoundProposal env e)" "keeps inv (detached (handleRoundFinalized env e))"
    "keeps inv (handleSessionFinalized e)"
    "keeps inv (bindM (modSession (ev_sessionId e) (setStatus St_aborted)) (\<lambda>_. emit (SESSION_ABORTED (ev_sessionId e) None)))"
    by (intro keeps_handleSessionActivated keeps_handleRoundStart keeps_handleRoundProposal keeps_handleRoundFinalized
        keeps_handleSessionFinalized keeps_rules stable_intros; auto intro: inv_ended)+
  ultimately show ?thesis using s(1) by (simp add: dispatchEvent_def Let_def keeps_def op_simps)
qed

lemma validateM_inv: "inv s \<Longrightarrow> inv (snd (validateM env e ss s))"
  by (auto simp: validateM_def focused_def getSession_def validate_state split_beta intro: inv_record)

lemma validateM_valid: "fst (validateM env e ss s) = Inr True \<Longrightarrow> fst (validate env e ss (validator s)) = Valid"
  by (auto simp: validateM_def split_beta split: Verdict.splits)

lemma validateM_sessions: "getSession (snd (validateM env e ss s)) k = getSession s k"
  by (simp add: validateM_def getSession_def split_beta)

lemma keeps_handleIncomingEvent:
  assumes "ok (ev_signerPeerId e)" "\<And>c. decodeSessionConfig env (ev_payload e) = Some c \<Longrightarrow> status_ok (sc_status c)"
  shows "keeps inv (handleIncomingEvent env e)"
  unfolding handleIncomingEvent_def
proof (rule keeps_from_read)
  fix ss s assume s: "inv s" "getSession s (ev_sessionId e) = Some ss"
  have "inv (snd (dispatchEvent env e (snd (validateM env e ss s))))" if "fst (validateM env e ss s) = Inr True"
  proof (rule dispatchEvent_inv [OF validateM_inv [OF s(1)]])
    have "fst (validate env e ss (validator s)) = Valid" using that by (rule validateM_valid)
    then show "ev_signerPeerId e \<in> peers ss" by (rule validate_signer)
  qed (use s assms in \<open>simp_all add: validateM_sessions\<close>)
  then show "inv (snd (bindM (validateM env e ss) (\<lambda>valid. if valid then dispatchEvent env e else ret ()) s))"
    using validateM_inv [OF s(1)] by (auto simp: op_simps split: sum.splits)
qed (intro keeps_rules keeps_handleSessionProposed assms(2))

end

text \<open>Messages whose signers and proposed statuses are restricted; every other input is allowed.\<close>

fun wire_ok :: "AkaEnv \<Rightarrow> (string \<Rightarrow> bool) \<Rightarrow> (SessionStatus \<Rightarrow> bool) \<Rightarrow> AkaInput \<Rightarrow> bool" where
  "wire_ok env ok status_ok (C_message topic data) =
     (case decodeAKAEvent env data of None \<Rightarrow> True
      | Some e \<Rightarrow> ok (ev_signerPeerId e)
          \<and> (case decodeSessionConfig env (ev_payload e) of None \<Rightarrow> True | Some c \<Rightarrow> status_ok (sc_status c)))"
| "wire_ok env ok status_ok _ = True"

context aka_invariant
begin

lemma keeps_receiveMessage:
  "wire_ok env ok status_ok (C_message topic data) \<Longrightarrow> keeps inv (receiveMessage env topic data)"
  unfolding receiveMessage_def
  by (intro keeps_rules keeps_handleIncomingEvent) auto

lemma keeps_runAction: "keeps inv (runAction env a)"
  by (cases a) (auto intro!: keeps_intros keeps_abortSession keeps_startRound keeps_proposeRound keeps_handleRoundTimeout
      stable_intros)

lemma keeps_fire: "keeps inv (fireTimer env key)" "keeps inv (fireLoose env i)"
  unfolding fireTimer_def fireLoose_def
  by (intro keeps_rules keeps_runAction keeps_same_sessions; simp)+

lemma inv_after: "inv s \<Longrightarrow> keeps inv m \<Longrightarrow> inv (snd (m s))"
  by (simp add: keeps_def)

lemma keeps_calls:
  "keeps inv (acceptSession env k)" "keeps inv (submitInput env k d req)" "keeps inv (startRound env k req)"
  "keeps inv destroy"
     apply (unfold acceptSession_def submitInput_def Let_def)
     apply (intro keeps_rules keeps_startRound stable_intros)+
  by (simp add: destroy_def keeps_def op_simps focused_def getSession_def)

lemma exec_inv:
  assumes "inv s" "wire_ok env ok status_ok i"
  shows "inv (aka_exec env i s)"
proof (cases i)
  case (C_register rm)
  then show ?thesis using assms(1) by (simp add: focused_def getSession_def)
next
  case (C_unregister name version)
  then show ?thesis using assms(1) by (simp add: focused_def getSession_def)
next
  case (C_message topic data)
  then have "keeps inv (receiveMessage env topic data)" using assms(2) keeps_receiveMessage by simp
  then show ?thesis using C_message assms(1) by (simp add: inv_after)
qed (simp_all add: inv_after [OF assms(1)] keeps_createSession keeps_activateSession keeps_calls keeps_plain(10) keeps_fire)

theorem reachable_inv:
  assumes "aka_reachable env (wire_ok env ok status_ok) s" "Q (validator init_aka)"
  shows "inv s"
  using assms
proof (induction rule: aka_reachable.induct)
  case start
  then show ?case by (simp add: focused_def init_aka_def getSession_def)
qed (blast intro: exec_inv)

end

end
