(* ===== verification/AkaInvariants.thy ===== *)
theory AkaInvariants
  imports AkaSafety
begin

text \<open>
  Invariants of the sessions of one node, each an interpretation of \<open>aka_invariant\<close>: sessions are
  well formed and the proposer of a round is the member the rotation names; a session is active only
  with the consent of every member; without the echo of its own messages a member other than the
  creator never becomes active; an event is handled at most once.
\<close>

section \<open>Well-formed sessions\<close>

definition round_wf :: "SessionState \<Rightarrow> nat \<Rightarrow> RoundState \<Rightarrow> bool" where
  "round_wf ss r rs \<longleftrightarrow> rs_round rs = r
     \<and> peer_at (sc_membership (ss_config ss)) (proposer_index ss r (rs_viewChangeCount rs)) = Inr (rs_proposerPeerId rs)
     \<and> map fst (rs_ackSignatures rs) = map fst (rs_acks rs)
     \<and> distinct (map fst (rs_acks rs)) \<and> fst ` set (rs_acks rs) \<subseteq> peers ss
     \<and> distinct (map fst (rs_inputs rs)) \<and> fst ` set (rs_inputs rs) \<subseteq> peers ss"

definition session_wf :: "string \<Rightarrow> SessionState \<Rightarrow> bool" where
  "session_wf k ss \<longleftrightarrow> sc_sessionId (ss_config ss) = k \<and> sc_membership (ss_config ss) \<noteq> []
     \<and> distinct (ss_equivocators ss) \<and> set (ss_equivocators ss) \<subseteq> peers ss
     \<and> distinct (ss_acceptedMembers ss) \<and> set (ss_acceptedMembers ss) \<subseteq> peers ss
     \<and> ss_inactiveMembers ss = []
     \<and> (\<forall>r rs. round_of ss r = Some rs \<longrightarrow> round_wf ss r rs)"

text \<open>Only the configuration of the session matters to a round.\<close>

lemma round_wf_config:
  "sc_membership (ss_config ss') = sc_membership (ss_config ss) \<Longrightarrow> round_wf ss' r rs = round_wf ss r rs"
  by (simp add: round_wf_def peers_def proposer_index_def)

lemma peers_config: "sc_membership (ss_config ss') = sc_membership (ss_config ss) \<Longrightarrow> peers ss' = peers ss"
  by (simp add: peers_def)

lemma session_wf_fields:
  assumes "session_wf k ss"
  shows "session_wf k (setStatus st ss)"
    and "session_wf k (ss\<lparr>ss_latestStateBytes := b\<rparr>)"
    and "session_wf k (ss\<lparr>ss_latestFinalizedRound := r, ss_latestStateHash := h, ss_consecutiveSkips := n\<rparr>)"
    and "session_wf k (ss\<lparr>ss_currentRound := r\<rparr>)"
    and "session_wf k (ss\<lparr>ss_consecutiveSkips := n\<rparr>)"
    and "p \<in> peers ss \<Longrightarrow> session_wf k (ss\<lparr>ss_acceptedMembers := set_add p (ss_acceptedMembers ss)\<rparr>)"
    and "p \<in> peers ss \<Longrightarrow> session_wf k (ss\<lparr>ss_equivocators := set_add p (ss_equivocators ss)\<rparr>)"
  using assms
  by (simp_all add: session_wf_def round_of_def round_wf_def peers_def proposer_index_def setStatus_def)

lemma session_wf_init: "p \<in> m_peerId ` set (sc_membership c) \<Longrightarrow> session_wf (sc_sessionId c) (initSessionState c g)"
  by (auto simp: session_wf_def initSessionState_def round_of_def)

lemma session_wf_members: "session_wf k ss \<Longrightarrow> sc_membership (ss_config ss) \<noteq> []"
  by (simp add: session_wf_def)

lemma session_wf_round:
  assumes "session_wf k ss" "\<And>rs. round_wf ss r rs \<Longrightarrow> round_wf ss r (f rs)"
  shows "session_wf k (updRound r f ss)"
  using assms round_wf_config [of "updRound r f ss" ss] peers_config [of "updRound r f ss" ss]
  by (auto simp: session_wf_def round_of_def split: if_splits)

lemma keys_update: "fst ` set (AList.update k v xs) = insert k (fst ` set xs)"
  by (simp add: dom_update)

lemma keys_delete: "fst ` set (AList.delete k xs) = fst ` set xs - {k}"
proof -
  have "set (map fst (AList.delete k xs)) = set (removeAll k (map fst xs))" by (simp only: delete_keys)
  then show ?thesis by simp
qed

interpretation wf: aka_invariant env "\<lambda>_. True" session_wf "\<lambda>_. True" "\<lambda>_. True" for env
proof unfold_locales
  fix k ss and p :: string assume ss: "session_wf k ss"
  note upd = session_wf_round [OF ss]
  show "(\<And>rs. free_update rs (f rs)) \<Longrightarrow> session_wf k (updRound r f ss)" for r f
    by (rule upd) (simp add: round_wf_def free_update_def)
  show "peer_at (sc_membership (ss_config ss)) (proposer_index ss r vc) = Inr p
        \<Longrightarrow> session_wf k (updRound r (\<lambda>rs. rs\<lparr>rs_status := R_timed_out, rs_viewChangeCount := vc, rs_proposerPeerId := p\<rparr>) ss)" for r vc
    by (rule upd) (simp add: round_wf_def)
  show "p \<in> peers ss \<Longrightarrow> session_wf k (updRound r (\<lambda>rs. rs\<lparr>rs_inputs := AList.update p x (rs_inputs rs)\<rparr>) ss)" for r x
    by (rule upd) (simp add: round_wf_def keys_update)
  show "p \<in> peers ss \<Longrightarrow> session_wf k (updRound r (\<lambda>rs. rs\<lparr>rs_acks := AList.update p a (rs_acks rs),
                                      rs_ackSignatures := AList.update p sg (rs_ackSignatures rs)\<rparr>) ss)" for r a sg
    by (rule upd) (simp add: round_wf_def keys_update update_keys)
  show "session_wf k (updRound r (\<lambda>rs. rs\<lparr>rs_acks := AList.delete p (rs_acks rs),
                                      rs_ackSignatures := AList.delete p (rs_ackSignatures rs)\<rparr>) ss)" for r
    by (rule upd) (simp add: round_wf_def keys_delete delete_keys distinct_removeAll, blast)
  show "round_of ss r = None \<Longrightarrow> peer_at (sc_membership (ss_config ss)) (proposer_index ss r 0) = Inr p
        \<Longrightarrow> session_wf k (ss\<lparr>ss_roundStates := AList.update r (new_round r p) (ss_roundStates ss)\<rparr>)" for r
    using ss round_wf_config [of "ss\<lparr>ss_roundStates := AList.update r (new_round r p) (ss_roundStates ss)\<rparr>" ss]
      peers_config [of "ss\<lparr>ss_roundStates := AList.update r (new_round r p) (ss_roundStates ss)\<rparr>" ss]
    by (auto simp: session_wf_def round_of_def) (simp add: round_wf_def new_round_def)
qed (auto intro: session_wf_fields session_wf_init dest: session_wf_members)

section \<open>Consent\<close>

text \<open>A session is active only when every member other than the creator has accepted.\<close>

definition consent :: "string \<Rightarrow> SessionState \<Rightarrow> bool" where
  "consent k ss \<longleftrightarrow> sc_membership (ss_config ss) \<noteq> []
     \<and> (status_text (sc_status (ss_config ss)) = ''active'' \<longrightarrow> pendingMembers ss = [])"

definition not_active :: "SessionStatus \<Rightarrow> bool" where
  "not_active st \<longleftrightarrow> status_text st \<noteq> ''active''"

interpretation consent: aka_invariant env "\<lambda>_. True" consent "\<lambda>_. True" not_active for env
  by unfold_locales
    (auto simp: consent_def not_active_def initSessionState_def setStatus_def pendingMembers_def filter_empty_conv)

section \<open>Own messages\<close>

text \<open>
  The gossip layer does not deliver a node's own messages (\<^verbatim>\<open>emitSelf: false\<close> in
  \<^verbatim>\<open>packages/core/src/node.ts\<close>). Then the local peer never counts as having accepted.
\<close>

definition unaccepted :: "AkaEnv \<Rightarrow> string \<Rightarrow> SessionState \<Rightarrow> bool" where
  "unaccepted env k ss \<longleftrightarrow> localPeerId env \<in> peers ss \<and> localPeerId env \<notin> set (ss_acceptedMembers ss)
     \<and> (sc_createdBy (ss_config ss) \<noteq> localPeerId env \<longrightarrow> status_text (sc_status (ss_config ss)) \<noteq> ''active'')"

interpretation own: aka_invariant env "\<lambda>_. True" "unaccepted env" "\<lambda>p. p \<noteq> localPeerId env" not_active for env
  by unfold_locales
    (auto simp: unaccepted_def not_active_def initSessionState_def setStatus_def pendingMembers_def peers_def
      filter_empty_conv)

section \<open>Events once\<close>

definition has_members :: "string \<Rightarrow> SessionState \<Rightarrow> bool" where
  "has_members k ss \<longleftrightarrow> sc_membership (ss_config ss) \<noteq> []"

interpretation seen: aka_invariant env "has_seen env e" has_members "\<lambda>_. True" "\<lambda>_. True" for env e
  by unfold_locales (auto simp: has_members_def initSessionState_def setStatus_def has_seen_recordEvent)

lemma wire_ok_any: "wire_ok env (\<lambda>_. True) (\<lambda>_. True) i"
  by (cases i) (auto split: option.splits)

lemma reachable_wf:
  assumes "aka_reachable env (\<lambda>_. True) s" "getSession s k = Some ss"
  shows "session_wf k ss"
proof -
  have "(\<lambda>_. True) = wire_ok env (\<lambda>_. True) (\<lambda>_. True)" using wire_ok_any by blast
  then have "wf.inv s" using assms(1) wf.reachable_inv by metis
  then show ?thesis using assms(2) by (simp add: focused_def)
qed

definition aka_run :: "AkaEnv \<Rightarrow> AkaInput list \<Rightarrow> AkaState \<Rightarrow> AkaState" where
  "aka_run env is s = fold (aka_exec env) is s"

lemma seen_run:
  "focused (has_seen env e) has_members [] (\<lambda>_. True) s
   \<Longrightarrow> focused (has_seen env e) has_members [] (\<lambda>_. True) (aka_run env is s)"
  unfolding aka_run_def by (induction "is" arbitrary: s) (simp_all add: seen.exec_inv wire_ok_any)

lemma seen_ignored:
  assumes "has_seen env e (validator s)" "getSession s (ev_sessionId e) = Some ss"
  shows "snd (handleIncomingEvent env e s) = s"
proof -
  have v: "fst (validate env e ss (validator s)) \<noteq> Valid" using assms(1) by (rule has_seen_refused)
  then have "snd (validateM env e ss s) = s" "fst (validateM env e ss s) \<noteq> Inr True"
    by (auto simp: validateM_def split_beta validate_state split: Verdict.splits)
  then show ?thesis using assms(2) by (auto simp: handleIncomingEvent_def op_simps split: sum.splits)
qed

end
