(* ===== verification/AkaFinality.thy ===== *)
theory AkaFinality
  imports AkaInvariants
begin

text \<open>
  Finality of rounds: what a finality certificate contains, that certificates of a majority policy
  for one round share a signer, that the proposals an honest proposer builds are acknowledged by
  every node in the same state, and that rounds without progress end in an aborted session.
\<close>

section \<open>Quorums\<close>

text \<open>Sets of peers of which any two overlap.\<close>

locale quorum_system =
  fixes Quorum :: "'a set \<Rightarrow> bool"
  assumes overlap: "Quorum A \<Longrightarrow> Quorum B \<Longrightarrow> A \<inter> B \<noteq> {}"
begin

lemma common_voter:
  assumes "Quorum A" "Quorum B" "\<And>p. p \<in> A \<Longrightarrow> S p" "\<And>p. p \<in> B \<Longrightarrow> T p"
  shows "\<exists>p. p \<in> A \<and> p \<in> B \<and> S p \<and> T p"
  using overlap [OF assms(1,2)] assms(3,4) by blast

end

text \<open>The quorums of a policy that asks for more than one half of the members \<open>M\<close>.\<close>

definition majority_quorum :: "QuorumPolicy \<Rightarrow> 'a set \<Rightarrow> 'a set \<Rightarrow> bool" where
  "majority_quorum policy M A \<longleftrightarrow> finite M \<and> M \<noteq> {} \<and> A \<subseteq> M \<and> qp_denominator policy < 2 * qp_numerator policy
     \<and> isQuorumMet policy (int (card M)) (card A)"

interpretation majority: quorum_system "majority_quorum policy M" for policy M
proof
  fix A B assume "majority_quorum policy M A" "majority_quorum policy M B"
  then show "A \<inter> B \<noteq> {}"
    unfolding majority_quorum_def by (intro quorum_intersect [of M A B policy]) simp_all
qed

section \<open>Certificates\<close>

lemma memberByPeerId_Some: "memberByPeerId ms p = Some m \<Longrightarrow> m \<in> set ms \<and> m_peerId m = p"
  by (auto simp: memberByPeerId_def dest!: map_of_SomeD)

text \<open>A member's signature over the acknowledgement of a round's result.\<close>

definition signed_ack :: "AkaEnv \<Rightarrow> AKAEvent \<Rightarrow> SessionState \<Rightarrow> RoundProposalPayload \<Rightarrow> string \<Rightarrow> string \<Rightarrow> bool" where
  "signed_ack env e ss proposal nextStateHash p \<longleftrightarrow> (\<exists>m sig. memberByPeerId (sc_membership (ss_config ss)) p = Some m
     \<and> verifyAKASignature env (ack_context env (ss_config ss) e)
         (encodeRoundAckPayload env (expectedAck env (ss_config ss) (ev_round e) proposal nextStateHash)) sig (m_pubKey m)
       = Some True)"

lemma certificate_signers:
  assumes "certificate_ok env e ss proposal fin"
  shows "set (rf_signerPeerIds fin) \<subseteq> peers ss"
    and "quorumReached ss (card (set (rf_signerPeerIds fin)))"
    and "\<And>p. p \<in> set (rf_signerPeerIds fin) \<Longrightarrow> signed_ack env e ss proposal (rf_nextStateHash fin) p"
proof -
  let ?ids = "rf_signerPeerIds fin"
  show "quorumReached ss (card (set ?ids))" using assms by (simp add: certificate_ok_def Let_def)
  have len: "length (rf_signatures fin) = length ?ids" using assms by (simp add: certificate_ok_def Let_def)
  have all: "list_all (\<lambda>(p, sig). case memberByPeerId (sc_membership (ss_config ss)) p of None \<Rightarrow> False
           | Some member \<Rightarrow> verifyAKASignature env (ack_context env (ss_config ss) e)
               (encodeRoundAckPayload env (expectedAck env (ss_config ss) (ev_round e) proposal (rf_nextStateHash fin))) sig
               (m_pubKey member) = Some True) (zip ?ids (rf_signatures fin))"
    using assms by (simp add: certificate_ok_def Let_def)
  show signed: "signed_ack env e ss proposal (rf_nextStateHash fin) p" if "p \<in> set ?ids" for p
  proof -
    from that obtain i where "i < length ?ids" "p = ?ids ! i" by (auto simp: in_set_conv_nth)
    then have "(p, rf_signatures fin ! i) \<in> set (zip ?ids (rf_signatures fin))"
      using len by (auto simp: set_zip)
    then show ?thesis using all by (fastforce simp: list_all_iff signed_ack_def split: option.splits)
  qed
  then show "set ?ids \<subseteq> peers ss" by (fastforce simp: signed_ack_def peers_def dest: memberByPeerId_Some)
qed

text \<open>The certificate that a change made by \<^verbatim>\<open>handleRoundFinalized\<close> rests on.\<close>

definition certified :: "AkaEnv \<Rightarrow> AKAEvent \<Rightarrow> AkaState \<Rightarrow> SessionState \<Rightarrow> RoundProposalPayload \<Rightarrow> RoundFinalizedPayload \<Rightarrow> bool" where
  "certified env e s ss proposal fin \<longleftrightarrow> getSession s (ev_sessionId e) = Some ss
     \<and> Option.bind (round_of ss (ev_round e)) rs_proposal = Some proposal
     \<and> decodeRoundFinalizedPayload env (ev_payload e) = Some fin
     \<and> certificate_ok env e ss proposal fin"

lemma finalized_certified:
  assumes "snd (handleRoundFinalized env e s) \<noteq> s"
  shows "\<exists>ss proposal fin. certified env e s ss proposal fin"
  using assms
  by (auto simp: handleRoundFinalized_def withSession_def op_simps Let_def certified_def split: option.splits if_splits)

lemma certified_majority:
  assumes c: "certified env e s ss proposal fin" and ss: "ss_equivocators ss = []" "ss_inactiveMembers ss = []"
    and config: "sc_membership (ss_config ss) = ms" "sc_quorumPolicy (ss_config ss) = policy"
    and ms: "distinct (map m_peerId ms)" "ms \<noteq> []" and maj: "qp_denominator policy < 2 * qp_numerator policy"
  shows "majority_quorum policy (m_peerId ` set ms) (set (rf_signerPeerIds fin))"
proof -
  have ok: "certificate_ok env e ss proposal fin" using c by (simp add: certified_def)
  have "card (m_peerId ` set ms) = length ms" using ms(1) by (metis distinct_card length_map list.set_map)
  then show ?thesis
    using certificate_signers(1,2) [OF ok] ss config ms maj
    by (simp add: majority_quorum_def quorumReached_def getActiveMemberCount_def peers_def)
qed

section \<open>Proposals\<close>

text \<open>The inputs of a proposal depend on what has been received, not on the order of arrival.\<close>

lemma sortedMembers_order:
  assumes "map_of (rs_inputs rs) = map_of (rs_inputs rs')"
    and "distinct (map fst (rs_inputs rs))" "distinct (map fst (rs_inputs rs'))"
  shows "sortedMembers rs = sortedMembers rs'"
proof -
  have "set (map fst (rs_inputs rs)) = set (map fst (rs_inputs rs'))"
    using assms(1) by (metis dom_map_of_conv_image_fst list.set_map)
  then have "mset (map fst (rs_inputs rs)) = mset (map fst (rs_inputs rs'))"
    using assms(2,3) by (simp only: set_eq_iff_mset_eq_distinct)
  then show ?thesis unfolding sortedMembers_def by (metis mset_sort properties_for_sort sorted_sort)
qed

lemma sortedInputs_order:
  assumes "map_of (rs_inputs rs) = map_of (rs_inputs rs')"
    and "distinct (map fst (rs_inputs rs))" "distinct (map fst (rs_inputs rs'))"
  shows "sortedInputs rs = sortedInputs rs'"
  using sortedMembers_order [OF assms] assms(1) by (simp add: sortedInputs_def)

text \<open>What \<^verbatim>\<open>sendEvent\<close> publishes for a session that is present.\<close>

lemma sendEvent_publishes:
  assumes "getSession s sid = Some ss" "publish_ok env (Suc (Suc (aka_ticks s)))"
  shows "\<exists>ev. published (snd (sendEvent env ty sid r h p s))
           = published s @ [(sessionTopic (sc_contextGraphId (ss_config ss)) sid, encodeAKAEvent env ev)]
         \<and> ev_type ev = ty \<and> ev_round ev = r \<and> ev_payload ev = p \<and> ev_sessionId ev = sid \<and> ev_signerPeerId ev = localPeerId env
         \<and> ev_prevStateHash ev = h"
  using assms
  by (simp add: sendEvent_def buildEvent_def publishEvent_def withSession_def nowA_def readAka_def op_simps Let_def
      getSession_def) (rule exI, rule conjI, rule refl, simp)

text \<open>A proposal that agrees with the reducer on the state of the node.\<close>

definition reducer_agrees :: "AkaEnv \<Rightarrow> ReducerModule \<Rightarrow> bytes \<Rightarrow> RoundProposalPayload \<Rightarrow> bool" where
  "reducer_agrees env reducer stateBytes proposal \<longleftrightarrow>
     rp_inputSetHash proposal = computeInputSetHash env (rp_includedInputs proposal)
     \<and> (\<exists>next. rm_reduce reducer stateBytes (rp_includedInputs proposal) = Inr next
              \<and> rp_nextStateHash proposal = computeStateHash env next)"

lemma validateAndAck_acks:
  assumes "getSession s sid = Some ss" "sc_sessionId (ss_config ss) = sid"
    and "resolve (registry s) (sc_reducer (ss_config ss)) = Some reducer"
    and "reducer_agrees env reducer (ss_latestStateBytes ss) proposal"
    and "publish_ok env (Suc (Suc (aka_ticks s)))"
  shows "\<exists>ev. published (snd (validateAndAck env sid r proposal s))
           = published s @ [(sessionTopic (sc_contextGraphId (ss_config ss)) sid, encodeAKAEvent env ev)]
         \<and> ev_type ev = E_RoundAck \<and> ev_round ev = r \<and> ev_sessionId ev = sid \<and> ev_signerPeerId ev = localPeerId env
         \<and> ev_payload ev = encodeRoundAckPayload env (expectedAck env (ss_config ss) r proposal (rp_nextStateHash proposal))"
proof -
  obtain next' where "rm_reduce reducer (ss_latestStateBytes ss) (rp_includedInputs proposal) = Inr next'"
    "rp_nextStateHash proposal = computeStateHash env next'"
    "rp_inputSetHash proposal = computeInputSetHash env (rp_includedInputs proposal)"
    using assms(4) by (auto simp: reducer_agrees_def)
  then have "validateAndAck env sid r proposal s = sendEvent env E_RoundAck sid r (rp_prevStateHash proposal)
      (encodeRoundAckPayload env (expectedAck env (ss_config ss) r proposal (rp_nextStateHash proposal))) s"
    using assms(1-3) by (simp add: validateAndAck_def withSession_def op_simps Let_def getStateBytes_def expectedAck_def)
  then show ?thesis using sendEvent_publishes [OF assms(1,5)] by metis
qed

text \<open>Nothing else is ever acknowledged.\<close>

lemma validateAndAck_refuses:
  assumes "getSession s sid = Some ss" "resolve (registry s) (sc_reducer (ss_config ss)) = Some reducer"
    and "\<not> reducer_agrees env reducer (ss_latestStateBytes ss) proposal"
  shows "snd (validateAndAck env sid r proposal s) = s"
  using assms by (auto simp: validateAndAck_def withSession_def op_simps Let_def getStateBytes_def reducer_agrees_def
      split: sum.splits)

text \<open>Operations that leave the round's proposal alone.\<close>

lemma sendEvent_sessions [simp]: "sessions (snd (sendEvent env ty sid r h p s)) = sessions s"
  by (auto simp: sendEvent_def buildEvent_def publishEvent_def withSession_def nowA_def readAka_def op_simps Let_def
      split: option.splits)

lemma validateAndAck_sessions [simp]: "sessions (snd (validateAndAck env sid r p s)) = sessions s"
  by (auto simp: validateAndAck_def withSession_def op_simps Let_def split: option.splits sum.splits)

lemma proposeRound_agrees:
  assumes ss: "getSession s sid = Some ss" "round_of ss r = Some rs" "rs_proposal rs = None"
    and ss': "getSession (snd (proposeRound env sid r s)) sid = Some ss'" "round_of ss' r = Some rs'" "rs_proposal rs' = Some p"
  shows "\<exists>reducer. resolve (registry s) (sc_reducer (ss_config ss)) = Some reducer
     \<and> reducer_agrees env reducer (ss_latestStateBytes ss) p
     \<and> rp_prevStateHash p = ss_latestStateHash ss \<and> rp_includedMembers p = sortedMembers rs \<and> rp_includedInputs p = sortedInputs rs"
proof -
  from ss ss' obtain reducer where local: "rs_proposerPeerId rs = localPeerId env"
    and reducer: "resolve (registry s) (sc_reducer (ss_config ss)) = Some reducer"
    by (auto simp: proposeRound_def op_simps split: if_splits option.splits)
  with ss ss' obtain next' where next': "rm_reduce reducer (ss_latestStateBytes ss) (sortedInputs rs) = Inr next'"
    by (auto simp: proposeRound_def op_simps getStateBytes_def split: sum.splits)
  define p' where "p' = \<lparr>rp_round = r, rp_prevStateHash = ss_latestStateHash ss,
      rp_inputSetHash = computeInputSetHash env (sortedInputs rs), rp_nextStateHash = computeStateHash env next',
      rp_includedMembers = sortedMembers rs, rp_includedInputs = sortedInputs rs\<rparr>"
  have "sessions (snd (proposeRound env sid r s))
      = AList.map_entry sid (updRound r (\<lambda>rs. rs\<lparr>rs_proposal := Some p', rs_status := R_awaiting_acks\<rparr>)) (sessions s)"
    using ss local reducer next'
    by (simp add: proposeRound_def op_simps getStateBytes_def Let_def modRound_def modSession_def p'_def split: sum.splits)
  then have "p = p'" using ss ss' by (auto simp: getSession_def round_of_def)
  then show ?thesis using reducer next' by (simp add: p'_def reducer_agrees_def)
qed

section \<open>Timeouts\<close>

text \<open>The timer of the round is set and has not fired.\<close>

definition armed :: "string \<Rightarrow> nat \<Rightarrow> AkaState \<Rightarrow> bool" where
  "armed sid r s \<longleftrightarrow> (\<exists>ms. map_of (timers s) (timeout_key sid r) = Some \<lparr>tm_ms = ms, tm_action = A_timeout sid r, tm_armed = True\<rparr>)"

text \<open>
  A session in which nothing but timeouts happens: the current round is open, no later round exists,
  and \<open>n\<close> more timeouts are left before the third skip.
\<close>

definition waiting :: "string \<Rightarrow> AkaState \<Rightarrow> nat \<Rightarrow> bool" where
  "waiting sid s n \<longleftrightarrow> (\<exists>ss rs. getSession s sid = Some ss \<and> sc_status (ss_config ss) = St_active
     \<and> round_of ss (ss_currentRound ss) = Some rs \<and> rs_status rs \<noteq> R_finalized
     \<and> (\<forall>r > ss_currentRound ss. round_of ss r = None)
     \<and> rs_viewChangeCount rs < length (sc_membership (ss_config ss)) \<and> ss_consecutiveSkips ss < MAX_CONSECUTIVE_SKIPS
     \<and> n = (MAX_CONSECUTIVE_SKIPS - ss_consecutiveSkips ss) * length (sc_membership (ss_config ss)) - rs_viewChangeCount rs
     \<and> armed sid (ss_currentRound ss) s)"

definition fireCurrent :: "AkaEnv \<Rightarrow> string \<Rightarrow> AkaState \<Rightarrow> AkaState" where
  "fireCurrent env sid s = (case getSession s sid of None \<Rightarrow> s
     | Some ss \<Rightarrow> snd (fireTimer env (timeout_key sid (ss_currentRound ss)) s))"

lemma sendEvent_run:
  assumes "getSession s sid = Some ss" "\<And>t. publish_ok env t"
  shows "fst (sendEvent env ty sid r h p s) = Inr ()" "timers (snd (sendEvent env ty sid r h p s)) = timers s"
  using assms
  by (simp_all add: sendEvent_def buildEvent_def publishEvent_def withSession_def nowA_def readAka_def op_simps Let_def
      getSession_def)

lemma map_of_delete [simp]: "map_of (AList.delete k xs) = (map_of xs)(k := None)"
  by (rule delete_conv')

lemma setTimer_run:
  "fst (setTimer key ms fn s) = Inr ()" "sessions (snd (setTimer key ms fn s)) = sessions s"
  "map_of (timers (snd (setTimer key ms fn s))) = (map_of (timers s))(key \<mapsto> \<lparr>tm_ms = ms, tm_action = fn, tm_armed = True\<rparr>)"
  by (simp_all add: setTimer_def clearTimer_def op_simps)

lemma startRound_run:
  assumes s: "getSession s sid = Some ss" "sc_status (ss_config ss) = St_active"
    and rs: "round_of ss (ss_currentRound ss) = Some rs" "rs_proposerPeerId rs = localPeerId env"
    and pub: "\<And>t. publish_ok env t"
  shows "\<exists>f. (\<forall>rs. rs_viewChangeCount (f rs) = rs_viewChangeCount rs \<and> rs_status (f rs) = R_collecting_inputs)
      \<and> getSession (snd (startRound env sid None s)) sid = Some (updRound (ss_currentRound ss) f ss)
      \<and> armed sid (ss_currentRound ss) (snd (startRound env sid None s))"
proof -
  let ?r = "ss_currentRound ss"
  define f where "f = (\<lambda>rs :: RoundState. rs\<lparr>rs_status := R_collecting_inputs, rs_startTime := Some (aka_clock env (Suc (aka_ticks s))),
      rs_deadline := Some (aka_clock env (aka_ticks s) + int (sc_roundTimeout (ss_config ss)))\<rparr>)"
  define s1 where "s1 = snd (modRound sid ?r f (s\<lparr>aka_ticks := Suc (Suc (aka_ticks s))\<rparr>))"
  have s1: "getSession s1 sid = Some (updRound ?r f ss)"
    using s by (simp add: s1_def modRound_def modSession_def op_simps getSession_def)
  define s2 where "s2 = snd (sendEvent env E_RoundStart sid ?r (ss_latestStateHash ss)
      (encodeRoundStartPayload env \<lparr>rsp_round = ?r, rsp_prevStateHash = ss_latestStateHash ss,
         rsp_deadline = aka_clock env (aka_ticks s) + int (sc_roundTimeout (ss_config ss))\<rparr>) s1)"
  have s2: "getSession s2 sid = Some (updRound ?r f ss)" using s1 by (simp add: s2_def getSession_def)
  define s3 where "s3 = snd (emit (ROUND_STARTED sid ?r) s2)"
  have "snd (startRound env sid None s)
      = snd (setTimer (timeout_key sid ?r) (int (sc_roundTimeout (ss_config ss))) (A_timeout sid ?r)
          (snd (setTimer (input_key sid ?r) (inputWindow (sc_roundTimeout (ss_config ss))) (A_propose sid ?r) s3)))"
    using s rs sendEvent_run(1) [OF s1 pub]
    by (simp add: startRound_def requireSession_def getOrCreateRoundState_def withSession_def op_simps Let_def
        roundMismatch_def throw_if_def nowA_def readAka_def emit_def s3_def s2_def s1_def f_def setTimer_run
        modRound_def modSession_def)
  then show ?thesis
    using s2 by (intro exI [of _ f]) (simp add: armed_def setTimer_run getSession_def s3_def emit_def op_simps f_def)
qed

lemma map_entry_id: "AList.map_entry k (\<lambda>x. x) xs = xs"
  by (induction xs) auto

text \<open>Whoever proposes next, the timer of the current round is armed again.\<close>

lemma restart_run:
  assumes s: "getSession s sid = Some ss" "sc_status (ss_config ss) = St_active"
    and rs: "round_of ss (ss_currentRound ss) = Some rs" "rs_proposerPeerId rs = p"
    and pub: "\<And>t. publish_ok env t"
    and s': "s' = snd ((if p = localPeerId env then detached (startRound env sid None)
        else setTimer (timeout_key sid (ss_currentRound ss)) rt (A_timeout sid (ss_currentRound ss))) s)"
  shows "\<exists>f. (\<forall>rs. rs_viewChangeCount (f rs) = rs_viewChangeCount rs \<and> (rs_status (f rs) = R_finalized \<longrightarrow> rs_status rs = R_finalized))
      \<and> getSession s' sid = Some (updRound (ss_currentRound ss) f ss) \<and> armed sid (ss_currentRound ss) s'"
proof (cases "p = localPeerId env")
  case True
  have "snd (detached (startRound env sid None) s) = snd (startRound env sid None s)"
    by (simp add: detached_def op_simps split: sum.splits)
  then have "s' = snd (startRound env sid None s)" using True s' by simp
  moreover obtain f where "\<forall>rs. rs_viewChangeCount (f rs) = rs_viewChangeCount rs \<and> rs_status (f rs) = R_collecting_inputs"
      "getSession (snd (startRound env sid None s)) sid = Some (updRound (ss_currentRound ss) f ss)"
      "armed sid (ss_currentRound ss) (snd (startRound env sid None s))"
    using startRound_run [OF s rs(1) _ pub] rs(2) True by blast
  ultimately show ?thesis by (intro exI [of _ f]) simp
next
  case False
  then show ?thesis using s s' by (intro exI [of _ "\<lambda>rs. rs"]) (simp add: armed_def setTimer_run getSession_def map_entry_id)
qed

lemma abortSession_run:
  "getSession s sid = Some ss
   \<Longrightarrow> getSession (snd (detached (abortSession env sid reason) s)) sid = Some (setStatus St_aborted ss)"
  by (auto simp: detached_def abortSession_def op_simps modSession_def getSession_def unsubscribeSession_def
      teardownTopicSubscription_def emit_def split: sum.splits)

lemma getOrCreate_fresh:
  assumes "getSession s sid = Some ss" "round_of ss r = None" "sc_membership (ss_config ss) \<noteq> []"
  shows "\<exists>p. fst (getOrCreateRoundState sid r s) = Inr (new_round r p)
     \<and> getSession (snd (getOrCreateRoundState sid r s)) sid
        = Some (ss\<lparr>ss_roundStates := AList.update r (new_round r p) (ss_roundStates ss)\<rparr>)"
  using assms peer_at_mod [OF assms(3)]
  by (auto simp: getOrCreateRoundState_def withSession_def op_simps Let_def modSession_def getSession_def)

lemma skipRound_run:
  assumes s: "getSession s sid = Some ss" "sc_status (ss_config ss) = St_active"
    and later: "\<forall>r > ss_currentRound ss. round_of ss r = None" and ms: "sc_membership (ss_config ss) \<noteq> []"
    and session: "ss_consecutiveSkips session = ss_consecutiveSkips ss" and pub: "\<And>t. publish_ok env t"
    and s': "s' = snd (skipRound env sid (ss_currentRound ss) session s)"
  shows "if MAX_CONSECUTIVE_SKIPS \<le> Suc (ss_consecutiveSkips ss)
     then \<exists>ss'. getSession s' sid = Some ss' \<and> sc_status (ss_config ss') = St_aborted
     else waiting sid s' ((MAX_CONSECUTIVE_SKIPS - Suc (ss_consecutiveSkips ss)) * length (sc_membership (ss_config ss)))"
proof (cases "MAX_CONSECUTIVE_SKIPS \<le> Suc (ss_consecutiveSkips ss)")
  case True
  define s1 where "s1 = snd (modSession sid (\<lambda>ss. ss\<lparr>ss_consecutiveSkips := Suc (ss_consecutiveSkips ss)\<rparr>) s)"
  have "getSession s1 sid = Some (ss\<lparr>ss_consecutiveSkips := Suc (ss_consecutiveSkips ss)\<rparr>)"
    using s by (simp add: s1_def modSession_def op_simps getSession_def)
  from abortSession_run [OF this] show ?thesis
    using True s' session by (simp add: skipRound_def op_simps s1_def modSession_def setStatus_def)
next
  case False
  define r where "r = Suc (ss_currentRound ss)"
  define ss1 where "ss1 = ss\<lparr>ss_consecutiveSkips := Suc (ss_consecutiveSkips ss), ss_currentRound := r\<rparr>"
  define s1 where "s1 = snd (modSession sid (\<lambda>ss. ss\<lparr>ss_currentRound := r\<rparr>)
      (snd (modSession sid (\<lambda>ss. ss\<lparr>ss_consecutiveSkips := Suc (ss_consecutiveSkips ss)\<rparr>) s)))"
  have s1: "getSession s1 sid = Some ss1" using s by (simp add: s1_def ss1_def modSession_def op_simps getSession_def)
  have "round_of ss1 r = None" using later by (simp add: ss1_def r_def round_of_def)
  with getOrCreate_fresh [OF s1] ms obtain p where fresh: "fst (getOrCreateRoundState sid r s1) = Inr (new_round r p)"
    and s2: "getSession (snd (getOrCreateRoundState sid r s1)) sid
        = Some (ss1\<lparr>ss_roundStates := AList.update r (new_round r p) (ss_roundStates ss1)\<rparr>)"
    by (auto simp: ss1_def)
  define ss2 where "ss2 = ss1\<lparr>ss_roundStates := AList.update r (new_round r p) (ss_roundStates ss1)\<rparr>"
  have cur: "ss_currentRound ss2 = r" by (simp add: ss2_def ss1_def)
  have run: "s' = snd ((if p = localPeerId env then detached (startRound env sid None)
        else setTimer (timeout_key sid (ss_currentRound ss2)) (int (sc_roundTimeout (ss_config session)))
               (A_timeout sid (ss_currentRound ss2))) (snd (getOrCreateRoundState sid r s1)))"
    using False s' session fresh
    by (simp add: skipRound_def op_simps cur r_def s1_def modSession_def new_round_def)
  obtain f where f: "\<forall>rs. rs_viewChangeCount (f rs) = rs_viewChangeCount rs \<and> (rs_status (f rs) = R_finalized \<longrightarrow> rs_status rs = R_finalized)"
    and g: "getSession s' sid = Some (updRound (ss_currentRound ss2) f ss2)" and a: "armed sid (ss_currentRound ss2) s'"
    using restart_run [OF s2 [folded ss2_def] _ _ _ pub run] s(2)
    by (auto simp: ss2_def ss1_def round_of_def new_round_def)
  have "waiting sid s' ((MAX_CONSECUTIVE_SKIPS - Suc (ss_consecutiveSkips ss)) * length (sc_membership (ss_config ss)))"
    unfolding waiting_def using g a f s(2) False later ms
    by (intro exI [of _ "updRound (ss_currentRound ss2) f ss2"] exI [of _ "f (new_round r p)"])
      (auto simp: ss2_def ss1_def round_of_def new_round_def r_def MAX_CONSECUTIVE_SKIPS_def)
  then show ?thesis using False by simp
qed

lemma retryRound_run:
  assumes s: "getSession s sid = Some ss" "sc_status (ss_config ss) = St_active"
    and rs: "round_of ss (ss_currentRound ss) = Some rs" "rs_proposerPeerId rs = p" and pub: "\<And>t. publish_ok env t"
    and s': "s' = snd (retryRound env sid (ss_currentRound ss) session vc p s)"
  shows "\<exists>f. (\<forall>rs. rs_viewChangeCount (f rs) = rs_viewChangeCount rs \<and> rs_status (f rs) \<noteq> R_finalized)
      \<and> getSession s' sid = Some (updRound (ss_currentRound ss) f ss) \<and> armed sid (ss_currentRound ss) s'"
proof -
  let ?g = "\<lambda>rs :: RoundState. rs\<lparr>rs_status := R_awaiting_start\<rparr>"
  let ?r = "ss_currentRound ss"
  define s1 where "s1 = snd (modRound sid ?r ?g s)"
  define s2 where "s2 = snd ((if p = localPeerId env then detached (startRound env sid None)
      else setTimer (timeout_key sid ?r) (int (sc_roundTimeout (ss_config session))) (A_timeout sid ?r)) s1)"
  have s1: "getSession s1 sid = Some (updRound ?r ?g ss)"
    using s by (simp add: s1_def modRound_def modSession_def op_simps getSession_def)
  have "\<exists>f. (\<forall>rs. rs_viewChangeCount (f rs) = rs_viewChangeCount rs \<and> (rs_status (f rs) = R_finalized \<longrightarrow> rs_status rs = R_finalized))
      \<and> getSession s2 sid = Some (updRound (ss_currentRound (updRound ?r ?g ss)) f (updRound ?r ?g ss))
      \<and> armed sid (ss_currentRound (updRound ?r ?g ss)) s2"
    by (rule restart_run [OF s1 _ _ _ pub, where p = p and rs = "?g rs"]) (use s rs in \<open>auto simp: round_of_def s2_def\<close>)
  then obtain f where f: "\<forall>rs. rs_viewChangeCount (f rs) = rs_viewChangeCount rs \<and> (rs_status (f rs) = R_finalized \<longrightarrow> rs_status rs = R_finalized)"
    and g: "getSession s2 sid = Some (updRound ?r f (updRound ?r ?g ss))" and a: "armed sid ?r s2"
    by auto
  have "fst ((if p = localPeerId env then detached (startRound env sid None)
      else setTimer (timeout_key sid ?r) (int (sc_roundTimeout (ss_config session))) (A_timeout sid ?r)) s1) = Inr ()"
    by (simp add: detached_def op_simps setTimer_run split: sum.splits)
  then have "s' = snd (emit (ROUND_TIMEOUT sid ?r vc p) s2)"
    using s' by (simp add: retryRound_def op_simps s2_def s1_def modRound_def modSession_def)
  then show ?thesis using f g a
    by (intro exI [of _ "f \<circ> ?g"]) (auto simp: emit_def op_simps getSession_def armed_def map_entry_twice)
qed

text \<open>One timeout uses up one of the timeouts that are left; the last one aborts the session.\<close>

lemma fireCurrent_step:
  assumes w: "waiting sid s n" and pub: "\<And>t. publish_ok env t"
  shows "if n = 1 then \<exists>ss. getSession (fireCurrent env sid s) sid = Some ss \<and> sc_status (ss_config ss) = St_aborted
         else 1 < n \<and> waiting sid (fireCurrent env sid s) (n - 1)"
proof -
  obtain ss rs where ss: "getSession s sid = Some ss" "sc_status (ss_config ss) = St_active"
    and rs: "round_of ss (ss_currentRound ss) = Some rs" "rs_status rs \<noteq> R_finalized"
    and later: "\<forall>r > ss_currentRound ss. round_of ss r = None"
    and vc: "rs_viewChangeCount rs < length (sc_membership (ss_config ss))"
    and sk: "ss_consecutiveSkips ss < MAX_CONSECUTIVE_SKIPS"
    and n: "n = (MAX_CONSECUTIVE_SKIPS - ss_consecutiveSkips ss) * length (sc_membership (ss_config ss)) - rs_viewChangeCount rs"
    and arm: "armed sid (ss_currentRound ss) s"
    using w unfolding waiting_def by blast
  let ?r = "ss_currentRound ss" and ?N = "length (sc_membership (ss_config ss))" and ?vc = "Suc (rs_viewChangeCount rs)"
  have ms: "sc_membership (ss_config ss) \<noteq> []" using vc by auto
  define s0 where "s0 = s\<lparr>timers := AList.map_entry (timeout_key sid ?r) (\<lambda>tm. tm\<lparr>tm_armed := False\<rparr>) (timers s)\<rparr>"
  have s0: "getSession s0 sid = Some ss" using ss by (simp add: s0_def getSession_def)
  have fire: "fireCurrent env sid s = snd (handleRoundTimeout env sid ?r s0)"
    using ss arm by (auto simp: fireCurrent_def fireTimer_def op_simps armed_def s0_def)
  define f where "f = (\<lambda>p rs. rs\<lparr>rs_status := R_timed_out, rs_viewChangeCount := ?vc, rs_proposerPeerId := p\<rparr> :: RoundState)"
  obtain p where rot: "rotateProposer sid ?r ss ?vc s0 = (Inr p, snd (modSession sid (updRound ?r (f p)) s0))"
    using wf.rotateProposer_run [OF ms, of ?r ?vc sid s0] by (auto simp: f_def)
  define s1 where "s1 = snd (modSession sid (updRound ?r (f p)) s0)"
  define ss1 where "ss1 = updRound ?r (f p) ss"
  have s1: "getSession s1 sid = Some ss1" using s0 by (simp add: s1_def ss1_def modSession_def op_simps getSession_def)
  have run: "fireCurrent env sid s = snd ((if ?N \<le> ?vc then skipRound env sid ?r ss else retryRound env sid ?r ss ?vc p) s1)"
    using s0 rs rot by (simp add: fire handleRoundTimeout_def op_simps Let_def s1_def)
  have facts: "sc_status (ss_config ss1) = St_active" "ss_currentRound ss1 = ?r" "sc_membership (ss_config ss1) = sc_membership (ss_config ss)"
    "ss_consecutiveSkips ss1 = ss_consecutiveSkips ss" "\<forall>r > ?r. round_of ss1 r = None" "round_of ss1 ?r = Some (f p rs)"
    using ss rs later by (auto simp: ss1_def round_of_def)
  show ?thesis
  proof (cases "?N \<le> ?vc")
    case True
    then have eq: "?vc = ?N" using vc by simp
    have n': "n = (MAX_CONSECUTIVE_SKIPS - Suc (ss_consecutiveSkips ss)) * ?N + 1"
      using n sk vc eq by (simp add: Suc_diff_Suc [symmetric] del: Suc_diff_Suc)
    have step: "if MAX_CONSECUTIVE_SKIPS \<le> Suc (ss_consecutiveSkips ss1)
     then \<exists>ss'. getSession (fireCurrent env sid s) sid = Some ss' \<and> sc_status (ss_config ss') = St_aborted
     else waiting sid (fireCurrent env sid s) ((MAX_CONSECUTIVE_SKIPS - Suc (ss_consecutiveSkips ss1)) * length (sc_membership (ss_config ss1)))"
      by (rule skipRound_run [OF s1, where session = ss and env = env]) (use facts ms pub run True in auto)
    show ?thesis using step n' facts ms by (auto split: if_splits)
  next
    case False
    obtain g where g: "\<forall>rs. rs_viewChangeCount (g rs) = rs_viewChangeCount rs \<and> rs_status (g rs) \<noteq> R_finalized"
      and s': "getSession (fireCurrent env sid s) sid = Some (updRound ?r g ss1)" and a: "armed sid ?r (fireCurrent env sid s)"
      using retryRound_run [OF s1 facts(1) _ _ pub, where session = ss and vc = ?vc and p = p and rs = "f p rs"] facts run False
      by (auto simp: f_def)
    have "waiting sid (fireCurrent env sid s) (n - 1)"
      unfolding waiting_def using s' a g facts sk n False
      by (intro exI [of _ "updRound ?r g ss1"] exI [of _ "g (f p rs)"]) (auto simp: round_of_def f_def)
    moreover have "1 < n" using n sk False by (cases "MAX_CONSECUTIVE_SKIPS - ss_consecutiveSkips ss") auto
    ultimately show ?thesis by simp
  qed
qed

end
