(* ===== verification/AkaConcurrent.thy ===== *)
theory AkaConcurrent
  imports AkaValidator
begin

text \<open>
  Validations that overlap. \<^verbatim>\<open>SessionValidator.validate\<close> awaits every one of its checks, and the gossip handler does
  not wait for one message before it passes on the next, so several validations can be in progress at once: each
  step runs the next check of one of them on the validator and the session as they are then, and an event is
  recorded only in the step after its last check. A validation that nothing interrupts is \<open>validate\<close>. The replay
  check protects an event from the moment a copy has been recorded, not from the moment its validation began.
\<close>

section \<open>The steps of a validation\<close>

definition event_check_fns :: "AkaEnv \<Rightarrow> AKAEvent \<Rightarrow> (SessionValidator \<Rightarrow> SessionState \<Rightarrow> Verdict) list" where
  "event_check_fns env event =
     [\<lambda>v session. checkMode event, \<lambda>v session. checkSessionExists event session,
      \<lambda>v session. checkMembership event session, \<lambda>v session. checkSchemaConformance event,
      \<lambda>v session. checkReplayProtection env v event, \<lambda>v session. checkSignature env event session]
     @ (if isRoundEvent (ev_type event)
        then [\<lambda>v session. checkStateLinkage event session, \<lambda>v session. checkTiming event session,
              \<lambda>v session. checkEquivocation event session] else [])
     @ (if type_text (ev_type event) \<in> set [''RoundProposal'', ''RoundStart'', ''RoundFinalized'']
        then [\<lambda>v session. checkProposerAuthority event session] else [])
     @ (if type_text (ev_type event) = ''SessionActivated'' then [\<lambda>v session. checkCreatorAuthority event session] else [])"

text \<open>The position of the replay check in the list of checks.\<close>

definition replay_position :: nat where
  "replay_position = 4"

record Validation =
  va_event :: AKAEvent
  va_passed :: nat

text \<open>The validations in progress by the order in which they began; a finished one is \<open>None\<close>.\<close>

record ConcurrentValidator =
  vc_validator :: SessionValidator
  vc_tasks :: "Validation option list"
  vc_accepted :: "AKAEvent list"

datatype ValidatorStep = Begin AKAEvent | Resume nat SessionState | Reset string

fun validator_step :: "AkaEnv \<Rightarrow> ValidatorStep \<Rightarrow> ConcurrentValidator \<Rightarrow> ConcurrentValidator" where
  "validator_step env (Begin event) st = st\<lparr>vc_tasks := vc_tasks st @ [Some \<lparr>va_event = event, va_passed = 0\<rparr>]\<rparr>"
| "validator_step env (Resume i session) st =
     (if i < length (vc_tasks st) then
        (case vc_tasks st ! i of
           None \<Rightarrow> st
         | Some t \<Rightarrow>
             let checks = event_check_fns env (va_event t) in
             if va_passed t < length checks then
               (if (checks ! va_passed t) (vc_validator st) session = Valid
                then st\<lparr>vc_tasks := (vc_tasks st)[i := Some (t\<lparr>va_passed := va_passed t + 1\<rparr>)]\<rparr>
                else st\<lparr>vc_tasks := (vc_tasks st)[i := None]\<rparr>)
             else st\<lparr>vc_validator := recordEvent env (va_event t) (vc_validator st),
                     vc_tasks := (vc_tasks st)[i := None], vc_accepted := vc_accepted st @ [va_event t]\<rparr>)
      else st)"
| "validator_step env (Reset sessionId) st = st\<lparr>vc_validator := reset_session sessionId (vc_validator st)\<rparr>"

definition validator_run :: "AkaEnv \<Rightarrow> ValidatorStep list \<Rightarrow> ConcurrentValidator \<Rightarrow> ConcurrentValidator" where
  "validator_run env steps st = fold (validator_step env) steps st"

definition new_validator :: ConcurrentValidator where
  "new_validator = \<lparr>vc_validator = \<lparr>seenNonces = [], seenTuples = []\<rparr>, vc_tasks = [], vc_accepted = []\<rparr>"

lemma validator_run_simps [simp]:
  "validator_run env [] st = st" "validator_run env (x # xs) st = validator_run env xs (validator_step env x st)"
  "validator_run env (xs @ ys) st = validator_run env ys (validator_run env xs st)"
  by (simp_all add: validator_run_def)

section \<open>A validation that nothing interrupts\<close>

lemma event_checks_fns: "event_checks env v event session = map (\<lambda>c. c v session) (event_check_fns env event)"
  by (simp add: event_checks_def event_check_fns_def)

lemma replay_check:
  "replay_position < length (event_check_fns env event)"
  "event_check_fns env event ! replay_position = (\<lambda>v session. checkReplayProtection env v event)"
  by (simp_all add: event_check_fns_def replay_position_def)

lemma resume_rest:
  assumes "i < length (vc_tasks st)" "vc_tasks st ! i = Some \<lparr>va_event = e, va_passed = m\<rparr>"
    and "m \<le> length (event_check_fns env e)"
  shows "validator_run env (replicate (length (event_check_fns env e) - m + 1) (Resume i session)) st =
    (if \<forall>c \<in> set (drop m (event_check_fns env e)). c (vc_validator st) session = Valid
     then st\<lparr>vc_validator := recordEvent env e (vc_validator st), vc_tasks := (vc_tasks st)[i := None],
             vc_accepted := vc_accepted st @ [e]\<rparr>
     else st\<lparr>vc_tasks := (vc_tasks st)[i := None]\<rparr>)"
  using assms
proof (induction "length (event_check_fns env e) - m" arbitrary: st m)
  case 0
  then show ?case by simp
next
  case (Suc n)
  let ?cs = "event_check_fns env e"
  have m: "m < length ?cs" using Suc.hyps(2) by simp
  have dead: "validator_run env (replicate k (Resume i session)) u = u" if "i < length (vc_tasks u)" "vc_tasks u ! i = None" for k u
    using that by (induction k) simp_all
  have split: "drop m ?cs = ?cs ! m # drop (Suc m) ?cs" using m by (simp add: Cons_nth_drop_Suc)
  have steps: "replicate (length ?cs - m + 1) (Resume i session) = Resume i session # replicate (length ?cs - Suc m + 1) (Resume i session)"
    using m by (simp add: Suc_diff_Suc)
  show ?case
  proof (cases "(?cs ! m) (vc_validator st) session = Valid")
    case True
    let ?u = "st\<lparr>vc_tasks := (vc_tasks st)[i := Some \<lparr>va_event = e, va_passed = Suc m\<rparr>]\<rparr>"
    have "validator_step env (Resume i session) st = ?u" using Suc.prems m True by simp
    moreover have "validator_run env (replicate (length ?cs - Suc m + 1) (Resume i session)) ?u =
       (if \<forall>c \<in> set (drop (Suc m) ?cs). c (vc_validator ?u) session = Valid
        then ?u\<lparr>vc_validator := recordEvent env e (vc_validator ?u), vc_tasks := (vc_tasks ?u)[i := None],
                vc_accepted := vc_accepted ?u @ [e]\<rparr>
        else ?u\<lparr>vc_tasks := (vc_tasks ?u)[i := None]\<rparr>)"
      by (rule Suc.hyps(1)) (use Suc.hyps(2) Suc.prems m in auto)
    ultimately show ?thesis using True unfolding split steps by simp
  next
    case False
    have "validator_step env (Resume i session) st = st\<lparr>vc_tasks := (vc_tasks st)[i := None]\<rparr>" using Suc.prems m False by simp
    then show ?thesis using False Suc.prems(1) unfolding split steps by (simp add: dead)
  qed
qed

text \<open>Run to its end without interruption, a validation does what \<open>validate\<close> does.\<close>

lemma validate_uninterrupted:
  fixes env e session
  defines "steps \<equiv> replicate (length (event_check_fns env e) + 1) (Resume 0 session)"
  shows "validator_run env (Begin e # steps) \<lparr>vc_validator = v, vc_tasks = [], vc_accepted = []\<rparr> =
    \<lparr>vc_validator = snd (validate env e session v), vc_tasks = [None],
     vc_accepted = (if fst (validate env e session v) = Valid then [e] else [])\<rparr>"
proof -
  have "fst (validate env e session v) = Valid \<longleftrightarrow> (\<forall>c \<in> set (event_check_fns env e). c v session = Valid)"
    by (simp add: validate_Valid event_checks_fns)
  then show ?thesis
    using resume_rest [of 0 "\<lparr>vc_validator = v, vc_tasks = [Some \<lparr>va_event = e, va_passed = 0\<rparr>], vc_accepted = []\<rparr>" e 0 env session]
    by (simp add: steps_def validate_state)
qed

section \<open>Replay\<close>

text \<open>A copy of the event has been recorded, and no other copy is past its replay check.\<close>

definition same_tuple :: "AkaEnv \<Rightarrow> AKAEvent \<Rightarrow> AKAEvent \<Rightarrow> bool" where
  "same_tuple env e e' \<longleftrightarrow> tupleKey env e' = tupleKey env e"

definition no_copy_past_replay :: "AkaEnv \<Rightarrow> AKAEvent \<Rightarrow> ConcurrentValidator \<Rightarrow> bool" where
  "no_copy_past_replay env e st \<longleftrightarrow>
     list_all (\<lambda>t. case t of None \<Rightarrow> True | Some t \<Rightarrow> same_tuple env e (va_event t) \<longrightarrow> va_passed t \<le> replay_position) (vc_tasks st)"

fun resets :: "AkaEnv \<Rightarrow> AKAEvent \<Rightarrow> ValidatorStep \<Rightarrow> bool" where
  "resets env e (Reset sessionId) = startsWith (tupleKey env e) sessionId"
| "resets env e _ = False"

lemma has_seen_same: "same_tuple env e e' \<Longrightarrow> has_seen env e' v = has_seen env e v"
  by (simp add: same_tuple_def has_seen_def)

lemma step_keeps_seen:
  assumes "has_seen env e (vc_validator st)" "\<not> resets env e x"
  shows "has_seen env e (vc_validator (validator_step env x st))"
proof (cases x)
  case (Resume i session)
  then show ?thesis using assms(1) by (auto simp: Let_def has_seen_recordEvent split: option.splits)
next
  case (Reset sid)
  then show ?thesis using assms by (simp add: has_seen_def reset_session_def)
qed (use assms in simp)

text \<open>What has been accepted is recorded.\<close>

lemma run_accepted_seen:
  assumes "\<forall>x \<in> set steps. \<not> resets env e x"
    and "(\<exists>e' \<in> set (vc_accepted st). same_tuple env e e') \<longrightarrow> has_seen env e (vc_validator st)"
    and "e' \<in> set (vc_accepted (validator_run env steps st))" "same_tuple env e e'"
  shows "has_seen env e (vc_validator (validator_run env steps st))"
  using assms
proof (induction steps arbitrary: st)
  case (Cons x xs)
  have "has_seen env e (vc_validator (validator_step env x st))"
    if a: "a \<in> set (vc_accepted (validator_step env x st))" "same_tuple env e a" for a
  proof (cases "a \<in> set (vc_accepted st)")
    case True
    then show ?thesis using Cons.prems(1,2) a(2) step_keeps_seen by force
  next
    case False
    then show ?thesis using a
      by (cases x) (auto simp: Let_def has_seen_recordEvent same_tuple_def split: option.splits if_splits)
  qed
  then show ?case using Cons.IH [of "validator_step env x st"] Cons.prems by fastforce
qed auto

lemma step_not_accepted:
  assumes "has_seen env e (vc_validator st)" "no_copy_past_replay env e st"
  shows "no_copy_past_replay env e (validator_step env x st)
    \<and> filter (same_tuple env e) (vc_accepted (validator_step env x st)) = filter (same_tuple env e) (vc_accepted st)"
proof (cases x)
  case (Begin e')
  then show ?thesis using assms(2) by (simp add: no_copy_past_replay_def)
next
  case (Reset sid)
  then show ?thesis using assms(2) by (simp add: no_copy_past_replay_def)
next
  case (Resume i session)
  show ?thesis
  proof (cases "i < length (vc_tasks st) \<and> vc_tasks st ! i \<noteq> None")
    case False
    then show ?thesis using Resume assms(2) by (auto split: option.splits)
  next
    case True
    then obtain t where t: "i < length (vc_tasks st)" "vc_tasks st ! i = Some t" by auto
    let ?cs = "event_check_fns env (va_event t)"
    have le: "va_passed t \<le> replay_position" if "same_tuple env e (va_event t)"
      using assms(2) t that nth_mem [OF t(1)] by (fastforce simp: no_copy_past_replay_def list_all_iff)
    have refused: "(?cs ! va_passed t) (vc_validator st) session \<noteq> Valid"
      if "same_tuple env e (va_event t)" "va_passed t = replay_position"
      using that assms(1) has_seen_same replay_check(2) [of env "va_event t"]
      by (auto simp: checkReplayProtection_def check_def has_seen_def same_tuple_def)
    have others: "list_all P ((vc_tasks st)[i := z])" if "list_all P (vc_tasks st)" "P z" for P z
      using that set_update_subset_insert [of "vc_tasks st" i z] by (auto simp: list_all_iff)
    show ?thesis
    proof (cases "same_tuple env e (va_event t)")
      case True
      then have "va_passed t < length ?cs" using le replay_check(1) [of env "va_event t"] by simp
      moreover have "va_passed t < replay_position" if "(?cs ! va_passed t) (vc_validator st) session = Valid"
        using refused True le that by (metis le_neq_implies_less)
      ultimately show ?thesis
        using Resume t assms(2) True by (auto simp: no_copy_past_replay_def Let_def intro!: others)
    next
      case False
      then show ?thesis
        using Resume t assms(2) by (auto simp: no_copy_past_replay_def Let_def intro!: others)
    qed
  qed
qed

lemma run_not_accepted:
  assumes "has_seen env e (vc_validator st)" "no_copy_past_replay env e st" "\<forall>x \<in> set steps. \<not> resets env e x"
  shows "filter (same_tuple env e) (vc_accepted (validator_run env steps st)) = filter (same_tuple env e) (vc_accepted st)"
  using assms
proof (induction steps arbitrary: st)
  case (Cons x xs)
  then show ?case using step_not_accepted [OF Cons.prems(1,2), of x] step_keeps_seen [OF Cons.prems(1), of x] by simp
qed simp

end
