(* ===== verification/AkaProperties.thy ===== *)
theory AkaProperties
  imports AkaFinality AkaConcurrent
begin

text \<open>
  The properties of attested sessions, each a short consequence of the component theories, with the
  concrete nodes on which their hypotheses are shown to hold.
\<close>

section \<open>Sample nodes\<close>

text \<open>
  A network of three peers with tables for codecs: the event with number \<open>n\<close> is the byte \<open>n\<close> on the
  wire. Node \<open>a\<close> creates a session, node \<open>b\<close> receives the proposal of a session.
\<close>

definition sample_member :: "string \<Rightarrow> SessionMember" where
  "sample_member p = \<lparr>m_peerId = p, m_pubKey = [], m_displayName = p, m_role = Role_member\<rparr>"

definition sample_members :: "SessionMember list" where
  "sample_members = [sample_member ''a'', sample_member ''b'']"

definition sample_policy :: QuorumPolicy where
  "sample_policy = \<lparr>qp_type = ''THRESHOLD'', qp_numerator = 2, qp_denominator = 3, qp_minSigners = 2\<rparr>"

definition sample_reducer :: ReducerConfig where
  "sample_reducer = \<lparr>rc_name = ''r'', rc_version = ''1'', rc_hash = ''h''\<rparr>"

definition sample_module :: ReducerModule where
  "sample_module = \<lparr>rm_name = ''r'', rm_version = ''1'', rm_hash = ''h'', rm_reduce = (\<lambda>s is. Inr (s @ concat is)),
     rm_genesisState = (\<lambda>_. Inr [])\<rparr>"

definition sample_config :: "SessionStatus \<Rightarrow> SessionConfig" where
  "sample_config st = \<lparr>sc_sessionId = ''73'', sc_contextGraphId = ''g'', sc_appId = ''app'', sc_createdBy = ''a'',
     sc_createdAt = ''t'', sc_membership = sample_members, sc_membershipRoot = [], sc_quorumPolicy = sample_policy,
     sc_reducer = sample_reducer, sc_genesisStateHash = [], sc_roundTimeout = 1000, sc_maxRounds = None, sc_status = st,
     sc_configHash = ''73''\<rparr>"

definition sample_event :: "AKAEventType \<Rightarrow> string \<Rightarrow> string \<Rightarrow> nat \<Rightarrow> AKAEvent" where
  "sample_event ty sid signer r = \<lparr>ev_mode = ''AKA'', ev_type = ty, ev_sessionId = sid, ev_round = r, ev_prevStateHash = [],
     ev_signerPeerId = signer, ev_signature = [1], ev_timestamp = 5, ev_nonce = type_text ty, ev_payload = []\<rparr>"

definition sample_fin :: RoundFinalizedPayload where
  "sample_fin = \<lparr>rf_round = 1, rf_nextStateHash = [], rf_signerPeerIds = [''a'', ''b''],
     rf_signatures = [replicate 64 0, replicate 64 0]\<rparr>"

definition sample_node :: "string \<Rightarrow> SessionStatus \<Rightarrow> AkaEnv" where
  "sample_node p st = \<lparr>localPeerId = p, secretKey = [], network = ''n'', proposerGraceMs = 5000, acceptTimeoutMs = 60000,
     aka_sha256 = (\<lambda>_. [0x73]), ed25519Sign = (\<lambda>m k. [1]), ed25519Verify = (\<lambda>s m k. Some True),
     localeCompare = (\<lambda>x y. if x < y then -1 else if x = y then 0 else 1), toISOString = show_int,
     wire_SessionConfig = (\<lambda>_. []), unwire_SessionConfig = (\<lambda>_. Some (sample_config st, 0)),
     encodeAKAEvent = (\<lambda>_. []),
     decodeAKAEvent = map_of [([0], sample_event E_SessionProposed ''73'' ''a'' 0), ([1], sample_event E_SessionAccepted ''73'' ''b'' 0)],
     encodeRoundStartPayload = (\<lambda>_. []), decodeRoundStartPayload = (\<lambda>_. None),
     encodeInputPayload = (\<lambda>_. []), decodeInputPayload = (\<lambda>_. None),
     encodeRoundProposalPayload = (\<lambda>_. []), decodeRoundProposalPayload = (\<lambda>_. None),
     encodeRoundAckPayload = (\<lambda>_. []), decodeRoundAckPayload = (\<lambda>_. None),
     encodeRoundFinalizedPayload = (\<lambda>_. []), decodeRoundFinalizedPayload = (\<lambda>_. Some sample_fin),
     encodeSessionAcceptedPayload = (\<lambda>_. []), aka_clock = int, randomSuffix = (\<lambda>_. ''x''), publish_ok = (\<lambda>_. True)\<rparr>"

text \<open>Node \<open>a\<close> registers its reducer and creates a session; with the sample hash its id is 73.\<close>

definition sample_created :: AkaState where
  "sample_created = aka_run (sample_node ''a'' St_proposed)
     [C_register sample_module, C_create ''g'' ''app'' sample_members sample_policy sample_reducer 1000 None] init_aka"

definition sample_accepting :: "AkaInput list" where
  "sample_accepting = [C_message (sessionTopic ''g'' ''73'') [1], C_activate ''73'']"

text \<open>Node \<open>b\<close> listens on the context graph and receives the proposal.\<close>

definition sample_invited :: "SessionStatus \<Rightarrow> AkaState" where
  "sample_invited st = aka_run (sample_node ''b'' st)
     [C_register sample_module, C_subscribe ''g'', C_message (contextGraphSessionsTopic ''g'') [0]] init_aka"

text \<open>A node with an active session in round 1, whose proposer is \<open>b\<close>.\<close>

definition sample_proposal :: RoundProposalPayload where
  "sample_proposal = \<lparr>rp_round = 1, rp_prevStateHash = [], rp_inputSetHash = ''73'', rp_nextStateHash = ''73'',
     rp_includedMembers = [], rp_includedInputs = []\<rparr>"

definition sample_session :: "RoundState \<Rightarrow> SessionState" where
  "sample_session rs = (initSessionState (sample_config St_active) [])\<lparr>ss_currentRound := 1, ss_roundStates := [(1, rs)]\<rparr>"

lemma sample_session_simps:
  "ss_equivocators (sample_session rs) = []" "ss_inactiveMembers (sample_session rs) = []"
  "sc_membership (ss_config (sample_session rs)) = sample_members" "sc_quorumPolicy (ss_config (sample_session rs)) = sample_policy"
  by (simp_all add: sample_session_def initSessionState_def sample_config_def)

definition sample_state :: "RoundState \<Rightarrow> AkaState" where
  "sample_state rs = init_aka\<lparr>sessions := [(''73'', sample_session rs)], registry := register sample_module [],
     timers := [(timeout_key ''73'' 1, \<lparr>tm_ms = 1000, tm_action = A_timeout ''73'' 1, tm_armed = True\<rparr>)]\<rparr>"

definition sample_round :: RoundState where
  "sample_round = (new_round 1 ''b'')\<lparr>rs_inputs := [(''b'', \<lparr>ip_round = 1, ip_data = [2]\<rparr>), (''a'', \<lparr>ip_round = 1, ip_data = [1]\<rparr>)]\<rparr>"

definition sample_proposed :: AkaState where
  "sample_proposed = sample_state (sample_round\<lparr>rs_proposal := Some sample_proposal\<rparr>)"

abbreviation final_event :: AKAEvent where
  "final_event \<equiv> sample_event E_RoundFinalized ''73'' ''b'' 1"

lemma aka_run_reachable:
  "aka_reachable env allowed s \<Longrightarrow> list_all allowed is \<Longrightarrow> aka_reachable env allowed (aka_run env is s)"
  unfolding aka_run_def by (induction "is" arbitrary: s) (auto intro: aka_reachable.step)

lemmas sample_reachable = aka_run_reachable [OF aka_reachable.start]

lemma sample_created_session:
  "map_option (\<lambda>ss. (sc_status (ss_config ss), ss_acceptedMembers ss)) (getSession sample_created ''73'') = Some (St_proposed, [])"
  by code_simp

lemma sample_active_session:
  "map_option (\<lambda>ss. (sc_status (ss_config ss), ss_acceptedMembers ss))
     (getSession (aka_run (sample_node ''a'' St_proposed) sample_accepting sample_created) ''73'') = Some (St_active, [''b''])"
  by code_simp

lemma sample_invited_session:
  "map_option (\<lambda>ss. (sc_createdBy (ss_config ss), sc_status (ss_config ss))) (getSession (sample_invited St_proposed) ''73'')
   = Some (''a'', St_proposed)"
  by code_simp

section \<open>Invariants of the sessions\<close>

text \<open>
  C16. In every run of a session manager, whatever its peers send, every session is stored under its
  own id and has members, the members that accepted and the equivocators are members without
  repetition, and in every round the proposer is the member that the rotation names for the round
  and its view changes, and inputs, acknowledgements and their signatures belong to members, one
  each.
\<close>

theorem aka_sessions_wellformed:
  assumes "aka_reachable env (\<lambda>_. True) s" "getSession s k = Some ss"
  shows "session_wf k ss"
  using assms by (rule reachable_wf)

theorem aka_sessions_wellformed_witness:
  "\<exists>ss. getSession sample_created ''73'' = Some ss \<and> session_wf ''73'' ss"
proof -
  obtain ss where "getSession sample_created ''73'' = Some ss" using sample_created_session by auto
  moreover have "aka_reachable (sample_node ''a'' St_proposed) (\<lambda>_. True) sample_created"
    unfolding sample_created_def by (rule sample_reachable) simp
  ultimately show ?thesis using aka_sessions_wellformed by blast
qed

text \<open>
  C39. As long as no peer proposes a session that is already marked active, a session is active at a
  node only after every member other than the creator has accepted it.
\<close>

theorem aka_active_needs_consent:
  assumes "aka_reachable env (wire_ok env (\<lambda>_. True) not_active) s" "getSession s k = Some ss"
    and "sc_status (ss_config ss) = St_active" "m \<in> set (sc_membership (ss_config ss))"
    and "m_peerId m \<noteq> sc_createdBy (ss_config ss)"
  shows "m_peerId m \<in> set (ss_acceptedMembers ss)"
proof -
  have "consent k ss" using consent.reachable_inv [OF assms(1) TrueI] assms(2) by (simp add: focused_def)
  then show ?thesis using assms(3-5) by (auto simp: consent_def pendingMembers_def filter_empty_conv)
qed

theorem aka_active_needs_consent_witness:
  "\<exists>ss. getSession (aka_run (sample_node ''a'' St_proposed) sample_accepting sample_created) ''73'' = Some ss
     \<and> sc_status (ss_config ss) = St_active \<and> ''b'' \<in> set (ss_acceptedMembers ss)"
proof -
  let ?s = "aka_run (sample_node ''a'' St_proposed) sample_accepting sample_created"
  obtain ss where ss: "getSession ?s ''73'' = Some ss" "sc_status (ss_config ss) = St_active"
    using sample_active_session by auto
  have "map_option (\<lambda>ss. (sc_membership (ss_config ss), sc_createdBy (ss_config ss))) (getSession ?s ''73'') = Some (sample_members, ''a'')"
    by code_simp
  then have m: "sample_member ''b'' \<in> set (sc_membership (ss_config ss))" "m_peerId (sample_member ''b'') \<noteq> sc_createdBy (ss_config ss)"
    using ss by (simp_all add: sample_members_def sample_member_def)
  have "aka_reachable (sample_node ''a'' St_proposed) (wire_ok (sample_node ''a'' St_proposed) (\<lambda>_. True) not_active) ?s"
    unfolding sample_created_def
    by (rule aka_run_reachable [OF sample_reachable])
      (simp_all add: sample_accepting_def sample_node_def sample_config_def decodeSessionConfig_def not_active_def)
  from aka_active_needs_consent [OF this ss m] show ?thesis using ss by (auto simp: sample_member_def)
qed

text \<open>
  A proposed session takes its status from the proposal, and the configuration hash does not
  cover the status: a proposal marked active that passes every check becomes an active session in
  which nobody has accepted.
\<close>

theorem proposed_status_trusted:
  assumes "getSession s (ev_sessionId e) = None" "type_text (ev_type e) = ''SessionProposed''"
    and "decodeSessionConfig env (ev_payload e) = Some config" "sc_sessionId config = ev_sessionId e"
    and "sc_configHash config = computeConfigHash env (config\<lparr>sc_status := St_proposed\<rparr>)"
    and "ev_signerPeerId e = sc_createdBy config" "find_member (sc_membership config) (sc_createdBy config) = Some creator"
    and "verifyAKASignature env (proposed_context env config) (ev_payload e) (ev_signature e) (m_pubKey creator) = Some True"
    and "localPeerId env \<in> m_peerId ` set (sc_membership config)"
    and "resolve (registry s) (sc_reducer config) = Some reducer" "rm_genesisState reducer (sc_membership config) = Inr g"
    and "sc_status config = St_active"
  shows "\<exists>ss. getSession (snd (handleIncomingEvent env e s)) (ev_sessionId e) = Some ss
     \<and> sc_status (ss_config ss) = St_active \<and> ss_acceptedMembers ss = []"
proof -
  have hash: "computeConfigHash env config = sc_configHash config"
    using assms(5) by (simp add: computeConfigHash_def json_config_def)
  have "list_ex (\<lambda>m. m_peerId m = localPeerId env) (sc_membership config)" using assms(9) by (auto simp: list_ex_iff)
  then have "getSession (snd (handleIncomingEvent env e s)) (ev_sessionId e) = Some (initSessionState config g)"
    using assms hash by (simp add: handleIncomingEvent_def handleSessionProposed_def detached_def op_simps getSession_def
        subscribeSession_def ensureTopicSubscription_def onEvent_def emit_def)
  then show ?thesis using assms(12) by (simp add: initSessionState_def)
qed

theorem proposed_status_trusted_witness:
  "\<exists>ss. getSession (snd (handleIncomingEvent (sample_node ''b'' St_active) (sample_event E_SessionProposed ''73'' ''a'' 0)
          (init_aka\<lparr>registry := register sample_module []\<rparr>))) ''73'' = Some ss
     \<and> sc_status (ss_config ss) = St_active \<and> ss_acceptedMembers ss = []"
proof -
  let ?env = "sample_node ''b'' St_active" and ?e = "sample_event E_SessionProposed ''73'' ''a'' 0"
  have dec: "decodeSessionConfig ?env (ev_payload ?e) = Some (sample_config St_active)"
    by (simp add: sample_node_def decodeSessionConfig_def sample_config_def)
  have hash: "sc_configHash (sample_config St_active) = computeConfigHash ?env ((sample_config St_active)\<lparr>sc_status := St_proposed\<rparr>)"
    by code_simp
  show ?thesis
    using proposed_status_trusted [OF _ _ dec _ hash, of "init_aka\<lparr>registry := register sample_module []\<rparr>"
        "sample_member ''a''" sample_module "[]"]
    by (simp add: sample_event_def sample_config_def sample_members_def sample_member_def sample_node_def find_member_def
        verifyAKASignature_def resolve_def get_reducer_def register_def registry_key_def sample_module_def
        sample_reducer_def getSession_def init_aka_def)
qed

text \<open>
  A node that does not receive its own messages never has an active session that another node
  created, unless the session was proposed as active: its own acceptance is missing when the
  activation arrives. The gossip layer is configured not to deliver a node's own messages.
\<close>

theorem never_active_without_echo:
  assumes "aka_reachable env (wire_ok env (\<lambda>p. p \<noteq> localPeerId env) not_active) s" "getSession s k = Some ss"
    and "sc_createdBy (ss_config ss) \<noteq> localPeerId env"
  shows "sc_status (ss_config ss) \<noteq> St_active"
proof -
  have "unaccepted env k ss" using own.reachable_inv [OF assms(1) TrueI] assms(2) by (simp add: focused_def)
  then show ?thesis using assms(3) by (auto simp: unaccepted_def)
qed

theorem never_active_without_echo_witness:
  "\<exists>ss. getSession (sample_invited St_proposed) ''73'' = Some ss \<and> sc_status (ss_config ss) \<noteq> St_active"
proof -
  let ?env = "sample_node ''b'' St_proposed"
  obtain ss where ss: "getSession (sample_invited St_proposed) ''73'' = Some ss" "sc_createdBy (ss_config ss) = ''a''"
    using sample_invited_session by auto
  have "aka_reachable ?env (wire_ok ?env (\<lambda>p. p \<noteq> localPeerId ?env) not_active) (sample_invited St_proposed)"
    unfolding sample_invited_def
    by (rule sample_reachable) (simp add: sample_node_def sample_config_def sample_event_def decodeSessionConfig_def not_active_def)
  moreover have "sc_createdBy (ss_config ss) \<noteq> localPeerId ?env" using ss by (simp add: sample_node_def)
  ultimately show ?thesis using never_active_without_echo ss(1) by blast
qed

text \<open>
  C34. An event is not accepted again once a copy of it has been recorded. Whatever validations overlap and whatever the
  sessions look like at each step, after an event has been accepted while no other copy of it (same session, round,
  signer and type, and for acknowledgements the same payload) was past its replay check, no copy of it is
  accepted any more, as long as the validator is not reset for the session.
\<close>

theorem aka_replay_refused:
  assumes "e' \<in> set (vc_accepted (validator_run env before new_validator))" "same_tuple env e e'"
    and "no_copy_past_replay env e (validator_run env before new_validator)"
    and "\<forall>x \<in> set (before @ after). \<not> resets env e x"
  shows "filter (same_tuple env e) (vc_accepted (validator_run env (before @ after) new_validator))
    = filter (same_tuple env e) (vc_accepted (validator_run env before new_validator))"
proof -
  have "has_seen env e (vc_validator (validator_run env before new_validator))"
    by (rule run_accepted_seen [OF _ _ assms(1,2)]) (use assms(4) in \<open>auto simp: new_validator_def\<close>)
  then show ?thesis using run_not_accepted assms(3,4) by simp
qed

definition sample_acceptance :: AKAEvent where
  "sample_acceptance = sample_event E_SessionAccepted ''73'' ''b'' 0"

text \<open>One copy is validated to its end, then two more arrive together.\<close>

definition sample_first :: "ValidatorStep list" where
  "sample_first = Begin sample_acceptance # replicate 7 (Resume 0 (sample_session sample_round))"

definition sample_copies :: "ValidatorStep list" where
  "sample_copies = [Begin sample_acceptance, Begin sample_acceptance]
     @ concat (replicate 7 [Resume 1 (sample_session sample_round), Resume 2 (sample_session sample_round)])"

theorem aka_replay_refused_witness:
  "vc_accepted (validator_run (sample_node ''a'' St_active) sample_first new_validator) = [sample_acceptance]
   \<and> filter (same_tuple (sample_node ''a'' St_active) sample_acceptance)
        (vc_accepted (validator_run (sample_node ''a'' St_active) (sample_first @ sample_copies) new_validator)) = [sample_acceptance]"
proof -
  let ?env = "sample_node ''a'' St_active"
  have one: "vc_accepted (validator_run ?env sample_first new_validator) = [sample_acceptance]"
    "no_copy_past_replay ?env sample_acceptance (validator_run ?env sample_first new_validator)"
    "list_all (\<lambda>x. \<not> resets ?env sample_acceptance x) (sample_first @ sample_copies)"
    by code_simp+
  have "same_tuple ?env sample_acceptance sample_acceptance" by (simp add: same_tuple_def)
  from aka_replay_refused [OF _ this one(2), of sample_copies] one this show ?thesis
    by (simp add: list_all_iff)
qed

text \<open>Two copies whose replay checks both run before either is recorded are both accepted.\<close>

lemma concurrent_copies_accepted:
  "vc_accepted (validator_run (sample_node ''a'' St_active)
     ([Begin sample_acceptance, Begin sample_acceptance]
      @ concat (replicate 7 [Resume 0 (sample_session sample_round), Resume 1 (sample_session sample_round)])) new_validator)
   = [sample_acceptance, sample_acceptance]"
  by code_simp

text \<open>
  When a node handles its messages one after the other, an event that has been handled is never handled again:
  however the run goes on, the same event leaves the node as it is.
\<close>

theorem aka_event_handled_once:
  assumes "aka_reachable env (\<lambda>_. True) s" "getSession s (ev_sessionId e) = Some ss"
    and "fst (validate env e ss (validator s)) = Valid"
    and "s' = aka_run env is (snd (handleIncomingEvent env e s))" "getSession s' (ev_sessionId e) = Some ss'"
  shows "snd (handleIncomingEvent env e s') = s'"
proof -
  have members: "has_members k ss" if "getSession s k = Some ss" for k ss
    using reachable_wf [OF assms(1) that] session_wf_members by (auto simp: has_members_def)
  have "has_seen env e (validator s1) \<and> (\<forall>k. getSession s1 k = getSession s k)" if "s1 = snd (validateM env e ss s)" for s1
    using assms(3) that by (simp add: validateM_def split_beta validate_records getSession_def)
  then have "seen.inv env e (snd (validateM env e ss s))" using members by (simp add: focused_def)
  moreover have "ev_signerPeerId e \<in> peers ss" using assms(3) by (rule validate_signer)
  ultimately have "seen.inv env e (snd (dispatchEvent env e (snd (validateM env e ss s))))"
    using assms(2) by (intro seen.dispatchEvent_inv [where ss = ss]) (simp_all add: seen.validateM_sessions)
  moreover have "fst (validateM env e ss s) = Inr True" using assms(3) by (simp add: validateM_def split_beta)
  ultimately have "seen.inv env e (snd (handleIncomingEvent env e s))"
    using assms(2) by (simp add: handleIncomingEvent_def op_simps)
  then have "has_seen env e (validator s')" using seen_run assms(4) by (simp add: focused_def)
  then show ?thesis using seen_ignored assms(5) by simp
qed

lemma sample_accept_valid:
  "case getSession sample_created ''73'' of None \<Rightarrow> False
   | Some ss \<Rightarrow> fst (validate (sample_node ''a'' St_proposed) (sample_event E_SessionAccepted ''73'' ''b'' 0) ss (validator sample_created)) = Valid"
  by code_simp

theorem aka_event_handled_once_witness:
  "\<exists>s'. s' = aka_run (sample_node ''a'' St_proposed) [C_activate ''73'']
        (snd (handleIncomingEvent (sample_node ''a'' St_proposed) (sample_event E_SessionAccepted ''73'' ''b'' 0) sample_created))
    \<and> getSession s' ''73'' \<noteq> None
    \<and> snd (handleIncomingEvent (sample_node ''a'' St_proposed) (sample_event E_SessionAccepted ''73'' ''b'' 0) s') = s'"
proof -
  let ?env = "sample_node ''a'' St_proposed" and ?e = "sample_event E_SessionAccepted ''73'' ''b'' 0"
  define s' where "s' = aka_run ?env [C_activate ''73''] (snd (handleIncomingEvent ?env ?e sample_created))"
  have sid: "ev_sessionId ?e = ''73''" by (simp add: sample_event_def)
  obtain ss where ss: "getSession sample_created ''73'' = Some ss" using sample_created_session by auto
  have r: "aka_reachable ?env (\<lambda>_. True) sample_created"
    unfolding sample_created_def by (rule sample_reachable) simp
  have v: "fst (validate ?env ?e ss (validator sample_created)) = Valid" using sample_accept_valid ss by simp
  have "getSession s' ''73'' \<noteq> None" unfolding s'_def by code_simp
  then obtain ss' where ss': "getSession s' ''73'' = Some ss'" by auto
  have "snd (handleIncomingEvent ?env ?e s') = s'"
    by (rule aka_event_handled_once [OF r _ v s'_def, where ss' = ss']) (simp_all add: sid ss ss')
  then show ?thesis using s'_def ss' by blast
qed

section \<open>Finality\<close>

text \<open>
  C18. A node finalizes a round on a message only with a certificate: a set of members large enough
  for the session's quorum policy, each of which has a verified signature over the acknowledgement of
  this round, of the proposal's previous state and inputs and of the certified result.
\<close>

theorem finality_needs_certificate:
  assumes "snd (handleRoundFinalized env e s) \<noteq> s"
  shows "\<exists>ss proposal fin. certified env e s ss proposal fin
     \<and> set (rf_signerPeerIds fin) \<subseteq> peers ss
     \<and> quorumReached ss (card (set (rf_signerPeerIds fin)))
     \<and> (\<forall>p \<in> set (rf_signerPeerIds fin). signed_ack env e ss proposal (rf_nextStateHash fin) p)"
  using finalized_certified [OF assms] certificate_signers by (fastforce simp: certified_def)

lemma sample_finalizes:
  assumes "p = ''a'' \<or> p = ''b''"
  shows "snd (handleRoundFinalized (sample_node p St_proposed) final_event sample_proposed) \<noteq> sample_proposed"
proof
  assume eq: "snd (handleRoundFinalized (sample_node p St_proposed) final_event sample_proposed) = sample_proposed"
  have "map_option ss_latestFinalizedRound (getSession (snd (handleRoundFinalized (sample_node ''a'' St_proposed) final_event sample_proposed)) ''73'') = Some 1"
    by code_simp
  moreover have "map_option ss_latestFinalizedRound (getSession (snd (handleRoundFinalized (sample_node ''b'' St_proposed) final_event sample_proposed)) ''73'') = Some 1"
    by code_simp
  moreover have "map_option ss_latestFinalizedRound (getSession sample_proposed ''73'') = Some 0" by code_simp
  ultimately show False using eq assms by auto
qed

theorem finality_needs_certificate_witness:
  "\<exists>ss proposal fin. certified (sample_node ''a'' St_proposed) final_event sample_proposed ss proposal fin
     \<and> set (rf_signerPeerIds fin) \<subseteq> peers ss"
  using finality_needs_certificate [OF sample_finalizes [OF disjI1 [OF refl]]] by blast

text \<open>
  C4. Agreement: when two nodes with the same members and a policy of more than one half finalize on
  certificates, neither knowing of an equivocator, some member has signed the acknowledgements of
  both results. So two different results of one round show a member that signed twice.
\<close>

theorem finality_agreement:
  assumes "snd (handleRoundFinalized env e s) \<noteq> s" "snd (handleRoundFinalized env' e' s') \<noteq> s'"
    and "getSession s (ev_sessionId e) = Some ss" "getSession s' (ev_sessionId e') = Some ss'"
    and "sc_membership (ss_config ss') = sc_membership (ss_config ss)"
    and "sc_quorumPolicy (ss_config ss') = sc_quorumPolicy (ss_config ss)"
    and "ss_equivocators ss = []" "ss_equivocators ss' = []" "ss_inactiveMembers ss = []" "ss_inactiveMembers ss' = []"
    and "distinct (map m_peerId (sc_membership (ss_config ss)))" "sc_membership (ss_config ss) \<noteq> []"
    and "qp_denominator (sc_quorumPolicy (ss_config ss)) < 2 * qp_numerator (sc_quorumPolicy (ss_config ss))"
  shows "\<exists>proposal fin proposal' fin' p. certified env e s ss proposal fin \<and> certified env' e' s' ss' proposal' fin'
     \<and> signed_ack env e ss proposal (rf_nextStateHash fin) p \<and> signed_ack env' e' ss' proposal' (rf_nextStateHash fin') p"
proof -
  obtain proposal fin where c: "certified env e s ss proposal fin"
    using finalized_certified [OF assms(1)] assms(3) by (auto simp: certified_def)
  obtain proposal' fin' where c': "certified env' e' s' ss' proposal' fin'"
    using finalized_certified [OF assms(2)] assms(4) by (auto simp: certified_def)
  have ok: "certificate_ok env e ss proposal fin" "certificate_ok env' e' ss' proposal' fin'"
    using c c' by (simp_all add: certified_def)
  have "\<exists>p. p \<in> set (rf_signerPeerIds fin) \<and> p \<in> set (rf_signerPeerIds fin')
      \<and> signed_ack env e ss proposal (rf_nextStateHash fin) p \<and> signed_ack env' e' ss' proposal' (rf_nextStateHash fin') p"
    by (rule majority.common_voter [OF certified_majority [OF c assms(7,9) refl refl assms(11-13)]
          certified_majority [OF c' assms(8,10) assms(5,6,11-13)]])
      (auto intro: certificate_signers(3) ok)
  then show ?thesis using c c' by blast
qed

theorem finality_agreement_witness:
  "\<exists>proposal h proposal' h' p.
     signed_ack (sample_node ''a'' St_proposed) final_event (sample_session (sample_round\<lparr>rs_proposal := Some sample_proposal\<rparr>)) proposal h p
     \<and> signed_ack (sample_node ''b'' St_proposed) final_event (sample_session (sample_round\<lparr>rs_proposal := Some sample_proposal\<rparr>)) proposal' h' p"
proof -
  let ?ss = "sample_session (sample_round\<lparr>rs_proposal := Some sample_proposal\<rparr>)"
  have ss: "getSession sample_proposed (ev_sessionId final_event) = Some ?ss"
    by (simp add: sample_proposed_def sample_state_def getSession_def sample_event_def)
  note agree = finality_agreement [OF sample_finalizes [OF disjI1 [OF refl]] sample_finalizes [OF disjI2 [OF refl]]
      ss ss refl refl]
  show ?thesis
    using agree [unfolded sample_session_simps]
    by (simp add: sample_members_def sample_member_def sample_policy_def) blast
qed

text \<open>
  C35. The proposal that a proposer builds is acknowledged by every node that has the same state bytes
  and resolves the same reducer: the node publishes exactly the acknowledgement that a finality
  certificate of the round is checked against.
\<close>

theorem honest_proposal_acked:
  assumes "getSession s sid = Some ss" "round_of ss r = Some rs" "rs_proposal rs = None"
    and "getSession (snd (proposeRound env sid r s)) sid = Some ss1" "round_of ss1 r = Some rs1" "rs_proposal rs1 = Some p"
    and "getSession s' sid = Some ss'" "sc_sessionId (ss_config ss') = sid"
    and "ss_latestStateBytes ss' = ss_latestStateBytes ss"
    and "resolve (registry s') (sc_reducer (ss_config ss')) = resolve (registry s) (sc_reducer (ss_config ss))"
    and "aka_sha256 env' = aka_sha256 env" "publish_ok env' (Suc (Suc (aka_ticks s')))"
  shows "\<exists>ev. published (snd (validateAndAck env' sid r p s'))
           = published s' @ [(sessionTopic (sc_contextGraphId (ss_config ss')) sid, encodeAKAEvent env' ev)]
         \<and> ev_type ev = E_RoundAck \<and> ev_round ev = r \<and> ev_sessionId ev = sid \<and> ev_signerPeerId ev = localPeerId env'
         \<and> ev_payload ev = encodeRoundAckPayload env' (expectedAck env' (ss_config ss') r p (rp_nextStateHash p))"
proof -
  obtain reducer where "resolve (registry s) (sc_reducer (ss_config ss)) = Some reducer"
    and "reducer_agrees env reducer (ss_latestStateBytes ss) p"
    using proposeRound_agrees [OF assms(1-6)] by blast
  moreover from this(2) have "reducer_agrees env' reducer (ss_latestStateBytes ss') p"
    using assms(9,11) by (simp add: reducer_agrees_def computeInputSetHash_def computeStateHash_def sha256String_def sha256Hex_def)
  ultimately show ?thesis
    using validateAndAck_acks [OF assms(7,8) _ _ assms(12)] assms(10) by simp
qed

theorem honest_proposal_acked_witness:
  "\<exists>p ev. published (snd (validateAndAck (sample_node ''a'' St_proposed) ''73'' 1 p (sample_state sample_round)))
     = [(sessionTopic ''g'' ''73'', encodeAKAEvent (sample_node ''a'' St_proposed) ev)] \<and> ev_type ev = E_RoundAck"
proof -
  let ?s = "sample_state sample_round" and ?b = "sample_node ''b'' St_proposed" and ?a = "sample_node ''a'' St_proposed"
  have "(case getSession (snd (proposeRound ?b ''73'' 1 ?s)) ''73'' of None \<Rightarrow> None
         | Some ss \<Rightarrow> Option.bind (round_of ss 1) (\<lambda>rs. map_option rp_includedMembers (rs_proposal rs))) = Some [''a'', ''b'']"
    by code_simp
  then obtain ss1 rs1 p where p: "getSession (snd (proposeRound ?b ''73'' 1 ?s)) ''73'' = Some ss1" "round_of ss1 1 = Some rs1" "rs_proposal rs1 = Some p"
    by (auto split: option.splits simp: bind_eq_Some_conv)
  have s: "getSession ?s ''73'' = Some (sample_session sample_round)" "round_of (sample_session sample_round) 1 = Some sample_round"
    "rs_proposal sample_round = None"
    by (simp_all add: sample_state_def getSession_def sample_session_def round_of_def sample_round_def new_round_def)
  show ?thesis
    using honest_proposal_acked [OF s p s(1), of ?a]
    by (auto simp: sample_session_def initSessionState_def sample_config_def sample_node_def sample_state_def init_aka_def)
qed

text \<open>
  The proposal does not depend on the order in which the inputs arrived: rounds with the same
  inputs give the same list of members, in strictly ascending order, and the same list of inputs.
\<close>

theorem proposal_order_independent:
  assumes "map_of (rs_inputs rs) = map_of (rs_inputs rs')"
    and "distinct (map fst (rs_inputs rs))" "distinct (map fst (rs_inputs rs'))"
  shows "sortedMembers rs = sortedMembers rs' \<and> sortedInputs rs = sortedInputs rs'
     \<and> sorted_wrt (<) (sortedMembers rs) \<and> set (sortedMembers rs) = dom (map_of (rs_inputs rs))"
proof -
  have "sorted (sortedMembers rs)" "distinct (sortedMembers rs)"
    using assms(2) by (simp_all add: sortedMembers_def)
  moreover have "set (sortedMembers rs) = dom (map_of (rs_inputs rs))"
    by (simp add: sortedMembers_def dom_map_of_conv_image_fst)
  ultimately show ?thesis
    using sortedMembers_order [OF assms] sortedInputs_order [OF assms] by (simp add: strict_sorted_iff)
qed

theorem proposal_order_independent_witness:
  "sortedInputs sample_round = sortedInputs (sample_round\<lparr>rs_inputs := rev (rs_inputs sample_round)\<rparr>)"
proof -
  have "map_of (rs_inputs sample_round) = map_of (rs_inputs (sample_round\<lparr>rs_inputs := rev (rs_inputs sample_round)\<rparr>))"
    by (auto simp: sample_round_def)
  from proposal_order_independent [OF this] show ?thesis by (simp add: sample_round_def)
qed

text \<open>
  C25. A session without progress ends: when the timer of an open current round is armed and messages
  can be published, each timeout rearms the timer of the round it leaves current, and after as many
  timeouts as proposers are left in three rounds the session is aborted, and not before.
\<close>

theorem timeouts_abort:
  assumes "waiting sid s n" "\<And>t. publish_ok env t"
  shows "(\<exists>ss. getSession ((fireCurrent env sid ^^ n) s) sid = Some ss \<and> sc_status (ss_config ss) = St_aborted)
     \<and> (\<forall>i < n. waiting sid ((fireCurrent env sid ^^ i) s) (n - i))"
  using assms(1)
proof (induction n arbitrary: s)
  case 0
  then show ?case using fireCurrent_step [OF 0 assms(2)] by (simp split: if_splits)
next
  case (Suc n)
  let ?f = "fireCurrent env sid"
  have pow: "(?f ^^ Suc i) s = (?f ^^ i) (?f s)" for i by (simp add: funpow_swap1)
  show ?case
  proof (cases "n = 0")
    case True
    then show ?thesis using fireCurrent_step [OF Suc.prems assms(2)] Suc.prems by simp
  next
    case False
    then have "waiting sid (?f s) n" using fireCurrent_step [OF Suc.prems assms(2)] by simp
    note rest = Suc.IH [OF this]
    have "waiting sid ((?f ^^ i) s) (Suc n - i)" if "i < Suc n" for i
      using that rest Suc.prems pow by (cases i) auto
    then show ?thesis using rest pow by auto
  qed
qed

lemma sample_waiting: "waiting ''73'' (sample_state sample_round) 6"
  unfolding waiting_def
  by (intro exI [of _ "sample_session sample_round"] exI [of _ sample_round])
    (simp add: sample_state_def getSession_def sample_session_def initSessionState_def sample_config_def round_of_def
      sample_round_def new_round_def sample_members_def MAX_CONSECUTIVE_SKIPS_def armed_def)

theorem timeouts_abort_witness:
  "\<exists>ss. getSession ((fireCurrent (sample_node ''a'' St_proposed) ''73'' ^^ 6) (sample_state sample_round)) ''73'' = Some ss
     \<and> sc_status (ss_config ss) = St_aborted"
  using timeouts_abort [OF sample_waiting, of "sample_node ''a'' St_proposed"] by (simp add: sample_node_def)

section \<open>Signatures and quorums\<close>

text \<open>
  What is signed determines everything the signature is meant to bind: the domain, the network,
  the context graph, the session, the round, the type of the event and the payload. No two different
  contexts or payloads have the same bytes.
\<close>

theorem signing_payload_binds:
  "buildSigningPayload c p = buildSigningPayload c' p' \<longleftrightarrow>
     ctx_domain c = ctx_domain c' \<and> ctx_network c = ctx_network c' \<and> ctx_contextGraphId c = ctx_contextGraphId c'
     \<and> ctx_sessionId c = ctx_sessionId c' \<and> ctx_round c = ctx_round c'
     \<and> type_text (ctx_type c) = type_text (ctx_type c') \<and> p = p'"
  by (rule buildSigningPayload_inj)

text \<open>
  The canonical encoding writes two values alike exactly when they are the same up to the order
  of object keys and entries that are undefined.
\<close>

theorem canonical_json_exact: "canonicalJsonEncode v = canonicalJsonEncode w \<longleftrightarrow> canon v = canon w"
  by (rule canonicalJsonEncode_eq_iff)

text \<open>
  C40. The quorum is met as the policy documents it: by at least the policy's fraction of the active
  members, and at least the minimum of signers; with a zero denominator and a non-negative number of
  active members it is never met.
\<close>

theorem quorum_policy_exact:
  "isQuorumMet policy (int n) acks \<longleftrightarrow>
     qp_denominator policy \<noteq> 0 \<and> n * qp_numerator policy \<le> acks * qp_denominator policy \<and> qp_minSigners policy \<le> acks"
  by (auto simp: isQuorumMet_iff mult_less_0_iff simp flip: of_nat_mult)

section \<open>Acknowledgements before the proposal\<close>

text \<open>
  An acknowledgement that arrives while the round has no proposal is stored whatever it
  acknowledges, and a proposal that arrives later leaves it in place: it counts towards the quorum.
\<close>

lemma early_ack_stored:
  assumes "getSession s (ev_sessionId e) = Some ss" "round_of ss (ev_round e) = Some rs"
    and "rs_proposal rs = None" "map_of (rs_acks rs) (ev_signerPeerId e) = None"
    and "decodeRoundAckPayload env (ev_payload e) = Some ack"
  shows "\<exists>ss' rs'. getSession (snd (handleRoundAck env e s)) (ev_sessionId e) = Some ss'
     \<and> round_of ss' (ev_round e) = Some rs' \<and> map_of (rs_acks rs') (ev_signerPeerId e) = Some ack"
  using assms
  by (auto simp: handleRoundAck_def withSession_def op_simps Let_def decoded_def modRound_def modSession_def getSession_def
      emit_def detached_def checkQuorumAndFinalize_def round_of_def split: option.splits sum.splits)

end
