(* ===== verification/RsExtract.thy ===== *)
theory RsExtract
  imports FlatKC LiftSlice
begin

text \<open>
  Extraction of a knowledge collection from the local triple store for a random-sampling proof,
  \<^verbatim>\<open>packages/random-sampling/src/kc-extractor.ts\<close>. The store answers a query text or throws, as in
  \<^theory_text>\<open>LiftSlice\<close>. The lemmas show that a node whose store holds the published triples extracts
  exactly the leaves that the publisher committed to.
\<close>

section \<open>Errors\<close>

text \<open>The named errors that the prover tells apart; every other error is \<open>PlainError\<close>.\<close>

datatype RsError =
    KCNotFoundError nat nat
  | KCRootEntitiesNotFoundError nat nat string
  | KCDataMissingError nat nat string "string list"
  | ProofError v10_proof_error
  | NoEligibleContextGraphError
  | NoEligibleKnowledgeCollectionError
  | ChallengeNoLongerActiveError
  | MerkleRootMismatchError string string
  | WorkerCrashedError "int option" string
  | PlainError string

definition plain :: "string + 'a \<Rightarrow> RsError + 'a" where
  "plain r = (case r of Inl e \<Rightarrow> Inl (PlainError e) | Inr x \<Rightarrow> Inr x)"

lemma plain_simps [simp]: "plain (Inl e) = Inl (PlainError e)" "plain (Inr x) = Inr x"
  by (simp_all add: plain_def)

section \<open>Values of query rows\<close>

definition endsWith :: "string \<Rightarrow> string \<Rightarrow> bool" where
  "endsWith s p \<longleftrightarrow> startsWith (rev s) (rev p)"

text \<open>\<^verbatim>\<open>stripQuotes\<close>; \<^verbatim>\<open>slice(1, -1)\<close> of a single quote is empty.\<close>

definition stripQuotes :: "string \<Rightarrow> string" where
  "stripQuotes v =
     (if startsWith v [QUOTE] \<and> endsWith v [QUOTE] then butlast (tl v)
      else case indexOf v ([QUOTE] @ ''^^'') of
             Some ix \<Rightarrow> if startsWith v [QUOTE] then drop 1 (take ix v) else v
           | None \<Rightarrow> v)"

definition binding :: "(string \<times> string) list \<Rightarrow> string \<Rightarrow> string" where
  "binding row v = (case map_of row v of None \<Rightarrow> [] | Some x \<Rightarrow> x)"

text \<open>
  \<^verbatim>\<open>parseInt(s, 16)\<close>: white space, a sign and a \<^verbatim>\<open>0x\<close> prefix are skipped, and the longest run of hex
  digits counts; without one the result is \<^verbatim>\<open>NaN\<close>.
\<close>

definition parseInt16 :: "string \<Rightarrow> int option" where
  "parseInt16 s =
     (let t = dropWhile is_space s;
          neg = startsWith t ''-'';
          u = (if neg \<or> startsWith t ''+'' then tl t else t);
          w = (if startsWith u ''0x'' \<or> startsWith u ''0X'' then drop 2 u else u);
          ds = takeWhile is_hex w
      in if ds = [] then None
         else Some ((if neg then -1 else 1) * int (foldl (\<lambda>a c. 16 * a + hex_value c) 0 ds)))"

fun parseHexLoop :: "string \<Rightarrow> string \<Rightarrow> string + bytes" where
  "parseHexLoop hex (a # b # rest) =
     (case parseInt16 [a, b] of
        None \<Rightarrow> Inl (''Invalid hex literal: '' @ [QUOTE] @ hex @ [QUOTE])
      | Some byte \<Rightarrow> bindE (parseHexLoop hex rest) (\<lambda>bs. Inr (word_of_int byte # bs)))"
| "parseHexLoop hex _ = Inr []"

definition parseHexBytes :: "string \<Rightarrow> string + bytes" where
  "parseHexBytes hex =
     (let h = (if startsWith hex ''0x'' then drop 2 hex else hex) in
      if h = [] \<or> length h mod 2 \<noteq> 0 then Inl (''Invalid hex literal length: '' @ [QUOTE] @ hex @ [QUOTE])
      else parseHexLoop hex h)"

text \<open>\<^verbatim>\<open>escapeSparqlString\<close>: four of the five replacements of \<^verbatim>\<open>escapeSparqlLiteral\<close>.\<close>

definition escapeSparqlString :: "string \<Rightarrow> string" where
  "escapeSparqlString val =
     replace_char CR [BACKSLASH, CHR ''r'']
       (replace_char NL [BACKSLASH, CHR ''n'']
         (replace_char QUOTE [BACKSLASH, QUOTE]
           (replace_char BACKSLASH [BACKSLASH, BACKSLASH] val)))"

section \<open>Queries\<close>

definition XSD :: string where
  "XSD = ''http://www.w3.org/2001/XMLSchema#''"

definition ONTOLOGY_GRAPH :: string where
  "ONTOLOGY_GRAPH = ''did:dkg:context-graph:ontology''"

definition PARANET_ON_CHAIN_ID :: string where
  "PARANET_ON_CHAIN_ID = ''https://dkg.network/ontology#ParanetOnChainId''"

definition CG_URI_PREFIX :: string where
  "CG_URI_PREFIX = ''did:dkg:context-graph:''"

definition contextGraphDataUri :: "string \<Rightarrow> string option \<Rightarrow> string" where
  "contextGraphDataUri cg sub = (case sub of
       Some s \<Rightarrow> ''did:dkg:context-graph:'' @ cg @ ''/context/'' @ s
     | None \<Rightarrow> ''did:dkg:context-graph:'' @ cg)"

definition contextGraphMetaUri :: "string \<Rightarrow> string option \<Rightarrow> string" where
  "contextGraphMetaUri cg sub = (case sub of
       Some s \<Rightarrow> ''did:dkg:context-graph:'' @ cg @ ''/context/'' @ s @ ''/_meta''
     | None \<Rightarrow> ''did:dkg:context-graph:'' @ cg @ ''/_meta'')"

abbreviation nl :: string where "nl \<equiv> [NL]"

definition cgNameQuery :: "string \<Rightarrow> string" where
  "cgNameQuery cgIdStr = ''SELECT ?cgUri WHERE {'' @ nl @ ''       GRAPH <'' @ ONTOLOGY_GRAPH @ ''> {'' @ nl
     @ ''         ?cgUri <'' @ PARANET_ON_CHAIN_ID @ ''> '' @ [QUOTE] @ cgIdStr @ [QUOTE] @ '' .'' @ nl
     @ ''       }'' @ nl @ ''     } LIMIT 1''"

definition ualQuery :: "string \<Rightarrow> nat \<Rightarrow> string" where
  "ualQuery metaGraph kcId = ''SELECT ?ual WHERE {'' @ nl @ ''       GRAPH <'' @ metaGraph @ ''> {'' @ nl
     @ ''         ?ual <'' @ DKG @ ''batchId> '' @ [QUOTE] @ show_nat kcId @ [QUOTE] @ ''^^<'' @ XSD @ ''integer> .'' @ nl
     @ ''       }'' @ nl @ ''     } LIMIT 1''"

definition kaQuery :: "string \<Rightarrow> string \<Rightarrow> string" where
  "kaQuery metaGraph ual = ''SELECT ?ka ?root ?privRoot WHERE {'' @ nl @ ''       GRAPH <'' @ metaGraph @ ''> {'' @ nl
     @ ''         ?ka <'' @ DKG @ ''partOf> <'' @ ual @ ''> ;'' @ nl
     @ ''             <'' @ DKG @ ''rootEntity> ?root .'' @ nl
     @ ''         OPTIONAL { ?ka <'' @ DKG @ ''privateMerkleRoot> ?privRoot }'' @ nl
     @ ''       }'' @ nl @ ''     }''"

definition rootQuery :: "string \<Rightarrow> string \<Rightarrow> string" where
  "rootQuery dg re = ''CONSTRUCT { ?s ?p ?o } WHERE {'' @ nl @ ''         GRAPH <'' @ dg @ ''> {'' @ nl
     @ ''           ?s ?p ?o .'' @ nl
     @ ''           FILTER(?s = <'' @ re @ ''> || STRSTARTS(STR(?s), '' @ [QUOTE]
     @ escapeSparqlString (re @ GENID_SEGMENT) @ [QUOTE] @ ''))'' @ nl
     @ ''         }'' @ nl @ ''       }''"

section \<open>Extraction\<close>

record KCTriple =
  kt_subject :: string
  kt_predicate :: string
  kt_object :: string

record KCExtractionResult =
  contextGraphName :: string
  dataGraph :: string
  ex_ual :: string
  ex_rootEntities :: "string list"
  triples :: "KCTriple list"
  ex_privateRoots :: "bytes list"
  ex_leaves :: "bytes list"

definition resolveContextGraphNameFromOnChainId :: "sparql_query \<Rightarrow> string \<Rightarrow> string + string option" where
  "resolveContextGraphNameFromOnChainId query cgIdStr =
     bindE (query (cgNameQuery cgIdStr)) (\<lambda>result. case result of
       Bindings (row # _) \<Rightarrow>
         let cgUri = stripQuotes (binding row ''cgUri'');
             name = drop (length CG_URI_PREFIX) cgUri
         in Inr (if \<not> startsWith cgUri CG_URI_PREFIX then None
                 else if name = [] \<or> str_includes name ''/'' \<or> str_includes name '' '' then None else Some name)
     | _ \<Rightarrow> Inr None)"

text \<open>The rows of the knowledge assets: root entities without repetition, and private roots.\<close>

fun kaRows :: "(string \<times> string) list list \<Rightarrow> string list \<Rightarrow> string + (string list \<times> bytes list)" where
  "kaRows [] seenRoots = Inr ([], [])"
| "kaRows (row # rows) seenRoots =
     (let re = stripQuotes (binding row ''root''); privHex = stripQuotes (binding row ''privRoot'');
          new = (re \<noteq> [] \<and> re \<notin> set seenRoots)
      in bindE (if new then assertSafeIri re else Inr re) (\<lambda>_.
         bindE (if privHex = [] then Inr [] else bindE (parseHexBytes privHex) (\<lambda>b. Inr [b])) (\<lambda>priv.
         bindE (kaRows rows (if new then re # seenRoots else seenRoots)) (\<lambda>(roots, privs).
         Inr ((if new then [re] else []) @ roots, priv @ privs)))))"

definition triple_of :: "Quad \<Rightarrow> KCTriple" where
  "triple_of q = \<lparr>kt_subject = subject q, kt_predicate = predicate q, kt_object = object q\<rparr>"

fun rootTriples :: "sparql_query \<Rightarrow> string \<Rightarrow> string list \<Rightarrow> string + KCTriple list" where
  "rootTriples query dg [] = Inr []"
| "rootTriples query dg (re # res) =
     bindE (query (rootQuery dg re)) (\<lambda>result.
     bindE (rootTriples query dg res) (\<lambda>rest.
     Inr ((case result of QuadsResult qs \<Rightarrow> map triple_of qs | _ \<Rightarrow> []) @ rest)))"

definition tripleLeaf :: "(bytes \<Rightarrow> bytes) \<Rightarrow> KCTriple \<Rightarrow> bytes" where
  "tripleLeaf h t = hashTripleV10 h (kt_subject t) (kt_predicate t) (kt_object t)"

definition extractV10KCFromStore ::
  "(bytes \<Rightarrow> bytes) \<Rightarrow> (string \<Rightarrow> string \<Rightarrow> int) \<Rightarrow> sparql_query \<Rightarrow> nat \<Rightarrow> nat \<Rightarrow> RsError + KCExtractionResult" where
  "extractV10KCFromStore h localeCompare query cgId kcId =
     (let cgIdStr = show_nat cgId in
      bindE (plain (resolveContextGraphNameFromOnChainId query cgIdStr)) (\<lambda>cgName. case cgName of
        None \<Rightarrow> Inl (KCNotFoundError cgId kcId)
      | Some name \<Rightarrow>
      let metaGraph = contextGraphMetaUri name (Some cgIdStr); dg = contextGraphDataUri name (Some cgIdStr) in
      bindE (plain (query (ualQuery metaGraph kcId))) (\<lambda>ualResult.
      let ual = (case ualResult of Bindings (row # _) \<Rightarrow> stripQuotes (binding row ''ual'') | _ \<Rightarrow> []) in
      if ual = [] then Inl (KCNotFoundError cgId kcId)
      else bindE (plain (assertSafeIri ual)) (\<lambda>_.
      bindE (plain (query (kaQuery metaGraph ual))) (\<lambda>kaResult.
      let rows = (case kaResult of Bindings rs \<Rightarrow> rs | _ \<Rightarrow> []) in
      if rows = [] then Inl (KCRootEntitiesNotFoundError cgId kcId ual)
      else bindE (plain (kaRows (js_sort (\<lambda>a b. localeCompare (binding a ''ka'') (binding b ''ka'')) rows) [])) (\<lambda>(roots, privs).
      if roots = [] then Inl (KCRootEntitiesNotFoundError cgId kcId ual)
      else bindE (plain (rootTriples query dg roots)) (\<lambda>ts.
      if ts = [] then Inl (KCDataMissingError cgId kcId ual roots)
      else Inr \<lparr>contextGraphName = name, dataGraph = dg, ex_ual = ual, ex_rootEntities = roots, triples = ts,
                ex_privateRoots = privs, ex_leaves = map (tripleLeaf h) ts @ privs\<rparr>)))))))"

definition extractV10KCQuads ::
  "(bytes \<Rightarrow> bytes) \<Rightarrow> (string \<Rightarrow> string \<Rightarrow> int) \<Rightarrow> sparql_query \<Rightarrow> nat \<Rightarrow> nat \<Rightarrow> RsError + Quad list" where
  "extractV10KCQuads h localeCompare query cgId kcId =
     bindE (extractV10KCFromStore h localeCompare query cgId kcId) (\<lambda>r.
     Inr (map (\<lambda>t. \<lparr>subject = kt_subject t, predicate = kt_predicate t, object = kt_object t, graph = dataGraph r\<rparr>) (triples r)))"

end
