(* ===== verification/JsonText.thy ===== *)
theory JsonText
  imports SparqlSafe
begin

text \<open>
  \<^verbatim>\<open>JSON.parse\<close> and \<^verbatim>\<open>JSON.stringify\<close>, as the write-ahead log of the random-sampling prover uses them.
  A number is kept as its numeral. The parser takes fuel; \<open>jval_fuel\<close> shows that the length of
  the text is enough, and \<open>jval_append\<close> that a value which ends before the end of the text does not
  depend on what follows. As in \<^theory_text>\<open>SparqlSafe\<close>, an escape that names a code point from 256 up is refused.
\<close>

section \<open>Values and their text\<close>

datatype JValue =
    JVnull | JVbool bool | JVnum string | JVstr string | JVarr "JValue list" | JVobj "(string \<times> JValue) list"

fun stringify :: "JValue \<Rightarrow> string" where
  "stringify JVnull = ''null''"
| "stringify (JVbool b) = (if b then ''true'' else ''false'')"
| "stringify (JVnum n) = n"
| "stringify (JVstr s) = json_string s"
| "stringify (JVarr vs) = ''['' @ join_with '','' (map stringify vs) @ '']''"
| "stringify (JVobj kvs) = ''{'' @ join_with '','' (map (\<lambda>(k, v). json_string k @ '':'' @ stringify v) kvs) @ ''}''"

section \<open>Parsing\<close>

definition json_space :: "char \<Rightarrow> bool" where
  "json_space c \<longleftrightarrow> c \<in> {CHR '' '', TAB, NL, CR}"

abbreviation skip_ws :: "string \<Rightarrow> string" where
  "skip_ws \<equiv> dropWhile json_space"

text \<open>The rest of a string after its opening quote: the characters, and what follows the closing quote.\<close>

definition json_escape :: "char \<Rightarrow> char option" where
  "json_escape e =
     (if e \<in> {QUOTE, BACKSLASH, CHR ''/''} then Some e
      else map_of [(CHR ''b'', CHR 0x08), (CHR ''t'', TAB), (CHR ''n'', NL), (CHR ''f'', CHR 0x0C), (CHR ''r'', CR)] e)"

definition json_chr :: "string \<Rightarrow> (char \<times> string) option" where
  "json_chr s = (case s of
       [] \<Rightarrow> None
     | c # cs \<Rightarrow>
         if c = BACKSLASH
         then (case cs of
                 [] \<Rightarrow> None
               | e # rest \<Rightarrow>
                   (case json_escape e of
                      Some d \<Rightarrow> Some (d, rest)
                    | None \<Rightarrow>
                        if e = CHR ''u'' \<and> length rest \<ge> 4 \<and> list_all is_hex (take 4 rest) \<and> take 2 rest = ''00''
                        then Some (char_of (16 * hex_value (rest ! 2) + hex_value (rest ! 3)), drop 4 rest)
                        else None))
         else if (of_char c :: nat) < 32 then None
         else Some (c, cs))"

lemma json_chr_length: "json_chr s = Some (d, r) \<Longrightarrow> length r < length s"
  by (auto simp: json_chr_def split: list.splits option.splits if_splits)

function json_str :: "string \<Rightarrow> (string \<times> string) option" where
  "json_str s =
     (if startsWith s [QUOTE] then Some ([], tl s)
      else case json_chr s of
             None \<Rightarrow> None
           | Some (d, rest) \<Rightarrow> map_option (apfst ((#) d)) (json_str rest))"
  by pat_completeness auto
termination by (relation "measure length") (auto dest: json_chr_length)

declare json_str.simps [simp del]

text \<open>A numeral: sign, integer part without leading zeros, fraction, exponent.\<close>

definition digits1 :: "string \<Rightarrow> (string \<times> string) option" where
  "digits1 s = (let ds = takeWhile is_digit s in if ds = [] then None else Some (ds, drop (length ds) s))"

definition num_int :: "string \<Rightarrow> (string \<times> string) option" where
  "num_int s = (case s of c # cs \<Rightarrow> if c = CHR ''0'' then Some ([c], cs) else digits1 s | [] \<Rightarrow> None)"

definition num_frac :: "string \<Rightarrow> (string \<times> string) option" where
  "num_frac s = (case s of
       c # cs \<Rightarrow> if c = CHR ''.'' then map_option (apfst ((#) c)) (digits1 cs) else Some ([], s)
     | [] \<Rightarrow> Some ([], []))"

definition num_exp :: "string \<Rightarrow> (string \<times> string) option" where
  "num_exp s = (case s of
       c # cs \<Rightarrow>
         if c \<in> set ''eE''
         then (case cs of
                 d # ds \<Rightarrow> if d \<in> set ''+-'' then map_option (apfst (\<lambda>x. c # d # x)) (digits1 ds)
                          else map_option (apfst ((#) c)) (digits1 cs)
               | [] \<Rightarrow> None)
         else Some ([], s)
     | [] \<Rightarrow> Some ([], []))"

definition json_num :: "string \<Rightarrow> (string \<times> string) option" where
  "json_num s =
     (let sg = (if startsWith s ''-'' then ''-'' else []); s0 = drop (length sg) s in
      case num_int s0 of None \<Rightarrow> None | Some (i, s1) \<Rightarrow>
      (case num_frac s1 of None \<Rightarrow> None | Some (f, s2) \<Rightarrow>
      (case num_exp s2 of None \<Rightarrow> None | Some (e, s3) \<Rightarrow> Some (sg @ i @ f @ e, s3))))"

fun jval :: "nat \<Rightarrow> string \<Rightarrow> (JValue \<times> string) option"
and jelems :: "nat \<Rightarrow> string \<Rightarrow> (JValue list \<times> string) option"
and jmembers :: "nat \<Rightarrow> string \<Rightarrow> ((string \<times> JValue) list \<times> string) option" where
  "jval 0 s = None"
| "jval (Suc n) s =
     (case skip_ws s of
        [] \<Rightarrow> None
      | c # cs \<Rightarrow>
          if c = QUOTE then map_option (apfst JVstr) (json_str cs)
          else if c = CHR ''{''
          then (case skip_ws cs of
                  [] \<Rightarrow> None
                | d # ds \<Rightarrow> if d = CHR ''}'' then Some (JVobj [], ds) else map_option (apfst JVobj) (jmembers n (d # ds)))
          else if c = CHR ''[''
          then (case skip_ws cs of
                  [] \<Rightarrow> None
                | d # ds \<Rightarrow> if d = CHR '']'' then Some (JVarr [], ds) else map_option (apfst JVarr) (jelems n (d # ds)))
          else if startsWith (c # cs) ''null'' then Some (JVnull, drop 3 cs)
          else if startsWith (c # cs) ''true'' then Some (JVbool True, drop 3 cs)
          else if startsWith (c # cs) ''false'' then Some (JVbool False, drop 4 cs)
          else map_option (apfst JVnum) (json_num (c # cs)))"
| "jelems 0 s = None"
| "jelems (Suc n) s =
     (case jval n s of
        None \<Rightarrow> None
      | Some (v, r) \<Rightarrow>
          (case skip_ws r of
             [] \<Rightarrow> None
           | d # ds \<Rightarrow> if d = CHR '','' then map_option (apfst ((#) v)) (jelems n ds)
                      else if d = CHR '']'' then Some ([v], ds) else None))"
| "jmembers 0 s = None"
| "jmembers (Suc n) s =
     (case skip_ws s of
        [] \<Rightarrow> None
      | c # cs \<Rightarrow>
          if c \<noteq> QUOTE then None
          else (case json_str cs of
                  None \<Rightarrow> None
                | Some (k, r1) \<Rightarrow>
                    (case skip_ws r1 of
                       [] \<Rightarrow> None
                     | d # r2 \<Rightarrow>
                         if d \<noteq> CHR '':'' then None
                         else (case jval n r2 of
                                 None \<Rightarrow> None
                               | Some (v, r3) \<Rightarrow>
                                   (case skip_ws r3 of
                                      [] \<Rightarrow> None
                                    | f # r4 \<Rightarrow> if f = CHR '','' then map_option (apfst ((#) (k, v))) (jmembers n r4)
                                               else if f = CHR ''}'' then Some ([(k, v)], r4) else None)))))"

definition JSON_parse :: "string \<Rightarrow> JValue option" where
  "JSON_parse s = (case jval (2 * length s + 1) s of
       Some (v, r) \<Rightarrow> if skip_ws r = [] then Some v else None
     | None \<Rightarrow> None)"

text \<open>\<^verbatim>\<open>v.key\<close> reads the last member of that name; \<^verbatim>\<open>null.key\<close> throws.\<close>

fun jget :: "JValue \<Rightarrow> string \<Rightarrow> string + JValue option" where
  "jget JVnull k = Inl (''Cannot read properties of null (reading '' @ [CHR 0x27] @ k @ [CHR 0x27] @ '')'')"
| "jget (JVobj kvs) k = Inr (map_of (rev kvs) k)"
| "jget _ k = Inr None"

section \<open>Consumption and fuel\<close>

lemma skip_ws_append: "skip_ws s \<noteq> [] \<Longrightarrow> skip_ws (s @ t) = skip_ws s @ t"
  by (induction s) auto

lemma skip_ws_Cons_length: "skip_ws s = c # cs \<Longrightarrow> length cs < length s"
  by (metis Suc_le_lessD length_Cons length_dropWhile_le)

lemma skip_ws_Cons_append: "skip_ws s = c # cs \<Longrightarrow> skip_ws (s @ t) = c # cs @ t"
  by (simp add: skip_ws_append)

lemma json_chr_append: "json_chr s = Some (d, r) \<Longrightarrow> json_chr (s @ t) = Some (d, r @ t)"
  by (auto simp: json_chr_def nth_append split: list.splits option.splits if_splits)

lemma startsWith_single [simp]: "startsWith s [c] \<longleftrightarrow> (\<exists>cs. s = c # cs)"
  by (cases s) (auto simp: startsWith_def)

lemma json_str_Some_iff:
  "json_str s = Some (x, r) \<longleftrightarrow>
     s = QUOTE # r \<and> x = []
     \<or> (\<exists>d rest y. hd s \<noteq> QUOTE \<and> json_chr s = Some (d, rest) \<and> json_str rest = Some (y, r) \<and> x = d # y)"
  by (subst json_str.simps) (cases s; auto simp: json_chr_def split: option.splits)

lemma json_str_Nil_iff: "json_str s = Some ([], r) \<longleftrightarrow> s = QUOTE # r"
  by (subst json_str_Some_iff) simp

lemma json_str_Cons_iff:
  "json_str s = Some (d # y, r) \<longleftrightarrow>
     (\<exists>rest. hd s \<noteq> QUOTE \<and> json_chr s = Some (d, rest) \<and> json_str rest = Some (y, r))"
  by (subst json_str_Some_iff) simp

lemma json_str_length: "json_str s = Some (x, r) \<Longrightarrow> length r < length s"
proof (induction x arbitrary: s r)
  case (Cons d y)
  then show ?case by (auto simp: json_str_Cons_iff dest!: json_chr_length Cons.IH)
qed (simp add: json_str_Nil_iff)

lemma json_str_append: "json_str s = Some (x, r) \<Longrightarrow> json_str (s @ t) = Some (x, r @ t)"
proof (induction x arbitrary: s r)
  case (Cons d y)
  then obtain rest where d: "hd s \<noteq> QUOTE" "json_chr s = Some (d, rest)" "json_str rest = Some (y, r)"
    by (auto simp: json_str_Cons_iff)
  then have "hd (s @ t) \<noteq> QUOTE" by (cases s) (auto simp: json_chr_def)
  with d Cons.IH json_chr_append show ?case by (auto simp: json_str_Cons_iff)
qed (simp add: json_str_Nil_iff)

lemma json_str_chars: "json_str (concat (map json_char s) @ QUOTE # r) = Some (s, r)"
proof (induction s)
  case (Cons c s)
  have "json_chr (json_char c @ rest) = Some (c, rest) \<and> hd (json_char c @ rest) \<noteq> QUOTE" for rest
  proof (cases "c \<in> {QUOTE, BACKSLASH, CHR 0x08, TAB, NL, CHR 0x0C, CR} \<or> \<not> (of_char c :: nat) < 32")
    case True
    then show ?thesis by (auto simp: json_char_def json_chr_def json_escape_def)
  next
    case False
    then have "json_char c = [BACKSLASH, CHR ''u'', CHR ''0'', CHR ''0'', hex_digit (of_char c div 16),
        hex_digit (of_char c mod 16)]"
      by (simp add: json_char_def)
    then show ?thesis using False hex_digit_hex of_char_control
      by (simp add: json_chr_def json_escape_def is_hex_def is_digit_def nth_Cons')
  qed
  with Cons.IH show ?case by (simp add: json_str_Cons_iff)
qed (simp add: json_str_Nil_iff)

text \<open>Text without what follows: each part of a numeral extends only into more digits.\<close>

lemma digits1_alt: "digits1 s = (if takeWhile is_digit s = [] then None else Some (takeWhile is_digit s, dropWhile is_digit s))"
  by (simp add: digits1_def Let_def dropWhile_eq_drop)

lemma digits1_append: "digits1 s = Some (x, r) \<Longrightarrow> r \<noteq> [] \<Longrightarrow> digits1 (s @ t) = Some (x, r @ t)"
  by (auto simp: digits1_alt takeWhile_append dropWhile_append split: if_splits)

lemma digits1_length: "digits1 s = Some (x, r) \<Longrightarrow> length r < length s"
  by (cases s) (auto simp: digits1_alt less_Suc_eq_le length_dropWhile_le split: if_splits)

lemma num_int_length: "num_int s = Some (x, r) \<Longrightarrow> length r < length s"
  by (auto simp: num_int_def dest: digits1_length split: list.splits if_splits)

lemma num_frac_length: "num_frac s = Some (x, r) \<Longrightarrow> length r \<le> length s"
  by (auto simp: num_frac_def dest: digits1_length split: list.splits if_splits)

lemma num_exp_length: "num_exp s = Some (x, r) \<Longrightarrow> length r \<le> length s"
  by (auto simp: num_exp_def dest: digits1_length split: list.splits if_splits)

lemma num_int_append: "num_int s = Some (x, r) \<Longrightarrow> r \<noteq> [] \<Longrightarrow> num_int (s @ t) = Some (x, r @ t)"
  using digits1_append [of s x r t] by (auto simp: num_int_def split: list.splits if_splits)

lemma num_frac_append: "num_frac s = Some (x, r) \<Longrightarrow> r \<noteq> [] \<Longrightarrow> num_frac (s @ t) = Some (x, r @ t)"
  by (auto simp: num_frac_def dest: digits1_append split: list.splits if_splits)

lemma num_exp_append: "num_exp s = Some (x, r) \<Longrightarrow> r \<noteq> [] \<Longrightarrow> num_exp (s @ t) = Some (x, r @ t)"
  using digits1_append [of "tl s" _ r t]
  by (auto simp: num_exp_def dest: digits1_append split: list.splits if_splits)

lemma json_num_length: "json_num s = Some (x, r) \<Longrightarrow> length r < length s"
  by (auto simp: json_num_def Let_def split: option.splits if_splits
      dest!: num_int_length num_frac_length num_exp_length)

lemma json_num_append:
  assumes "json_num s = Some (x, r)" "r \<noteq> []"
  shows "json_num (s @ t) = Some (x, r @ t)"
proof -
  define sg where "sg = (if startsWith s ''-'' then ''-'' else [])"
  obtain i s1 f s2 e where p: "num_int (drop (length sg) s) = Some (i, s1)" "num_frac s1 = Some (f, s2)"
    "num_exp s2 = Some (e, r)" "x = sg @ i @ f @ e"
    using assms(1) by (auto simp: json_num_def Let_def sg_def split: option.splits)
  have s2: "s2 \<noteq> []" using num_exp_length [OF p(3)] assms(2) by auto
  then have s1: "s1 \<noteq> []" using num_frac_length [OF p(2)] by auto
  have "s \<noteq> []" using num_int_length [OF p(1)] by auto
  then have sg': "sg = (if startsWith (s @ t) ''-'' then ''-'' else [])"
    "drop (length sg) (s @ t) = drop (length sg) s @ t"
    by (cases s; auto simp: sg_def)+
  show ?thesis
    using num_int_append [OF p(1) s1] num_frac_append [OF p(2) s2] num_exp_append [OF p(3) assms(2)] p(4)
    unfolding json_num_def Let_def sg'(1) [symmetric] by (simp add: sg'(2) del: drop_append)
qed

lemma skip_ws_length: "length (skip_ws s) \<le> length s"
  by (rule length_dropWhile_le)

lemma jval_length_all:
  "(\<forall>s v r. jval n s = Some (v, r) \<longrightarrow> length r < length s)
   \<and> (\<forall>s vs r. jelems n s = Some (vs, r) \<longrightarrow> length r < length s)
   \<and> (\<forall>s kvs r. jmembers n s = Some (kvs, r) \<longrightarrow> length r < length s)"
proof (induction n)
  case (Suc n)
  then have IH: "\<And>s v r. jval n s = Some (v, r) \<Longrightarrow> length r < length s"
    "\<And>s vs r. jelems n s = Some (vs, r) \<Longrightarrow> length r < length s"
    "\<And>s kvs r. jmembers n s = Some (kvs, r) \<Longrightarrow> length r < length s"
    by blast+
  have "length r < length s" if "jval (Suc n) s = Some (v, r)" for s v r
    using that by (fastforce split: if_splits list.splits
        dest!: json_str_length json_num_length skip_ws_Cons_length IH(2,3))
  moreover have "length r < length s" if "jelems (Suc n) s = Some (vs, r)" for s vs r
    using that by (fastforce split: if_splits list.splits option.splits dest!: skip_ws_Cons_length IH(1,2))
  moreover have "length r < length s" if "jmembers (Suc n) s = Some (kvs, r)" for s kvs r
    using that by (fastforce split: if_splits list.splits option.splits
        dest!: json_str_length skip_ws_Cons_length IH(1,3))
  ultimately show ?case by blast
qed simp

lemmas jval_length = jval_length_all [THEN conjunct1, rule_format]
lemmas jelems_length = jval_length_all [THEN conjunct2, THEN conjunct1, rule_format]
lemmas jmembers_length = jval_length_all [THEN conjunct2, THEN conjunct2, rule_format]

lemma jelems_SucE:
  assumes "jelems (Suc m) s = Some r"
  obtains v q d ds where "jval m s = Some (v, q)" "skip_ws q = d # ds"
    "d = CHR '','' \<and> (\<exists>vs p. jelems m ds = Some (vs, p) \<and> r = (v # vs, p)) \<or> d = CHR '']'' \<and> r = ([v], ds)"
  using assms by (auto split: option.splits list.splits if_splits)

lemma jmembers_SucE:
  assumes "jmembers (Suc m) s = Some r"
  obtains cs k r1 r2 v r3 f r4 where "skip_ws s = QUOTE # cs" "json_str cs = Some (k, r1)"
    "skip_ws r1 = CHR '':'' # r2" "jval m r2 = Some (v, r3)" "skip_ws r3 = f # r4"
    "f = CHR '','' \<and> (\<exists>kvs p. jmembers m r4 = Some (kvs, p) \<and> r = ((k, v) # kvs, p)) \<or> f = CHR ''}'' \<and> r = ([(k, v)], r4)"
  using assms by (auto split: option.splits list.splits if_splits)

text \<open>Enough fuel: what any amount of fuel parses is parsed with the fuel \<^const>\<open>JSON_parse\<close> gives.\<close>

lemma jval_fuel_all:
  "(\<forall>s r n. jval m s = Some r \<longrightarrow> 2 * length s + 1 \<le> n \<longrightarrow> jval n s = Some r)
   \<and> (\<forall>s r n. jelems m s = Some r \<longrightarrow> 2 * length s + 2 \<le> n \<longrightarrow> jelems n s = Some r)
   \<and> (\<forall>s r n. jmembers m s = Some r \<longrightarrow> 2 * length s + 2 \<le> n \<longrightarrow> jmembers n s = Some r)"
proof (induction m)
  case (Suc m)
  then have IH: "\<And>s r n. jval m s = Some r \<Longrightarrow> 2 * length s + 1 \<le> n \<Longrightarrow> jval n s = Some r"
    "\<And>s r n. jelems m s = Some r \<Longrightarrow> 2 * length s + 2 \<le> n \<Longrightarrow> jelems n s = Some r"
    "\<And>s r n. jmembers m s = Some r \<Longrightarrow> 2 * length s + 2 \<le> n \<Longrightarrow> jmembers n s = Some r"
    by blast+
  have V: "jval (Suc k) s = Some r" if r: "jval (Suc m) s = Some r" and n: "2 * length s \<le> k" for s r k
  proof -
    obtain c cs where c: "skip_ws s = c # cs" using r by (auto split: list.splits)
    have fuel: "2 * length (skip_ws cs) + 2 \<le> k"
      using skip_ws_Cons_length [OF c] skip_ws_length [of cs] n by simp
    show ?thesis
      using r c IH(2,3) [of "skip_ws cs" _ k, OF _ fuel]
      by (cases "skip_ws cs"; cases "c = CHR ''{'' \<or> c = CHR ''[''")
        (auto split: if_splits simp del: dropWhile_eq_Nil_conv)
  qed
  have E: "jelems (Suc k) s = Some r" if r: "jelems (Suc m) s = Some r" and n: "2 * length s + 1 \<le> k" for s r k
    using r
  proof (rule jelems_SucE)
    fix v q d ds
    assume q: "jval m s = Some (v, q)" and d: "skip_ws q = d # ds"
      and cs: "d = CHR '','' \<and> (\<exists>vs p. jelems m ds = Some (vs, p) \<and> r = (v # vs, p)) \<or> d = CHR '']'' \<and> r = ([v], ds)"
    have "2 * length ds + 2 \<le> k" using skip_ws_Cons_length [OF d] jval_length [OF q] n by simp
    then show ?thesis using IH(1) [OF q n] IH(2) [of ds _ k] d cs by auto
  qed
  have M: "jmembers (Suc k) s = Some r" if r: "jmembers (Suc m) s = Some r" and n: "2 * length s + 1 \<le> k" for s r k
    using r
  proof (rule jmembers_SucE)
    fix cs x r1 r2 v r3 f r4
    assume c: "skip_ws s = QUOTE # cs" and x: "json_str cs = Some (x, r1)" and d: "skip_ws r1 = CHR '':'' # r2"
      and v: "jval m r2 = Some (v, r3)" and f: "skip_ws r3 = f # r4"
      and e: "f = CHR '','' \<and> (\<exists>kvs p. jmembers m r4 = Some (kvs, p) \<and> r = ((x, v) # kvs, p)) \<or> f = CHR ''}'' \<and> r = ([(x, v)], r4)"
    note len = skip_ws_Cons_length [OF c] json_str_length [OF x] skip_ws_Cons_length [OF d] jval_length [OF v]
      skip_ws_Cons_length [OF f]
    have "2 * length r2 + 1 \<le> k" "2 * length r4 + 2 \<le> k" using len n by simp_all
    then show ?thesis using IH(1) [OF v] IH(3) [of r4 _ k] c x d f e by auto
  qed
  show ?case
  proof (intro conjI allI impI)
    fix s n
    have k: "0 < n \<Longrightarrow> \<exists>k. n = Suc k" by (cases n) auto
    show "jval n s = Some r" if "jval (Suc m) s = Some r" "2 * length s + 1 \<le> n" for r
      using V [OF that(1)] that(2) k by auto
    show "jelems n s = Some r" if "jelems (Suc m) s = Some r" "2 * length s + 2 \<le> n" for r
      using E [OF that(1)] that(2) k by auto
    show "jmembers n s = Some r" if "jmembers (Suc m) s = Some r" "2 * length s + 2 \<le> n" for r
      using M [OF that(1)] that(2) k by auto
  qed
qed simp

lemmas jval_fuel = jval_fuel_all [THEN conjunct1, rule_format]
lemmas jmembers_fuel = jval_fuel_all [THEN conjunct2, THEN conjunct2, rule_format]

text \<open>A value that is not a numeral at the very end of the text is parsed the same when text follows.\<close>

fun is_num :: "JValue \<Rightarrow> bool" where
  "is_num (JVnum _) = True"
| "is_num _ = False"

lemma startsWith_appendI: "startsWith s p \<Longrightarrow> startsWith (s @ t) p"
  by (simp add: startsWith_prefix)

lemma json_num_hd: "json_num (c # cs) = Some x \<Longrightarrow> c = CHR ''-'' \<or> is_digit c"
  by (auto simp: json_num_def num_int_def digits1_def is_digit_def Let_def split: if_splits option.splits)

lemma jval_append_literal:
  assumes c: "skip_ws s = c # cs" "c \<notin> set ''{[''"
    and j: "jval (Suc n) s = Some (v, r)" "r \<noteq> [] \<or> \<not> is_num v"
  shows "jval (Suc n) (s @ t) = Some (v, r @ t)"
proof -
  note c' = skip_ws_Cons_append [OF c(1), of t]
  let ?lits = "[''null'', ''true'', ''false'']"
  consider "c = QUOTE" | p where "p \<in> set ?lits" "startsWith (c # cs) p"
    | "c \<noteq> QUOTE" "\<forall>p \<in> set ?lits. \<not> startsWith (c # cs) p" by auto
  then show ?thesis
  proof cases
    case 1
    then show ?thesis using j c c' by (auto dest: json_str_append)
  next
    case 2
    have "startsWith (c # cs @ t) p" "drop (length p - 1) (cs @ t) = drop (length p - 1) cs @ t"
      using startsWith_appendI [OF 2(2), of t] 2(2)
      by (auto simp: startsWith_prefix dest: prefix_length_le)
    moreover have "hd p = c" "p \<noteq> []" using 2 by (auto simp: startsWith_def)
    moreover have "p = ''null'' \<or> p = ''true'' \<or> p = ''false''" using 2(1) by simp
    ultimately show ?thesis using 2(2) j(1) c c' by (elim disjE) (simp_all add: startsWith_def eval_nat_numeral)
  next
    case 3
    then obtain x where x: "json_num (c # cs) = Some (x, r)" "v = JVnum x"
      using j c by (auto split: if_splits)
    then have "\<forall>p \<in> set ?lits. \<not> startsWith (c # cs @ t) p"
      using json_num_hd [OF x(1)] by (auto simp: startsWith_def is_digit_def)
    with 3 x j(2) c c' json_num_append [OF x(1)] show ?thesis by simp
  qed
qed

lemma jval_append_all:
  "(\<forall>s v r. jval n s = Some (v, r) \<longrightarrow> r \<noteq> [] \<or> \<not> is_num v \<longrightarrow> jval n (s @ t) = Some (v, r @ t))
   \<and> (\<forall>s vs r. jelems n s = Some (vs, r) \<longrightarrow> jelems n (s @ t) = Some (vs, r @ t))
   \<and> (\<forall>s kvs r. jmembers n s = Some (kvs, r) \<longrightarrow> jmembers n (s @ t) = Some (kvs, r @ t))"
proof (induction n)
  case (Suc n)
  then have IH: "\<And>s v r. jval n s = Some (v, r) \<Longrightarrow> r \<noteq> [] \<or> \<not> is_num v \<Longrightarrow> jval n (s @ t) = Some (v, r @ t)"
    "\<And>s vs r. jelems n s = Some (vs, r) \<Longrightarrow> jelems n (s @ t) = Some (vs, r @ t)"
    "\<And>s kvs r. jmembers n s = Some (kvs, r) \<Longrightarrow> jmembers n (s @ t) = Some (kvs, r @ t)"
    by blast+
  note skip = skip_ws_Cons_append [of _ _ _ t]
  have "jval (Suc n) (s @ t) = Some (v, r @ t)"
    if j: "jval (Suc n) s = Some (v, r)" "r \<noteq> [] \<or> \<not> is_num v" for s v r
  proof -
    obtain c cs where c: "skip_ws s = c # cs" using j(1) by (auto split: list.splits)
    show ?thesis
    proof (cases "c \<in> set ''{[''")
      case True
      then obtain d ds where d: "skip_ws cs = d # ds"
        using j(1) c by (auto split: list.splits simp del: dropWhile_eq_Nil_conv)
      show ?thesis
        using True j(1) c d skip [OF c] skip [OF d] IH(2,3) [of "d # ds"] by (auto split: if_splits)
    qed (use jval_append_literal [OF c _ j] in simp)
  qed
  moreover have "jelems (Suc n) (s @ t) = Some (vs, r @ t)" if r: "jelems (Suc n) s = Some (vs, r)" for s vs r
    using r
  proof (rule jelems_SucE)
    fix v q d ds
    assume q: "jval n s = Some (v, q)" and d: "skip_ws q = d # ds"
      and cs: "d = CHR '','' \<and> (\<exists>us p. jelems n ds = Some (us, p) \<and> (vs, r) = (v # us, p)) \<or> d = CHR '']'' \<and> (vs, r) = ([v], ds)"
    have "q \<noteq> []" using d by auto
    then show ?thesis using IH(1) [OF q] IH(2) [of ds] skip [OF d] cs by auto
  qed
  moreover have "jmembers (Suc n) (s @ t) = Some (kvs, r @ t)" if r: "jmembers (Suc n) s = Some (kvs, r)" for s kvs r
    using r
  proof (rule jmembers_SucE)
    fix cs x r1 r2 v r3 f r4
    assume c: "skip_ws s = QUOTE # cs" and x: "json_str cs = Some (x, r1)" and d: "skip_ws r1 = CHR '':'' # r2"
      and v: "jval n r2 = Some (v, r3)" and f: "skip_ws r3 = f # r4"
      and e: "f = CHR '','' \<and> (\<exists>us p. jmembers n r4 = Some (us, p) \<and> (kvs, r) = ((x, v) # us, p)) \<or> f = CHR ''}'' \<and> (kvs, r) = ([(x, v)], r4)"
    have "r3 \<noteq> []" using f by auto
    then show ?thesis
      using IH(1) [OF v] IH(3) [of r4] skip [OF c] skip [OF d] skip [OF f] json_str_append [OF x, of t] e by auto
  qed
  ultimately show ?case by blast
qed simp

lemmas jval_append = jval_append_all [THEN conjunct1, rule_format]

section \<open>Round trip\<close>

text \<open>Values of the log: strings, and objects of such values.\<close>

fun plain_value :: "JValue \<Rightarrow> bool" where
  "plain_value (JVstr _) = True"
| "plain_value (JVobj kvs) = list_all (\<lambda>(k, v). plain_value v) kvs"
| "plain_value _ = False"

lemma skip_ws_id [simp]: "\<not> json_space c \<Longrightarrow> skip_ws (c # s) = c # s"
  by simp

lemma not_space [simp]:
  "\<not> json_space QUOTE" "\<not> json_space (CHR ''{'')" "\<not> json_space (CHR ''}'')" "\<not> json_space (CHR '','')"
  "\<not> json_space (CHR '':'')"
  by (simp_all add: json_space_def)

lemma json_string_append: "json_string k @ s = QUOTE # concat (map json_char k) @ QUOTE # s"
  by (simp add: json_string_def)

lemma jmembers_member:
  assumes "jval n (w @ d # s) = Some (v, d # s)"
    and "d = CHR ''}'' \<and> r = ([(k, v)], s)
      \<or> d = CHR '','' \<and> (\<exists>m kvs p. jmembers m s = Some (kvs, p) \<and> r = ((k, v) # kvs, p))"
  shows "\<exists>n. jmembers n (json_string k @ '':'' @ w @ d # s) = Some r"
proof -
  define N where "N = 2 * length (w @ d # s) + 2"
  have "jval N (w @ d # s) = Some (v, d # s)" by (rule jval_fuel [OF assms(1)]) (simp add: N_def)
  moreover have "jmembers N s = Some q" if "jmembers m s = Some q" for m q
    by (rule jmembers_fuel [OF that]) (simp add: N_def)
  ultimately have "jmembers (Suc N) (json_string k @ '':'' @ w @ d # s) = Some r"
    using assms(2) by (auto simp: json_string_append json_str_chars)
  then show ?thesis ..
qed

lemma jmembers_stringify:
  assumes "\<And>k v s. (k, v) \<in> set kvs \<Longrightarrow> \<exists>n. jval n (stringify v @ s) = Some (v, s)" and "kvs \<noteq> []"
  shows "\<exists>n. jmembers n (join_with '','' (map (\<lambda>(k, v). json_string k @ '':'' @ stringify v) kvs) @ CHR ''}'' # s) = Some (kvs, s)"
  using assms
proof (induction kvs)
  case (Cons kv kvs)
  obtain k v where kv: "kv = (k, v)" by force
  have v: "\<exists>n. jval n (stringify v @ x) = Some (v, x)" for x using Cons.prems(1) [of k v x] kv by simp
  show ?case
  proof (cases kvs)
    case Nil
    then show ?thesis using v [of "CHR ''}'' # s"] jmembers_member kv by fastforce
  next
    case (Cons kv' kvs')
    define rest where "rest = join_with '','' (map (\<lambda>(k, v). json_string k @ '':'' @ stringify v) kvs) @ CHR ''}'' # s"
    have "\<exists>m. jmembers m rest = Some (kvs, s)"
      unfolding rest_def using Cons.prems Cons by (intro Cons.IH) auto
    then show ?thesis
      using v [of "CHR '','' # rest"] jmembers_member [of _ "stringify v" "CHR '',''" rest v "((k, v) # kvs, s)" k] kv
      by (auto simp: Cons rest_def)
  qed
qed simp

lemma jval_stringify: "plain_value v \<Longrightarrow> \<exists>n. jval n (stringify v @ s) = Some (v, s)"
proof (induction v arbitrary: s)
  case (JVstr x)
  have "jval (Suc 0) (stringify (JVstr x) @ s) = Some (JVstr x, s)"
    by (simp add: json_string_append json_str_chars)
  then show ?case by blast
next
  case (JVobj kvs)
  show ?case
  proof (cases "kvs = []")
    case True
    then have "jval (Suc 0) (stringify (JVobj kvs) @ s) = Some (JVobj kvs, s)" by simp
    then show ?thesis by blast
  next
    case False
    then obtain n where n: "jmembers n (join_with '','' (map (\<lambda>(k, v). json_string k @ '':'' @ stringify v) kvs) @ CHR ''}'' # s)
        = Some (kvs, s)"
      using jmembers_stringify [of kvs s] JVobj by (fastforce simp: list_all_iff)
    obtain t where "join_with '','' (map (\<lambda>(k, v). json_string k @ '':'' @ stringify v) kvs) @ CHR ''}'' # s = QUOTE # t"
      using False by (cases kvs; cases "tl kvs") (auto simp: json_string_def split: prod.splits)
    then have "jval (Suc n) (stringify (JVobj kvs) @ s) = Some (JVobj kvs, s)"
      using n by simp
    then show ?thesis by blast
  qed
qed simp_all

theorem JSON_parse_stringify: "plain_value v \<Longrightarrow> JSON_parse (stringify v) = Some v"
proof -
  assume "plain_value v"
  then obtain n where "jval n (stringify v) = Some (v, [])" using jval_stringify [of v "[]"] by auto
  then have "jval (2 * length (stringify v) + 1) (stringify v) = Some (v, [])" by (rule jval_fuel) simp
  then show ?thesis by (simp add: JSON_parse_def)
qed

text \<open>A text cut short is not parsed.\<close>

lemma JSON_parse_torn:
  assumes "plain_value (JVobj kvs)" "stringify (JVobj kvs) = p @ q" "q \<noteq> []"
  shows "JSON_parse p = None"
proof (rule ccontr)
  assume "JSON_parse p \<noteq> None"
  then obtain n v r where v: "jval n p = Some (v, r)" by (auto simp: JSON_parse_def simp del: jval.simps split: option.splits)
  then have ne: "p \<noteq> []" using jval_length by fastforce
  then obtain cs where cs: "p = CHR ''{'' # cs" using assms(2) by (cases p) auto
  have "\<not> is_num v" using v by (cases n) (auto simp: cs split: list.splits if_splits)
  then have "jval n (p @ q) = Some (v, r @ q)" using jval_append [OF v] by blast
  moreover obtain m where "jval m (p @ q) = Some (JVobj kvs, [])"
    using jval_stringify [OF assms(1), of "[]"] assms(2) by auto
  ultimately have "r @ q = []"
    using jval_fuel [of n "p @ q" _ "2 * length (p @ q) + 1"] jval_fuel [of m "p @ q" _ "2 * length (p @ q) + 1"] by simp
  then show False using assms(3) by simp
qed

end
