(* ===== verification/RsWal.thy ===== *)
theory RsWal
  imports JsonText
begin

text \<open>
  The write-ahead log of the random-sampling prover, \<^verbatim>\<open>packages/random-sampling/src/wal.ts\<close>: one entry
  per transition of a proof period, in memory or as lines of JSON in a file. The locale \<open>prover_wal\<close>
  is the interface \<^verbatim>\<open>ProverWal\<close>; both backends are interpretations of it. The theorems say what a
  restarted node reads after a crash.

  The file is the text it holds; a write or the \<^verbatim>\<open>fsync\<close> after it may fail, and a failed write may
  have written a part of the line. The wall clock is the argument \<open>ts\<close>.
\<close>

section \<open>Entries\<close>

datatype ProverPeriodStatus =
    Wal_started | Wal_challenge | Wal_extracted | Wal_built | Wal_submitted | Wal_confirmed | Wal_failed

fun wal_status_text :: "ProverPeriodStatus \<Rightarrow> string" where
  "wal_status_text Wal_started = ''started''"
| "wal_status_text Wal_challenge = ''challenge''"
| "wal_status_text Wal_extracted = ''extracted''"
| "wal_status_text Wal_built = ''built''"
| "wal_status_text Wal_submitted = ''submitted''"
| "wal_status_text Wal_confirmed = ''confirmed''"
| "wal_status_text Wal_failed = ''failed''"

record ProverWalEntry =
  we_ts :: string
  we_epoch :: string
  we_periodStartBlock :: string
  we_identityId :: string
  we_status :: ProverPeriodStatus
  we_kcId :: "string option"
  we_cgId :: "string option"
  we_chunkId :: "string option"
  we_txHash :: "string option"
  we_error :: "(string \<times> string) option"

record PeriodKey =
  pk_epoch :: nat
  pk_periodStartBlock :: nat
  pk_identityId :: nat

definition periodKeyEquals :: "PeriodKey \<Rightarrow> PeriodKey \<Rightarrow> bool" where
  "periodKeyEquals a b \<longleftrightarrow> pk_epoch a = pk_epoch b \<and> pk_periodStartBlock a = pk_periodStartBlock b
     \<and> pk_identityId a = pk_identityId b"

definition periodKeyMatches :: "ProverWalEntry \<Rightarrow> PeriodKey \<Rightarrow> bool" where
  "periodKeyMatches entry key \<longleftrightarrow> we_epoch entry = show_nat (pk_epoch key)
     \<and> we_periodStartBlock entry = show_nat (pk_periodStartBlock key)
     \<and> we_identityId entry = show_nat (pk_identityId key)"

text \<open>The optional fields of an entry: \<^verbatim>\<open>kcId\<close>, \<^verbatim>\<open>cgId\<close>, \<^verbatim>\<open>chunkId\<close>, \<^verbatim>\<open>txHash\<close>, \<^verbatim>\<open>error\<close>.\<close>

definition makeWalEntry ::
  "string \<Rightarrow> PeriodKey \<Rightarrow> ProverPeriodStatus \<Rightarrow> string option \<Rightarrow> string option \<Rightarrow> string option \<Rightarrow> string option
   \<Rightarrow> (string \<times> string) option \<Rightarrow> ProverWalEntry" where
  "makeWalEntry ts key st kcId cgId chunkId txHash err =
     \<lparr>we_ts = ts, we_epoch = show_nat (pk_epoch key), we_periodStartBlock = show_nat (pk_periodStartBlock key),
      we_identityId = show_nat (pk_identityId key), we_status = st, we_kcId = kcId, we_cgId = cgId,
      we_chunkId = chunkId, we_txHash = txHash, we_error = err\<rparr>"

text \<open>The object behind an entry, with the members it has.\<close>

definition opt_member :: "string \<Rightarrow> string option \<Rightarrow> (string \<times> JValue) list" where
  "opt_member k v = (case v of None \<Rightarrow> [] | Some s \<Rightarrow> [(k, JVstr s)])"

definition entry_members :: "ProverWalEntry \<Rightarrow> (string \<times> JValue) list" where
  "entry_members e =
     [(''ts'', JVstr (we_ts e)), (''epoch'', JVstr (we_epoch e)),
      (''periodStartBlock'', JVstr (we_periodStartBlock e)), (''identityId'', JVstr (we_identityId e)),
      (''status'', JVstr (wal_status_text (we_status e)))]
     @ opt_member ''kcId'' (we_kcId e) @ opt_member ''cgId'' (we_cgId e) @ opt_member ''chunkId'' (we_chunkId e)
     @ opt_member ''txHash'' (we_txHash e)
     @ (case we_error e of None \<Rightarrow> []
        | Some (c, m) \<Rightarrow> [(''error'', JVobj [(''code'', JVstr c), (''message'', JVstr m)])])"

definition entry_json :: "ProverWalEntry \<Rightarrow> JValue" where
  "entry_json e = JVobj (entry_members e)"

section \<open>In memory\<close>

type_synonym InMemoryProverWal = "ProverWalEntry list"

definition memory_append :: "ProverWalEntry \<Rightarrow> (InMemoryProverWal, unit) op" where
  "memory_append e = modM (\<lambda>es. es @ [e])"

text \<open>The loop from the last entry down.\<close>

fun latest_memory :: "ProverWalEntry list \<Rightarrow> PeriodKey \<Rightarrow> ProverWalEntry option" where
  "latest_memory [] key = None"
| "latest_memory (e # es) key = (if periodKeyMatches e key then Some e else latest_memory es key)"

definition memory_latestFor :: "InMemoryProverWal \<Rightarrow> PeriodKey \<Rightarrow> ProverWalEntry option" where
  "memory_latestFor es key = latest_memory (rev es) key"

section \<open>In a file\<close>

datatype WriteOutcome = WriteOk | WriteFails nat string | SyncFails string

datatype FsRead = FileText string | Enoent | ReadFails string

text \<open>The state of an open log: what \<^verbatim>\<open>open\<close> parsed and \<^verbatim>\<open>append\<close> pushed, whether the handle is open, the
  text of the file, and the outcomes of the writes to come (all succeed once the list is used up).\<close>

record FileProverWal =
  fw_cache :: "JValue list"
  fw_handle :: bool
  fw_file :: string
  fw_io :: "WriteOutcome list"

fun split_lines :: "string \<Rightarrow> string list" where
  "split_lines [] = [[]]"
| "split_lines (c # cs) =
     (case split_lines cs of
        [] \<Rightarrow> [[c]]
      | l # ls \<Rightarrow> if c = NL then [] # l # ls else (c # l) # ls)"

definition load_line :: "string \<Rightarrow> JValue list" where
  "load_line line =
     (if str_trim line = [] then [] else case JSON_parse line of Some v \<Rightarrow> [v] | None \<Rightarrow> [])"

definition load_entries :: "string \<Rightarrow> JValue list" where
  "load_entries existing = concat (map load_line (split_lines existing))"

text \<open>\<^verbatim>\<open>mkdirP\<close> does nothing for a path without a directory part, and may throw otherwise.\<close>

definition FileProverWal_open :: "string option \<Rightarrow> FsRead \<Rightarrow> string option \<Rightarrow> WriteOutcome list \<Rightarrow> string + FileProverWal" where
  "FileProverWal_open mkdir_error content open_error io =
     (case mkdir_error of Some err \<Rightarrow> Inl err | None \<Rightarrow>
      bindE (case content of FileText t \<Rightarrow> Inr (load_entries t, t) | Enoent \<Rightarrow> Inr ([], []) | ReadFails err \<Rightarrow> Inl err) (\<lambda>(es, t).
      case open_error of Some err \<Rightarrow> Inl err | None \<Rightarrow>
      Inr \<lparr>fw_cache = es, fw_handle = True, fw_file = t, fw_io = io\<rparr>))"

definition wal_line :: "ProverWalEntry \<Rightarrow> string" where
  "wal_line e = stringify (entry_json e) @ [NL]"

definition file_append :: "ProverWalEntry \<Rightarrow> (FileProverWal, unit) op" where
  "file_append e w =
     (if \<not> fw_handle w then (Inl ''WAL closed'', w)
      else let outcome = (case fw_io w of [] \<Rightarrow> WriteOk | o1 # _ \<Rightarrow> o1);
               w1 = w\<lparr>fw_io := tl (fw_io w)\<rparr>
      in (case outcome of
            WriteOk \<Rightarrow> (Inr (), w1\<lparr>fw_file := fw_file w @ wal_line e, fw_cache := fw_cache w @ [entry_json e]\<rparr>)
          | WriteFails k err \<Rightarrow> (Inl err, w1\<lparr>fw_file := fw_file w @ take k (wal_line e)\<rparr>)
          | SyncFails err \<Rightarrow> (Inl err, w1\<lparr>fw_file := fw_file w @ wal_line e\<rparr>)))"

definition json_matches :: "JValue \<Rightarrow> PeriodKey \<Rightarrow> string + bool" where
  "json_matches v key =
     bindE (jget v ''epoch'') (\<lambda>e.
     if e \<noteq> Some (JVstr (show_nat (pk_epoch key))) then Inr False
     else bindE (jget v ''periodStartBlock'') (\<lambda>b.
     if b \<noteq> Some (JVstr (show_nat (pk_periodStartBlock key))) then Inr False
     else bindE (jget v ''identityId'') (\<lambda>i. Inr (i = Some (JVstr (show_nat (pk_identityId key)))))))"

fun latest_json :: "JValue list \<Rightarrow> PeriodKey \<Rightarrow> string + JValue option" where
  "latest_json [] key = Inr None"
| "latest_json (v # vs) key = bindE (json_matches v key) (\<lambda>m. if m then Inr (Some v) else latest_json vs key)"

definition file_latestFor :: "FileProverWal \<Rightarrow> PeriodKey \<Rightarrow> string + JValue option" where
  "file_latestFor w key = latest_json (rev (fw_cache w)) key"

definition file_close :: "FileProverWal \<Rightarrow> FileProverWal" where
  "file_close w = w\<lparr>fw_handle := False\<rparr>"

section \<open>The interface of a log\<close>

locale prover_wal =
  fixes append :: "ProverWalEntry \<Rightarrow> ('w, unit) op"
    and readAll :: "'w \<Rightarrow> 'j list"
    and latestFor :: "'w \<Rightarrow> PeriodKey \<Rightarrow> string + 'j option"
    and repr :: "ProverWalEntry \<Rightarrow> 'j"
  assumes append_ok: "append e w = (Inr u, w') \<Longrightarrow> readAll w' = readAll w @ [repr e]"
    and append_fails: "append e w = (Inl err, w') \<Longrightarrow> readAll w' = readAll w"
    and latest_append: "append e w = (Inr u, w') \<Longrightarrow>
      latestFor w' key = (if periodKeyMatches e key then Inr (Some (repr e)) else latestFor w key)"
begin

lemma appends_readAll:
  "forM es append w = (res, w') \<Longrightarrow>
   \<exists>es'. prefix es' es \<and> (res = Inr () \<longrightarrow> es' = es) \<and> readAll w' = readAll w @ map repr es'"
proof (induction es arbitrary: w)
  case (Cons e es)
  show ?case
  proof (cases "append e w")
    case (Pair r w1)
    show ?thesis
    proof (cases r)
      case (Inl err)
      with Pair Cons.prems have "res = Inl err" "w' = w1" by (simp_all add: op_simps)
      with append_fails [of e w err w1] Pair Inl show ?thesis by (intro exI [of _ "[]"]) simp
    next
      case (Inr u)
      with Pair Cons.prems have "forM es append w1 = (res, w')" by (simp add: op_simps)
      from Cons.IH [OF this] obtain es' where es': "prefix es' es" "res = Inr () \<longrightarrow> es' = es"
        "readAll w' = readAll w1 @ map repr es'" by blast
      with append_ok [of e w u w1] Pair Inr show ?thesis by (intro exI [of _ "e # es'"]) simp
    qed
  qed
qed (simp add: op_simps)

lemma appends_latest:
  "forM es append w = (Inr (), w') \<Longrightarrow> filter (\<lambda>e. periodKeyMatches e key) es \<noteq> [] \<Longrightarrow>
   latestFor w' key = Inr (Some (repr (last (filter (\<lambda>e. periodKeyMatches e key) es))))"
proof (induction es arbitrary: w' rule: rev_induct)
  case (snoc e es)
  have split: "forM (xs @ [e]) append v = bindM (forM xs append) (\<lambda>_. append e) v" for xs v
    by (induction xs arbitrary: v) (auto simp: op_simps prod_eq_iff split: sum.splits)
  obtain w1 where w1: "forM es append w = (Inr (), w1)" "append e w1 = (Inr (), w')"
    using snoc.prems(1) unfolding split
    by (cases "forM es append w") (auto simp: op_simps split: sum.splits)
  show ?case using latest_append [OF w1(2), of key] snoc.IH [OF w1(1)] snoc.prems(2) by auto
qed simp

end

interpretation mem: prover_wal memory_append id "\<lambda>w key. Inr (memory_latestFor w key)" id
  by unfold_locales (auto simp: memory_append_def memory_latestFor_def op_simps)

lemma json_matches_entry [simp]: "json_matches (entry_json e) key = Inr (periodKeyMatches e key)"
  by (auto simp: json_matches_def entry_json_def entry_members_def opt_member_def periodKeyMatches_def
      split: option.splits)

lemma file_append_cases:
  assumes "file_append e w = (r, w')"
  obtains "r = Inr ()" "fw_cache w' = fw_cache w @ [entry_json e]" "fw_file w' = fw_file w @ wal_line e"
  | err k where "r = Inl err" "fw_cache w' = fw_cache w" "fw_file w' = fw_file w @ take k (wal_line e)"
proof (cases "fw_handle w")
  case False
  then have "r = Inl ''WAL closed''" "w' = w" using assms by (simp_all add: file_append_def)
  then show thesis using that(2) [of _ 0] by simp
next
  case True
  define outcome where "outcome = (case fw_io w of [] \<Rightarrow> WriteOk | o1 # _ \<Rightarrow> o1)"
  show thesis
  proof (cases outcome)
    case WriteOk
    then show thesis using True assms that(1) by (auto simp: file_append_def Let_def simp flip: outcome_def)
  next
    case (WriteFails k err)
    then show thesis using True assms that(2) [of err k]
      by (auto simp: file_append_def Let_def simp flip: outcome_def)
  next
    case (SyncFails err)
    then show thesis using True assms that(2) [of err "length (wal_line e)"]
      by (auto simp: file_append_def Let_def simp flip: outcome_def)
  qed
qed

interpretation fw: prover_wal file_append fw_cache file_latestFor entry_json
proof
  fix e w u w' key
  assume "file_append e w = (Inr u, w')"
  then show "fw_cache w' = fw_cache w @ [entry_json e]" by (elim file_append_cases) auto
  then show "file_latestFor w' key = (if periodKeyMatches e key then Inr (Some (entry_json e)) else file_latestFor w key)"
    by (simp add: file_latestFor_def)
next
  fix e w err w'
  assume "file_append e w = (Inl err, w')"
  then show "fw_cache w' = fw_cache w" by (elim file_append_cases) auto
qed

section \<open>Lines\<close>

lemma plain_entry [simp]: "plain_value (entry_json e)"
  by (auto simp: entry_json_def entry_members_def opt_member_def split: option.splits)

lemma NL_json_char: "NL \<notin> set (json_char c)"
proof -
  have no: "hex_digit d \<noteq> NL" if "d < 16" for d
    using hex_digit_hex [OF that] by (auto simp: is_hex_def is_digit_def)
  have "of_char c div 16 < (16 :: nat)" if "(of_char c :: nat) < 32" using that by simp
  then show ?thesis
    using no [of "of_char c div 16"] no [of "of_char c mod 16"] by (auto simp: json_char_def)
qed

lemma NL_json_string [simp]: "NL \<notin> set (json_string s)"
  using NL_json_char by (auto simp: json_string_def)

lemma NL_join_with: "(\<And>x. x \<in> set xs \<Longrightarrow> NL \<notin> set x) \<Longrightarrow> NL \<notin> set (join_with '','' xs)"
  by (induction "'','' :: string" xs rule: join_with.induct) auto

lemma NL_stringify: "plain_value v \<Longrightarrow> NL \<notin> set (stringify v)"
proof (induction v)
  case (JVobj kvs)
  then have "NL \<notin> set (join_with '','' (map (\<lambda>(k, v). json_string k @ '':'' @ stringify v) kvs))"
    by (intro NL_join_with) (fastforce simp: list_all_iff)
  then show ?case by simp
qed simp_all

lemma split_lines_ne [simp]: "split_lines s \<noteq> []"
  by (induction s) (auto split: list.splits)

lemma split_lines_none: "NL \<notin> set s \<Longrightarrow> split_lines s = [s]"
  by (induction s) auto

lemma split_lines_line: "NL \<notin> set s \<Longrightarrow> split_lines (s @ NL # t) = s # split_lines t"
  by (induction s) (auto split: list.splits)

lemma stringify_entry_hd: "\<exists>cs. stringify (entry_json e) = CHR ''{'' # cs"
  by (simp add: entry_json_def)

lemma str_trim_brace: "str_trim (CHR ''{'' # cs) \<noteq> []"
  using dropWhile_rev_keeps_hd [of is_space "CHR ''{'' # cs"] by (simp add: str_trim_def is_space_def)

lemma load_line_entry: "load_line (stringify (entry_json e)) = [entry_json e]"
  using stringify_entry_hd [of e] str_trim_brace JSON_parse_stringify [OF plain_entry, of e]
  by (auto simp: load_line_def)

lemma load_line_torn: "k < length (stringify (entry_json e)) \<Longrightarrow> load_line (take k (stringify (entry_json e))) = []"
  using JSON_parse_torn [of "entry_members e" "take k (stringify (entry_json e))" "drop k (stringify (entry_json e))"]
  by (simp add: load_line_def flip: entry_json_def)

lemma load_entries_lines: "load_entries (concat (map wal_line es) @ t) = map entry_json es @ load_entries t"
proof (induction es)
  case (Cons e es)
  have "split_lines (concat (map wal_line (e # es)) @ t)
      = stringify (entry_json e) # split_lines (concat (map wal_line es) @ t)"
    using split_lines_line [OF NL_stringify [OF plain_entry, of e]] by (simp add: wal_line_def)
  then show ?case using Cons by (simp add: load_entries_def load_line_entry)
qed simp

lemma load_entries_take:
  "load_entries (take k (wal_line e)) = (if length (stringify (entry_json e)) \<le> k then [entry_json e] else [])"
proof -
  let ?s = "stringify (entry_json e)"
  have no: "NL \<notin> set (take j ?s)" for j using NL_stringify [OF plain_entry, of e] by (meson in_set_takeD)
  have blank: "load_line [] = []" by (simp add: load_line_def str_trim_def)
  consider "k < length ?s" | "k = length ?s" | "length ?s < k" by linarith
  then show ?thesis
  proof cases
    case 1
    then show ?thesis using split_lines_none [OF no, of k] load_line_torn [OF 1]
      by (simp add: wal_line_def load_entries_def)
  next
    case 2
    then show ?thesis using split_lines_none [OF no, of "length ?s"] load_line_entry [of e]
      by (simp add: wal_line_def load_entries_def)
  next
    case 3
    then show ?thesis using split_lines_line [OF no, of "length ?s" "[]"] load_line_entry [of e] blank
      by (simp add: wal_line_def load_entries_def)
  qed
qed

lemma appends_file: "forM es file_append w = (Inr (), w') \<Longrightarrow> fw_file w' = fw_file w @ concat (map wal_line es)"
proof (induction es arbitrary: w)
  case (Cons e es)
  obtain r w1 where w1: "file_append e w = (r, w1)" by force
  with Cons.prems have "r = Inr ()" "forM es file_append w1 = (Inr (), w')"
    by (auto simp: op_simps split: sum.splits)
  moreover from w1 this(1) have "fw_file w1 = fw_file w @ wal_line e" by (elim file_append_cases) auto
  ultimately show ?case using Cons.IH by simp
qed (simp add: op_simps)

text \<open>What is read back from complete lines and a part of one more.\<close>

lemma reopen_cache:
  assumes "FileProverWal_open None (FileText (concat (map wal_line es) @ take k (wal_line e))) None io = Inr w"
  shows "fw_cache w = map entry_json (if length (stringify (entry_json e)) \<le> k then es @ [e] else es)"
  using assms by (auto simp: FileProverWal_open_def load_entries_lines load_entries_take)

end
