(* ===== verification/RsProver.thy ===== *)
theory RsProver
  imports RsExtract RsWal
begin

text \<open>
  The orchestrator of the random-sampling prover, \<^verbatim>\<open>packages/random-sampling/src/prover.ts\<close>, with the
  builder that runs on the calling thread (\<^verbatim>\<open>proof-builder.ts\<close>).

  The chain is outside the program: \<open>RsChain\<close> holds the answers it gives during one tick, each a value
  or the error the adapter throws. A tick calls every method at most once. The triple store answers
  queries as in \<^theory_text>\<open>RsExtract\<close>; the log is any pair of a state and an append operation, so that
  the theorems hold for both backends of \<^theory_text>\<open>RsWal\<close>. The calls that change the chain are recorded in
  the state, in order. Log messages are left out.
\<close>

section \<open>Chain answers\<close>

record NodeChallenge =
  knowledgeCollectionId :: nat
  nc_chunkId :: nat
  knowledgeCollectionStorageContract :: string
  nc_epoch :: nat
  activeProofPeriodStartBlock :: nat
  proofingPeriodDurationInBlocks :: nat
  solved :: bool

record ProofPeriodStatus =
  ps_activeProofPeriodStartBlock :: nat
  ps_isValid :: bool

record RsChain =
  has_methods :: bool
  getActiveProofPeriodStatus :: "RsError + ProofPeriodStatus"
  getNodeChallenge :: "nat \<Rightarrow> RsError + NodeChallenge option"
  getBlockNumber :: "(RsError + nat) option"
  createChallenge :: "RsError + NodeChallenge \<times> nat"
  getKCContextGraphId :: "nat \<Rightarrow> RsError + nat"
  getLatestMerkleRoot :: "nat \<Rightarrow> RsError + bytes"
  getMerkleLeafCount :: "nat \<Rightarrow> RsError + nat"
  submitProof :: "bytes \<Rightarrow> bytes list \<Rightarrow> RsError + string"

section \<open>Outcomes\<close>

datatype NoChallengeReason = No_eligible_cg | No_eligible_kc

datatype CorruptReason = Root_mismatch | Leaf_count_mismatch | Meta_graph_bug

datatype TickOutcome =
    Period_closed
  | No_challenge NoChallengeReason
  | Already_solved
  | Cg_not_found nat
  | Kc_not_synced nat nat
  | Data_corrupted nat nat CorruptReason
  | Submit_stale
  | Submitted string nat nat nat
  | Tick_error RsError

fun proof_error_name :: "v10_proof_error \<Rightarrow> string" where
  "proof_error_name (V10ProofRootMismatchError _ _) = ''V10ProofRootMismatchError''"
| "proof_error_name (V10ProofLeafCountMismatchError _ _) = ''V10ProofLeafCountMismatchError''"
| "proof_error_name (V10ProofChunkOutOfRangeError _ _) = ''V10ProofChunkOutOfRangeError''"
| "proof_error_name (V10RangeError _) = ''RangeError''"

fun proof_error_message :: "v10_proof_error \<Rightarrow> string" where
  "proof_error_message (V10ProofRootMismatchError a b) =
     ''V10 proof root mismatch: computed='' @ ''0x'' @ hex_bytes a @ '' expected='' @ ''0x'' @ hex_bytes b"
| "proof_error_message (V10ProofLeafCountMismatchError a b) =
     ''V10 proof leaf count mismatch: computed='' @ show_nat a @ '' expected='' @ show_nat b"
| "proof_error_message (V10ProofChunkOutOfRangeError k n) =
     ''V10 proof chunkId '' @ show_int k @ '' out of range [0, '' @ show_nat n @ '')''"
| "proof_error_message (V10RangeError k) = ''Leaf index '' @ show_int k @ '' out of range''"

fun rs_error_name :: "RsError \<Rightarrow> string" where
  "rs_error_name (KCNotFoundError _ _) = ''KCNotFoundError''"
| "rs_error_name (KCRootEntitiesNotFoundError _ _ _) = ''KCRootEntitiesNotFoundError''"
| "rs_error_name (KCDataMissingError _ _ _ _) = ''KCDataMissingError''"
| "rs_error_name (ProofError e) = proof_error_name e"
| "rs_error_name NoEligibleContextGraphError = ''NoEligibleContextGraphError''"
| "rs_error_name NoEligibleKnowledgeCollectionError = ''NoEligibleKnowledgeCollectionError''"
| "rs_error_name ChallengeNoLongerActiveError = ''ChallengeNoLongerActiveError''"
| "rs_error_name (MerkleRootMismatchError _ _) = ''MerkleRootMismatchError''"
| "rs_error_name (WorkerCrashedError _ _) = ''WorkerCrashedError''"
| "rs_error_name (PlainError _) = ''Error''"

fun rs_error_message :: "RsError \<Rightarrow> string" where
  "rs_error_message (KCNotFoundError cg kc) =
     ''KC '' @ show_nat kc @ '' not found in _meta for context graph '' @ show_nat cg"
| "rs_error_message (KCRootEntitiesNotFoundError cg kc ual) =
     ''KC '' @ show_nat kc @ '' (UAL '' @ ual @ '') in cg '' @ show_nat cg @ '' has no dkg:rootEntity triples in _meta; ''
     @ ''meta-graph corruption or partial sync''"
| "rs_error_message (KCDataMissingError cg kc ual res) =
     ''KC '' @ show_nat kc @ '' (UAL '' @ ual @ '') has root entities '' @ stringify (JVarr (map JVstr res))
     @ '' but CG data graph for cg '' @ show_nat cg @ '' returned zero triples''"
| "rs_error_message (ProofError e) = proof_error_message e"
| "rs_error_message NoEligibleContextGraphError = ''NoEligibleContextGraph: no public CG holds non-zero per-epoch value''"
| "rs_error_message NoEligibleKnowledgeCollectionError =
     ''NoEligibleKnowledgeCollection: KC list empty or all sampled KCs expired''"
| "rs_error_message ChallengeNoLongerActiveError = ''ChallengeNoLongerActive: proof period rolled over before submission''"
| "rs_error_message (MerkleRootMismatchError a b) = ''MerkleRootMismatchError: computed='' @ a @ '' expected='' @ b"
| "rs_error_message (WorkerCrashedError _ m) = m"
| "rs_error_message (PlainError m) = m"

fun mapBuilderError :: "RsError \<Rightarrow> CorruptReason option" where
  "mapBuilderError (ProofError (V10ProofRootMismatchError _ _)) = Some Root_mismatch"
| "mapBuilderError (ProofError (V10ProofLeafCountMismatchError _ _)) = Some Leaf_count_mismatch"
| "mapBuilderError (ProofError (V10ProofChunkOutOfRangeError _ _)) = Some Leaf_count_mismatch"
| "mapBuilderError _ = None"

section \<open>Building a proof on the calling thread\<close>

type_synonym builder_fn = "bytes list \<Rightarrow> int \<Rightarrow> V10MerkleCommitment \<Rightarrow> RsError + V10ProofMaterial"

definition InProcess_build :: "(bytes \<Rightarrow> bytes) \<Rightarrow> builder_fn" where
  "InProcess_build h leaves chunkId expected =
     (case buildV10ProofMaterial h leaves chunkId expected of Inl e \<Rightarrow> Inl (ProofError e) | Inr m \<Rightarrow> Inr m)"

section \<open>One tick\<close>

record 'w ProverState =
  rs_wal :: 'w
  rs_submits :: "(bytes \<times> bytes list) list"
  rs_creates :: nat

record 'w RandomSamplingProver =
  rs_identityId :: nat
  rs_build :: builder_fn
  rs_append :: "ProverWalEntry \<Rightarrow> ('w, unit) op"
  rs_query :: sparql_query
  rs_hash :: "bytes \<Rightarrow> bytes"
  rs_localeCompare :: "string \<Rightarrow> string \<Rightarrow> int"

type_synonym ('w, 'a) rs_op = "('w ProverState, RsError, 'a) eop"

definition wal_append :: "'w RandomSamplingProver \<Rightarrow> ProverWalEntry \<Rightarrow> ('w, unit) rs_op" where
  "wal_append p e s =
     (case rs_append p e (rs_wal s) of
        (Inl err, w) \<Rightarrow> (Inl (PlainError err), s\<lparr>rs_wal := w\<rparr>)
      | (Inr u, w) \<Rightarrow> (Inr (), s\<lparr>rs_wal := w\<rparr>))"

definition isCachedSolvedStale :: "RsChain \<Rightarrow> NodeChallenge \<Rightarrow> bool" where
  "isCachedSolvedStale chain existing =
     (case getBlockNumber chain of
        None \<Rightarrow> False
      | Some answer \<Rightarrow>
          if proofingPeriodDurationInBlocks existing = 0 then False
          else (case answer of
                  Inl _ \<Rightarrow> False
                | Inr currentBlock \<Rightarrow>
                    activeProofPeriodStartBlock existing + proofingPeriodDurationInBlocks existing \<le> currentBlock))"

definition call_create :: "RsChain \<Rightarrow> ('w, NodeChallenge \<times> nat) rs_op" where
  "call_create chain = bindM (modM (\<lambda>s. s\<lparr>rs_creates := Suc (rs_creates s)\<rparr>)) (\<lambda>_. liftE (createChallenge chain))"

definition call_submit :: "RsChain \<Rightarrow> V10ProofMaterial \<Rightarrow> ('w, string) rs_op" where
  "call_submit chain m =
     bindM (modM (\<lambda>s. s\<lparr>rs_submits := rs_submits s @ [(leaf m, proof_siblings m)]\<rparr>))
       (\<lambda>_. liftE (submitProof chain (leaf m) (proof_siblings m)))"

text \<open>\<^verbatim>\<open>message.slice(0, 200)\<close> of an error, with its code.\<close>

definition err_fields :: "string \<Rightarrow> RsError \<Rightarrow> (string \<times> string) option" where
  "err_fields c err = Some (c, take 200 (rs_error_message err))"

text \<open>
  The challenge to answer: the node's challenge of the current period when it is not solved, a new one
  otherwise. \<open>Inl\<close> is an early return of the tick.
\<close>

definition tick_create :: "RsChain \<Rightarrow> ('w, TickOutcome + NodeChallenge \<times> nat) rs_op" where
  "tick_create chain =
     catchM (bindM (call_create chain) (\<lambda>created. ret (Inr created)))
       (\<lambda>err. case err of
          NoEligibleContextGraphError \<Rightarrow> ret (Inl (No_challenge No_eligible_cg))
        | NoEligibleKnowledgeCollectionError \<Rightarrow> ret (Inl (No_challenge No_eligible_kc))
        | _ \<Rightarrow> throw err)"

definition tick_challenge :: "RsChain \<Rightarrow> NodeChallenge option \<Rightarrow> bool \<Rightarrow> ('w, TickOutcome + NodeChallenge \<times> nat) rs_op" where
  "tick_challenge chain existing existingIsCurrent =
     (case existing of
        Some challenge \<Rightarrow>
          if existingIsCurrent \<and> \<not> solved challenge
          then bindM (liftE (getKCContextGraphId chain (knowledgeCollectionId challenge)))
                 (\<lambda>cgId. ret (Inr (challenge, cgId)))
          else tick_create chain
      | None \<Rightarrow> tick_create chain)"

definition tick_failed ::
  "'w RandomSamplingProver \<Rightarrow> string \<Rightarrow> PeriodKey \<Rightarrow> nat \<Rightarrow> nat \<Rightarrow> nat \<Rightarrow> (string \<times> string) option \<Rightarrow> TickOutcome
   \<Rightarrow> ('w, TickOutcome) rs_op" where
  "tick_failed p ts key kcId cgId chunkId err outcome =
     bindM (wal_append p (makeWalEntry ts key Wal_failed (Some (show_nat kcId)) (Some (show_nat cgId))
              (Some (show_nat chunkId)) None err)) (\<lambda>_. ret outcome)"

definition tick_submit ::
  "'w RandomSamplingProver \<Rightarrow> (ProverPeriodStatus \<Rightarrow> string) \<Rightarrow> RsChain \<Rightarrow> PeriodKey \<Rightarrow> nat \<Rightarrow> nat \<Rightarrow> nat
   \<Rightarrow> V10ProofMaterial \<Rightarrow> ('w, TickOutcome) rs_op" where
  "tick_submit p now chain key kcId cgId chunkId material =
     bindM (catchM (bindM (call_submit chain material) (\<lambda>tx. ret (Inr tx)))
              (\<lambda>err. bindM (case err of
                 ChallengeNoLongerActiveError \<Rightarrow>
                   tick_failed p (now Wal_failed) key kcId cgId chunkId
                     (err_fields ''ChallengeNoLongerActive'' err) Submit_stale
               | MerkleRootMismatchError _ _ \<Rightarrow>
                   tick_failed p (now Wal_failed) key kcId cgId chunkId
                     (err_fields ''MerkleRootMismatch'' err) (Data_corrupted kcId cgId Root_mismatch)
               | _ \<Rightarrow> throw err) (\<lambda>out. ret (Inl out)))) (\<lambda>r. case r of
       Inl out \<Rightarrow> ret out
     | Inr txHash \<Rightarrow>
         bindM (wal_append p (makeWalEntry (now Wal_submitted) key Wal_submitted (Some (show_nat kcId))
                  (Some (show_nat cgId)) (Some (show_nat chunkId)) (Some txHash) None))
           (\<lambda>_. ret (Submitted txHash kcId cgId chunkId)))"

text \<open>
  \<^verbatim>\<open>Number(chunkId)\<close> is exact below \<open>2\<^sup>5\<^sup>3\<close>. A larger id is rounded to a number of at least \<open>2\<^sup>5\<^sup>3\<close>, which like the id itself is
  beyond the length of every array of leaves, so the builder refuses both; only the number in its message differs.
\<close>

definition tick_build ::
  "'w RandomSamplingProver \<Rightarrow> (ProverPeriodStatus \<Rightarrow> string) \<Rightarrow> RsChain \<Rightarrow> PeriodKey \<Rightarrow> nat \<Rightarrow> nat \<Rightarrow> nat
   \<Rightarrow> bytes \<Rightarrow> nat \<Rightarrow> bytes list \<Rightarrow> ('w, TickOutcome) rs_op" where
  "tick_build p now chain key kcId cgId chunkId expRoot expLeafCount leaves =
     (let entry = (\<lambda>st. makeWalEntry (now st) key st (Some (show_nat kcId)) (Some (show_nat cgId))
                     (Some (show_nat chunkId)) None None) in
      bindM (wal_append p (entry Wal_extracted)) (\<lambda>_.
      case rs_build p leaves (int chunkId) \<lparr>expectedRoot = expRoot, merkleLeafCount = expLeafCount\<rparr> of
        Inl err \<Rightarrow>
          (case mapBuilderError err of
             Some reason \<Rightarrow> tick_failed p (now Wal_failed) key kcId cgId chunkId (err_fields (rs_error_name err) err)
                              (Data_corrupted kcId cgId reason)
           | None \<Rightarrow> throw err)
      | Inr material \<Rightarrow>
          bindM (wal_append p (entry Wal_built)) (\<lambda>_. tick_submit p now chain key kcId cgId chunkId material)))"

definition tick_prove ::
  "'w RandomSamplingProver \<Rightarrow> (ProverPeriodStatus \<Rightarrow> string) \<Rightarrow> RsChain \<Rightarrow> NodeChallenge \<Rightarrow> nat \<Rightarrow> ('w, TickOutcome) rs_op" where
  "tick_prove p now chain challenge cgId =
     (let key = \<lparr>pk_epoch = nc_epoch challenge, pk_periodStartBlock = activeProofPeriodStartBlock challenge,
                 pk_identityId = rs_identityId p\<rparr>;
          kcId = knowledgeCollectionId challenge; chunkId = nc_chunkId challenge in
      bindM (wal_append p (makeWalEntry (now Wal_challenge) key Wal_challenge (Some (show_nat kcId))
               (Some (show_nat cgId)) (Some (show_nat chunkId)) None None)) (\<lambda>_.
      if cgId = 0
      then bindM (wal_append p (makeWalEntry (now Wal_failed) key Wal_failed (Some (show_nat kcId)) None None None
                    (Some (''cg-not-found'', ''getKCContextGraphId returned 0'')))) (\<lambda>_. ret (Cg_not_found kcId))
      else bindM (liftE (getLatestMerkleRoot chain kcId)) (\<lambda>expRoot.
           bindM (liftE (getMerkleLeafCount chain kcId)) (\<lambda>expLeafCount.
           case extractV10KCFromStore (rs_hash p) (rs_localeCompare p) (rs_query p) cgId kcId of
             Inl err \<Rightarrow>
               (case err of
                  KCNotFoundError _ _ \<Rightarrow>
                    tick_failed p (now Wal_failed) key kcId cgId chunkId (err_fields (rs_error_name err) err)
                      (Kc_not_synced kcId cgId)
                | KCDataMissingError _ _ _ _ \<Rightarrow>
                    tick_failed p (now Wal_failed) key kcId cgId chunkId (err_fields (rs_error_name err) err)
                      (Kc_not_synced kcId cgId)
                | KCRootEntitiesNotFoundError _ _ _ \<Rightarrow>
                    tick_failed p (now Wal_failed) key kcId cgId chunkId (err_fields ''KCRootEntitiesNotFoundError'' err)
                      (Data_corrupted kcId cgId Meta_graph_bug)
                | _ \<Rightarrow> throw err)
           | Inr extracted \<Rightarrow> tick_build p now chain key kcId cgId chunkId expRoot expLeafCount (ex_leaves extracted)))))"

text \<open>
  \<^verbatim>\<open>tickImpl\<close>. The two reads at the start are made in parallel; when both are refused the tick throws
  the one that came first, here the status.
\<close>

definition tickImpl :: "'w RandomSamplingProver \<Rightarrow> (ProverPeriodStatus \<Rightarrow> string) \<Rightarrow> RsChain \<Rightarrow> ('w, TickOutcome) rs_op" where
  "tickImpl p now chain =
     (if \<not> has_methods chain
      then throw (PlainError ''RandomSamplingProver: chain adapter missing required RandomSampling / KC view methods'')
      else bindM (liftE (getActiveProofPeriodStatus chain)) (\<lambda>status.
           bindM (liftE (getNodeChallenge chain (rs_identityId p))) (\<lambda>existing.
           let existingIsCurrent = (case existing of None \<Rightarrow> False
                 | Some c \<Rightarrow> activeProofPeriodStartBlock c = ps_activeProofPeriodStartBlock status);
               solvedNow = (case existing of None \<Rightarrow> False
                 | Some c \<Rightarrow> existingIsCurrent \<and> solved c \<and> \<not> isCachedSolvedStale chain c)
           in if solvedNow then ret Already_solved
              else bindM (tick_challenge chain existing existingIsCurrent) (\<lambda>r. case r of
                     Inl outcome \<Rightarrow> ret outcome
                   | Inr (challenge, cgId) \<Rightarrow> tick_prove p now chain challenge cgId))))"

section \<open>The interface of a proof builder\<close>

text \<open>
  What the orchestrator relies on: material is only returned for the commitment asked for, and a leaf
  set that matches the commitment gets material for every chunk below the leaf count.
\<close>

locale proof_builder =
  fixes h :: "bytes \<Rightarrow> bytes"
    and build :: builder_fn
  assumes build_sound: "build leaves k c = Inr m \<Longrightarrow>
      verifyV10ProofMaterial h m k c \<and> 0 \<le> k \<and> k < int (merkleLeafCount c) \<and> leaf m \<in> set leaves"
    and build_complete: "leafCount (V10MerkleTree_new h leaves) = merkleLeafCount c \<Longrightarrow>
      root (V10MerkleTree_new h leaves) = expectedRoot c \<Longrightarrow> 0 \<le> k \<Longrightarrow> k < int (merkleLeafCount c) \<Longrightarrow>
      \<exists>m. build leaves k c = Inr m"
begin

lemma build_verify:
  "build leaves k c = Inr m \<Longrightarrow> verify h (expectedRoot c) (leaf m) (proof_siblings m) k"
  using build_sound by (fastforce simp: verifyV10ProofMaterial_def split: if_splits)

text \<open>A node with the committed leaves, in any order and with any repetitions, gets its proof.\<close>

lemma build_committed:
  assumes "set leaves = set (flatLeavesV10 h qs privs)"
    and "k < int (computeFlatKCMerkleLeafCountV10 h qs privs)" "0 \<le> k"
  shows "\<exists>m. build leaves k \<lparr>expectedRoot = computeFlatKCRootV10 h qs privs,
      merkleLeafCount = computeFlatKCMerkleLeafCountV10 h qs privs\<rparr> = Inr m"
  using V10_cong [OF assms(1), of h] assms(2,3)
  by (intro build_complete) (simp_all add: computeFlatKCRootV10_def computeFlatKCMerkleLeafCountV10_def)

end

lemma buildV10_Inr_leaf:
  assumes "buildV10ProofMaterial h leaves k c = Inr m"
  shows "verifyV10ProofMaterial h m k c \<and> 0 \<le> k \<and> k < int (merkleLeafCount c) \<and> leaf m \<in> set leaves"
proof -
  let ?t = "V10MerkleTree_new h leaves"
  have c: "leafCount ?t = merkleLeafCount c" "root ?t = expectedRoot c" "0 \<le> k" "k < int (merkleLeafCount c)"
    using assms by (auto simp: buildV10ProofMaterial_def Let_def split: if_splits)
  then have "nat k < length (v10Leaves leaves)" by (auto simp: leafCount_v10 length_v10Leaves)
  then have "v10Leaves leaves ! nat k \<in> set leaves"
    by (metis List.finite_set nth_mem set_sorted_list_of_set v10Leaves_set)
  with buildV10_Inr [OF c] assms c show ?thesis by auto
qed

interpretation ip: proof_builder h "InProcess_build h" for h
proof
  fix leaves k c m
  assume "InProcess_build h leaves k c = Inr m"
  then have "buildV10ProofMaterial h leaves k c = Inr m" by (simp add: InProcess_build_def split: sum.splits)
  then show "verifyV10ProofMaterial h m k c \<and> 0 \<le> k \<and> k < int (merkleLeafCount c) \<and> leaf m \<in> set leaves"
    by (rule buildV10_Inr_leaf)
next
  fix leaves k and c :: V10MerkleCommitment
  assume "leafCount (V10MerkleTree_new h leaves) = merkleLeafCount c"
    "root (V10MerkleTree_new h leaves) = expectedRoot c" "0 \<le> k" "k < int (merkleLeafCount c)"
  from buildV10_Inr [OF this] show "\<exists>m. InProcess_build h leaves k c = Inr m"
    by (auto simp: InProcess_build_def)
qed

section \<open>What a tick submits\<close>

text \<open>An operation that submits at most one proof, and only one that satisfies \<open>P\<close>.\<close>

definition may_submit :: "(V10ProofMaterial \<Rightarrow> bool) \<Rightarrow> ('w, 'a) rs_op \<Rightarrow> bool" where
  "may_submit P m \<longleftrightarrow> (\<forall>s. rs_submits (snd (m s)) = rs_submits s
     \<or> (\<exists>x. P x \<and> rs_submits (snd (m s)) = rs_submits s @ [(leaf x, proof_siblings x)]))"

abbreviation no_submit :: "('w, 'a) rs_op \<Rightarrow> bool" where
  "no_submit m \<equiv> \<forall>s. rs_submits (snd (m s)) = rs_submits s"

lemma may_submit_no: "no_submit m \<Longrightarrow> may_submit P m"
  by (simp add: may_submit_def)

lemma no_submit_basic [simp]:
  "no_submit (ret x)" "no_submit (throw e)" "no_submit (liftE r)" "no_submit (wal_append p w)"
  by (simp_all add: op_simps wal_append_def split: prod.splits sum.splits)

lemma no_submit_bindM: "no_submit m \<Longrightarrow> (\<And>x. no_submit (f x)) \<Longrightarrow> no_submit (bindM m f)"
  by (simp add: op_simps split: sum.splits)

lemma may_submit_basic [simp]:
  "may_submit P (ret x)" "may_submit P (throw e)" "may_submit P (liftE r)" "may_submit P (wal_append p w)"
  by (rule may_submit_no, simp)+

lemma no_submit_tick_failed [simp]: "no_submit (tick_failed p ts key kc cg ch err out)"
  by (simp add: tick_failed_def no_submit_bindM)

lemma may_submit_tick_failed [simp]: "may_submit P (tick_failed p ts key kc cg ch err out)"
  by (rule may_submit_no) simp

lemma no_submit_challenge [simp]: "no_submit (tick_challenge chain existing cur)"
  by (auto simp: tick_challenge_def tick_create_def call_create_def op_simps split: sum.splits option.splits RsError.splits)

lemma may_submit_bindM: "no_submit m \<Longrightarrow> (\<And>x s s'. m s = (Inr x, s') \<Longrightarrow> may_submit P (f x)) \<Longrightarrow> may_submit P (bindM m f)"
  unfolding may_submit_def by (auto simp: bindM_def split: prod.splits sum.splits) (metis snd_conv)+

lemma tick_submit_submits: "P m \<Longrightarrow> may_submit P (tick_submit p now chain key kc cg ch m)"
  unfolding may_submit_def tick_submit_def
  by (rule allI, rule disjI2, rule exI [of _ m]) (simp add: call_submit_def op_simps split: sum.splits RsError.splits)

lemma tick_build_submits:
  assumes "\<And>m. rs_build p leaves (int ch) \<lparr>expectedRoot = rt, merkleLeafCount = n\<rparr> = Inr m \<Longrightarrow> P m"
  shows "may_submit P (tick_build p now chain key kc cg ch rt n leaves)"
  unfolding tick_build_def Let_def
  by (auto intro!: may_submit_bindM tick_submit_submits assms split: sum.splits option.splits)

lemma tick_prove_submits:
  assumes "\<And>rt n ex m. getLatestMerkleRoot chain (knowledgeCollectionId ch) = Inr rt \<Longrightarrow>
      getMerkleLeafCount chain (knowledgeCollectionId ch) = Inr n \<Longrightarrow>
      extractV10KCFromStore (rs_hash p) (rs_localeCompare p) (rs_query p) cg (knowledgeCollectionId ch) = Inr ex \<Longrightarrow>
      rs_build p (ex_leaves ex) (int (nc_chunkId ch)) \<lparr>expectedRoot = rt, merkleLeafCount = n\<rparr> = Inr m \<Longrightarrow> P m"
  shows "may_submit P (tick_prove p now chain ch cg)"
  unfolding tick_prove_def Let_def
  by (auto intro!: may_submit_bindM tick_build_submits split: sum.splits RsError.splits simp: liftE_run)
    (erule (3) assms)

text \<open>The challenge a tick works on, with its context graph: the current unsolved one, or the created one.\<close>

definition tick_target :: "'w RandomSamplingProver \<Rightarrow> RsChain \<Rightarrow> NodeChallenge \<Rightarrow> nat \<Rightarrow> bool" where
  "tick_target p chain ch cgId \<longleftrightarrow>
     createChallenge chain = Inr (ch, cgId)
     \<or> getNodeChallenge chain (rs_identityId p) = Inr (Some ch) \<and> \<not> solved ch
        \<and> getKCContextGraphId chain (knowledgeCollectionId ch) = Inr cgId"

lemma tick_challenge_target:
  "getNodeChallenge chain (rs_identityId p) = Inr existing \<Longrightarrow>
   tick_challenge chain existing cur s = (Inr (Inr (ch, cg)), s') \<Longrightarrow> tick_target p chain ch cg"
  by (auto simp: tick_challenge_def tick_create_def call_create_def tick_target_def op_simps
      split: option.splits if_splits sum.splits RsError.splits)

lemma tickImpl_submits:
  assumes "\<And>ch cg. tick_target p chain ch cg \<Longrightarrow> may_submit P (tick_prove p now chain ch cg)"
  shows "may_submit P (tickImpl p now chain)"
  unfolding tickImpl_def Let_def
  by (auto intro!: may_submit_bindM assms split: sum.splits prod.splits simp: liftE_run)
    (erule (1) tick_challenge_target)

section \<open>What a tick records\<close>

text \<open>The sequences of statuses that the log of a tick may show, for each way it ends.\<close>

fun outcome_traces :: "RsError + TickOutcome \<Rightarrow> ProverPeriodStatus list list" where
  "outcome_traces (Inr Already_solved) = [[]]"
| "outcome_traces (Inr (No_challenge _)) = [[]]"
| "outcome_traces (Inr (Cg_not_found _)) = [[Wal_challenge, Wal_failed]]"
| "outcome_traces (Inr (Kc_not_synced _ _)) = [[Wal_challenge, Wal_failed]]"
| "outcome_traces (Inr (Data_corrupted _ _ reason)) =
     (case reason of
        Meta_graph_bug \<Rightarrow> [[Wal_challenge, Wal_failed]]
      | Leaf_count_mismatch \<Rightarrow> [[Wal_challenge, Wal_extracted, Wal_failed]]
      | Root_mismatch \<Rightarrow> [[Wal_challenge, Wal_extracted, Wal_failed],
                           [Wal_challenge, Wal_extracted, Wal_built, Wal_failed]])"
| "outcome_traces (Inr Submit_stale) = [[Wal_challenge, Wal_extracted, Wal_built, Wal_failed]]"
| "outcome_traces (Inr (Submitted _ _ _ _)) = [[Wal_challenge, Wal_extracted, Wal_built, Wal_submitted]]"
| "outcome_traces (Inl _) = [[], [Wal_challenge], [Wal_challenge, Wal_extracted], [Wal_challenge, Wal_extracted, Wal_built]]"
| "outcome_traces _ = []"

definition tick_log :: "PeriodKey \<Rightarrow> RsError + TickOutcome \<Rightarrow> ProverWalEntry list \<Rightarrow> bool" where
  "tick_log key r es \<longleftrightarrow> map we_status es \<in> set (outcome_traces r) \<and> list_all (\<lambda>e. periodKeyMatches e key) es
     \<and> (case r of Inr (Submitted tx _ _ _) \<Rightarrow> we_txHash (last es) = Some tx | _ \<Rightarrow> True)"

lemma tick_log_cases:
  "tick_log key (Inl e) []"
  "periodKeyMatches x key \<Longrightarrow> we_status x = Wal_challenge \<Longrightarrow> tick_log key (Inl e) [x]"
  "periodKeyMatches x key \<Longrightarrow> periodKeyMatches y key \<Longrightarrow> we_status x = Wal_challenge \<Longrightarrow> we_status y = Wal_failed \<Longrightarrow>
   tick_log key (Inr (Cg_not_found kc)) [x, y]"
  by (simp_all add: tick_log_def)

text \<open>All entries of a tick belong to one period of this node.\<close>

definition tick_logged :: "'w RandomSamplingProver \<Rightarrow> RsError + TickOutcome \<Rightarrow> ProverWalEntry list \<Rightarrow> bool" where
  "tick_logged p r es \<longleftrightarrow> (\<exists>key. pk_identityId key = rs_identityId p \<and> tick_log key r es)"

lemma tick_logged_Nil:
  "tick_logged p (Inl e) []" "tick_logged p (Inr Already_solved) []" "tick_logged p (Inr (No_challenge reason)) []"
  unfolding tick_logged_def
  by (rule exI [of _ "\<lparr>pk_epoch = 0, pk_periodStartBlock = 0, pk_identityId = rs_identityId p\<rparr>"], simp add: tick_log_def)+

lemma periodKeyMatches_make [simp]: "periodKeyMatches (makeWalEntry ts key st a b c d e) key"
  by (simp add: periodKeyMatches_def makeWalEntry_def)

lemma makeWalEntry_sel [simp]:
  "we_status (makeWalEntry ts key st a b c d e) = st" "we_txHash (makeWalEntry ts key st a b c d e) = d"
  by (simp_all add: makeWalEntry_def)

definition logs ::
  "('w \<Rightarrow> 'j list) \<Rightarrow> (ProverWalEntry \<Rightarrow> 'j) \<Rightarrow> (RsError + 'a \<Rightarrow> ProverWalEntry list \<Rightarrow> bool) \<Rightarrow> ('w, 'a) rs_op \<Rightarrow> bool" where
  "logs readAll repr T m \<longleftrightarrow>
     (\<forall>s. \<exists>es. readAll (rs_wal (snd (m s))) = readAll (rs_wal s) @ map repr es \<and> T (fst (m s)) es)"

lemma logs_ret: "T (Inr x) [] \<Longrightarrow> logs readAll repr T (ret x)"
  by (simp add: logs_def op_simps)

lemma logs_throw: "T (Inl e) [] \<Longrightarrow> logs readAll repr T (throw e)"
  by (simp add: logs_def op_simps)

lemma logs_lift_bind:
  "(\<And>e. r = Inl e \<Longrightarrow> T (Inl e) []) \<Longrightarrow> (\<And>x. r = Inr x \<Longrightarrow> logs readAll repr T (f x)) \<Longrightarrow>
   logs readAll repr T (bindM (liftE r) f)"
  by (cases r) (auto simp: logs_def op_simps)

text \<open>A \<^verbatim>\<open>try\<close> block around one call, whose \<^verbatim>\<open>catch\<close> returns from the tick.\<close>

lemma catch_return:
  "bindM (catchM (bindM m (\<lambda>x. ret (Inr x))) (\<lambda>e. bindM (h e) (\<lambda>out. ret (Inl out))))
     (\<lambda>r. case r of Inl out \<Rightarrow> ret out | Inr x \<Rightarrow> k x) s
   = (case m s of (Inl e, s') \<Rightarrow> h e s' | (Inr x, s') \<Rightarrow> k x s')"
  by (auto simp: op_simps prod_eq_iff split: prod.splits sum.splits)

lemma bindM_liftE_ret: "bindM (bindM (liftE r) (\<lambda>x. ret (f x))) k = bindM (liftE r) (\<lambda>x. k (f x))"
  by (rule ext) (simp add: op_simps split: sum.splits)

lemma logs_comp: "(\<And>s. rs_wal (g s) = rs_wal s) \<Longrightarrow> logs readAll repr T m \<Longrightarrow> logs readAll repr T (\<lambda>s. m (g s))"
  unfolding logs_def by metis

context prover_wal
begin

lemma logs_wal_bind:
  assumes "rs_append p = append" "\<And>err. T (Inl err) []" "logs readAll repr (\<lambda>r es. T r (e # es)) m"
  shows "logs readAll repr T (bindM (wal_append p e) (\<lambda>_. m))"
  unfolding logs_def
proof
  fix s :: "'w ProverState"
  obtain r w where w: "append e (rs_wal s) = (r, w)" by force
  show "\<exists>es. readAll (rs_wal (snd (bindM (wal_append p e) (\<lambda>_. m) s))) = readAll (rs_wal s) @ map repr es
      \<and> T (fst (bindM (wal_append p e) (\<lambda>_. m) s)) es"
  proof (cases r)
    case (Inl err)
    then show ?thesis using w assms(1,2) append_fails [of e "rs_wal s" err w]
      by (auto simp: wal_append_def op_simps)
  next
    case (Inr u)
    then have read: "readAll w = readAll (rs_wal s) @ [repr e]" using w append_ok by blast
    obtain es where "readAll (rs_wal (snd (m (s\<lparr>rs_wal := w\<rparr>)))) = readAll w @ map repr es"
      "T (fst (m (s\<lparr>rs_wal := w\<rparr>))) (e # es)"
      using assms(3) by (auto simp: logs_def dest: spec [of _ "s\<lparr>rs_wal := w\<rparr>"])
    then show ?thesis using w assms(1) Inr read
      by (intro exI [of _ "e # es"]) (simp add: wal_append_def op_simps)
  qed
qed

lemma logs_tick_failed:
  assumes "rs_append p = append" "\<And>err. T (Inl err) []"
    and "\<And>e. periodKeyMatches e key \<Longrightarrow> we_status e = Wal_failed \<Longrightarrow> T (Inr out) [e]"
  shows "logs readAll repr T (tick_failed p ts key kc cg ch err out)"
  unfolding tick_failed_def using assms by (intro logs_wal_bind logs_ret) auto

lemma logs_tick_submit:
  assumes "rs_append p = append" "\<And>err. T (Inl err) []"
    and "\<And>e. periodKeyMatches e key \<Longrightarrow> we_status e = Wal_failed \<Longrightarrow>
      T (Inr Submit_stale) [e] \<and> T (Inr (Data_corrupted kc cg Root_mismatch)) [e]"
    and "\<And>e tx. periodKeyMatches e key \<Longrightarrow> we_status e = Wal_submitted \<Longrightarrow> we_txHash e = Some tx \<Longrightarrow>
      T (Inr (Submitted tx kc cg ch)) [e]"
  shows "logs readAll repr T (tick_submit p now chain key kc cg ch m)"
proof -
  let ?sub = "\<lambda>s :: 'w ProverState. s\<lparr>rs_submits := rs_submits s @ [(leaf m, proof_siblings m)]\<rparr>"
  have run: "call_submit chain m s = (submitProof chain (leaf m) (proof_siblings m), ?sub s)" for s :: "'w ProverState"
    by (simp add: call_submit_def op_simps)
  have eq: "tick_submit p now chain key kc cg ch m = (\<lambda>s. (case submitProof chain (leaf m) (proof_siblings m) of
      Inr tx \<Rightarrow> bindM (wal_append p (makeWalEntry (now Wal_submitted) key Wal_submitted (Some (show_nat kc))
        (Some (show_nat cg)) (Some (show_nat ch)) (Some tx) None)) (\<lambda>_. ret (Submitted tx kc cg ch))
    | Inl err \<Rightarrow> (case err of
        ChallengeNoLongerActiveError \<Rightarrow> tick_failed p (now Wal_failed) key kc cg ch
          (err_fields ''ChallengeNoLongerActive'' err) Submit_stale
      | MerkleRootMismatchError _ _ \<Rightarrow> tick_failed p (now Wal_failed) key kc cg ch
          (err_fields ''MerkleRootMismatch'' err) (Data_corrupted kc cg Root_mismatch)
      | _ \<Rightarrow> throw err)) (?sub s))"
    unfolding tick_submit_def by (rule ext, subst catch_return) (simp add: run split: sum.splits)
  have fail: "logs readAll repr T (tick_failed p ts key kc cg ch e out)"
    if "out = Submit_stale \<or> out = Data_corrupted kc cg Root_mismatch" for ts e out
    using that assms(3) by (intro logs_tick_failed assms(1,2)) auto
  have ok: "logs readAll repr T (bindM (wal_append p (makeWalEntry (now Wal_submitted) key Wal_submitted a b c (Some tx) None))
      (\<lambda>_. ret (Submitted tx kc cg ch)))" for a b c tx
    by (intro logs_wal_bind assms(1,2) logs_ret assms(4)) simp_all
  have throws: "logs readAll repr T (throw e)" for e by (intro logs_throw assms(2))
  show ?thesis
    unfolding eq by (rule logs_comp) (simp_all add: fail ok throws split: sum.split RsError.split)
qed

lemma logs_tick_build:
  assumes p: "rs_append p = append"
    and T: "\<And>r es. Wal_challenge # map we_status es \<in> set (outcome_traces r) \<Longrightarrow> list_all (\<lambda>e. periodKeyMatches e key) es \<Longrightarrow>
      (case r of Inr (Submitted tx _ _ _) \<Rightarrow> we_txHash (last es) = Some tx | _ \<Rightarrow> True) \<Longrightarrow> T r es"
  shows "logs readAll repr T (tick_build p now chain key kc cg ch rt n leaves)"
proof -
  have fail: "logs readAll repr (\<lambda>r es. T r (x # es)) (tick_failed p ts key kc cg ch e (Data_corrupted kc cg reason))"
    if "reason \<noteq> Meta_graph_bug" "periodKeyMatches x key" "we_status x = Wal_extracted" for ts e reason x
    using that by (intro logs_tick_failed p T; cases reason) auto
  have submit: "logs readAll repr (\<lambda>r es. T r (x # y # es)) (tick_submit p now chain key kc cg ch m)"
    if "periodKeyMatches x key" "we_status x = Wal_extracted" "periodKeyMatches y key" "we_status y = Wal_built" for x y m
    using that by (intro logs_tick_submit p conjI T) auto
  have corrupt: "mapBuilderError e = Some reason \<Longrightarrow> reason \<noteq> Meta_graph_bug" for e reason
    by (cases e rule: mapBuilderError.cases) auto
  show ?thesis
    unfolding tick_build_def Let_def
    by (intro logs_wal_bind p T)
      (auto intro!: fail logs_throw T logs_wal_bind p submit dest: corrupt split: sum.splits option.splits)
qed

lemma logs_tick_prove:
  assumes p: "rs_append p = append"
    and key: "key = \<lparr>pk_epoch = nc_epoch c, pk_periodStartBlock = activeProofPeriodStartBlock c, pk_identityId = rs_identityId p\<rparr>"
  shows "logs readAll repr (tick_log key) (tick_prove p now chain c cg)"
proof -
  have fail: "logs readAll repr (\<lambda>r es. tick_log key r (x # es)) (tick_failed p ts key kc cg ch e out)"
    if "out = Kc_not_synced kc cg \<or> out = Data_corrupted kc cg Meta_graph_bug" "periodKeyMatches x key"
      "we_status x = Wal_challenge" for ts kc ch e out x
    using that by (intro logs_tick_failed p) (auto simp: tick_log_def)
  have build: "logs readAll repr (\<lambda>r es. tick_log key r (x # es)) (tick_build p now chain key kc cg ch rt n leaves)"
    if "periodKeyMatches x key" "we_status x = Wal_challenge" for x kc ch rt n leaves
  proof (rule logs_tick_build [OF p])
    fix r es
    assume es: "Wal_challenge # map we_status es \<in> set (outcome_traces r)" "list_all (\<lambda>e. periodKeyMatches e key) es"
      "case r of Inr (Submitted tx _ _ _) \<Rightarrow> we_txHash (last es) = Some tx | _ \<Rightarrow> True"
    then show "tick_log key r (x # es)"
      using that by (cases r rule: outcome_traces.cases) (auto simp: tick_log_def split: CorruptReason.splits)
  qed
  show ?thesis
    unfolding tick_prove_def Let_def key [symmetric]
    by (intro logs_wal_bind p)
      (auto intro!: logs_wal_bind p logs_lift_bind logs_ret logs_throw fail build split: sum.splits RsError.splits
        simp: tick_log_cases)
qed

lemma logs_prove_or_return:
  assumes "rs_append p = append"
  shows "logs readAll repr (tick_logged p) (tick_prove p now chain c cg)"
    and "logs readAll repr (tick_logged p) (bindM (tick_create chain) (\<lambda>r. case r of
      Inl outcome \<Rightarrow> ret outcome | Inr (c, cg) \<Rightarrow> tick_prove p now chain c cg))" (is "logs _ _ _ ?create")
proof -
  show prove: "logs readAll repr (tick_logged p) (tick_prove p now chain c cg)" for c cg
    using logs_tick_prove [OF assms refl, of c now chain cg] unfolding logs_def tick_logged_def
    by (metis PeriodKey.select_convs(3))
  let ?cr = "\<lambda>s :: 'w ProverState. s\<lparr>rs_creates := Suc (rs_creates s)\<rparr>"
  have eq: "?create = (\<lambda>s. (case createChallenge chain of
      Inr (c, cg) \<Rightarrow> tick_prove p now chain c cg
    | Inl err \<Rightarrow> (case err of
        NoEligibleContextGraphError \<Rightarrow> ret (No_challenge No_eligible_cg)
      | NoEligibleKnowledgeCollectionError \<Rightarrow> ret (No_challenge No_eligible_kc)
      | _ \<Rightarrow> throw err)) (?cr s))"
    by (rule ext) (auto simp: tick_create_def call_create_def op_simps split: sum.splits RsError.splits)
  show "logs readAll repr (tick_logged p) ?create"
    unfolding eq
    by (rule logs_comp) (simp_all add: prove logs_ret logs_throw tick_logged_Nil split: sum.split prod.split RsError.split)
qed

lemma logs_tickImpl:
  assumes "rs_append p = append"
  shows "logs readAll repr (tick_logged p) (tickImpl p now chain)"
proof -
  note prove = logs_prove_or_return [OF assms]
  have "logs readAll repr (tick_logged p) (bindM (tick_challenge chain existing cur) (\<lambda>r. case r of
      Inl outcome \<Rightarrow> ret outcome | Inr (c, cg) \<Rightarrow> tick_prove p now chain c cg))" for existing cur
    by (auto simp: tick_challenge_def bindM_liftE_ret tick_logged_Nil intro!: prove logs_lift_bind split: option.splits)
  then show ?thesis
    unfolding tickImpl_def Let_def
    by (auto intro!: logs_lift_bind logs_throw logs_ret tick_logged_Nil)
qed

end

end
