(* ===== verification/RsWorker.thy ===== *)
theory RsWorker
  imports RsProver
begin

text \<open>
  The proof builder on a worker thread: \<^verbatim>\<open>packages/random-sampling/src/proof-worker.ts\<close> (the host) and
  \<^verbatim>\<open>proof-worker-entry.ts\<close> (the script that runs inside the worker). The host is a state; building, the
  events of a worker and closing are its operations. Threads and messages are outside the program: a
  step lets any worker answer its oldest request, deliver its oldest answer, fail or exit, in any
  order. Workers are numbered as they are spawned, tasks as they are posted.
\<close>

section \<open>Inside the worker\<close>

record BuildRequest =
  br_taskId :: nat
  br_leaves :: "bytes list"
  br_chunkId :: int
  br_expected :: V10MerkleCommitment

datatype BuildErrorFields =
    RootMismatch bytes bytes
  | LeafCountMismatch nat nat
  | ChunkOutOfRange int nat

datatype WorkerResponse =
    WorkerResponseOk nat V10ProofMaterial
  | WorkerResponseErr nat string string "BuildErrorFields option"

definition worker_entry :: "(bytes \<Rightarrow> bytes) \<Rightarrow> BuildRequest \<Rightarrow> WorkerResponse" where
  "worker_entry h msg =
     (case buildV10ProofMaterial h (br_leaves msg) (br_chunkId msg) (br_expected msg) of
        Inr m \<Rightarrow> WorkerResponseOk (br_taskId msg) m
      | Inl err \<Rightarrow>
          (case err of
             V10ProofRootMismatchError a b \<Rightarrow>
               WorkerResponseErr (br_taskId msg) ''V10ProofRootMismatchError'' (proof_error_message err) (Some (RootMismatch a b))
           | V10ProofLeafCountMismatchError a b \<Rightarrow>
               WorkerResponseErr (br_taskId msg) ''V10ProofLeafCountMismatchError'' (proof_error_message err)
                 (Some (LeafCountMismatch a b))
           | V10ProofChunkOutOfRangeError k n \<Rightarrow>
               WorkerResponseErr (br_taskId msg) ''V10ProofChunkOutOfRangeError'' (proof_error_message err)
                 (Some (ChunkOutOfRange k n))
           | V10RangeError k \<Rightarrow> WorkerResponseErr (br_taskId msg) ''Error'' (proof_error_message err) None))"

section \<open>The host\<close>

text \<open>
  \<open>wt_settled\<close> is the history of settled promises; \<open>wt_inbox\<close> and \<open>wt_outbox\<close> hold the messages in
  flight, with the worker they belong to.
\<close>

record WorkerThreadProofBuilder =
  wt_worker :: "nat option"
  wt_spawned :: nat
  wt_nextTaskId :: nat
  wt_pending :: "nat list"
  wt_settled :: "(nat \<times> (RsError + V10ProofMaterial)) list"
  wt_inbox :: "(nat \<times> BuildRequest) list"
  wt_outbox :: "(nat \<times> WorkerResponse) list"

definition wt_new :: WorkerThreadProofBuilder where
  "wt_new = \<lparr>wt_worker = None, wt_spawned = 0, wt_nextTaskId = 1, wt_pending = [], wt_settled = [],
     wt_inbox = [], wt_outbox = []\<rparr>"

definition reconstructError :: "string \<Rightarrow> string \<Rightarrow> BuildErrorFields option \<Rightarrow> RsError" where
  "reconstructError errorName msg fs =
     (if errorName = ''V10ProofRootMismatchError''
      then (case fs of
              Some (RootMismatch a b) \<Rightarrow> ProofError (V10ProofRootMismatchError a b)
            | _ \<Rightarrow> ProofError (V10ProofRootMismatchError zero32 zero32))
      else if errorName = ''V10ProofLeafCountMismatchError''
      then (case fs of
              Some (LeafCountMismatch a b) \<Rightarrow> ProofError (V10ProofLeafCountMismatchError a b)
            | _ \<Rightarrow> ProofError (V10ProofLeafCountMismatchError 0 0))
      else if errorName = ''V10ProofChunkOutOfRangeError''
      then (case fs of
              Some (ChunkOutOfRange k n) \<Rightarrow> ProofError (V10ProofChunkOutOfRangeError k n)
            | _ \<Rightarrow> ProofError (V10ProofChunkOutOfRangeError 0 0))
      else PlainError msg)"

definition failAll :: "RsError \<Rightarrow> WorkerThreadProofBuilder \<Rightarrow> WorkerThreadProofBuilder" where
  "failAll err b = b\<lparr>wt_settled := wt_settled b @ map (\<lambda>t. (t, Inl err)) (wt_pending b), wt_pending := []\<rparr>"

definition ensureWorker :: "WorkerThreadProofBuilder \<Rightarrow> nat \<times> WorkerThreadProofBuilder" where
  "ensureWorker b = (case wt_worker b of
       Some w \<Rightarrow> (w, b)
     | None \<Rightarrow> (wt_spawned b, b\<lparr>wt_worker := Some (wt_spawned b), wt_spawned := Suc (wt_spawned b)\<rparr>))"

definition wt_build :: "bytes list \<Rightarrow> int \<Rightarrow> V10MerkleCommitment \<Rightarrow> WorkerThreadProofBuilder \<Rightarrow> WorkerThreadProofBuilder" where
  "wt_build leaves chunkId expected b =
     (let (w, b1) = ensureWorker b; t = wt_nextTaskId b1 in
      b1\<lparr>wt_nextTaskId := Suc t, wt_pending := wt_pending b1 @ [t],
         wt_inbox := wt_inbox b1 @ [(w, \<lparr>br_taskId = t, br_leaves = leaves, br_chunkId = chunkId, br_expected = expected\<rparr>)]\<rparr>)"

definition settle :: "nat \<Rightarrow> RsError + V10ProofMaterial \<Rightarrow> WorkerThreadProofBuilder \<Rightarrow> WorkerThreadProofBuilder" where
  "settle t r b =
     (if t \<notin> set (wt_pending b) then b
      else b\<lparr>wt_pending := remove1 t (wt_pending b), wt_settled := wt_settled b @ [(t, r)]\<rparr>)"

fun onMessage :: "WorkerResponse \<Rightarrow> WorkerThreadProofBuilder \<Rightarrow> WorkerThreadProofBuilder" where
  "onMessage (WorkerResponseOk t m) b = settle t (Inr m) b"
| "onMessage (WorkerResponseErr t n msg fs) b = settle t (Inl (reconstructError n msg fs)) b"

definition onError :: "string \<Rightarrow> WorkerThreadProofBuilder \<Rightarrow> WorkerThreadProofBuilder" where
  "onError msg b = (failAll (WorkerCrashedError None (''worker error: '' @ msg)) b)\<lparr>wt_worker := None\<rparr>"

definition onExit :: "int \<Rightarrow> WorkerThreadProofBuilder \<Rightarrow> WorkerThreadProofBuilder" where
  "onExit exitCode b =
     (if exitCode \<noteq> 0
      then failAll (WorkerCrashedError (Some exitCode) (''worker exited with code '' @ show_int exitCode)) b else b)
     \<lparr>wt_worker := None\<rparr>"

text \<open>\<^verbatim>\<open>close\<close>: the tasks are refused, then the host waits for the worker to terminate and forgets it.\<close>

definition wt_close :: "WorkerThreadProofBuilder \<Rightarrow> WorkerThreadProofBuilder" where
  "wt_close b = (if wt_worker b = None then b else failAll (PlainError ''proof builder closed'') b)"

definition wt_terminated :: "WorkerThreadProofBuilder \<Rightarrow> WorkerThreadProofBuilder" where
  "wt_terminated b = b\<lparr>wt_worker := None\<rparr>"

section \<open>Steps\<close>

text \<open>What the threads and their events may do between two calls of \<^verbatim>\<open>build\<close>.\<close>

inductive wt_step :: "(bytes \<Rightarrow> bytes) \<Rightarrow> WorkerThreadProofBuilder \<Rightarrow> WorkerThreadProofBuilder \<Rightarrow> bool" for h where
  Answer: "wt_inbox b = xs @ (w, req) # ys \<Longrightarrow> w \<notin> fst ` set xs \<Longrightarrow>
    wt_step h b (b\<lparr>wt_inbox := xs @ ys, wt_outbox := wt_outbox b @ [(w, worker_entry h req)]\<rparr>)"
| Deliver: "wt_outbox b = xs @ (w, resp) # ys \<Longrightarrow> w \<notin> fst ` set xs \<Longrightarrow>
    wt_step h b (onMessage resp (b\<lparr>wt_outbox := xs @ ys\<rparr>))"
| Error: "wt_step h b (onError msg b)"
| Exit: "wt_step h b (onExit c b)"
| Close: "wt_step h b (wt_close b)"
| Terminated: "wt_step h b (wt_terminated b)"

definition request_of :: "WorkerThreadProofBuilder \<Rightarrow> bytes list \<Rightarrow> int \<Rightarrow> V10MerkleCommitment \<Rightarrow> BuildRequest" where
  "request_of b leaves k c = \<lparr>br_taskId = wt_nextTaskId b, br_leaves = leaves, br_chunkId = k, br_expected = c\<rparr>"

text \<open>The states a builder can be in, with the requests made so far.\<close>

inductive wt_reachable :: "(bytes \<Rightarrow> bytes) \<Rightarrow> BuildRequest list \<Rightarrow> WorkerThreadProofBuilder \<Rightarrow> bool" for h where
  New: "wt_reachable h [] wt_new"
| Build: "wt_reachable h reqs b \<Longrightarrow> wt_reachable h (reqs @ [request_of b leaves k c]) (wt_build leaves k c b)"
| Step: "wt_reachable h reqs b \<Longrightarrow> wt_step h b b' \<Longrightarrow> wt_reachable h reqs b'"

section \<open>Answers are those of the calling thread\<close>

definition crashed :: "RsError + V10ProofMaterial \<Rightarrow> bool" where
  "crashed r \<longleftrightarrow> (\<exists>c m. r = Inl (WorkerCrashedError c m)) \<or> r = Inl (PlainError ''proof builder closed'')"

definition wt_inv :: "(bytes \<Rightarrow> bytes) \<Rightarrow> BuildRequest list \<Rightarrow> WorkerThreadProofBuilder \<Rightarrow> bool" where
  "wt_inv h reqs b \<longleftrightarrow>
     map br_taskId reqs = [1..<wt_nextTaskId b] \<and> 1 \<le> wt_nextTaskId b
     \<and> distinct (wt_pending b @ map fst (wt_settled b))
     \<and> set (wt_pending b) \<union> fst ` set (wt_settled b) = br_taskId ` set reqs
     \<and> snd ` set (wt_inbox b) \<subseteq> set reqs
     \<and> snd ` set (wt_outbox b) \<subseteq> worker_entry h ` set reqs
     \<and> (\<forall>(t, r) \<in> set (wt_settled b). crashed r
          \<or> (\<exists>req \<in> set reqs. br_taskId req = t \<and> r = InProcess_build h (br_leaves req) (br_chunkId req) (br_expected req)))"

lemma buildV10_no_range: "buildV10ProofMaterial h leaves k c \<noteq> Inl (V10RangeError i)"
proof -
  let ?t = "V10MerkleTree_new h leaves"
  have "buildV10ProofMaterial h leaves k c \<noteq> Inl (V10RangeError i)"
    if "leafCount ?t = merkleLeafCount c" "root ?t = expectedRoot c" "0 \<le> k" "k < int (merkleLeafCount c)"
    using buildV10_Inr [OF that] by auto
  then show ?thesis by (auto simp: buildV10ProofMaterial_def Let_def split: if_splits)
qed

text \<open>What the host rebuilds from the worker's answer is what the calling thread would have got.\<close>

lemma onMessage_worker_entry:
  "onMessage (worker_entry h req) b
   = settle (br_taskId req) (InProcess_build h (br_leaves req) (br_chunkId req) (br_expected req)) b"
  using buildV10_no_range [of h "br_leaves req" "br_chunkId req" "br_expected req"]
  by (auto simp: worker_entry_def InProcess_build_def reconstructError_def split: sum.splits v10_proof_error.splits)

lemma wt_inv_new: "wt_inv h [] wt_new"
  by (simp add: wt_inv_def wt_new_def)

lemma wt_build_sel:
  "wt_nextTaskId (wt_build leaves k c b) = Suc (wt_nextTaskId b)"
  "wt_pending (wt_build leaves k c b) = wt_pending b @ [wt_nextTaskId b]"
  "wt_settled (wt_build leaves k c b) = wt_settled b"
  "wt_outbox (wt_build leaves k c b) = wt_outbox b"
  "\<exists>w. wt_inbox (wt_build leaves k c b) = wt_inbox b @ [(w, request_of b leaves k c)]"
  by (auto simp: wt_build_def ensureWorker_def request_of_def Let_def split: option.splits)

lemma wt_inv_build:
  assumes "wt_inv h reqs b"
  shows "wt_inv h (reqs @ [request_of b leaves k c]) (wt_build leaves k c b)"
proof -
  have id: "br_taskId (request_of b leaves k c) = wt_nextTaskId b" by (simp add: request_of_def)
  have "wt_nextTaskId b \<notin> set (wt_pending b) \<union> fst ` set (wt_settled b)"
    using assms by (simp add: wt_inv_def flip: set_map)
  moreover obtain w where "wt_inbox (wt_build leaves k c b) = wt_inbox b @ [(w, request_of b leaves k c)]"
    using wt_build_sel(5) by blast
  ultimately show ?thesis
    using assms unfolding wt_inv_def wt_build_sel(1-4) by (auto simp: id)
qed

lemma wt_inv_failAll: "wt_inv h reqs b \<Longrightarrow> crashed (Inl err) \<Longrightarrow> wt_inv h reqs (failAll err b)"
  by (auto simp: wt_inv_def failAll_def comp_def image_Un image_image Un_commute)

lemma wt_inv_worker [simp]: "wt_inv h reqs (b\<lparr>wt_worker := w\<rparr>) \<longleftrightarrow> wt_inv h reqs b"
  by (simp add: wt_inv_def)

lemma wt_inv_settle:
  assumes "wt_inv h reqs b" "req \<in> set reqs"
  shows "wt_inv h reqs (settle (br_taskId req) (InProcess_build h (br_leaves req) (br_chunkId req) (br_expected req)) b)"
proof (cases "br_taskId req \<in> set (wt_pending b)")
  case True
  have "distinct (wt_pending b)" using assms(1) by (simp add: wt_inv_def)
  then have "set (remove1 (br_taskId req) (wt_pending b)) = set (wt_pending b) - {br_taskId req}" by simp
  then show ?thesis using assms True by (auto simp: wt_inv_def settle_def)
qed (use assms in \<open>simp add: settle_def\<close>)

lemma wt_inv_step: "wt_step h b b' \<Longrightarrow> wt_inv h reqs b \<Longrightarrow> wt_inv h reqs b'"
proof (induction rule: wt_step.induct)
  case (Answer b xs w req ys)
  then show ?case by (auto simp: wt_inv_def)
next
  case (Deliver b xs w resp ys)
  then obtain req where req: "req \<in> set reqs" "resp = worker_entry h req" by (auto simp: wt_inv_def)
  have "wt_inv h reqs (b\<lparr>wt_outbox := xs @ ys\<rparr>)" using Deliver by (auto simp: wt_inv_def)
  then show ?case using req wt_inv_settle by (simp add: onMessage_worker_entry)
next
  case (Error b msg)
  then show ?case by (simp add: onError_def wt_inv_failAll crashed_def)
next
  case (Exit b c)
  then show ?case by (simp add: onExit_def wt_inv_failAll crashed_def)
next
  case (Close b)
  then show ?case by (simp add: wt_close_def wt_inv_failAll crashed_def)
next
  case (Terminated b)
  then show ?case by (simp add: wt_terminated_def)
qed

lemma wt_reachable_inv: "wt_reachable h reqs b \<Longrightarrow> wt_inv h reqs b"
  by (induction rule: wt_reachable.induct) (auto intro: wt_inv_new wt_inv_build wt_inv_step)

text \<open>
  The exit event of a worker that has already failed is handled like one of the current worker: a task
  posted to the worker spawned in between is refused, and that worker is forgotten while it runs.
\<close>

theorem exit_of_old_worker_fails_new_task:
  "let b1 = wt_build leaves k c (onError msg b); b2 = onExit 1 b1 in
     wt_worker b1 = Some (wt_spawned b)
     \<and> (wt_nextTaskId b, Inl (WorkerCrashedError (Some 1) ''worker exited with code 1'')) \<in> set (wt_settled b2)
     \<and> wt_worker b2 = None"
proof -
  have "show_int 1 = ''1''" by code_simp
  then show ?thesis by (simp add: wt_build_def ensureWorker_def onError_def onExit_def failAll_def Let_def)
qed

end
