(* ===== verification/RsLoop.thy ===== *)
theory RsLoop
  imports RsWorker
begin

text \<open>
  The loop around the prover, \<^verbatim>\<open>packages/random-sampling/src/prover-loop.ts\<close>, the single-flight guard of
  \<^verbatim>\<open>tick\<close> in \<^verbatim>\<open>prover.ts\<close>, and the binding to the agent, \<^verbatim>\<open>packages/agent/src/random-sampling-bind.ts\<close>. A run of
  \<^verbatim>\<open>runOnce\<close> is two steps, before and after it waits for the prover; timers and the wall clock are
  outside, so that any interleaving of timer ticks, \<^verbatim>\<open>stop\<close> and results is a run. The observer \<^verbatim>\<open>onTick\<close>,
  whose errors are swallowed, is left out.
\<close>

section \<open>One tick at a time\<close>

text \<open>\<^verbatim>\<open>tick\<close>: a call while a tick is in flight joins it; \<open>tg_runs\<close> counts the runs of \<^const>\<open>tickImpl\<close>.\<close>

record TickGate =
  tg_inflight :: bool
  tg_runs :: nat

definition tick_call :: "TickGate \<Rightarrow> TickGate" where
  "tick_call t = (if tg_inflight t then t else t\<lparr>tg_inflight := True, tg_runs := Suc (tg_runs t)\<rparr>)"

definition tick_settled :: "TickGate \<Rightarrow> TickGate" where
  "tick_settled t = t\<lparr>tg_inflight := False\<rparr>"

text \<open>Any number of calls while a tick runs start nothing new.\<close>

lemma tick_call_joins: "(tick_call ^^ Suc n) t = tick_call t"
  by (induction n) (simp_all add: tick_call_def)

definition prover_close :: "WorkerThreadProofBuilder \<times> FileProverWal \<Rightarrow> WorkerThreadProofBuilder \<times> FileProverWal" where
  "prover_close = (\<lambda>(b, w). (wt_terminated (wt_close b), file_close w))"

section \<open>The loop\<close>

record ProverLoop =
  pl_timer :: bool
  pl_started :: bool
  pl_stopping :: bool
  pl_inflight :: bool
  pl_totalTicks :: nat
  pl_lastTickAt :: "string option"
  pl_lastOutcome :: "TickOutcome option"
  pl_submittedCount :: nat
  pl_lastSubmittedTxHash :: "string option"
  pl_lastSubmittedAt :: "string option"
  pl_closed :: bool

definition startProverLoop :: ProverLoop where
  "startProverLoop = \<lparr>pl_timer = False, pl_started = False, pl_stopping = False, pl_inflight = False, pl_totalTicks = 0,
     pl_lastTickAt = None, pl_lastOutcome = None, pl_submittedCount = 0, pl_lastSubmittedTxHash = None,
     pl_lastSubmittedAt = None, pl_closed = False\<rparr>"

text \<open>The part of \<^verbatim>\<open>runOnce\<close> up to the call of \<^verbatim>\<open>tick\<close>, and what follows once it settled.\<close>

definition runOnce_begin :: "string \<Rightarrow> ProverLoop \<Rightarrow> ProverLoop" where
  "runOnce_begin now l =
     (if pl_inflight l \<or> pl_stopping l then l
      else l\<lparr>pl_inflight := True, pl_totalTicks := pl_totalTicks l + 1, pl_lastTickAt := Some now\<rparr>)"

definition runOnce_end :: "RsError + TickOutcome \<Rightarrow> ProverLoop \<Rightarrow> ProverLoop" where
  "runOnce_end result l =
     (case result of
        Inr outcome \<Rightarrow>
          (let l1 = l\<lparr>pl_lastOutcome := Some outcome\<rparr> in
           case outcome of
             Submitted txHash _ _ _ \<Rightarrow>
               l1\<lparr>pl_submittedCount := pl_submittedCount l1 + 1, pl_lastSubmittedTxHash := Some txHash,
                  pl_lastSubmittedAt := pl_lastTickAt l1\<rparr>
           | _ \<Rightarrow> l1)
      | Inl err \<Rightarrow> l\<lparr>pl_lastOutcome := Some (Tick_error err)\<rparr>)
     \<lparr>pl_inflight := False\<rparr>"

definition loop_start :: "string \<Rightarrow> ProverLoop \<Rightarrow> ProverLoop" where
  "loop_start now l =
     (if pl_started l \<or> pl_stopping l then l
      else (runOnce_begin now (l\<lparr>pl_started := True\<rparr>))\<lparr>pl_timer := True\<rparr>)"

text \<open>\<^verbatim>\<open>stop\<close> up to its wait, and the closing of the prover when the wait is over: when the tick settled,
  or at the deadline.\<close>

definition loop_stop :: "ProverLoop \<Rightarrow> ProverLoop" where
  "loop_stop l = (if pl_stopping l then l else l\<lparr>pl_stopping := True, pl_timer := False\<rparr>)"

definition loop_close :: "ProverLoop \<Rightarrow> ProverLoop" where
  "loop_close l = l\<lparr>pl_closed := True\<rparr>"

record ProverLoopStatus =
  ls_totalTicks :: nat
  ls_inflight :: bool
  ls_lastTickAt :: "string option"
  ls_lastOutcome :: "TickOutcome option"
  ls_submittedCount :: nat
  ls_lastSubmittedTxHash :: "string option"
  ls_lastSubmittedAt :: "string option"

definition loop_getStatus :: "ProverLoop \<Rightarrow> ProverLoopStatus" where
  "loop_getStatus l = \<lparr>ls_totalTicks = pl_totalTicks l, ls_inflight = pl_inflight l, ls_lastTickAt = pl_lastTickAt l,
     ls_lastOutcome = pl_lastOutcome l, ls_submittedCount = pl_submittedCount l,
     ls_lastSubmittedTxHash = pl_lastSubmittedTxHash l, ls_lastSubmittedAt = pl_lastSubmittedAt l\<rparr>"

section \<open>Binding to the agent\<close>

datatype AgentRole = Role_core | Role_edge

record RandomSamplingBindOptions =
  bo_role :: AgentRole
  bo_identityId :: nat
  bo_methods :: "string list"
  bo_ready :: "bool option"
  bo_walPath :: "string option"
  bo_useWorkerThread :: "bool option"

record RandomSamplingStatus =
  rss_enabled :: bool
  rss_role :: AgentRole
  rss_identityId :: string
  rss_loop :: "ProverLoopStatus option"

definition required_methods :: "string list" where
  "required_methods = [''getActiveProofPeriodStatus'', ''createChallenge'', ''submitProof'', ''getNodeChallenge'',
     ''getLatestMerkleRoot'', ''getMerkleLeafCount'', ''getKCContextGraphId'']"

text \<open>
  \<^verbatim>\<open>bindRandomSampling\<close>: whether the handle is a real one. \<open>bo_methods\<close> are the methods of the chain
  adapter, \<open>bo_ready\<close> the answer of \<^verbatim>\<open>isRandomSamplingReady\<close> when the adapter has it.
\<close>

definition bind_enabled :: "RandomSamplingBindOptions \<Rightarrow> bool" where
  "bind_enabled opts =
     (if bo_role opts \<noteq> Role_core \<or> bo_identityId opts = 0 then False
      else if filter (\<lambda>m. m \<notin> set (bo_methods opts)) required_methods \<noteq> [] then False
      else if bo_ready opts = Some False then False
      else True)"

definition bind_getStatus :: "RandomSamplingBindOptions \<Rightarrow> ProverLoop \<Rightarrow> RandomSamplingStatus" where
  "bind_getStatus opts l =
     (if bind_enabled opts
      then \<lparr>rss_enabled = True, rss_role = bo_role opts, rss_identityId = show_nat (bo_identityId opts),
            rss_loop = Some (loop_getStatus l)\<rparr>
      else \<lparr>rss_enabled = False, rss_role = bo_role opts, rss_identityId = show_nat (bo_identityId opts), rss_loop = None\<rparr>)"

definition bind_start :: "RandomSamplingBindOptions \<Rightarrow> string \<Rightarrow> ProverLoop \<Rightarrow> ProverLoop" where
  "bind_start opts now l = (if bind_enabled opts then loop_start now l else l)"

definition bind_stop :: "RandomSamplingBindOptions \<Rightarrow> ProverLoop \<Rightarrow> ProverLoop" where
  "bind_stop opts l = (if bind_enabled opts then loop_stop l else l)"

section \<open>Runs of the loop\<close>

text \<open>The states of a bound loop, with the results of the ticks that have settled, in order.\<close>

inductive loop_run :: "RandomSamplingBindOptions \<Rightarrow> (RsError + TickOutcome) list \<Rightarrow> ProverLoop \<Rightarrow> bool" for opts where
  Init: "loop_run opts [] startProverLoop"
| Start: "loop_run opts rs l \<Longrightarrow> loop_run opts rs (bind_start opts now l)"
| Timer: "loop_run opts rs l \<Longrightarrow> pl_timer l \<Longrightarrow> loop_run opts rs (runOnce_begin now l)"
| Settle: "loop_run opts rs l \<Longrightarrow> pl_inflight l \<Longrightarrow> loop_run opts (rs @ [r]) (runOnce_end r l)"
| Stop: "loop_run opts rs l \<Longrightarrow> loop_run opts rs (bind_stop opts l)"
| Close: "loop_run opts rs l \<Longrightarrow> pl_stopping l \<Longrightarrow> loop_run opts rs (loop_close l)"

fun submitted_tx :: "RsError + TickOutcome \<Rightarrow> string option" where
  "submitted_tx (Inr (Submitted tx _ _ _)) = Some tx"
| "submitted_tx _ = None"

fun outcome_of :: "RsError + TickOutcome \<Rightarrow> TickOutcome" where
  "outcome_of (Inr out) = out"
| "outcome_of (Inl e) = Tick_error e"

abbreviation submitted_txs :: "(RsError + TickOutcome) list \<Rightarrow> string list" where
  "submitted_txs rs \<equiv> List.map_filter submitted_tx rs"

definition loop_inv :: "RandomSamplingBindOptions \<Rightarrow> (RsError + TickOutcome) list \<Rightarrow> ProverLoop \<Rightarrow> bool" where
  "loop_inv opts rs l \<longleftrightarrow>
     pl_totalTicks l = length rs + (if pl_inflight l then 1 else 0)
     \<and> pl_lastOutcome l = (if rs = [] then None else Some (outcome_of (last rs)))
     \<and> pl_submittedCount l = length (submitted_txs rs)
     \<and> pl_lastSubmittedTxHash l = (if submitted_txs rs = [] then None else Some (last (submitted_txs rs)))
     \<and> (pl_inflight l \<or> pl_timer l \<or> rs \<noteq> [] \<longrightarrow> pl_started l)
     \<and> (pl_started l \<longrightarrow> bind_enabled opts)
     \<and> (pl_timer l \<longrightarrow> \<not> pl_stopping l)"

lemma map_filter_snoc [simp]: "List.map_filter f (xs @ [x]) = List.map_filter f xs @ (case f x of None \<Rightarrow> [] | Some y \<Rightarrow> [y])"
  by (simp add: List.map_filter_def split: option.splits)

lemma runOnce_end_inv: "loop_inv opts rs l \<Longrightarrow> pl_inflight l \<Longrightarrow> loop_inv opts (rs @ [r]) (runOnce_end r l)"
  by (auto simp: loop_inv_def runOnce_end_def Let_def split: sum.splits TickOutcome.splits)

lemma loop_run_inv: "loop_run opts rs l \<Longrightarrow> loop_inv opts rs l"
proof (induction rule: loop_run.induct)
  case (Settle rs l r)
  then show ?case by (simp add: runOnce_end_inv)
qed (auto simp: loop_inv_def startProverLoop_def bind_start_def loop_start_def runOnce_begin_def bind_stop_def
    loop_stop_def loop_close_def List.map_filter_def)

end
