(* ===== verification/PublishMetadata.thy ===== *)
theory PublishMetadata
  imports RsExtract
begin

text \<open>
  The metadata quads that a publisher writes for a knowledge collection and for shared memory,
  \<^verbatim>\<open>packages/publisher/src/metadata.ts\<close>, and what the two metadata queries of the random-sampling
  extractor see in them. A \<^verbatim>\<open>Date\<close> is its ISO text; the conversion of a block time in seconds is the
  parameter \<open>isoDate\<close>.
\<close>

section \<open>Literals and quads\<close>

definition RDF :: string where
  "RDF = ''http://www.w3.org/1999/02/22-rdf-syntax-ns#''"

definition mq :: "string \<Rightarrow> string \<Rightarrow> string \<Rightarrow> string \<Rightarrow> Quad" where
  "mq s p ob g = \<lparr>subject = s, predicate = p, object = ob, graph = g\<rparr>"

definition lit :: "string \<Rightarrow> string" where
  "lit val =
     [QUOTE] @ replace_char CR [BACKSLASH, CHR ''r'']
       (replace_char NL [BACKSLASH, CHR ''n'']
         (replace_char QUOTE [BACKSLASH, QUOTE]
           (replace_char BACKSLASH [BACKSLASH, BACKSLASH] val))) @ [QUOTE]"

definition intLit :: "nat \<Rightarrow> string" where
  "intLit val = [QUOTE] @ show_nat val @ [QUOTE] @ ''^^<'' @ XSD @ ''integer>''"

definition dateLit :: "string \<Rightarrow> string" where
  "dateLit d = [QUOTE] @ d @ [QUOTE] @ ''^^<'' @ XSD @ ''dateTime>''"

section \<open>Knowledge collections\<close>

record KCMetadata =
  km_ual :: string
  km_contextGraphId :: string
  km_merkleRoot :: bytes
  km_kaCount :: nat
  km_publisherPeerId :: string
  km_accessPolicy :: "AccessPolicy option"
  km_allowedPeers :: "string list option"
  km_timestamp :: string
  km_subGraphName :: "string option"

record KAMetadata =
  ka_rootEntity :: string
  ka_kcUal :: string
  ka_tokenId :: nat
  ka_publicTripleCount :: nat
  ka_privateTripleCount :: nat
  ka_privateMerkleRoot :: "bytes option"

record OnChainProvenance =
  pv_txHash :: string
  pv_blockNumber :: nat
  pv_blockTimestamp :: nat
  pv_publisherAddress :: string
  pv_batchId :: nat
  pv_chainId :: string

definition kcMetaGraph :: "string \<Rightarrow> string" where
  "kcMetaGraph cg = ''did:dkg:context-graph:'' @ cg @ ''/_meta''"

definition kaUri :: "KAMetadata \<Rightarrow> string" where
  "kaUri ka = ka_kcUal ka @ ''/'' @ show_nat (ka_tokenId ka)"

definition kaQuads :: "string \<Rightarrow> KAMetadata \<Rightarrow> Quad list" where
  "kaQuads metaGraph ka =
     [mq (kaUri ka) (RDF @ ''type'') (DKG @ ''KnowledgeAsset'') metaGraph,
      mq (kaUri ka) (DKG @ ''rootEntity'') (ka_rootEntity ka) metaGraph,
      mq (kaUri ka) (DKG @ ''partOf'') (ka_kcUal ka) metaGraph,
      mq (kaUri ka) (DKG @ ''tokenId'') (intLit (ka_tokenId ka)) metaGraph,
      mq (kaUri ka) (DKG @ ''publicTripleCount'') (intLit (ka_publicTripleCount ka)) metaGraph]
     @ (if ka_privateTripleCount ka > 0
        then [mq (kaUri ka) (DKG @ ''privateTripleCount'') (intLit (ka_privateTripleCount ka)) metaGraph]
             @ (case ka_privateMerkleRoot ka of
                  Some r \<Rightarrow> [mq (kaUri ka) (DKG @ ''privateMerkleRoot'') (lit (hex_bytes r)) metaGraph]
                | None \<Rightarrow> [])
        else [])"

text \<open>\<^verbatim>\<open>x || 'unknown'\<close>: the empty string counts as absent.\<close>

definition or_unknown :: "string \<Rightarrow> string" where
  "or_unknown s = (if s = [] then ''unknown'' else s)"

definition generateKCMetadata :: "KCMetadata \<Rightarrow> KAMetadata list \<Rightarrow> Quad list" where
  "generateKCMetadata meta kaEntries =
     (let g = kcMetaGraph (km_contextGraphId meta); u = km_ual meta in
      [mq u (RDF @ ''type'') (DKG @ ''KnowledgeCollection'') g,
       mq u (DKG @ ''merkleRoot'') (lit (hex_bytes (km_merkleRoot meta))) g,
       mq u (DKG @ ''kaCount'') (intLit (km_kaCount meta)) g,
       mq u (DKG @ ''accessPolicy'') (lit (case km_accessPolicy meta of None \<Rightarrow> ''public'' | Some a \<Rightarrow> policy_text a)) g,
       mq u (DKG @ ''publisherPeerId'') (lit (or_unknown (km_publisherPeerId meta))) g,
       mq u (PROV @ ''wasAttributedTo'') (lit (or_unknown (km_publisherPeerId meta))) g,
       mq u (DKG @ ''publishedAt'') (dateLit (km_timestamp meta)) g,
       mq u (DKG @ ''paranet'') (''did:dkg:context-graph:'' @ km_contextGraphId meta) g]
      @ (case km_subGraphName meta of
           Some s \<Rightarrow> if s = [] then [] else [mq u (DKG @ ''subGraphName'') (lit s) g]
         | None \<Rightarrow> [])
      @ (case km_allowedPeers meta of
           Some ps \<Rightarrow> map (\<lambda>p. mq u (DKG @ ''allowedPeer'') (lit p) g) ps
         | None \<Rightarrow> [])
      @ concat (map (kaQuads g) kaEntries))"

definition generateTentativeMetadata :: "KCMetadata \<Rightarrow> KAMetadata list \<Rightarrow> Quad list" where
  "generateTentativeMetadata meta kaEntries =
     generateKCMetadata meta kaEntries
     @ [mq (km_ual meta) (DKG @ ''status'') (lit ''tentative'') (kcMetaGraph (km_contextGraphId meta))]"

definition getTentativeStatusQuad :: "string \<Rightarrow> string \<Rightarrow> Quad" where
  "getTentativeStatusQuad u cg = mq u (DKG @ ''status'') (lit ''tentative'') (kcMetaGraph cg)"

definition getConfirmedStatusQuad :: "string \<Rightarrow> string \<Rightarrow> Quad" where
  "getConfirmedStatusQuad u cg = mq u (DKG @ ''status'') (lit ''confirmed'') (kcMetaGraph cg)"

definition generateConfirmedMetadata :: "(nat \<Rightarrow> string) \<Rightarrow> string \<Rightarrow> string \<Rightarrow> OnChainProvenance \<Rightarrow> Quad list" where
  "generateConfirmedMetadata isoDate u cg pv =
     (let g = kcMetaGraph cg in
      [mq u (DKG @ ''status'') (lit ''confirmed'') g,
       mq u (DKG @ ''transactionHash'') (lit (pv_txHash pv)) g,
       mq u (DKG @ ''blockNumber'') (intLit (pv_blockNumber pv)) g,
       mq u (DKG @ ''blockTimestamp'') (dateLit (isoDate (pv_blockTimestamp pv))) g,
       mq u (DKG @ ''publisherAddress'') (lit (pv_publisherAddress pv)) g,
       mq u (DKG @ ''batchId'') (intLit (pv_batchId pv)) g,
       mq u (DKG @ ''chainId'') (lit (pv_chainId pv)) g])"

definition generateConfirmedFullMetadata ::
  "(nat \<Rightarrow> string) \<Rightarrow> KCMetadata \<Rightarrow> KAMetadata list \<Rightarrow> OnChainProvenance \<Rightarrow> Quad list" where
  "generateConfirmedFullMetadata isoDate meta kaEntries pv =
     generateKCMetadata meta kaEntries @ generateConfirmedMetadata isoDate (km_ual meta) (km_contextGraphId meta) pv"

section \<open>Authorship, shares and ownership\<close>

record AuthorshipProof =
  au_kcUal :: string
  au_contextGraphId :: string
  au_agentAddress :: string
  au_signature :: string
  au_signedHash :: string

definition generateAuthorshipProof :: "AuthorshipProof \<Rightarrow> Quad list" where
  "generateAuthorshipProof pf =
     (let g = kcMetaGraph (au_contextGraphId pf);
          blankNode = ''_:authorship_'' @ map (\<lambda>c. if is_alpha c \<or> is_digit c then c else CHR ''_'') (au_kcUal pf) in
      [mq (au_kcUal pf) (DKG @ ''authoredBy'') blankNode g,
       mq blankNode (RDF @ ''type'') (DKG @ ''AuthorshipProof'') g,
       mq blankNode (DKG @ ''agent'') (''did:dkg:agent:'' @ au_agentAddress pf) g,
       mq blankNode (DKG @ ''signature'') (lit (au_signature pf)) g,
       mq blankNode (DKG @ ''signedHash'') (lit (au_signedHash pf)) g])"

record ShareTransitionMetadata =
  stm_contextGraphId :: string
  stm_operationId :: string
  stm_agentAddress :: string
  stm_assertionName :: string
  stm_entities :: "string list"
  stm_timestamp :: string

definition generateShareTransitionMetadata :: "ShareTransitionMetadata \<Rightarrow> Quad list" where
  "generateShareTransitionMetadata meta =
     (let g = ''did:dkg:context-graph:'' @ stm_contextGraphId meta @ ''/_shared_memory_meta'';
          s = ''urn:dkg:share:'' @ stm_operationId meta in
      [mq s (RDF @ ''type'') (DKG @ ''ShareTransition'') g,
       mq s (DKG @ ''source'') (lit (''assertion/'' @ stm_agentAddress meta @ ''/'' @ stm_assertionName meta)) g,
       mq s (DKG @ ''agent'') (''did:dkg:agent:'' @ stm_agentAddress meta) g,
       mq s (DKG @ ''timestamp'') (dateLit (stm_timestamp meta)) g]
      @ map (\<lambda>e. mq s (DKG @ ''entities'') e g) (stm_entities meta))"

record ShareMetadata =
  sm_shareOperationId :: string
  sm_contextGraphId :: string
  sm_rootEntities :: "string list"
  sm_publisherPeerId :: string
  sm_timestamp :: string

definition generateShareMetadata :: "ShareMetadata \<Rightarrow> string \<Rightarrow> Quad list" where
  "generateShareMetadata meta g =
     (let s = ''urn:dkg:share:'' @ sm_contextGraphId meta @ '':'' @ sm_shareOperationId meta in
      [mq s (RDF @ ''type'') (DKG @ ''WorkspaceOperation'') g,
       mq s (PROV @ ''wasAttributedTo'') (lit (sm_publisherPeerId meta)) g,
       mq s (DKG @ ''publishedAt'') (dateLit (sm_timestamp meta)) g]
      @ map (\<lambda>e. mq s (DKG @ ''rootEntity'') e g) (sm_rootEntities meta))"

definition generateOwnershipQuads :: "(string \<times> string) list \<Rightarrow> string \<Rightarrow> Quad list" where
  "generateOwnershipQuads entries g = map (\<lambda>(re, peer). mq re (DKG @ ''workspaceOwner'') (lit peer) g) entries"

section \<open>What the metadata queries find\<close>

text \<open>
  The solutions of the two queries over a list of quads, as SPARQL defines them: the subjects with the
  batch id, and for every part of the collection its root entity with the optional private root.
\<close>

definition objects_of :: "Quad list \<Rightarrow> string \<Rightarrow> string \<Rightarrow> string \<Rightarrow> string list" where
  "objects_of qs g s p = map object (filter (\<lambda>q. graph q = g \<and> subject q = s \<and> predicate q = p) qs)"

definition ual_rows :: "Quad list \<Rightarrow> string \<Rightarrow> nat \<Rightarrow> (string \<times> string) list list" where
  "ual_rows qs g kc = map (\<lambda>q. [(''ual'', subject q)])
     (filter (\<lambda>q. graph q = g \<and> predicate q = DKG @ ''batchId'' \<and> object q = intLit kc) qs)"

definition part_rows :: "Quad list \<Rightarrow> string \<Rightarrow> string \<Rightarrow> (string \<times> string) list list" where
  "part_rows qs g k = concat (map (\<lambda>re.
     (case objects_of qs g k (DKG @ ''privateMerkleRoot'') of
        [] \<Rightarrow> [[(''ka'', k), (''root'', re)]]
      | ps \<Rightarrow> map (\<lambda>p. [(''ka'', k), (''root'', re), (''privRoot'', p)]) ps)) (objects_of qs g k (DKG @ ''rootEntity'')))"

definition ka_rows :: "Quad list \<Rightarrow> string \<Rightarrow> string \<Rightarrow> (string \<times> string) list list" where
  "ka_rows qs g u = concat (map (\<lambda>q. part_rows qs g (subject q))
     (filter (\<lambda>q. graph q = g \<and> predicate q = DKG @ ''partOf'' \<and> object q = u) qs))"

text \<open>The publisher's metadata moved to the graph of the on-chain context graph, among other quads.\<close>

definition published :: "string \<Rightarrow> (nat \<Rightarrow> string) \<Rightarrow> KCMetadata \<Rightarrow> KAMetadata list \<Rightarrow> OnChainProvenance \<Rightarrow> Quad list" where
  "published g isoDate meta kas pv = map (\<lambda>q. q\<lparr>graph := g\<rparr>) (generateConfirmedFullMetadata isoDate meta kas pv)"

definition private_of :: "KAMetadata \<Rightarrow> bytes list" where
  "private_of ka = (if ka_privateTripleCount ka > 0 then (case ka_privateMerkleRoot ka of Some r \<Rightarrow> [r] | None \<Rightarrow> []) else [])"

definition ka_row :: "KAMetadata \<Rightarrow> (string \<times> string) list" where
  "ka_row ka = [(''ka'', kaUri ka), (''root'', ka_rootEntity ka)] @ map (\<lambda>r. (''privRoot'', lit (hex_bytes r))) (private_of ka)"

text \<open>Quads that do not touch the collection.\<close>

definition unrelated :: "string \<Rightarrow> KCMetadata \<Rightarrow> KAMetadata list \<Rightarrow> nat \<Rightarrow> Quad list \<Rightarrow> bool" where
  "unrelated g meta kas kc others \<longleftrightarrow> (\<forall>q \<in> set others. graph q = g \<longrightarrow>
     subject q \<notin> kaUri ` set kas \<and> (predicate q = DKG @ ''partOf'' \<longrightarrow> object q \<noteq> km_ual meta)
     \<and> (predicate q = DKG @ ''batchId'' \<longrightarrow> object q \<noteq> intLit kc))"

lemmas vocab = DKG_def RDF_def PROV_def

lemma predicates_differ [simp]:
  "RDF @ x \<noteq> DKG @ y" "PROV @ x \<noteq> DKG @ y"
  by (simp_all add: vocab)

lemma mq_sel [simp]:
  "subject (mq s p ob g) = s" "predicate (mq s p ob g) = p" "object (mq s p ob g) = ob" "graph (mq s p ob g) = g"
  "(mq s p ob g)\<lparr>graph := g'\<rparr> = mq s p ob g'"
  by (simp_all add: mq_def)

lemma map_kaQuads [simp]: "map (\<lambda>q. q\<lparr>graph := g\<rparr>) (kaQuads g0 ka) = kaQuads g ka"
  by (simp add: kaQuads_def split: option.splits)

text \<open>The quads about the collection itself, and those of its parts.\<close>

abbreviation moved :: "string \<Rightarrow> Quad list \<Rightarrow> Quad list" where
  "moved g \<equiv> map (\<lambda>q. q\<lparr>graph := g\<rparr>)"

lemma published_eq:
  "published g isoDate meta kas pv = moved g (generateKCMetadata meta []) @ concat (map (kaQuads g) kas)
     @ moved g (generateConfirmedMetadata isoDate (km_ual meta) (km_contextGraphId meta) pv)"
proof -
  have "moved g (concat (map (kaQuads g0) kas)) = concat (map (kaQuads g) kas)" for g0
    by (induction kas) simp_all
  then show ?thesis
    by (simp add: published_def generateConfirmedFullMetadata_def generateKCMetadata_def Let_def)
qed

lemma kc_quads:
  assumes "q \<in> set (moved g (generateKCMetadata meta []))
      \<union> set (moved g (generateConfirmedMetadata isoDate (km_ual meta) (km_contextGraphId meta) pv))"
  shows "subject q = km_ual meta" "predicate q \<noteq> DKG @ ''partOf''"
  using assms
  by (auto simp: generateKCMetadata_def generateConfirmedMetadata_def Let_def split: option.splits if_splits)

lemma filter_none: "(\<And>q. q \<in> set qs \<Longrightarrow> \<not> P q) \<Longrightarrow> filter P qs = []"
  by (simp add: filter_empty_conv)

lemma kaUri_not_ual: "kaUri ka \<noteq> ka_kcUal ka"
  by (simp add: kaUri_def)

lemma objects_of_append [simp]: "objects_of (xs @ ys) g s p = objects_of xs g s p @ objects_of ys g s p"
  by (simp add: objects_of_def)

lemma objects_of_none: "(\<And>q. q \<in> set qs \<Longrightarrow> graph q = g \<Longrightarrow> subject q \<noteq> s) \<Longrightarrow> objects_of qs g s p = []"
  by (auto simp: objects_of_def filter_empty_conv)

lemma kaQuads_subject: "q \<in> set (kaQuads g ka) \<Longrightarrow> subject q = kaUri ka"
  by (auto simp: kaQuads_def split: option.splits if_splits)

lemma objects_of_kaQuads:
  "objects_of (kaQuads g ka) g (kaUri ka) (DKG @ ''rootEntity'') = [ka_rootEntity ka]"
  "objects_of (kaQuads g ka) g (kaUri ka) (DKG @ ''privateMerkleRoot'') = map (\<lambda>r. lit (hex_bytes r)) (private_of ka)"
  by (simp_all add: objects_of_def kaQuads_def private_of_def split: option.splits)

lemma objects_of_parts:
  assumes "distinct (map kaUri kas)" "ka \<in> set kas"
  shows "objects_of (concat (map (kaQuads g) kas)) g (kaUri ka) p = objects_of (kaQuads g ka) g (kaUri ka) p"
  using assms
proof (induction kas)
  case (Cons k kas)
  have other: "objects_of (kaQuads g j) g (kaUri ka) p = []" if "kaUri j \<noteq> kaUri ka" for j
    using that by (intro objects_of_none) (auto dest: kaQuads_subject)
  show ?case
  proof (cases "ka = k")
    case True
    have "objects_of (concat (map (kaQuads g) kas)) g (kaUri k) p = []"
      using Cons.prems(1) by (intro objects_of_none) (auto dest!: kaQuads_subject)
    then show ?thesis using True by simp
  next
    case False
    then have "ka \<in> set kas" "kaUri k \<noteq> kaUri ka" using Cons.prems by auto
    then show ?thesis using Cons other by simp
  qed
qed simp

lemma objects_of_store:
  assumes "distinct (map kaUri kas)" "ka \<in> set kas" "ka_kcUal ka = km_ual meta" "unrelated g meta kas kc others"
  shows "objects_of (published g isoDate meta kas pv @ others) g (kaUri ka) p = objects_of (kaQuads g ka) g (kaUri ka) p"
proof -
  have "objects_of (moved g (generateKCMetadata meta [])) g (kaUri ka) p = []"
    "objects_of (moved g (generateConfirmedMetadata isoDate (km_ual meta) (km_contextGraphId meta) pv)) g (kaUri ka) p = []"
    using kc_quads(1) [of _ g meta isoDate pv] assms(3) kaUri_not_ual [of ka]
    by (intro objects_of_none; metis UnCI)+
  moreover have "objects_of others g (kaUri ka) p = []"
    using assms(2,4) by (intro objects_of_none) (auto simp: unrelated_def)
  ultimately show ?thesis using objects_of_parts [OF assms(1,2)] by (simp add: published_eq)
qed

text \<open>The listing of the parts finds every asset once, with its private root when it has one.\<close>

lemma ka_rows_published:
  assumes "distinct (map kaUri kas)" "\<forall>ka \<in> set kas. ka_kcUal ka = km_ual meta" "unrelated g meta kas kc others"
  shows "ka_rows (published g isoDate meta kas pv @ others) g (km_ual meta) = map ka_row kas"
proof -
  let ?P = "\<lambda>q. graph q = g \<and> predicate q = DKG @ ''partOf'' \<and> object q = km_ual meta"
  let ?part = "\<lambda>ka. mq (kaUri ka) (DKG @ ''partOf'') (km_ual meta) g"
  have part: "filter ?P (kaQuads g ka) = [?part ka]" if "ka \<in> set kas" for ka
    using that assms(2) by (simp add: kaQuads_def split: option.splits)
  have "filter ?P (concat (map (kaQuads g) kas)) = map ?part kas"
    using part by (induction kas) (auto simp: filter_concat)
  moreover have "filter ?P others = []" using assms(3) by (intro filter_none) (auto simp: unrelated_def)
  moreover have "filter ?P (moved g (generateKCMetadata meta [])) = []"
    "filter ?P (moved g (generateConfirmedMetadata isoDate (km_ual meta) (km_contextGraphId meta) pv)) = []"
    using kc_quads(2) [of _ g meta isoDate pv] by (intro filter_none; metis UnCI)+
  ultimately have parts: "filter ?P (published g isoDate meta kas pv @ others) = map ?part kas"
    by (simp add: published_eq)
  have "part_rows (published g isoDate meta kas pv @ others) g (kaUri ka) = [ka_row ka]" if "ka \<in> set kas" for ka
    using that assms objects_of_store [OF assms(1) that _ assms(3)]
    by (simp add: part_rows_def objects_of_kaQuads ka_row_def private_of_def split: option.splits)
  then have "map (\<lambda>ka. part_rows (published g isoDate meta kas pv @ others) g (kaUri ka)) kas = map (\<lambda>ka. [ka_row ka]) kas"
    by simp
  then show ?thesis unfolding ka_rows_def parts map_map comp_def mq_sel by (simp only: concat_map_singleton)
qed

lemma ual_rows_published:
  assumes "unrelated g meta kas (pv_batchId pv) others"
  shows "ual_rows (published g isoDate meta kas pv @ others) g (pv_batchId pv) = [[(''ual'', km_ual meta)]]"
proof -
  let ?P = "\<lambda>q. graph q = g \<and> predicate q = DKG @ ''batchId'' \<and> object q = intLit (pv_batchId pv)"
  have "filter ?P others = []" using assms by (intro filter_none) (auto simp: unrelated_def)
  moreover have "filter ?P (kaQuads g ka) = []" for ka
    by (simp add: kaQuads_def split: option.splits)
  then have "filter ?P (concat (map (kaQuads g) kas)) = []" by (induction kas) simp_all
  moreover have "filter ?P (moved g (generateKCMetadata meta [])) = []"
    by (intro filter_none) (auto simp: generateKCMetadata_def Let_def split: option.splits if_splits)
  moreover have "filter ?P (moved g (generateConfirmedMetadata isoDate (km_ual meta) (km_contextGraphId meta) pv))
      = [mq (km_ual meta) (DKG @ ''batchId'') (intLit (pv_batchId pv)) g]"
    by (simp add: generateConfirmedMetadata_def Let_def)
  ultimately show ?thesis by (simp add: ual_rows_def published_eq)
qed

section \<open>Reading private roots back\<close>

lemma is_hex_plain:
  "is_hex c \<Longrightarrow> c \<noteq> CHR ''-'' \<and> c \<noteq> CHR ''+'' \<and> c \<noteq> CHR ''x'' \<and> c \<noteq> CHR ''X'' \<and> \<not> is_space c
     \<and> c \<notin> {QUOTE, BACKSLASH, NL, CR}"
  by (auto simp: is_hex_def is_digit_def is_space_def Let_def)

lemma hex_digits_parse:
  assumes "m < 16" "n < 16"
  shows "parseInt16 [hex_digit m, hex_digit n] = Some (int (16 * m + n))"
  using is_hex_plain [of "hex_digit m"] is_hex_plain [of "hex_digit n"] hex_digit_hex [OF assms(1)] hex_digit_hex [OF assms(2)]
  by (auto simp: parseInt16_def startsWith_def Let_def)

lemma parseHexLoop_hex: "parseHexLoop x (hex_bytes bs) = Inr bs"
proof (induction bs)
  case (Cons b bs)
  have "(word_of_int (int (16 * (unat b div 16) + unat b mod 16)) :: byte) = b" by simp
  with Cons show ?case
    using hex_digits_parse [OF byte_nibbles, of b b] by (simp add: hex_bytes_Cons)
qed (simp add: hex_bytes_def)

lemma hex_bytes_hex: "c \<in> set (hex_bytes bs) \<Longrightarrow> is_hex c"
  using hex_digit_hex byte_nibbles by (auto simp: hex_bytes_def)

lemma length_hex_bytes [simp]: "length (hex_bytes bs) = 2 * length bs"
  by (induction bs) (simp_all add: hex_bytes_Cons, simp add: hex_bytes_def)

lemma parseHexBytes_hex: "bs \<noteq> [] \<Longrightarrow> parseHexBytes (hex_bytes bs) = Inr bs"
proof -
  assume "bs \<noteq> []"
  then have "hex_bytes bs \<noteq> []" by (cases bs) (simp_all add: hex_bytes_Cons)
  moreover have "\<not> startsWith (hex_bytes bs) ''0x''"
    using hex_bytes_hex [of "CHR ''x''" bs] is_hex_plain [of "CHR ''x''"] by (auto simp: startsWith_prefix prefix_def)
  ultimately show ?thesis by (simp add: parseHexBytes_def parseHexLoop_hex)
qed

lemma replace_char_id: "c \<notin> set s \<Longrightarrow> replace_char c r s = s"
  by (induction s) (auto simp: replace_char_Cons)

lemma lit_hex: "lit (hex_bytes r) = [QUOTE] @ hex_bytes r @ [QUOTE]"
proof -
  have "c \<notin> set (hex_bytes r)" if "c \<in> {QUOTE, BACKSLASH, NL, CR}" for c
    using that hex_bytes_hex is_hex_plain by blast
  then show ?thesis by (simp add: lit_def replace_char_id)
qed

lemma stripQuotes_lit_hex: "stripQuotes (lit (hex_bytes r)) = hex_bytes r"
  by (simp add: lit_hex stripQuotes_def endsWith_def startsWith_def)

end
