(* ===== verification/RsSynced.thy ===== *)
theory RsSynced
  imports RsProver PublishMetadata
begin

text \<open>
  From the publisher to the prover: the metadata of \<^theory_text>\<open>PublishMetadata\<close> read back by the extractor
  of \<^theory_text>\<open>RsExtract\<close>, and a tick of \<^theory_text>\<open>RsProver\<close> on a node that holds the published triples.
  What is assumed of the triple store is \<open>store_answers\<close>: it answers the four queries of the extraction
  over its quads the way SPARQL defines.
\<close>

section \<open>The store\<close>

definition in_scope :: "string \<Rightarrow> Quad \<Rightarrow> bool" where
  "in_scope re q \<longleftrightarrow> subject q = re \<or> startsWith (subject q) (re @ GENID_SEGMENT)"

definition store_answers :: "sparql_query \<Rightarrow> Quad list \<Rightarrow> nat \<Rightarrow> nat \<Rightarrow> string \<Rightarrow> string \<Rightarrow> string set \<Rightarrow> bool" where
  "store_answers query qs cgId kcId name u res \<longleftrightarrow>
     (let g = contextGraphMetaUri name (Some (show_nat cgId)); dg = contextGraphDataUri name (Some (show_nat cgId)) in
      query (cgNameQuery (show_nat cgId)) = Inr (Bindings [[(''cgUri'', CG_URI_PREFIX @ name)]])
      \<and> query (ualQuery g kcId) = Inr (Bindings (take 1 (ual_rows qs g kcId)))
      \<and> (\<exists>rows. query (kaQuery g u) = Inr (Bindings rows) \<and> mset rows = mset (ka_rows qs g u))
      \<and> (\<forall>re \<in> res. \<exists>rs. query (rootQuery dg re) = Inr (QuadsResult rs)
           \<and> triple_of ` set rs = triple_of ` {q \<in> set qs. graph q = dg \<and> in_scope re q}))"

text \<open>A context-graph name, and an IRI that the extractor takes.\<close>

definition plain_name :: "string \<Rightarrow> bool" where
  "plain_name n \<longleftrightarrow> n \<noteq> [] \<and> \<not> str_includes n ''/'' \<and> \<not> str_includes n '' ''"

definition plain_iri :: "string \<Rightarrow> bool" where
  "plain_iri u \<longleftrightarrow> u \<noteq> [] \<and> assertSafeIri u = Inr u"

section \<open>Reading the metadata\<close>

lemma stripQuotes_id: "\<not> startsWith v [QUOTE] \<Longrightarrow> stripQuotes v = v"
  by (simp add: stripQuotes_def split: option.splits)

lemma plain_iri_quote: "plain_iri u \<Longrightarrow> \<not> startsWith u [QUOTE]"
  by (cases u) (auto simp: plain_iri_def assertSafeIri_def startsWith_def unsafe_iri_char_def split: if_splits)

lemma stripQuotes_iri [simp]: "plain_iri u \<Longrightarrow> stripQuotes u = u"
  by (rule stripQuotes_id) (rule plain_iri_quote)

lemma binding_ka_row [simp]:
  "binding (ka_row ka) ''root'' = ka_rootEntity ka"
  "binding (ka_row ka) ''privRoot'' = (case private_of ka of [] \<Rightarrow> [] | r # _ \<Rightarrow> lit (hex_bytes r))"
  by (simp_all add: binding_def ka_row_def split: list.splits)

lemma private_of_cases: "private_of ka = [] \<or> (\<exists>r. private_of ka = [r])"
  by (simp add: private_of_def split: option.splits)

definition plain_ka :: "KAMetadata \<Rightarrow> bool" where
  "plain_ka ka \<longleftrightarrow> plain_iri (ka_rootEntity ka) \<and> [] \<notin> set (private_of ka)"

lemma kaRows_published:
  "\<forall>ka \<in> set kas. plain_ka ka \<Longrightarrow>
   \<exists>rts. kaRows (map ka_row kas) seen = Inr (rts, concat (map private_of kas))
     \<and> set rts = ka_rootEntity ` set kas - set seen"
proof (induction kas arbitrary: seen)
  case (Cons ka kas)
  let ?re = "ka_rootEntity ka"
  have re: "plain_iri ?re" "[] \<notin> set (private_of ka)" using Cons.prems by (simp_all add: plain_ka_def)
  have priv: "(if stripQuotes (binding (ka_row ka) ''privRoot'') = [] then Inr []
      else bindE (parseHexBytes (stripQuotes (binding (ka_row ka) ''privRoot''))) (\<lambda>b. Inr [b])) = Inr (private_of ka)"
  proof (cases "private_of ka")
    case (Cons r rs)
    then have "private_of ka = [r]" "r \<noteq> []" using private_of_cases [of ka] re(2) by auto
    then show ?thesis
      using parseHexBytes_hex [of r] by (simp add: stripQuotes_lit_hex) (auto simp: hex_bytes_Cons neq_Nil_conv)
  qed (simp add: stripQuotes_def startsWith_def)
  let ?seen = "if ?re \<notin> set seen then ?re # seen else seen"
  obtain rts where "kaRows (map ka_row kas) ?seen = Inr (rts, concat (map private_of kas))"
    "set rts = ka_rootEntity ` set kas - set ?seen"
    using Cons.IH [of ?seen] Cons.prems by auto
  then show ?case using re(1) priv
    by (intro exI [of _ "(if ?re \<notin> set seen then [?re] else []) @ rts"]) (auto simp: Let_def plain_iri_def)
qed simp

lemma js_sort_map: "js_sort cmp (map f xs) = map f (js_sort (\<lambda>a b. cmp (f a) (f b)) xs)"
proof -
  have "js_insert cmp (f x) (map f ys) = map f (js_insert (\<lambda>a b. cmp (f a) (f b)) x ys)" for x ys
    by (induction ys) auto
  then show ?thesis by (induction xs) simp_all
qed

lemma mset_map_split: "mset rows = image_mset f M \<Longrightarrow> \<exists>ys. rows = map f ys \<and> mset ys = M"
proof (induction rows arbitrary: M)
  case (Cons r rows)
  then obtain a M1 where "M = add_mset a M1" "f a = r" "image_mset f M1 = mset rows"
    by (metis msed_map_invR mset.simps(2))
  with Cons.IH [of M1] show ?case by (metis list.simps(9) mset.simps(2))
qed simp

lemma kaRows_sorted:
  assumes "\<forall>ka \<in> set kas. plain_ka ka" "mset rows = mset (map ka_row kas)"
  shows "\<exists>rts privs. kaRows (js_sort cmp rows) [] = Inr (rts, privs)
    \<and> set rts = ka_rootEntity ` set kas \<and> set privs = set (concat (map private_of kas))"
proof -
  obtain kas1 where kas1: "rows = map ka_row kas1" "mset kas1 = mset kas"
    using mset_map_split [of rows ka_row "mset kas"] assms(2) by auto
  then obtain kas2 where kas2: "js_sort cmp rows = map ka_row kas2" "mset kas2 = mset kas"
    by (metis js_sort_map mset_js_sort)
  then have "set kas2 = set kas" by (metis set_mset_mset)
  with kaRows_published [of kas2 "[]"] assms(1) kas2(1) show ?thesis by auto
qed

lemma rootTriples_scope:
  assumes "\<forall>re \<in> set rts. \<exists>rs. query (rootQuery dg re) = Inr (QuadsResult rs) \<and> triple_of ` set rs = T re"
  shows "\<exists>ts. rootTriples query dg rts = Inr ts \<and> set ts = (\<Union>re \<in> set rts. T re)"
  using assms
proof (induction rts)
  case (Cons re rts)
  then obtain ts rs where "rootTriples query dg rts = Inr ts" "set ts = (\<Union>re \<in> set rts. T re)"
    "query (rootQuery dg re) = Inr (QuadsResult rs)" "triple_of ` set rs = T re" by auto
  then show ?case by simp
qed simp

section \<open>Extraction on a synced node\<close>

text \<open>
  What a synced node holds: the published metadata among unrelated quads, assets that can be queried,
  and at least the public triples \<open>pub\<close> under the roots of the collection.
\<close>

definition synced ::
  "Quad list \<Rightarrow> nat \<Rightarrow> string \<Rightarrow> (nat \<Rightarrow> string) \<Rightarrow> KCMetadata \<Rightarrow> KAMetadata list \<Rightarrow> OnChainProvenance \<Rightarrow> Quad list \<Rightarrow> bool" where
  "synced qs cgId name isoDate meta kas pv pub \<longleftrightarrow>
     (let g = contextGraphMetaUri name (Some (show_nat cgId)); dg = contextGraphDataUri name (Some (show_nat cgId)) in
      plain_name name \<and> plain_iri (km_ual meta) \<and> kas \<noteq> []
      \<and> list_all (\<lambda>ka. plain_ka ka \<and> ka_kcUal ka = km_ual meta) kas \<and> distinct (map ka_tokenId kas)
      \<and> (\<exists>others. qs = published g isoDate meta kas pv @ others \<and> unrelated g meta kas (pv_batchId pv) others)
      \<and> pub \<noteq> []
      \<and> triple_of ` set pub = triple_of ` {q \<in> set qs. graph q = dg \<and> (\<exists>ka \<in> set kas. in_scope (ka_rootEntity ka) q)})"

lemma distinct_kaUris:
  assumes "distinct (map ka_tokenId kas)" "\<forall>ka \<in> set kas. ka_kcUal ka = u"
  shows "distinct (map kaUri kas)"
proof -
  have "ka_tokenId a = ka_tokenId b" if "a \<in> set kas" "b \<in> set kas" "kaUri a = kaUri b" for a b
  proof -
    have "ka_kcUal a = u" "ka_kcUal b = u" using that(1,2) assms(2) by blast+
    then show ?thesis using that(3) by (simp add: kaUri_def)
  qed
  then show ?thesis using assms(1) unfolding distinct_map inj_on_def by metis
qed

lemma resolve_name:
  assumes "query (cgNameQuery i) = Inr (Bindings [[(''cgUri'', CG_URI_PREFIX @ name)]])" "plain_name name"
  shows "resolveContextGraphNameFromOnChainId query i = Inr (Some name)"
proof -
  have "stripQuotes (CG_URI_PREFIX @ name) = CG_URI_PREFIX @ name"
    by (rule stripQuotes_id) (simp add: CG_URI_PREFIX_def)
  then show ?thesis
    using assms by (simp add: resolveContextGraphNameFromOnChainId_def binding_def plain_name_def)
qed

text \<open>An extraction whose four reads succeed.\<close>

lemma extract_run:
  assumes "resolveContextGraphNameFromOnChainId query (show_nat cgId) = Inr (Some name)" "plain_iri u"
    and "query (ualQuery (contextGraphMetaUri name (Some (show_nat cgId))) kc) = Inr (Bindings [[(''ual'', u)]])"
    and "query (kaQuery (contextGraphMetaUri name (Some (show_nat cgId))) u) = Inr (Bindings rows)" "rows \<noteq> []"
    and "kaRows (js_sort (\<lambda>a b. lc (binding a ''ka'') (binding b ''ka'')) rows) [] = Inr (rts, privs)" "rts \<noteq> []"
    and "rootTriples query (contextGraphDataUri name (Some (show_nat cgId))) rts = Inr ts" "ts \<noteq> []"
  shows "\<exists>r. extractV10KCFromStore h lc query cgId kc = Inr r \<and> ex_leaves r = map (tripleLeaf h) ts @ privs"
proof -
  have "binding [(''ual'', u)] ''ual'' = u" by (simp add: binding_def)
  then show ?thesis using assms by (simp add: extractV10KCFromStore_def Let_def plain_iri_def)
qed

lemma synced_rows:
  assumes "list_all (\<lambda>ka. plain_ka ka \<and> ka_kcUal ka = km_ual meta) kas" "distinct (map ka_tokenId kas)"
    and "qs = published g isoDate meta kas pv @ others" "unrelated g meta kas (pv_batchId pv) others"
  shows "ka_rows qs g (km_ual meta) = map ka_row kas" "ual_rows qs g (pv_batchId pv) = [[(''ual'', km_ual meta)]]"
proof -
  have k: "\<forall>ka \<in> set kas. ka_kcUal ka = km_ual meta" using assms(1) by (simp add: list_all_iff)
  show "ka_rows qs g (km_ual meta) = map ka_row kas"
    unfolding assms(3) by (rule ka_rows_published [OF distinct_kaUris [OF assms(2) k] k assms(4)])
  show "ual_rows qs g (pv_batchId pv) = [[(''ual'', km_ual meta)]]"
    unfolding assms(3) by (rule ual_rows_published [OF assms(4)])
qed

theorem extract_synced:
  assumes sync: "synced qs cgId name isoDate meta kas pv pub"
    and store: "store_answers query qs cgId (pv_batchId pv) name (km_ual meta) (ka_rootEntity ` set kas)"
  shows "\<exists>r. extractV10KCFromStore h lc query cgId (pv_batchId pv) = Inr r
    \<and> set (ex_leaves r) = set (flatLeavesV10 h pub (concat (map private_of kas)))"
proof -
  let ?g = "contextGraphMetaUri name (Some (show_nat cgId))" and ?dg = "contextGraphDataUri name (Some (show_nat cgId))"
  let ?T = "\<lambda>re. triple_of ` {q \<in> set qs. graph q = ?dg \<and> in_scope re q}"
  obtain others where s: "plain_name name" "plain_iri (km_ual meta)" "kas \<noteq> []" "\<forall>ka \<in> set kas. plain_ka ka" "pub \<noteq> []"
    and rows: "ka_rows qs ?g (km_ual meta) = map ka_row kas" "ual_rows qs ?g (pv_batchId pv) = [[(''ual'', km_ual meta)]]"
    and pub: "triple_of ` set pub = triple_of ` {q \<in> set qs. graph q = ?dg \<and> (\<exists>ka \<in> set kas. in_scope (ka_rootEntity ka) q)}"
    using sync synced_rows by (auto simp: synced_def Let_def list_all_iff)
  obtain krows where q: "query (cgNameQuery (show_nat cgId)) = Inr (Bindings [[(''cgUri'', CG_URI_PREFIX @ name)]])"
    "query (ualQuery ?g (pv_batchId pv)) = Inr (Bindings [[(''ual'', km_ual meta)]])"
    "query (kaQuery ?g (km_ual meta)) = Inr (Bindings krows)" "mset krows = mset (map ka_row kas)"
    and T: "\<forall>re \<in> ka_rootEntity ` set kas. \<exists>rs. query (rootQuery ?dg re) = Inr (QuadsResult rs) \<and> triple_of ` set rs = ?T re"
    using store by (auto simp: store_answers_def Let_def rows)
  obtain rts privs where k: "kaRows (js_sort (\<lambda>a b. lc (binding a ''ka'') (binding b ''ka'')) krows) [] = Inr (rts, privs)"
    "set rts = ka_rootEntity ` set kas" "set privs = set (concat (map private_of kas))"
    using kaRows_sorted [OF s(4) q(4)] by blast
  obtain ts where ts: "rootTriples query ?dg rts = Inr ts" "set ts = (\<Union>re \<in> set rts. ?T re)"
    using rootTriples_scope [of rts query ?dg ?T] T k(2) by auto
  have ts_pub: "set ts = triple_of ` set pub" unfolding ts(2) k(2) pub by auto
  have ne: "krows \<noteq> []" "rts \<noteq> []" "ts \<noteq> []" using q(4) s(3,5) k(2) ts_pub by auto
  have "tripleLeaf h (triple_of q) = computeTripleHashV10 h q" for q
    by (simp add: tripleLeaf_def triple_of_def computeTripleHashV10_def)
  then have "set (map (tripleLeaf h) ts @ privs) = set (flatLeavesV10 h pub (concat (map private_of kas)))"
    using ts_pub k(3) by (simp add: flatLeavesV10_def image_image)
  then show ?thesis
    using extract_run [OF _ s(2) q(2,3) ne(1) k(1) ne(2) ts(1) ne(3)]
      resolve_name [of query "show_nat cgId" name, OF q(1) s(1)] by metis
qed

end
