(* ===== verification/RsProperties.thy ===== *)
theory RsProperties
  imports RsLoop RsSynced
begin

text \<open>
  The properties of the random-sampling prover: what it submits, that a synced node answers its
  challenge, what it records, what a restarted node reads back, and that the worker thread, the loop
  and the agent binding change nothing of it.
\<close>

section \<open>A synced node\<close>

text \<open>
  The chain during a tick in which this node has an open challenge for the published collection: the
  challenge belongs to the current period, the commitment is the publisher's, and a proof that passes
  the verifier is accepted.
\<close>

definition challenged ::
  "RsChain \<Rightarrow> nat \<Rightarrow> NodeChallenge \<Rightarrow> nat \<Rightarrow> (bytes \<Rightarrow> bytes) \<Rightarrow> Quad list \<Rightarrow> bytes list \<Rightarrow> string \<Rightarrow> bool" where
  "challenged chain me ch cgId h pub privs tx \<longleftrightarrow>
     has_methods chain
     \<and> (\<exists>st. getActiveProofPeriodStatus chain = Inr st \<and> ps_activeProofPeriodStartBlock st = activeProofPeriodStartBlock ch)
     \<and> getNodeChallenge chain me = Inr (Some ch) \<and> \<not> solved ch
     \<and> getKCContextGraphId chain (knowledgeCollectionId ch) = Inr cgId \<and> cgId \<noteq> 0
     \<and> getLatestMerkleRoot chain (knowledgeCollectionId ch) = Inr (computeFlatKCRootV10 h pub privs)
     \<and> getMerkleLeafCount chain (knowledgeCollectionId ch) = Inr (computeFlatKCMerkleLeafCountV10 h pub privs)
     \<and> nc_chunkId ch < computeFlatKCMerkleLeafCountV10 h pub privs
     \<and> (\<forall>lf sib. verify h (computeFlatKCRootV10 h pub privs) lf sib (int (nc_chunkId ch)) \<longrightarrow> submitProof chain lf sib = Inr tx)"

lemma wal_append_memory:
  "rs_append p = memory_append \<Longrightarrow> wal_append p e s = (Inr (), s\<lparr>rs_wal := rs_wal s @ [e]\<rparr>)"
  by (simp add: wal_append_def memory_append_def op_simps)

lemma tick_prove_submits_proof:
  assumes p: "rs_append p = memory_append" "rs_build p = InProcess_build h" "rs_hash p = h"
    and ch: "challenged chain (rs_identityId p) ch cgId h pub privs tx"
    and ex: "extractV10KCFromStore h (rs_localeCompare p) (rs_query p) cgId (knowledgeCollectionId ch) = Inr r"
      "set (ex_leaves r) = set (flatLeavesV10 h pub privs)"
  shows "fst (tick_prove p now chain ch cgId s) = Inr (Submitted tx (knowledgeCollectionId ch) cgId (nc_chunkId ch))"
proof -
  let ?c = "\<lparr>expectedRoot = computeFlatKCRootV10 h pub privs, merkleLeafCount = computeFlatKCMerkleLeafCountV10 h pub privs\<rparr>"
  obtain m where m: "InProcess_build h (ex_leaves r) (int (nc_chunkId ch)) ?c = Inr m"
    using ip.build_committed [OF ex(2), of "int (nc_chunkId ch)"] ch by (auto simp: challenged_def)
  then have "submitProof chain (leaf m) (proof_siblings m) = Inr tx"
    using ip.build_verify [OF m] ch by (simp add: challenged_def)
  with m ch ex(1) show ?thesis
    by (simp add: tick_prove_def tick_build_def tick_submit_def call_submit_def wal_append_memory [OF p(1)] p(2,3)
        challenged_def op_simps Let_def)
qed

text \<open>
  C2. A synced node answers its challenge. When the store of a node holds the metadata and the public
  triples of a published collection, answers SPARQL queries over them, and the chain has an open
  challenge of this node for the collection with the publisher's commitment, then one tick extracts
  the leaves, builds the proof for the challenged chunk, submits it and reports the transaction.
\<close>

theorem synced_node_answers_challenge:
  assumes "synced qs cgId name isoDate meta kas pv pub"
    and "store_answers (rs_query p) qs cgId (pv_batchId pv) name (km_ual meta) (ka_rootEntity ` set kas)"
    and "challenged chain (rs_identityId p) ch cgId h pub (concat (map private_of kas)) tx"
    and "knowledgeCollectionId ch = pv_batchId pv"
    and "rs_append p = memory_append" "rs_build p = InProcess_build h" "rs_hash p = h"
  shows "fst (tickImpl p now chain s) = Inr (Submitted tx (pv_batchId pv) cgId (nc_chunkId ch))"
proof -
  obtain r where r: "extractV10KCFromStore h (rs_localeCompare p) (rs_query p) cgId (knowledgeCollectionId ch) = Inr r"
    "set (ex_leaves r) = set (flatLeavesV10 h pub (concat (map private_of kas)))"
    using extract_synced [OF assms(1,2)] assms(4) by metis
  then have "fst (tick_prove p now chain ch cgId s) = Inr (Submitted tx (pv_batchId pv) cgId (nc_chunkId ch))" for s
    using tick_prove_submits_proof [OF assms(5-7,3)] assms(4) by simp
  then show ?thesis using assms(3)
    by (auto simp: tickImpl_def tick_challenge_def challenged_def op_simps Let_def)
qed

text \<open>A published collection with one asset, a node that holds it and a chain that challenges the node.\<close>

definition sample_ka :: KAMetadata where
  "sample_ka = \<lparr>ka_rootEntity = ''u:a'', ka_kcUal = ''did:u'', ka_tokenId = 1, ka_publicTripleCount = 2,
     ka_privateTripleCount = 1, ka_privateMerkleRoot = Some zero32\<rparr>"

definition sample_meta :: KCMetadata where
  "sample_meta = \<lparr>km_ual = ''did:u'', km_contextGraphId = ''c'', km_merkleRoot = zero32, km_kaCount = 1,
     km_publisherPeerId = ''peer'', km_accessPolicy = None, km_allowedPeers = None, km_timestamp = ''2026'', km_subGraphName = None\<rparr>"

definition sample_pv :: OnChainProvenance where
  "sample_pv = \<lparr>pv_txHash = ''0xab'', pv_blockNumber = 9, pv_blockTimestamp = 1, pv_publisherAddress = ''0xcd'',
     pv_batchId = 5, pv_chainId = ''31337''\<rparr>"

definition sample_pub :: "Quad list" where
  "sample_pub =
     [mq ''u:a'' ''u:p'' ''u:b'' (contextGraphDataUri ''c'' (Some ''7'')),
      mq ''u:a/.well-known/genid/x'' ''u:p'' ''u:c'' (contextGraphDataUri ''c'' (Some ''7''))]"

definition sample_store :: "Quad list" where
  "sample_store = published (contextGraphMetaUri ''c'' (Some ''7'')) (\<lambda>_. ''1970'') sample_meta [sample_ka] sample_pv @ sample_pub"

definition sample_query :: sparql_query where
  "sample_query t =
     (if t = cgNameQuery ''7'' then Inr (Bindings [[(''cgUri'', CG_URI_PREFIX @ ''c'')]])
      else if t = ualQuery (contextGraphMetaUri ''c'' (Some ''7'')) 5 then Inr (Bindings [[(''ual'', ''did:u'')]])
      else if t = kaQuery (contextGraphMetaUri ''c'' (Some ''7'')) ''did:u'' then Inr (Bindings [ka_row sample_ka])
      else if t = rootQuery (contextGraphDataUri ''c'' (Some ''7'')) ''u:a'' then Inr (QuadsResult sample_pub)
      else Inl ''no answer'')"

definition sample_challenge :: NodeChallenge where
  "sample_challenge = \<lparr>knowledgeCollectionId = 5, nc_chunkId = 1, knowledgeCollectionStorageContract = ''0x00'', nc_epoch = 3,
     activeProofPeriodStartBlock = 100, proofingPeriodDurationInBlocks = 50, solved = False\<rparr>"

definition sample_chain :: RsChain where
  "sample_chain = \<lparr>has_methods = True,
     getActiveProofPeriodStatus = Inr \<lparr>ps_activeProofPeriodStartBlock = 100, ps_isValid = True\<rparr>,
     getNodeChallenge = (\<lambda>_. Inr (Some sample_challenge)), getBlockNumber = Some (Inr 120),
     createChallenge = Inl NoEligibleContextGraphError, getKCContextGraphId = (\<lambda>_. Inr 7),
     getLatestMerkleRoot = (\<lambda>_. Inr (computeFlatKCRootV10 pad32 sample_pub [zero32])),
     getMerkleLeafCount = (\<lambda>_. Inr (computeFlatKCMerkleLeafCountV10 pad32 sample_pub [zero32])),
     submitProof = (\<lambda>_ _. Inr ''0xtx'')\<rparr>"

definition sample_prover :: "ProverWalEntry list RandomSamplingProver" where
  "sample_prover = \<lparr>rs_identityId = 2, rs_build = InProcess_build pad32, rs_append = memory_append,
     rs_query = sample_query, rs_hash = pad32, rs_localeCompare = (\<lambda>_ _. 0)\<rparr>"

lemma show_nat_7: "show_nat 7 = ''7''" by code_simp

lemma sample_queries_differ:
  "ualQuery g k \<noteq> cgNameQuery i" "kaQuery g u \<noteq> cgNameQuery i" "kaQuery g u \<noteq> ualQuery g' k"
  "rootQuery d r \<noteq> cgNameQuery i" "rootQuery d r \<noteq> ualQuery g' k" "rootQuery d r \<noteq> kaQuery g' u"
  by (simp_all add: ualQuery_def cgNameQuery_def kaQuery_def rootQuery_def)

lemma sample_data:
  "filter (\<lambda>q. graph q = contextGraphDataUri ''c'' (Some ''7'') \<and> in_scope ''u:a'' q) sample_store = sample_pub"
  by code_simp

lemma sample_data_set:
  "{q \<in> set sample_store. graph q = contextGraphDataUri ''c'' (Some ''7'') \<and> in_scope ''u:a'' q} = set sample_pub"
  by (metis sample_data set_filter)

lemma sample_synced: "synced sample_store 7 ''c'' (\<lambda>_. ''1970'') sample_meta [sample_ka] sample_pv sample_pub"
proof -
  have "plain_name ''c''" "plain_iri (km_ual sample_meta)" "plain_ka sample_ka" "ka_kcUal sample_ka = km_ual sample_meta"
    "ka_rootEntity sample_ka = ''u:a''" "sample_pub \<noteq> []"
    by code_simp+
  moreover have "contextGraphDataUri ''c'' (Some ''7'') \<noteq> contextGraphMetaUri ''c'' (Some ''7'')" by code_simp
  then have "unrelated (contextGraphMetaUri ''c'' (Some ''7'')) sample_meta [sample_ka] (pv_batchId sample_pv) sample_pub"
    by (simp add: unrelated_def sample_pub_def)
  then have "\<exists>others. sample_store = published (contextGraphMetaUri ''c'' (Some ''7'')) (\<lambda>_. ''1970'') sample_meta [sample_ka] sample_pv @ others
      \<and> unrelated (contextGraphMetaUri ''c'' (Some ''7'')) sample_meta [sample_ka] (pv_batchId sample_pv) others"
    using sample_store_def by blast
  ultimately show ?thesis
    unfolding synced_def Let_def show_nat_7 using sample_data_set by simp
qed

lemma sample_store_answers: "store_answers sample_query sample_store 7 5 ''c'' ''did:u'' {''u:a''}"
proof -
  let ?g = "contextGraphMetaUri ''c'' (Some ''7'')"
  have "ual_rows sample_store ?g 5 = [[(''ual'', ''did:u'')]]" by code_simp
  moreover have "ka_rows sample_store ?g ''did:u'' = [ka_row sample_ka]" by code_simp
  ultimately show ?thesis
    unfolding store_answers_def Let_def show_nat_7
    by (simp add: sample_query_def sample_queries_differ sample_data_set)
qed

lemma sample_challenged: "challenged sample_chain 2 sample_challenge 7 pad32 sample_pub [zero32] ''0xtx''"
proof -
  have "(1 :: nat) < computeFlatKCMerkleLeafCountV10 pad32 sample_pub [zero32]" by code_simp
  then show ?thesis by (simp add: challenged_def sample_chain_def sample_challenge_def)
qed

theorem synced_node_answers_challenge_witness:
  "fst (tickImpl sample_prover (\<lambda>_. ''2026'') sample_chain \<lparr>rs_wal = [], rs_submits = [], rs_creates = 0\<rparr>)
   = Inr (Submitted ''0xtx'' 5 7 1)"
proof -
  have "pv_batchId sample_pv = 5" "km_ual sample_meta = ''did:u''" "ka_rootEntity sample_ka = ''u:a''"
    "private_of sample_ka = [zero32]" "nc_chunkId sample_challenge = 1" "knowledgeCollectionId sample_challenge = 5"
    "rs_query sample_prover = sample_query" "rs_identityId sample_prover = 2"
    by (simp_all add: sample_pv_def sample_meta_def sample_ka_def private_of_def sample_challenge_def sample_prover_def)
  then show ?thesis
    using synced_node_answers_challenge [OF sample_synced, of sample_prover sample_chain sample_challenge pad32 "''0xtx''"]
      sample_store_answers sample_challenged
    by (simp add: sample_prover_def)
qed

section \<open>What a tick submits and records\<close>

text \<open>
  C10. A tick submits at most one proof, and never a wrong one: whatever the chain, the store and the log
  answer, a submitted leaf and its siblings verify at the challenged chunk against the root that the
  chain gave for the challenged collection, with the chunk below the leaf count the chain gave; the
  challenge is the node's own unsolved one or the one the tick created.
\<close>

theorem submitted_proofs_verify:
  assumes "rs_build p = InProcess_build h"
  shows "rs_submits (snd (tickImpl p now chain s)) = rs_submits s
    \<or> (\<exists>ch cgId rt n lf sib. tick_target p chain ch cgId
        \<and> getLatestMerkleRoot chain (knowledgeCollectionId ch) = Inr rt
        \<and> getMerkleLeafCount chain (knowledgeCollectionId ch) = Inr n \<and> nc_chunkId ch < n
        \<and> verify h rt lf sib (int (nc_chunkId ch))
        \<and> rs_submits (snd (tickImpl p now chain s)) = rs_submits s @ [(lf, sib)])"
proof -
  let ?P = "\<lambda>m. \<exists>ch cgId rt n. tick_target p chain ch cgId
      \<and> getLatestMerkleRoot chain (knowledgeCollectionId ch) = Inr rt
      \<and> getMerkleLeafCount chain (knowledgeCollectionId ch) = Inr n \<and> nc_chunkId ch < n
      \<and> verify h rt (leaf m) (proof_siblings m) (int (nc_chunkId ch))"
  have "may_submit ?P (tick_prove p now chain ch cg)" if "tick_target p chain ch cg" for ch cg
    using that assms ip.build_verify [of h] ip.build_sound [of h]
    by (intro tick_prove_submits) (fastforce intro!: exI)
  then have "may_submit ?P (tickImpl p now chain)" by (rule tickImpl_submits)
  then show ?thesis unfolding may_submit_def by blast
qed

theorem submitted_proofs_verify_witness:
  "rs_submits (snd (tickImpl sample_prover (\<lambda>_. ''2026'') sample_chain \<lparr>rs_wal = [], rs_submits = [], rs_creates = 0\<rparr>)) = []
    \<or> (\<exists>ch cgId rt n lf sib. tick_target sample_prover sample_chain ch cgId
        \<and> getLatestMerkleRoot sample_chain (knowledgeCollectionId ch) = Inr rt
        \<and> getMerkleLeafCount sample_chain (knowledgeCollectionId ch) = Inr n \<and> nc_chunkId ch < n
        \<and> verify pad32 rt lf sib (int (nc_chunkId ch))
        \<and> rs_submits (snd (tickImpl sample_prover (\<lambda>_. ''2026'') sample_chain \<lparr>rs_wal = [], rs_submits = [], rs_creates = 0\<rparr>))
            = [(lf, sib)])"
  using submitted_proofs_verify [of sample_prover pad32 "\<lambda>_. ''2026''" sample_chain "\<lparr>rs_wal = [], rs_submits = [], rs_creates = 0\<rparr>"]
  by (simp add: sample_prover_def)

text \<open>
  C33. The log of a tick tells how it ended. Whatever the chain and the store answer and whichever
  writes fail, the entries a tick adds to the file-backed log carry one period of this node, their
  statuses are a sequence that the outcome allows (a submission is logged challenge, extracted,
  built, submitted, with its transaction; a tick that throws leaves a prefix of that), and no other
  entries are added.
\<close>

theorem tick_log_matches_outcome:
  assumes "rs_append p = file_append"
  shows "\<exists>es. fw_cache (rs_wal (snd (tickImpl p now chain s))) = fw_cache (rs_wal s) @ map entry_json es
    \<and> tick_logged p (fst (tickImpl p now chain s)) es"
  using fw.logs_tickImpl [OF assms, of now chain] unfolding logs_def by blast

definition sample_file_prover :: "FileProverWal RandomSamplingProver" where
  "sample_file_prover = \<lparr>rs_identityId = 2, rs_build = InProcess_build pad32, rs_append = file_append,
     rs_query = sample_query, rs_hash = pad32, rs_localeCompare = (\<lambda>_ _. 0)\<rparr>"

definition sample_file :: FileProverWal where
  "sample_file = \<lparr>fw_cache = [], fw_handle = True, fw_file = [], fw_io = [WriteOk, WriteFails 3 ''ENOSPC'']\<rparr>"

theorem tick_log_matches_outcome_witness:
  "\<exists>es. fw_cache (rs_wal (snd (tickImpl sample_file_prover (\<lambda>_. ''2026'') sample_chain
      \<lparr>rs_wal = sample_file, rs_submits = [], rs_creates = 0\<rparr>))) = map entry_json es
    \<and> tick_logged sample_file_prover (fst (tickImpl sample_file_prover (\<lambda>_. ''2026'') sample_chain
        \<lparr>rs_wal = sample_file, rs_submits = [], rs_creates = 0\<rparr>)) es"
  using tick_log_matches_outcome [of sample_file_prover "\<lambda>_. ''2026''" sample_chain "\<lparr>rs_wal = sample_file, rs_submits = [], rs_creates = 0\<rparr>"]
  by (simp add: sample_file_prover_def sample_file_def)

section \<open>Restart\<close>

text \<open>
  C27. The log survives a crash. When entries have been appended to a new file and one more append ends
  in any way (it succeeds, the write stops anywhere inside the line, or the sync fails), reopening the
  file gives the earlier entries, followed by the last one exactly when its text reached the file
  completely; after a successful append it always does, and the reopened log equals the one in memory.
\<close>

theorem wal_survives_crash:
  assumes "FileProverWal_open None Enoent None io = Inr w0"
    and "forM es file_append w0 = (Inr (), w1)" and "file_append e w1 = (r, w2)"
    and "FileProverWal_open None (FileText (fw_file w2)) None io' = Inr w3"
  shows "fw_cache w3 = map entry_json
      (if prefix (concat (map wal_line es) @ stringify (entry_json e)) (fw_file w2) then es @ [e] else es)
    \<and> (r = Inr () \<longrightarrow> fw_cache w3 = fw_cache w2)"
proof -
  have w0: "fw_file w0 = []" "fw_cache w0 = []" using assms(1) by (auto simp: FileProverWal_open_def)
  have w1: "fw_file w1 = concat (map wal_line es)" "fw_cache w1 = map entry_json es"
    using appends_file [OF assms(2)] fw.appends_readAll [OF assms(2)] w0 by auto
  obtain k where k: "fw_file w2 = concat (map wal_line es) @ take k (wal_line e)"
    "r = Inr () \<longrightarrow> fw_cache w2 = map entry_json (es @ [e]) \<and> length (wal_line e) \<le> k"
    using assms(3)
  proof (rule file_append_cases)
    assume "fw_cache w2 = fw_cache w1 @ [entry_json e]" "fw_file w2 = fw_file w1 @ wal_line e"
    then show thesis using that [of "length (wal_line e)"] w1 by simp
  next
    fix err k
    assume "r = Inl err" "fw_file w2 = fw_file w1 @ take k (wal_line e)"
    then show thesis using that [of k] w1 by simp
  qed
  have "prefix (stringify (entry_json e)) (take k (wal_line e)) \<longleftrightarrow> length (stringify (entry_json e)) \<le> k"
    by (auto simp: wal_line_def dest: prefix_length_le)
  with reopen_cache [of es k e] assms(4) k show ?thesis by (auto simp: wal_line_def)
qed

definition sample_entry :: "ProverPeriodStatus \<Rightarrow> ProverWalEntry" where
  "sample_entry st = makeWalEntry ''2026'' \<lparr>pk_epoch = 3, pk_periodStartBlock = 100, pk_identityId = 2\<rparr> st (Some ''5'') None None None None"

text \<open>The append of the sample stops after three characters.\<close>

theorem wal_survives_crash_witness:
  "\<exists>w1 w2 w3. forM [sample_entry Wal_challenge] file_append sample_file = (Inr (), w1)
     \<and> file_append (sample_entry Wal_failed) w1 = (Inl ''ENOSPC'', w2)
     \<and> FileProverWal_open None (FileText (fw_file w2)) None [] = Inr w3
     \<and> fw_cache w3 = [entry_json (sample_entry Wal_challenge)]"
proof -
  have w0: "FileProverWal_open None Enoent None [WriteOk, WriteFails 3 ''ENOSPC''] = Inr sample_file"
    by (simp add: FileProverWal_open_def sample_file_def)
  define w1 where "w1 = sample_file\<lparr>fw_file := wal_line (sample_entry Wal_challenge),
    fw_cache := [entry_json (sample_entry Wal_challenge)], fw_io := [WriteFails 3 ''ENOSPC'']\<rparr>"
  define w2 where "w2 = w1\<lparr>fw_file := fw_file w1 @ take 3 (wal_line (sample_entry Wal_failed)), fw_io := []\<rparr>"
  have run: "forM [sample_entry Wal_challenge] file_append sample_file = (Inr (), w1)"
    "file_append (sample_entry Wal_failed) w1 = (Inl ''ENOSPC'', w2)"
    by (simp_all add: w1_def w2_def sample_file_def file_append_def op_simps)
  obtain w3 where w3: "FileProverWal_open None (FileText (fw_file w2)) None [] = Inr w3"
    by (auto simp: FileProverWal_open_def)
  have "\<not> prefix (concat (map wal_line [sample_entry Wal_challenge]) @ stringify (entry_json (sample_entry Wal_failed))) (fw_file w2)"
  proof -
    have "length (stringify (entry_json (sample_entry Wal_failed))) > 3" by code_simp
    then show ?thesis by (auto simp: w2_def w1_def dest: prefix_length_le)
  qed
  then have "fw_cache w3 = [entry_json (sample_entry Wal_challenge)]"
    using wal_survives_crash [OF w0 run w3] by simp
  with run w3 show ?thesis by blast
qed

text \<open>
  The comment on the log says that a partial last line is discarded, so that the log heals itself. The
  next append is written right after the partial line, though: on the next start the joined line is not
  JSON, and the entry, which the running node had confirmed as written, is lost.
\<close>

theorem append_after_torn_line_is_lost:
  "let torn = wal_line (sample_entry Wal_challenge) @ take 20 (wal_line (sample_entry Wal_extracted));
       w = \<lparr>fw_cache = load_entries torn, fw_handle = True, fw_file = torn, fw_io = []\<rparr>;
       (r, w') = file_append (sample_entry Wal_submitted) w
   in r = Inr () \<and> fw_cache w' = [entry_json (sample_entry Wal_challenge), entry_json (sample_entry Wal_submitted)]
      \<and> load_entries (fw_file w') = [entry_json (sample_entry Wal_challenge)]"
  by code_simp

section \<open>Worker thread and loop\<close>

text \<open>
  C26. The worker thread answers like the calling thread. In every state that requests, answers, crashes,
  exits and closings can lead to, each request is pending or its promise has been settled exactly once,
  either with what the in-process builder returns or throws for it (named errors included), or with a
  crash or closing error.
\<close>

theorem worker_answers_like_calling_thread:
  assumes "wt_reachable h reqs b" and "req \<in> set reqs"
  shows "br_taskId req \<in> set (wt_pending b) \<and> br_taskId req \<notin> fst ` set (wt_settled b)
    \<or> (\<exists>!r. (br_taskId req, r) \<in> set (wt_settled b))
        \<and> (\<forall>r. (br_taskId req, r) \<in> set (wt_settled b) \<longrightarrow>
             crashed r \<or> r = InProcess_build h (br_leaves req) (br_chunkId req) (br_expected req))"
proof -
  have inv: "wt_inv h reqs b" using assms(1) by (rule wt_reachable_inv)
  then have "distinct (map br_taskId reqs)" by (simp add: wt_inv_def)
  then have unique: "req' = req" if "req' \<in> set reqs" "br_taskId req' = br_taskId req" for req'
    using that assms(2) by (meson distinct_map inj_onD)
  have once: "\<exists>!r. (t, r) \<in> set (wt_settled b)" if "t \<in> fst ` set (wt_settled b)" for t
  proof -
    have "distinct (map fst (wt_settled b))" using inv by (simp add: wt_inv_def)
    then show ?thesis using that by (auto dest: eq_key_imp_eq_value)
  qed
  have "crashed r \<or> r = InProcess_build h (br_leaves req) (br_chunkId req) (br_expected req)"
    if "(br_taskId req, r) \<in> set (wt_settled b)" for r
    using that inv unique by (fastforce simp: wt_inv_def)
  moreover have "br_taskId req \<in> set (wt_pending b) \<union> fst ` set (wt_settled b)"
    "set (wt_pending b) \<inter> fst ` set (wt_settled b) = {}"
    using inv assms(2) by (auto simp: wt_inv_def)
  ultimately show ?thesis using once [of "br_taskId req"] by blast
qed

definition sample_commitment :: V10MerkleCommitment where
  "sample_commitment = \<lparr>expectedRoot = zero32, merkleLeafCount = 1\<rparr>"

theorem worker_answers_like_calling_thread_witness:
  "let b = wt_build [zero32] 0 sample_commitment wt_new; req = request_of wt_new [zero32] 0 sample_commitment in
     br_taskId req \<in> set (wt_pending b) \<and> br_taskId req \<notin> fst ` set (wt_settled b)
     \<or> (\<exists>!r. (br_taskId req, r) \<in> set (wt_settled b))
        \<and> (\<forall>r. (br_taskId req, r) \<in> set (wt_settled b) \<longrightarrow>
             crashed r \<or> r = InProcess_build pad32 (br_leaves req) (br_chunkId req) (br_expected req))"
  unfolding Let_def
proof (rule worker_answers_like_calling_thread)
  show "wt_reachable pad32 ([] @ [request_of wt_new [zero32] 0 sample_commitment]) (wt_build [zero32] 0 sample_commitment wt_new)"
    by (intro wt_reachable.Build wt_reachable.New)
qed simp

text \<open>
  The status of the loop is exact, and only an eligible node proves. In every interleaving of
  starts, timer ticks, stops and results, the status counts the settled ticks and the one in flight, the
  last outcome and the submitted transactions of exactly those ticks; ticks run one at a time, and only
  on a core node with an identity and a chain adapter that supports the protocol.
\<close>

theorem loop_status_exact:
  assumes "loop_run opts rs l"
  shows "ls_totalTicks (loop_getStatus l) = length rs + (if ls_inflight (loop_getStatus l) then 1 else 0)
    \<and> ls_lastOutcome (loop_getStatus l) = (if rs = [] then None else Some (outcome_of (last rs)))
    \<and> ls_submittedCount (loop_getStatus l) = length (submitted_txs rs)
    \<and> ls_lastSubmittedTxHash (loop_getStatus l) = (if submitted_txs rs = [] then None else Some (last (submitted_txs rs)))
    \<and> (0 < ls_totalTicks (loop_getStatus l) \<longrightarrow>
         bo_role opts = Role_core \<and> 0 < bo_identityId opts \<and> set required_methods \<subseteq> set (bo_methods opts) \<and> bo_ready opts \<noteq> Some False)"
proof -
  have inv: "loop_inv opts rs l" using assms by (rule loop_run_inv)
  have "bind_enabled opts" if "0 < pl_totalTicks l" using that inv by (auto simp: loop_inv_def split: if_splits)
  then show ?thesis
    using inv by (auto simp: loop_inv_def loop_getStatus_def bind_enabled_def filter_empty_conv split: if_splits)
qed

definition sample_opts :: RandomSamplingBindOptions where
  "sample_opts = \<lparr>bo_role = Role_core, bo_identityId = 2, bo_methods = required_methods, bo_ready = Some True,
     bo_walPath = None, bo_useWorkerThread = None\<rparr>"

theorem loop_status_exact_witness:
  "ls_totalTicks (loop_getStatus (runOnce_end (Inr (Submitted ''0xtx'' 5 7 1)) (bind_start sample_opts ''2026'' startProverLoop))) = 1
   \<and> ls_lastSubmittedTxHash (loop_getStatus (runOnce_end (Inr (Submitted ''0xtx'' 5 7 1)) (bind_start sample_opts ''2026'' startProverLoop)))
     = Some ''0xtx''"
proof -
  let ?l = "bind_start sample_opts ''2026'' startProverLoop" and ?r = "Inr (Submitted ''0xtx'' 5 7 1)"
  have "loop_run sample_opts [] ?l" by (intro loop_run.Start loop_run.Init)
  moreover have "pl_inflight ?l" by code_simp
  ultimately have "loop_run sample_opts ([] @ [?r]) (runOnce_end ?r ?l)" by (rule loop_run.Settle)
  from loop_status_exact [OF this] show ?thesis
    by (simp add: List.map_filter_def loop_getStatus_def runOnce_end_def)
qed

end
