(* ===== verification/CclEval.thy ===== *)
theory CclEval
  imports JsonText
begin

text \<open>
  The policy language CCL: \<^verbatim>\<open>packages/agent/src/ccl-evaluator.ts\<close>, with its specification
  \<^verbatim>\<open>ccl_v0_1/LANGUAGE_SPEC.md\<close>. Values are what a YAML document or a JSON text can hold; arrays and
  objects carry their identity, which is what \<^verbatim>\<open>===\<close> compares. Numbers are integers (below ten to the
  power 21, where their text is their decimal notation), infinities and NaN; dates are left out. The
  validation of a policy works on such values; the evaluator works on the declared types of the
  source, to which \<open>policy_of\<close> brings a value. A list that is absent is the empty list, as every use
  of it reads \<^verbatim>\<open>?? []\<close>.
\<close>

section \<open>Values\<close>

datatype Val =
    VUndef | VNull | VBool bool | VNum int | VNaN | VInf bool | VStr string
  | VArr nat "Val list" | VObj nat "(string \<times> Val) list"

fun truthy :: "Val \<Rightarrow> bool" where
  "truthy VUndef = False"
| "truthy VNull = False"
| "truthy VNaN = False"
| "truthy (VBool b) = b"
| "truthy (VNum n) = (n \<noteq> 0)"
| "truthy (VStr s) = (s \<noteq> [])"
| "truthy _ = True"

fun nullish :: "Val \<Rightarrow> bool" where
  "nullish VUndef = True"
| "nullish VNull = True"
| "nullish _ = False"

fun strict_eq :: "Val \<Rightarrow> Val \<Rightarrow> bool" where
  "strict_eq VNaN _ = False"
| "strict_eq (VArr i _) (VArr j _) = (i = j)"
| "strict_eq (VObj i _) (VObj j _) = (i = j)"
| "strict_eq v w = (v = w)"

text \<open>\<^verbatim>\<open>JSON.stringify\<close> of a value inside an array: what has no JSON text is \<^verbatim>\<open>null\<close>, and a member without one is skipped.\<close>

fun json_of :: "Val \<Rightarrow> JValue" where
  "json_of (VBool b) = JVbool b"
| "json_of (VNum n) = JVnum (show_int n)"
| "json_of (VStr s) = JVstr s"
| "json_of (VArr _ vs) = JVarr (map json_of vs)"
| "json_of (VObj _ kvs) = JVobj (map (\<lambda>(k, v). (k, json_of v)) (filter (\<lambda>(k, v). v \<noteq> VUndef) kvs))"
| "json_of _ = JVnull"

definition isVar :: "Val \<Rightarrow> bool" where
  "isVar v = (case v of VStr s \<Rightarrow> startsWith s ''$'' | _ \<Rightarrow> False)"

definition normalizeVarName :: "string \<Rightarrow> string" where
  "normalizeVarName s = (if startsWith s ''$'' then s else CHR ''$'' # s)"

definition tupleKey :: "Val list \<Rightarrow> string" where
  "tupleKey t = stringify (JVarr (map json_of t))"

definition compareTuples :: "(string \<Rightarrow> string \<Rightarrow> int) \<Rightarrow> Val list \<Rightarrow> Val list \<Rightarrow> int" where
  "compareTuples loc l r = loc (tupleKey l) (tupleKey r)"

section \<open>Policies\<close>

datatype CclCondition =
    CAtom string "Val list"
  | CExists "CclCondition list"
  | CNotExists "CclCondition list"
  | CCount "string list" "CclCondition list" string int

record CclEntry =
  e_name :: string
  e_params :: "string list"
  e_all :: "CclCondition list"

record CclCanonicalPolicy =
  p_policy :: string
  p_version :: string
  p_rules :: "CclEntry list"
  p_decisions :: "CclEntry list"

type_synonym CclFactTuple = "string \<times> Val list"
type_synonym Binding = "string \<Rightarrow> Val option"
type_synonym relation = "(string \<times> Val list) list"
type_synonym relations = "string \<Rightarrow> relation"

record CclEvaluationResult =
  r_derived :: "(string \<times> Val list list) list"
  r_decisions :: "(string \<times> Val list list) list"

section \<open>Evaluation\<close>

text \<open>
  A relation is a \<^verbatim>\<open>Map\<close> from the key of a tuple to the tuple, in insertion order; a relation that was
  never asked for is empty, so creating it on demand changes nothing.
\<close>

definition add_tuple :: "Val list \<Rightarrow> relation \<Rightarrow> relation" where
  "add_tuple t r = AList.update (tupleKey t) t r"

definition load_fact :: "CclFactTuple \<Rightarrow> relations \<Rightarrow> relations" where
  "load_fact row R = R(fst row := add_tuple (snd row) (R (fst row)))"

definition load_facts :: "CclFactTuple list \<Rightarrow> relations" where
  "load_facts facts = fold load_fact facts (\<lambda>_. [])"

definition sortedTuples :: "(string \<Rightarrow> string \<Rightarrow> int) \<Rightarrow> relation \<Rightarrow> Val list list" where
  "sortedTuples loc r = js_sort (compareTuples loc) (map snd r)"

fun matchArgs :: "Val list \<Rightarrow> Val list \<Rightarrow> Binding \<Rightarrow> Binding option" where
  "matchArgs (a # as) (v # vs) b =
     (case a of
        VStr x \<Rightarrow>
          if startsWith x ''$'' then
            (case b x of
               Some w \<Rightarrow> if strict_eq w v then matchArgs as vs b else None
             | None \<Rightarrow> matchArgs as vs (b(x \<mapsto> v)))
          else if strict_eq a v then matchArgs as vs b else None
      | _ \<Rightarrow> if strict_eq a v then matchArgs as vs b else None)"
| "matchArgs [] [] b = Some b"
| "matchArgs _ _ b = None"

definition matchAtom :: "(string \<Rightarrow> string \<Rightarrow> int) \<Rightarrow> relations \<Rightarrow> string \<Rightarrow> Val list \<Rightarrow> Binding \<Rightarrow> Binding list" where
  "matchAtom loc R pred args b =
     List.map_filter (\<lambda>t. if length t \<noteq> length args then None else matchArgs args t b)
       (sortedTuples loc (R pred))"

definition compareInts :: "nat \<Rightarrow> string \<Rightarrow> int \<Rightarrow> string + bool" where
  "compareInts l op r =
     (if op = ''>='' then Inr (int l \<ge> r)
      else if op = ''>'' then Inr (int l > r)
      else if op = ''=='' then Inr (int l = r)
      else if op = ''<='' then Inr (int l \<le> r)
      else if op = ''<'' then Inr (int l < r)
      else Inl (''Unsupported CCL comparison operator: '' @ op))"

definition param_value :: "Binding \<Rightarrow> string \<Rightarrow> Val" where
  "param_value b x = (case b x of Some v \<Rightarrow> v | None \<Rightarrow> VUndef)"

fun pushAll :: "('b \<Rightarrow> 'e + 'c list) \<Rightarrow> 'b list \<Rightarrow> 'e + 'c list" where
  "pushAll f [] = Inr []"
| "pushAll f (b # bs) = bindE (f b) (\<lambda>xs. bindE (pushAll f bs) (\<lambda>ys. Inr (xs @ ys)))"

fun evaluateCondition :: "(string \<Rightarrow> string \<Rightarrow> int) \<Rightarrow> relations \<Rightarrow> CclCondition \<Rightarrow> Binding \<Rightarrow> string + Binding list"
  and evaluateConditions :: "(string \<Rightarrow> string \<Rightarrow> int) \<Rightarrow> relations \<Rightarrow> CclCondition list \<Rightarrow> Binding list \<Rightarrow> string + Binding list"
where
  "evaluateCondition loc R (CAtom pred args) b = Inr (matchAtom loc R pred args b)"
| "evaluateCondition loc R (CExists wh) b =
     bindE (evaluateConditions loc R wh [b]) (\<lambda>matches. Inr (if matches \<noteq> [] then [b] else []))"
| "evaluateCondition loc R (CNotExists wh) b =
     bindE (evaluateConditions loc R wh [b]) (\<lambda>matches. Inr (if matches = [] then [b] else []))"
| "evaluateCondition loc R (CCount vars wh op value) b =
     bindE (evaluateConditions loc R wh [b]) (\<lambda>matches.
       let projection = remdups (map (\<lambda>m. tupleKey (map (\<lambda>x. param_value m (normalizeVarName x)) vars)) matches)
       in bindE (compareInts (length projection) op value) (\<lambda>ok. Inr (if ok then [b] else [])))"
| "evaluateConditions loc R [] bs = Inr bs"
| "evaluateConditions loc R (c # cs) bs =
     bindE (pushAll (\<lambda>b. evaluateCondition loc R c b) bs) (\<lambda>next.
       if next = [] then Inr [] else evaluateConditions loc R cs next)"

definition evaluateEntry :: "(string \<Rightarrow> string \<Rightarrow> int) \<Rightarrow> relations \<Rightarrow> CclEntry \<Rightarrow> string + Val list list" where
  "evaluateEntry loc R e =
     bindE (evaluateConditions loc R (e_all e) [Map.empty]) (\<lambda>bs.
       Inr (sortedTuples loc
         (fold add_tuple (map (\<lambda>b. map (\<lambda>x. param_value b (normalizeVarName x)) (e_params e)) bs) [])))"

text \<open>One rule of a round: its tuples are computed first, then added; the flag says whether the relation grew.\<close>

definition apply_rule :: "(string \<Rightarrow> string \<Rightarrow> int) \<Rightarrow> CclEntry \<Rightarrow> relations \<times> bool \<Rightarrow> string + relations \<times> bool" where
  "apply_rule loc rule st = (case st of (R, changed) \<Rightarrow>
     bindE (evaluateEntry loc R rule) (\<lambda>ts.
       let new = fold add_tuple ts (R (e_name rule))
       in Inr (R(e_name rule := new), changed \<or> length new \<noteq> length (R (e_name rule)))))"

fun apply_rules :: "(string \<Rightarrow> string \<Rightarrow> int) \<Rightarrow> CclEntry list \<Rightarrow> relations \<times> bool \<Rightarrow> string + relations \<times> bool" where
  "apply_rules loc [] st = Inr st"
| "apply_rules loc (r # rs) st = bindE (apply_rule loc r st) (apply_rules loc rs)"

fun derive_rounds :: "nat \<Rightarrow> (string \<Rightarrow> string \<Rightarrow> int) \<Rightarrow> CclEntry list \<Rightarrow> relations \<Rightarrow> string + relations" where
  "derive_rounds 0 loc rules R = Inl ''CCL fixpoint did not converge''"
| "derive_rounds (Suc n) loc rules R =
     bindE (apply_rules loc rules (R, False)) (\<lambda>(R', changed).
       if changed then derive_rounds n loc rules R' else Inr R')"

definition deriveFixpoint :: "(string \<Rightarrow> string \<Rightarrow> int) \<Rightarrow> CclEntry list \<Rightarrow> relations \<Rightarrow> string + relations" where
  "deriveFixpoint loc rules R = derive_rounds 64 loc rules R"

fun evaluateDecisions ::
  "(string \<Rightarrow> string \<Rightarrow> int) \<Rightarrow> relations \<Rightarrow> CclEntry list \<Rightarrow> (string \<times> Val list list) list \<Rightarrow> string + (string \<times> Val list list) list" where
  "evaluateDecisions loc R [] acc = Inr acc"
| "evaluateDecisions loc R (d # ds) acc =
     bindE (evaluateEntry loc R d) (\<lambda>ts. evaluateDecisions loc R ds (AList.update (e_name d) ts acc))"

definition collect_derived :: "(string \<Rightarrow> string \<Rightarrow> int) \<Rightarrow> relations \<Rightarrow> CclEntry list \<Rightarrow> (string \<times> Val list list) list" where
  "collect_derived loc R rules =
     fold (\<lambda>r acc. AList.update (e_name r) (sortedTuples loc (R (e_name r))) acc) rules []"

definition ccl_run :: "(string \<Rightarrow> string \<Rightarrow> int) \<Rightarrow> CclCanonicalPolicy \<Rightarrow> CclFactTuple list \<Rightarrow> string + CclEvaluationResult" where
  "ccl_run loc policy facts =
     bindE (deriveFixpoint loc (p_rules policy) (load_facts facts)) (\<lambda>R.
     bindE (evaluateDecisions loc R (p_decisions policy) []) (\<lambda>decisions.
       Inr \<lparr>r_derived = collect_derived loc R (p_rules policy), r_decisions = decisions\<rparr>))"

definition hashCclFacts :: "(string \<Rightarrow> string \<Rightarrow> int) \<Rightarrow> (bytes \<Rightarrow> bytes) \<Rightarrow> CclFactTuple list \<Rightarrow> string" where
  "hashCclFacts loc sha facts =
     ''sha256:'' @ hex_bytes (sha (utf8 (stringify
       (JVarr (map (\<lambda>t. JVarr (map json_of t))
         (js_sort (compareTuples loc) (map (\<lambda>(p, as). VStr p # as) facts)))))))"

end
