(* ===== verification/CclSemantics.thy ===== *)
theory CclSemantics
  imports CclEval
begin

text \<open>
  What a policy means, over sets of tuples, and that the evaluator of \<^theory_text>\<open>CclEval\<close> computes it. The
  meaning of a condition is the set of extensions of a binding that satisfy it; a rule adds the heads
  of its solutions. The results are for facts made of scalars (null, booleans, numbers, strings),
  whose JSON text is unique; an array or an object compares by identity and has no unique text.
\<close>

section \<open>Keys of tuples\<close>

fun scalar :: "Val \<Rightarrow> bool" where
  "scalar VNull = True"
| "scalar (VBool _) = True"
| "scalar (VNum _) = True"
| "scalar (VStr _) = True"
| "scalar _ = False"

definition num_char :: "char \<Rightarrow> bool" where
  "num_char c \<longleftrightarrow> c = CHR ''-'' \<or> is_digit c"

fun jplain :: "JValue \<Rightarrow> bool" where
  "jplain (JVnum t) = (t \<noteq> [] \<and> list_all num_char t)"
| "jplain (JVarr vs) = list_all jplain vs"
| "jplain (JVobj _) = False"
| "jplain _ = True"

definition delimited :: "string \<Rightarrow> bool" where
  "delimited s \<longleftrightarrow> s = [] \<or> hd s \<in> {CHR '','', CHR '']''}"

lemma delimited_simps [simp]: "delimited []" "delimited (CHR '','' # s)" "delimited (CHR '']'' # s)"
  by (simp_all add: delimited_def)

lemma num_char_not [simp]:
  "\<not> num_char (CHR '','')" "\<not> num_char (CHR '']'')" "\<not> num_char (CHR ''['')" "\<not> num_char QUOTE"
  "\<not> num_char (CHR ''n'')" "\<not> num_char (CHR ''t'')" "\<not> num_char (CHR ''f'')"
  by (simp_all add: num_char_def is_digit_def)

lemma takeWhile_num: "list_all num_char x \<Longrightarrow> delimited y \<Longrightarrow> takeWhile num_char (x @ y) = x"
  by (induction x) (cases y; auto simp: delimited_def)+

lemma num_span:
  assumes "t @ s = u @ r" "list_all num_char t" "list_all num_char u" "delimited s" "delimited r"
  shows "t = u \<and> s = r"
proof -
  have "t = u" using takeWhile_num [OF assms(2,4)] takeWhile_num [OF assms(3,5)] assms(1) by simp
  then show ?thesis using assms(1) by simp
qed

text \<open>The first character tells the kind of a value.\<close>

fun jkind :: "JValue \<Rightarrow> char" where
  "jkind JVnull = CHR ''n''"
| "jkind (JVbool b) = (if b then CHR ''t'' else CHR ''f'')"
| "jkind (JVnum _) = CHR ''0''"
| "jkind (JVstr _) = QUOTE"
| "jkind (JVarr _) = CHR ''[''"
| "jkind (JVobj _) = CHR ''{''"

definition kind_of_char :: "char \<Rightarrow> char" where
  "kind_of_char c = (if num_char c then CHR ''0'' else c)"

lemma stringify_kind: "jplain j \<Longrightarrow> stringify j \<noteq> [] \<and> kind_of_char (hd (stringify j)) = jkind j"
proof (cases j)
  case (JVnum t)
  assume "jplain j"
  then show ?thesis using JVnum by (cases t) (auto simp: kind_of_char_def)
qed (auto simp: json_string_def kind_of_char_def)

lemma same_kind:
  assumes "stringify j @ s = stringify k @ r" "jplain j" "jplain k" shows "jkind j = jkind k"
  using stringify_kind [OF assms(2)] stringify_kind [OF assms(3)] assms(1) by (metis hd_append2)

lemma stringify_not_close: "jplain j \<Longrightarrow> stringify j @ s \<noteq> CHR '']'' # r"
proof
  assume "jplain j" "stringify j @ s = CHR '']'' # r"
  then have "kind_of_char (CHR '']'') = jkind j" using stringify_kind by (metis hd_append2 list.sel(1))
  then show False by (cases j) (auto simp: kind_of_char_def split: if_splits)
qed

lemma json_string_span:
  assumes "json_string x @ s = json_string y @ r" shows "x = y \<and> s = r"
proof -
  have "concat (map json_char x) @ QUOTE # s = concat (map json_char y) @ QUOTE # r"
    using assms by (simp add: json_string_append)
  then have "json_str (concat (map json_char x) @ QUOTE # s) = json_str (concat (map json_char y) @ QUOTE # r)" by simp
  then show ?thesis by (simp add: json_str_chars)
qed

fun elems_rest :: "string list \<Rightarrow> string \<Rightarrow> string" where
  "elems_rest [] s = CHR '']'' # s"
| "elems_rest (x # xs) s = CHR '','' # x @ elems_rest xs s"

lemma delimited_rest [simp]: "delimited (elems_rest xs s)"
  by (cases xs) auto

lemma join_rest: "join_with '','' (x # xs) @ CHR '']'' # s = x @ elems_rest xs s"
  by (induction xs arbitrary: x) auto

lemma join_not_close:
  "list_all jplain xs \<Longrightarrow> xs \<noteq> [] \<Longrightarrow> join_with '','' (map stringify xs) @ CHR '']'' # s \<noteq> CHR '']'' # r"
  using join_rest [of "stringify (hd xs)" "map stringify (tl xs)" s] by (cases xs) (auto simp: stringify_not_close)

text \<open>The text of a value and what follows it can be told apart.\<close>

lemma rest_span:
  assumes "\<And>x k s r. x \<in> set xs \<Longrightarrow> stringify x @ s = stringify k @ r \<Longrightarrow> jplain x \<Longrightarrow> jplain k \<Longrightarrow>
      delimited s \<Longrightarrow> delimited r \<Longrightarrow> x = k \<and> s = r"
    and "elems_rest (map stringify xs) s = elems_rest (map stringify ys) r" "list_all jplain xs" "list_all jplain ys"
  shows "xs = ys \<and> s = r"
  using assms
proof (induction xs arbitrary: ys)
  case Nil
  then show ?case by (cases ys) auto
next
  case (Cons x xs)
  from Cons.prems(2) obtain y ys' where ys: "ys = y # ys'" by (cases ys) auto
  have eq: "stringify x @ elems_rest (map stringify xs) s = stringify y @ elems_rest (map stringify ys') r"
    using Cons.prems(2) ys by simp
  have "x = y \<and> elems_rest (map stringify xs) s = elems_rest (map stringify ys') r"
    by (rule Cons.prems(1) [OF _ eq]) (use Cons.prems ys in auto)
  then show ?case using Cons.IH [of ys'] Cons.prems ys by auto
qed

lemma stringify_span:
  "stringify j @ s = stringify k @ r \<Longrightarrow> jplain j \<Longrightarrow> jplain k \<Longrightarrow> delimited s \<Longrightarrow> delimited r \<Longrightarrow> j = k \<and> s = r"
proof (induction j arbitrary: k s r)
  case (JVarr xs)
  obtain ys where k: "k = JVarr ys" using same_kind [OF JVarr.prems(1-3)] by (cases k) (auto split: if_splits)
  have plain: "list_all jplain xs" "list_all jplain ys" using JVarr.prems k by auto
  have eq: "join_with '','' (map stringify xs) @ CHR '']'' # s = join_with '','' (map stringify ys) @ CHR '']'' # r"
    using JVarr.prems(1) k by simp
  have "xs = ys \<and> s = r"
  proof (cases "xs = [] \<or> ys = []")
    case True
    then show ?thesis
      using eq plain join_not_close [of xs s r] join_not_close [of ys r s] by (cases xs; cases ys) auto
  next
    case False
    then obtain x xs' y ys' where c: "xs = x # xs'" "ys = y # ys'" by (metis neq_Nil_conv)
    have "elems_rest (map stringify xs) s = elems_rest (map stringify ys) r"
      using eq join_rest [of "stringify x" "map stringify xs'" s] join_rest [of "stringify y" "map stringify ys'" r] c by simp
    then show ?thesis using rest_span [of xs s ys r] JVarr.IH plain by blast
  qed
  then show ?case using k by simp
next
  case JVnull
  then show ?case using same_kind [OF JVnull(1-3)] by (cases k) (auto split: if_splits)
next
  case (JVbool b)
  then show ?case using same_kind [OF JVbool(1-3)] by (cases k) (auto split: if_splits)
next
  case (JVnum t)
  obtain u where "k = JVnum u" using same_kind [OF JVnum(1-3)] by (cases k) (auto split: if_splits)
  then show ?case using num_span [of t s u r] JVnum.prems by auto
next
  case (JVstr x)
  obtain y where "k = JVstr y" using same_kind [OF JVstr(1-3)] by (cases k) (auto split: if_splits)
  then show ?case using json_string_span [of x s y r] JVstr.prems(1) by simp
qed simp

lemma stringify_inj: "stringify j = stringify k \<Longrightarrow> jplain j \<Longrightarrow> jplain k \<Longrightarrow> j = k"
  using stringify_span [of j "[]" k "[]"] by simp


lemma num_char_show_nat: "list_all num_char (show_nat n)"
  using show_nat_digits by (auto simp: list_all_iff num_char_def)

lemma num_char_show_int: "show_int i \<noteq> [] \<and> list_all num_char (show_int i)"
  by (simp add: show_int_def num_char_show_nat num_char_def)

lemma jplain_json_of: "scalar v \<or> v = VUndef \<Longrightarrow> jplain (json_of v)"
  using num_char_show_int by (cases v) auto

lemma json_of_inj: "scalar v \<Longrightarrow> scalar w \<Longrightarrow> json_of v = json_of w \<longleftrightarrow> v = w"
  by (cases v; cases w) auto

text \<open>Tuples of scalars whose undefined positions agree have the same key only if they are equal.\<close>

lemma tupleKey_inj:
  assumes "tupleKey t = tupleKey u"
    and "\<forall>v \<in> set t \<union> set u. scalar v \<or> v = VUndef"
    and "\<And>i. i < length t \<Longrightarrow> length t = length u \<Longrightarrow> t ! i = VUndef \<longleftrightarrow> u ! i = VUndef"
  shows "t = u"
proof -
  have eq: "map json_of t = map json_of u"
    using stringify_inj [of "JVarr (map json_of t)" "JVarr (map json_of u)"] assms(1,2)
    by (auto simp: tupleKey_def list_all_iff intro: jplain_json_of)
  then have len: "length t = length u" by (metis length_map)
  show ?thesis
  proof (rule nth_equalityI [OF len])
    fix i assume i: "i < length t"
    then have "json_of (t ! i) = json_of (u ! i)" using eq len by (metis nth_map)
    moreover have "t ! i \<in> set t" "u ! i \<in> set u" using i len by auto
    ultimately show "t ! i = u ! i"
      using assms(2) assms(3) [OF i len] json_of_inj [of "t ! i" "u ! i"] by (metis UnCI)
  qed
qed

lemma tupleKey_scalar: "list_all scalar t \<Longrightarrow> list_all scalar u \<Longrightarrow> tupleKey t = tupleKey u \<longleftrightarrow> t = u"
proof -
  assume sc: "list_all scalar t" "list_all scalar u"
  then have "v \<noteq> VUndef" if "v \<in> set t \<union> set u" for v using that by (auto simp: list_all_iff)
  then show ?thesis using sc tupleKey_inj [of t u] by (metis UnE UnI1 UnI2 list_all_iff nth_mem)
qed

section \<open>Meaning of conditions\<close>

type_synonym interp = "string \<Rightarrow> Val list set"

definition tuples :: "relations \<Rightarrow> interp" where
  "tuples R p = snd ` set (R p)"

definition term_val :: "Binding \<Rightarrow> Val \<Rightarrow> Val option" where
  "term_val b a = (case a of VStr x \<Rightarrow> if startsWith x ''$'' then b x else Some a | _ \<Rightarrow> Some a)"

definition arg_vars :: "Val list \<Rightarrow> string set" where
  "arg_vars args = {x. VStr x \<in> set args \<and> startsWith x ''$''}"

definition head_of :: "string list \<Rightarrow> Binding \<Rightarrow> Val list" where
  "head_of xs b = map (\<lambda>x. param_value b (normalizeVarName x)) xs"

fun sols :: "interp \<Rightarrow> CclCondition \<Rightarrow> Binding \<Rightarrow> Binding set"
  and solsl :: "interp \<Rightarrow> CclCondition list \<Rightarrow> Binding \<Rightarrow> Binding set"
where
  "sols I (CAtom p args) b =
     {b'. b \<subseteq>\<^sub>m b' \<and> dom b' = dom b \<union> arg_vars args \<and> (\<exists>t \<in> I p. map (term_val b') args = map Some t)}"
| "sols I (CExists wh) b = (if solsl I wh b \<noteq> {} then {b} else {})"
| "sols I (CNotExists wh) b = (if solsl I wh b = {} then {b} else {})"
| "sols I (CCount vars wh op n) b =
     (if compareInts (card (head_of vars ` solsl I wh b)) op n = Inr True then {b} else {})"
| "solsl I [] b = {b}"
| "solsl I (c # cs) b = (\<Union>b' \<in> sols I c b. solsl I cs b')"

fun cond_vars :: "CclCondition \<Rightarrow> string set" where
  "cond_vars (CAtom _ args) = arg_vars args"
| "cond_vars _ = {}"

definition bound_vars :: "CclCondition list \<Rightarrow> string set" where
  "bound_vars cs = \<Union> (cond_vars ` set cs)"

definition known_op :: "string \<Rightarrow> bool" where
  "known_op op \<longleftrightarrow> op \<in> {''>='', ''>'', ''=='', ''<='', ''<''}"

fun ops_ok :: "CclCondition \<Rightarrow> bool" where
  "ops_ok (CAtom _ _) = True"
| "ops_ok (CExists wh) = list_all ops_ok wh"
| "ops_ok (CNotExists wh) = list_all ops_ok wh"
| "ops_ok (CCount _ wh op _) = (known_op op \<and> list_all ops_ok wh)"

fun cond_preds :: "CclCondition \<Rightarrow> string set" where
  "cond_preds (CAtom p _) = {p}"
| "cond_preds (CExists wh) = \<Union> (cond_preds ` set wh)"
| "cond_preds (CNotExists wh) = \<Union> (cond_preds ` set wh)"
| "cond_preds (CCount _ wh _ _) = \<Union> (cond_preds ` set wh)"

text \<open>Conditions that can only gain solutions when tuples are added.\<close>

fun positive :: "CclCondition \<Rightarrow> bool" where
  "positive (CAtom _ _) = True"
| "positive (CExists wh) = list_all positive wh"
| "positive (CNotExists wh) = False"
| "positive (CCount _ wh op _) = (op \<in> {''>='', ''>''} \<and> list_all positive wh)"

definition heads :: "interp \<Rightarrow> CclEntry \<Rightarrow> Val list set" where
  "heads I e = head_of (e_params e) ` solsl I (e_all e) Map.empty"

definition preds :: "CclEntry \<Rightarrow> string set" where
  "preds e = \<Union> (cond_preds ` set (e_all e))"

lemma sols_dom:
  "b' \<in> sols I c b \<Longrightarrow> dom b' = dom b \<union> cond_vars c"
  by (cases c) (auto split: if_splits)

lemma solsl_dom: "b' \<in> solsl I cs b \<Longrightarrow> dom b' = dom b \<union> bound_vars cs"
  by (induction cs arbitrary: b) (auto simp: bound_vars_def dest!: sols_dom, blast+)

definition scalar_binding :: "Binding \<Rightarrow> bool" where
  "scalar_binding b \<longleftrightarrow> (\<forall>v \<in> ran b. scalar v)"

definition scalar_interp :: "interp \<Rightarrow> bool" where
  "scalar_interp I \<longleftrightarrow> (\<forall>p. \<forall>t \<in> I p. list_all scalar t)"

lemma scalar_binding_empty [simp]: "scalar_binding Map.empty"
  by (simp add: scalar_binding_def)

lemma sols_scalar:
  assumes "b' \<in> sols I c b" "scalar_interp I" "scalar_binding b" shows "scalar_binding b'"
proof (cases c)
  case (CAtom p args)
  then obtain t where b': "b \<subseteq>\<^sub>m b'" "dom b' = dom b \<union> arg_vars args" and t: "t \<in> I p" "map (term_val b') args = map Some t"
    using assms(1) by auto
  have "scalar v" if v: "b' x = Some v" for x v
  proof (cases "x \<in> dom b")
    case True
    then show ?thesis using b'(1) v assms(3) by (metis map_le_def ranI scalar_binding_def)
  next
    case False
    then have "x \<in> arg_vars args" using b'(2) v by blast
    then have "term_val b' (VStr x) \<in> set (map Some t)" using t(2) by (force simp: arg_vars_def simp flip: t(2))
    moreover have "term_val b' (VStr x) = Some v" using v \<open>x \<in> arg_vars args\<close> by (simp add: term_val_def arg_vars_def)
    ultimately show ?thesis using assms(2) t(1) by (auto simp: scalar_interp_def list_all_iff)
  qed
  then show ?thesis by (auto simp: scalar_binding_def ran_def)
qed (use assms in \<open>auto split: if_splits\<close>)

lemma solsl_scalar: "b' \<in> solsl I cs b \<Longrightarrow> scalar_interp I \<Longrightarrow> scalar_binding b \<Longrightarrow> scalar_binding b'"
  by (induction cs arbitrary: b) (auto dest: sols_scalar)

text \<open>Projections of the solutions of one block have distinct keys.\<close>

lemma head_key_inj:
  assumes "scalar_interp I" "scalar_binding b"
  shows "inj_on tupleKey (head_of xs ` solsl I cs b)"
proof (rule inj_onI, elim imageE)
  fix t u m n assume t: "tupleKey t = tupleKey u" "t = head_of xs m" "u = head_of xs n" "m \<in> solsl I cs b" "n \<in> solsl I cs b"
  have sc: "scalar_binding m" "scalar_binding n" and d: "dom m = dom n"
    using t solsl_scalar [OF _ assms] solsl_dom [of _ I cs b] by auto
  have sv: "scalar (param_value k x) \<or> param_value k x = VUndef" if "scalar_binding k" for k x
    using that by (auto simp: param_value_def scalar_binding_def ran_def split: option.splits)
  have uv: "param_value k x = VUndef \<longleftrightarrow> x \<notin> dom k" if "scalar_binding k" for k x
    using that by (auto simp: param_value_def scalar_binding_def ran_def domIff split: option.splits)
  have agree: "param_value m x = VUndef \<longleftrightarrow> param_value n x = VUndef" for x
    using uv [OF sc(1)] uv [OF sc(2)] d by simp
  have all: "\<forall>v \<in> set t \<union> set u. scalar v \<or> v = VUndef"
    using t sv sc unfolding head_of_def by auto
  show "t = u"
    by (rule tupleKey_inj [OF t(1) all]) (use t agree in \<open>auto simp: head_of_def\<close>)
qed

section \<open>The evaluator computes the meaning\<close>

lemma strict_eq_scalar: "scalar w \<Longrightarrow> strict_eq v w \<longleftrightarrow> v = w"
  by (cases v; cases w) auto

lemma term_val_simps:
  "startsWith x ''$'' \<Longrightarrow> term_val b (VStr x) = b x"
  "\<not> isVar a \<Longrightarrow> term_val b a = Some a"
  by (auto simp: term_val_def isVar_def split: Val.splits)

lemma arg_vars_Cons:
  "startsWith x ''$'' \<Longrightarrow> arg_vars (VStr x # as) = insert x (arg_vars as)"
  "\<not> isVar a \<Longrightarrow> arg_vars (a # as) = arg_vars as"
  by (auto simp: arg_vars_def isVar_def)

lemma arg_vars_Nil [simp]: "arg_vars [] = {}"
  by (simp add: arg_vars_def)

lemma matchArgs_const:
  "\<not> isVar a \<Longrightarrow> matchArgs (a # as) (v # vs) b = (if strict_eq a v then matchArgs as vs b else None)"
  by (auto simp: isVar_def split: Val.splits)

lemma matchArgs_var:
  "startsWith x ''$'' \<Longrightarrow> matchArgs (VStr x # as) (v # vs) b =
     (case b x of Some w \<Rightarrow> if strict_eq w v then matchArgs as vs b else None | None \<Rightarrow> matchArgs as vs (b(x \<mapsto> v)))"
  by simp

declare matchArgs.simps(1) [simp del]

lemma matchArgs_exact:
  "list_all scalar vs \<Longrightarrow> matchArgs args vs b = Some b' \<longleftrightarrow>
     b \<subseteq>\<^sub>m b' \<and> dom b' = dom b \<union> arg_vars args \<and> map (term_val b') args = map Some vs"
proof (induction args arbitrary: vs b)
  case Nil
  have "b \<subseteq>\<^sub>m b' \<and> dom b' = dom b \<longleftrightarrow> b = b'" by (metis map_le_antisym map_le_def map_le_refl)
  then show ?case by (cases vs) auto
next
  case (Cons a as)
  show ?case
  proof (cases vs)
    case vs: (Cons v ws)
    then have v: "scalar v" and IH: "\<And>c. matchArgs as ws c = Some b' \<longleftrightarrow>
        c \<subseteq>\<^sub>m b' \<and> dom b' = dom c \<union> arg_vars as \<and> map (term_val b') as = map Some ws"
      using Cons.IH [of ws] Cons.prems by auto
    show ?thesis
    proof (cases "isVar a")
      case False
      then show ?thesis
        by (simp add: vs matchArgs_const strict_eq_scalar [OF v] arg_vars_Cons term_val_simps IH)
    next
      case True
      then obtain x where x: "a = VStr x" "startsWith x ''$''" by (auto simp: isVar_def split: Val.splits)
      show ?thesis
      proof (cases "b x")
        case None
        have upd: "b(x \<mapsto> v) \<subseteq>\<^sub>m b' \<longleftrightarrow> b \<subseteq>\<^sub>m b' \<and> b' x = Some v"
          using None by (auto simp: map_le_def dom_def)
        show ?thesis
          unfolding vs x(1) matchArgs_var [OF x(2)] arg_vars_Cons(1) [OF x(2)] None option.case IH upd
          by (simp add: term_val_simps(1) [OF x(2)]) blast
      next
        case (Some w)
        have "b' x = Some w" if "b \<subseteq>\<^sub>m b'" using that Some by (auto simp: map_le_def dom_def)
        moreover have "insert x (dom b \<union> arg_vars as) = dom b \<union> arg_vars as" using Some by auto
        ultimately show ?thesis
          unfolding vs x(1) matchArgs_var [OF x(2)] arg_vars_Cons(1) [OF x(2)] Some option.case strict_eq_scalar [OF v]
          by (auto simp: IH term_val_simps(1) [OF x(2)])
      qed
    qed
  qed simp
qed

definition keyed :: "relation \<Rightarrow> bool" where
  "keyed r \<longleftrightarrow> distinct (map fst r) \<and> (\<forall>x \<in> set r. fst x = tupleKey (snd x))"

definition wf_rel :: "relation \<Rightarrow> bool" where
  "wf_rel r \<longleftrightarrow> keyed r \<and> (\<forall>t \<in> snd ` set r. list_all scalar t)"

definition wf_rels :: "relations \<Rightarrow> bool" where
  "wf_rels R \<longleftrightarrow> (\<forall>p. wf_rel (R p))"

lemma wf_rels_scalar: "wf_rels R \<Longrightarrow> scalar_interp (tuples R)"
  by (fastforce simp: wf_rels_def wf_rel_def scalar_interp_def tuples_def)

lemma set_map_filter: "set (List.map_filter f xs) = {y. \<exists>x \<in> set xs. f x = Some y}"
  by (auto simp: List.map_filter_def image_iff) (metis option.sel)

lemma matchAtom_exact:
  assumes "wf_rels R" shows "set (matchAtom loc R p args b) = sols (tuples R) (CAtom p args) b"
proof -
  have sc: "list_all scalar t" if "t \<in> tuples R p" for t
    using wf_rels_scalar [OF assms] that by (auto simp: scalar_interp_def)
  have len: "length t = length args" if "map (term_val b') args = map Some t" for t b'
    using that by (metis length_map)
  have iff: "(length t = length args \<and> matchArgs args t b = Some b') \<longleftrightarrow>
      b \<subseteq>\<^sub>m b' \<and> dom b' = dom b \<union> arg_vars args \<and> map (term_val b') args = map Some t" if "t \<in> tuples R p" for t b'
    unfolding matchArgs_exact [OF sc [OF that]] using len [of b' t] by auto
  have *: "{b'. \<exists>t \<in> tuples R p. length t = length args \<and> matchArgs args t b = Some b'} = sols (tuples R) (CAtom p args) b"
    unfolding sols.simps by (rule Collect_cong) (simp add: iff cong: bex_cong)
  have "set (matchAtom loc R p args b) = {b'. \<exists>t \<in> tuples R p. length t = length args \<and> matchArgs args t b = Some b'}"
    by (auto simp: matchAtom_def set_map_filter sortedTuples_def tuples_def)
  then show ?thesis using * by simp
qed

lemma pushAll_exact:
  assumes "\<And>b. b \<in> set bs \<Longrightarrow> \<exists>out. f b = Inr out \<and> set out = g b"
  shows "\<exists>out. pushAll f bs = Inr out \<and> set out = (\<Union>b \<in> set bs. g b)"
  using assms
proof (induction bs)
  case (Cons b bs)
  obtain x where "f b = Inr x" "set x = g b" using Cons.prems by fastforce
  moreover obtain y where "pushAll f bs = Inr y" "set y = (\<Union>b \<in> set bs. g b)" using Cons by fastforce
  ultimately show ?case by auto
qed simp

lemma compareInts_known: "known_op op \<Longrightarrow> \<exists>ok. compareInts n op v = Inr ok"
  by (auto simp: known_op_def compareInts_def)

lemma evaluate_exact_all:
  shows "wf_rels R \<Longrightarrow> ops_ok c \<Longrightarrow> scalar_binding b \<Longrightarrow>
      \<exists>out. evaluateCondition loc R c b = Inr out \<and> set out = sols (tuples R) c b"
    and "wf_rels R \<Longrightarrow> list_all ops_ok cs \<Longrightarrow> \<forall>b \<in> set bs. scalar_binding b \<Longrightarrow>
      \<exists>out. evaluateConditions loc R cs bs = Inr out \<and> set out = (\<Union>b \<in> set bs. solsl (tuples R) cs b)"
proof (induction loc R c b and loc R cs bs rule: evaluateCondition_evaluateConditions.induct)
  case (1 loc R p args b)
  then show ?case using matchAtom_exact by simp
next
  case (2 loc R wh b)
  then obtain out where "evaluateConditions loc R wh [b] = Inr out" "set out = solsl (tuples R) wh b" by auto
  then show ?case by (cases out) auto
next
  case (3 loc R wh b)
  then obtain out where "evaluateConditions loc R wh [b] = Inr out" "set out = solsl (tuples R) wh b" by auto
  then show ?case by (cases out) auto
next
  case (4 loc R vars wh op v b)
  then obtain out where out: "evaluateConditions loc R wh [b] = Inr out" "set out = solsl (tuples R) wh b" by auto
  have "length (remdups (map (\<lambda>m. tupleKey (head_of vars m)) out)) = card (tupleKey ` head_of vars ` set out)"
    by (simp add: length_remdups_card_conv image_image)
  also have "\<dots> = card (head_of vars ` set out)"
    using head_key_inj [of "tuples R" b vars wh] wf_rels_scalar 4(2,4) out(2) by (simp add: card_image)
  finally have len: "length (remdups (map (\<lambda>m. tupleKey (head_of vars m)) out)) = card (head_of vars ` solsl (tuples R) wh b)"
    using out(2) by simp
  obtain ok where "compareInts (card (head_of vars ` solsl (tuples R) wh b)) op v = Inr ok"
    using compareInts_known 4(3) by fastforce
  then show ?case using out(1) len by (simp add: head_of_def [symmetric] Let_def)
next
  case (6 loc R c cs bs)
  obtain nx where n: "pushAll (evaluateCondition loc R c) bs = Inr nx" "set nx = (\<Union>b \<in> set bs. sols (tuples R) c b)"
    using pushAll_exact [of bs "evaluateCondition loc R c" "sols (tuples R) c"] 6 by auto
  have "\<forall>b \<in> set nx. scalar_binding b"
    using n(2) sols_scalar wf_rels_scalar 6(3,5) by blast
  then have step: "nx \<noteq> [] \<Longrightarrow> \<exists>out. evaluateConditions loc R cs nx = Inr out \<and> set out = (\<Union>b \<in> set nx. solsl (tuples R) cs b)"
    using 6(2) [of nx] 6(3,4) by simp
  have eq: "(\<Union>b \<in> set bs. solsl (tuples R) (c # cs) b) = (\<Union>b \<in> set nx. solsl (tuples R) cs b)"
    by (simp add: n(2))
  show ?case unfolding eq using n(1) step by (cases "nx = []") simp_all
qed auto

lemmas evaluateConditions_exact = evaluate_exact_all(2)

section \<open>Rules as steps on interpretations\<close>

definition safe :: "CclEntry \<Rightarrow> bool" where
  "safe e \<longleftrightarrow> normalizeVarName ` set (e_params e) \<subseteq> bound_vars (e_all e)"

definition rule_step :: "CclEntry \<Rightarrow> interp \<Rightarrow> interp" where
  "rule_step r I = I(e_name r := I (e_name r) \<union> heads I r)"

definition policy_round :: "CclEntry list \<Rightarrow> interp \<Rightarrow> interp" where
  "policy_round rs I = fold rule_step rs I"

definition fact_interp :: "CclFactTuple list \<Rightarrow> interp" where
  "fact_interp facts p = {t. (p, t) \<in> set facts}"

lemma keyed_Nil [simp]: "keyed []"
  by (simp add: keyed_def)

lemma wf_rel_Nil [simp]: "wf_rel []"
  by (simp add: wf_rel_def)

lemma in_snd_image: "u \<in> snd ` S \<longleftrightarrow> (\<exists>k. (k, u) \<in> S)"
  by force

lemma keyed_add:
  assumes "keyed r" shows "keyed (add_tuple t r)"
    and "inj_on tupleKey (insert t (snd ` set r)) \<Longrightarrow> snd ` set (add_tuple t r) = insert t (snd ` set r)"
proof -
  have d: "distinct (map fst (add_tuple t r))" using assms by (simp add: keyed_def add_tuple_def distinct_update)
  have m: "map_of (add_tuple t r) = (map_of r)(tupleKey t \<mapsto> t)" by (simp add: add_tuple_def map_of_update_key)
  have mem: "(k, u) \<in> set (add_tuple t r) \<longleftrightarrow> (if k = tupleKey t then u = t else (k, u) \<in> set r)" for k u
    using map_of_eq_Some_iff [OF d, of k u] map_of_eq_Some_iff [of r k u] assms by (auto simp: m keyed_def)
  have key: "k = tupleKey u" if "(k, u) \<in> set r" for k u using assms that by (force simp: keyed_def)
  show "keyed (add_tuple t r)" unfolding keyed_def using d mem key by (auto split: if_splits)
  assume inj: "inj_on tupleKey (insert t (snd ` set r))"
  have same: "u = t" if "(tupleKey t, u) \<in> set r" for u
    by (rule inj_onD [OF inj]) (use key [OF that] that in force)+
  have "(\<exists>k. (k, u) \<in> set (add_tuple t r)) \<longleftrightarrow> u = t \<or> (\<exists>k. (k, u) \<in> set r)" for u
    unfolding mem using same by (metis (full_types))
  then show "snd ` set (add_tuple t r) = insert t (snd ` set r)"
    by (auto simp: set_eq_iff in_snd_image)
qed

lemma wf_rel_add:
  assumes "wf_rel r" "list_all scalar t"
  shows "wf_rel (add_tuple t r)" "snd ` set (add_tuple t r) = insert t (snd ` set r)"
proof -
  have "inj_on tupleKey (insert t (snd ` set r))"
    using assms by (auto simp: wf_rel_def inj_on_def tupleKey_scalar)
  then show eq: "snd ` set (add_tuple t r) = insert t (snd ` set r)" using keyed_add(2) assms(1) by (simp add: wf_rel_def)
  then show "wf_rel (add_tuple t r)" using keyed_add(1) assms unfolding wf_rel_def eq by blast
qed

lemma wf_rel_fold_add:
  "wf_rel r \<Longrightarrow> list_all (list_all scalar) ts \<Longrightarrow>
     wf_rel (fold add_tuple ts r) \<and> snd ` set (fold add_tuple ts r) = set ts \<union> snd ` set r"
  by (induction ts arbitrary: r) (auto simp: wf_rel_add)

lemma wf_rel_card: "wf_rel r \<Longrightarrow> length r = card (snd ` set r)"
proof -
  assume wf: "wf_rel r"
  have "inj_on snd (set r)" using wf by (intro inj_onI prod_eqI) (auto simp: wf_rel_def keyed_def)
  moreover have "distinct r" using wf by (auto simp: wf_rel_def keyed_def simp: distinct_map)
  ultimately show ?thesis by (simp add: card_image distinct_card)
qed

definition scalar_facts :: "CclFactTuple list \<Rightarrow> bool" where
  "scalar_facts facts \<longleftrightarrow> (\<forall>(p, t) \<in> set facts. list_all scalar t)"

lemma fold_load_fact:
  "wf_rels R \<Longrightarrow> scalar_facts facts \<Longrightarrow>
     wf_rels (fold load_fact facts R) \<and> tuples (fold load_fact facts R) = (\<lambda>p. fact_interp facts p \<union> tuples R p)"
proof (induction facts arbitrary: R)
  case Nil
  then show ?case by (simp add: fact_interp_def)
next
  case (Cons f facts)
  obtain p t where f: "f = (p, t)" by force
  have t: "list_all scalar t" and fs: "scalar_facts facts" using Cons.prems(2) f by (auto simp: scalar_facts_def)
  have wf: "wf_rels (load_fact f R)" using Cons.prems(1) wf_rel_add(1) [OF _ t] f by (auto simp: wf_rels_def load_fact_def)
  have "tuples (load_fact f R) q = (if q = p then {t} else {}) \<union> tuples R q" for q
    using Cons.prems(1) wf_rel_add(2) [OF _ t] f by (auto simp: wf_rels_def load_fact_def tuples_def)
  then show ?case using Cons.IH [OF wf fs] by (auto simp: fun_eq_iff fact_interp_def f)
qed

lemma load_facts_exact:
  "scalar_facts facts \<Longrightarrow> wf_rels (load_facts facts) \<and> tuples (load_facts facts) = fact_interp facts"
  using fold_load_fact [of "\<lambda>_. []" facts] by (simp add: load_facts_def wf_rels_def tuples_def)

lemma heads_scalar:
  assumes "safe e" "scalar_interp I" "t \<in> heads I e" shows "list_all scalar t"
proof -
  obtain b where b: "b \<in> solsl I (e_all e) Map.empty" "t = head_of (e_params e) b" using assms(3) by (auto simp: heads_def)
  have "dom b = bound_vars (e_all e)" "scalar_binding b"
    using solsl_dom [OF b(1)] solsl_scalar [OF b(1) assms(2)] by auto
  moreover have "normalizeVarName x \<in> bound_vars (e_all e)" if "x \<in> set (e_params e)" for x
    using assms(1) that by (auto simp: safe_def)
  ultimately have "\<exists>v. b (normalizeVarName x) = Some v \<and> scalar v" if "x \<in> set (e_params e)" for x
    using that by (metis domD ranI scalar_binding_def)
  then show ?thesis using b(2) by (fastforce simp: list_all_iff head_of_def param_value_def)
qed

definition ops_known :: "CclEntry \<Rightarrow> bool" where
  "ops_known e \<longleftrightarrow> list_all ops_ok (e_all e)"

text \<open>The tuples of an entry, also when some of its parameters are never bound.\<close>

lemma fold_add_inj:
  "inj_on tupleKey (set ts) \<Longrightarrow> keyed (fold add_tuple ts []) \<and> snd ` set (fold add_tuple ts []) = set ts"
proof (induction ts rule: rev_induct)
  case (snoc t ts)
  then have "keyed (fold add_tuple ts [])" "snd ` set (fold add_tuple ts []) = set ts" by (auto simp: inj_on_def)
  then show ?case using keyed_add [of "fold add_tuple ts []" t] snoc.prems by simp
qed simp

lemma evaluateEntry_exact:
  assumes "wf_rels R" "ops_known e"
  shows "\<exists>ts. evaluateEntry loc R e = Inr ts \<and> set ts = heads (tuples R) e"
proof -
  obtain bs where bs: "evaluateConditions loc R (e_all e) [Map.empty] = Inr bs"
      "set bs = solsl (tuples R) (e_all e) Map.empty"
    using evaluateConditions_exact [of R "e_all e" "[Map.empty]" loc] assms by (auto simp: ops_known_def)
  let ?ts = "map (head_of (e_params e)) bs"
  have hs: "set ?ts = heads (tuples R) e" using bs(2) by (simp add: heads_def)
  have "inj_on tupleKey (set ?ts)"
    using head_key_inj [of "tuples R" Map.empty "e_params e" "e_all e"] wf_rels_scalar [OF assms(1)] hs by (simp add: heads_def)
  then have "snd ` set (fold add_tuple ?ts []) = set ?ts" using fold_add_inj by blast
  then show ?thesis using bs(1) hs by (simp add: evaluateEntry_def sortedTuples_def head_of_def [abs_def])
qed

lemma apply_rule_exact:
  assumes wf: "wf_rels R" and "ops_known r" "safe r"
  shows "\<exists>R' c'. apply_rule loc r (R, c) = Inr (R', c') \<and> wf_rels R' \<and> tuples R' = rule_step r (tuples R)
    \<and> (c' \<longleftrightarrow> c \<or> tuples R' \<noteq> tuples R)"
proof -
  obtain ts where ts: "evaluateEntry loc R r = Inr ts" "set ts = heads (tuples R) r"
    using evaluateEntry_exact [OF wf assms(2)] by blast
  define n where "n = fold add_tuple ts (R (e_name r))"
  have sc: "list_all (list_all scalar) ts"
    using heads_scalar [OF assms(3) wf_rels_scalar [OF wf]] ts(2) by (auto simp: list_all_iff)
  have wr: "wf_rel (R (e_name r))" using wf by (simp add: wf_rels_def)
  have n: "wf_rel n" "snd ` set n = set ts \<union> tuples R (e_name r)"
    using wf_rel_fold_add [OF wr sc] by (auto simp: n_def tuples_def)
  have "length n = length (R (e_name r)) \<longleftrightarrow> snd ` set n = tuples R (e_name r)"
    unfolding wf_rel_card [OF n(1)] wf_rel_card [OF wr] tuples_def [symmetric] n(2)
    by (metis List.finite_set Un_upper2 card_subset_eq finite_UnI finite_imageI tuples_def)
  moreover have "tuples (R(e_name r := n)) = rule_step r (tuples R)"
    using n(2) ts(2) by (auto simp: tuples_def rule_step_def fun_eq_iff)
  moreover have "tuples (R(e_name r := n)) = tuples R \<longleftrightarrow> snd ` set n = tuples R (e_name r)"
    by (auto simp: tuples_def fun_eq_iff)
  moreover have "wf_rels (R(e_name r := n))" using wf n(1) by (auto simp: wf_rels_def)
  ultimately show ?thesis using ts(1) by (simp add: apply_rule_def n_def Let_def)
qed

lemma rule_step_incr: "I p \<subseteq> rule_step r I p"
  by (auto simp: rule_step_def)

lemma policy_round_incr: "I p \<subseteq> policy_round rs I p"
  by (induction rs arbitrary: I) (use rule_step_incr in \<open>force simp: policy_round_def\<close>)+

lemma apply_rules_exact:
  assumes "wf_rels R" "list_all ops_known rs" "list_all safe rs"
  shows "\<exists>R' c'. apply_rules loc rs (R, c) = Inr (R', c') \<and> wf_rels R' \<and> tuples R' = policy_round rs (tuples R)
    \<and> (c' \<longleftrightarrow> c \<or> tuples R' \<noteq> tuples R)"
  using assms
proof (induction rs arbitrary: R c)
  case (Cons r rs)
  obtain R1 c1 where 1: "apply_rule loc r (R, c) = Inr (R1, c1)" "wf_rels R1" "tuples R1 = rule_step r (tuples R)"
      "c1 \<longleftrightarrow> c \<or> tuples R1 \<noteq> tuples R"
    using apply_rule_exact [of R r loc c] Cons.prems by auto
  obtain R2 c2 where 2: "apply_rules loc rs (R1, c1) = Inr (R2, c2)" "wf_rels R2" "tuples R2 = policy_round rs (tuples R1)"
      "c2 \<longleftrightarrow> c1 \<or> tuples R2 \<noteq> tuples R1"
    using Cons.IH [OF 1(2), of c1] Cons.prems by auto
  have "tuples R p \<subseteq> tuples R1 p" "tuples R1 p \<subseteq> tuples R2 p" for p
    using rule_step_incr policy_round_incr by (simp_all add: 1(3) 2(3))
  then have "tuples R2 = tuples R \<longleftrightarrow> tuples R1 = tuples R \<and> tuples R2 = tuples R1"
    by (auto simp: fun_eq_iff) blast+
  then show ?case using 1 2 by (simp add: policy_round_def)
qed (simp add: policy_round_def)

end
