(* ===== verification/CclFixpoint.thy ===== *)
theory CclFixpoint
  imports CclSemantics
begin

text \<open>
  The fixpoint of a policy. Rounds over the rules are iterated until nothing changes, at most 64
  times. For rules that refer only to facts and to rules listed before them one round computes the
  unique model in which every derived relation holds exactly the tuples that its rules give. For rules without
  negation, in any order and with recursion, the fixpoint is the least model. Rules without recursion reach
  a fixpoint within two rounds more than the length of their longest chain of references.
\<close>

section \<open>Iteration\<close>

lemma derive_rounds_sound:
  assumes "list_all ops_known rs" "list_all safe rs"
  shows "wf_rels R \<Longrightarrow> derive_rounds n loc rs R = Inr R' \<Longrightarrow>
    wf_rels R' \<and> policy_round rs (tuples R') = tuples R' \<and> (\<exists>k. tuples R' = (policy_round rs ^^ k) (tuples R))"
proof (induction n arbitrary: R)
  case (Suc n)
  obtain R1 c where 1: "apply_rules loc rs (R, False) = Inr (R1, c)" "wf_rels R1" "tuples R1 = policy_round rs (tuples R)"
      "c \<longleftrightarrow> tuples R1 \<noteq> tuples R"
    using apply_rules_exact [OF Suc.prems(1) assms, of loc False] by auto
  show ?case
  proof (cases c)
    case True
    then have "derive_rounds n loc rs R1 = Inr R'" using Suc.prems(2) 1(1) by simp
    from Suc.IH [OF 1(2) this] obtain k where k: "tuples R' = (policy_round rs ^^ k) (tuples R1)"
      and rest: "wf_rels R'" "policy_round rs (tuples R') = tuples R'" by blast
    have "tuples R' = (policy_round rs ^^ Suc k) (tuples R)" using k 1(3) by (simp add: funpow_swap1)
    then show ?thesis using rest by blast
  next
    case False
    then have "R' = R1" "tuples R1 = tuples R" using Suc.prems(2) 1 by auto
    moreover have "tuples R1 = (policy_round rs ^^ 1) (tuples R)" using 1(3) by simp
    ultimately show ?thesis using 1 by metis
  qed
qed simp

lemma derive_rounds_returns:
  assumes "list_all ops_known rs" "list_all safe rs"
  shows "wf_rels R \<Longrightarrow> k < n \<Longrightarrow> policy_round rs ((policy_round rs ^^ k) (tuples R)) = (policy_round rs ^^ k) (tuples R) \<Longrightarrow>
    \<exists>R'. derive_rounds n loc rs R = Inr R'"
proof (induction n arbitrary: R k)
  case (Suc n)
  obtain R1 c where 1: "apply_rules loc rs (R, False) = Inr (R1, c)" "wf_rels R1" "tuples R1 = policy_round rs (tuples R)"
      "c \<longleftrightarrow> tuples R1 \<noteq> tuples R"
    using apply_rules_exact [OF Suc.prems(1) assms, of loc False] by auto
  show ?case
  proof (cases k)
    case 0
    then show ?thesis using 1 Suc.prems by auto
  next
    case (Suc j)
    then have "\<exists>R'. derive_rounds n loc rs R1 = Inr R'"
      using Suc.IH [OF 1(2), of j] Suc.prems 1(3) by (simp add: funpow_swap1)
    then show ?thesis using 1(1) by auto
  qed
qed simp

lemma derive_rounds_error:
  assumes "list_all ops_known rs" "list_all safe rs"
  shows "wf_rels R \<Longrightarrow> derive_rounds n loc rs R = Inl e \<Longrightarrow> e = ''CCL fixpoint did not converge''"
proof (induction n arbitrary: R)
  case (Suc n)
  obtain R1 c where "apply_rules loc rs (R, False) = Inr (R1, c)" "wf_rels R1"
    using apply_rules_exact [OF Suc.prems(1) assms, of loc False] by auto
  then show ?case using Suc.IH [of R1] Suc.prems(2) by (auto split: if_splits)
qed simp

section \<open>Dependence on the relations mentioned\<close>

lemma sols_cong:
  "(\<And>p. p \<in> cond_preds c \<Longrightarrow> I p = J p) \<Longrightarrow> sols I c b = sols J c b"
  "(\<And>p. p \<in> \<Union> (cond_preds ` set cs) \<Longrightarrow> I p = J p) \<Longrightarrow> solsl I cs b = solsl J cs b"
proof (induction I c b and I cs b rule: sols_solsl.induct)
  case (1 I p args b)
  then show ?case by simp
next
  case (6 I c cs b)
  have "sols I c b = sols J c b" using 6 by simp
  moreover have "solsl I cs b' = solsl J cs b'" if "b' \<in> sols I c b" for b' using 6 that by simp
  ultimately show ?case by simp
qed simp_all

lemma heads_cong: "(\<And>p. p \<in> preds e \<Longrightarrow> I p = J p) \<Longrightarrow> heads I e = heads J e"
  using sols_cong(2) [of "e_all e" I J] by (simp add: heads_def preds_def)

section \<open>Positive conditions\<close>

definition finite_interp :: "interp \<Rightarrow> bool" where
  "finite_interp I \<longleftrightarrow> scalar_interp I \<and> (\<forall>p. finite (I p))"

lemma finite_sols:
  assumes "finite_interp I"
  shows "finite (sols I c b)" and "finite (solsl I cs b)"
proof -
  show s: "finite (sols I c b)" for c b
  proof (cases c)
    case (CAtom p args)
    have "sols I (CAtom p args) b \<subseteq> (\<lambda>t. the (matchArgs args t b)) ` I p"
    proof
      fix b' assume "b' \<in> sols I (CAtom p args) b"
      then obtain t where t: "t \<in> I p" "b \<subseteq>\<^sub>m b' \<and> dom b' = dom b \<union> arg_vars args \<and> map (term_val b') args = map Some t"
        by auto
      then have "matchArgs args t b = Some b'"
        using matchArgs_exact [of t args b b'] assms by (auto simp: finite_interp_def scalar_interp_def)
      then show "b' \<in> (\<lambda>t. the (matchArgs args t b)) ` I p" using t(1) by force
    qed
    then show ?thesis using assms finite_subset [OF _ finite_imageI] by (simp only: CAtom finite_interp_def) blast
  qed auto
  show "finite (solsl I cs b)" by (induction cs arbitrary: b) (auto simp: s)
qed

lemma compareInts_mono: "op \<in> {''>='', ''>''} \<Longrightarrow> m \<le> n \<Longrightarrow> compareInts m op v = Inr True \<Longrightarrow> compareInts n op v = Inr True"
  by (auto simp: compareInts_def)

lemma solsl_mono_all: "(\<And>c b. c \<in> set cs \<Longrightarrow> sols I c b \<subseteq> sols J c b) \<Longrightarrow> solsl I cs b \<subseteq> solsl J cs b"
proof (induction cs arbitrary: b)
  case (Cons c cs)
  have "sols I c b \<subseteq> sols J c b" "\<And>b'. solsl I cs b' \<subseteq> solsl J cs b'" using Cons by auto
  then show ?case by (simp add: UN_mono)
qed simp

lemma sols_mono:
  assumes "\<And>p. I p \<subseteq> J p" "finite_interp J"
  shows "positive c \<Longrightarrow> sols I c b \<subseteq> sols J c b"
proof (induction c arbitrary: b)
  case (CAtom p args)
  then show ?case using assms(1) [of p] by auto
next
  case (CExists wh)
  have "solsl I wh b \<subseteq> solsl J wh b"
    by (rule solsl_mono_all) (use CExists in \<open>auto simp: list_all_iff\<close>)
  then show ?case by auto
next
  case (CCount vars wh op v)
  have "solsl I wh b \<subseteq> solsl J wh b"
    by (rule solsl_mono_all) (use CCount in \<open>auto simp: list_all_iff\<close>)
  then have "card (head_of vars ` solsl I wh b) \<le> card (head_of vars ` solsl J wh b)"
    by (intro card_mono image_mono finite_imageI finite_sols(2) assms(2))
  then show ?case using compareInts_mono CCount.prems by auto
qed simp

lemma heads_mono:
  assumes "\<And>p. I p \<subseteq> J p" "finite_interp J" "list_all positive (e_all e)"
  shows "heads I e \<subseteq> heads J e"
proof -
  have "solsl I (e_all e) Map.empty \<subseteq> solsl J (e_all e) Map.empty"
    by (rule solsl_mono_all) (use sols_mono [OF assms(1,2)] assms(3) in \<open>auto simp: list_all_iff\<close>)
  then show ?thesis by (auto simp: heads_def)
qed

text \<open>A model of the rules holds every head that its rules give.\<close>

definition closed_under :: "CclEntry list \<Rightarrow> interp \<Rightarrow> bool" where
  "closed_under rs I \<longleftrightarrow> (\<forall>r \<in> set rs. heads I r \<subseteq> I (e_name r))"

lemma policy_round_Nil [simp]: "policy_round [] I = I"
  and policy_round_Cons [simp]: "policy_round (r # rs) I = policy_round rs (rule_step r I)"
  by (simp_all add: policy_round_def)

lemma rule_step_id: "rule_step r I = I \<longleftrightarrow> heads I r \<subseteq> I (e_name r)"
  by (auto simp: rule_step_def fun_upd_idem_iff)

lemma closed_fixpoint: "policy_round rs I = I \<longleftrightarrow> closed_under rs I"
proof (induction rs)
  case (Cons r rs)
  have "rule_step r I = I" if "policy_round rs (rule_step r I) = I"
    using rule_step_incr [of I _ r] policy_round_incr [of "rule_step r I" _ rs] that by (auto simp: fun_eq_iff)
  then show ?case using Cons rule_step_id [of r I] by (auto simp: closed_under_def)
qed (simp add: closed_under_def)

lemma policy_round_least:
  assumes "finite_interp J" "closed_under rs J" "\<forall>r \<in> set rs. list_all positive (e_all r)"
  shows "(\<And>p. I p \<subseteq> J p) \<Longrightarrow> set qs \<subseteq> set rs \<Longrightarrow> policy_round qs I p \<subseteq> J p"
proof (induction qs arbitrary: I)
  case (Cons r qs)
  have "heads I r \<subseteq> J (e_name r)"
    using heads_mono [OF Cons.prems(1) assms(1)] assms(2,3) Cons.prems(2) by (fastforce simp: closed_under_def)
  then have "rule_step r I q \<subseteq> J q" for q using Cons.prems(1) by (auto simp: rule_step_def)
  then show ?case using Cons by simp
qed simp

lemma iterate_least:
  assumes "finite_interp J" "closed_under rs J" "\<forall>r \<in> set rs. list_all positive (e_all r)" "\<And>p. I p \<subseteq> J p"
  shows "(policy_round rs ^^ k) I p \<subseteq> J p"
  by (induction k arbitrary: p) (use assms(4) policy_round_least [OF assms(1-3), where qs = rs] in auto)

section \<open>Rules without recursion\<close>

definition ranked :: "(string \<Rightarrow> nat) \<Rightarrow> CclEntry list \<Rightarrow> bool" where
  "ranked rank rs \<longleftrightarrow> (\<forall>r \<in> set rs. \<forall>q \<in> set rs. e_name q \<in> preds r \<longrightarrow> rank (e_name q) < rank (e_name r))"

definition stable_upto :: "(string \<Rightarrow> nat) \<Rightarrow> CclEntry list \<Rightarrow> nat \<Rightarrow> interp \<Rightarrow> bool" where
  "stable_upto rank rs k I \<longleftrightarrow> (\<forall>r \<in> set rs. rank (e_name r) < k \<longrightarrow> heads I r \<subseteq> I (e_name r))"

lemma rule_step_low:
  assumes "stable_upto rank rs k I" "r \<in> set rs" "p \<in> e_name ` set rs \<Longrightarrow> rank p < k"
  shows "rule_step r I p = I p"
  using assms by (auto simp: rule_step_def stable_upto_def)

lemma heads_low:
  assumes "ranked rank rs" "stable_upto rank rs k I" "q \<in> set rs" "r \<in> set rs" "rank (e_name r) \<le> k"
  shows "heads (rule_step q I) r = heads I r"
proof (rule heads_cong)
  fix p assume p: "p \<in> preds r"
  have "rank p < k" if "p \<in> e_name ` set rs" using assms(1,4,5) p that by (fastforce simp: ranked_def)
  then show "rule_step q I p = I p" using rule_step_low [OF assms(2,3)] by blast
qed

lemma stable_step:
  assumes "ranked rank rs" "stable_upto rank rs k I" "q \<in> set rs"
  shows "stable_upto rank rs k (rule_step q I)"
proof -
  have "heads (rule_step q I) r \<subseteq> rule_step q I (e_name r)" if "r \<in> set rs" "rank (e_name r) < k" for r
    using heads_low [OF assms that(1)] that assms(2) rule_step_incr [of I "e_name r" q] by (auto simp: stable_upto_def)
  then show ?thesis by (simp add: stable_upto_def)
qed

lemma stable_round:
  assumes "ranked rank rs"
  shows "stable_upto rank rs k I \<Longrightarrow> set qs \<subseteq> set rs \<Longrightarrow>
    stable_upto rank rs k (policy_round qs I) \<and> (\<forall>r \<in> set rs. rank (e_name r) \<le> k \<longrightarrow> heads (policy_round qs I) r = heads I r)
    \<and> (\<forall>r \<in> set qs. rank (e_name r) \<le> k \<longrightarrow> heads I r \<subseteq> policy_round qs I (e_name r))"
proof (induction qs arbitrary: I)
  case (Cons q qs)
  have q: "q \<in> set rs" using Cons.prems(2) by simp
  note IH = Cons.IH [OF stable_step [OF assms Cons.prems(1) q]]
  have "heads I q \<subseteq> rule_step q I (e_name q)" by (simp add: rule_step_def)
  then have "heads I q \<subseteq> policy_round qs (rule_step q I) (e_name q)"
    using policy_round_incr [of "rule_step q I" "e_name q" qs] by blast
  moreover have "heads I r \<subseteq> policy_round qs (rule_step q I) (e_name r)" if "r \<in> set qs" "rank (e_name r) \<le> k" for r
  proof -
    have "r \<in> set rs" using that(1) Cons.prems(2) by auto
    moreover have "heads (rule_step q I) r \<subseteq> policy_round qs (rule_step q I) (e_name r)" using IH Cons.prems(2) that by simp
    ultimately show ?thesis using heads_low [OF assms Cons.prems(1) q, of r] that(2) by simp
  qed
  ultimately show ?case using IH heads_low [OF assms Cons.prems(1) q] Cons.prems(2) by auto
qed simp

lemma stable_Suc: "ranked rank rs \<Longrightarrow> stable_upto rank rs k I \<Longrightarrow> stable_upto rank rs (Suc k) (policy_round rs I)"
  using stable_round [of rank rs k I rs] by (auto simp: stable_upto_def less_Suc_eq_le)

lemma stable_iterate: "ranked rank rs \<Longrightarrow> stable_upto rank rs k ((policy_round rs ^^ k) I)"
proof (induction k)
  case 0
  then show ?case by (simp add: stable_upto_def)
next
  case (Suc k)
  then show ?case using stable_Suc by simp
qed

lemma ranked_converges:
  assumes "ranked rank rs" "\<forall>r \<in> set rs. rank (e_name r) < K"
  shows "policy_round rs ((policy_round rs ^^ K) I) = (policy_round rs ^^ K) I"
  using stable_iterate [OF assms(1), of K I] assms(2) unfolding closed_fixpoint by (simp add: stable_upto_def closed_under_def)

section \<open>Ordered rules\<close>

fun ordered :: "CclEntry list \<Rightarrow> bool" where
  "ordered [] = True"
| "ordered (r # rs) = ((\<forall>q \<in> set (r # rs). e_name q \<notin> preds r) \<and> ordered rs)"

definition completion :: "CclEntry list \<Rightarrow> interp \<Rightarrow> interp \<Rightarrow> bool" where
  "completion rs base I \<longleftrightarrow> (\<forall>p. I p = base p \<union> (\<Union>r \<in> {r \<in> set rs. e_name r = p}. heads I r))"

lemma policy_round_other: "p \<notin> e_name ` set rs \<Longrightarrow> policy_round rs I p = I p"
  by (induction rs arbitrary: I) (auto simp: policy_round_def rule_step_def)

lemma completion_Cons:
  assumes "ordered (r # rs)" "\<And>p. p \<notin> e_name ` set (r # rs) \<Longrightarrow> I p = base p"
  shows "completion (r # rs) base I \<longleftrightarrow> completion rs (rule_step r base) I"
proof -
  have "p \<notin> e_name ` set (r # rs)" if "p \<in> preds r" for p using assms(1) that by auto
  then have "heads I r = heads base r" using assms(2) by (intro heads_cong) blast
  moreover have "{q \<in> set (r # rs). e_name q = p} = (if e_name r = p then {r} else {}) \<union> {q \<in> set rs. e_name q = p}" for p by auto
  ultimately show ?thesis by (auto simp: completion_def rule_step_def Un_assoc)
qed

lemma ordered_unique:
  "ordered rs \<Longrightarrow> completion rs base I \<longleftrightarrow> I = policy_round rs base"
proof (induction rs arbitrary: base)
  case Nil
  then show ?case by (auto simp: completion_def)
next
  case (Cons r rs)
  have "(\<forall>p. p \<notin> e_name ` set (r # rs) \<longrightarrow> I p = base p)" if "completion (r # rs) base I"
    using that by (auto simp: completion_def)
  moreover have "\<forall>p. p \<notin> e_name ` set (r # rs) \<longrightarrow> I p = base p" if "I = policy_round (r # rs) base"
    using policy_round_other [of _ "r # rs" base] that by simp
  ultimately show ?case using completion_Cons [OF Cons.prems, of I base] Cons by auto
qed

lemma completion_fixpoint:
  assumes "completion rs base I" shows "policy_round rs I = I"
proof -
  have "rule_step r I = I" if "r \<in> set rs" for r
    using assms that unfolding completion_def rule_step_def by (intro fun_upd_idem) blast
  then have "policy_round qs I = I" if "set qs \<subseteq> set rs" for qs using that by (induction qs) auto
  then show ?thesis by blast
qed

lemma ordered_round_fixpoint:
  "ordered rs \<Longrightarrow> policy_round rs (policy_round rs base) = policy_round rs base"
  using completion_fixpoint ordered_unique by blast

end
