(* ===== verification/CclValidate.thy ===== *)
theory CclValidate
  imports CclFixpoint
begin

text \<open>
  Reading and validating a policy: \<^verbatim>\<open>parseCclPolicy\<close>, \<^verbatim>\<open>validateCclPolicy\<close>, \<^verbatim>\<open>validateEntry\<close> and
  \<^verbatim>\<open>validateCondition\<close> of \<^verbatim>\<open>packages/agent/src/ccl-evaluator.ts\<close>. The YAML reader is a parameter (\<open>None\<close>: it throws).
  Reading a member of \<^verbatim>\<open>undefined\<close> or \<^verbatim>\<open>null\<close> is a type error, as is \<^verbatim>\<open>in\<close> on a primitive; the names read are
  on no prototype.
\<close>

section \<open>Objects\<close>

lemma bindE_cong [fundef_cong]: "r = s \<Longrightarrow> (\<And>x. s = Inr x \<Longrightarrow> f x = g x) \<Longrightarrow> bindE r f = bindE s g"
  by (cases s) auto

fun forE :: "('a \<Rightarrow> 'e + unit) \<Rightarrow> 'a list \<Rightarrow> 'e + unit" where
  "forE f [] = Inr ()"
| "forE f (x # xs) = bindE (f x) (\<lambda>_. forE f xs)"

lemma forE_cong [fundef_cong]: "xs = ys \<Longrightarrow> (\<And>x. x \<in> set ys \<Longrightarrow> f x = g x) \<Longrightarrow> forE f xs = forE g ys"
  by (induction ys arbitrary: xs) auto

lemma forE_Inr: "forE f xs = Inr u \<longleftrightarrow> (\<forall>x \<in> set xs. f x = Inr ())"
  by (induction xs) (auto simp: bindE_Inr)

fun js_text :: "Val \<Rightarrow> string" where
  "js_text VUndef = ''undefined''"
| "js_text VNull = ''null''"
| "js_text (VBool b) = (if b then ''true'' else ''false'')"
| "js_text (VNum n) = show_int n"
| "js_text VNaN = ''NaN''"
| "js_text (VInf pos) = (if pos then ''Infinity'' else ''-Infinity'')"
| "js_text (VStr s) = s"
| "js_text (VArr _ vs) = join_with '','' (map (\<lambda>v. if nullish v then [] else js_text v) vs)"
| "js_text (VObj _ _) = ''[object Object]''"

definition TypeError :: string where
  "TypeError = ''TypeError''"

definition member :: "string \<Rightarrow> Val \<Rightarrow> Val" where
  "member k v = (case v of VObj _ kvs \<Rightarrow> (case map_of kvs k of Some x \<Rightarrow> x | None \<Rightarrow> VUndef) | _ \<Rightarrow> VUndef)"

definition has :: "string \<Rightarrow> Val \<Rightarrow> bool" where
  "has k v = (case v of VObj _ kvs \<Rightarrow> k \<in> fst ` set kvs | _ \<Rightarrow> False)"

fun is_object :: "Val \<Rightarrow> bool" where
  "is_object (VArr _ _) = True"
| "is_object (VObj _ _) = True"
| "is_object _ = False"

fun is_array :: "Val \<Rightarrow> bool" where
  "is_array (VArr _ _) = True"
| "is_array _ = False"

fun is_str :: "Val \<Rightarrow> bool" where
  "is_str (VStr _) = True"
| "is_str _ = False"

fun is_number :: "Val \<Rightarrow> bool" where
  "is_number (VNum _) = True"
| "is_number _ = False"

fun elems :: "Val \<Rightarrow> Val list" where
  "elems (VArr _ vs) = vs"
| "elems _ = []"

definition list_or_absent :: "Val \<Rightarrow> bool" where
  "list_or_absent v \<longleftrightarrow> nullish v \<or> is_array v"

section \<open>Conditions\<close>

text \<open>The block of a condition that has a \<^verbatim>\<open>where\<close> clause, and the conditions nested in it.\<close>

definition block :: "Val \<Rightarrow> Val" where
  "block c = (if has ''exists'' c then member ''exists'' c
     else if has ''not_exists'' c then member ''not_exists'' c else member ''count_distinct'' c)"

definition nested :: "Val \<Rightarrow> Val list" where
  "nested c = (if has ''atom'' c then [] else elems (member ''where'' (block c)))"

lemma size_member: "size (member k v) \<le> size v"
proof -
  have "size x < size (VObj i kvs)" if "(k, x) \<in> set kvs" for x i kvs
    using that by (induction kvs) auto
  then show ?thesis by (auto simp: member_def split: Val.splits option.splits dest!: map_of_SomeD) (meson less_imp_le)
qed

lemma size_elems: "x \<in> set (elems v) \<Longrightarrow> size x < size v"
  by (cases v) (auto simp: less_Suc_eq_le dest: size_list_estimation' [where f = size, OF _ order_refl])

lemma size_nested: "x \<in> set (nested c) \<Longrightarrow> size x < size c"
  using size_elems [of x "member ''where'' (block c)"] size_member [of "''where''" "block c"] size_member [of _ c]
  by (auto simp: nested_def block_def split: if_splits intro: less_le_trans)

definition validateHead :: "Val \<Rightarrow> string + unit" where
  "validateHead c =
     (if \<not> is_object c then Inl TypeError
      else if has ''atom'' c then
        (let a = member ''atom'' c; p = member ''pred'' a; as = member ''args'' a
         in if \<not> truthy p \<or> \<not> is_str p then Inl ''CCL atom condition must define a string pred''
            else if \<not> list_or_absent as then Inl (''CCL atom '' @ js_text p @ '' args must be an array when provided'')
            else Inr ())
      else if has ''exists'' c \<or> has ''not_exists'' c then
        (if nullish (block c) then Inl TypeError
         else if \<not> list_or_absent (member ''where'' (block c))
         then Inl (''CCL '' @ (if has ''exists'' c then ''exists'' else ''not_exists'') @ '' where-clause must be an array when provided'')
         else Inr ())
      else if has ''count_distinct'' c then
        (let spec = member ''count_distinct'' c
         in if nullish spec then Inl TypeError
            else if \<not> list_or_absent (member ''vars'' spec) then Inl ''CCL count_distinct vars must be an array when provided''
            else if member ''op'' spec \<notin> VStr ` {''>='', ''>'', ''=='', ''<='', ''<''}
            then Inl (''Unsupported CCL comparison operator: '' @ js_text (member ''op'' spec))
            else if \<not> is_number (member ''value'' spec) then Inl ''CCL count_distinct value must be a finite number''
            else if \<not> list_or_absent (member ''where'' spec) then Inl ''CCL count_distinct where-clause must be an array when provided''
            else Inr ())
      else Inl (''Unsupported CCL condition: '' @ stringify (json_of c)))"

function validateCondition :: "Val \<Rightarrow> string + unit" where
  "validateCondition c = bindE (validateHead c) (\<lambda>_. forE validateCondition (nested c))"
  by auto
termination by (relation "measure size") (auto simp: size_nested)

declare validateCondition.simps [simp del]

section \<open>Entries and policies\<close>

definition validateEntry :: "string \<Rightarrow> Val \<Rightarrow> string + unit" where
  "validateEntry kind e =
     bindE (throw_if (\<not> truthy e \<or> \<not> is_object e) (''CCL '' @ kind @ '' entry must be an object'')) (\<lambda>_.
     let name = member ''name'' e in
     bindE (throw_if (\<not> truthy name \<or> \<not> is_str name) (''CCL '' @ kind @ '' entry must define a string name'')) (\<lambda>_.
     bindE (throw_if (\<not> list_or_absent (member ''params'' e))
       (''CCL '' @ kind @ '' '' @ js_text name @ '' params must be an array when provided'')) (\<lambda>_.
     bindE (throw_if (\<not> list_or_absent (member ''all'' e))
       (''CCL '' @ kind @ '' '' @ js_text name @ '' all-clause must be an array when provided'')) (\<lambda>_.
     forE validateCondition (elems (member ''all'' e))))))"

definition parseCclPolicy :: "(string \<Rightarrow> Val option) \<Rightarrow> string \<Rightarrow> string + Val" where
  "parseCclPolicy load content =
     (case load content of
        None \<Rightarrow> Inl ''YAMLException''
      | Some parsed \<Rightarrow> if \<not> truthy parsed \<or> \<not> is_object parsed then Inl ''CCL policy must be a YAML object'' else Inr parsed)"

definition validateCclPolicy :: "(string \<Rightarrow> Val option) \<Rightarrow> string \<Rightarrow> string \<Rightarrow> string \<Rightarrow> string + Val" where
  "validateCclPolicy load content expectedName expectedVersion =
     bindE (parseCclPolicy load content) (\<lambda>policy.
     let name = member ''policy'' policy; version = member ''version'' policy;
         rules = member ''rules'' policy; decisions = member ''decisions'' policy in
     bindE (throw_if (\<not> truthy name \<or> \<not> is_str name) ''CCL policy must define a string \"policy\" name'') (\<lambda>_.
     bindE (throw_if (\<not> truthy version \<or> \<not> is_str version) ''CCL policy must define a string \"version\"'') (\<lambda>_.
     bindE (throw_if (expectedName \<noteq> [] \<and> name \<noteq> VStr expectedName)
       (''CCL policy name mismatch: expected '' @ expectedName @ '', got '' @ js_text name)) (\<lambda>_.
     bindE (throw_if (expectedVersion \<noteq> [] \<and> version \<noteq> VStr expectedVersion)
       (''CCL policy version mismatch: expected '' @ expectedVersion @ '', got '' @ js_text version)) (\<lambda>_.
     bindE (throw_if (\<not> list_or_absent rules) ''CCL policy \"rules\" must be an array when provided'') (\<lambda>_.
     bindE (throw_if (\<not> list_or_absent decisions) ''CCL policy \"decisions\" must be an array when provided'') (\<lambda>_.
     bindE (forE (validateEntry ''rule'') (elems rules)) (\<lambda>_.
     bindE (forE (validateEntry ''decision'') (elems decisions)) (\<lambda>_.
     Inr policy)))))))))"

section \<open>Values of the declared types\<close>

function cond_of :: "Val \<Rightarrow> CclCondition option" where
  "cond_of c =
     (if has ''atom'' c then
        (case member ''pred'' (member ''atom'' c) of
           VStr p \<Rightarrow> Some (CAtom p (elems (member ''args'' (member ''atom'' c)))) | _ \<Rightarrow> None)
      else if has ''exists'' c then map_option CExists (those (map cond_of (nested c)))
      else if has ''not_exists'' c then map_option CNotExists (those (map cond_of (nested c)))
      else if has ''count_distinct'' c then
        (case (those (map (\<lambda>v. case v of VStr s \<Rightarrow> Some s | _ \<Rightarrow> None) (elems (member ''vars'' (block c)))),
               those (map cond_of (nested c)), member ''op'' (block c), member ''value'' (block c)) of
           (Some vars, Some wh, VStr op, VNum n) \<Rightarrow> Some (CCount vars wh op n) | _ \<Rightarrow> None)
      else None)"
  by auto
termination by (relation "measure size") (auto simp: size_nested)

declare cond_of.simps [simp del]

definition entry_of :: "Val \<Rightarrow> CclEntry option" where
  "entry_of e =
     (case (member ''name'' e, those (map (\<lambda>v. case v of VStr s \<Rightarrow> Some s | _ \<Rightarrow> None) (elems (member ''params'' e))),
            those (map cond_of (elems (member ''all'' e)))) of
        (VStr n, Some ps, Some cs) \<Rightarrow> Some \<lparr>e_name = n, e_params = ps, e_all = cs\<rparr> | _ \<Rightarrow> None)"

definition policy_of :: "Val \<Rightarrow> CclCanonicalPolicy option" where
  "policy_of v =
     (case (member ''policy'' v, member ''version'' v, those (map entry_of (elems (member ''rules'' v))),
            those (map entry_of (elems (member ''decisions'' v)))) of
        (VStr n, VStr ver, Some rs, Some ds) \<Rightarrow> Some \<lparr>p_policy = n, p_version = ver, p_rules = rs, p_decisions = ds\<rparr> | _ \<Rightarrow> None)"

text \<open>What validation leaves open: whether the parameters and counted variables are strings.\<close>

function var_strings :: "Val \<Rightarrow> bool" where
  "var_strings c \<longleftrightarrow> (has ''atom'' c \<or> list_all is_str (elems (member ''vars'' (block c)))) \<and> list_all var_strings (nested c)"
  by auto
termination by (relation "measure size") (auto simp: size_nested)

declare var_strings.simps [simp del]

definition entry_strings :: "Val \<Rightarrow> bool" where
  "entry_strings e \<longleftrightarrow> list_all is_str (elems (member ''params'' e)) \<and> list_all var_strings (elems (member ''all'' e))"

definition policy_strings :: "Val \<Rightarrow> bool" where
  "policy_strings v \<longleftrightarrow> list_all entry_strings (elems (member ''rules'' v)) \<and> list_all entry_strings (elems (member ''decisions'' v))"

section \<open>Accepted policies have the declared types\<close>

lemma those_all: "(\<And>x. x \<in> set xs \<Longrightarrow> \<exists>y. f x = Some y \<and> P y) \<Longrightarrow> \<exists>ys. those (map f xs) = Some ys \<and> list_all P ys"
  by (induction xs) fastforce+

lemma those_strings: "list_all is_str vs \<Longrightarrow> \<exists>ss. those (map (\<lambda>v. case v of VStr s \<Rightarrow> Some s | _ \<Rightarrow> None) vs) = Some ss"
  using those_all [of vs "\<lambda>v. case v of VStr s \<Rightarrow> Some s | _ \<Rightarrow> None" "\<lambda>_. True"]
  by (fastforce simp: list_all_iff elim: is_str.elims)

lemma validateCondition_Inr:
  "validateCondition c = Inr u \<longleftrightarrow> validateHead c = Inr () \<and> (\<forall>x \<in> set (nested c). validateCondition x = Inr ())"
  by (subst validateCondition.simps) (auto simp: bindE_Inr forE_Inr)

lemma is_strE: "is_str v \<Longrightarrow> (\<And>s. v = VStr s \<Longrightarrow> P) \<Longrightarrow> P"
  by (cases v) auto

lemma is_numberE: "is_number v \<Longrightarrow> (\<And>n. v = VNum n \<Longrightarrow> P) \<Longrightarrow> P"
  by (cases v) auto

lemma cond_of_validated:
  "validateCondition c = Inr u \<Longrightarrow> var_strings c \<Longrightarrow> \<exists>d. cond_of c = Some d \<and> ops_ok d"
proof (induction c arbitrary: u rule: cond_of.induct)
  case (1 c)
  have head: "validateHead c = Inr ()" and nest: "\<And>x. x \<in> set (nested c) \<Longrightarrow> validateCondition x = Inr ()"
    using validateCondition_Inr [THEN iffD1, OF 1(4)] by auto
  have vars: "has ''atom'' c \<or> list_all is_str (elems (member ''vars'' (block c)))"
    "\<And>x. x \<in> set (nested c) \<Longrightarrow> var_strings x"
    using 1(5) by (auto simp: var_strings.simps [of c] list_all_iff)
  consider (atom) "has ''atom'' c" | (ex) "\<not> has ''atom'' c" "has ''exists'' c"
    | (nex) "\<not> has ''atom'' c" "\<not> has ''exists'' c" "has ''not_exists'' c"
    | (cnt) "\<not> has ''atom'' c" "\<not> has ''exists'' c" "\<not> has ''not_exists'' c" "has ''count_distinct'' c"
    using head by (auto simp: validateHead_def split: if_splits)
  then show ?case
  proof cases
    case atom
    then have "is_str (member ''pred'' (member ''atom'' c))"
      using head by (auto simp: validateHead_def Let_def split: if_splits)
    then show ?thesis using atom by (auto simp: cond_of.simps [of c] elim: is_strE)
  next
    case ex
    have "\<exists>ds. those (map cond_of (nested c)) = Some ds \<and> list_all ops_ok ds"
      by (rule those_all) (use 1(1) ex nest vars(2) in blast)
    then show ?thesis using ex by (auto simp: cond_of.simps [of c])
  next
    case nex
    have "\<exists>ds. those (map cond_of (nested c)) = Some ds \<and> list_all ops_ok ds"
      by (rule those_all) (use 1(2) nex nest vars(2) in blast)
    then show ?thesis using nex by (auto simp: cond_of.simps [of c])
  next
    case cnt
    have "\<exists>ds. those (map cond_of (nested c)) = Some ds \<and> list_all ops_ok ds"
      by (rule those_all) (use 1(3) cnt nest vars(2) in blast)
    then obtain ds where ds: "those (map cond_of (nested c)) = Some ds" "list_all ops_ok ds" by blast
    have b: "block c = member ''count_distinct'' c" using cnt by (simp add: block_def)
    obtain op n where "member ''op'' (block c) = VStr op" "known_op op" "member ''value'' (block c) = VNum n"
      using head cnt by (auto simp: validateHead_def Let_def known_op_def b split: if_splits elim!: is_numberE)
    then show ?thesis using those_strings vars(1) ds cnt by (fastforce simp: cond_of.simps [of c])
  qed
qed

lemma entry_of_validated:
  assumes "validateEntry kind e = Inr u" "entry_strings e"
  shows "\<exists>d. entry_of e = Some d \<and> ops_known d"
proof -
  have v: "is_str (member ''name'' e)" "\<And>c. c \<in> set (elems (member ''all'' e)) \<Longrightarrow> validateCondition c = Inr ()"
    using assms(1) by (auto simp: validateEntry_def Let_def forE_Inr)
  obtain ps where ps: "those (map (\<lambda>v. case v of VStr s \<Rightarrow> Some s | _ \<Rightarrow> None) (elems (member ''params'' e))) = Some ps"
    using assms(2) those_strings by (auto simp: entry_strings_def)
  have "\<exists>cs. those (map cond_of (elems (member ''all'' e))) = Some cs \<and> list_all ops_ok cs"
    by (rule those_all) (rule cond_of_validated, erule v(2), use assms(2) in \<open>simp add: entry_strings_def list_all_iff\<close>)
  then show ?thesis using v(1) ps by (auto simp: entry_of_def ops_known_def elim!: is_strE)
qed

lemma policy_of_validated:
  assumes "validateCclPolicy load content en ev = Inr v" "policy_strings v"
  shows "\<exists>p. policy_of v = Some p \<and> list_all ops_known (p_rules p) \<and> list_all ops_known (p_decisions p)
    \<and> (en \<noteq> [] \<longrightarrow> p_policy p = en) \<and> (ev \<noteq> [] \<longrightarrow> p_version p = ev)"
proof -
  have v: "is_str (member ''policy'' v)" "is_str (member ''version'' v)"
      "en \<noteq> [] \<longrightarrow> member ''policy'' v = VStr en" "ev \<noteq> [] \<longrightarrow> member ''version'' v = VStr ev"
      "\<And>e. e \<in> set (elems (member ''rules'' v)) \<Longrightarrow> validateEntry ''rule'' e = Inr ()"
      "\<And>e. e \<in> set (elems (member ''decisions'' v)) \<Longrightarrow> validateEntry ''decision'' e = Inr ()"
    using assms(1) by (auto simp: validateCclPolicy_def Let_def bindE_Inr forE_Inr)
  have rules: "\<exists>rs. those (map entry_of (elems (member ''rules'' v))) = Some rs \<and> list_all ops_known rs"
    by (rule those_all) (rule entry_of_validated, erule v(5), use assms(2) in \<open>simp add: policy_strings_def list_all_iff\<close>)
  have "\<exists>ds. those (map entry_of (elems (member ''decisions'' v))) = Some ds \<and> list_all ops_known ds"
    by (rule those_all) (rule entry_of_validated, erule v(6), use assms(2) in \<open>simp add: policy_strings_def list_all_iff\<close>)
  then show ?thesis using rules v(1-4) by (auto simp: policy_of_def elim!: is_strE)
qed

section \<open>Evaluation of a well-typed policy fails only by not converging\<close>

lemma pushAll_total: "(\<And>b. \<exists>out. f b = Inr out) \<Longrightarrow> \<exists>out. pushAll f bs = Inr out"
  by (induction bs) (auto, metis bindE_simps(2))

lemma evaluate_total:
  "ops_ok c \<Longrightarrow> \<exists>out. evaluateCondition loc R c b = Inr out"
  "list_all ops_ok cs \<Longrightarrow> \<exists>out. evaluateConditions loc R cs bs = Inr out"
proof (induction loc R c b and loc R cs bs rule: evaluateCondition_evaluateConditions.induct)
  case (4 loc R vars wh op v b)
  then obtain out where "evaluateConditions loc R wh [b] = Inr out" by auto
  then show ?case using compareInts_known [of op _ v] 4(2) by (auto simp: Let_def) (metis bindE_simps(2))
next
  case (6 loc R c cs bs)
  obtain nx where "pushAll (evaluateCondition loc R c) bs = Inr nx" using 6 pushAll_total [of "evaluateCondition loc R c" bs] by auto
  then show ?case using 6(2) 6(3) by (cases "nx = []") auto
qed auto

lemma evaluateEntry_total: "ops_known e \<Longrightarrow> \<exists>ts. evaluateEntry loc R e = Inr ts"
  using evaluate_total(2) [of "e_all e" loc R "[Map.empty]"] by (auto simp: evaluateEntry_def ops_known_def)

lemma apply_rules_total: "list_all ops_known rs \<Longrightarrow> \<exists>st'. apply_rules loc rs st = Inr st'"
proof (induction rs arbitrary: st)
  case (Cons r rs)
  then obtain st1 where "apply_rule loc r st = Inr st1"
    using evaluateEntry_total [of r loc "fst st"] by (cases st) (auto simp: apply_rule_def Let_def)
  then show ?case using Cons by simp
qed simp

lemma derive_rounds_total:
  "list_all ops_known rs \<Longrightarrow> derive_rounds n loc rs R = Inl e \<Longrightarrow> e = ''CCL fixpoint did not converge''"
proof (induction n arbitrary: R)
  case (Suc n)
  then obtain R1 c where "apply_rules loc rs (R, False) = Inr (R1, c)" using apply_rules_total by fastforce
  then show ?case using Suc by (auto split: if_splits)
qed simp

lemma evaluateDecisions_total: "list_all ops_known ds \<Longrightarrow> \<exists>out. evaluateDecisions loc R ds acc = Inr out"
proof (induction ds arbitrary: acc)
  case (Cons d ds)
  then obtain ts where "evaluateEntry loc R d = Inr ts" using evaluateEntry_total by fastforce
  then show ?case using Cons by simp
qed simp

lemma ccl_run_error:
  assumes "list_all ops_known (p_rules p)" "list_all ops_known (p_decisions p)" "ccl_run loc p facts = Inl e"
  shows "e = ''CCL fixpoint did not converge''"
proof (cases "deriveFixpoint loc (p_rules p) (load_facts facts)")
  case (Inl e')
  then show ?thesis using assms(3) derive_rounds_total [OF assms(1)] by (auto simp: ccl_run_def deriveFixpoint_def)
next
  case (Inr R)
  then show ?thesis using assms(3) evaluateDecisions_total [OF assms(2), of loc R "[]"] by (auto simp: ccl_run_def)
qed

end
