(* ===== verification/CclOrder.thy ===== *)
theory CclOrder
  imports CclValidate
begin

text \<open>
  Determinism of the evaluator: what \<^verbatim>\<open>ccl_v0_1/LANGUAGE_SPEC.md\<close> asks of it, that the result depends on the
  facts as a set and not on the order in which a store returns them. The order of \<^verbatim>\<open>localeCompare\<close> is a
  parameter, so two nodes with different collations are two instances. It may call different texts equal (texts that
  differ in ignorable characters, or that are canonically equivalent), and \<^verbatim>\<open>sort\<close> is stable: then the order of
  the facts shows in the order of the tuples, never in the sets of tuples.
\<close>

section \<open>Sorting with a collation\<close>

text \<open>
  A consistent comparator, as the standard requires of \<^verbatim>\<open>localeCompare\<close>: total and transitive, possibly with ties;
  and tuples whose texts it tells apart.
\<close>

definition comparator :: "(string \<Rightarrow> string \<Rightarrow> int) \<Rightarrow> bool" where
  "comparator loc \<longleftrightarrow> (\<forall>a b. loc a b \<le> 0 \<or> loc b a \<le> 0) \<and> (\<forall>a b c. loc a b \<le> 0 \<and> loc b c \<le> 0 \<longrightarrow> loc a c \<le> 0)"

definition no_ties :: "(string \<Rightarrow> string \<Rightarrow> int) \<Rightarrow> Val list set \<Rightarrow> bool" where
  "no_ties loc T \<longleftrightarrow> (\<forall>t \<in> T. \<forall>u \<in> T. compareTuples loc t u \<le> 0 \<and> compareTuples loc u t \<le> 0 \<longrightarrow> t = u)"

lemma no_ties_subset: "no_ties loc T \<Longrightarrow> U \<subseteq> T \<Longrightarrow> no_ties loc U"
  unfolding no_ties_def by blast

lemma sorted_wrt_js_insert:
  assumes "\<And>x y. P x y \<longleftrightarrow> cmp x y \<le> 0" "\<And>x y. P x y \<or> P y x" "\<And>x y z. P x y \<Longrightarrow> P y z \<Longrightarrow> P x z"
  shows "sorted_wrt P xs \<Longrightarrow> sorted_wrt P (js_insert cmp x xs)"
proof (induction xs)
  case (Cons y ys)
  have set: "set (js_insert cmp x ys) = insert x (set ys)" by (metis mset_js_insert set_mset_add_mset_insert set_mset_mset)
  show ?case
  proof (cases "cmp x y \<le> 0")
    case True
    then show ?thesis using Cons.prems assms(1) assms(3) [of x y] by auto
  next
    case False
    then have "P y x" using assms(1,2) by metis
    then show ?thesis using False Cons set by auto
  qed
qed simp

lemma sorted_wrt_js_sort:
  assumes "\<And>x y. P x y \<longleftrightarrow> cmp x y \<le> 0" "\<And>x y. P x y \<or> P y x" "\<And>x y z. P x y \<Longrightarrow> P y z \<Longrightarrow> P x z"
  shows "sorted_wrt P (js_sort cmp xs)"
  by (induction xs) (simp_all add: sorted_wrt_js_insert [OF assms])

lemma sorted_wrt_unique:
  "mset xs = mset ys \<Longrightarrow> sorted_wrt P xs \<Longrightarrow> sorted_wrt P ys \<Longrightarrow>
     (\<And>x y. x \<in> set xs \<Longrightarrow> y \<in> set xs \<Longrightarrow> P x y \<Longrightarrow> P y x \<Longrightarrow> x = y) \<Longrightarrow> xs = ys"
proof (induction xs arbitrary: ys)
  case (Cons x xs)
  obtain y ys' where ys: "ys = y # ys'" using Cons.prems(1) by (cases ys) auto
  have mem: "x \<in> set ys" "y \<in> set (x # xs)" using Cons.prems(1) ys by (metis list.set_intros(1) mset_eq_setD)+
  have "x = y"
  proof (rule ccontr)
    assume "x \<noteq> y"
    then have "P y x" "P x y" using mem ys Cons.prems(2,3) by auto
    then show False using Cons.prems(4) [of x y] mem \<open>x \<noteq> y\<close> by auto
  qed
  then show ?case using Cons ys by auto
qed simp

lemma js_sort_tuples_cong:
  assumes "comparator loc" "mset ts = mset us" "no_ties loc (set ts)"
  shows "js_sort (compareTuples loc) ts = js_sort (compareTuples loc) us"
proof (rule sorted_wrt_unique)
  let ?P = "\<lambda>x y. compareTuples loc x y \<le> 0"
  have P: "?P x y \<or> ?P y x" "?P x y \<Longrightarrow> ?P y z \<Longrightarrow> ?P x z" for x y z
    using assms(1) unfolding comparator_def compareTuples_def by blast+
  show "sorted_wrt ?P (js_sort (compareTuples loc) ts)" "sorted_wrt ?P (js_sort (compareTuples loc) us)"
    by (rule sorted_wrt_js_sort; use P in blast)+
  show "mset (js_sort (compareTuples loc) ts) = mset (js_sort (compareTuples loc) us)" using assms(2) by simp
  show "x = y" if "x \<in> set (js_sort (compareTuples loc) ts)" "y \<in> set (js_sort (compareTuples loc) ts)" "?P x y" "?P y x" for x y
    using assms(3) that by (auto simp: no_ties_def)
qed

section \<open>Results as sets\<close>

definition entry_sets :: "(string \<times> Val list list) list \<Rightarrow> (string \<times> Val list set) list" where
  "entry_sets = map (\<lambda>(n, ts). (n, set ts))"

definition result_sets :: "CclEvaluationResult \<Rightarrow> (string \<times> Val list set) list \<times> (string \<times> Val list set) list" where
  "result_sets res = (entry_sets (r_derived res), entry_sets (r_decisions res))"

definition result_tuples :: "CclEvaluationResult \<Rightarrow> Val list set" where
  "result_tuples res = (\<Union>(n, ts) \<in> set (r_derived res) \<union> set (r_decisions res). set ts)"

text \<open>Every list of a result is the sorted list of distinct tuples.\<close>

definition sorted_entries :: "(string \<Rightarrow> string \<Rightarrow> int) \<Rightarrow> (string \<times> Val list list) list \<Rightarrow> bool" where
  "sorted_entries loc xs \<longleftrightarrow> (\<forall>e \<in> set xs. \<exists>us. distinct us \<and> snd e = js_sort (compareTuples loc) us)"

lemma entry_sets_update: "entry_sets (AList.update k ts xs) = AList.update k (set ts) (entry_sets xs)"
  by (induction xs) (auto simp: entry_sets_def)

lemma set_update_sub: "set (AList.update k v xs) \<subseteq> insert (k, v) (set xs)"
  by (induction xs) auto

lemma sorted_entries_update:
  assumes "sorted_entries loc xs" "distinct us"
  shows "sorted_entries loc (AList.update k (js_sort (compareTuples loc) us) xs)"
  using assms set_update_sub [of k "js_sort (compareTuples loc) us" xs] unfolding sorted_entries_def by fastforce

lemma sorted_entries_eq:
  assumes "comparator loc" "no_ties loc (\<Union>e \<in> set xs. set (snd e))"
  shows "sorted_entries loc xs \<Longrightarrow> sorted_entries loc ys \<Longrightarrow> entry_sets xs = entry_sets ys \<Longrightarrow> xs = ys"
  using assms(2)
proof (induction xs arbitrary: ys)
  case (Cons x xs)
  obtain y ys' where ys: "ys = y # ys'" "fst x = fst y" "set (snd x) = set (snd y)" "entry_sets xs = entry_sets ys'"
    using Cons.prems(3) by (cases ys) (auto simp: entry_sets_def split_beta)
  obtain us vs where us: "distinct us" "snd x = js_sort (compareTuples loc) us"
    and vs: "distinct vs" "snd y = js_sort (compareTuples loc) vs"
    using Cons.prems(1,2) ys(1) by (auto simp: sorted_entries_def)
  have "mset us = mset vs" using us vs ys(3) by (simp add: set_eq_iff_mset_eq_distinct)
  moreover have "no_ties loc (set us)" using Cons.prems(4) us by (auto simp: no_ties_def)
  ultimately have "snd x = snd y" using js_sort_tuples_cong [OF assms(1)] us(2) vs(2) by simp
  moreover have "xs = ys'" using Cons.IH [of ys'] Cons.prems ys by (auto simp: sorted_entries_def no_ties_def)
  ultimately show ?case using ys by (simp add: prod_eq_iff)
qed (simp add: entry_sets_def)

lemma evaluateEntry_listing:
  assumes "wf_rels R" "ops_known e"
  shows "\<exists>us. evaluateEntry loc R e = Inr (js_sort (compareTuples loc) us) \<and> distinct us \<and> set us = heads (tuples R) e"
proof -
  obtain ts where ts: "evaluateEntry loc R e = Inr ts" "set ts = heads (tuples R) e"
    using evaluateEntry_exact [OF assms] by blast
  then obtain bs where bs: "ts = sortedTuples loc (fold add_tuple bs [])" by (auto simp: evaluateEntry_def bindE_Inr)
  let ?us = "map snd (fold add_tuple bs [])"
  have keyed: "(\<forall>e \<in> set (fold add_tuple bs r). fst e = tupleKey (snd e)) \<and> distinct (map fst (fold add_tuple bs r))"
    if "\<forall>e \<in> set r. fst e = tupleKey (snd e)" "distinct (map fst r)" for r :: relation
    using that
  proof (induction bs arbitrary: r)
    case (Cons t bs)
    have "e = (tupleKey t, t) \<or> e \<in> set r" if "e \<in> set (add_tuple t r)" for e
      using that set_update_sub [of "tupleKey t" t r] unfolding add_tuple_def by blast
    then have "\<forall>e \<in> set (add_tuple t r). fst e = tupleKey (snd e)" using Cons.prems(1) by (metis fst_conv snd_conv)
    moreover have "distinct (map fst (add_tuple t r))" using Cons.prems(2) by (simp add: add_tuple_def distinct_update)
    ultimately show ?case unfolding fold_simps by (rule Cons.IH)
  qed simp
  from keyed [of "[]"] have k: "\<forall>e \<in> set (fold add_tuple bs []). fst e = tupleKey (snd e)" "distinct (map fst (fold add_tuple bs []))"
    by simp_all
  have "map fst (fold add_tuple bs []) = map tupleKey ?us" using k(1) by simp
  then have "distinct ?us" using k(2) distinct_map by metis
  then show ?thesis using ts bs by (auto simp: sortedTuples_def)
qed

lemma evaluateDecisions_listing:
  assumes "wf_rels R"
  shows "list_all ops_known ds \<Longrightarrow> sorted_entries loc acc \<Longrightarrow>
    \<exists>out. evaluateDecisions loc R ds acc = Inr out \<and> sorted_entries loc out
      \<and> entry_sets out = fold (\<lambda>d. AList.update (e_name d) (heads (tuples R) d)) ds (entry_sets acc)"
proof (induction ds arbitrary: acc)
  case (Cons d ds)
  obtain us where us: "evaluateEntry loc R d = Inr (js_sort (compareTuples loc) us)" "distinct us" "set us = heads (tuples R) d"
    using evaluateEntry_listing [OF assms, of d loc] Cons.prems(1) by auto
  show ?case
    using Cons.IH [OF _ sorted_entries_update [OF Cons.prems(2) us(2)], of "e_name d"] Cons.prems(1) us
    by (simp add: entry_sets_update)
qed simp

lemma collect_derived_listing:
  assumes "wf_rels R"
  shows "sorted_entries loc (collect_derived loc R rs)"
    "entry_sets (collect_derived loc R rs) = fold (\<lambda>r. AList.update (e_name r) (tuples R (e_name r))) rs []"
proof -
  have d: "distinct (map snd (R p))" for p
    using assms wf_rel_card [of "R p"] by (simp add: card_distinct wf_rels_def)
  have "sorted_entries loc acc \<Longrightarrow> sorted_entries loc (fold (\<lambda>r acc. AList.update (e_name r) (sortedTuples loc (R (e_name r))) acc) rs acc)
      \<and> entry_sets (fold (\<lambda>r acc. AList.update (e_name r) (sortedTuples loc (R (e_name r))) acc) rs acc)
        = fold (\<lambda>r. AList.update (e_name r) (tuples R (e_name r))) rs (entry_sets acc)" for acc
  proof (induction rs arbitrary: acc)
    case (Cons r rs)
    have "sorted_entries loc (AList.update (e_name r) (sortedTuples loc (R (e_name r))) acc)"
      using sorted_entries_update [OF Cons.prems d] by (simp add: sortedTuples_def)
    from Cons.IH [OF this] show ?case by (simp add: entry_sets_update sortedTuples_def tuples_def)
  qed simp
  from this [of "[]"] show "sorted_entries loc (collect_derived loc R rs)"
    "entry_sets (collect_derived loc R rs) = fold (\<lambda>r. AList.update (e_name r) (tuples R (e_name r))) rs []"
    by (simp_all add: collect_derived_def sorted_entries_def entry_sets_def)
qed

section \<open>Runs on the same facts\<close>

definition same_rels :: "relations \<Rightarrow> relations \<Rightarrow> bool" where
  "same_rels R S \<longleftrightarrow> wf_rels R \<and> wf_rels S \<and> tuples R = tuples S"

lemma derive_rounds_same:
  assumes "list_all ops_known rs" "list_all safe rs"
  shows "same_rels R S \<Longrightarrow> (\<exists>e. derive_rounds n loc rs R = Inl e \<and> derive_rounds n loc' rs S = Inl e)
    \<or> (\<exists>R' S'. derive_rounds n loc rs R = Inr R' \<and> derive_rounds n loc' rs S = Inr S' \<and> same_rels R' S')"
proof (induction n arbitrary: R S)
  case (Suc n)
  have wf: "wf_rels R" "wf_rels S" "tuples R = tuples S" using Suc.prems by (auto simp: same_rels_def)
  obtain R1 c where 1: "apply_rules loc rs (R, False) = Inr (R1, c)" "wf_rels R1" "tuples R1 = policy_round rs (tuples R)"
      "c \<longleftrightarrow> tuples R1 \<noteq> tuples R"
    using apply_rules_exact [OF wf(1) assms, of loc False] by auto
  obtain S1 d where 2: "apply_rules loc' rs (S, False) = Inr (S1, d)" "wf_rels S1" "tuples S1 = policy_round rs (tuples S)"
      "d \<longleftrightarrow> tuples S1 \<noteq> tuples S"
    using apply_rules_exact [OF wf(2) assms, of loc' False] by auto
  have "same_rels R1 S1" "c = d" using 1 2 wf(3) by (auto simp: same_rels_def)
  then show ?case using Suc.IH [of R1 S1] 1(1) 2(1) by auto
qed simp

lemma ccl_run_same:
  assumes "list_all ops_known (p_rules p)" "list_all safe (p_rules p)" "list_all ops_known (p_decisions p)"
    and "scalar_facts f" "scalar_facts g" "set f = set g"
  shows "(\<exists>e. ccl_run loc p f = Inl e \<and> ccl_run loc' p g = Inl e)
    \<or> (\<exists>x y. ccl_run loc p f = Inr x \<and> ccl_run loc' p g = Inr y \<and> result_sets x = result_sets y
         \<and> sorted_entries loc (r_derived x) \<and> sorted_entries loc (r_decisions x)
         \<and> sorted_entries loc' (r_derived y) \<and> sorted_entries loc' (r_decisions y))"
proof -
  have "fact_interp f = fact_interp g" using assms(6) by (auto simp: fact_interp_def)
  then have "same_rels (load_facts f) (load_facts g)"
    using load_facts_exact [OF assms(4)] load_facts_exact [OF assms(5)] by (simp add: same_rels_def)
  from derive_rounds_same [OF assms(1,2) this, of 64 loc loc'] show ?thesis
  proof (elim disjE exE conjE)
    fix R S assume R: "derive_rounds 64 loc (p_rules p) (load_facts f) = Inr R"
      "derive_rounds 64 loc' (p_rules p) (load_facts g) = Inr S" and same: "same_rels R S"
    have wf: "wf_rels R" "wf_rels S" "tuples R = tuples S" using same by (auto simp: same_rels_def)
    have nil: "sorted_entries l []" for l by (simp add: sorted_entries_def)
    show ?thesis
      using evaluateDecisions_listing [OF wf(1) assms(3) nil, of loc] evaluateDecisions_listing [OF wf(2) assms(3) nil, of loc']
        collect_derived_listing [OF wf(1), of loc "p_rules p"] collect_derived_listing [OF wf(2), of loc' "p_rules p"] R wf(3)
      by (auto simp: ccl_run_def deriveFixpoint_def result_sets_def)
  qed (simp add: ccl_run_def deriveFixpoint_def)
qed

section \<open>The hash of a set of facts\<close>

definition fact_row :: "CclFactTuple \<Rightarrow> Val list" where
  "fact_row f = VStr (fst f) # snd f"

definition facts_text :: "(string \<Rightarrow> string \<Rightarrow> int) \<Rightarrow> CclFactTuple list \<Rightarrow> string" where
  "facts_text loc facts =
     stringify (JVarr (map (\<lambda>t. JVarr (map json_of t)) (js_sort (compareTuples loc) (map fact_row facts))))"

lemma hashCclFacts_text: "hashCclFacts loc sha facts = ''sha256:'' @ hex_bytes (sha (utf8 (facts_text loc facts)))"
proof -
  have "map (\<lambda>(p, as). VStr p # as) facts = map fact_row facts" by (auto simp: fact_row_def)
  then show ?thesis by (simp only: hashCclFacts_def facts_text_def)
qed

lemma inj_fact_row: "inj fact_row"
  by (auto simp: inj_def fact_row_def prod_eq_iff)

lemma json_rows_inj:
  assumes "\<forall>t \<in> set ts. list_all scalar t" "\<forall>t \<in> set us. list_all scalar t"
    and "stringify (JVarr (map (\<lambda>t. JVarr (map json_of t)) ts)) = stringify (JVarr (map (\<lambda>t. JVarr (map json_of t)) us))"
  shows "ts = us"
proof -
  have plain: "jplain (JVarr (map (\<lambda>t. JVarr (map json_of t)) xs))" if "\<forall>t \<in> set xs. list_all scalar t" for xs
    using that by (auto simp: list_all_iff intro: jplain_json_of)
  have "map (\<lambda>t. JVarr (map json_of t)) ts = map (\<lambda>t. JVarr (map json_of t)) us"
    using stringify_inj [OF assms(3) plain [OF assms(1)] plain [OF assms(2)]] by simp
  moreover have "inj_on (\<lambda>t. JVarr (map json_of t)) (set ts \<union> set us)"
  proof (rule inj_onI)
    fix t u assume "t \<in> set ts \<union> set us" "u \<in> set ts \<union> set us" "JVarr (map json_of t) = JVarr (map json_of u)"
    moreover from this have "tupleKey t = tupleKey u" by (simp add: tupleKey_def)
    ultimately show "t = u" using tupleKey_scalar assms(1,2) by blast
  qed
  ultimately show ?thesis by (rule map_inj_on)
qed

lemma facts_scalar_rows: "scalar_facts h \<Longrightarrow> \<forall>t \<in> set (map fact_row h). list_all scalar t"
  by (auto simp: scalar_facts_def fact_row_def)

lemma facts_text_determines:
  assumes "scalar_facts f" "scalar_facts g" "facts_text loc f = facts_text loc g"
  shows "mset f = mset g"
proof -
  have "js_sort (compareTuples loc) (map fact_row f) = js_sort (compareTuples loc) (map fact_row g)"
    using json_rows_inj [of "js_sort (compareTuples loc) (map fact_row f)" "js_sort (compareTuples loc) (map fact_row g)"]
      facts_scalar_rows assms by (simp add: facts_text_def)
  then have "mset (map fact_row f) = mset (map fact_row g)" by (metis mset_js_sort)
  moreover have "mset h = image_mset (inv fact_row) (mset (map fact_row h))" for h
    by (simp add: multiset.map_comp comp_def inv_f_f [OF inj_fact_row])
  ultimately show ?thesis by metis
qed

lemma facts_text_cong:
  assumes "comparator loc" "no_ties loc (fact_row ` set f)" "mset f = mset g"
  shows "facts_text loc f = facts_text loc g"
proof -
  have "mset (map fact_row f) = mset (map fact_row g)" "no_ties loc (set (map fact_row f))" using assms(2,3) by simp_all
  from js_sort_tuples_cong [OF assms(1) this] show ?thesis by (simp only: facts_text_def)
qed

end
