(* ===== verification/CclProperties.thy ===== *)
theory CclProperties
  imports CclOrder
begin

text \<open>
  The properties of policy evaluation: policies whose rules refer to facts and earlier rules get their
  unique model, policies without negation their least model, policies without recursion always an
  answer; an accepted policy cannot fail otherwise; results and hashes do not depend on the order of facts.
\<close>

section \<open>Results of a run\<close>

definition result_of :: "(string \<times> Val list list) list \<Rightarrow> string \<Rightarrow> Val list set \<Rightarrow> bool" where
  "result_of entries name S \<longleftrightarrow> (\<exists>ts. map_of entries name = Some ts \<and> set ts = S)"

lemma map_of_collect:
  "map_of (fold (\<lambda>r acc. AList.update (e_name r) (g (e_name r)) acc) rs acc) x
     = (if x \<in> e_name ` set rs then Some (g x) else map_of acc x)"
  by (induction rs arbitrary: acc) (auto simp: map_of_update_key)

lemma collect_derived_result: "r \<in> set rs \<Longrightarrow> result_of (collect_derived loc R rs) (e_name r) (tuples R (e_name r))"
  using map_of_collect [of "\<lambda>x. sortedTuples loc (R x)" rs "[]" "e_name r"]
  by (auto simp: result_of_def collect_derived_def sortedTuples_def tuples_def)

lemma evaluateDecisions_result:
  assumes "wf_rels R"
  shows "list_all ops_known ds \<Longrightarrow> distinct (map e_name ds) \<Longrightarrow>
    \<exists>out. evaluateDecisions loc R ds acc = Inr out \<and> (\<forall>d \<in> set ds. result_of out (e_name d) (heads (tuples R) d))
      \<and> (\<forall>x. x \<notin> e_name ` set ds \<longrightarrow> map_of out x = map_of acc x)"
proof (induction ds arbitrary: acc)
  case (Cons d ds)
  obtain ts where ts: "evaluateEntry loc R d = Inr ts" "set ts = heads (tuples R) d"
    using evaluateEntry_exact [OF assms, of d loc] Cons.prems(1) by auto
  obtain out where out: "evaluateDecisions loc R ds (AList.update (e_name d) ts acc) = Inr out"
      "\<forall>d \<in> set ds. result_of out (e_name d) (heads (tuples R) d)"
      "\<forall>x. x \<notin> e_name ` set ds \<longrightarrow> map_of out x = map_of (AList.update (e_name d) ts acc) x"
    using Cons by fastforce
  have "result_of out (e_name d) (heads (tuples R) d)"
    using out(3) Cons.prems(2) ts(2) by (auto simp: result_of_def map_of_update_key)
  then show ?case using ts out by (auto simp: map_of_update_key)
qed simp

definition policy_ok :: "CclCanonicalPolicy \<Rightarrow> bool" where
  "policy_ok p \<longleftrightarrow> list_all ops_known (p_rules p) \<and> list_all ops_known (p_decisions p) \<and> list_all safe (p_rules p)
     \<and> distinct (map e_name (p_decisions p))"

text \<open>A run answers \<open>I\<close>: the derived relations are those of \<open>I\<close>, the decisions those that \<open>I\<close> gives.\<close>

definition answers :: "CclCanonicalPolicy \<Rightarrow> CclEvaluationResult \<Rightarrow> interp \<Rightarrow> bool" where
  "answers p res I \<longleftrightarrow> (\<forall>r \<in> set (p_rules p). result_of (r_derived res) (e_name r) (I (e_name r)))
     \<and> (\<forall>d \<in> set (p_decisions p). result_of (r_decisions res) (e_name d) (heads I d))"

lemma ccl_run_answers:
  assumes "policy_ok p" "deriveFixpoint loc (p_rules p) (load_facts facts) = Inr R" "wf_rels R"
  shows "\<exists>res. ccl_run loc p facts = Inr res \<and> answers p res (tuples R)"
proof -
  obtain out where "evaluateDecisions loc R (p_decisions p) [] = Inr out"
      "\<forall>d \<in> set (p_decisions p). result_of out (e_name d) (heads (tuples R) d)"
    using evaluateDecisions_result [OF assms(3), of "p_decisions p" loc "[]"] assms(1) by (auto simp: policy_ok_def)
  then show ?thesis using assms(2) collect_derived_result by (simp add: ccl_run_def answers_def)
qed

lemma ccl_run_fixpoint:
  assumes "policy_ok p" "scalar_facts facts" "ccl_run loc p facts = Inr res"
  shows "\<exists>k. answers p res ((policy_round (p_rules p) ^^ k) (fact_interp facts))
    \<and> closed_under (p_rules p) ((policy_round (p_rules p) ^^ k) (fact_interp facts))
    \<and> finite_interp ((policy_round (p_rules p) ^^ k) (fact_interp facts))"
proof -
  note wf = load_facts_exact [OF assms(2)]
  obtain R where R: "deriveFixpoint loc (p_rules p) (load_facts facts) = Inr R"
    using assms(3) by (auto simp: ccl_run_def bindE_Inr)
  obtain k where k: "wf_rels R" "policy_round (p_rules p) (tuples R) = tuples R"
      "tuples R = (policy_round (p_rules p) ^^ k) (fact_interp facts)"
    using derive_rounds_sound [of "p_rules p" "load_facts facts" 64 loc R] R assms(1) wf
    by (auto simp: policy_ok_def deriveFixpoint_def)
  have "answers p res (tuples R)" using ccl_run_answers [OF assms(1) R k(1)] assms(3) by simp
  moreover have "finite_interp (tuples R)"
    using wf_rels_scalar [OF k(1)] by (simp add: finite_interp_def tuples_def)
  ultimately show ?thesis using k closed_fixpoint by metis
qed

lemma ccl_run_returns:
  assumes "policy_ok p" "scalar_facts facts" "k < 64"
    and "policy_round (p_rules p) ((policy_round (p_rules p) ^^ k) (fact_interp facts)) = (policy_round (p_rules p) ^^ k) (fact_interp facts)"
  shows "\<exists>res. ccl_run loc p facts = Inr res"
proof -
  note wf = load_facts_exact [OF assms(2)]
  obtain R where R: "deriveFixpoint loc (p_rules p) (load_facts facts) = Inr R"
    using derive_rounds_returns [of "p_rules p" "load_facts facts" k 64 loc] assms wf
    by (auto simp: policy_ok_def deriveFixpoint_def)
  then have "wf_rels R"
    using derive_rounds_sound [of "p_rules p" "load_facts facts" 64 loc R] assms(1) wf
    by (auto simp: policy_ok_def deriveFixpoint_def)
  then show ?thesis using ccl_run_answers [OF assms(1) R] by blast
qed

lemma ordered_iterate:
  assumes "ordered rs" "policy_round rs ((policy_round rs ^^ k) b) = (policy_round rs ^^ k) b"
  shows "(policy_round rs ^^ k) b = policy_round rs b"
proof -
  have "(policy_round rs ^^ Suc j) b = policy_round rs b" for j
    by (induction j) (use ordered_round_fixpoint [OF assms(1), of b] in simp_all)
  then show ?thesis using assms(2) by (metis funpow.simps(2) comp_apply)
qed

text \<open>The unique model of ordered rules, and the least model of positive ones.\<close>

definition unique_model :: "CclEntry list \<Rightarrow> interp \<Rightarrow> interp \<Rightarrow> bool" where
  "unique_model rs base I \<longleftrightarrow> completion rs base I \<and> (\<forall>J. completion rs base J \<longrightarrow> J = I)"

definition least_model :: "CclEntry list \<Rightarrow> interp \<Rightarrow> interp \<Rightarrow> bool" where
  "least_model rs base I \<longleftrightarrow> closed_under rs I \<and> (\<forall>q. base q \<subseteq> I q)
     \<and> (\<forall>J. finite_interp J \<longrightarrow> closed_under rs J \<longrightarrow> (\<forall>q. base q \<subseteq> J q) \<longrightarrow> (\<forall>q. I q \<subseteq> J q))"

definition positive_rules :: "CclEntry list \<Rightarrow> bool" where
  "positive_rules rs \<longleftrightarrow> (\<forall>r \<in> set rs. list_all positive (e_all r))"

text \<open>The only error of a policy, whatever the facts.\<close>

definition only_diverges :: "CclCanonicalPolicy \<Rightarrow> bool" where
  "only_diverges p \<longleftrightarrow> (\<forall>loc facts e. ccl_run loc p facts = Inl e \<longrightarrow> e = ''CCL fixpoint did not converge'')"

section \<open>A policy of the repository\<close>

text \<open>\<^verbatim>\<open>ccl_v0_1/policies/context_corroboration.yaml\<close>, and facts for it.\<close>

abbreviation C :: Val where "C \<equiv> VStr ''$C''"
abbreviation E :: Val where "E \<equiv> VStr ''$E''"

definition corroboration_policy :: CclCanonicalPolicy where
  "corroboration_policy = \<lparr>p_policy = ''context_corroboration'', p_version = ''0.1.0'',
     p_rules =
       [\<lparr>e_name = ''corroborated'', e_params = [''C''],
          e_all = [CAtom ''claim'' [C],
            CCount [''E''] [CAtom ''supports'' [E, C], CAtom ''evidence_view'' [E, VStr ''accepted''], CAtom ''independent'' [E]] ''>='' 2,
            CExists [CAtom ''supports'' [E, C], CAtom ''evidence_view'' [E, VStr ''accepted''], CAtom ''authority_class'' [E, VStr ''vendor'']],
            CNotExists [CAtom ''contradicts'' [VStr ''$C2'', C], CAtom ''accepted_status'' [VStr ''$C2'', VStr ''accepted'']]]\<rparr>,
        \<lparr>e_name = ''disputed'', e_params = [''C''],
          e_all = [CAtom ''claim'' [C],
            CExists [CAtom ''contradicts'' [VStr ''$C2'', C], CAtom ''accepted_status'' [VStr ''$C2'', VStr ''accepted'']]]\<rparr>,
        \<lparr>e_name = ''promotable'', e_params = [''C''],
          e_all = [CAtom ''corroborated'' [C],
            CExists [CAtom ''claim_epoch'' [C, E], CAtom ''quorum_epoch'' [VStr ''incident_review'', E]],
            CAtom ''quorum_reached'' [VStr ''incident_review'', VNum 3, VNum 4]]\<rparr>],
     p_decisions =
       [\<lparr>e_name = ''propose_accept'', e_params = [''C''], e_all = [CAtom ''promotable'' [C]]\<rparr>,
        \<lparr>e_name = ''propose_reject'', e_params = [''C''], e_all = [CAtom ''disputed'' [C]]\<rparr>]\<rparr>"

definition corroboration_facts :: "CclFactTuple list" where
  "corroboration_facts =
     [(''claim'', [VStr ''c1'']), (''supports'', [VStr ''e1'', VStr ''c1'']), (''supports'', [VStr ''e2'', VStr ''c1'']),
      (''evidence_view'', [VStr ''e1'', VStr ''accepted'']), (''evidence_view'', [VStr ''e2'', VStr ''accepted'']),
      (''independent'', [VStr ''e1'']), (''independent'', [VStr ''e2'']), (''authority_class'', [VStr ''e1'', VStr ''vendor'']),
      (''claim_epoch'', [VStr ''c1'', VNum 7]), (''quorum_epoch'', [VStr ''incident_review'', VNum 7]),
      (''quorum_reached'', [VStr ''incident_review'', VNum 3, VNum 4])]"

definition codepoint_order :: "string \<Rightarrow> string \<Rightarrow> int" where
  "codepoint_order a b = (if a < b then -1 else if a = b then 0 else 1)"

lemma comparator_codepoint: "comparator codepoint_order"
  by (auto simp: comparator_def codepoint_order_def)

lemmas policy_defs = policy_ok_def ops_known_def known_op_def safe_def bound_vars_def arg_vars_def normalizeVarName_def
  startsWith_def preds_def

lemma corroboration_ok: "policy_ok corroboration_policy" "ordered (p_rules corroboration_policy)"
  by (auto simp: corroboration_policy_def policy_defs)

lemma corroboration_scalar: "scalar_facts corroboration_facts"
  by (simp add: scalar_facts_def corroboration_facts_def)

section \<open>Properties\<close>

text \<open>
  C7. When every rule of a policy refers only to facts and to rules listed before it, also under negation and in
  counts, the evaluator returns, and what it returns is the unique model of the policy: the derived
  relations hold the facts and exactly the tuples their rules give in the model, and the decisions are those the model gives.
\<close>

theorem ordered_policy_exact:
  assumes "policy_ok p" "ordered (p_rules p)" "scalar_facts facts"
  shows "\<exists>res I. ccl_run loc p facts = Inr res \<and> answers p res I \<and> unique_model (p_rules p) (fact_interp facts) I"
proof -
  let ?F = "policy_round (p_rules p)"
  obtain res where res: "ccl_run loc p facts = Inr res"
    using ccl_run_returns [of p facts 1 loc] assms ordered_round_fixpoint [OF assms(2)] by auto
  obtain k where k: "answers p res ((?F ^^ k) (fact_interp facts))" "closed_under (p_rules p) ((?F ^^ k) (fact_interp facts))"
    using ccl_run_fixpoint [OF assms(1,3) res] by blast
  have "(?F ^^ k) (fact_interp facts) = ?F (fact_interp facts)"
    using ordered_iterate [OF assms(2)] k(2) closed_fixpoint by blast
  then show ?thesis using res k(1) ordered_unique [OF assms(2)] unfolding unique_model_def by metis
qed

theorem ordered_policy_exact_witness:
  "policy_ok corroboration_policy \<and> ordered (p_rules corroboration_policy) \<and> scalar_facts corroboration_facts
   \<and> (\<exists>res I. ccl_run codepoint_order corroboration_policy corroboration_facts = Inr res
     \<and> answers corroboration_policy res I
     \<and> unique_model (p_rules corroboration_policy) (fact_interp corroboration_facts) I)"
  using ordered_policy_exact [OF corroboration_ok corroboration_scalar] corroboration_ok corroboration_scalar by blast

text \<open>
  C22. For a policy without negation (no \<^verbatim>\<open>not_exists\<close>, counts only compared from below), recursive or not, what
  the evaluator returns is the least model: it holds the facts, is closed under the rules, and is
  contained in every model.
\<close>

theorem positive_policy_least:
  assumes "policy_ok p" "positive_rules (p_rules p)" "scalar_facts facts" "ccl_run loc p facts = Inr res"
  shows "\<exists>I. answers p res I \<and> least_model (p_rules p) (fact_interp facts) I"
proof -
  let ?F = "policy_round (p_rules p)"
  obtain k where k: "answers p res ((?F ^^ k) (fact_interp facts))" "closed_under (p_rules p) ((?F ^^ k) (fact_interp facts))"
    using ccl_run_fixpoint [OF assms(1,3,4)] by blast
  have "fact_interp facts q \<subseteq> (?F ^^ k) (fact_interp facts) q" for q
    by (induction k) (use policy_round_incr in \<open>force+\<close>)
  then show ?thesis using k iterate_least [OF _ _ assms(2) [unfolded positive_rules_def]] unfolding least_model_def by blast
qed

text \<open>Reachability along links, a recursive policy.\<close>

definition reach_policy :: CclCanonicalPolicy where
  "reach_policy = \<lparr>p_policy = ''reach'', p_version = ''1'',
     p_rules = [\<lparr>e_name = ''reach'', e_params = [''A'', ''B''], e_all = [CAtom ''link'' [VStr ''$A'', VStr ''$B'']]\<rparr>,
       \<lparr>e_name = ''reach'', e_params = [''A'', ''C''], e_all = [CAtom ''reach'' [VStr ''$A'', VStr ''$B''], CAtom ''link'' [VStr ''$B'', C]]\<rparr>],
     p_decisions = []\<rparr>"

definition reach_facts :: "CclFactTuple list" where
  "reach_facts = [(''link'', [VStr ''a'', VStr ''b'']), (''link'', [VStr ''b'', VStr ''c''])]"

definition reach_result :: CclEvaluationResult where
  "reach_result = \<lparr>r_derived = [(''reach'', [[VStr ''a'', VStr ''b''], [VStr ''a'', VStr ''c''], [VStr ''b'', VStr ''c'']])], r_decisions = []\<rparr>"

lemma reach_run: "ccl_run codepoint_order reach_policy reach_facts = Inr reach_result"
  by code_simp

lemma reach_ok: "policy_ok reach_policy" "positive_rules (p_rules reach_policy)" "scalar_facts reach_facts"
  by (auto simp: positive_rules_def reach_policy_def reach_facts_def scalar_facts_def policy_defs)

theorem positive_policy_least_witness:
  "policy_ok reach_policy \<and> positive_rules (p_rules reach_policy) \<and> scalar_facts reach_facts
   \<and> ccl_run codepoint_order reach_policy reach_facts = Inr reach_result
   \<and> (\<exists>I. answers reach_policy reach_result I \<and> least_model (p_rules reach_policy) (fact_interp reach_facts) I)"
  using positive_policy_least [OF reach_ok reach_run] reach_ok reach_run by blast

text \<open>
  C23. Evaluation ends with an answer for every policy without recursion, whatever the order of its rules, when
  no chain of references between rules is longer than 63: if the names can be ranked so that each rule
  refers only to names of lower rank than its own, ranks below 63, the 64 rounds suffice.
\<close>

theorem nonrecursive_policy_returns:
  assumes "policy_ok p" "ranked rank (p_rules p)" "list_all (\<lambda>r. rank (e_name r) < 63) (p_rules p)" "scalar_facts facts"
  shows "\<exists>res I. ccl_run loc p facts = Inr res \<and> answers p res I \<and> closed_under (p_rules p) I"
proof -
  obtain res where "ccl_run loc p facts = Inr res"
    using ccl_run_returns [of p facts 63 loc] ranked_converges [OF assms(2)] assms(1,3,4) by (auto simp: list_all_iff)
  then show ?thesis using ccl_run_fixpoint [OF assms(1,4)] by blast
qed

text \<open>The same policy with the rule that negates listed first.\<close>

definition late_policy :: CclCanonicalPolicy where
  "late_policy = \<lparr>p_policy = ''late'', p_version = ''1'',
     p_rules = [\<lparr>e_name = ''promotable'', e_params = [''C''], e_all = [CAtom ''claim'' [C], CNotExists [CAtom ''disputed'' [C]]]\<rparr>,
       \<lparr>e_name = ''disputed'', e_params = [''C''], e_all = [CAtom ''claim'' [C], CExists [CAtom ''contradicts'' [VStr ''$D'', C]]]\<rparr>],
     p_decisions = [\<lparr>e_name = ''propose_accept'', e_params = [''C''], e_all = [CAtom ''promotable'' [C]]\<rparr>]\<rparr>"

definition late_facts :: "CclFactTuple list" where
  "late_facts = [(''claim'', [VStr ''c1'']), (''contradicts'', [VStr ''c2'', VStr ''c1''])]"

definition late_rank :: "string \<Rightarrow> nat" where
  "late_rank x = (if x = ''promotable'' then 1 else 0)"

lemma late_ok: "policy_ok late_policy" "ranked late_rank (p_rules late_policy)"
  "list_all (\<lambda>r. late_rank (e_name r) < 63) (p_rules late_policy)" "scalar_facts late_facts"
  by (auto simp: late_policy_def late_facts_def late_rank_def scalar_facts_def ranked_def policy_defs)

theorem nonrecursive_policy_returns_witness:
  "policy_ok late_policy \<and> ranked late_rank (p_rules late_policy)
   \<and> list_all (\<lambda>r. late_rank (e_name r) < 63) (p_rules late_policy) \<and> scalar_facts late_facts
   \<and> (\<exists>res I. ccl_run codepoint_order late_policy late_facts = Inr res \<and> answers late_policy res I \<and> closed_under (p_rules late_policy) I)"
  using nonrecursive_policy_returns [OF late_ok] late_ok by blast

text \<open>
  There a tuple derived in the first round stays although its negated condition has become false: the claim
  is promotable and disputed at once, and proposed for acceptance.
\<close>

lemma late_negation_kept:
  "ccl_run codepoint_order late_policy late_facts =
     Inr \<lparr>r_derived = [(''promotable'', [[VStr ''c1'']]), (''disputed'', [[VStr ''c1'']])], r_decisions = [(''propose_accept'', [[VStr ''c1'']])]\<rparr>"
  by code_simp

text \<open>
  C21. Type safety of validated policies: a value that \<^verbatim>\<open>validateCclPolicy\<close> accepts, with strings as parameters and
  counted variables, has the declared type, bears the expected name and version, and its evaluation on any facts
  either returns or throws that the fixpoint did not converge; no other error is possible.
\<close>

theorem validated_policy_typed:
  assumes "validateCclPolicy load content name version = Inr v" "policy_strings v"
  shows "\<exists>p. policy_of v = Some p \<and> (name \<noteq> [] \<longrightarrow> p_policy p = name) \<and> (version \<noteq> [] \<longrightarrow> p_version p = version)
    \<and> only_diverges p"
  using policy_of_validated [OF assms] ccl_run_error unfolding only_diverges_def by blast

definition yaml_value :: Val where
  "yaml_value = VObj 0 [(''policy'', VStr ''reach''), (''version'', VStr ''1''),
     (''rules'', VArr 1 [VObj 2 [(''name'', VStr ''popular''), (''params'', VArr 3 [VStr ''A'']),
        (''all'', VArr 4 [VObj 5 [(''atom'', VObj 6 [(''pred'', VStr ''page''), (''args'', VArr 7 [VStr ''$A''])])],
           VObj 8 [(''count_distinct'', VObj 9 [(''vars'', VArr 10 [VStr ''B'']), (''op'', VStr ''>=''), (''value'', VNum 2),
             (''where'', VArr 11 [VObj 12 [(''atom'', VObj 13 [(''pred'', VStr ''link''), (''args'', VArr 14 [VStr ''$B'', VStr ''$A''])])]])])]])]])]"

theorem validated_policy_typed_witness:
  "validateCclPolicy (\<lambda>_. Some yaml_value) ''text'' ''reach'' ''1'' = Inr yaml_value \<and> policy_strings yaml_value
   \<and> (\<exists>p. policy_of yaml_value = Some p \<and> p_policy p = ''reach'' \<and> p_version p = ''1'' \<and> only_diverges p)"
proof -
  have "validateCclPolicy (\<lambda>_. Some yaml_value) ''text'' ''reach'' ''1'' = Inr yaml_value" "policy_strings yaml_value"
    by code_simp+
  then show ?thesis using validated_policy_typed by fastforce
qed

text \<open>The hypothesis on strings is needed: a numeric parameter passes validation.\<close>

lemma numeric_param_accepted:
  "let v = VObj 0 [(''policy'', VStr ''p''), (''version'', VStr ''1''),
     (''rules'', VArr 1 [VObj 2 [(''name'', VStr ''r''), (''params'', VArr 3 [VNum 1])]])]
   in validateCclPolicy (\<lambda>_. Some v) ''text'' [] [] = Inr v \<and> policy_of v = None"
  by code_simp

text \<open>
  C31. The answer to a policy depends only on the set of facts: neither their order nor repeated facts nor the
  collations of two nodes, which may call different texts equal, change the set of tuples of any derived relation or
  decision, or the error. The lists themselves are equal when both nodes use one consistent comparator that tells
  the tuples of the result apart.
\<close>

theorem evaluation_order_independent:
  assumes "policy_ok p" "scalar_facts f" "set f = set g"
  shows "map_sum id result_sets (ccl_run loc p f) = map_sum id result_sets (ccl_run loc' p g)
    \<and> (comparator loc \<and> (\<forall>res. ccl_run loc p f = Inr res \<longrightarrow> no_ties loc (result_tuples res))
       \<longrightarrow> ccl_run loc p f = ccl_run loc p g)"
proof -
  have g: "scalar_facts g" using assms(2,3) by (simp add: scalar_facts_def)
  have ok: "list_all ops_known (p_rules p)" "list_all safe (p_rules p)" "list_all ops_known (p_decisions p)"
    using assms(1) by (simp_all add: policy_ok_def)
  note same = ccl_run_same [OF ok assms(2) g assms(3)]
  have "ccl_run loc p f = ccl_run loc p g"
    if c: "comparator loc" "\<forall>res. ccl_run loc p f = Inr res \<longrightarrow> no_ties loc (result_tuples res)"
    using same [of loc loc]
  proof (elim disjE exE conjE)
    fix x y assume run: "ccl_run loc p f = Inr x" "ccl_run loc p g = Inr y" and sets: "result_sets x = result_sets y"
      and srt: "sorted_entries loc (r_derived x)" "sorted_entries loc (r_decisions x)"
        "sorted_entries loc (r_derived y)" "sorted_entries loc (r_decisions y)"
    have "no_ties loc (\<Union>e \<in> set (r_derived x). set (snd e))" "no_ties loc (\<Union>e \<in> set (r_decisions x). set (snd e))"
      by (rule no_ties_subset [of loc "result_tuples x"]; use c(2) run(1) in \<open>auto simp: result_tuples_def\<close>)+
    then have "r_derived x = r_derived y" "r_decisions x = r_decisions y"
      using sorted_entries_eq [OF c(1)] srt sets by (auto simp: result_sets_def)
    then show ?thesis using run by simp
  qed simp
  then show ?thesis using same [of loc loc'] by auto
qed

text \<open>
  A comparator that passes over soft hyphens, which collations ignore: it has ties.
\<close>

definition soft_hyphen_order :: "string \<Rightarrow> string \<Rightarrow> int" where
  "soft_hyphen_order a b = codepoint_order (filter (\<lambda>c. c \<noteq> CHR 0xAD) a) (filter (\<lambda>c. c \<noteq> CHR 0xAD) b)"

lemma comparator_soft_hyphen: "comparator soft_hyphen_order"
  using comparator_codepoint unfolding comparator_def soft_hyphen_order_def by blast

lemma codepoint_ties: "list_all scalar t \<Longrightarrow> list_all scalar u \<Longrightarrow> compareTuples codepoint_order t u \<le> 0 \<Longrightarrow>
    compareTuples codepoint_order u t \<le> 0 \<Longrightarrow> t = u"
proof -
  assume "list_all scalar t" "list_all scalar u" "compareTuples codepoint_order t u \<le> 0" "compareTuples codepoint_order u t \<le> 0"
  moreover have "codepoint_order a b \<le> 0 \<Longrightarrow> codepoint_order b a \<le> 0 \<Longrightarrow> a = b" for a b
    unfolding codepoint_order_def by (cases "a < b"; cases "b < a"; simp split: if_splits)
  ultimately show "t = u" using tupleKey_scalar unfolding compareTuples_def by blast
qed

theorem evaluation_order_independent_witness:
  "ccl_run codepoint_order reach_policy reach_facts = Inr reach_result
   \<and> map_sum id result_sets (ccl_run soft_hyphen_order reach_policy (rev reach_facts @ reach_facts)) = Inr (result_sets reach_result)
   \<and> ccl_run codepoint_order reach_policy (rev reach_facts) = Inr reach_result"
proof -
  have facts: "set reach_facts = set (rev reach_facts @ reach_facts)" "set reach_facts = set (rev reach_facts)" by auto
  have "list_all scalar t" if "t \<in> result_tuples reach_result" for t
    using that by (auto simp: result_tuples_def reach_result_def)
  then have "no_ties codepoint_order (result_tuples reach_result)"
    unfolding no_ties_def using codepoint_ties by blast
  then have "ccl_run codepoint_order reach_policy reach_facts = ccl_run codepoint_order reach_policy (rev reach_facts)"
    using evaluation_order_independent [OF reach_ok(1,3) facts(2)] reach_run comparator_codepoint by (metis sum.inject(2))
  moreover have "map_sum id result_sets (Inr reach_result)
      = map_sum id result_sets (ccl_run soft_hyphen_order reach_policy (rev reach_facts @ reach_facts))"
    using evaluation_order_independent [OF reach_ok(1,3) facts(1), of codepoint_order soft_hyphen_order] reach_run by metis
  ultimately show ?thesis using reach_run by (metis map_sum.simps(2))
qed

text \<open>
  C32. The hash of a list of facts commits to the facts. For a hash function without collision on the two texts, lists of
  facts with the same hash hold the same facts equally often; and lists with the same facts have the same hash when the
  consistent comparator tells the texts of the facts apart.
\<close>

theorem fact_hash_binds:
  assumes "scalar_facts f" "scalar_facts g"
    and "sha (utf8 (facts_text loc f)) = sha (utf8 (facts_text loc g)) \<longrightarrow> facts_text loc f = facts_text loc g"
  shows "(hashCclFacts loc sha f = hashCclFacts loc sha g \<longrightarrow> mset f = mset g)
    \<and> (comparator loc \<and> no_ties loc (fact_row ` set f) \<and> mset f = mset g \<longrightarrow> hashCclFacts loc sha f = hashCclFacts loc sha g)"
  using facts_text_determines [OF assms(1,2), of loc] facts_text_cong [of loc f g] assms(3)
  by (auto simp: hashCclFacts_text)

theorem fact_hash_binds_witness:
  "comparator codepoint_order \<and> no_ties codepoint_order (fact_row ` set late_facts)
   \<and> hashCclFacts codepoint_order id late_facts = hashCclFacts codepoint_order id (rev late_facts)"
proof -
  have s: "scalar_facts (rev late_facts)" using late_ok(4) by (simp add: scalar_facts_def)
  have rows: "list_all scalar t" if "t \<in> fact_row ` set late_facts" for t
    using that late_ok(4) by (auto simp: scalar_facts_def fact_row_def)
  have ties: "no_ties codepoint_order (fact_row ` set late_facts)"
    unfolding no_ties_def using codepoint_ties rows by blast
  show ?thesis using fact_hash_binds [OF late_ok(4) s, of id codepoint_order] comparator_codepoint ties by simp
qed

text \<open>With a tie the hash depends on the order of the facts: two texts that differ in a soft hyphen keep the order they came in.\<close>

lemma hash_order_dependent:
  "comparator soft_hyphen_order \<and>
   hashCclFacts soft_hyphen_order id [(''p'', [VStr [CHR ''a'', CHR 0xAD]]), (''p'', [VStr ''a''])]
     \<noteq> hashCclFacts soft_hyphen_order id [(''p'', [VStr ''a'']), (''p'', [VStr [CHR ''a'', CHR 0xAD]])]"
proof -
  have "hashCclFacts soft_hyphen_order id [(''p'', [VStr [CHR ''a'', CHR 0xAD]]), (''p'', [VStr ''a''])]
     \<noteq> hashCclFacts soft_hyphen_order id [(''p'', [VStr ''a'']), (''p'', [VStr [CHR ''a'', CHR 0xAD]])]"
    by code_simp
  then show ?thesis using comparator_soft_hyphen by blast
qed

end
