(* ===== verification/SyncNQuads.thy ===== *)
theory SyncNQuads
  imports RsExtract RsWal
begin

text \<open>
  The N-Quads text that nodes exchange when they synchronise: the lines a responder writes
  (\<^verbatim>\<open>packages/agent/src/sync/responder/sync-handler.ts\<close>, and \<^verbatim>\<open>publishOntologyQuads\<close> of \<^verbatim>\<open>dkg-agent.ts\<close>) and the
  parser that reads them (\<^verbatim>\<open>packages/agent/src/dkg-agent-utils.ts\<close>, repeated in
  \<^verbatim>\<open>sync-verify-worker-impl.ts\<close>). A position in a line is the rest of the line from there. The lemmas show
  that reading what was written gives the quads back.
\<close>

section \<open>Tokens of a line\<close>

definition upto_gt :: "string \<Rightarrow> (string \<times> string) option" where
  "upto_gt s = (if CHR ''>'' \<in> set s
     then Some (takeWhile (\<lambda>c. c \<noteq> CHR ''>'') s @ ''>'', tl (dropWhile (\<lambda>c. c \<noteq> CHR ''>'') s)) else None)"

text \<open>What follows the closing quote of a literal: a language tag or a datatype.\<close>

definition lit_suffix :: "string \<Rightarrow> string \<times> string" where
  "lit_suffix s =
     (if startsWith s ''@'' then (takeWhile (\<lambda>c. c \<noteq> CHR '' '') s, dropWhile (\<lambda>c. c \<noteq> CHR '' '') s)
      else if startsWith s ''^^'' then
        (let u = drop 2 s in
         if startsWith u ''<'' then
           (case upto_gt u of None \<Rightarrow> (''^^'', u) | Some (t, r) \<Rightarrow> (''^^'' @ t, r))
         else (''^^'', u))
      else ([], s))"

fun lit_end :: "string \<Rightarrow> string \<times> string" where
  "lit_end [] = ([], [])"
| "lit_end [c] = ([c], [])"
| "lit_end (c # d # s) =
     (if c = BACKSLASH then (let (t, r) = lit_end s in (c # d # t, r))
      else if c = QUOTE then (let (t, r) = lit_suffix (d # s) in (c # t, r))
      else (let (t, r) = lit_end (d # s) in (c # t, r)))"

lemma length_upto_gt: "upto_gt s = Some (t, r) \<Longrightarrow> length r < length s"
proof -
  assume "upto_gt s = Some (t, r)"
  then have "CHR ''>'' \<in> set s" "r = tl (dropWhile (\<lambda>c. c \<noteq> CHR ''>'') s)" by (auto simp: upto_gt_def split: if_splits)
  then have "dropWhile (\<lambda>c. c \<noteq> CHR ''>'') s \<noteq> []" by (simp add: dropWhile_eq_Nil_conv)
  then show ?thesis using \<open>r = _\<close> length_dropWhile_le [of "\<lambda>c. c \<noteq> CHR ''>''" s]
    by (metis length_tl diff_less le_less_trans length_greater_0_conv less_le_trans zero_less_one)
qed

lemma length_lit_suffix: "length (snd (lit_suffix s)) \<le> length s"
proof -
  have "length (drop 2 s) \<le> length s" by simp
  moreover have "length r \<le> length (drop 2 s)" if "upto_gt (drop 2 s) = Some (t, r)" for t r
    using length_upto_gt [OF that] by simp
  ultimately show ?thesis
    by (auto simp: lit_suffix_def Let_def length_dropWhile_le split: option.splits)
qed

lemma length_lit_end: "length (snd (lit_end s)) \<le> length s"
proof (induction s rule: lit_end.induct)
  case (3 c d s)
  then show ?case using length_lit_suffix [of "d # s"]
    by (auto simp: Let_def split: prod.splits)
qed simp_all

function splitNQuadLine :: "string \<Rightarrow> string list" where
  "splitNQuadLine line =
     (case dropWhile (\<lambda>c. c = CHR '' '') line of
        [] \<Rightarrow> []
      | c # cs \<Rightarrow>
          if c = CHR ''<'' then
            (case upto_gt (c # cs) of None \<Rightarrow> [] | Some (t, r) \<Rightarrow> t # splitNQuadLine r)
          else if c = QUOTE then (let (t, r) = lit_end cs in (c # t) # splitNQuadLine r)
          else if c = CHR ''_'' then
            takeWhile (\<lambda>x. x \<noteq> CHR '' '') (c # cs) # splitNQuadLine (dropWhile (\<lambda>x. x \<noteq> CHR '' '') (c # cs))
          else [])"
  by auto
termination
proof (relation "measure length")
  show "wf (measure length)" by simp
next
  fix line c cs and x :: "string \<times> string" and t r
  assume l: "dropWhile (\<lambda>c. c = CHR '' '') line = c # cs" and "c = CHR ''<''" "upto_gt (c # cs) = Some x" "(t, r) = x"
  then have "length r < length (c # cs)" using length_upto_gt by metis
  then show "(r, line) \<in> measure length" using length_dropWhile_le [of "\<lambda>c. c = CHR '' ''" line] l by simp
next
  fix line c cs and x :: "string \<times> string" and t r
  assume l: "dropWhile (\<lambda>c. c = CHR '' '') line = c # cs" and "x = lit_end cs" "(t, r) = x"
  then have "length r < length (c # cs)" using length_lit_end [of cs] by (metis le_imp_less_Suc length_Cons snd_conv)
  then show "(r, line) \<in> measure length" using length_dropWhile_le [of "\<lambda>c. c = CHR '' ''" line] l by simp
next
  fix line c cs
  assume l: "dropWhile (\<lambda>c. c = CHR '' '') line = c # cs" and "c = CHR ''_''"
  then have "length (dropWhile (\<lambda>x. x \<noteq> CHR '' '') (c # cs)) < length (c # cs)"
    using length_dropWhile_le [of "\<lambda>x. x \<noteq> CHR '' ''" cs] by simp
  then show "(dropWhile (\<lambda>x. x \<noteq> CHR '' '') (c # cs), line) \<in> measure length"
    using length_dropWhile_le [of "\<lambda>c. c = CHR '' ''" line] l by simp
qed

declare splitNQuadLine.simps [simp del]

section \<open>Quads\<close>

definition strip :: "string \<Rightarrow> string" where
  "strip s = (if startsWith s ''<'' \<and> endsWith s ''>'' then butlast (tl s) else s)"

definition quad_of_parts :: "string list \<Rightarrow> Quad option" where
  "quad_of_parts parts =
     (if length parts < 3 then None
      else Some \<lparr>subject = strip (parts ! 0), predicate = strip (parts ! 1),
                 object = (if startsWith (parts ! 2) [QUOTE] then parts ! 2 else strip (parts ! 2)),
                 graph = (if length parts > 3 \<and> parts ! 3 \<noteq> [] then strip (parts ! 3) else [])\<rparr>)"

definition line_quad :: "string \<Rightarrow> Quad option" where
  "line_quad line =
     (let trimmed = str_trim line in
      if trimmed = [] \<or> startsWith trimmed ''#'' then None
      else let body = (if endsWith trimmed '' .'' then str_trim (take (length trimmed - 2) trimmed) else trimmed)
           in quad_of_parts (splitNQuadLine body))"

definition parseNQuads :: "string \<Rightarrow> Quad list" where
  "parseNQuads text = List.map_filter line_quad (split_lines text)"

text \<open>The line a responder writes for a row of its query.\<close>

definition nquad_line :: "string \<Rightarrow> string \<Rightarrow> string \<Rightarrow> string \<Rightarrow> string" where
  "nquad_line s p ob g =
     ''<'' @ s @ ''> <'' @ p @ ''> '' @ (if startsWith ob [QUOTE] then ob else ''<'' @ ob @ ''>'') @ '' <'' @ g @ ''> .''"

definition nquads_text :: "Quad list \<Rightarrow> string" where
  "nquads_text qs = join_with [NL] (map (\<lambda>q. nquad_line (subject q) (predicate q) (object q) (graph q)) qs)"

section \<open>Round trip\<close>

definition iri_ok :: "string \<Rightarrow> bool" where
  "iri_ok s \<longleftrightarrow> CHR ''>'' \<notin> set s \<and> NL \<notin> set s"

definition lit_ok :: "string \<Rightarrow> bool" where
  "lit_ok ob \<longleftrightarrow> startsWith ob [QUOTE] \<and> NL \<notin> set ob \<and> (\<forall>r. lit_end (tl ob @ CHR '' '' # r) = (tl ob, CHR '' '' # r))"

definition quad_ok :: "Quad \<Rightarrow> bool" where
  "quad_ok q \<longleftrightarrow> iri_ok (subject q) \<and> iri_ok (predicate q) \<and> iri_ok (graph q)
     \<and> (if startsWith (object q) [QUOTE] then lit_ok (object q) else iri_ok (object q))"

lemma str_trim_id: "s \<noteq> [] \<Longrightarrow> \<not> is_space (hd s) \<Longrightarrow> \<not> is_space (last s) \<Longrightarrow> str_trim s = s"
proof -
  assume a: "s \<noteq> []" "\<not> is_space (hd s)" "\<not> is_space (last s)"
  then have "dropWhile is_space s = s" "dropWhile is_space (rev s) = rev s" by (simp_all add: dropWhile_eq_self_iff hd_rev)
  then show ?thesis by (simp add: str_trim_def)
qed

lemma upto_gt_iri: "CHR ''>'' \<notin> set s \<Longrightarrow> upto_gt (CHR ''<'' # s @ CHR ''>'' # r) = Some (CHR ''<'' # s @ ''>'', r)"
proof -
  assume "CHR ''>'' \<notin> set s"
  then have "takeWhile (\<lambda>c. c \<noteq> CHR ''>'') (s @ CHR ''>'' # r) = s" "dropWhile (\<lambda>c. c \<noteq> CHR ''>'') (s @ CHR ''>'' # r) = CHR ''>'' # r"
    by (induction s) auto
  then show ?thesis by (simp add: upto_gt_def)
qed

lemma split_iri:
  assumes "CHR ''>'' \<notin> set s"
  shows "splitNQuadLine (CHR ''<'' # s @ CHR ''>'' # r) = (CHR ''<'' # s @ ''>'') # splitNQuadLine r"
  by (subst splitNQuadLine.simps) (simp add: upto_gt_iri [OF assms])

lemma split_space: "splitNQuadLine (CHR '' '' # r) = splitNQuadLine r"
  by (subst (1 2) splitNQuadLine.simps) simp

lemma split_literal:
  assumes "lit_ok ob" shows "splitNQuadLine (ob @ CHR '' '' # r) = ob # splitNQuadLine (CHR '' '' # r)"
proof -
  obtain t where ob: "ob = QUOTE # t" using assms by (cases ob) (auto simp: lit_ok_def startsWith_def)
  then have "lit_end (t @ CHR '' '' # r) = (t, CHR '' '' # r)" using assms by (simp add: lit_ok_def)
  then show ?thesis by (subst splitNQuadLine.simps) (simp add: ob)
qed

lemma split_Nil [simp]: "splitNQuadLine [] = []"
  by (subst splitNQuadLine.simps) simp

lemma strip_iri: "strip (CHR ''<'' # s @ ''>'') = s"
  by (simp add: strip_def startsWith_def endsWith_def butlast_append)

lemma line_quad_nquad_line:
  assumes "quad_ok q"
  shows "line_quad (nquad_line (subject q) (predicate q) (object q) (graph q)) = Some q"
proof -
  define tm where "tm = (if startsWith (object q) [QUOTE] then object q else ''<'' @ object q @ ''>'')"
  define body where "body = ''<'' @ subject q @ ''> <'' @ predicate q @ ''> '' @ tm @ '' <'' @ graph q @ ''>''"
  have line: "nquad_line (subject q) (predicate q) (object q) (graph q) = body @ '' .''"
    by (simp add: nquad_line_def body_def tm_def)
  have trim: "str_trim (body @ '' .'') = body @ '' .''" "str_trim body = body"
    by (rule str_trim_id; simp add: body_def is_space_def)+
  have "splitNQuadLine (tm @ CHR '' '' # r) = tm # splitNQuadLine r" for r
    using split_literal [of "object q" r] split_iri [of "object q" "CHR '' '' # r"] assms
    by (auto simp: tm_def quad_ok_def iri_ok_def split_space)
  then have split: "splitNQuadLine body
      = [''<'' @ subject q @ ''>'', ''<'' @ predicate q @ ''>'', tm, ''<'' @ graph q @ ''>'']"
    using assms split_iri [of "graph q" "[]"] by (simp add: body_def quad_ok_def iri_ok_def split_iri split_space)
  have "(if startsWith tm [QUOTE] then tm else strip tm) = object q"
    using strip_iri [of "object q"] by (simp add: tm_def startsWith_def)
  then have parts: "quad_of_parts (splitNQuadLine body) = Some q"
    unfolding split quad_of_parts_def using strip_iri
    by (cases q) (auto simp add: numeral_2_eq_2 numeral_3_eq_3 split: if_splits)
  have "line_quad (body @ '' .'') = quad_of_parts (splitNQuadLine body)"
  proof -
    have "endsWith (body @ '' .'') '' .''" "\<not> startsWith (body @ '' .'') ''#''" 
      by (simp_all add: endsWith_def startsWith_def body_def)
    moreover have "take (length (body @ '' .'') - 2) (body @ '' .'') = body" by simp
    ultimately show ?thesis using trim by (simp add: line_quad_def Let_def)
  qed
  then show ?thesis using parts line by simp
qed

lemma NL_nquad_line: "quad_ok q \<Longrightarrow> NL \<notin> set (nquad_line (subject q) (predicate q) (object q) (graph q))"
  by (auto simp: quad_ok_def iri_ok_def lit_ok_def nquad_line_def split: if_splits)

lemma split_lines_join:
  "\<forall>l \<in> set ls. NL \<notin> set l \<Longrightarrow> ls \<noteq> [] \<Longrightarrow> split_lines (join_with [NL] ls) = ls"
proof (induction ls)
  case (Cons l ls)
  then show ?case using split_lines_line [of l] split_lines_none [of l] by (cases ls) auto
qed simp

lemma parseNQuads_text:
  assumes "\<forall>q \<in> set qs. quad_ok q" shows "parseNQuads (nquads_text qs) = qs"
proof (cases "qs = []")
  case True
  then show ?thesis by (simp add: parseNQuads_def nquads_text_def line_quad_def str_trim_def List.map_filter_def)
next
  case False
  then have "split_lines (nquads_text qs) = map (\<lambda>q. nquad_line (subject q) (predicate q) (object q) (graph q)) qs"
    unfolding nquads_text_def using assms NL_nquad_line by (intro split_lines_join) auto
  moreover have "List.map_filter line_quad (map (\<lambda>q. nquad_line (subject q) (predicate q) (object q) (graph q)) xs) = xs"
    if "\<forall>q \<in> set xs. quad_ok q" for xs
    using that by (induction xs) (auto simp: List.map_filter_simps line_quad_nquad_line)
  ultimately show ?thesis using assms by (simp add: parseNQuads_def)
qed

lemma lit_end_plain: "c \<noteq> BACKSLASH \<Longrightarrow> c \<noteq> QUOTE \<Longrightarrow> s \<noteq> [] \<Longrightarrow> lit_end (c # s) = (c # fst (lit_end s), snd (lit_end s))"
  by (cases s) (auto simp: Let_def split: prod.splits)

lemma lit_end_escape:
  "lit_end (escapeSparqlLiteral v @ QUOTE # CHR '' '' # r) = (escapeSparqlLiteral v @ [QUOTE], CHR '' '' # r)"
proof (induction v)
  case Nil
  then show ?case by (simp add: lit_suffix_def startsWith_def)
next
  case (Cons c v)
  then show ?case by (auto simp: esc_char_def lit_end_plain)
qed

lemma lit_ok_sparqlString: "lit_ok (sparqlString v)"
proof -
  have "NL \<notin> set (escapeSparqlLiteral v)" by (induction v) (auto simp: esc_char_def)
  then show ?thesis using lit_end_escape by (auto simp: lit_ok_def sparqlString_def startsWith_def)
qed

end
