(* ===== verification/SyncVerify.thy ===== *)
theory SyncVerify
  imports SyncNQuads RsSynced
begin

text \<open>
  The check of a synchronised batch: \<^verbatim>\<open>verifySyncedData\<close> of \<^verbatim>\<open>packages/agent/src/dkg-agent-utils.ts\<close>, its
  copy in the worker \<^verbatim>\<open>sync-verify-worker-impl.ts\<close>, and the worker's batch operations. The two copies
  differ in how they read a literal, so the check takes the reader as an argument. A \<^verbatim>\<open>Map\<close> is an
  association list in insertion order. The one call inside the \<^verbatim>\<open>try\<close> of the check that can throw is
  \<^verbatim>\<open>push(...quads)\<close>: an engine limits the number of arguments of a call. The limit is a parameter, and the
  \<^verbatim>\<open>catch\<close> is a verdict.
\<close>

section \<open>Reading literals\<close>

text \<open>\<^verbatim>\<open>s.replace(/ab/g, r)\<close> for a pair of characters.\<close>

fun replace_pair :: "char \<Rightarrow> char \<Rightarrow> char \<Rightarrow> string \<Rightarrow> string" where
  "replace_pair a b r (x # y # s) =
     (if x = a \<and> y = b then r # replace_pair a b r s else x # replace_pair a b r (y # s))"
| "replace_pair a b r s = s"

definition unescapeLiteralContent :: "string \<Rightarrow> string" where
  "unescapeLiteralContent v =
     replace_pair BACKSLASH BACKSLASH BACKSLASH
       (replace_pair BACKSLASH QUOTE QUOTE
         (replace_pair BACKSLASH CHR ''t'' TAB
           (replace_pair BACKSLASH CHR ''r'' CR
             (replace_pair BACKSLASH CHR ''n'' NL v))))"

text \<open>The first group of \<^verbatim>\<open>/^"(.*)"(\^\^.*|@.*)?$/\<close> after the opening quote: up to the last fitting quote.\<close>

definition no_line_end :: "string \<Rightarrow> bool" where
  "no_line_end s \<longleftrightarrow> NL \<notin> set s \<and> CR \<notin> set s"

fun literal_group :: "string \<Rightarrow> string option" where
  "literal_group [] = None"
| "literal_group (c # s) =
     (case literal_group s of
        Some v \<Rightarrow> Some (c # v)
      | None \<Rightarrow> if c = QUOTE \<and> (s = [] \<or> startsWith s ''^^'' \<or> startsWith s ''@'') then Some [] else None)"

definition stripLiteral :: "string \<Rightarrow> string" where
  "stripLiteral s =
     (if startsWith s [QUOTE] \<and> endsWith s [QUOTE] then unescapeLiteralContent (butlast (tl s))
      else if startsWith s [QUOTE] \<and> no_line_end s then
        (case literal_group (tl s) of Some v \<Rightarrow> unescapeLiteralContent v | None \<Rightarrow> s)
      else s)"

text \<open>The worker's reader: \<^verbatim>\<open>.replace(/^"|"$/g, '').replace(/"?\^\^.*$/, '')\<close>.\<close>

fun cut_datatype :: "string \<Rightarrow> string" where
  "cut_datatype [] = []"
| "cut_datatype (c # s) =
     (if (startsWith (c # s) (QUOTE # ''^^'') \<or> startsWith (c # s) ''^^'') \<and> no_line_end (c # s) then []
      else c # cut_datatype s)"

definition unquote :: "string \<Rightarrow> string" where
  "unquote s = (let t = (if startsWith s [QUOTE] then tl s else s) in if endsWith t [QUOTE] then butlast t else t)"

definition worker_stripLiteral :: "string \<Rightarrow> string" where
  "worker_stripLiteral s = cut_datatype (unquote s)"

section \<open>The maps of the metadata\<close>

definition map_push :: "'k \<Rightarrow> 'v \<Rightarrow> ('k \<times> 'v list) list \<Rightarrow> ('k \<times> 'v list) list" where
  "map_push k v m = AList.update k ((case map_of m k of None \<Rightarrow> [] | Some vs \<Rightarrow> vs) @ [v]) m"

definition meta_map :: "(string \<Rightarrow> string) \<Rightarrow> string \<Rightarrow> Quad list \<Rightarrow> (string \<times> string) list" where
  "meta_map sl name metaQuads =
     fold (\<lambda>q m. if predicate q = DKG @ name then AList.update (subject q) (sl (object q)) m else m) metaQuads []"

definition kcMerkleRoots :: "(string \<Rightarrow> string) \<Rightarrow> Quad list \<Rightarrow> (string \<times> string) list" where
  "kcMerkleRoots sl metaQuads = meta_map sl ''merkleRoot'' metaQuads"

definition kaToKc :: "(string \<Rightarrow> string) \<Rightarrow> Quad list \<Rightarrow> (string \<times> string) list" where
  "kaToKc sl metaQuads = meta_map sl ''partOf'' metaQuads"

definition kaRootEntity :: "(string \<Rightarrow> string) \<Rightarrow> Quad list \<Rightarrow> (string \<times> string) list" where
  "kaRootEntity sl metaQuads = meta_map sl ''rootEntity'' metaQuads"

definition kcRootEntities :: "(string \<Rightarrow> string) \<Rightarrow> Quad list \<Rightarrow> (string \<times> string list) list" where
  "kcRootEntities sl metaQuads =
     fold (\<lambda>(ka, kc) m.
        case map_of (kaRootEntity sl metaQuads) ka of
          None \<Rightarrow> m
        | Some re \<Rightarrow> if re = [] \<or> map_of (kcMerkleRoots sl metaQuads) kc = None then m else map_push kc re m)
       (kaToKc sl metaQuads) []"

definition rootsOf :: "(string \<times> string list) list \<Rightarrow> string \<Rightarrow> string list" where
  "rootsOf kcRoots kc = (case map_of kcRoots kc of None \<Rightarrow> [] | Some rs \<Rightarrow> rs)"

definition rootEntityToKCs :: "(string \<times> string list) list \<Rightarrow> (string \<times> string list) list" where
  "rootEntityToKCs kcRoots = fold (\<lambda>(kc, es). fold (\<lambda>re. map_push re kc) es) kcRoots []"

definition overlappingKCs :: "(string \<times> string list) list \<Rightarrow> string list" where
  "overlappingKCs kcRoots = concat (map snd (filter (\<lambda>(_, kcs). length kcs > 1) (rootEntityToKCs kcRoots)))"

section \<open>The check\<close>

definition remove_0x :: "string \<Rightarrow> string" where
  "remove_0x s = (if startsWith s ''0x'' then drop 2 s else s)"

text \<open>\<^verbatim>\<open>bytes[i] = parseInt(...)\<close>: a byte array stores \<^verbatim>\<open>NaN\<close> as zero and other numbers modulo 256.\<close>

fun hex_pairs :: "string \<Rightarrow> bytes" where
  "hex_pairs (a # b # s) = (case parseInt16 [a, b] of None \<Rightarrow> 0 | Some n \<Rightarrow> word_of_int n) # hex_pairs s"
| "hex_pairs _ = []"

definition kcPrivateRoots :: "(string \<Rightarrow> string) \<Rightarrow> Quad list \<Rightarrow> string \<Rightarrow> bytes list" where
  "kcPrivateRoots sl metaQuads kcUal =
     concat (map (\<lambda>(ka, kc).
        if kc \<noteq> kcUal then []
        else List.map_filter (\<lambda>q.
          if subject q = ka \<and> predicate q = DKG @ ''privateMerkleRoot'' then
            (let hex = remove_0x (sl (object q)) in if length hex = 64 then Some (hex_pairs hex) else None)
          else None) metaQuads)
       (kaToKc sl metaQuads))"

definition allQuadsForKC :: "Quad list \<Rightarrow> string list \<Rightarrow> Quad list" where
  "allQuadsForKC dataQuads entities =
     concat (map (\<lambda>re. case map_of (autoPartition dataQuads) re of None \<Rightarrow> [] | Some qs \<Rightarrow> qs) entities)"

text \<open>The engine: the hash function, and whether a call with that many spread arguments returns.\<close>

record SyncEngine =
  en_hash :: "bytes \<Rightarrow> bytes"
  en_spread :: "nat \<Rightarrow> bool"

definition spreads :: "SyncEngine \<Rightarrow> Quad list \<Rightarrow> string list \<Rightarrow> bool" where
  "spreads en dataQuads entities \<longleftrightarrow> list_all (\<lambda>re.
     en_spread en (length (case map_of (autoPartition dataQuads) re of None \<Rightarrow> [] | Some qs \<Rightarrow> qs))) entities"

datatype SyncLog =
    SkippedOverlap string nat
  | VerifiedLegacy string
  | MerkleMismatch bool string string string
  | VerificationError string
  | AcceptedUnverified nat

datatype kc_verdict = OnTrust | Overlapping | FlatRoot | LegacyRoot | Mismatch string | CheckError

definition kc_check ::
  "SyncEngine \<Rightarrow> (string \<Rightarrow> string) \<Rightarrow> Quad list \<Rightarrow> Quad list \<Rightarrow> string \<Rightarrow> string \<Rightarrow> kc_verdict" where
  "kc_check en sl dataQuads metaQuads kcUal claimedHex =
     (let kcRoots = kcRootEntities sl metaQuads;
          entities = rootsOf kcRoots kcUal;
          quads = allQuadsForKC dataQuads entities;
          privateRoots = kcPrivateRoots sl metaQuads kcUal;
          flatHex = hex_bytes (computeFlatKCRootV10 (en_hash en) quads privateRoots)
      in if entities = [] then OnTrust
         else if kcUal \<in> set (overlappingKCs kcRoots) then Overlapping
         else if \<not> spreads en dataQuads entities then CheckError
         else if flatHex = claimedHex then FlatRoot
         else if privateRoots \<noteq> [] \<and> hex_bytes (computeFlatKCRootV10 (en_hash en) quads []) = claimedHex then LegacyRoot
         else Mismatch flatHex)"

definition kc_log :: "(string \<Rightarrow> string) \<Rightarrow> Quad list \<Rightarrow> bool \<Rightarrow> string \<Rightarrow> string \<Rightarrow> kc_verdict \<Rightarrow> SyncLog list" where
  "kc_log sl metaQuads acceptUnverified kcUal claimedHex v =
     (case v of
        OnTrust \<Rightarrow> []
      | Overlapping \<Rightarrow>
          (let kcRoots = kcRootEntities sl metaQuads in
           [SkippedOverlap kcUal (length (rootsOf (rootEntityToKCs kcRoots) (hd (rootsOf kcRoots kcUal))))])
      | FlatRoot \<Rightarrow> []
      | LegacyRoot \<Rightarrow> [VerifiedLegacy kcUal]
      | Mismatch flatHex \<Rightarrow> [MerkleMismatch acceptUnverified kcUal (take 16 claimedHex) (take 16 flatHex)]
      | CheckError \<Rightarrow> [VerificationError kcUal])"

fun verdict_ok :: "kc_verdict \<Rightarrow> bool" where
  "verdict_ok (Mismatch _) = False"
| "verdict_ok CheckError = False"
| "verdict_ok _ = True"

definition verdicts :: "SyncEngine \<Rightarrow> (string \<Rightarrow> string) \<Rightarrow> Quad list \<Rightarrow> Quad list \<Rightarrow> (string \<times> string \<times> kc_verdict) list" where
  "verdicts en sl dataQuads metaQuads = map (\<lambda>(kc, claimed). (kc, claimed, kc_check en sl dataQuads metaQuads kc claimed)) (kcMerkleRoots sl metaQuads)"

record SyncVerifyResult =
  vr_data :: "Quad list"
  vr_meta :: "Quad list"
  vr_rejected :: nat
  vr_logs :: "SyncLog list"

definition keep_data :: "string list \<Rightarrow> string list \<Rightarrow> Quad \<Rightarrow> bool" where
  "keep_data known verified q =
     (if subject q \<in> set known then subject q \<in> set verified
      else if list_ex (\<lambda>re. startsWith (subject q) re) verified then True
      else True)"

definition keep_meta :: "(string \<times> string) list \<Rightarrow> (string \<times> string) list \<Rightarrow> string list \<Rightarrow> Quad \<Rightarrow> bool" where
  "keep_meta claims kas verified q =
     (if map_of claims (subject q) \<noteq> None then subject q \<in> set verified
      else case map_of kas (subject q) of
             None \<Rightarrow> True
           | Some kc \<Rightarrow> if kc = [] then True else kc \<in> set verified)"

definition verify_synced ::
  "SyncEngine \<Rightarrow> (string \<Rightarrow> string) \<Rightarrow> Quad list \<Rightarrow> Quad list \<Rightarrow> bool \<Rightarrow> SyncVerifyResult" where
  "verify_synced en sl dataQuads metaQuads acceptUnverified =
     (let everything = \<lparr>vr_data = dataQuads, vr_meta = metaQuads, vr_rejected = 0, vr_logs = []\<rparr>;
          claims = kcMerkleRoots sl metaQuads;
          kcRoots = kcRootEntities sl metaQuads;
          vs = verdicts en sl dataQuads metaQuads;
          verifiedKcUals = map fst (filter (\<lambda>(_, _, v). verdict_ok v) vs);
          rejected = length (filter (\<lambda>(_, _, v). \<not> verdict_ok v) vs);
          logs = concat (map (\<lambda>(kc, claimed, v). kc_log sl metaQuads acceptUnverified kc claimed v) vs);
          verifiedRootEntities = concat (map (rootsOf kcRoots) verifiedKcUals);
          allKnownRootEntities = concat (map snd kcRoots)
      in if metaQuads = [] \<or> claims = [] then everything
         else if acceptUnverified \<and> rejected > 0 \<and> length verifiedKcUals < length claims then
           everything\<lparr>vr_logs := logs @ [AcceptedUnverified rejected]\<rparr>
         else \<lparr>vr_data = filter (keep_data allKnownRootEntities verifiedRootEntities) dataQuads,
               vr_meta = filter (keep_meta claims (kaToKc sl metaQuads) verifiedKcUals) metaQuads,
               vr_rejected = rejected, vr_logs = logs\<rparr>)"

definition verifySyncedData :: "SyncEngine \<Rightarrow> Quad list \<Rightarrow> Quad list \<Rightarrow> bool \<Rightarrow> SyncVerifyResult" where
  "verifySyncedData en dataQuads metaQuads acceptUnverified = verify_synced en stripLiteral dataQuads metaQuads acceptUnverified"

definition worker_verifySyncedData :: "SyncEngine \<Rightarrow> Quad list \<Rightarrow> Quad list \<Rightarrow> bool \<Rightarrow> SyncVerifyResult" where
  "worker_verifySyncedData en dataQuads metaQuads acceptUnverified =
     verify_synced en worker_stripLiteral dataQuads metaQuads acceptUnverified"

section \<open>What the maps hold\<close>

lemma map_of_fold_update:
  "map_of (fold (\<lambda>q m. if P q then AList.update (f q) (g q) m else m) qs m)
     = map_of m ++ map_of (rev (map (\<lambda>q. (f q, g q)) (filter P qs)))"
  by (induction qs arbitrary: m) (auto simp: update_conv' map_add_def fun_eq_iff split: option.splits)

lemma meta_map_Some:
  "map_of (meta_map sl name qs) s = Some v \<Longrightarrow> \<exists>q \<in> set qs. predicate q = DKG @ name \<and> subject q = s \<and> sl (object q) = v"
  by (auto simp: meta_map_def map_of_fold_update dest!: map_of_SomeD)

lemma meta_map_None:
  "map_of (meta_map sl name qs) s = None \<longleftrightarrow> \<not> (\<exists>q \<in> set qs. predicate q = DKG @ name \<and> subject q = s)"
  by (auto simp: meta_map_def map_of_fold_update map_of_eq_None_iff image_image)

lemma distinct_fold_update:
  "distinct (map fst m) \<Longrightarrow> distinct (map fst (fold (\<lambda>q m. if P q then AList.update (f q) (g q) m else m) qs m))"
  by (induction qs arbitrary: m) (simp_all add: distinct_update)

lemma distinct_meta_map: "distinct (map fst (meta_map sl name qs))"
  by (simp add: meta_map_def distinct_fold_update)

lemma meta_map_mem: "(s, v) \<in> set (meta_map sl name qs) \<longleftrightarrow> map_of (meta_map sl name qs) s = Some v"
  using distinct_meta_map [of sl name qs] by simp

text \<open>Where every subject has one value, the map is the set of the statements.\<close>

lemma meta_map_single:
  assumes "\<And>q q'. q \<in> set qs \<Longrightarrow> q' \<in> set qs \<Longrightarrow> predicate q = DKG @ name \<Longrightarrow> predicate q' = DKG @ name
      \<Longrightarrow> subject q = subject q' \<Longrightarrow> sl (object q) = sl (object q')"
  shows "set (meta_map sl name qs) = (\<lambda>q. (subject q, sl (object q))) ` {q \<in> set qs. predicate q = DKG @ name}"
proof -
  let ?m = "map_of (meta_map sl name qs)"
  have fwd: "\<exists>q \<in> set qs. predicate q = DKG @ name \<and> (s, v) = (subject q, sl (object q))"
    if "(s, v) \<in> set (meta_map sl name qs)" for s v
    using that meta_map_Some [of sl name qs s v] by (auto simp: meta_map_mem)
  have bwd: "(subject q, sl (object q)) \<in> set (meta_map sl name qs)" if q: "q \<in> set qs" "predicate q = DKG @ name" for q
  proof -
    obtain w where w: "?m (subject q) = Some w"
      using meta_map_None [of sl name qs "subject q"] q by (cases "?m (subject q)") auto
    then obtain q' where "q' \<in> set qs" "predicate q' = DKG @ name" "subject q' = subject q" "sl (object q') = w"
      using meta_map_Some by blast
    then have "w = sl (object q)" using assms [of q' q] q by simp
    then show ?thesis using w by (simp add: meta_map_mem)
  qed
  show ?thesis using fwd bwd by fastforce
qed

lemma rootsOf_map_push [simp]: "rootsOf (map_push k v m) k' = rootsOf m k' @ (if k' = k then [v] else [])"
  by (auto simp: rootsOf_def map_push_def update_conv' split: option.splits)

lemma distinct_map_push [simp]: "distinct (map fst m) \<Longrightarrow> distinct (map fst (map_push k v m))"
  by (simp add: map_push_def distinct_update)

lemma rootsOf_mem: "distinct (map fst m) \<Longrightarrow> x \<in> set (rootsOf m k) \<longleftrightarrow> (\<exists>es. (k, es) \<in> set m \<and> x \<in> set es)"
  by (auto simp: rootsOf_def split: option.splits)

text \<open>The root entities of a collection, in the order of its assets.\<close>

definition ka_root :: "(string \<Rightarrow> string) \<Rightarrow> Quad list \<Rightarrow> string \<Rightarrow> string \<times> string \<Rightarrow> string option" where
  "ka_root sl metaQuads kc p =
     (if snd p = kc \<and> map_of (kcMerkleRoots sl metaQuads) kc \<noteq> None
      then (case map_of (kaRootEntity sl metaQuads) (fst p) of Some (c # s) \<Rightarrow> Some (c # s) | _ \<Rightarrow> None) else None)"

lemma fold_push_roots:
  "rootsOf (fold (\<lambda>(ka, kc) m. case f ka of None \<Rightarrow> m | Some re \<Rightarrow> if re = [] \<or> g kc = None then m else map_push kc re m) ps m) u
     = rootsOf m u @ List.map_filter (\<lambda>p. if snd p = u \<and> g u \<noteq> None
         then (case f (fst p) of Some (c # s) \<Rightarrow> Some (c # s) | _ \<Rightarrow> None) else None) ps"
  by (induction ps arbitrary: m) (auto simp: map_filter_simps split: option.splits list.splits)

lemma rootsOf_kcRootEntities:
  "rootsOf (kcRootEntities sl M) kc = List.map_filter (ka_root sl M kc) (kaToKc sl M)"
  by (simp add: kcRootEntities_def fold_push_roots ka_root_def [abs_def] rootsOf_def [of "[]"])

lemma fold_push_distinct:
  "distinct (map fst m) \<Longrightarrow> distinct (map fst (fold (\<lambda>(ka, kc) m.
     case f ka of None \<Rightarrow> m | Some re \<Rightarrow> if re = [] \<or> g kc = None then m else map_push kc re m) ps m))"
  by (induction ps arbitrary: m) (auto split: option.splits)

lemma distinct_kcRootEntities: "distinct (map fst (kcRootEntities sl M))"
  unfolding kcRootEntities_def by (rule fold_push_distinct) simp

lemma ka_root_Some:
  "ka_root sl M kc p = Some r \<longleftrightarrow>
     snd p = kc \<and> map_of (kaRootEntity sl M) (fst p) = Some r \<and> r \<noteq> [] \<and> map_of (kcMerkleRoots sl M) kc \<noteq> None"
  by (auto simp: ka_root_def split: option.splits list.splits)

lemma mem_kcRootEntities:
  "r \<in> set (rootsOf (kcRootEntities sl M) kc) \<longleftrightarrow>
     (\<exists>ka. map_of (kaToKc sl M) ka = Some kc \<and> map_of (kaRootEntity sl M) ka = Some r) \<and> r \<noteq> []
       \<and> map_of (kcMerkleRoots sl M) kc \<noteq> None"
proof -
  have "r \<in> set (rootsOf (kcRootEntities sl M) kc) \<longleftrightarrow> (\<exists>p \<in> set (kaToKc sl M). ka_root sl M kc p = Some r)"
    by (force simp: rootsOf_kcRootEntities map_filter_def)
  also have "\<dots> \<longleftrightarrow> (\<exists>ka. (ka, kc) \<in> set (kaToKc sl M) \<and> map_of (kaRootEntity sl M) ka = Some r) \<and> r \<noteq> []
       \<and> map_of (kcMerkleRoots sl M) kc \<noteq> None"
    by (force simp: ka_root_Some)
  finally show ?thesis by (simp add: kaToKc_def meta_map_mem)
qed

section \<open>Shared root entities\<close>

lemma push_all:
  "rootsOf (fold (\<lambda>re. map_push re kc) es m) r = rootsOf m r @ replicate (count_list es r) kc"
  by (induction es arbitrary: m) (auto simp: replicate_app_Cons_same)

lemma rootsOf_rootEntityToKCs:
  "rootsOf (rootEntityToKCs R) r = concat (map (\<lambda>(kc, es). replicate (count_list es r) kc) R)"
proof -
  have "rootsOf (fold (\<lambda>(kc, es). fold (\<lambda>re. map_push re kc) es) R m) r
      = rootsOf m r @ concat (map (\<lambda>(kc, es). replicate (count_list es r) kc) R)" for m
    by (induction R arbitrary: m) (auto simp: push_all)
  then show ?thesis by (simp add: rootEntityToKCs_def rootsOf_def [of "[]"])
qed

lemma distinct_rootEntityToKCs: "distinct (map fst (rootEntityToKCs R))"
proof -
  have inner: "distinct (map fst m) \<Longrightarrow> distinct (map fst (fold (\<lambda>re. map_push re kc) es m))" for kc es m
    by (induction es arbitrary: m) simp_all
  have "distinct (map fst m) \<Longrightarrow> distinct (map fst (fold (\<lambda>(kc, es). fold (\<lambda>re. map_push re kc) es) R m))" for m
    by (induction R arbitrary: m) (auto simp: inner)
  then show ?thesis by (simp add: rootEntityToKCs_def)
qed

lemma overlapping_iff:
  "kc \<in> set (overlappingKCs R) \<longleftrightarrow>
     (\<exists>r. length (rootsOf (rootEntityToKCs R) r) > 1 \<and> kc \<in> set (rootsOf (rootEntityToKCs R) r))"
proof
  assume "kc \<in> set (overlappingKCs R)"
  then obtain r kcs where "(r, kcs) \<in> set (rootEntityToKCs R)" "length kcs > 1" "kc \<in> set kcs"
    by (auto simp: overlappingKCs_def)
  moreover from this have "rootsOf (rootEntityToKCs R) r = kcs"
    using distinct_rootEntityToKCs [of R] by (simp add: rootsOf_def)
  ultimately show "\<exists>r. length (rootsOf (rootEntityToKCs R) r) > 1 \<and> kc \<in> set (rootsOf (rootEntityToKCs R) r)" by metis
next
  assume "\<exists>r. length (rootsOf (rootEntityToKCs R) r) > 1 \<and> kc \<in> set (rootsOf (rootEntityToKCs R) r)"
  then obtain r kcs where "map_of (rootEntityToKCs R) r = Some kcs" "length kcs > 1" "kc \<in> set kcs"
    by (auto simp: rootsOf_def split: option.splits)
  then show "kc \<in> set (overlappingKCs R)"
    by (force simp: overlappingKCs_def dest: map_of_SomeD)
qed

lemma shared_root_overlaps:
  assumes "(kc, es) \<in> set R" "(kc', es') \<in> set R" "kc \<noteq> kc'" "r \<in> set es" "r \<in> set es'"
  shows "kc \<in> set (overlappingKCs R)"
proof -
  let ?x = "rootsOf (rootEntityToKCs R) r"
  have "set ?x = {kc. \<exists>es. (kc, es) \<in> set R \<and> r \<in> set es}"
    by (auto simp: rootsOf_rootEntityToKCs count_list_0_iff)
  then have "{kc, kc'} \<subseteq> set ?x" using assms by auto
  moreover from this have "length ?x > 1"
    using assms(3) card_length [of ?x] card_mono [of "set ?x" "{kc, kc'}"] by (simp add: card_insert_if)
  ultimately show ?thesis by (auto simp: overlapping_iff)
qed

lemma no_overlap:
  assumes "distinct (concat (map snd R))"
  shows "overlappingKCs R = []"
proof -
  have len: "length (rootsOf (rootEntityToKCs R) r) = count_list (concat (map snd R)) r" for r
    unfolding rootsOf_rootEntityToKCs by (induction R) (auto simp: count_list_append)
  have "count_list xs r \<le> 1" if "distinct xs" for xs :: "string list" and r
    using that by (induction xs) (auto simp: count_list_0_iff)
  then have "\<not> length (rootsOf (rootEntityToKCs R) r) > 1" for r
    using len [of r] assms by (metis not_le)
  then show ?thesis using overlapping_iff [of _ R] by (metis last_in_set)
qed

section \<open>What is kept\<close>

text \<open>
  The meaning of the metadata: an asset of a collection with its root entity; collections that share a
  root entity with another asset; collections whose claimed root their triples justify.
\<close>

definition part :: "(string \<Rightarrow> string) \<Rightarrow> Quad list \<Rightarrow> string \<Rightarrow> string \<Rightarrow> string \<Rightarrow> bool" where
  "part sl M ka u r \<longleftrightarrow> map_of (kaToKc sl M) ka = Some u \<and> map_of (kaRootEntity sl M) ka = Some r \<and> r \<noteq> []
     \<and> map_of (kcMerkleRoots sl M) u \<noteq> None"

definition shared_kc :: "(string \<Rightarrow> string) \<Rightarrow> Quad list \<Rightarrow> string \<Rightarrow> bool" where
  "shared_kc sl M u \<longleftrightarrow> (\<exists>ka ka' u' r. ka \<noteq> ka' \<and> part sl M ka u r \<and> part sl M ka' u' r)"

definition committed_kc :: "SyncEngine \<Rightarrow> (string \<Rightarrow> string) \<Rightarrow> Quad list \<Rightarrow> Quad list \<Rightarrow> string \<Rightarrow> bool" where
  "committed_kc en sl D M u \<longleftrightarrow> (\<exists>c. map_of (kcMerkleRoots sl M) u = Some c \<and>
     (let quads = allQuadsForKC D (rootsOf (kcRootEntities sl M) u) in
      (\<nexists>ka r. part sl M ka u r) \<or> shared_kc sl M u
      \<or> spreads en D (rootsOf (kcRootEntities sl M) u)
        \<and> (c = hex_bytes (computeFlatKCRootV10 (en_hash en) quads (kcPrivateRoots sl M u))
           \<or> c = hex_bytes (computeFlatKCRootV10 (en_hash en) quads []))))"

lemma rootsOf_part: "r \<in> set (rootsOf (kcRootEntities sl M) u) \<longleftrightarrow> (\<exists>ka. part sl M ka u r)"
  by (auto simp: mem_kcRootEntities part_def)

lemma known_part: "r \<in> set (concat (map snd (kcRootEntities sl M))) \<longleftrightarrow> (\<exists>ka u. part sl M ka u r)"
  using rootsOf_mem [OF distinct_kcRootEntities [of sl M], of r] rootsOf_part [of r sl M] by (auto; metis snd_conv)

lemma sum_map_push:
  "distinct (map fst m) \<Longrightarrow>
   sum_list (map (\<lambda>(k, es). count_list es r) (map_push k v m)) = sum_list (map (\<lambda>(k, es). count_list es r) m) + (if v = r then 1 else 0)"
proof (induction m)
  case (Cons p m)
  obtain k' es where p: "p = (k', es)" by (cases p)
  have "map_of m k' = None" using Cons.prems p by (simp add: map_of_eq_None_iff)
  then show ?case using Cons p by (auto simp: map_push_def count_list_append)
qed (simp add: map_push_def)

lemma fold_push_count:
  "distinct (map fst m) \<Longrightarrow>
   sum_list (map (\<lambda>(k, es). count_list es r) (fold (\<lambda>(ka, kc) m.
     case f ka of None \<Rightarrow> m | Some re \<Rightarrow> if re = [] \<or> g kc = None then m else map_push kc re m) ps m))
   = sum_list (map (\<lambda>(k, es). count_list es r) m) + length (filter (\<lambda>(ka, kc). f ka = Some r \<and> r \<noteq> [] \<and> g kc \<noteq> None) ps)"
proof (induction ps arbitrary: m)
  case (Cons p ps)
  obtain ka kc where p: "p = (ka, kc)" by (cases p)
  define m' where "m' = (case f ka of None \<Rightarrow> m | Some re \<Rightarrow> if re = [] \<or> g kc = None then m else map_push kc re m)"
  have "distinct (map fst m')" using Cons.prems by (simp add: m'_def split: option.split)
  moreover have "sum_list (map (\<lambda>(k, es). count_list es r) m')
      = sum_list (map (\<lambda>(k, es). count_list es r) m) + (if f ka = Some r \<and> r \<noteq> [] \<and> g kc \<noteq> None then 1 else 0)"
    using Cons.prems by (simp add: m'_def sum_map_push split: option.split)
  ultimately show ?case using Cons.IH [of m'] by (simp add: p m'_def)
qed simp

lemma length_owners:
  "length (rootsOf (rootEntityToKCs (kcRootEntities sl M)) r) = card {ka. \<exists>u. part sl M ka u r}"
proof -
  let ?P = "\<lambda>(ka, kc). map_of (kaRootEntity sl M) ka = Some r \<and> r \<noteq> [] \<and> map_of (kcMerkleRoots sl M) kc \<noteq> None"
  let ?ps = "filter ?P (kaToKc sl M)"
  have "length (rootsOf (rootEntityToKCs R) r) = sum_list (map (\<lambda>(k, es). count_list es r) R)" for R
    unfolding rootsOf_rootEntityToKCs by (induction R) auto
  then have "length (rootsOf (rootEntityToKCs (kcRootEntities sl M)) r) = length ?ps"
    using fold_push_count [of "[]" r] by (simp add: kcRootEntities_def)
  also have "\<dots> = card (set (map fst ?ps))"
  proof -
    have "distinct (map fst ?ps)" by (rule distinct_map_filter) (simp add: kaToKc_def distinct_meta_map)
    from distinct_card [OF this] show ?thesis by (simp only: length_map)
  qed
  also have "set (map fst ?ps) = {ka. \<exists>u. part sl M ka u r}"
  proof -
    have "ka \<in> set (map fst ?ps) \<longleftrightarrow> (\<exists>u. (ka, u) \<in> set (kaToKc sl M) \<and> ?P (ka, u))" for ka by force
    also have "\<dots> ka \<longleftrightarrow> (\<exists>u. part sl M ka u r)" for ka unfolding part_def kaToKc_def meta_map_mem by simp
    finally show ?thesis by blast
  qed
  finally show ?thesis .
qed

lemma finite_parts: "finite {ka. \<exists>u. part sl M ka u r}"
proof (rule finite_subset)
  show "{ka. \<exists>u. part sl M ka u r} \<subseteq> dom (map_of (kaToKc sl M))" by (auto simp: part_def)
qed (simp add: finite_dom_map_of)

lemma two_members: "finite A \<Longrightarrow> a \<in> A \<Longrightarrow> card A > 1 \<longleftrightarrow> (\<exists>b \<in> A. b \<noteq> a)"
proof -
  assume a: "finite A" "a \<in> A"
  have "card (A - {a}) = card A - 1" using a by simp
  then have "card A > 1 \<longleftrightarrow> card (A - {a}) \<noteq> 0" by linarith
  also have "\<dots> \<longleftrightarrow> A - {a} \<noteq> {}" using a(1) by (metis card_0_eq finite_Diff)
  also have "\<dots> \<longleftrightarrow> (\<exists>b \<in> A. b \<noteq> a)" by blast
  finally show ?thesis .
qed

lemma overlapping_shared: "u \<in> set (overlappingKCs (kcRootEntities sl M)) \<longleftrightarrow> shared_kc sl M u"
proof -
  have owner: "u \<in> set (rootsOf (rootEntityToKCs (kcRootEntities sl M)) r) \<longleftrightarrow> (\<exists>ka. part sl M ka u r)" for r
  proof -
    have "u \<in> set (rootsOf (rootEntityToKCs (kcRootEntities sl M)) r)
        \<longleftrightarrow> (\<exists>es. (u, es) \<in> set (kcRootEntities sl M) \<and> r \<in> set es)"
      by (auto simp: rootsOf_rootEntityToKCs count_list_0_iff)
    then show ?thesis using rootsOf_mem [OF distinct_kcRootEntities [of sl M]] by (simp add: rootsOf_part)
  qed
  have "u \<in> set (overlappingKCs (kcRootEntities sl M))
      \<longleftrightarrow> (\<exists>r ka. part sl M ka u r \<and> card {ka. \<exists>u. part sl M ka u r} > 1)"
    unfolding overlapping_iff owner length_owners by blast
  also have "\<dots> \<longleftrightarrow> shared_kc sl M u"
  proof -
    have "card {ka. \<exists>u. part sl M ka u r} > 1 \<longleftrightarrow> (\<exists>ka' u'. part sl M ka' u' r \<and> ka' \<noteq> ka)" if "part sl M ka u r" for ka r
      using that two_members [OF finite_parts [of sl M r], of ka] by auto
    then show ?thesis unfolding shared_kc_def by metis
  qed
  finally show ?thesis .
qed

lemma verdict_ok_if:
  "verdict_ok (if a then OnTrust else if b then Overlapping else if \<not> e then CheckError else if f then FlatRoot else if l then LegacyRoot else Mismatch x)
     \<longleftrightarrow> a \<or> b \<or> e \<and> (f \<or> l)"
  by simp

lemma kc_check_committed:
  assumes "map_of (kcMerkleRoots sl M) u = Some c"
  shows "verdict_ok (kc_check en sl D M u c) \<longleftrightarrow> committed_kc en sl D M u"
proof -
  let ?q = "allQuadsForKC D (rootsOf (kcRootEntities sl M) u)" and ?ps = "kcPrivateRoots sl M u"
  have none: "rootsOf (kcRootEntities sl M) u = [] \<longleftrightarrow> (\<nexists>ka r. part sl M ka u r)"
  proof -
    have "set (rootsOf (kcRootEntities sl M) u) = {r. \<exists>ka. part sl M ka u r}" by (simp add: set_eq_iff rootsOf_part)
    then show ?thesis by (simp only: set_empty [symmetric]) blast
  qed
  define X where "X = (\<lambda>ps. hex_bytes (computeFlatKCRootV10 (en_hash en) ?q ps))"
  have "X ?ps = c \<or> ?ps \<noteq> [] \<and> X [] = c \<longleftrightarrow> c = X ?ps \<or> c = X []" by (cases "?ps = []") auto
  then show ?thesis
    unfolding kc_check_def committed_kc_def Let_def overlapping_shared none assms option.inject verdict_ok_if X_def by blast
qed

definition kept_subject :: "SyncEngine \<Rightarrow> (string \<Rightarrow> string) \<Rightarrow> Quad list \<Rightarrow> Quad list \<Rightarrow> string \<Rightarrow> bool" where
  "kept_subject en sl D M s \<longleftrightarrow>
     (\<forall>ka u. part sl M ka u s \<longrightarrow> (\<exists>ka' u'. part sl M ka' u' s \<and> committed_kc en sl D M u'))"

definition kept_meta :: "SyncEngine \<Rightarrow> (string \<Rightarrow> string) \<Rightarrow> Quad list \<Rightarrow> Quad list \<Rightarrow> string \<Rightarrow> bool" where
  "kept_meta en sl D M s \<longleftrightarrow>
     (if map_of (kcMerkleRoots sl M) s \<noteq> None then committed_kc en sl D M s
      else (\<forall>u. map_of (kaToKc sl M) s = Some u \<longrightarrow> u \<noteq> [] \<longrightarrow> committed_kc en sl D M u))"

definition rejected_kcs :: "SyncEngine \<Rightarrow> (string \<Rightarrow> string) \<Rightarrow> Quad list \<Rightarrow> Quad list \<Rightarrow> string set" where
  "rejected_kcs en sl D M = {u. map_of (kcMerkleRoots sl M) u \<noteq> None \<and> \<not> committed_kc en sl D M u}"

lemma kcMerkleRoots_mem: "(u, c) \<in> set (kcMerkleRoots sl M) \<longleftrightarrow> map_of (kcMerkleRoots sl M) u = Some c"
  by (simp add: kcMerkleRoots_def meta_map_mem)

lemma verified_set: "set (map fst (filter (\<lambda>(_, _, v). verdict_ok v) (verdicts en sl D M))) = {u. committed_kc en sl D M u}"
proof -
  have "u \<in> set (map fst (filter (\<lambda>(_, _, v). verdict_ok v) (verdicts en sl D M)))
      \<longleftrightarrow> (\<exists>c. (u, c) \<in> set (kcMerkleRoots sl M) \<and> verdict_ok (kc_check en sl D M u c))" for u
    by (force simp: verdicts_def)
  also have "\<dots> u \<longleftrightarrow> committed_kc en sl D M u" for u
    unfolding kcMerkleRoots_mem using kc_check_committed [of sl M u _ en D] committed_kc_def [of en sl D M u] by blast
  finally show ?thesis by blast
qed

lemma rejected_set: "set (map fst (filter (\<lambda>(_, _, v). \<not> verdict_ok v) (verdicts en sl D M))) = rejected_kcs en sl D M"
proof -
  have "u \<in> set (map fst (filter (\<lambda>(_, _, v). \<not> verdict_ok v) (verdicts en sl D M)))
      \<longleftrightarrow> (\<exists>c. (u, c) \<in> set (kcMerkleRoots sl M) \<and> \<not> verdict_ok (kc_check en sl D M u c))" for u
    by (force simp: verdicts_def)
  also have "\<dots> u \<longleftrightarrow> u \<in> rejected_kcs en sl D M" for u
    unfolding kcMerkleRoots_mem rejected_kcs_def using kc_check_committed [of sl M u _ en D] by blast
  finally show ?thesis by blast
qed

lemma map_fst_verdicts: "map fst (verdicts en sl D M) = map fst (kcMerkleRoots sl M)"
  by (auto simp: verdicts_def)

lemma rejected_count: "length (filter (\<lambda>(_, _, v). \<not> verdict_ok v) (verdicts en sl D M)) = card (rejected_kcs en sl D M)"
proof -
  have "distinct (map fst (filter (\<lambda>(_, _, v). \<not> verdict_ok v) (verdicts en sl D M)))"
    by (rule distinct_map_filter) (simp add: map_fst_verdicts kcMerkleRoots_def distinct_meta_map)
  from distinct_card [OF this] show ?thesis by (simp only: rejected_set length_map)
qed

lemma rejected_finite: "finite (rejected_kcs en sl D M)"
  by (metis rejected_set finite_set)

lemma verified_count:
  "length (filter (\<lambda>(_, _, v). verdict_ok v) (verdicts en sl D M)) < length (kcMerkleRoots sl M) \<longleftrightarrow> rejected_kcs en sl D M \<noteq> {}"
proof -
  have "length (filter (\<lambda>(_, _, v). verdict_ok v) (verdicts en sl D M))
      + length (filter (\<lambda>(_, _, v). \<not> verdict_ok v) (verdicts en sl D M)) = length (kcMerkleRoots sl M)"
    using sum_length_filter_compl [of "\<lambda>(_, _, v). verdict_ok v" "verdicts en sl D M"]
    by (simp add: verdicts_def case_prod_unfold)
  moreover have "length (filter (\<lambda>(_, _, v). \<not> verdict_ok v) (verdicts en sl D M)) = 0 \<longleftrightarrow> rejected_kcs en sl D M = {}"
    unfolding rejected_count using rejected_finite by simp
  ultimately show ?thesis by linarith
qed

lemma no_claims:
  assumes "kcMerkleRoots sl M = []"
  shows "kept_subject en sl D M s" "rejected_kcs en sl D M = {}"
  using assms by (simp_all add: kept_subject_def part_def rejected_kcs_def)

text \<open>The check in terms of the meaning of the metadata.\<close>

lemma verify_synced_eq:
  assumes "kcMerkleRoots sl M \<noteq> []"
  shows "verify_synced en sl D M acc =
    (let logs = concat (map (\<lambda>(kc, claimed, v). kc_log sl M acc kc claimed v) (verdicts en sl D M)) in
     if acc \<and> rejected_kcs en sl D M \<noteq> {} then
       \<lparr>vr_data = D, vr_meta = M, vr_rejected = 0, vr_logs = logs @ [AcceptedUnverified (card (rejected_kcs en sl D M))]\<rparr>
     else \<lparr>vr_data = filter (\<lambda>q. kept_subject en sl D M (subject q)) D, vr_meta = filter (\<lambda>q. kept_meta en sl D M (subject q)) M,
           vr_rejected = card (rejected_kcs en sl D M), vr_logs = logs\<rparr>)"
proof -
  let ?V = "filter (\<lambda>(_, _, v). verdict_ok v) (verdicts en sl D M)"
  have M: "M \<noteq> []" using assms by (auto simp: kcMerkleRoots_def meta_map_def)
  have verified: "r \<in> set (concat (map (rootsOf (kcRootEntities sl M)) (map fst ?V)))
      \<longleftrightarrow> (\<exists>ka u. part sl M ka u r \<and> committed_kc en sl D M u)" for r
    unfolding set_concat set_map [of "rootsOf _"] verified_set by (auto simp: rootsOf_part)
  have data: "keep_data (concat (map snd (kcRootEntities sl M))) (concat (map (rootsOf (kcRootEntities sl M)) (map fst ?V)))
      = (\<lambda>q. kept_subject en sl D M (subject q))"
    unfolding keep_data_def known_part verified kept_subject_def fun_eq_iff by auto
  have meta: "keep_meta (kcMerkleRoots sl M) (kaToKc sl M) (map fst ?V) = (\<lambda>q. kept_meta en sl D M (subject q))"
    unfolding keep_meta_def verified_set kept_meta_def fun_eq_iff by (auto split: option.splits)
  have fin: "card (rejected_kcs en sl D M) > 0 \<longleftrightarrow> rejected_kcs en sl D M \<noteq> {}"
    using rejected_finite by (simp add: card_gt_0_iff)
  show ?thesis
    unfolding verify_synced_def Let_def data meta rejected_count length_map [of fst] verified_count fin using M assms by simp
qed

end
