(* ===== verification/SyncHonest.thy ===== *)
theory SyncHonest
  imports SyncVerify
begin

text \<open>
  A batch that an honest peer serves passes the check of \<^theory_text>\<open>SyncVerify\<close>: the metadata that the
  publisher wrote (\<^theory_text>\<open>PublishMetadata\<close>), in any order, with the triples that the published roots
  commit to. The argument is made once, for every reader of literals that reads what the publisher
  writes, and holds of both readers of the source.
\<close>

section \<open>What a publisher serves\<close>

type_synonym publication = "KCMetadata \<times> KAMetadata list \<times> OnChainProvenance"

abbreviation p_ual :: "publication \<Rightarrow> string" where "p_ual p \<equiv> km_ual (fst p)"
abbreviation p_kas :: "publication \<Rightarrow> KAMetadata list" where "p_kas p \<equiv> fst (snd p)"

definition p_meta :: "(nat \<Rightarrow> string) \<Rightarrow> publication \<Rightarrow> Quad list" where
  "p_meta isoDate p = generateConfirmedFullMetadata isoDate (fst p) (p_kas p) (snd (snd p))"

definition silent :: "Quad \<Rightarrow> bool" where
  "silent q \<longleftrightarrow> predicate q \<notin> {DKG @ ''merkleRoot'', DKG @ ''partOf'', DKG @ ''rootEntity'', DKG @ ''privateMerkleRoot''}"

definition ka_fits :: "Quad list \<Rightarrow> string \<Rightarrow> KAMetadata \<Rightarrow> bool" where
  "ka_fits D u ka \<longleftrightarrow> ka_kcUal ka = u \<and> plain_iri (ka_rootEntity ka) \<and> clean_root (ka_rootEntity ka)
     \<and> list_all (\<lambda>r. length r = 32) (private_of ka)
     \<and> (ka_rootEntity ka \<in> subject ` set D \<or> (\<forall>q \<in> set D. \<not> in_scope (ka_rootEntity ka) q))"

definition publication_fits :: "(bytes \<Rightarrow> bytes) \<Rightarrow> Quad list \<Rightarrow> publication \<Rightarrow> bool" where
  "publication_fits h D p \<longleftrightarrow>
     plain_iri (p_ual p) \<and> distinct (map ka_tokenId (p_kas p)) \<and> list_all (ka_fits D (p_ual p)) (p_kas p)
     \<and> km_merkleRoot (fst p) = computeFlatKCRootV10 h
         (filter (\<lambda>q. list_ex (\<lambda>ka. in_scope (ka_rootEntity ka) q) (p_kas p)) D) (concat (map private_of (p_kas p)))"

definition honest_batch :: "SyncEngine \<Rightarrow> (nat \<Rightarrow> string) \<Rightarrow> publication list \<Rightarrow> Quad list \<Rightarrow> Quad list \<Rightarrow> bool" where
  "honest_batch en isoDate pubs D M \<longleftrightarrow>
     list_all (publication_fits (en_hash en) D) pubs \<and> spreads en D (map ka_rootEntity (concat (map p_kas pubs))) \<and> distinct (map p_ual pubs)
     \<and> distinct (map ka_rootEntity (concat (map p_kas pubs)))
     \<and> list_all (\<lambda>q. \<not> isBlankNode (subject q) \<and> \<not> isBlankNode (object q)) D
     \<and> set (filter (\<lambda>q. \<not> silent q) M) = set (filter (\<lambda>q. \<not> silent q) (concat (map (p_meta isoDate) pubs)))"

section \<open>The statements of a publication\<close>

lemma p_meta_split:
  "set (p_meta isoDate p) = set (generateKCMetadata (fst p) [])
     \<union> (\<Union>ka \<in> set (p_kas p). set (kaQuads (kcMetaGraph (km_contextGraphId (fst p))) ka))
     \<union> set (generateConfirmedMetadata isoDate (p_ual p) (km_contextGraphId (fst p)) (snd (snd p)))"
  by (simp add: p_meta_def generateConfirmedFullMetadata_def generateKCMetadata_def Let_def Un_ac)

lemma kc_statements:
  assumes "q \<in> set (generateKCMetadata m []) \<union> set (generateConfirmedMetadata isoDate (km_ual m) cg pv)" "\<not> silent q"
  shows "predicate q = DKG @ ''merkleRoot'' \<and> subject q = km_ual m \<and> object q = lit (hex_bytes (km_merkleRoot m))"
  using assms
  by (auto simp: generateKCMetadata_def generateConfirmedMetadata_def silent_def Let_def split: option.splits if_splits)

lemma ka_statements:
  assumes "q \<in> set (kaQuads g ka)" "\<not> silent q"
  shows "subject q = kaUri ka \<and>
    (predicate q = DKG @ ''partOf'' \<and> object q = ka_kcUal ka
     \<or> predicate q = DKG @ ''rootEntity'' \<and> object q = ka_rootEntity ka
     \<or> (\<exists>r \<in> set (private_of ka). predicate q = DKG @ ''privateMerkleRoot'' \<and> object q = lit (hex_bytes r)))"
  using assms
  by (cases "ka_privateMerkleRoot ka"; cases "ka_privateTripleCount ka > 0") (auto simp: kaQuads_def silent_def private_of_def)

lemma p_meta_cases:
  assumes "q \<in> set (p_meta isoDate p)"
  shows "predicate q = DKG @ ''merkleRoot'' \<Longrightarrow> subject q = p_ual p \<and> object q = lit (hex_bytes (km_merkleRoot (fst p)))"
    and "predicate q = DKG @ ''partOf'' \<Longrightarrow> \<exists>ka \<in> set (p_kas p). subject q = kaUri ka \<and> object q = ka_kcUal ka"
    and "predicate q = DKG @ ''rootEntity'' \<Longrightarrow> \<exists>ka \<in> set (p_kas p). subject q = kaUri ka \<and> object q = ka_rootEntity ka"
    and "predicate q = DKG @ ''privateMerkleRoot'' \<Longrightarrow>
      \<exists>ka \<in> set (p_kas p). \<exists>r \<in> set (private_of ka). subject q = kaUri ka \<and> object q = lit (hex_bytes r)"
proof -
  have split: "silent q \<or> predicate q = DKG @ ''merkleRoot'' \<and> subject q = p_ual p \<and> object q = lit (hex_bytes (km_merkleRoot (fst p)))
    \<or> (\<exists>ka \<in> set (p_kas p). subject q = kaUri ka \<and>
        (predicate q = DKG @ ''partOf'' \<and> object q = ka_kcUal ka
         \<or> predicate q = DKG @ ''rootEntity'' \<and> object q = ka_rootEntity ka
         \<or> (\<exists>r \<in> set (private_of ka). predicate q = DKG @ ''privateMerkleRoot'' \<and> object q = lit (hex_bytes r))))"
    using assms kc_statements [of q "fst p" isoDate] ka_statements [of q] unfolding p_meta_split by blast
  show "predicate q = DKG @ ''merkleRoot'' \<Longrightarrow> subject q = p_ual p \<and> object q = lit (hex_bytes (km_merkleRoot (fst p)))"
    using split by (auto simp: silent_def)
  show "predicate q = DKG @ ''partOf'' \<Longrightarrow> \<exists>ka \<in> set (p_kas p). subject q = kaUri ka \<and> object q = ka_kcUal ka"
    using split by (auto simp: silent_def)
  show "predicate q = DKG @ ''rootEntity'' \<Longrightarrow> \<exists>ka \<in> set (p_kas p). subject q = kaUri ka \<and> object q = ka_rootEntity ka"
    using split by (auto simp: silent_def)
  show "predicate q = DKG @ ''privateMerkleRoot'' \<Longrightarrow>
      \<exists>ka \<in> set (p_kas p). \<exists>r \<in> set (private_of ka). subject q = kaUri ka \<and> object q = lit (hex_bytes r)"
    using split by (auto simp: silent_def)
qed

lemma p_meta_root:
  "\<exists>q \<in> set (p_meta isoDate p). predicate q = DKG @ ''merkleRoot'' \<and> subject q = p_ual p \<and> object q = lit (hex_bytes (km_merkleRoot (fst p)))"
  unfolding p_meta_split by (simp add: generateKCMetadata_def Let_def)

lemma p_meta_ka:
  assumes "ka \<in> set (p_kas p)"
    "(pr, ob) \<in> {(DKG @ ''partOf'', ka_kcUal ka), (DKG @ ''rootEntity'', ka_rootEntity ka)}
       \<union> (\<lambda>r. (DKG @ ''privateMerkleRoot'', lit (hex_bytes r))) ` set (private_of ka)"
  shows "\<exists>q \<in> set (p_meta isoDate p). predicate q = pr \<and> subject q = kaUri ka \<and> object q = ob"
proof -
  have "\<exists>q \<in> set (kaQuads g ka). predicate q = pr \<and> subject q = kaUri ka \<and> object q = ob" for g
    using assms(2)
    by (cases "ka_privateMerkleRoot ka"; cases "ka_privateTripleCount ka > 0") (auto simp: kaQuads_def private_of_def)
  then show ?thesis using assms(1) unfolding p_meta_split by blast
qed

text \<open>Asset URIs determine their collection.\<close>

lemma split_last_slash:
  assumes "x @ ''/'' @ a = y @ ''/'' @ b" "CHR ''/'' \<notin> set a" "CHR ''/'' \<notin> set b"
  shows "x = y \<and> a = b"
proof -
  have tw: "takeWhile (\<lambda>c. c \<noteq> CHR ''/'') (rev (z @ ''/'' @ d)) = rev d" if "CHR ''/'' \<notin> set d" for z d :: string
    using that by (subst rev_append, subst rev_append, subst append_assoc, subst takeWhile_append2) auto
  have "rev a = rev b" using tw [OF assms(2), of x] tw [OF assms(3), of y] assms(1) by metis
  then show ?thesis using assms(1) by simp
qed

lemma kaUri_ual: "kaUri ka = kaUri ka' \<Longrightarrow> ka_kcUal ka = ka_kcUal ka' \<and> ka_tokenId ka = ka_tokenId ka'"
proof -
  have "CHR ''/'' \<notin> set (show_nat n)" for n using show_nat_digits by (force simp: is_digit_def)
  moreover assume "kaUri ka = kaUri ka'"
  ultimately show ?thesis
    using split_last_slash [of "ka_kcUal ka" "show_nat (ka_tokenId ka)" "ka_kcUal ka'" "show_nat (ka_tokenId ka')"]
    by (simp add: kaUri_def)
qed

section \<open>The triples of a collection\<close>

lemma skolemQuad_id: "\<not> isBlankNode (subject q) \<Longrightarrow> \<not> isBlankNode (object q) \<Longrightarrow> skolemQuad r q = q"
  by (simp add: skolemQuad_def skolemTerm_def)

lemma in_scope_pushed: "clean_root r \<Longrightarrow> r \<noteq> [] \<Longrightarrow> in_scope r q \<longleftrightarrow> subject q = r \<or> pushed r q"
proof -
  assume c: "clean_root r" "r \<noteq> []"
  have "pushed r q" if s: "startsWith (subject q) (r @ GENID_SEGMENT)"
  proof -
    have "subject q = r @ GENID_SEGMENT @ drop (length (r @ GENID_SEGMENT)) (subject q)"
      using s by (metis append_assoc append_take_drop_id startsWith_def)
    then show ?thesis
      using rootEntity_of_child [OF c(1)] child_is_skolemized c(2) unfolding pushed_def by metis
  qed
  moreover have "in_scope r q" if "pushed r q"
    using pushed_subject [OF that] by (auto simp: in_scope_def startsWith_def)
  ultimately show ?thesis by (auto simp: in_scope_def)
qed

lemma group_in_scope:
  assumes "list_all (\<lambda>q. \<not> isBlankNode (subject q) \<and> \<not> isBlankNode (object q)) D" "clean_root r" "r \<noteq> []"
    and "r \<in> subject ` set D \<or> (\<forall>q \<in> set D. \<not> in_scope r q)"
  shows "set (case map_of (autoPartition D) r of None \<Rightarrow> [] | Some qs \<Rightarrow> qs) = {q \<in> set D. in_scope r q}"
proof -
  have D: "\<not> isBlankNode (subject q)" "\<not> isBlankNode (object q)" if "q \<in> set D" for q using assms(1) that by (auto simp: list_all_iff)
  have root: "r \<in> set (findRootEntities [] D) \<longleftrightarrow> r \<in> subject ` set D"
    using D(1) assms(2) by (auto simp: set_findRootEntities clean_root_def)
  have "set (map (skolemQuad r) (quadsOfRoot (blankToRoot D) D r)) = {q \<in> set D. subject q = r}"
    using D by (force simp: quadsOfRoot_def skolemQuad_id)
  then have "set (map (skolemQuad r) (quadsOfRoot (blankToRoot D) D r) @ filter (pushed r) D) = {q \<in> set D. in_scope r q}"
    using in_scope_pushed [OF assms(2,3)] by auto
  then show ?thesis using assms(4) root by (auto simp: autoPartition_group)
qed

text \<open>Private roots travel as hex text.\<close>

lemma startsWith_mem: "startsWith t p \<Longrightarrow> c \<in> set p \<Longrightarrow> c \<in> set t"
  by (metis in_set_takeD startsWith_def)

lemma hex_pairs_hex: "hex_pairs (hex_bytes bs) = bs"
proof (induction bs)
  case (Cons b bs)
  then show ?case using parseHexLoop_hex [of "[]" "[b]"] by (auto simp: hex_bytes_Cons bindE_def split: sum.splits option.splits)
qed (simp add: hex_bytes_def)

lemma remove_0x_hex: "remove_0x (hex_bytes bs) = hex_bytes bs"
proof -
  have "CHR ''x'' \<notin> set (hex_bytes bs)" using hex_bytes_hex [of "CHR ''x''" bs] by (auto simp: is_hex_def is_digit_def)
  then have "\<not> startsWith (hex_bytes bs) ''0x''" using startsWith_mem by fastforce
  then show ?thesis by (simp add: remove_0x_def)
qed

lemma mem_map_filter: "x \<in> set (List.map_filter f xs) \<longleftrightarrow> (\<exists>y \<in> set xs. f y = Some x)"
  by (induction xs) (auto simp: map_filter_simps split: option.splits)

lemma kcPrivateRoots_mem:
  "x \<in> set (kcPrivateRoots sl M u) \<longleftrightarrow>
     (\<exists>ka q. (ka, u) \<in> set (kaToKc sl M) \<and> q \<in> set M \<and> subject q = ka \<and> predicate q = DKG @ ''privateMerkleRoot''
        \<and> length (remove_0x (sl (object q))) = 64 \<and> x = hex_pairs (remove_0x (sl (object q))))"
proof -
  define f where "f = (\<lambda>ka (q :: Quad). if subject q = ka \<and> predicate q = DKG @ ''privateMerkleRoot'' then
      (let hex = remove_0x (sl (object q)) in if length hex = 64 then Some (hex_pairs hex) else None) else None)"
  have f: "f ka q = Some x \<longleftrightarrow> subject q = ka \<and> predicate q = DKG @ ''privateMerkleRoot''
      \<and> length (remove_0x (sl (object q))) = 64 \<and> x = hex_pairs (remove_0x (sl (object q)))" for ka q
    by (auto simp: f_def Let_def)
  have "x \<in> set (kcPrivateRoots sl M u) \<longleftrightarrow>
      (\<exists>p \<in> set (kaToKc sl M). snd p = u \<and> x \<in> set (List.map_filter (f (fst p)) M))"
  proof -
    have "kcPrivateRoots sl M u = concat (map (\<lambda>p. if snd p \<noteq> u then [] else List.map_filter (f (fst p)) M) (kaToKc sl M))"
      unfolding kcPrivateRoots_def f_def case_prod_unfold ..
    then show ?thesis by (auto split: if_splits)
  qed
  then show ?thesis unfolding mem_map_filter f by force
qed

section \<open>Readers\<close>

locale literal_reader =
  fixes sl :: "string \<Rightarrow> string"
  assumes read_iri: "plain_iri u \<Longrightarrow> sl u = u"
    and read_hex: "sl (lit (hex_bytes bs)) = hex_bytes bs"

lemma replace_pair_id: "a \<notin> set s \<Longrightarrow> replace_pair a b r s = s"
  by (induction a b r s rule: replace_pair.induct) auto

lemma unescape_plain: "BACKSLASH \<notin> set s \<Longrightarrow> unescapeLiteralContent s = s"
  by (simp add: unescapeLiteralContent_def replace_pair_id)

lemma cut_datatype_id: "CHR ''^'' \<notin> set s \<Longrightarrow> cut_datatype s = s"
proof (induction s)
  case (Cons c s)
  then show ?case using startsWith_mem [of "c # s" _ "CHR ''^''"] by force
qed simp

lemma hex_not: "c \<notin> set (hex_bytes bs)" if "\<not> is_hex c"
  using that hex_bytes_hex by blast

lemma plain_iri_chars: "plain_iri u \<Longrightarrow> CHR ''^'' \<notin> set u \<and> QUOTE \<notin> set u"
  by (auto simp: plain_iri_def assertSafeIri_def unsafe_iri_char_def list_ex_iff split: if_splits)

lemma endsWith_quote: "endsWith s [QUOTE] \<Longrightarrow> QUOTE \<in> set s"
  by (cases s rule: rev_cases) (auto simp: endsWith_def startsWith_def)

interpretation utils: literal_reader stripLiteral
proof
  fix u assume "plain_iri u"
  then show "stripLiteral u = u" using plain_iri_quote by (simp add: stripLiteral_def)
next
  fix bs
  have "BACKSLASH \<notin> set (hex_bytes bs)" by (rule hex_not) (simp add: is_hex_def is_digit_def)
  then show "stripLiteral (lit (hex_bytes bs)) = hex_bytes bs"
    unfolding lit_hex stripLiteral_def by (simp add: startsWith_def endsWith_def unescape_plain)
qed

interpretation worker: literal_reader worker_stripLiteral
proof
  fix u assume "plain_iri u"
  then show "worker_stripLiteral u = u"
    using plain_iri_quote plain_iri_chars endsWith_quote by (auto simp: worker_stripLiteral_def unquote_def Let_def cut_datatype_id)
next
  fix bs
  have "CHR ''^'' \<notin> set (hex_bytes bs)" by (rule hex_not) (simp add: is_hex_def is_digit_def)
  then show "worker_stripLiteral (lit (hex_bytes bs)) = hex_bytes bs"
    unfolding lit_hex worker_stripLiteral_def unquote_def Let_def by (simp add: startsWith_def endsWith_def cut_datatype_id)
qed

context literal_reader
begin

lemma honest_statement:
  assumes "honest_batch en isoDate pubs D M" "\<not> silent q"
  shows "q \<in> set M \<longleftrightarrow> (\<exists>p \<in> set pubs. q \<in> set (p_meta isoDate p))"
proof -
  have "q \<in> set (filter (\<lambda>q. \<not> silent q) M) \<longleftrightarrow> q \<in> set (filter (\<lambda>q. \<not> silent q) (concat (map (p_meta isoDate) pubs)))"
    using assms(1) unfolding honest_batch_def by blast
  then show ?thesis using assms(2) by simp
qed

lemma fits:
  assumes "honest_batch en isoDate pubs D M" "p \<in> set pubs"
  shows "plain_iri (p_ual p)" "distinct (map ka_tokenId (p_kas p))"
    and "ka \<in> set (p_kas p) \<Longrightarrow> ka_kcUal ka = p_ual p" "ka \<in> set (p_kas p) \<Longrightarrow> plain_iri (ka_rootEntity ka)"
    and "ka \<in> set (p_kas p) \<Longrightarrow> r \<in> set (private_of ka) \<Longrightarrow> length r = 32"
  using assms by (auto simp: honest_batch_def publication_fits_def ka_fits_def list_all_iff)

lemma same_publication:
  assumes "honest_batch en isoDate pubs D M" "p \<in> set pubs" "p' \<in> set pubs" "p_ual p = p_ual p'"
  shows "p = p'"
  using assms by (auto simp: honest_batch_def distinct_map dest: inj_onD)

lemma same_asset:
  assumes hb: "honest_batch en isoDate pubs D M" and "p \<in> set pubs" "p' \<in> set pubs"
    and k: "ka \<in> set (p_kas p)" "ka' \<in> set (p_kas p')" "kaUri ka = kaUri ka'"
  shows "p = p' \<and> ka = ka'"
proof -
  have u: "ka_kcUal ka = ka_kcUal ka'" "ka_tokenId ka = ka_tokenId ka'" using kaUri_ual [OF k(3)] by auto
  then have "p = p'" using same_publication [OF hb assms(2,3)] fits(3) [OF hb] assms(2,3) k(1,2) by metis
  then show ?thesis using u(2) k(1,2) fits(2) [OF hb assms(2)] by (auto simp: distinct_map dest: inj_onD)
qed

text \<open>A predicate that every publication uses with one value per subject is read back exactly.\<close>

lemma read_back:
  assumes hb: "honest_batch en isoDate pubs D M" and name: "\<And>q. predicate q = DKG @ name \<Longrightarrow> \<not> silent q"
    and sound: "\<And>p q. p \<in> set pubs \<Longrightarrow> q \<in> set (p_meta isoDate p) \<Longrightarrow> predicate q = DKG @ name \<Longrightarrow> R (subject q) (sl (object q))"
    and total: "\<And>s v. R s v \<Longrightarrow> \<exists>p \<in> set pubs. \<exists>q \<in> set (p_meta isoDate p). predicate q = DKG @ name \<and> subject q = s"
    and unique: "\<And>s v v'. R s v \<Longrightarrow> R s v' \<Longrightarrow> v = v'"
  shows "map_of (meta_map sl name M) s = Some v \<longleftrightarrow> R s v"
proof
  show R: "R s v" if "map_of (meta_map sl name M) s = Some v" for v
    using meta_map_Some [OF that] honest_statement [OF hb name] sound by metis
  assume r: "R s v"
  then obtain w where w: "map_of (meta_map sl name M) s = Some w"
    using total [OF r] meta_map_None [of sl name M s] honest_statement [OF hb name]
    by (cases "map_of (meta_map sl name M) s") auto
  then show "map_of (meta_map sl name M) s = Some v" using unique [OF r R [OF w]] by simp
qed

lemma claims_read:
  assumes hb: "honest_batch en isoDate pubs D M"
  shows "map_of (kcMerkleRoots sl M) u = Some c \<longleftrightarrow> (\<exists>p \<in> set pubs. u = p_ual p \<and> c = hex_bytes (km_merkleRoot (fst p)))"
  unfolding kcMerkleRoots_def
proof (rule read_back [OF hb])
  fix p q assume "p \<in> set pubs" "q \<in> set (p_meta isoDate p)" "predicate q = DKG @ ''merkleRoot''"
  then show "\<exists>p \<in> set pubs. subject q = p_ual p \<and> sl (object q) = hex_bytes (km_merkleRoot (fst p))"
    using p_meta_cases(1) read_hex by metis
next
  show "\<And>q. predicate q = DKG @ ''merkleRoot'' \<Longrightarrow> \<not> silent q" by (simp add: silent_def)
  show "\<exists>p \<in> set pubs. \<exists>q \<in> set (p_meta isoDate p). predicate q = DKG @ ''merkleRoot'' \<and> subject q = s"
    if "\<exists>p \<in> set pubs. s = p_ual p \<and> v = hex_bytes (km_merkleRoot (fst p))" for s v
    using that p_meta_root by blast
  show "v = v'" if "\<exists>p \<in> set pubs. s = p_ual p \<and> v = hex_bytes (km_merkleRoot (fst p))"
    "\<exists>p \<in> set pubs. s = p_ual p \<and> v' = hex_bytes (km_merkleRoot (fst p))" for s v v'
    using that same_publication [OF hb] by metis
qed

lemma parts_read:
  assumes hb: "honest_batch en isoDate pubs D M"
  shows "map_of (kaToKc sl M) s = Some u \<longleftrightarrow> (\<exists>p \<in> set pubs. \<exists>k \<in> set (p_kas p). s = kaUri k \<and> u = p_ual p)"
  unfolding kaToKc_def
proof (rule read_back [OF hb])
  fix p q assume p: "p \<in> set pubs" and "q \<in> set (p_meta isoDate p)" "predicate q = DKG @ ''partOf''"
  then obtain k where k: "k \<in> set (p_kas p)" "subject q = kaUri k" "object q = ka_kcUal k" using p_meta_cases(2) by metis
  then have "sl (object q) = p_ual p" using fits(1,3) [OF hb p] read_iri by simp
  then show "\<exists>p \<in> set pubs. \<exists>k \<in> set (p_kas p). subject q = kaUri k \<and> sl (object q) = p_ual p" using p k by blast
next
  show "\<And>q. predicate q = DKG @ ''partOf'' \<Longrightarrow> \<not> silent q" by (simp add: silent_def)
  show "\<exists>p \<in> set pubs. \<exists>q \<in> set (p_meta isoDate p). predicate q = DKG @ ''partOf'' \<and> subject q = s"
    if "\<exists>p \<in> set pubs. \<exists>k \<in> set (p_kas p). s = kaUri k \<and> v = p_ual p" for s v
    using that p_meta_ka [of _ _ "DKG @ ''partOf''"] by fastforce
  show "v = v'" if "\<exists>p \<in> set pubs. \<exists>k \<in> set (p_kas p). s = kaUri k \<and> v = p_ual p"
    "\<exists>p \<in> set pubs. \<exists>k \<in> set (p_kas p). s = kaUri k \<and> v' = p_ual p" for s v v'
    using that same_asset [OF hb] by metis
qed

lemma roots_read:
  assumes hb: "honest_batch en isoDate pubs D M"
  shows "map_of (kaRootEntity sl M) s = Some r \<longleftrightarrow> (\<exists>p \<in> set pubs. \<exists>k \<in> set (p_kas p). s = kaUri k \<and> r = ka_rootEntity k)"
  unfolding kaRootEntity_def
proof (rule read_back [OF hb])
  fix p q assume p: "p \<in> set pubs" and "q \<in> set (p_meta isoDate p)" "predicate q = DKG @ ''rootEntity''"
  then obtain k where k: "k \<in> set (p_kas p)" "subject q = kaUri k" "object q = ka_rootEntity k" using p_meta_cases(3) by metis
  then have "sl (object q) = ka_rootEntity k" using fits(4) [OF hb p] read_iri by simp
  then show "\<exists>p \<in> set pubs. \<exists>k \<in> set (p_kas p). subject q = kaUri k \<and> sl (object q) = ka_rootEntity k" using p k by blast
next
  show "\<And>q. predicate q = DKG @ ''rootEntity'' \<Longrightarrow> \<not> silent q" by (simp add: silent_def)
  show "\<exists>p \<in> set pubs. \<exists>q \<in> set (p_meta isoDate p). predicate q = DKG @ ''rootEntity'' \<and> subject q = s"
    if "\<exists>p \<in> set pubs. \<exists>k \<in> set (p_kas p). s = kaUri k \<and> v = ka_rootEntity k" for s v
    using that p_meta_ka [of _ _ "DKG @ ''rootEntity''"] by fastforce
  show "v = v'" if "\<exists>p \<in> set pubs. \<exists>k \<in> set (p_kas p). s = kaUri k \<and> v = ka_rootEntity k"
    "\<exists>p \<in> set pubs. \<exists>k \<in> set (p_kas p). s = kaUri k \<and> v' = ka_rootEntity k" for s v v'
    using that same_asset [OF hb] by metis
qed

end

context literal_reader
begin

lemma part_read:
  assumes hb: "honest_batch en isoDate pubs D M"
  shows "part sl M ka u r \<longleftrightarrow> (\<exists>p \<in> set pubs. \<exists>k \<in> set (p_kas p). ka = kaUri k \<and> u = p_ual p \<and> r = ka_rootEntity k)"
proof
  assume "part sl M ka u r"
  then obtain p k p' k' where "p \<in> set pubs" "k \<in> set (p_kas p)" "ka = kaUri k" "u = p_ual p"
    "p' \<in> set pubs" "k' \<in> set (p_kas p')" "ka = kaUri k'" "r = ka_rootEntity k'"
    unfolding part_def parts_read [OF hb] roots_read [OF hb] by blast
  then show "\<exists>p \<in> set pubs. \<exists>k \<in> set (p_kas p). ka = kaUri k \<and> u = p_ual p \<and> r = ka_rootEntity k"
    using same_asset [OF hb] by metis
next
  assume "\<exists>p \<in> set pubs. \<exists>k \<in> set (p_kas p). ka = kaUri k \<and> u = p_ual p \<and> r = ka_rootEntity k"
  then obtain p k where p: "p \<in> set pubs" "k \<in> set (p_kas p)" "ka = kaUri k" "u = p_ual p" "r = ka_rootEntity k" by blast
  have "r \<noteq> []" using fits(4) [OF hb p(1,2)] p(5) by (simp add: plain_iri_def)
  moreover have "map_of (kcMerkleRoots sl M) u = Some (hex_bytes (km_merkleRoot (fst p)))"
    using claims_read [OF hb] p by blast
  ultimately show "part sl M ka u r"
    unfolding part_def parts_read [OF hb] roots_read [OF hb] using p by auto
qed

lemma not_shared:
  assumes hb: "honest_batch en isoDate pubs D M"
  shows "\<not> shared_kc sl M u"
proof
  assume "shared_kc sl M u"
  then obtain ka ka' p p' k k' where d: "ka \<noteq> ka'"
    and p: "p \<in> set pubs" "k \<in> set (p_kas p)" "ka = kaUri k"
    and p': "p' \<in> set pubs" "k' \<in> set (p_kas p')" "ka' = kaUri k'" "ka_rootEntity k = ka_rootEntity k'"
    unfolding shared_kc_def part_read [OF hb] by metis
  have "inj_on ka_rootEntity (set (concat (map p_kas pubs)))"
    using hb by (simp add: honest_batch_def distinct_map)
  moreover have "k \<in> set (concat (map p_kas pubs))" "k' \<in> set (concat (map p_kas pubs))" using p p' by auto
  ultimately have "k = k'" using p'(4) by (metis inj_onD)
  then show False using d p(3) p'(3) by simp
qed

lemma private_read:
  assumes hb: "honest_batch en isoDate pubs D M" and p: "p \<in> set pubs"
  shows "set (kcPrivateRoots sl M (p_ual p)) = set (concat (map private_of (p_kas p)))"
proof -
  define pm where "pm = DKG @ ''privateMerkleRoot''"
  have ns: "\<not> silent q" if "predicate q = pm" for q using that by (simp add: silent_def pm_def)
  have mem: "x \<in> set (kcPrivateRoots sl M (p_ual p)) \<longleftrightarrow>
      (\<exists>ka q. map_of (kaToKc sl M) ka = Some (p_ual p) \<and> q \<in> set M \<and> subject q = ka \<and> predicate q = pm
         \<and> length (remove_0x (sl (object q))) = 64 \<and> x = hex_pairs (remove_0x (sl (object q))))" for x
    unfolding kcPrivateRoots_mem pm_def kaToKc_def meta_map_mem ..
  show ?thesis
  proof (intro set_eqI iffI)
    fix x assume "x \<in> set (kcPrivateRoots sl M (p_ual p))"
    then obtain ka q where q: "map_of (kaToKc sl M) ka = Some (p_ual p)" "q \<in> set M" "subject q = ka" "predicate q = pm"
      "x = hex_pairs (remove_0x (sl (object q)))" unfolding mem by blast
    obtain p' where p': "p' \<in> set pubs" "q \<in> set (p_meta isoDate p')" using honest_statement [OF hb ns] q by blast
    obtain k r where k: "k \<in> set (p_kas p')" "r \<in> set (private_of k)" "subject q = kaUri k" "object q = lit (hex_bytes r)"
      using p_meta_cases(4) [OF p'(2)] q(4) pm_def by blast
    obtain p'' k'' where "p'' \<in> set pubs" "k'' \<in> set (p_kas p'')" "ka = kaUri k''" "p_ual p = p_ual p''"
      using q(1) parts_read [OF hb] by blast
    then have "k \<in> set (p_kas p)" using same_asset [OF hb p'(1)] same_publication [OF hb p] k q(3) by metis
    moreover have "x = r" using q(5) k(4) by (simp add: read_hex remove_0x_hex hex_pairs_hex)
    ultimately show "x \<in> set (concat (map private_of (p_kas p)))" using k(2) by auto
  next
    fix x assume "x \<in> set (concat (map private_of (p_kas p)))"
    then obtain k where k: "k \<in> set (p_kas p)" "x \<in> set (private_of k)" by auto
    obtain q where q: "q \<in> set (p_meta isoDate p)" "predicate q = pm" "subject q = kaUri k" "object q = lit (hex_bytes x)"
      using p_meta_ka [OF k(1), of pm "lit (hex_bytes x)" isoDate] k(2) by (auto simp: pm_def)
    have "q \<in> set M" using honest_statement [OF hb ns] q p by blast
    moreover have "map_of (kaToKc sl M) (kaUri k) = Some (p_ual p)" using parts_read [OF hb] p k by blast
    moreover have "length x = 32" using fits(5) [OF hb p k] .
    ultimately show "x \<in> set (kcPrivateRoots sl M (p_ual p))"
      unfolding mem using q by (intro exI [of _ "kaUri k"] exI [of _ q]) (simp add: read_hex remove_0x_hex hex_pairs_hex)
  qed
qed

lemma honest_committed:
  assumes hb: "honest_batch en isoDate pubs D M" and p: "p \<in> set pubs"
  shows "committed_kc en sl D M (p_ual p)"
proof -
  let ?rs = "rootsOf (kcRootEntities sl M) (p_ual p)"
  let ?scope = "filter (\<lambda>q. list_ex (\<lambda>ka. in_scope (ka_rootEntity ka) q) (p_kas p)) D"
  have rs: "set ?rs = ka_rootEntity ` set (p_kas p)"
    unfolding set_eq_iff rootsOf_part part_read [OF hb] using same_publication [OF hb p] p by blast
  have "set (case map_of (autoPartition D) r of None \<Rightarrow> [] | Some qs \<Rightarrow> qs) = {q \<in> set D. in_scope r q}"
    if r: "r \<in> set ?rs" for r
  proof (rule group_in_scope)
    obtain k where k: "k \<in> set (p_kas p)" "r = ka_rootEntity k" using r unfolding rs by blast
    have "ka_fits D (p_ual p) k"
      using hb p k(1) by (simp add: honest_batch_def publication_fits_def list_all_iff)
    then show "clean_root r" "r \<noteq> []" "r \<in> subject ` set D \<or> (\<forall>q \<in> set D. \<not> in_scope r q)"
      by (auto simp: ka_fits_def k(2) plain_iri_def)
    show "list_all (\<lambda>q. \<not> isBlankNode (subject q) \<and> \<not> isBlankNode (object q)) D"
      using hb by (simp add: honest_batch_def)
  qed
  then have "set (allQuadsForKC D ?rs) = (\<Union>r \<in> set ?rs. {q \<in> set D. in_scope r q})"
    unfolding allQuadsForKC_def by auto
  also have "\<dots> = set ?scope" unfolding rs by (auto simp: list_ex_iff)
  finally have "computeFlatKCRootV10 (en_hash en) (allQuadsForKC D ?rs) (kcPrivateRoots sl M (p_ual p))
      = computeFlatKCRootV10 (en_hash en) ?scope (concat (map private_of (p_kas p)))"
    using flat_commitment_set [of "allQuadsForKC D ?rs" ?scope] private_read [OF hb p] by simp
  also have "\<dots> = km_merkleRoot (fst p)"
    using hb p by (simp add: honest_batch_def publication_fits_def list_all_iff)
  moreover have "spreads en D ?rs" using hb p rs by (auto simp: honest_batch_def spreads_def list_all_iff)
  ultimately show ?thesis
    unfolding committed_kc_def Let_def using claims_read [OF hb] p by metis
qed

theorem honest_accepted:
  assumes hb: "honest_batch en isoDate pubs D M"
  shows "vr_data (verify_synced en sl D M acc) = D \<and> vr_meta (verify_synced en sl D M acc) = M
    \<and> vr_rejected (verify_synced en sl D M acc) = 0"
proof (cases "kcMerkleRoots sl M = []")
  case True
  then show ?thesis by (simp add: verify_synced_def Let_def)
next
  case False
  have all: "committed_kc en sl D M u" if "map_of (kcMerkleRoots sl M) u \<noteq> None" for u
    using that claims_read [OF hb] honest_committed [OF hb] by (metis not_None_eq)
  have "rejected_kcs en sl D M = {}" unfolding rejected_kcs_def using all by blast
  moreover have "kept_subject en sl D M s" for s
    unfolding kept_subject_def using all by (auto simp: part_def)
  moreover have "kept_meta en sl D M s" for s
    unfolding kept_meta_def using all honest_committed [OF hb] parts_read [OF hb] by (metis (no_types, lifting))
  ultimately show ?thesis using verify_synced_eq [OF False] by (simp add: Let_def)
qed

end

end
