(* ===== verification/SyncBatch.thy ===== *)
theory SyncBatch
  imports SyncHonest
begin

text \<open>
  The batch operations of \<^verbatim>\<open>packages/agent/src/sync-verify-worker-impl.ts\<close>: reading a page and keeping the
  quads of the context graph, the filter of shared-memory triples by the operations that the metadata
  describes, and the two operations that the requester calls on what it fetched. The lemmas say which
  shared-memory triples and which owners come out, and that what a publisher shares comes out whole.
\<close>

section \<open>Pages\<close>

record SyncParseResult =
  pr_quads :: "Quad list"
  pr_totalQuads :: nat

definition parseAndFilterNQuads :: "string \<Rightarrow> string \<Rightarrow> string \<Rightarrow> SyncParseResult" where
  "parseAndFilterNQuads text graphUri cg =
     (let quads = parseNQuads text;
          cgUriPrefix = ''did:dkg:context-graph:'' @ cg @ ''/''
      in \<lparr>pr_quads = filter (\<lambda>q. graph q = graphUri \<or> startsWith (graph q) cgUriPrefix) quads, pr_totalQuads = length quads\<rparr>)"

section \<open>Shared memory\<close>

record SharedMemoryProcessResult =
  sp_validQuads :: "Quad list"
  sp_dropped :: nat
  sp_entityCreators :: "(string \<times> string) list"

definition term_value :: "string \<Rightarrow> string" where
  "term_value ob = (if startsWith ob [QUOTE] then worker_stripLiteral ob else ob)"

definition validOps :: "Quad list \<Rightarrow> string list" where
  "validOps wsMetaQuads =
     (let opsWithType = js_unique (map subject (filter (\<lambda>q. predicate q = RDF @ ''type'' \<and> object q = DKG @ ''WorkspaceOperation'') wsMetaQuads));
          opsWithPublishedAt = map subject (filter (\<lambda>q. predicate q = DKG @ ''publishedAt'') wsMetaQuads)
      in filter (\<lambda>s. s \<in> set opsWithPublishedAt) opsWithType)"

definition rootStatements :: "Quad list \<Rightarrow> (string \<times> string) list" where
  "rootStatements wsMetaQuads =
     map (\<lambda>q. (subject q, term_value (object q)))
       (filter (\<lambda>q. predicate q = DKG @ ''rootEntity'' \<and> subject q \<in> set (validOps wsMetaQuads)) wsMetaQuads)"

definition allowedRoots :: "Quad list \<Rightarrow> string list" where
  "allowedRoots wsMetaQuads = js_unique (map snd (rootStatements wsMetaQuads))"

definition opCreators :: "Quad list \<Rightarrow> (string \<times> string) list" where
  "opCreators wsMetaQuads =
     fold (\<lambda>q m. if predicate q = PROV @ ''wasAttributedTo'' \<and> subject q \<in> set (validOps wsMetaQuads)
                 then AList.update (subject q) (term_value (object q)) m else m) wsMetaQuads []"

definition entityCreators :: "Quad list \<Rightarrow> (string \<times> string) list" where
  "entityCreators wsMetaQuads =
     fold (\<lambda>(op, entity) m.
        case map_of (opCreators wsMetaQuads) op of
          None \<Rightarrow> m
        | Some creator \<Rightarrow> if creator = [] \<or> map_of m entity \<noteq> None then m else AList.update entity creator m)
       (rootStatements wsMetaQuads) []"

definition processSharedMemory :: "Quad list \<Rightarrow> Quad list \<Rightarrow> SharedMemoryProcessResult" where
  "processSharedMemory wsDataQuads wsMetaQuads =
     (let roots' = allowedRoots wsMetaQuads;
          validQuads = filter (\<lambda>q. subject q \<in> set roots' \<or> list_ex (\<lambda>re. startsWith (subject q) (re @ GENID_SEGMENT)) roots') wsDataQuads
      in \<lparr>sp_validQuads = validQuads, sp_dropped = length wsDataQuads - length validQuads,
          sp_entityCreators = entityCreators wsMetaQuads\<rparr>)"

section \<open>Batches\<close>

datatype BatchLog = RejectingBatch nat | MetaOnlyBatch nat | CheckLog SyncLog

record DurableBatchProcessResult =
  db_verifiedData :: "Quad list"
  db_verifiedMeta :: "Quad list"
  db_totalFetchedDataQuads :: nat
  db_totalFetchedMetaQuads :: nat
  db_rejectedKcs :: nat
  db_emptyResponses :: nat
  db_metaOnlyResponses :: nat
  db_dataRejectedMissingMeta :: nat
  db_logs :: "BatchLog list"

definition processDurableBatch :: "SyncEngine \<Rightarrow> Quad list \<Rightarrow> Quad list \<Rightarrow> bool \<Rightarrow> DurableBatchProcessResult" where
  "processDurableBatch en dataQuads metaQuads acceptUnverified =
     (let nothing = \<lparr>db_verifiedData = [], db_verifiedMeta = [], db_totalFetchedDataQuads = length dataQuads,
                     db_totalFetchedMetaQuads = length metaQuads, db_rejectedKcs = 0, db_emptyResponses = 0,
                     db_metaOnlyResponses = 0, db_dataRejectedMissingMeta = 0, db_logs = []\<rparr>;
          metaOnly = (\<not> acceptUnverified \<and> length metaQuads > 0 \<and> length dataQuads = 0);
          verified = worker_verifySyncedData en dataQuads metaQuads acceptUnverified
      in if length dataQuads = 0 \<and> length metaQuads = 0 then nothing\<lparr>db_emptyResponses := 1\<rparr>
         else if \<not> acceptUnverified \<and> length dataQuads > 0 \<and> length metaQuads = 0 then
           nothing\<lparr>db_dataRejectedMissingMeta := 1, db_logs := [RejectingBatch (length dataQuads)]\<rparr>
         else nothing\<lparr>db_verifiedData := vr_data verified, db_verifiedMeta := vr_meta verified, db_rejectedKcs := vr_rejected verified,
                db_metaOnlyResponses := (if metaOnly then 1 else 0),
                db_logs := (if metaOnly then [MetaOnlyBatch (length metaQuads)] else []) @ map CheckLog (vr_logs verified)\<rparr>)"

record SharedMemoryBatchProcessResult =
  sb_verifiedData :: "Quad list"
  sb_verifiedMeta :: "Quad list"
  sb_totalFetchedDataQuads :: nat
  sb_totalFetchedMetaQuads :: nat
  sb_droppedDataTriples :: nat
  sb_emptyResponses :: nat
  sb_entityCreators :: "(string \<times> string) list"

definition processSharedMemoryBatch :: "Quad list \<Rightarrow> Quad list \<Rightarrow> SharedMemoryBatchProcessResult" where
  "processSharedMemoryBatch wsDataQuads wsMetaQuads =
     (if length wsDataQuads = 0 \<and> length wsMetaQuads = 0 then
        \<lparr>sb_verifiedData = [], sb_verifiedMeta = [], sb_totalFetchedDataQuads = 0, sb_totalFetchedMetaQuads = 0,
         sb_droppedDataTriples = 0, sb_emptyResponses = 1, sb_entityCreators = []\<rparr>
      else let processed = processSharedMemory wsDataQuads wsMetaQuads in
        \<lparr>sb_verifiedData = sp_validQuads processed, sb_verifiedMeta = wsMetaQuads,
         sb_totalFetchedDataQuads = length wsDataQuads, sb_totalFetchedMetaQuads = length wsMetaQuads,
         sb_droppedDataTriples = sp_dropped processed, sb_emptyResponses = 0, sb_entityCreators = sp_entityCreators processed\<rparr>)"

section \<open>What shared memory accepts\<close>

definition valid_op :: "Quad list \<Rightarrow> string \<Rightarrow> bool" where
  "valid_op M s \<longleftrightarrow> (\<exists>q \<in> set M. subject q = s \<and> predicate q = RDF @ ''type'' \<and> object q = DKG @ ''WorkspaceOperation'')
     \<and> (\<exists>q \<in> set M. subject q = s \<and> predicate q = DKG @ ''publishedAt'')"

definition declared_root :: "Quad list \<Rightarrow> string \<Rightarrow> bool" where
  "declared_root M r \<longleftrightarrow> (\<exists>q \<in> set M. predicate q = DKG @ ''rootEntity'' \<and> valid_op M (subject q) \<and> term_value (object q) = r)"

lemma set_validOps: "set (validOps M) = {s. valid_op M s}"
  by (force simp: validOps_def valid_op_def Let_def image_iff)

lemma set_allowedRoots: "set (allowedRoots M) = {r. declared_root M r}"
  by (force simp: allowedRoots_def rootStatements_def set_validOps declared_root_def)

lemma shared_memory_exact:
  "sp_validQuads (processSharedMemory D M) = filter (\<lambda>q. \<exists>r. declared_root M r \<and> in_scope r q) D"
  unfolding processSharedMemory_def Let_def list_ex_iff set_allowedRoots in_scope_def
  by (simp, rule filter_cong) auto

lemma fold_first_creator:
  "map_of (fold (\<lambda>(op, entity) m. case f op of None \<Rightarrow> m
       | Some creator \<Rightarrow> if creator = [] \<or> map_of m entity \<noteq> None then m else AList.update entity creator m) xs m) e
     = (case map_of m e of Some c \<Rightarrow> Some c
        | None \<Rightarrow> (case List.find (\<lambda>(op, entity). entity = e \<and> f op \<noteq> None \<and> f op \<noteq> Some []) xs of
            None \<Rightarrow> None | Some (op, _) \<Rightarrow> f op))"
proof (induction xs arbitrary: m)
  case (Cons x xs)
  obtain op entity where x: "x = (op, entity)" by (cases x)
  define m' where "m' = (case f op of None \<Rightarrow> m
       | Some creator \<Rightarrow> if creator = [] \<or> map_of m entity \<noteq> None then m else AList.update entity creator m)"
  have "map_of m' e = (case map_of m e of Some c \<Rightarrow> Some c
      | None \<Rightarrow> if entity = e \<and> f op \<noteq> None \<and> f op \<noteq> Some [] then f op else None)"
    by (auto simp: m'_def update_conv' split: option.splits)
  then show ?case using Cons [of m'] by (auto simp: x m'_def [symmetric] split: option.splits)
qed (simp split: option.splits)

lemma entity_creator_first:
  "map_of (entityCreators M) e =
     (case List.find (\<lambda>(op, entity). entity = e \<and> map_of (opCreators M) op \<noteq> None \<and> map_of (opCreators M) op \<noteq> Some [])
       (rootStatements M) of None \<Rightarrow> None | Some (op, _) \<Rightarrow> map_of (opCreators M) op)"
  by (simp add: entityCreators_def fold_first_creator)

end
