(* ===== verification/SyncAuth.thy ===== *)
theory SyncAuth
  imports SyncVerify
begin

text \<open>
  Requests of the sync protocol and who may make them: \<^verbatim>\<open>packages/agent/src/sync/auth/request-build.ts\<close>,
  \<^verbatim>\<open>request-authorize.ts\<close> and the methods of \<^verbatim>\<open>dkg-agent.ts\<close> they use. Clock, randomness, the packed
  keccak digest, signatures, the chain, the triple store and the refresh of metadata from a curator are
  parameters; a value \<open>Inl\<close> is an exception. The lemmas give what an accepted private request has shown and
  when a request can be accepted twice.
\<close>

section \<open>The request\<close>

datatype SyncPhase = DataPhase | MetaPhase

record SyncRequestEnvelope =
  sr_contextGraphId :: string
  sr_offset :: int
  sr_limit :: int
  sr_includeSharedMemory :: bool
  sr_targetPeerId :: "string option"
  sr_requesterPeerId :: "string option"
  sr_requestId :: "string option"
  sr_issuedAtMs :: "int option"
  sr_requesterIdentityId :: "string option"
  sr_requesterAgentAddress :: "string option"
  sr_requesterSignatureR :: "string option"
  sr_requesterSignatureVS :: "string option"
  sr_phase :: "SyncPhase option"

definition plain_request :: "string \<Rightarrow> int \<Rightarrow> int \<Rightarrow> bool \<Rightarrow> SyncPhase option \<Rightarrow> SyncRequestEnvelope" where
  "plain_request cg offset limit ws ph =
     \<lparr>sr_contextGraphId = cg, sr_offset = offset, sr_limit = limit, sr_includeSharedMemory = ws,
      sr_targetPeerId = None, sr_requesterPeerId = None, sr_requestId = None, sr_issuedAtMs = None,
      sr_requesterIdentityId = None, sr_requesterAgentAddress = None, sr_requesterSignatureR = None,
      sr_requesterSignatureVS = None, sr_phase = ph\<rparr>"

definition SYNC_PAGE_SIZE :: int where
  "SYNC_PAGE_SIZE = 500"

text \<open>The arguments of the packed keccak digest.\<close>

datatype SolValue = SolString string | SolUint int | SolBool bool

definition or_empty :: "string option \<Rightarrow> string" where
  "or_empty v = (case v of None \<Rightarrow> [] | Some s \<Rightarrow> s)"

definition computeSyncDigest ::
  "(SolValue list \<Rightarrow> string + bytes) \<Rightarrow> string \<Rightarrow> int \<Rightarrow> int \<Rightarrow> bool \<Rightarrow> string \<Rightarrow> string option \<Rightarrow> string option \<Rightarrow> int option \<Rightarrow> string + bytes" where
  "computeSyncDigest packed cg offset limit ws target requester requestId issuedAt =
     packed [SolString cg, SolUint offset, SolUint limit, SolBool ws, SolString target, SolString (or_empty requester),
             SolString (or_empty requestId), SolUint (case issuedAt of None \<Rightarrow> 0 | Some t \<Rightarrow> t)]"

section \<open>Building a request\<close>

text \<open>The text of a request without authentication, and the fields of one with authentication.\<close>

definition plain_request_text :: "string \<Rightarrow> int \<Rightarrow> int \<Rightarrow> bool \<Rightarrow> SyncPhase option \<Rightarrow> string" where
  "plain_request_text cg offset limit ws ph =
     (if ws then ''workspace:'' @ cg else cg) @ ''|'' @ show_int offset @ ''|'' @ show_int limit
       @ (if ph = Some MetaPhase then ''|meta'' else [])"

record SigningKeys =
  sk_identityId :: int
  sk_signMessage :: "(bytes \<Rightarrow> string + string \<times> string) option"
  sk_defaultAgentAddress :: "string option"
  sk_defaultAgentSign :: "(bytes \<Rightarrow> string + string \<times> string) option"

definition nonempty :: "string option \<Rightarrow> bool" where
  "nonempty v \<longleftrightarrow> v \<noteq> None \<and> v \<noteq> Some []"

definition sign_request :: "SigningKeys \<Rightarrow> bytes \<Rightarrow> SyncRequestEnvelope \<Rightarrow> string + SyncRequestEnvelope" where
  "sign_request keys digest r =
     (case (sk_identityId keys > 0, sk_signMessage keys) of
        (True, Some sign) \<Rightarrow> bindE (sign digest) (\<lambda>(rr, vs). Inr
          (r\<lparr>sr_requesterIdentityId := Some (show_int (sk_identityId keys)), sr_requesterSignatureR := Some rr,
             sr_requesterSignatureVS := Some vs\<rparr>))
      | _ \<Rightarrow>
        (case (nonempty (sk_defaultAgentAddress keys), sk_defaultAgentSign keys) of
           (True, Some sign) \<Rightarrow> bindE (sign digest) (\<lambda>(rr, vs). Inr
             (r\<lparr>sr_requesterIdentityId := Some ''0'', sr_requesterAgentAddress := sk_defaultAgentAddress keys,
                sr_requesterSignatureR := Some rr, sr_requesterSignatureVS := Some vs\<rparr>))
         | _ \<Rightarrow> Inr r))"

definition buildSyncRequestEnvelope ::
  "(SolValue list \<Rightarrow> string + bytes) \<Rightarrow> SigningKeys \<Rightarrow> string \<Rightarrow> int \<Rightarrow> string \<Rightarrow> int \<Rightarrow> int \<Rightarrow> bool \<Rightarrow> string \<Rightarrow> string
     \<Rightarrow> SyncPhase option \<Rightarrow> string + SyncRequestEnvelope" where
  "buildSyncRequestEnvelope packed keys requestId now cg offset limit ws target requester ph =
     (let request = (plain_request cg offset limit ws ph)
            \<lparr>sr_targetPeerId := Some target, sr_requesterPeerId := Some requester,
             sr_requestId := Some requestId, sr_issuedAtMs := Some now\<rparr>
      in bindE (computeSyncDigest packed cg offset limit ws target (Some requester) (Some requestId) (Some now)) (\<lambda>digest.
         bindE (sign_request keys digest request) (\<lambda>r.
         if \<not> nonempty (sr_requesterSignatureR r) \<or> \<not> nonempty (sr_requesterSignatureVS r) then
           Inl (''Cannot build authenticated sync request for '' @ [QUOTE] @ cg @ [QUOTE] @ '': missing signing key for ''
             @ (case sk_defaultAgentAddress keys of Some (c # a) \<Rightarrow> ''default agent '' @ c # a | _ \<Rightarrow> ''node identity''))
         else Inr r)))"

section \<open>Reading a request without authentication\<close>

fun split_on :: "char \<Rightarrow> string \<Rightarrow> string list" where
  "split_on d [] = [[]]"
| "split_on d (c # s) = (if c = d then [] # split_on d s else
     (case split_on d s of [] \<Rightarrow> [[c]] | p # ps \<Rightarrow> (c # p) # ps))"

text \<open>\<^verbatim>\<open>parseInt(s, 10)\<close>; \<open>None\<close> is \<^verbatim>\<open>NaN\<close>.\<close>

definition parseInt10 :: "string \<Rightarrow> int option" where
  "parseInt10 s =
     (let t = dropWhile is_space s;
          neg = startsWith t ''-'';
          u = (if neg \<or> startsWith t ''+'' then tl t else t);
          ds = takeWhile is_digit u
      in if ds = [] then None else Some ((if neg then -1 else 1) * int (digits_val ds)))"

text \<open>\<^verbatim>\<open>parseInt(parts[i], 10) || d\<close>: a missing part and zero give the default.\<close>

definition int_part :: "string list \<Rightarrow> nat \<Rightarrow> int \<Rightarrow> int" where
  "int_part parts i d =
     (if i < length parts then (case parseInt10 (parts ! i) of None \<Rightarrow> d | Some n \<Rightarrow> if n = 0 then d else n) else d)"

definition parsePipeDelimitedSyncRequest :: "string \<Rightarrow> SyncRequestEnvelope" where
  "parsePipeDelimitedSyncRequest text =
     (let parts = split_on CHR ''|'' text;
          ctxGraphPart = hd parts;
          ws = startsWith ctxGraphPart ''workspace:'';
          cg = (if ws then drop (length ''workspace:'') ctxGraphPart
                else if ctxGraphPart = [] then ''agents'' else ctxGraphPart)
      in plain_request cg (int_part parts 1 0) (min (int_part parts 2 SYNC_PAGE_SIZE) SYNC_PAGE_SIZE) ws
           (Some (if length parts > 3 \<and> parts ! 3 = ''meta'' then MetaPhase else DataPhase)))"

section \<open>Authorization\<close>

text \<open>
  What the responder knows: the metadata it holds is a state that a refresh can change.
\<close>

record 'w AuthEnv =
  ae_localPeerId :: string
  ae_packed :: "SolValue list \<Rightarrow> string + bytes"
  ae_recoverAddress :: "bytes \<Rightarrow> string \<Rightarrow> string \<Rightarrow> string option"
  ae_verifyIdentity :: "(string \<Rightarrow> int \<Rightarrow> string + bool) option"
  ae_getParticipants :: "'w \<Rightarrow> string \<Rightarrow> string + string list option"
  ae_getAllowedPeers :: "'w \<Rightarrow> string \<Rightarrow> string + string list option"
  ae_refreshMeta :: "string \<Rightarrow> ('w, bool) op"

definition SYNC_AUTH_MAX_AGE_MS :: int where
  "SYNC_AUTH_MAX_AGE_MS = 90000"

text \<open>\<^verbatim>\<open>BigInt(s)\<close> of the text of an integer, signed decimal or unsigned hexadecimal; other texts count as failing.\<close>

definition toBigInt :: "string \<Rightarrow> int option" where
  "toBigInt s =
     (let t = str_trim s in
      if t = [] then Some 0
      else if startsWith t ''0x'' \<or> startsWith t ''0X'' then
        (let ds = drop 2 t in if ds \<noteq> [] \<and> list_all is_hex ds then Some (int (foldl (\<lambda>a c. 16 * a + hex_value c) 0 ds)) else None)
      else (let neg = startsWith t ''-''; ds = (if neg \<or> startsWith t ''+'' then tl t else t) in
            if ds \<noteq> [] \<and> list_all is_digit ds then Some ((if neg then -1 else 1) * int (digits_val ds)) else None))"

definition requester_identity :: "SyncRequestEnvelope \<Rightarrow> int" where
  "requester_identity r =
     (case sr_requesterIdentityId r of
        None \<Rightarrow> 0
      | Some s \<Rightarrow> if s = [] then 0 else (case toBigInt s of None \<Rightarrow> 0 | Some n \<Rightarrow> n))"

definition purge_seen :: "int \<Rightarrow> (string \<times> int) list \<Rightarrow> (string \<times> int) list" where
  "purge_seen now seen = filter (\<lambda>(_, seenAt). \<not> now - seenAt > SYNC_AUTH_MAX_AGE_MS) seen"

definition envelope_ok :: "'w AuthEnv \<Rightarrow> int \<Rightarrow> SyncRequestEnvelope \<Rightarrow> string \<Rightarrow> bool" where
  "envelope_ok env now r remotePeerId \<longleftrightarrow>
     \<not> (sr_targetPeerId r \<noteq> Some (ae_localPeerId env) \<or> sr_requesterPeerId r \<noteq> Some remotePeerId
        \<or> \<not> nonempty (sr_requestId r)
        \<or> (case sr_issuedAtMs r of None \<Rightarrow> True | Some t \<Rightarrow> now - t > SYNC_AUTH_MAX_AGE_MS \<or> now < t - 5000)
        \<or> \<not> nonempty (sr_requesterSignatureR r) \<or> \<not> nonempty (sr_requesterSignatureVS r))"

definition recover_signer :: "'w AuthEnv \<Rightarrow> SyncRequestEnvelope \<Rightarrow> string + string option" where
  "recover_signer env r =
     bindE (computeSyncDigest (ae_packed env) (sr_contextGraphId r) (sr_offset r) (sr_limit r) (sr_includeSharedMemory r)
              (or_empty (sr_targetPeerId r)) (sr_requesterPeerId r) (sr_requestId r) (sr_issuedAtMs r))
       (\<lambda>digest. Inr (ae_recoverAddress env digest (or_empty (sr_requesterSignatureR r)) (or_empty (sr_requesterSignatureVS r))))"

definition identity_ok :: "'w AuthEnv \<Rightarrow> SyncRequestEnvelope \<Rightarrow> string \<Rightarrow> string + bool" where
  "identity_ok env r addr =
     (if requester_identity r > 0 then
        (case ae_verifyIdentity env of None \<Rightarrow> Inr False | Some check \<Rightarrow> check addr (requester_identity r))
      else Inr (nonempty (sr_requesterAgentAddress r)
                \<and> toLowerCase addr = toLowerCase (or_empty (sr_requesterAgentAddress r))))"

text \<open>The two scans of the participants: the second does not ask for a positive identity.\<close>

definition listed :: "bool \<Rightarrow> string list option \<Rightarrow> string \<Rightarrow> int \<Rightarrow> bool" where
  "listed positive participants addr identity =
     (case participants of
        None \<Rightarrow> False
      | Some ps \<Rightarrow> list_ex (\<lambda>p. toLowerCase p = toLowerCase addr \<or> (positive \<longrightarrow> identity > 0) \<and> p = show_int identity) ps)"

definition allowed_by :: "'w AuthEnv \<Rightarrow> bool \<Rightarrow> SyncRequestEnvelope \<Rightarrow> string \<Rightarrow> string \<Rightarrow> 'w \<Rightarrow> string + bool" where
  "allowed_by env positive r remotePeerId addr w =
     bindE (ae_getParticipants env w (sr_contextGraphId r)) (\<lambda>participants.
     if listed positive participants addr (requester_identity r) then Inr True
     else bindE (ae_getAllowedPeers env w (sr_contextGraphId r)) (\<lambda>peers.
       Inr (case peers of None \<Rightarrow> False | Some ps \<Rightarrow> remotePeerId \<in> set ps)))"

definition allow_request :: "'w AuthEnv \<Rightarrow> SyncRequestEnvelope \<Rightarrow> string \<Rightarrow> string \<Rightarrow> ('w, bool) op" where
  "allow_request env r remotePeerId addr =
     bindM (bindM (getM (allowed_by env True r remotePeerId addr)) liftE) (\<lambda>allowed.
     if allowed then ret True
     else bindM (ae_refreshMeta env (sr_contextGraphId r)) (\<lambda>refreshed.
       if refreshed then bindM (getM (allowed_by env False r remotePeerId addr)) liftE
       else ret False))"

record 'w AuthState =
  as_seen :: "(string \<times> int) list"
  as_world :: 'w

text \<open>
  The request is checked before the first \<^verbatim>\<open>await\<close> and decided after it; requests that run at the same time
  can interleave there.
\<close>

definition auth_check :: "'w AuthEnv \<Rightarrow> int \<Rightarrow> SyncRequestEnvelope \<Rightarrow> string \<Rightarrow> ('w AuthState, string option) op" where
  "auth_check env now r remotePeerId s0 =
     (let s = s0\<lparr>as_seen := purge_seen now (as_seen s0)\<rparr> in
      if \<not> envelope_ok env now r remotePeerId then (Inr None, s)
      else if map_of (as_seen s) (or_empty (sr_requestId r)) \<noteq> None then (Inr None, s)
      else (recover_signer env r, s))"

definition auth_decide :: "'w AuthEnv \<Rightarrow> int \<Rightarrow> SyncRequestEnvelope \<Rightarrow> string \<Rightarrow> string \<Rightarrow> ('w AuthState, bool) op" where
  "auth_decide env now r remotePeerId addr s =
     (case identity_ok env r addr of
        Inl e \<Rightarrow> (Inl e, s)
      | Inr False \<Rightarrow> (Inr False, s)
      | Inr True \<Rightarrow>
        (case allow_request env r remotePeerId addr (as_world s) of
           (Inl e, w) \<Rightarrow> (Inl e, s\<lparr>as_world := w\<rparr>)
         | (Inr allowed, w) \<Rightarrow>
             (Inr allowed, s\<lparr>as_world := w,
                as_seen := (if allowed then AList.update (or_empty (sr_requestId r)) now (as_seen s) else as_seen s)\<rparr>)))"

definition authorizePrivateSyncRequest ::
  "'w AuthEnv \<Rightarrow> int \<Rightarrow> SyncRequestEnvelope \<Rightarrow> string \<Rightarrow> ('w AuthState, bool) op" where
  "authorizePrivateSyncRequest env now r remotePeerId =
     bindM (auth_check env now r remotePeerId) (\<lambda>signer.
     case signer of None \<Rightarrow> ret False | Some addr \<Rightarrow> auth_decide env now r remotePeerId addr)"

definition authorizeSyncRequest ::
  "'w AuthEnv \<Rightarrow> ('w \<Rightarrow> string \<Rightarrow> string + bool) \<Rightarrow> int \<Rightarrow> SyncRequestEnvelope \<Rightarrow> string \<Rightarrow> ('w AuthState, bool) op" where
  "authorizeSyncRequest env isPrivate now r remotePeerId s =
     (case isPrivate (as_world s) (sr_contextGraphId r) of
        Inl e \<Rightarrow> (Inl e, s)
      | Inr False \<Rightarrow> (Inr True, s)
      | Inr True \<Rightarrow> authorizePrivateSyncRequest env now r remotePeerId s)"

section \<open>Access metadata in the store\<close>

definition graph_uri :: "string \<Rightarrow> string" where
  "graph_uri cg = contextGraphDataUri cg None"

definition meta_uri :: "string \<Rightarrow> string" where
  "meta_uri cg = contextGraphMetaUri cg None"

definition accessPolicyQuery :: "string \<Rightarrow> string" where
  "accessPolicyQuery cg =
     ''SELECT ?policy WHERE {'' @ [NL] @
     ''        {'' @ [NL] @
     ''          GRAPH <'' @ graph_uri ''ontology'' @ ''> {'' @ [NL] @
     ''            <did:dkg:context-graph:'' @ cg @ ''> <'' @ DKG @ ''accessPolicy> ?policy'' @ [NL] @
     ''          }'' @ [NL] @
     ''        } UNION {'' @ [NL] @
     ''          GRAPH <'' @ meta_uri cg @ ''> {'' @ [NL] @
     ''            <did:dkg:context-graph:'' @ cg @ ''> <'' @ DKG @ ''accessPolicy> ?policy'' @ [NL] @
     ''          }'' @ [NL] @
     ''        }'' @ [NL] @
     ''      } LIMIT 1''"

definition allowlistQuery :: "string \<Rightarrow> string" where
  "allowlistQuery cg =
     ''ASK WHERE {'' @ [NL] @
     ''        GRAPH <'' @ meta_uri cg @ ''> {'' @ [NL] @
     ''          { <did:dkg:context-graph:'' @ cg @ ''> <'' @ DKG @ ''allowedAgent> ?agent }'' @ [NL] @
     ''          UNION'' @ [NL] @
     ''          { <did:dkg:context-graph:'' @ cg @ ''> <'' @ DKG @ ''participantAgent> ?participantAgent }'' @ [NL] @
     ''          UNION'' @ [NL] @
     ''          { <did:dkg:context-graph:'' @ cg @ ''> <'' @ DKG @ ''allowedPeer> ?peer }'' @ [NL] @
     ''        }'' @ [NL] @
     ''      }''"

definition isPrivateContextGraph :: "sparql_query \<Rightarrow> string \<Rightarrow> string + bool" where
  "isPrivateContextGraph query cg =
     (if cg \<in> {''agents'', ''ontology''} then Inr False
      else bindE (query (accessPolicyQuery cg)) (\<lambda>result.
        case result of
          Bindings (row # _) \<Rightarrow>
            (if map_of row ''policy'' = Some ([QUOTE] @ ''private'' @ [QUOTE]) then Inr True
             else bindE (query (allowlistQuery cg)) (\<lambda>allow. Inr (allow = BooleanResult True)))
        | _ \<Rightarrow> bindE (query (allowlistQuery cg)) (\<lambda>allow. Inr (allow = BooleanResult True))))"

definition agentQuery :: "string \<Rightarrow> string" where
  "agentQuery cg =
     ''SELECT ?agent WHERE {'' @ [NL] @
     ''        GRAPH <'' @ meta_uri cg @ ''> {'' @ [NL] @
     ''          { <did:dkg:context-graph:'' @ cg @ ''> <'' @ DKG @ ''allowedAgent> ?agent }'' @ [NL] @
     ''          UNION'' @ [NL] @
     ''          { <did:dkg:context-graph:'' @ cg @ ''> <'' @ DKG @ ''participantAgent> ?agent }'' @ [NL] @
     ''        }'' @ [NL] @
     ''      }''"

definition identityQuery :: "string \<Rightarrow> string" where
  "identityQuery cg =
     ''SELECT ?identityId WHERE {'' @ [NL] @
     ''        GRAPH <'' @ meta_uri cg @ ''> {'' @ [NL] @
     ''          <did:dkg:context-graph:'' @ cg @ ''> <'' @ DKG @ ''participantIdentityId> ?identityId'' @ [NL] @
     ''        }'' @ [NL] @
     ''      }''"

text \<open>The values of one variable, and the list without repetitions up to case, empty values left out.\<close>

definition column :: "string \<Rightarrow> QueryResult \<Rightarrow> string list" where
  "column v result =
     (case result of Bindings rows \<Rightarrow> List.map_filter (\<lambda>row. map_option unquote (map_of row v)) rows | _ \<Rightarrow> [])"

fun merge_participants :: "string list \<Rightarrow> string list \<Rightarrow> string list" where
  "merge_participants merged [] = merged"
| "merge_participants merged (v # vs) =
     merge_participants (if v = [] \<or> toLowerCase v \<in> toLowerCase ` set merged then merged else merged @ [v]) vs"

definition getPrivateContextGraphParticipants ::
  "sparql_query \<Rightarrow> (string \<Rightarrow> string list option) \<Rightarrow> (string \<Rightarrow> string + string list option) \<Rightarrow> string \<Rightarrow> string + string list option" where
  "getPrivateContextGraphParticipants query subscribed onChain cg =
     bindE (query (agentQuery cg)) (\<lambda>agents.
     bindE (query (identityQuery cg)) (\<lambda>ids.
     let merged = merge_participants [] ((case subscribed cg of None \<Rightarrow> [] | Some ps \<Rightarrow> ps) @ column ''agent'' agents @ column ''identityId'' ids)
     in if merged \<noteq> [] then Inr (Some merged) else onChain cg))"

definition allowedPeersQuery :: "string \<Rightarrow> string" where
  "allowedPeersQuery cg =
     ''SELECT ?peer WHERE { GRAPH <'' @ meta_uri cg @ ''> { <'' @ graph_uri cg @ ''> <'' @ DKG @ ''allowedPeer> ?peer } }''"

definition getContextGraphAllowedPeers :: "sparql_query \<Rightarrow> string \<Rightarrow> string + string list option" where
  "getContextGraphAllowedPeers query cg =
     bindE (query (allowedPeersQuery cg)) (\<lambda>result.
       Inr (case result of Bindings (row # rows) \<Rightarrow> Some (column ''peer'' result) | _ \<Rightarrow> None))"

section \<open>No request is accepted twice\<close>

definition accepts :: "'w AuthEnv \<Rightarrow> int \<Rightarrow> SyncRequestEnvelope \<Rightarrow> string \<Rightarrow> 'w AuthState \<Rightarrow> bool" where
  "accepts env now r peer s \<longleftrightarrow> fst (authorizePrivateSyncRequest env now r peer s) = Inr True"

definition after :: "'w AuthEnv \<Rightarrow> int \<times> SyncRequestEnvelope \<times> string \<Rightarrow> 'w AuthState \<Rightarrow> 'w AuthState" where
  "after env e s = snd (authorizePrivateSyncRequest env (fst e) (fst (snd e)) (snd (snd e)) s)"

text \<open>An accepted id stays recorded until it is older than the age limit.\<close>

definition remembers :: "string \<Rightarrow> int \<Rightarrow> int \<Rightarrow> 'w AuthState \<Rightarrow> bool" where
  "remembers i t now s \<longleftrightarrow> now - t > SYNC_AUTH_MAX_AGE_MS \<or> (\<exists>t'. (i, t') \<in> set (as_seen s) \<and> t \<le> t')"

lemma auth_check_seen: "as_seen (snd (auth_check env now r p s)) = purge_seen now (as_seen s)"
  by (simp add: auth_check_def Let_def)

lemma auth_decide_cases:
  "fst (auth_decide env now r p addr s) = Inr True \<and>
     as_seen (snd (auth_decide env now r p addr s)) = AList.update (or_empty (sr_requestId r)) now (as_seen s)
   \<or> fst (auth_decide env now r p addr s) \<noteq> Inr True \<and> as_seen (snd (auth_decide env now r p addr s)) = as_seen s"
  by (auto simp: auth_decide_def split: sum.splits bool.splits prod.splits)

lemma authorize_seen:
  assumes "res = authorizePrivateSyncRequest env now r p s"
  shows "fst res = Inr True \<and> as_seen (snd res) = AList.update (or_empty (sr_requestId r)) now (purge_seen now (as_seen s))
   \<or> fst res \<noteq> Inr True \<and> as_seen (snd res) = purge_seen now (as_seen s)"
proof -
  obtain c s1 where c: "auth_check env now r p s = (c, s1)" by fastforce
  then have s1: "as_seen s1 = purge_seen now (as_seen s)" using auth_check_seen [of env now r p s] by simp
  show ?thesis
  proof (cases c)
    case (Inr signer)
    then show ?thesis using c s1 assms auth_decide_cases [of env now r p _ s1]
      by (cases signer) (auto simp: authorizePrivateSyncRequest_def bindM_def ret_def)
  qed (use c s1 assms in \<open>simp add: authorizePrivateSyncRequest_def bindM_def\<close>)
qed

lemma update_mem: "(i, t) \<in> set m \<Longrightarrow> k \<noteq> i \<Longrightarrow> (i, t) \<in> set (AList.update k v m)"
  by (induction m) auto

lemma update_new: "(k, v) \<in> set (AList.update k v m)"
  by (induction m) auto

lemma accepted_remembered:
  "accepts env t r p s \<Longrightarrow> remembers (or_empty (sr_requestId r)) t now (after env (t, r, p) s)"
  using authorize_seen [OF refl, of env t r p s] update_new
  by (fastforce simp: accepts_def after_def remembers_def)

lemma remembers_after:
  assumes "remembers i t now s" "now \<le> fst e" "t \<le> fst e"
  shows "remembers i t (fst e) (after env e s)"
proof (cases "fst e - t > SYNC_AUTH_MAX_AGE_MS")
  case False
  then obtain t' where t': "(i, t') \<in> set (as_seen s)" "t \<le> t'" using assms by (auto simp: remembers_def)
  then have kept: "(i, t') \<in> set (purge_seen (fst e) (as_seen s))" using False by (auto simp: purge_seen_def)
  obtain now' r' p' where e: "e = (now', r', p')" by (cases e)
  show ?thesis
    using authorize_seen [OF refl, of env now' r' p' s] kept t'(2) assms(3) update_mem [OF kept] update_new [of i now']
    unfolding remembers_def after_def e fst_conv snd_conv by metis
qed (simp add: remembers_def)

lemma remembered_denied:
  assumes "remembers i t now s" "now \<le> now'" "sr_requestId r = Some i" "sr_issuedAtMs r = Some t0" "t0 \<le> t"
  shows "\<not> accepts env now' r p s"
proof (cases "now' - t > SYNC_AUTH_MAX_AGE_MS")
  case True
  then have "\<not> envelope_ok env now' r p" using assms(4,5) by (simp add: envelope_ok_def)
  then show ?thesis by (simp add: accepts_def authorizePrivateSyncRequest_def auth_check_def Let_def bindM_def ret_def)
next
  case False
  then obtain t' where "(i, t') \<in> set (as_seen s)" "t \<le> t'" using assms(1,2) by (auto simp: remembers_def)
  then have "(i, t') \<in> set (purge_seen now' (as_seen s))" using False by (auto simp: purge_seen_def)
  then have "map_of (purge_seen now' (as_seen s)) i \<noteq> None" by (metis weak_map_of_SomeI option.distinct(1))
  then show ?thesis
    using assms(3) by (auto simp: accepts_def authorizePrivateSyncRequest_def auth_check_def Let_def bindM_def ret_def or_empty_def)
qed

lemma remembers_run:
  "remembers i t now s \<Longrightarrow> t \<le> now \<Longrightarrow> sorted (now # map fst es) \<Longrightarrow>
   remembers i t (last (now # map fst es)) (fold (after env) es s)"
proof (induction es arbitrary: now s)
  case (Cons e es)
  have "remembers i t (fst e) (after env e s)" by (rule remembers_after [OF Cons.prems(1)]) (use Cons.prems in auto)
  from Cons.IH [OF this] Cons.prems show ?case by auto
qed simp

text \<open>What an accepted request has shown.\<close>

definition permitted :: "'w AuthEnv \<Rightarrow> 'w \<Rightarrow> SyncRequestEnvelope \<Rightarrow> string \<Rightarrow> string \<Rightarrow> bool" where
  "permitted env w r peer addr \<longleftrightarrow>
     (\<exists>ps. ae_getParticipants env w (sr_contextGraphId r) = Inr (Some ps)
        \<and> (toLowerCase addr \<in> toLowerCase ` set ps \<or> show_int (requester_identity r) \<in> set ps))
     \<or> (\<exists>ps. ae_getAllowedPeers env w (sr_contextGraphId r) = Inr (Some ps) \<and> peer \<in> set ps)"

lemma allowed_by_permitted: "allowed_by env b r peer addr w = Inr True \<Longrightarrow> permitted env w r peer addr"
  by (auto simp: allowed_by_def bindE_def permitted_def listed_def list_ex_iff split: sum.splits option.splits if_splits)
    (metis image_eqI)+

lemma allow_request_permitted:
  assumes "allow_request env r peer addr w = (Inr True, w')"
  shows "permitted env w r peer addr \<or> permitted env w' r peer addr"
proof -
  have "allowed_by env True r peer addr w = Inr True \<or> allowed_by env False r peer addr w' = Inr True"
    using assms by (auto simp: allow_request_def bindM_def getM_def liftE_def ret_def split: prod.splits sum.splits if_splits)
  then show ?thesis using allowed_by_permitted by metis
qed

lemma accepted_shown:
  assumes "accepts env now r peer s"
  shows "envelope_ok env now r peer \<and> map_of (purge_seen now (as_seen s)) (or_empty (sr_requestId r)) = None
    \<and> (\<exists>addr. recover_signer env r = Inr (Some addr) \<and> identity_ok env r addr = Inr True
        \<and> (permitted env (as_world s) r peer addr \<or> permitted env (as_world (after env (now, r, peer) s)) r peer addr))"
proof -
  obtain c s1 where c: "auth_check env now r peer s = (c, s1)" by fastforce
  obtain addr where addr: "c = Inr (Some addr)" "fst (auth_decide env now r peer addr s1) = Inr True"
    using assms c by (auto simp: accepts_def authorizePrivateSyncRequest_def bindM_def ret_def split: sum.splits option.splits)
  have s1: "envelope_ok env now r peer" "map_of (purge_seen now (as_seen s)) (or_empty (sr_requestId r)) = None"
    "recover_signer env r = Inr (Some addr)" "as_world s1 = as_world s"
    using c addr(1) by (auto simp: auth_check_def Let_def split: if_splits)
  obtain w' where w': "identity_ok env r addr = Inr True" "allow_request env r peer addr (as_world s1) = (Inr True, w')"
    using addr(2) by (auto simp: auth_decide_def split: sum.splits bool.splits prod.splits)
  have "as_world (after env (now, r, peer) s) = w'"
    using c addr(1) w' by (simp add: after_def authorizePrivateSyncRequest_def bindM_def auth_decide_def)
  then show ?thesis using s1 w' allow_request_permitted by metis
qed

end
