(* ===== verification/SyncResponder.thy ===== *)
theory SyncResponder
  imports SyncAuth
begin

text \<open>
  The responder of the sync protocol, \<^verbatim>\<open>packages/agent/src/sync/responder/sync-handler.ts\<close>, with the request
  parser of \<^verbatim>\<open>dkg-agent.ts\<close>. The triple store is a parameter that answers query texts; reading a JSON
  envelope is a parameter too. A page is the window of the ordered solutions that offset and limit
  select; the lemmas relate the handler to such windows.
\<close>

section \<open>Query texts\<close>

definition shared_uri :: "string \<Rightarrow> string" where
  "shared_uri cg = ''did:dkg:context-graph:'' @ cg @ ''/_shared_memory''"

definition shared_meta_uri :: "string \<Rightarrow> string" where
  "shared_meta_uri cg = ''did:dkg:context-graph:'' @ cg @ ''/_shared_memory_meta''"

definition page_suffix :: "string \<Rightarrow> int \<Rightarrow> int \<Rightarrow> string" where
  "page_suffix vars offset limit = ''ORDER BY '' @ vars @ '' OFFSET '' @ show_int offset @ '' LIMIT '' @ show_int limit"

definition simple_query :: "string \<Rightarrow> int \<Rightarrow> int \<Rightarrow> string" where
  "simple_query g offset limit =
     ''SELECT ?s ?p ?o WHERE { GRAPH <'' @ g @ ''> { ?s ?p ?o } } '' @ page_suffix ''?s ?p ?o'' offset limit"

definition shared_meta_query :: "string \<Rightarrow> string \<Rightarrow> int \<Rightarrow> int \<Rightarrow> string" where
  "shared_meta_query g cutoff offset limit =
     ''SELECT ?s ?p ?o WHERE {'' @ [NL] @
     ''              GRAPH <'' @ g @ ''> { ?s ?p ?o }'' @ [NL] @
     ''              FILTER EXISTS {'' @ [NL] @
     ''                GRAPH <'' @ g @ ''> {'' @ [NL] @
     ''                  ?s <http://dkg.io/ontology/publishedAt> ?ts .'' @ [NL] @
     ''                  FILTER(?ts >= '' @ [QUOTE] @ cutoff @ [QUOTE] @ ''^^<http://www.w3.org/2001/XMLSchema#dateTime>)'' @ [NL] @
     ''                }'' @ [NL] @
     ''              }'' @ [NL] @
     ''            } '' @ page_suffix ''?s ?p ?o'' offset limit"

definition shared_data_query :: "string \<Rightarrow> string \<Rightarrow> string \<Rightarrow> int \<Rightarrow> int \<Rightarrow> string" where
  "shared_data_query g mg cutoff offset limit =
     ''SELECT DISTINCT ?s ?p ?o WHERE {'' @ [NL] @
     ''  GRAPH <'' @ mg @ ''> {'' @ [NL] @
     ''    ?op <http://www.w3.org/1999/02/22-rdf-syntax-ns#type> <http://dkg.io/ontology/WorkspaceOperation> .'' @ [NL] @
     ''    ?op <http://dkg.io/ontology/publishedAt> ?ts .'' @ [NL] @
     ''    ?op <http://dkg.io/ontology/rootEntity> ?re .'' @ [NL] @
     ''    FILTER(?ts >= '' @ [QUOTE] @ cutoff @ [QUOTE] @ ''^^<http://www.w3.org/2001/XMLSchema#dateTime>)'' @ [NL] @
     ''  }'' @ [NL] @
     ''  GRAPH <'' @ g @ ''> { ?s ?p ?o }'' @ [NL] @
     ''  FILTER(?s = ?re || STRSTARTS(STR(?s), CONCAT(STR(?re), '' @ [QUOTE] @ ''/.well-known/genid/'' @ [QUOTE] @ '')))'' @ [NL] @
     ''} '' @ page_suffix ''?s ?p ?o'' offset limit"

definition durable_meta_query :: "string \<Rightarrow> string \<Rightarrow> int \<Rightarrow> int \<Rightarrow> string" where
  "durable_meta_query g cg offset limit =
     ''SELECT ?s ?p ?o WHERE {'' @ [NL] @
     ''            GRAPH <'' @ g @ ''> { ?s ?p ?o }'' @ [NL] @
     ''            FILTER('' @ [NL] @
     ''              STR(?s) = '' @ [QUOTE] @ ''did:dkg:context-graph:'' @ cg @ [QUOTE] @ '' ||'' @ [NL] @
     ''              STRSTARTS(STR(?s), '' @ [QUOTE] @ ''did:dkg:activity:'' @ [QUOTE] @ '') ||'' @ [NL] @
     ''              STRSTARTS(STR(?s), '' @ [QUOTE] @ ''did:dkg:join-request:'' @ [QUOTE] @ '') ||'' @ [NL] @
     ''              EXISTS {'' @ [NL] @
     ''                GRAPH <'' @ g @ ''> {'' @ [NL] @
     ''                  ?lc <'' @ DKG @ ''memoryLayer> ?layer .'' @ [NL] @
     ''                  FILTER(?layer != '' @ [QUOTE] @ ''WM'' @ [QUOTE] @ '')'' @ [NL] @
     ''                  {'' @ [NL] @
     ''                    FILTER(?lc = ?s)'' @ [NL] @
     ''                  } UNION {'' @ [NL] @
     ''                    ?lc <'' @ DKG @ ''assertionGraph> ?s .'' @ [NL] @
     ''                  } UNION {'' @ [NL] @
     ''                    ?lc <'' @ DKG @ ''assertionName> ?aname .'' @ [NL] @
     ''                    FILTER('' @ [NL] @
     ''                      CONTAINS(STR(?s), '' @ [QUOTE] @ ''/assertion/'' @ [QUOTE] @ '') &&'' @ [NL] @
     ''                      STRENDS(STR(?s), CONCAT('' @ [QUOTE] @ ''/'' @ [QUOTE] @ '', STR(?aname)))'' @ [NL] @
     ''                    )'' @ [NL] @
     ''                  }'' @ [NL] @
     ''                }'' @ [NL] @
     ''              } ||'' @ [NL] @
     ''              EXISTS {'' @ [NL] @
     ''                GRAPH <'' @ g @ ''> {'' @ [NL] @
     ''                  { ?evt_src <http://www.w3.org/ns/prov#generated> ?parent }'' @ [NL] @
     ''                  UNION'' @ [NL] @
     ''                  { ?evt_src <http://www.w3.org/ns/prov#used> ?parent }'' @ [NL] @
     ''                  FILTER(?evt_src = ?s)'' @ [NL] @
     ''                  ?parent <'' @ DKG @ ''memoryLayer> ?elayer .'' @ [NL] @
     ''                  FILTER(?elayer != '' @ [QUOTE] @ ''WM'' @ [QUOTE] @ '')'' @ [NL] @
     ''                }'' @ [NL] @
     ''              }'' @ [NL] @
     ''            )'' @ [NL] @
     ''          } '' @ page_suffix ''?s ?p ?o'' offset limit"

definition durable_data_query :: "string \<Rightarrow> int \<Rightarrow> int \<Rightarrow> string" where
  "durable_data_query cg offset limit =
     (let pre = ''did:dkg:context-graph:'' @ cg in
     ''SELECT ?s ?p ?o ?g WHERE {'' @ [NL] @
     ''            GRAPH ?g { ?s ?p ?o }'' @ [NL] @
     ''            FILTER('' @ [NL] @
     ''              (STR(?g) = '' @ [QUOTE] @ pre @ [QUOTE] @ '' || STRSTARTS(STR(?g), '' @ [QUOTE] @ pre @ ''/'' @ [QUOTE] @ '')) &&'' @ [NL] @
     ''              !STRENDS(STR(?g), '' @ [QUOTE] @ ''/_meta'' @ [QUOTE] @ '') &&'' @ [NL] @
     ''              !CONTAINS(STR(?g), '' @ [QUOTE] @ ''/_private'' @ [QUOTE] @ '')'' @ [NL] @
     ''            )'' @ [NL] @
     ''            FILTER('' @ [NL] @
     ''              !CONTAINS(STR(?g), '' @ [QUOTE] @ ''/assertion/'' @ [QUOTE] @ '') ||'' @ [NL] @
     ''              EXISTS {'' @ [NL] @
     ''                GRAPH <'' @ pre @ ''/_meta> {'' @ [NL] @
     ''                  ?lifecycle <'' @ DKG @ ''assertionGraph> ?g .'' @ [NL] @
     ''                  ?lifecycle <'' @ DKG @ ''memoryLayer> ?layer .'' @ [NL] @
     ''                  FILTER(?layer != '' @ [QUOTE] @ ''WM'' @ [QUOTE] @ '')'' @ [NL] @
     ''                }'' @ [NL] @
     ''              }'' @ [NL] @
     ''            )'' @ [NL] @
     ''          } '' @ page_suffix ''?g ?s ?p ?o'' offset limit)"

section \<open>The handler\<close>

text \<open>Clamping of offset and limit; numbers beyond the safe integers count as absent.\<close>

definition safe_integer :: "int \<Rightarrow> bool" where
  "safe_integer n \<longleftrightarrow> \<bar>n\<bar> \<le> 9007199254740991"

definition page_offset :: "int \<Rightarrow> int" where
  "page_offset n = max 0 (min (if safe_integer n then n else 0) 1000000)"

definition page_limit :: "int \<Rightarrow> int \<Rightarrow> int" where
  "page_limit pageSize n = max 1 (min (if safe_integer n then n else pageSize) pageSize)"

text \<open>
  A row without a value for the object makes the handler fail; other missing values print as
  \<^verbatim>\<open>undefined\<close>.
\<close>

definition row_text :: "(string \<times> string) list \<Rightarrow> string \<Rightarrow> string" where
  "row_text row v = (case map_of row v of None \<Rightarrow> ''undefined'' | Some s \<Rightarrow> s)"

definition row_line :: "string \<Rightarrow> (string \<times> string) list \<Rightarrow> string + string" where
  "row_line g row =
     (case map_of row ''o'' of
        None \<Rightarrow> Inl ''Cannot read properties of undefined''
      | Some ob \<Rightarrow> Inr (nquad_line (row_text row ''s'') (row_text row ''p'') ob g))"

definition page_text :: "((string \<times> string) list \<Rightarrow> string) \<Rightarrow> QueryResult \<Rightarrow> string + string" where
  "page_text g_of result =
     (case result of
        Bindings rows \<Rightarrow> bindE (mapE (\<lambda>row. row_line (g_of row) row) rows) (\<lambda>nquads. Inr (join_with [NL] nquads))
      | _ \<Rightarrow> Inr [])"

definition sync_page :: "sparql_query \<Rightarrow> string option \<Rightarrow> string \<Rightarrow> bool \<Rightarrow> SyncPhase \<Rightarrow> int \<Rightarrow> int \<Rightarrow> string + string" where
  "sync_page query cutoff cg ws ph offset limit =
     (if ws then
        (if ph = MetaPhase then
           bindE (query (case cutoff of
               Some c \<Rightarrow> shared_meta_query (shared_meta_uri cg) c offset limit
             | None \<Rightarrow> simple_query (shared_meta_uri cg) offset limit)) (page_text (\<lambda>_. shared_meta_uri cg))
         else
           bindE (query (case cutoff of
               Some c \<Rightarrow> shared_data_query (shared_uri cg) (shared_meta_uri cg) c offset limit
             | None \<Rightarrow> simple_query (shared_uri cg) offset limit)) (page_text (\<lambda>_. shared_uri cg)))
      else if ph = MetaPhase then
        bindE (query (durable_meta_query (meta_uri cg) cg offset limit)) (page_text (\<lambda>_. meta_uri cg))
      else
        bindE (query (durable_data_query cg offset limit))
          (page_text (\<lambda>row. case map_of row ''g'' of None \<Rightarrow> graph_uri cg | Some g \<Rightarrow> g)))"

record 'w Responder =
  rs_auth :: "'w AuthEnv"
  rs_query :: "'w \<Rightarrow> sparql_query"
  rs_readJson :: "string \<Rightarrow> SyncRequestEnvelope option"
  rs_isoDate :: "int \<Rightarrow> string"
  rs_deniedResponse :: string
  rs_pageSize :: int
  rs_sharedMemoryTtlMs :: int

definition parseSyncRequest :: "'w Responder \<Rightarrow> string \<Rightarrow> SyncRequestEnvelope" where
  "parseSyncRequest rs data =
     (let text = str_trim data in
      if startsWith text ''{'' then
        (case rs_readJson rs text of None \<Rightarrow> parsePipeDelimitedSyncRequest text | Some r \<Rightarrow> r)
      else parsePipeDelimitedSyncRequest text)"

definition sync_handler :: "'w Responder \<Rightarrow> int \<Rightarrow> string \<Rightarrow> string \<Rightarrow> ('w AuthState, string) op" where
  "sync_handler rs now data peerId =
     (let request = parseSyncRequest rs data;
          offset = page_offset (sr_offset request);
          limit = page_limit (rs_pageSize rs) (sr_limit request);
          ph = (case sr_phase request of None \<Rightarrow> DataPhase | Some p \<Rightarrow> p);
          cg = sr_contextGraphId request;
          cutoff = (if rs_sharedMemoryTtlMs rs > 0 then Some (rs_isoDate rs (now - rs_sharedMemoryTtlMs rs)) else None)
      in if cg = [] then ret []
         else bindM (authorizeSyncRequest (rs_auth rs) (\<lambda>w. isPrivateContextGraph (rs_query rs w)) now request peerId) (\<lambda>authorized.
           if \<not> authorized then ret (rs_deniedResponse rs)
           else bindM (getM (\<lambda>s. sync_page (rs_query rs (as_world s)) cutoff cg (sr_includeSharedMemory request) ph offset limit)) liftE))"

text \<open>
  The graphs that the filter of the durable data query lets through; \<open>promoted\<close> are the assertion
  graphs that the metadata of the context graph lists outside working memory.
\<close>

definition served_graph :: "(string \<Rightarrow> bool) \<Rightarrow> string \<Rightarrow> string \<Rightarrow> bool" where
  "served_graph promoted cg g \<longleftrightarrow>
     (let pre = ''did:dkg:context-graph:'' @ cg in
      (g = pre \<or> startsWith g (pre @ ''/'')) \<and> \<not> endsWith g ''/_meta'' \<and> \<not> str_includes g ''/_private''
      \<and> (\<not> str_includes g ''/assertion/'' \<or> promoted g))"

text \<open>
  Context graph ids may contain slashes, and the data graph of \<open>0xabc/project\<close> lies under the prefix of
  \<open>0xabc\<close>: a request for \<open>0xabc\<close> is let through whatever the access policy of \<open>0xabc/project\<close> is.
\<close>

lemma nested_private_graph_served:
  assumes "isPrivateContextGraph query ''0xabc'' = Inr False" "sr_contextGraphId r = ''0xabc''"
  shows "served_graph promoted ''0xabc'' (graph_uri ''0xabc/project'')
    \<and> authorizeSyncRequest env (\<lambda>w. isPrivateContextGraph query) now r peer s = (Inr True, s)"
proof -
  have "\<not> str_includes (graph_uri ''0xabc/project'') ''/assertion/''" by code_simp
  moreover have "served_graph (\<lambda>_. False) ''0xabc'' (graph_uri ''0xabc/project'')" by code_simp
  ultimately show ?thesis using assms by (simp add: served_graph_def authorizeSyncRequest_def Let_def)
qed

section \<open>Requests without authentication arrive as they were sent\<close>

lemma split_on_none: "d \<notin> set s \<Longrightarrow> split_on d s = [s]"
  by (induction s) auto

lemma split_on_part: "d \<notin> set s \<Longrightarrow> split_on d (s @ d # t) = s # split_on d t"
  by (induction s) auto

lemma show_nat_char: "\<not> is_digit c \<Longrightarrow> c \<notin> set (show_nat n)"
  using show_nat_digits by blast

lemma parseInt10_show:
  assumes "0 \<le> n"
  shows "parseInt10 (show_int n) = Some n"
proof -
  have digits: "\<forall>c \<in> set (show_nat (nat n)). is_digit c" using show_nat_digits by blast
  have ne: "show_nat (nat n) \<noteq> []" by (subst show_nat.simps) simp
  then obtain c s where cs: "show_nat (nat n) = c # s" by (cases "show_nat (nat n)") auto
  have "\<not> is_space c" "c \<noteq> CHR ''-''" "c \<noteq> CHR ''+''"
    using digits cs by (auto simp: is_digit_def is_space_def Let_def)
  then have "dropWhile is_space (c # s) = c # s" "\<not> startsWith (c # s) ''-''" "\<not> startsWith (c # s) ''+''"
    by (auto simp: startsWith_def)
  moreover have "takeWhile is_digit (c # s) = c # s" using digits cs by (simp add: takeWhile_eq_all_conv)
  moreover have "digits_val (c # s) = nat n" using digits_val_show_nat [of "nat n"] cs by simp
  ultimately show ?thesis using assms cs by (simp add: parseInt10_def show_int_def Let_def)
qed

lemma pipe_roundtrip:
  assumes "CHR ''|'' \<notin> set cg" "cg \<noteq> []" "\<not> startsWith cg ''workspace:''" "0 \<le> offset" "0 < limit"
  shows "parsePipeDelimitedSyncRequest (plain_request_text cg offset limit ws (Some ph))
    = plain_request cg offset (min limit SYNC_PAGE_SIZE) ws (Some ph)"
proof -
  let ?cg = "if ws then ''workspace:'' @ cg else cg"
  have pipe: "CHR ''|'' \<notin> set ?cg" "CHR ''|'' \<notin> set (show_int offset)" "CHR ''|'' \<notin> set (show_int limit)"
    using assms show_nat_char [of "CHR ''|''"] by (auto simp: show_int_def is_digit_def)
  have "split_on CHR ''|'' (plain_request_text cg offset limit ws (Some ph))
      = [?cg, show_int offset, show_int limit] @ (if ph = MetaPhase then [''meta''] else [])"
    unfolding plain_request_text_def
    using split_on_part [OF pipe(1)] split_on_part [OF pipe(2)] split_on_part [OF pipe(3)] split_on_none [OF pipe(3)]
    by (cases ph; cases ws) (simp_all add: append_assoc split_on_none)
  moreover have "startsWith ?cg ''workspace:'' = ws" using assms(3) by (simp add: startsWith_def)
  ultimately show ?thesis
    using assms parseInt10_show [of offset] parseInt10_show [of limit]
    by (cases ph; cases ws) (simp_all add: parsePipeDelimitedSyncRequest_def Let_def int_part_def)
qed

section \<open>Pages are windows\<close>

text \<open>The solutions for a list of quads, and a store that answers the pages of a query over it.\<close>

definition solution :: "Quad \<Rightarrow> (string \<times> string) list" where
  "solution q = [(''s'', subject q), (''p'', predicate q), (''o'', object q), (''g'', graph q)]"

definition answers_pages :: "sparql_query \<Rightarrow> (int \<Rightarrow> int \<Rightarrow> string) \<Rightarrow> int \<Rightarrow> Quad list \<Rightarrow> bool" where
  "answers_pages query text limit rows \<longleftrightarrow>
     (\<forall>offset. 0 \<le> offset \<longrightarrow>
        query (text offset limit) = Inr (Bindings (map solution (take (nat limit) (drop (nat offset) rows)))))"

definition page_query :: "string \<Rightarrow> bool \<Rightarrow> SyncPhase \<Rightarrow> int \<Rightarrow> int \<Rightarrow> string" where
  "page_query cg ws ph =
     (if ws then simple_query (if ph = MetaPhase then shared_meta_uri cg else shared_uri cg)
      else if ph = MetaPhase then durable_meta_query (meta_uri cg) cg else durable_data_query cg)"

definition page_graph :: "string \<Rightarrow> bool \<Rightarrow> SyncPhase \<Rightarrow> string" where
  "page_graph cg ws ph =
     (if ws then (if ph = MetaPhase then shared_meta_uri cg else shared_uri cg)
      else if ph = MetaPhase then meta_uri cg else graph_uri cg)"

definition rows_fit :: "string \<Rightarrow> bool \<Rightarrow> SyncPhase \<Rightarrow> Quad list \<Rightarrow> bool" where
  "rows_fit cg ws ph rows \<longleftrightarrow> (ws \<or> ph = MetaPhase \<longrightarrow> list_all (\<lambda>q. graph q = page_graph cg ws ph) rows)"

lemma page_text_rows:
  assumes "\<forall>q \<in> set qs. g_of (solution q) = graph q"
  shows "page_text g_of (Bindings (map solution qs)) = Inr (nquads_text qs)"
proof -
  have "mapE (\<lambda>row. row_line (g_of row) row) (map solution qs)
      = Inr (map (\<lambda>q. nquad_line (subject q) (predicate q) (object q) (graph q)) qs)"
    using assms by (induction qs) (simp_all add: row_line_def row_text_def solution_def bindE_def)
  then show ?thesis by (simp add: page_text_def nquads_text_def bindE_def)
qed

lemma sync_page_window:
  assumes "answers_pages query (page_query cg ws ph) limit rows" "rows_fit cg ws ph rows" "0 \<le> offset"
  shows "sync_page query None cg ws ph offset limit = Inr (nquads_text (take (nat limit) (drop (nat offset) rows)))"
proof -
  let ?w = "take (nat limit) (drop (nat offset) rows)"
  have q: "query (page_query cg ws ph offset limit) = Inr (Bindings (map solution ?w))"
    using assms by (simp add: answers_pages_def)
  have sub: "set ?w \<subseteq> set rows" by (meson set_drop_subset set_take_subset subset_trans)
  have g: "page_text (\<lambda>_. page_graph cg ws ph) (Bindings (map solution ?w)) = Inr (nquads_text ?w)" if "ws \<or> ph = MetaPhase"
    by (rule page_text_rows) (use assms(2) sub that in \<open>auto simp: rows_fit_def list_all_iff\<close>)
  have d: "page_text (\<lambda>row. case map_of row ''g'' of None \<Rightarrow> graph_uri cg | Some g \<Rightarrow> g) (Bindings (map solution ?w)) = Inr (nquads_text ?w)"
    by (rule page_text_rows) (simp add: solution_def)
  show ?thesis
    using q g d by (cases ws; cases ph) (simp_all add: sync_page_def page_query_def page_graph_def bindE_def)
qed

lemma plain_request_sel [simp]:
  "sr_contextGraphId (plain_request cg off lim ws ph) = cg" "sr_offset (plain_request cg off lim ws ph) = off"
  "sr_limit (plain_request cg off lim ws ph) = lim" "sr_includeSharedMemory (plain_request cg off lim ws ph) = ws"
  "sr_phase (plain_request cg off lim ws ph) = ph"
  by (simp_all add: plain_request_def)

text \<open>A context graph whose name travels in a request without authentication.\<close>

definition plain_cg :: "string \<Rightarrow> bool" where
  "plain_cg cg \<longleftrightarrow> cg \<noteq> [] \<and> CHR ''|'' \<notin> set cg \<and> \<not> startsWith cg ''workspace:'' \<and> \<not> startsWith cg ''{'' \<and> \<not> is_space (hd cg)"

lemma plain_text_trim:
  assumes "plain_cg cg" "0 \<le> offset" "0 < limit"
  shows "str_trim (plain_request_text cg offset limit ws ph) = plain_request_text cg offset limit ws ph"
    and "\<not> startsWith (plain_request_text cg offset limit ws ph) ''{''"
proof -
  let ?t = "plain_request_text cg offset limit ws ph"
  obtain c cs where cg: "cg = c # cs" using assms(1) by (cases cg) (auto simp: plain_cg_def)
  have hd: "hd ?t = (if ws then CHR ''w'' else c)" "?t \<noteq> []" by (auto simp: plain_request_text_def cg)
  have ne: "show_int limit \<noteq> []" "\<forall>c \<in> set (show_int limit). is_digit c"
    using assms(3) show_nat_digits by (auto simp: show_int_def)
  then have "is_digit (last (show_int limit))" by simp
  then have "\<not> is_space (last (show_int limit))" by (auto simp: is_digit_def is_space_def Let_def)
  then have "\<not> is_space (last ?t)" using ne(1) by (auto simp: plain_request_text_def is_space_def)
  moreover have "\<not> is_space (hd ?t)" using hd assms(1) cg by (auto simp: plain_cg_def is_space_def)
  ultimately show "str_trim ?t = ?t" using hd(2) by (intro str_trim_id)
  show "\<not> startsWith ?t ''{''"
    using assms(1) by (auto simp: plain_cg_def startsWith_def plain_request_text_def cg)
qed

lemma handler_window:
  assumes rs: "rs_sharedMemoryTtlMs rs \<le> 0" "0 < rs_pageSize rs" "rs_pageSize rs \<le> SYNC_PAGE_SIZE"
    and cg: "plain_cg cg" "isPrivateContextGraph (rs_query rs (as_world s)) cg = Inr False"
    and rows: "answers_pages (rs_query rs (as_world s)) (page_query cg ws ph) (rs_pageSize rs) rows" "rows_fit cg ws ph rows"
    and off: "0 \<le> offset"
  shows "sync_handler rs now (plain_request_text cg offset (rs_pageSize rs) ws (Some ph)) peer s
    = (Inr (nquads_text (take (nat (rs_pageSize rs)) (drop (nat (page_offset offset)) rows))), s)"
proof -
  let ?t = "plain_request_text cg offset (rs_pageSize rs) ws (Some ph)"
  have "parseSyncRequest rs ?t = plain_request cg offset (rs_pageSize rs) ws (Some ph)"
    using plain_text_trim [OF cg(1) off rs(2), of ws "Some ph"] pipe_roundtrip [of cg offset "rs_pageSize rs" ws ph] cg(1) off rs(2,3)
    by (simp add: parseSyncRequest_def Let_def plain_cg_def min_def)
  moreover have "page_limit (rs_pageSize rs) (rs_pageSize rs) = rs_pageSize rs" using rs(2) by (simp add: page_limit_def)
  moreover have "cg \<noteq> []" using cg(1) by (simp add: plain_cg_def)
  moreover have "sync_page (rs_query rs (as_world s)) None cg ws ph (page_offset offset) (rs_pageSize rs)
      = Inr (nquads_text (take (nat (rs_pageSize rs)) (drop (nat (page_offset offset)) rows)))"
    by (rule sync_page_window [OF rows]) (simp add: page_offset_def)
  ultimately show ?thesis
    using rs(1) cg(2)
    by (simp add: sync_handler_def Let_def authorizeSyncRequest_def bindM_def getM_def liftE_def)
qed

end
