(* ===== verification/SyncFetch.thy ===== *)
theory SyncFetch
  imports Complex_Main SyncBatch SyncResponder
begin

text \<open>
  The requester of the sync protocol: retries (\<^verbatim>\<open>packages/core/src/retry.ts\<close>,
  \<^verbatim>\<open>packages/agent/src/p2p/sync-transport.ts\<close>), the page loop (\<^verbatim>\<open>sync/requester/page-fetch.ts\<close>), the
  checkpoints (\<^verbatim>\<open>sync/checkpoint/state.ts\<close>) and the two synchronisations (\<^verbatim>\<open>durable-sync.ts\<close>,
  \<^verbatim>\<open>shared-memory-sync.ts\<close>). The network, the clock and the pauses between retries act on a state that is
  a parameter. The page loop may run forever, so it is a partial function: \<open>None\<close> is not returning.
\<close>

section \<open>Retries\<close>

fun retryLoop ::
  "('e \<Rightarrow> bool) option \<Rightarrow> (nat \<Rightarrow> 'e \<Rightarrow> 's \<Rightarrow> 's) \<Rightarrow> nat \<Rightarrow> ('s, 'e, 'a) eop \<Rightarrow> nat \<Rightarrow> 'e option \<Rightarrow> ('s, 'e option, 'a) eop" where
  "retryLoop isRetryable pause maxAttempts fn 0 lastErr s = (Inl lastErr, s)"
| "retryLoop isRetryable pause maxAttempts fn (Suc k) lastErr s =
     (case fn s of
        (Inr v, s') \<Rightarrow> (Inr v, s')
      | (Inl e, s') \<Rightarrow>
          if (case isRetryable of None \<Rightarrow> False | Some f \<Rightarrow> \<not> f e) then (Inl (Some e), s')
          else if k = 0 then (Inl (Some e), s')
          else retryLoop isRetryable pause maxAttempts fn k (Some e) (pause (maxAttempts - Suc k) e s'))"

definition withRetry ::
  "('e \<Rightarrow> bool) option \<Rightarrow> (nat \<Rightarrow> 'e \<Rightarrow> 's \<Rightarrow> 's) \<Rightarrow> nat \<Rightarrow> ('s, 'e, 'a) eop \<Rightarrow> ('s, 'e option, 'a) eop" where
  "withRetry isRetryable pause maxAttempts fn = retryLoop isRetryable pause maxAttempts fn maxAttempts None"

text \<open>The pause before the next attempt, for a random number of the unit interval.\<close>

definition retryDelay :: "real \<Rightarrow> real \<Rightarrow> real \<Rightarrow> real \<Rightarrow> nat \<Rightarrow> real" where
  "retryDelay baseDelayMs maxDelayMs jitterFactor random attempt =
     (let exponentialDelay = baseDelayMs * 2 ^ attempt;
          jitter = exponentialDelay * jitterFactor * random
      in min (exponentialDelay + jitter) maxDelayMs)"

section \<open>The page loop\<close>

record 'w SyncNet =
  net_now :: "'w \<Rightarrow> int"
  net_build :: "string \<Rightarrow> int \<Rightarrow> int \<Rightarrow> bool \<Rightarrow> string \<Rightarrow> SyncPhase \<Rightarrow> ('w, string) op"
  net_send :: "string \<Rightarrow> string \<Rightarrow> int \<Rightarrow> ('w, string) op"
  net_pause :: "nat \<Rightarrow> string \<Rightarrow> 'w \<Rightarrow> 'w"

record FetchParams =
  fp_remotePeerId :: string
  fp_contextGraphId :: string
  fp_includeSharedMemory :: bool
  fp_phase :: SyncPhase
  fp_graphUri :: string
  fp_deadline :: int
  fp_pageTimeoutMs :: int
  fp_routerAttempts :: int
  fp_retryAttempts :: nat
  fp_pageSize :: int
  fp_deniedResponse :: string
  fp_extraDeniedResponses :: "string list"

definition sendSyncRequest :: "'w SyncNet \<Rightarrow> FetchParams \<Rightarrow> int \<Rightarrow> int \<Rightarrow> ('w, string option, string) eop" where
  "sendSyncRequest net fp offset tmo =
     withRetry None (net_pause net) (fp_retryAttempts fp)
       (bindM (net_build net (fp_contextGraphId fp) offset (fp_pageSize fp) (fp_includeSharedMemory fp) (fp_remotePeerId fp) (fp_phase fp))
          (\<lambda>request. net_send net (fp_remotePeerId fp) request tmo))"

datatype SyncError = SyncDenied string string SyncPhase | TransportError "string option"

record PageState =
  ps_quads :: "Quad list"
  ps_bytes :: nat
  ps_offset :: int

definition page_timeout :: "FetchParams \<Rightarrow> int \<Rightarrow> int" where
  "page_timeout fp now =
     min (fp_pageTimeoutMs fp) (max 2000 (max 0 (fp_deadline fp - now) div fp_routerAttempts fp))"

partial_function (option) fetchLoop ::
  "'w SyncNet \<Rightarrow> FetchParams \<Rightarrow> PageState \<Rightarrow> 'w \<Rightarrow> ((SyncError + PageState \<times> bool) \<times> 'w) option" where
  "fetchLoop net fp ps w =
     (if net_now net w > fp_deadline fp then Some (Inr (ps, True), w)
      else case sendSyncRequest net fp (ps_offset ps) (page_timeout fp (net_now net w)) w of
        (Inl e, w') \<Rightarrow> Some (Inl (TransportError e), w')
      | (Inr response, w') \<Rightarrow>
          (let nquadsText = str_trim response;
               ps1 = ps\<lparr>ps_bytes := ps_bytes ps + length (utf8 response)\<rparr>;
               parsed = parseAndFilterNQuads nquadsText (fp_graphUri fp) (fp_contextGraphId fp);
               ps2 = ps1\<lparr>ps_quads := ps_quads ps @ pr_quads parsed, ps_offset := ps_offset ps + int (pr_totalQuads parsed)\<rparr>
           in if nquadsText = fp_deniedResponse fp \<or> nquadsText \<in> set (fp_extraDeniedResponses fp) then
                Some (Inl (SyncDenied (fp_remotePeerId fp) (fp_contextGraphId fp) (fp_phase fp)), w')
              else if nquadsText = [] then Some (Inr (ps1, False), w')
              else if pr_totalQuads parsed = 0 then Some (Inr (ps1, False), w')
              else if int (pr_totalQuads parsed) < fp_pageSize fp then Some (Inr (ps2, False), w')
              else fetchLoop net fp ps2 w'))"

record SyncPageResult =
  pg_quads :: "Quad list"
  pg_bytesReceived :: nat
  pg_resumedFromOffset :: int
  pg_nextOffset :: int
  pg_checkpointKey :: string
  pg_completed :: bool

definition getSyncCheckpointKey :: "string \<Rightarrow> string \<Rightarrow> bool \<Rightarrow> SyncPhase \<Rightarrow> string" where
  "getSyncCheckpointKey remotePeerId cg ws ph =
     remotePeerId @ ''|'' @ cg @ ''|'' @ (if ws then ''swm'' else ''durable'') @ ''|'' @ (case ph of DataPhase \<Rightarrow> ''data'' | MetaPhase \<Rightarrow> ''meta'')"

type_synonym checkpoints = "(string \<times> int) list"

definition fetchSyncPages ::
  "'w SyncNet \<Rightarrow> FetchParams \<Rightarrow> checkpoints \<Rightarrow> 'w \<Rightarrow> ((SyncError + SyncPageResult) \<times> 'w) option" where
  "fetchSyncPages net fp checkpointStore w =
     (let checkpointKey = getSyncCheckpointKey (fp_remotePeerId fp) (fp_contextGraphId fp) (fp_includeSharedMemory fp) (fp_phase fp);
          offset = (case map_of checkpointStore checkpointKey of None \<Rightarrow> 0 | Some n \<Rightarrow> n)
      in case fetchLoop net fp \<lparr>ps_quads = [], ps_bytes = 0, ps_offset = offset\<rparr> w of
           None \<Rightarrow> None
         | Some (Inl e, w') \<Rightarrow> Some (Inl e, w')
         | Some (Inr (ps, timedOut), w') \<Rightarrow>
             Some (Inr \<lparr>pg_quads = ps_quads ps, pg_bytesReceived = ps_bytes ps, pg_resumedFromOffset = offset,
                        pg_nextOffset = ps_offset ps, pg_checkpointKey = checkpointKey, pg_completed = (\<not> timedOut)\<rparr>, w'))"

section \<open>Durable synchronisation\<close>

record DurableSyncSummary =
  ds_insertedTriples :: nat
  ds_fetchedMetaTriples :: nat
  ds_fetchedDataTriples :: nat
  ds_insertedMetaTriples :: nat
  ds_insertedDataTriples :: nat
  ds_bytesReceived :: nat
  ds_resumedPhases :: nat
  ds_deniedPhases :: nat
  ds_emptyResponses :: nat
  ds_metaOnlyResponses :: nat
  ds_dataRejectedMissingMeta :: nat
  ds_rejectedKcs :: nat
  ds_failedPeers :: nat

definition durable_zero :: DurableSyncSummary where
  "durable_zero = \<lparr>ds_insertedTriples = 0, ds_fetchedMetaTriples = 0, ds_fetchedDataTriples = 0, ds_insertedMetaTriples = 0,
     ds_insertedDataTriples = 0, ds_bytesReceived = 0, ds_resumedPhases = 0, ds_deniedPhases = 0, ds_emptyResponses = 0,
     ds_metaOnlyResponses = 0, ds_dataRejectedMissingMeta = 0, ds_rejectedKcs = 0, ds_failedPeers = 0\<rparr>"

text \<open>
  The state of a synchronisation: the requester's network, the triples inserted so far, the
  checkpoints, the context graphs that were denied, and the owners of shared-memory entities.
\<close>

record 'w SyncState =
  ss_net :: 'w
  ss_store :: "Quad list"
  ss_checkpoints :: checkpoints
  ss_denied :: "string list"
  ss_owned :: "(string \<times> (string \<times> string) list) list"

text \<open>
  What the agent passes to the two loops: the page fetch with its parameters, the deadline of a context
  graph, and the insertion of quads, which may fail.
\<close>

record 'w SyncAgent =
  ag_net :: "'w SyncNet"
  ag_engine :: SyncEngine
  ag_insert :: "Quad list \<Rightarrow> string option"

definition SYNC_TOTAL_TIMEOUT_MS :: int where "SYNC_TOTAL_TIMEOUT_MS = 120000"
definition SYNC_MIN_GRAPH_BUDGET_MS :: int where "SYNC_MIN_GRAPH_BUDGET_MS = 10000"

definition createContextGraphSyncDeadline :: "int \<Rightarrow> nat \<Rightarrow> int" where
  "createContextGraphSyncDeadline now remaining =
     now + max SYNC_MIN_GRAPH_BUDGET_MS (SYNC_TOTAL_TIMEOUT_MS div max 1 (int remaining))"

definition fetch_params :: "string \<Rightarrow> string \<Rightarrow> bool \<Rightarrow> SyncPhase \<Rightarrow> string \<Rightarrow> int \<Rightarrow> FetchParams" where
  "fetch_params peer cg ws ph g deadline =
     \<lparr>fp_remotePeerId = peer, fp_contextGraphId = cg, fp_includeSharedMemory = ws, fp_phase = ph, fp_graphUri = g,
      fp_deadline = deadline, fp_pageTimeoutMs = 45000, fp_routerAttempts = 3, fp_retryAttempts = 3,
      fp_pageSize = SYNC_PAGE_SIZE, fp_deniedResponse = ''__DKG_SYNC_DENIED__'',
      fp_extraDeniedResponses = [''#DKG-SYNC-ACCESS-DENIED'']\<rparr>"

datatype SyncFailure = FetchFailed SyncError | InsertFailed string

definition add_inserted :: "nat \<Rightarrow> DurableSyncSummary \<Rightarrow> DurableSyncSummary" where
  "add_inserted n sm = sm\<lparr>ds_insertedTriples := ds_insertedTriples sm + n\<rparr>"

text \<open>\<^verbatim>\<open>if (quads.length > 0) await storeInsert(quads)\<close> with the counters that follow it.\<close>

definition insert_quads ::
  "'w SyncAgent \<Rightarrow> Quad list \<Rightarrow> ('sm \<Rightarrow> 'sm) \<Rightarrow> ('sm \<times> 'w SyncState, SyncFailure, unit) eop" where
  "insert_quads ag qs upd st =
     (if qs = [] then (Inr (), st)
      else case ag_insert ag qs of
        Some e \<Rightarrow> (Inl (InsertFailed e), st)
      | None \<Rightarrow> (Inr (), (upd (fst st), (snd st)\<lparr>ss_store := ss_store (snd st) @ qs\<rparr>)))"

definition settle_checkpoint :: "SyncPageResult \<Rightarrow> checkpoints \<Rightarrow> checkpoints" where
  "settle_checkpoint res cps =
     (if pg_completed res then filter (\<lambda>p. fst p \<noteq> pg_checkpointKey res) cps
      else AList.update (pg_checkpointKey res) (pg_nextOffset res) cps)"

definition resumed :: "SyncPageResult \<Rightarrow> nat" where
  "resumed res = (if pg_resumedFromOffset res > 0 then 1 else 0)"

definition durable_batch ::
  "'w SyncAgent \<Rightarrow> string \<Rightarrow> SyncPageResult \<Rightarrow> SyncPageResult \<Rightarrow> (DurableSyncSummary \<times> 'w SyncState, SyncFailure, unit) eop" where
  "durable_batch ag pid metaResult dataResult =
     (let processed = processDurableBatch (ag_engine ag) (pg_quads dataResult) (pg_quads metaResult) (pid \<in> {''agents'', ''ontology''});
          vdata = db_verifiedData processed; vmeta = db_verifiedMeta processed
      in bindM (modM (\<lambda>(sm, st). (sm\<lparr>
             ds_bytesReceived := ds_bytesReceived sm + pg_bytesReceived metaResult + pg_bytesReceived dataResult,
             ds_resumedPhases := ds_resumedPhases sm + resumed metaResult + resumed dataResult,
             ds_fetchedMetaTriples := ds_fetchedMetaTriples sm + db_totalFetchedMetaQuads processed,
             ds_fetchedDataTriples := ds_fetchedDataTriples sm + db_totalFetchedDataQuads processed,
             ds_emptyResponses := ds_emptyResponses sm + db_emptyResponses processed,
             ds_metaOnlyResponses := ds_metaOnlyResponses sm + db_metaOnlyResponses processed,
             ds_dataRejectedMissingMeta := ds_dataRejectedMissingMeta sm + db_dataRejectedMissingMeta processed\<rparr>, st))) (\<lambda>_.
         if db_emptyResponses processed > 0 \<or> db_dataRejectedMissingMeta processed > 0
            \<or> (vdata = [] \<and> vmeta = [] \<and> db_metaOnlyResponses processed > 0) then ret ()
         else
           bindM (insert_quads ag vdata (\<lambda>sm. (add_inserted (length vdata) sm)
               \<lparr>ds_insertedDataTriples := ds_insertedDataTriples sm + length vdata\<rparr>)) (\<lambda>_.
           bindM (insert_quads ag vmeta (\<lambda>sm. (add_inserted (length vmeta) sm)
               \<lparr>ds_insertedMetaTriples := ds_insertedMetaTriples sm + length vmeta\<rparr>)) (\<lambda>_.
           modM (\<lambda>(sm, st). (sm\<lparr>ds_rejectedKcs := ds_rejectedKcs sm + db_rejectedKcs processed\<rparr>,
             st\<lparr>ss_checkpoints := settle_checkpoint dataResult (settle_checkpoint metaResult (ss_checkpoints st))\<rparr>))))))"

text \<open>One call of the page fetch; the outer option is not returning.\<close>

definition fetch_phase ::
  "'w SyncAgent \<Rightarrow> FetchParams \<Rightarrow> 'w SyncState \<Rightarrow> ((SyncError + SyncPageResult) \<times> 'w SyncState) option" where
  "fetch_phase ag fp st =
     map_option (\<lambda>(res, w). (res, st\<lparr>ss_net := w\<rparr>)) (fetchSyncPages (ag_net ag) fp (ss_checkpoints st) (ss_net st))"

definition fetch_both ::
  "'w SyncAgent \<Rightarrow> FetchParams \<Rightarrow> FetchParams \<Rightarrow> 'w SyncState
     \<Rightarrow> ((SyncError + SyncPageResult \<times> SyncPageResult) \<times> 'w SyncState) option" where
  "fetch_both ag fpMeta fpData st =
     (case fetch_phase ag fpMeta st of
        None \<Rightarrow> None
      | Some (Inl e, st1) \<Rightarrow> Some (Inl e, st1)
      | Some (Inr metaResult, st1) \<Rightarrow>
          (case fetch_phase ag fpData st1 of
             None \<Rightarrow> None
           | Some (Inl e, st2) \<Rightarrow> Some (Inl e, st2)
           | Some (Inr dataResult, st2) \<Rightarrow> Some (Inr (metaResult, dataResult), st2)))"

definition note_denied :: "SyncError \<Rightarrow> string \<Rightarrow> 'w SyncState \<Rightarrow> 'w SyncState" where
  "note_denied e pid st = (case e of SyncDenied _ _ _ \<Rightarrow> st\<lparr>ss_denied := ss_denied st @ [pid]\<rparr> | _ \<Rightarrow> st)"

definition durable_graph ::
  "'w SyncAgent \<Rightarrow> string \<Rightarrow> nat \<Rightarrow> string \<Rightarrow> DurableSyncSummary \<times> 'w SyncState
     \<Rightarrow> ((SyncFailure + unit) \<times> DurableSyncSummary \<times> 'w SyncState) option" where
  "durable_graph ag peer remaining pid = (\<lambda>(sm, st).
     let deadline = createContextGraphSyncDeadline (net_now (ag_net ag) (ss_net st)) remaining
     in case fetch_both ag (fetch_params peer pid False MetaPhase (meta_uri pid) deadline)
               (fetch_params peer pid False DataPhase (graph_uri pid) deadline) st of
          None \<Rightarrow> None
        | Some (Inl e, st1) \<Rightarrow> Some (Inl (FetchFailed e), sm, note_denied e pid st1)
        | Some (Inr (metaResult, dataResult), st1) \<Rightarrow> Some (durable_batch ag pid metaResult dataResult (sm, st1)))"

fun durable_graphs ::
  "'w SyncAgent \<Rightarrow> string \<Rightarrow> string list \<Rightarrow> DurableSyncSummary \<times> 'w SyncState
     \<Rightarrow> ((SyncFailure + unit) \<times> DurableSyncSummary \<times> 'w SyncState) option" where
  "durable_graphs ag peer [] st = Some (Inr (), st)"
| "durable_graphs ag peer (pid # pids) st =
     (case durable_graph ag peer (Suc (length pids)) pid st of
        None \<Rightarrow> None
      | Some (Inl e, st1) \<Rightarrow> Some (Inl e, st1)
      | Some (Inr _, st1) \<Rightarrow> durable_graphs ag peer pids st1)"

fun sync_denied :: "SyncFailure \<Rightarrow> bool" where
  "sync_denied (FetchFailed (SyncDenied _ _ _)) = True"
| "sync_denied _ = False"

definition runDurableSync :: "'w SyncAgent \<Rightarrow> string \<Rightarrow> string list \<Rightarrow> 'w SyncState \<Rightarrow> (DurableSyncSummary \<times> 'w SyncState) option" where
  "runDurableSync ag peer pids st =
     map_option (\<lambda>(res, sm, st').
       (case res of
          Inr _ \<Rightarrow> sm
        | Inl e \<Rightarrow> sm\<lparr>ds_deniedPhases := ds_deniedPhases sm + (if sync_denied e then 1 else 0),
                       ds_failedPeers := ds_failedPeers sm + 1\<rparr>, st'))
       (durable_graphs ag peer pids (durable_zero, st))"

section \<open>Shared-memory synchronisation\<close>

record SharedMemorySyncSummary =
  sw_insertedTriples :: nat
  sw_fetchedMetaTriples :: nat
  sw_fetchedDataTriples :: nat
  sw_insertedMetaTriples :: nat
  sw_insertedDataTriples :: nat
  sw_bytesReceived :: nat
  sw_resumedPhases :: nat
  sw_deniedPhases :: nat
  sw_emptyResponses :: nat
  sw_droppedDataTriples :: nat
  sw_failedPeers :: nat

definition shared_zero :: SharedMemorySyncSummary where
  "shared_zero = \<lparr>sw_insertedTriples = 0, sw_fetchedMetaTriples = 0, sw_fetchedDataTriples = 0, sw_insertedMetaTriples = 0,
     sw_insertedDataTriples = 0, sw_bytesReceived = 0, sw_resumedPhases = 0, sw_deniedPhases = 0, sw_emptyResponses = 0,
     sw_droppedDataTriples = 0, sw_failedPeers = 0\<rparr>"

text \<open>Owners are recorded for entities that have none.\<close>

definition record_owners :: "string \<Rightarrow> (string \<times> string) list \<Rightarrow> (string \<times> (string \<times> string) list) list \<Rightarrow> (string \<times> (string \<times> string) list) list" where
  "record_owners cg creators owned =
     AList.update cg
       (fold (\<lambda>(entity, creator) m. if map_of m entity = None then AList.update entity creator m else m) creators
          (case map_of owned cg of None \<Rightarrow> [] | Some m \<Rightarrow> m)) owned"

definition shared_batch ::
  "'w SyncAgent \<Rightarrow> (string \<Rightarrow> string option) \<Rightarrow> string \<Rightarrow> SyncPageResult \<Rightarrow> SyncPageResult
     \<Rightarrow> (SharedMemorySyncSummary \<times> 'w SyncState, SyncFailure, unit) eop" where
  "shared_batch ag ensureParanet pid metaResult dataResult =
     (let processed = processSharedMemoryBatch (pg_quads dataResult) (pg_quads metaResult);
          vdata = sb_verifiedData processed; vmeta = sb_verifiedMeta processed
      in bindM (modM (\<lambda>(sm, st). (sm\<lparr>
             sw_bytesReceived := sw_bytesReceived sm + pg_bytesReceived metaResult + pg_bytesReceived dataResult,
             sw_resumedPhases := sw_resumedPhases sm + resumed metaResult + resumed dataResult,
             sw_fetchedMetaTriples := sw_fetchedMetaTriples sm + sb_totalFetchedMetaQuads processed,
             sw_fetchedDataTriples := sw_fetchedDataTriples sm + sb_totalFetchedDataQuads processed,
             sw_emptyResponses := sw_emptyResponses sm + sb_emptyResponses processed\<rparr>, st))) (\<lambda>_.
         if sb_emptyResponses processed > 0 then ret ()
         else
           bindM (modM (\<lambda>(sm, st). (sm\<lparr>sw_droppedDataTriples := sw_droppedDataTriples sm + sb_droppedDataTriples processed\<rparr>, st))) (\<lambda>_.
           bindM (case ensureParanet pid of Some e \<Rightarrow> throw (InsertFailed e) | None \<Rightarrow> ret ()) (\<lambda>_.
           bindM (insert_quads ag vdata (\<lambda>sm. sm\<lparr>sw_insertedTriples := sw_insertedTriples sm + length vdata,
               sw_insertedDataTriples := sw_insertedDataTriples sm + length vdata\<rparr>)) (\<lambda>_.
           bindM (insert_quads ag vmeta (\<lambda>sm. sm\<lparr>sw_insertedTriples := sw_insertedTriples sm + length vmeta,
               sw_insertedMetaTriples := sw_insertedMetaTriples sm + length vmeta\<rparr>)) (\<lambda>_.
           modM (\<lambda>(sm, st). (sm,
             st\<lparr>ss_checkpoints := settle_checkpoint dataResult (settle_checkpoint metaResult (ss_checkpoints st)),
                ss_owned := record_owners pid (sb_entityCreators processed) (ss_owned st)\<rparr>))))))))"

definition shared_graph ::
  "'w SyncAgent \<Rightarrow> (string \<Rightarrow> string option) \<Rightarrow> string \<Rightarrow> nat \<Rightarrow> string \<Rightarrow> SharedMemorySyncSummary \<times> 'w SyncState
     \<Rightarrow> ((SyncFailure + unit) \<times> SharedMemorySyncSummary \<times> 'w SyncState) option" where
  "shared_graph ag ensureParanet peer remaining pid = (\<lambda>(sm, st).
     let deadline = createContextGraphSyncDeadline (net_now (ag_net ag) (ss_net st)) remaining
     in case fetch_both ag (fetch_params peer pid True MetaPhase (shared_meta_uri pid) deadline)
               (fetch_params peer pid True DataPhase (shared_uri pid) deadline) st of
          None \<Rightarrow> None
        | Some (Inl e, st1) \<Rightarrow> Some (Inl (FetchFailed e), sm, st1)
        | Some (Inr (metaResult, dataResult), st1) \<Rightarrow> Some (shared_batch ag ensureParanet pid metaResult dataResult (sm, st1)))"

fun shared_graphs ::
  "'w SyncAgent \<Rightarrow> (string \<Rightarrow> string option) \<Rightarrow> string \<Rightarrow> string list \<Rightarrow> SharedMemorySyncSummary \<times> 'w SyncState
     \<Rightarrow> ((SyncFailure + unit) \<times> SharedMemorySyncSummary \<times> 'w SyncState) option" where
  "shared_graphs ag ensureParanet peer [] st = Some (Inr (), st)"
| "shared_graphs ag ensureParanet peer (pid # pids) st =
     (case shared_graph ag ensureParanet peer (Suc (length pids)) pid st of
        None \<Rightarrow> None
      | Some (Inl e, st1) \<Rightarrow> Some (Inl e, st1)
      | Some (Inr _, st1) \<Rightarrow> shared_graphs ag ensureParanet peer pids st1)"

definition runSharedMemorySync ::
  "'w SyncAgent \<Rightarrow> (string \<Rightarrow> string option) \<Rightarrow> string \<Rightarrow> string list \<Rightarrow> 'w SyncState
     \<Rightarrow> (SharedMemorySyncSummary \<times> 'w SyncState) option" where
  "runSharedMemorySync ag ensureParanet peer pids st =
     map_option (\<lambda>(res, sm, st').
       (case res of
          Inr _ \<Rightarrow> sm
        | Inl e \<Rightarrow> sm\<lparr>sw_deniedPhases := sw_deniedPhases sm + (if sync_denied e then 1 else 0),
                       sw_failedPeers := sw_failedPeers sm + 1\<rparr>, st'))
       (shared_graphs ag ensureParanet peer pids (shared_zero, st))"

end
