(* ===== verification/SyncComplete.thy ===== *)
theory SyncComplete
  imports SyncFetch
begin

text \<open>
  The requester of \<^theory_text>\<open>SyncFetch\<close> against a peer that serves the windows of a fixed list of quads:
  the page loop returns, and it returns every quad, if the deadline leaves time for the pages. The peer is
  an interface, and the responder of \<^theory_text>\<open>SyncResponder\<close> implements it for a public context graph
  over a link that delivers. A peer with more quads than the offset limit is never read to the end.
\<close>

section \<open>Texts of pages\<close>

lemma nquads_text_ends:
  assumes "qs \<noteq> []"
  shows "hd (nquads_text qs) = CHR ''<''" "last (nquads_text qs) = CHR ''.''" "nquads_text qs \<noteq> []"
proof -
  let ?line = "\<lambda>q. nquad_line (subject q) (predicate q) (object q) (graph q)"
  have line: "hd (?line q) = CHR ''<''" "last (?line q) = CHR ''.''" "?line q \<noteq> []" for q :: Quad
    by (simp_all add: nquad_line_def)
  obtain q rest where qs: "qs = q # rest" using assms by (cases qs) auto
  have ne: "join_with [NL] (map ?line (q # rest)) \<noteq> []" for q :: Quad and rest using line(3) by (cases rest) simp_all
  show "nquads_text qs \<noteq> []" using ne by (simp only: nquads_text_def qs) simp
  show "hd (nquads_text qs) = CHR ''<''" using line(1,3) by (cases rest) (simp_all add: nquads_text_def qs hd_append)
  have "last (join_with [NL] (map ?line (q # rest))) = CHR ''.''" for q :: Quad and rest
  proof (induction rest arbitrary: q)
    case (Cons q' rest)
    then show ?case using ne [of q' rest] by simp
  qed (simp add: line(2))
  then show "last (nquads_text qs) = CHR ''.''" by (simp only: nquads_text_def qs)
qed

lemma nquads_text_trim: "str_trim (nquads_text qs) = nquads_text qs"
proof (cases "qs = []")
  case False
  from nquads_text_ends [OF this] show ?thesis by (intro str_trim_id) (simp_all add: is_space_def)
qed (simp add: nquads_text_def str_trim_def)

lemma nquads_text_empty: "nquads_text qs = [] \<longleftrightarrow> qs = []"
  using nquads_text_ends(3) [of qs] by (auto simp: nquads_text_def)

section \<open>A peer that serves windows\<close>

definition in_graph :: "FetchParams \<Rightarrow> Quad \<Rightarrow> bool" where
  "in_graph fp q \<longleftrightarrow> graph q = fp_graphUri fp \<or> startsWith (graph q) (''did:dkg:context-graph:'' @ fp_contextGraphId fp @ ''/'')"

definition denial_text :: "FetchParams \<Rightarrow> string \<Rightarrow> bool" where
  "denial_text fp t \<longleftrightarrow> t = fp_deniedResponse fp \<or> t \<in> set (fp_extraDeniedResponses fp)"

text \<open>
  \<open>live k w\<close>: the network is in a state in which \<open>k\<close> more requests are answered before the deadline.
\<close>

locale window_peer =
  fixes net :: "'w SyncNet" and fp :: FetchParams and rows :: "Quad list" and live :: "nat \<Rightarrow> 'w \<Rightarrow> bool"
  assumes page_size: "0 < fp_pageSize fp"
    and not_denied: "denial_text fp t \<Longrightarrow> t \<noteq> [] \<and> hd t \<noteq> CHR ''<''"
    and in_time: "live (Suc k) w \<Longrightarrow> net_now net w \<le> fp_deadline fp"
    and window: "live (Suc k) w \<Longrightarrow> 0 \<le> offset \<Longrightarrow> safe_integer offset \<Longrightarrow>
      \<exists>w'. sendSyncRequest net fp offset (page_timeout fp (net_now net w)) w
        = (Inr (nquads_text (take (nat (fp_pageSize fp)) (drop (nat (min offset 1000000)) rows))), w') \<and> live k w'"
    and rows_ok: "q \<in> set rows \<Longrightarrow> quad_ok q"
begin

lemma page_step:
  assumes "live (Suc k) w" "ps_offset ps = int n" "n \<le> 1000000"
  shows "\<exists>w'. live k w' \<and> fetchLoop net fp ps w =
    (let page = take (nat (fp_pageSize fp)) (drop n rows);
         ps1 = ps\<lparr>ps_bytes := ps_bytes ps + length (utf8 (nquads_text page))\<rparr>;
         ps2 = ps1\<lparr>ps_quads := ps_quads ps @ filter (in_graph fp) page, ps_offset := int (n + length page)\<rparr>
     in if page = [] then Some (Inr (ps1, False), w')
        else if int (length page) < fp_pageSize fp then Some (Inr (ps2, False), w')
        else fetchLoop net fp ps2 w')"
proof -
  define page where "page = take (nat (fp_pageSize fp)) (drop n rows)"
  have "safe_integer (int n)" using assms(3) by (simp add: safe_integer_def)
  then obtain w' where w': "live k w'"
    "sendSyncRequest net fp (int n) (page_timeout fp (net_now net w)) w = (Inr (nquads_text page), w')"
    using window [OF assms(1), of "int n"] assms(3) by (auto simp: min_def page_def)
  have ok: "\<forall>q \<in> set page. quad_ok q" using rows_ok unfolding page_def by (meson in_set_dropD in_set_takeD)
  have nd: "\<not> denial_text fp (nquads_text page)"
    using not_denied [of "nquads_text page"] nquads_text_ends(1) [of page] nquads_text_empty [of page] by blast
  have parsed: "parseAndFilterNQuads (nquads_text page) (fp_graphUri fp) (fp_contextGraphId fp)
      = \<lparr>pr_quads = filter (in_graph fp) page, pr_totalQuads = length page\<rparr>"
    unfolding parseAndFilterNQuads_def parseNQuads_text [OF ok] in_graph_def [abs_def] by (simp add: Let_def)
  have now: "\<not> net_now net w > fp_deadline fp" using in_time [OF assms(1)] by simp
  have "fetchLoop net fp ps w =
    (let ps1 = ps\<lparr>ps_bytes := ps_bytes ps + length (utf8 (nquads_text page))\<rparr>;
         ps2 = ps1\<lparr>ps_quads := ps_quads ps @ filter (in_graph fp) page, ps_offset := int (n + length page)\<rparr>
     in if page = [] then Some (Inr (ps1, False), w')
        else if int (length page) < fp_pageSize fp then Some (Inr (ps2, False), w')
        else fetchLoop net fp ps2 w')"
    using nd unfolding denial_text_def
    by (subst fetchLoop.simps) (simp add: now assms(2) w'(2) nquads_text_trim nquads_text_empty parsed Let_def)
  then show ?thesis using w'(1) unfolding page_def Let_def by blast
qed

text \<open>Enough time for the pages: the loop returns with every quad.\<close>

lemma loop_complete:
  assumes "live k w" "(length rows - n) div nat (fp_pageSize fp) < k" "ps_offset ps = int n" "n \<le> length rows"
    and "length rows \<le> 1000000"
  shows "\<exists>ps' w'. fetchLoop net fp ps w = Some (Inr (ps', False), w')
    \<and> live (k - Suc ((length rows - n) div nat (fp_pageSize fp))) w'
    \<and> ps_quads ps' = ps_quads ps @ filter (in_graph fp) (drop n rows) \<and> ps_offset ps' = int (length rows)"
  using assms(1-4)
proof (induction k arbitrary: w ps n)
  case (Suc k)
  let ?L = "nat (fp_pageSize fp)"
  let ?page = "take ?L (drop n rows)"
  have L: "0 < ?L" "int ?L = fp_pageSize fp" using page_size by simp_all
  define ps2 where "ps2 = ps\<lparr>ps_bytes := ps_bytes ps + length (utf8 (nquads_text ?page)),
    ps_quads := ps_quads ps @ filter (in_graph fp) ?page, ps_offset := int (n + length ?page)\<rparr>"
  obtain w' where w': "live k w'" "fetchLoop net fp ps w =
      (if ?page = [] then Some (Inr (ps\<lparr>ps_bytes := ps_bytes ps + length (utf8 (nquads_text ?page))\<rparr>, False), w')
       else if int (length ?page) < fp_pageSize fp then Some (Inr (ps2, False), w') else fetchLoop net fp ps2 w')"
    using page_step [OF Suc.prems(1,3)] Suc.prems(4) assms(5) unfolding ps2_def Let_def by auto
  show ?case
  proof (cases "length rows - n < ?L")
    case True
    then have page: "?page = drop n rows" and 0: "(length rows - n) div ?L = 0" by simp_all
    show ?thesis
    proof (cases "drop n rows = []")
      case True
      then have "n = length rows" using Suc.prems(4) by simp
      then show ?thesis using w' Suc.prems(3) by (simp add: page 0)
    next
      case False
      have "int (length ?page) < fp_pageSize fp" using \<open>length rows - n < ?L\<close> L by (simp add: page)
      then have "fetchLoop net fp ps w = Some (Inr (ps2, False), w')" using w'(2) False by (simp only: page if_False if_True)
      then show ?thesis using w'(1) Suc.prems(4) by (simp add: page 0 ps2_def)
    qed
  next
    case False
    then have len: "length ?page = ?L" by simp
    have d: "(length rows - n) div ?L = Suc ((length rows - (n + ?L)) div ?L)"
      using False L(1) le_div_geq [of ?L "length rows - n"] by simp
    have "?page \<noteq> []" using len L(1) by (metis list.size(3) less_numeral_extra(3))
    then have "fetchLoop net fp ps w = fetchLoop net fp ps2 w'" using w'(2) len L(2) by (metis less_irrefl)
    moreover have "\<exists>ps' w''. fetchLoop net fp ps2 w' = Some (Inr (ps', False), w'')
      \<and> live (k - Suc ((length rows - (n + ?L)) div ?L)) w''
      \<and> ps_quads ps' = ps_quads ps2 @ filter (in_graph fp) (drop (n + ?L) rows) \<and> ps_offset ps' = int (length rows)"
    proof (rule Suc.IH [OF w'(1)])
      show "(length rows - (n + ?L)) div ?L < k" using Suc.prems(2) d by simp
      show "ps_offset ps2 = int (n + ?L)" using len by (simp add: ps2_def)
      show "n + ?L \<le> length rows" using False Suc.prems(4) by linarith
    qed
    moreover have "ps_quads ps2 @ filter (in_graph fp) (drop (n + ?L) rows) = ps_quads ps @ filter (in_graph fp) (drop n rows)"
    proof -
      have "filter (in_graph fp) (drop n rows) = filter (in_graph fp) (?page @ drop (n + ?L) rows)"
        by (metis add.commute append_take_drop_id drop_drop)
      then show ?thesis by (simp add: ps2_def)
    qed
    ultimately show ?thesis unfolding d diff_Suc_Suc by metis
  qed
qed simp

lemma fetch_complete:
  assumes "live k w" "length rows div nat (fp_pageSize fp) < k" "length rows \<le> 1000000"
    and "map_of cps (getSyncCheckpointKey (fp_remotePeerId fp) (fp_contextGraphId fp) (fp_includeSharedMemory fp) (fp_phase fp)) = None"
  shows "\<exists>res w'. fetchSyncPages net fp cps w = Some (Inr res, w') \<and> live (k - Suc (length rows div nat (fp_pageSize fp))) w'
    \<and> pg_quads res = filter (in_graph fp) rows \<and> pg_completed res \<and> pg_resumedFromOffset res = 0
    \<and> pg_checkpointKey res = getSyncCheckpointKey (fp_remotePeerId fp) (fp_contextGraphId fp) (fp_includeSharedMemory fp) (fp_phase fp)"
  using loop_complete [of k w 0 "\<lparr>ps_quads = [], ps_bytes = 0, ps_offset = 0\<rparr>"] assms
  by (auto simp: fetchSyncPages_def Let_def)

end

section \<open>The responder as a peer\<close>

text \<open>
  A link that delivers: a request without authentication reaches the responder, its answer comes
  back, and both take \<open>latency\<close> milliseconds.
\<close>

definition peer_net :: "'w Responder \<Rightarrow> string \<Rightarrow> int \<Rightarrow> ('w AuthState \<times> int) SyncNet" where
  "peer_net rs self latency =
     \<lparr>net_now = snd,
      net_build = (\<lambda>cg offset limit ws peer ph w. (Inr (plain_request_text cg offset limit ws (Some ph)), w)),
      net_send = (\<lambda>peer request tmo (s, t).
        let (res, s') = sync_handler rs t request self s in (res, (s', t + latency))),
      net_pause = (\<lambda>attempt err (s, t). (s, t + 1000 * 2 ^ attempt))\<rparr>"

definition public_graph :: "'w Responder \<Rightarrow> 'w AuthState \<Rightarrow> string \<Rightarrow> bool" where
  "public_graph rs s cg \<longleftrightarrow> plain_cg cg \<and> isPrivateContextGraph (rs_query rs (as_world s)) cg = Inr False
     \<and> rs_sharedMemoryTtlMs rs \<le> 0 \<and> rs_pageSize rs = SYNC_PAGE_SIZE"

definition holds_rows :: "'w Responder \<Rightarrow> 'w AuthState \<Rightarrow> string \<Rightarrow> bool \<Rightarrow> SyncPhase \<Rightarrow> Quad list \<Rightarrow> bool" where
  "holds_rows rs s cg ws ph rows \<longleftrightarrow> answers_pages (rs_query rs (as_world s)) (page_query cg ws ph) SYNC_PAGE_SIZE rows
     \<and> rows_fit cg ws ph rows \<and> (\<forall>q \<in> set rows. quad_ok q)"

lemma withRetry_success: "0 < n \<Longrightarrow> fn s = (Inr v, s') \<Longrightarrow> withRetry r p n fn s = (Inr v, s')"
  by (cases n) (simp_all add: withRetry_def)

lemma peer_sends:
  assumes "public_graph rs s cg" "holds_rows rs s cg ws ph rows" "0 \<le> offset"
  shows "sendSyncRequest (peer_net rs self latency) (fetch_params peer cg ws ph g deadline) offset tmo (s, t)
    = (Inr (nquads_text (take (nat SYNC_PAGE_SIZE) (drop (nat (page_offset offset)) rows))), (s, t + latency))"
proof -
  have "sync_handler rs t (plain_request_text cg offset SYNC_PAGE_SIZE ws (Some ph)) self s
      = (Inr (nquads_text (take (nat SYNC_PAGE_SIZE) (drop (nat (page_offset offset)) rows))), s)"
    using handler_window [of rs cg s ws ph rows offset t self] assms
    by (simp add: public_graph_def holds_rows_def SYNC_PAGE_SIZE_def)
  then show ?thesis unfolding sendSyncRequest_def
    by (intro withRetry_success) (simp_all add: fetch_params_def peer_net_def bindM_def)
qed

definition enough_time :: "'w AuthState \<Rightarrow> int \<Rightarrow> int \<Rightarrow> nat \<Rightarrow> 'w AuthState \<times> int \<Rightarrow> bool" where
  "enough_time s latency deadline k w \<longleftrightarrow> fst w = s \<and> 0 \<le> latency \<and> snd w + int k * latency \<le> deadline"

lemma responder_window_peer:
  assumes "public_graph rs s cg" "holds_rows rs s cg ws ph rows"
  shows "window_peer (peer_net rs self latency) (fetch_params peer cg ws ph g deadline) rows (enough_time s latency deadline)"
proof
  let ?fp = "fetch_params peer cg ws ph g deadline"
  show "0 < fp_pageSize ?fp" by (simp add: fetch_params_def SYNC_PAGE_SIZE_def)
  show "t \<noteq> [] \<and> hd t \<noteq> CHR ''<''" if "denial_text ?fp t" for t
    using that by (auto simp: denial_text_def fetch_params_def)
  show "net_now (peer_net rs self latency) w \<le> fp_deadline ?fp" if "enough_time s latency deadline (Suc k) w" for k w
  proof -
    have "0 \<le> int (Suc k) * latency" "snd w + int (Suc k) * latency \<le> deadline"
      using that unfolding enough_time_def by auto
    then have "snd w \<le> deadline" by linarith
    then show ?thesis by (simp add: peer_net_def fetch_params_def)
  qed
  show "\<exists>w'. sendSyncRequest (peer_net rs self latency) ?fp offset (page_timeout ?fp (net_now (peer_net rs self latency) w)) w
      = (Inr (nquads_text (take (nat (fp_pageSize ?fp)) (drop (nat (min offset 1000000)) rows))), w')
      \<and> enough_time s latency deadline k w'"
    if live: "enough_time s latency deadline (Suc k) w" and off: "0 \<le> offset" "safe_integer offset" for k w offset
  proof -
    obtain t where w: "w = (s, t)" using live by (cases w) (auto simp: enough_time_def)
    have "enough_time s latency deadline k (s, t + latency)" using live by (simp add: enough_time_def w algebra_simps)
    moreover have "fp_pageSize ?fp = SYNC_PAGE_SIZE" by (simp add: fetch_params_def)
    moreover have "page_offset offset = min offset 1000000" using off by (simp add: page_offset_def)
    ultimately show ?thesis using peer_sends [OF assms off(1)] w by metis
  qed
  show "quad_ok q" if "q \<in> set rows" for q using assms(2) that by (simp add: holds_rows_def)
qed

locale public_responder =
  fixes rs :: "'w Responder" and s :: "'w AuthState" and cg :: string and ws :: bool and ph :: SyncPhase
    and rows :: "Quad list" and self peer g :: string and latency deadline :: int
  assumes public: "public_graph rs s cg" and holds: "holds_rows rs s cg ws ph rows"

sublocale public_responder \<subseteq> window_peer "peer_net rs self latency" "fetch_params peer cg ws ph g deadline" rows
    "enough_time s latency deadline"
  using public holds by (rule responder_window_peer)

section \<open>A whole synchronisation\<close>

definition pages :: "Quad list \<Rightarrow> nat" where
  "pages rows = Suc (length rows div nat SYNC_PAGE_SIZE)"

definition no_checkpoint :: "string \<Rightarrow> string \<Rightarrow> bool \<Rightarrow> checkpoints \<Rightarrow> bool" where
  "no_checkpoint peer cg ws cps \<longleftrightarrow> (\<forall>ph. map_of cps (getSyncCheckpointKey peer cg ws ph) = None)"

lemma phase_complete:
  assumes "public_graph rs s cg" "holds_rows rs s cg ws ph rows" "length rows \<le> 1000000"
    and "ag_net ag = peer_net rs self latency" "ss_net st = w" "enough_time s latency deadline (pages rows + k) w"
    and "no_checkpoint peer cg ws (ss_checkpoints st)"
  shows "\<exists>res w'. fetch_phase ag (fetch_params peer cg ws ph g deadline) st = Some (Inr res, st\<lparr>ss_net := w'\<rparr>)
    \<and> enough_time s latency deadline k w'
    \<and> pg_quads res = filter (in_graph (fetch_params peer cg ws ph g deadline)) rows \<and> pg_completed res
    \<and> pg_resumedFromOffset res = 0 \<and> pg_checkpointKey res = getSyncCheckpointKey peer cg ws ph"
proof -
  let ?fp = "fetch_params peer cg ws ph g deadline"
  have L: "fp_pageSize ?fp = SYNC_PAGE_SIZE" "fp_remotePeerId ?fp = peer" "fp_contextGraphId ?fp = cg"
    "fp_includeSharedMemory ?fp = ws" "fp_phase ?fp = ph" by (simp_all add: fetch_params_def)
  have lt: "length rows div nat (fp_pageSize ?fp) < pages rows + k"
    and k: "pages rows + k - Suc (length rows div nat (fp_pageSize ?fp)) = k" by (simp_all add: pages_def L(1))
  have wp: "window_peer (peer_net rs self latency) ?fp rows (enough_time s latency deadline)"
    by (rule responder_window_peer [OF assms(1,2)])
  have ck: "map_of (ss_checkpoints st) (getSyncCheckpointKey (fp_remotePeerId ?fp) (fp_contextGraphId ?fp)
      (fp_includeSharedMemory ?fp) (fp_phase ?fp)) = None"
    using assms(7) by (simp add: no_checkpoint_def L)
  obtain res w' where r: "fetchSyncPages (peer_net rs self latency) ?fp (ss_checkpoints st) w = Some (Inr res, w')"
    "enough_time s latency deadline k w'" "pg_quads res = filter (in_graph ?fp) rows" "pg_completed res"
    "pg_resumedFromOffset res = 0" "pg_checkpointKey res = getSyncCheckpointKey peer cg ws ph"
    using window_peer.fetch_complete [OF wp assms(6) lt assms(3) ck] unfolding k L(2-5) by blast
  then have "fetch_phase ag ?fp st = Some (Inr res, st\<lparr>ss_net := w'\<rparr>)" by (simp add: fetch_phase_def assms(4,5))
  then show ?thesis using r by blast
qed

lemma both_complete:
  assumes "public_graph rs s cg" "holds_rows rs s cg ws MetaPhase M" "holds_rows rs s cg ws DataPhase D"
    and "length M \<le> 1000000" "length D \<le> 1000000"
    and "ag_net ag = peer_net rs self latency" "enough_time s latency deadline (pages M + pages D) (ss_net st)"
    and "no_checkpoint peer cg ws (ss_checkpoints st)"
  shows "\<exists>mr dr w'. fetch_both ag (fetch_params peer cg ws MetaPhase gm deadline) (fetch_params peer cg ws DataPhase gd deadline) st
      = Some (Inr (mr, dr), st\<lparr>ss_net := w'\<rparr>) \<and> fst w' = s
    \<and> pg_quads mr = filter (in_graph (fetch_params peer cg ws MetaPhase gm deadline)) M \<and> pg_completed mr
    \<and> pg_checkpointKey mr = getSyncCheckpointKey peer cg ws MetaPhase
    \<and> pg_quads dr = filter (in_graph (fetch_params peer cg ws DataPhase gd deadline)) D \<and> pg_completed dr
    \<and> pg_checkpointKey dr = getSyncCheckpointKey peer cg ws DataPhase"
proof -
  obtain mr w1 where mr: "fetch_phase ag (fetch_params peer cg ws MetaPhase gm deadline) st = Some (Inr mr, st\<lparr>ss_net := w1\<rparr>)"
    "enough_time s latency deadline (pages D) w1"
    "pg_quads mr = filter (in_graph (fetch_params peer cg ws MetaPhase gm deadline)) M" "pg_completed mr"
    "pg_checkpointKey mr = getSyncCheckpointKey peer cg ws MetaPhase"
    using phase_complete [OF assms(1,2,4,6) refl assms(7,8), of gm] by blast
  obtain dr w2 where dr: "fetch_phase ag (fetch_params peer cg ws DataPhase gd deadline) (st\<lparr>ss_net := w1\<rparr>)
      = Some (Inr dr, st\<lparr>ss_net := w1\<rparr>\<lparr>ss_net := w2\<rparr>)"
    "enough_time s latency deadline 0 w2"
    "pg_quads dr = filter (in_graph (fetch_params peer cg ws DataPhase gd deadline)) D" "pg_completed dr"
    "pg_checkpointKey dr = getSyncCheckpointKey peer cg ws DataPhase"
    using phase_complete [OF assms(1,3,5,6), of "st\<lparr>ss_net := w1\<rparr>" w1 deadline 0 peer gd] mr(2) assms(8) by auto
  have "fetch_both ag (fetch_params peer cg ws MetaPhase gm deadline) (fetch_params peer cg ws DataPhase gd deadline) st
      = Some (Inr (mr, dr), st\<lparr>ss_net := w2\<rparr>)" by (simp add: fetch_both_def mr(1) dr(1))
  then show ?thesis using mr(3-5) dr(2-5) enough_time_def [of s latency deadline 0 w2] by blast
qed

definition keeps_graphs :: "string \<Rightarrow> string \<Rightarrow> Quad list \<Rightarrow> bool" where
  "keeps_graphs cg g rows \<longleftrightarrow> list_all (\<lambda>q. graph q = g \<or> startsWith (graph q) (''did:dkg:context-graph:'' @ cg @ ''/'')) rows"

lemma keeps_graphs_filter: "keeps_graphs cg g rows \<Longrightarrow> filter (in_graph (fetch_params peer cg ws ph g deadline)) rows = rows"
  by (simp add: keeps_graphs_def list_all_iff filter_id_conv in_graph_def fetch_params_def)

definition drop_checkpoints :: "string \<Rightarrow> string \<Rightarrow> bool \<Rightarrow> checkpoints \<Rightarrow> checkpoints" where
  "drop_checkpoints peer cg ws cps =
     filter (\<lambda>p. fst p \<noteq> getSyncCheckpointKey peer cg ws DataPhase)
       (filter (\<lambda>p. fst p \<noteq> getSyncCheckpointKey peer cg ws MetaPhase) cps)"

lemma no_checkpoint_drop: "no_checkpoint peer cg ws cps \<Longrightarrow> drop_checkpoints peer cg ws cps = cps"
proof -
  assume n: "no_checkpoint peer cg ws cps"
  have "fst p \<noteq> getSyncCheckpointKey peer cg ws ph" if "p \<in> set cps" for p ph
    using n that by (metis map_of_eq_None_iff image_eqI no_checkpoint_def)
  then show ?thesis by (simp add: drop_checkpoints_def filter_id_conv)
qed

text \<open>A batch that the check passes as a whole.\<close>

definition passes :: "SyncEngine \<Rightarrow> Quad list \<Rightarrow> Quad list \<Rightarrow> bool" where
  "passes en D M \<longleftrightarrow> (\<forall>acc. vr_data (worker_verifySyncedData en D M acc) = D \<and> vr_meta (worker_verifySyncedData en D M acc) = M
     \<and> vr_rejected (worker_verifySyncedData en D M acc) = 0)"

lemma honest_passes: "honest_batch en isoDate pubs D M \<Longrightarrow> passes en D M"
  using worker.honest_accepted by (simp add: passes_def worker_verifySyncedData_def)

lemma unclaimed_passes: "kcMerkleRoots worker_stripLiteral M = [] \<Longrightarrow> passes en D M"
  by (simp add: passes_def worker_verifySyncedData_def verify_synced_def Let_def)

lemma passing_processed:
  assumes "passes en D M" "D \<noteq> []" "M \<noteq> []"
  shows "db_verifiedData (processDurableBatch en D M acc) = D" "db_verifiedMeta (processDurableBatch en D M acc) = M"
    "db_rejectedKcs (processDurableBatch en D M acc) = 0" "db_emptyResponses (processDurableBatch en D M acc) = 0"
    "db_dataRejectedMissingMeta (processDurableBatch en D M acc) = 0" "db_metaOnlyResponses (processDurableBatch en D M acc) = 0"
  using assms by (simp_all add: passes_def processDurableBatch_def Let_def)

lemma durable_graph_complete:
  assumes pub: "public_graph rs s cg" and rows: "holds_rows rs s cg False MetaPhase M" "holds_rows rs s cg False DataPhase D"
    and len: "length M \<le> 1000000" "length D \<le> 1000000"
    and ag: "ag_net ag = peer_net rs self latency" "\<And>qs. ag_insert ag qs = None"
    and w: "ss_net st = (s, t)" "0 \<le> latency"
    and time: "int (pages M + pages D) * latency \<le> max SYNC_MIN_GRAPH_BUDGET_MS (SYNC_TOTAL_TIMEOUT_MS div max 1 (int n))"
    and cps: "no_checkpoint peer cg False (ss_checkpoints st)"
    and batch: "passes (ag_engine ag) D M" "D \<noteq> []" "M \<noteq> []" "keeps_graphs cg (graph_uri cg) D"
  shows "\<exists>sm' st'. durable_graph ag peer n cg (sm, st) = Some (Inr (), sm', st')
    \<and> ss_store st' = ss_store st @ D @ M \<and> ss_checkpoints st' = ss_checkpoints st \<and> fst (ss_net st') = s
    \<and> ds_insertedTriples sm' = ds_insertedTriples sm + length D + length M \<and> ds_rejectedKcs sm' = ds_rejectedKcs sm
    \<and> ds_failedPeers sm' = ds_failedPeers sm \<and> ds_deniedPhases sm' = ds_deniedPhases sm"
proof -
  define deadline where "deadline = createContextGraphSyncDeadline t n"
  have now: "net_now (ag_net ag) (ss_net st) = t" by (simp add: ag(1) w(1) peer_net_def)
  have live: "enough_time s latency deadline (pages M + pages D) (ss_net st)"
    using time w by (simp add: enough_time_def deadline_def createContextGraphSyncDeadline_def)
  obtain mr dr w' where f: "fetch_both ag (fetch_params peer cg False MetaPhase (meta_uri cg) deadline)
      (fetch_params peer cg False DataPhase (graph_uri cg) deadline) st = Some (Inr (mr, dr), st\<lparr>ss_net := w'\<rparr>)" "fst w' = s"
    and q: "pg_quads mr = filter (in_graph (fetch_params peer cg False MetaPhase (meta_uri cg) deadline)) M" "pg_completed mr"
      "pg_quads dr = filter (in_graph (fetch_params peer cg False DataPhase (graph_uri cg) deadline)) D" "pg_completed dr"
    and key: "pg_checkpointKey mr = getSyncCheckpointKey peer cg False MetaPhase"
      "pg_checkpointKey dr = getSyncCheckpointKey peer cg False DataPhase"
    using both_complete [OF pub rows len ag(1) live cps, of "meta_uri cg" "graph_uri cg"] by blast
  have "keeps_graphs cg (meta_uri cg) M"
    using rows(1) by (simp add: holds_rows_def rows_fit_def page_graph_def keeps_graphs_def list_all_iff)
  then have qs: "pg_quads mr = M" "pg_quads dr = D" using q(1,3) keeps_graphs_filter batch(4) by simp_all
  have "settle_checkpoint dr (settle_checkpoint mr (ss_checkpoints st)) = ss_checkpoints st"
    using no_checkpoint_drop [OF cps] q(2,4) key by (simp add: settle_checkpoint_def drop_checkpoints_def)
  then show ?thesis
    unfolding durable_graph_def case_prod_conv Let_def now deadline_def [symmetric] f(1) option.case sum.case prod.case durable_batch_def qs
    using passing_processed [OF batch(1-3)] ag(2) batch(2,3) f(2)
    by (simp add: bindM_def modM_def ret_def insert_quads_def add_inserted_def)
qed

section \<open>Pages that never end\<close>

text \<open>
  A peer that answers every offset with a full page: the loop ends at the deadline only. The responder
  does so for a graph that reaches beyond its offset limit by a page.
\<close>

lemma full_pages_time_out:
  assumes page_size: "0 < fp_pageSize fp" and not_denied: "\<And>t. denial_text fp t \<Longrightarrow> t \<noteq> [] \<and> hd t \<noteq> CHR ''<''"
    and full: "\<And>w offset. 0 \<le> offset \<Longrightarrow> I w \<Longrightarrow> \<exists>page w'. I w' \<and>
      sendSyncRequest net fp offset (page_timeout fp (net_now net w)) w = (Inr (nquads_text page), w')
      \<and> int (length page) = fp_pageSize fp \<and> (\<forall>q \<in> set page. quad_ok q)"
  shows "fetchLoop net fp ps w = Some y \<Longrightarrow> 0 \<le> ps_offset ps \<Longrightarrow> I w \<Longrightarrow> \<exists>ps' w'. y = (Inr (ps', True), w')"
proof -
  let ?P = "\<lambda>net' fp' ps w y. net' = net \<longrightarrow> fp' = fp \<longrightarrow> 0 \<le> ps_offset ps \<longrightarrow> I w \<longrightarrow> (\<exists>ps' w'. y = (Inr (ps', True), w'))"
  assume loop: "fetchLoop net fp ps w = Some y" and ps: "0 \<le> ps_offset ps" "I w"
  have "?P net fp ps w y"
    using loop
  proof (rule fetchLoop.raw_induct [where P = ?P, rotated], goal_cases)
    case (1 rec net' fp' ps w y)
    show ?case
    proof (intro impI)
      assume same: "net' = net" "fp' = fp" and off: "0 \<le> ps_offset ps" and I: "I w"
      obtain page w' where p: "I w'" "int (length page) = fp_pageSize fp" "\<forall>q \<in> set page. quad_ok q"
        "sendSyncRequest net fp (ps_offset ps) (page_timeout fp (net_now net w)) w = (Inr (nquads_text page), w')"
        using full [OF off I] by blast
      have ne: "page \<noteq> []" using p(2) page_size by auto
      have nd: "\<not> denial_text fp (nquads_text page)" using not_denied nquads_text_ends(1) [OF ne] by blast
      have parsed: "parseAndFilterNQuads (nquads_text page) (fp_graphUri fp) (fp_contextGraphId fp)
          = \<lparr>pr_quads = filter (in_graph fp) page, pr_totalQuads = length page\<rparr>"
        unfolding parseAndFilterNQuads_def parseNQuads_text [OF p(3)] in_graph_def [abs_def] by (simp add: Let_def)
      show "\<exists>ps' w'. y = (Inr (ps', True), w')"
      proof (cases "fp_deadline fp < net_now net w")
        case True
        then show ?thesis using 1(2) by (auto simp: same)
      next
        case False
        define ps2 where "ps2 = ps\<lparr>ps_bytes := ps_bytes ps + length (utf8 (nquads_text page)),
          ps_quads := ps_quads ps @ filter (in_graph fp) page, ps_offset := ps_offset ps + int (length page)\<rparr>"
        have "rec net fp ps2 w' = Some y"
          using 1(2) False nd p(2) ne unfolding denial_text_def
          by (simp add: same p(4) nquads_text_trim nquads_text_empty parsed Let_def ps2_def)
        then show ?thesis using 1(1) [of net fp ps2 w' y] off p(1) by (simp add: ps2_def)
      qed
    qed
  qed
  then show ?thesis using ps by simp
qed

lemma oversized_graph_never_complete:
  assumes "public_graph rs s cg" "holds_rows rs s cg ws ph rows" "1000500 \<le> length rows"
    and "fetchSyncPages (peer_net rs self latency) (fetch_params peer cg ws ph g deadline) [] (s, t) = Some (Inr res, w')"
  shows "\<not> pg_completed res"
proof -
  let ?fp = "fetch_params peer cg ws ph g deadline" and ?net = "peer_net rs self latency"
  have L: "fp_pageSize ?fp = 500" by (simp add: fetch_params_def SYNC_PAGE_SIZE_def)
  have full: "\<exists>page w'. fst w' = s \<and> sendSyncRequest ?net ?fp offset (page_timeout ?fp (net_now ?net w)) w = (Inr (nquads_text page), w')
      \<and> int (length page) = fp_pageSize ?fp \<and> (\<forall>q \<in> set page. quad_ok q)" if o: "0 \<le> offset" and w: "fst w = s" for w offset
  proof (intro exI conjI)
    let ?page = "take (nat SYNC_PAGE_SIZE) (drop (nat (page_offset offset)) rows)"
    show "sendSyncRequest ?net ?fp offset (page_timeout ?fp (net_now ?net w)) w = (Inr (nquads_text ?page), (s, snd w + latency))"
      using peer_sends [OF assms(1,2) o, of self latency peer g deadline _ "snd w"] w by (metis prod.collapse)
    have "nat (page_offset offset) \<le> 1000000" by (simp add: page_offset_def)
    then show "int (length ?page) = fp_pageSize ?fp" using assms(3) by (simp add: L SYNC_PAGE_SIZE_def)
    show "\<forall>q \<in> set ?page. quad_ok q" using assms(2) unfolding holds_rows_def by (meson in_set_dropD in_set_takeD)
  qed simp
  have nd: "t \<noteq> [] \<and> hd t \<noteq> CHR ''<''" if "denial_text ?fp t" for t
    using that by (auto simp: denial_text_def fetch_params_def)
  let ?start = "\<lparr>ps_quads = [], ps_bytes = 0, ps_offset = 0\<rparr>"
  obtain y where y: "fetchLoop ?net ?fp ?start (s, t) = Some y"
    using assms(4) by (cases "fetchLoop ?net ?fp ?start (s, t)") (simp_all add: fetchSyncPages_def)
  have "\<exists>ps' w'. y = (Inr (ps', True), w')"
    by (rule full_pages_time_out [where I = "\<lambda>w. fst w = s", OF _ nd full y]) (simp_all add: L)
  then obtain ps' w'' where "fetchLoop ?net ?fp ?start (s, t) = Some (Inr (ps', True), w'')" using y by blast
  then have "res = \<lparr>pg_quads = ps_quads ps', pg_bytesReceived = ps_bytes ps', pg_resumedFromOffset = 0, pg_nextOffset = ps_offset ps',
      pg_checkpointKey = pg_checkpointKey res, pg_completed = False\<rparr>"
    using assms(4) by (auto simp: fetchSyncPages_def Let_def)
  then show ?thesis by (metis SyncPageResult.select_convs(6))
qed

end
