(* ===== verification/SyncSelect.thy ===== *)
theory SyncSelect
  imports SyncComplete
begin

text \<open>
  What the responder's queries for the pages of a context graph select from a store: the conditions of the
  \<^verbatim>\<open>FILTER\<close>s in \<^verbatim>\<open>packages/agent/src/sync/responder/sync-handler.ts\<close> as predicates on the quads of the store.
  For the metadata the \<^verbatim>\<open>FILTER\<close> is bounded from both sides: its \<^verbatim>\<open>EXISTS\<close> groups use \<^verbatim>\<open>?s\<close> and \<^verbatim>\<open>?lc\<close> in nested
  groups that do not bind them, which SPARQL engines read differently, so the upper bound takes every
  group to match whenever some reading does, and the lower bound takes none to match.
\<close>

section \<open>Conditions of the queries\<close>

text \<open>A lifecycle record outside the working memory.\<close>

definition shared_lifecycle :: "string \<Rightarrow> Quad list \<Rightarrow> string \<Rightarrow> bool" where
  "shared_lifecycle cg S lc \<longleftrightarrow> list_ex (\<lambda>q. graph q = meta_uri cg \<and> subject q = lc \<and> predicate q = DKG @ ''memoryLayer''
     \<and> object q \<noteq> lit ''WM'') S"

definition durable_data_selected :: "string \<Rightarrow> Quad list \<Rightarrow> Quad \<Rightarrow> bool" where
  "durable_data_selected cg S q \<longleftrightarrow>
     (graph q = ''did:dkg:context-graph:'' @ cg \<or> startsWith (graph q) (''did:dkg:context-graph:'' @ cg @ ''/''))
     \<and> \<not> endsWith (graph q) ''/_meta'' \<and> \<not> str_includes (graph q) ''/_private''
     \<and> (\<not> str_includes (graph q) ''/assertion/''
        \<or> list_ex (\<lambda>l. graph l = meta_uri cg \<and> predicate l = DKG @ ''assertionGraph'' \<and> object l = graph q
             \<and> shared_lifecycle cg S (subject l)) S)"

definition durable_meta_named :: "string \<Rightarrow> string \<Rightarrow> bool" where
  "durable_meta_named cg u \<longleftrightarrow> u = ''did:dkg:context-graph:'' @ cg \<or> startsWith u ''did:dkg:activity:''
     \<or> startsWith u ''did:dkg:join-request:''"

definition durable_meta_possible :: "string \<Rightarrow> Quad list \<Rightarrow> string \<Rightarrow> bool" where
  "durable_meta_possible cg S u \<longleftrightarrow> durable_meta_named cg u
     \<or> list_ex (\<lambda>l. graph l = meta_uri cg \<and> shared_lifecycle cg S (subject l) \<and>
         (subject l = u
          \<or> predicate l = DKG @ ''assertionGraph'' \<and> object l = u
          \<or> predicate l = DKG @ ''assertionName'' \<and> str_includes u ''/assertion/'')) S
     \<or> list_ex (\<lambda>e. graph e = meta_uri cg \<and> subject e = u \<and> predicate e \<in> {PROV @ ''generated'', PROV @ ''used''}
         \<and> shared_lifecycle cg S (object e)) S"

text \<open>The rows that the queries may return for the store \<open>S\<close>, in any order.\<close>

definition selected_data :: "string \<Rightarrow> Quad list \<Rightarrow> Quad list \<Rightarrow> bool" where
  "selected_data cg S D \<longleftrightarrow> set D = {q \<in> set S. durable_data_selected cg S q}"

definition selected_meta :: "string \<Rightarrow> Quad list \<Rightarrow> Quad list \<Rightarrow> bool" where
  "selected_meta cg S M \<longleftrightarrow>
     {q \<in> set S. graph q = meta_uri cg \<and> durable_meta_named cg (subject q)} \<subseteq> set M
     \<and> set M \<subseteq> {q \<in> set S. graph q = meta_uri cg \<and> durable_meta_possible cg S (subject q)}"

lemma selected_data_graphs: "selected_data cg S D \<Longrightarrow> keeps_graphs cg (graph_uri cg) D"
  by (auto simp: selected_data_def keeps_graphs_def list_all_iff durable_data_selected_def graph_uri_def contextGraphDataUri_def)

section \<open>Universal asset locators\<close>

text \<open>
  The locators that \<^verbatim>\<open>publish\<close> gives: \<^verbatim>\<open>did:dkg:\<close>, the id of the blockchain, the publisher's address and a number
  (or the session for a tentative one). Only the id of the blockchain comes from the configuration.
\<close>

definition ual_parts :: "string \<Rightarrow> string list \<Rightarrow> string" where
  "ual_parts chain ps = ''did:dkg:'' @ chain @ concat (map (\<lambda>p. CHR ''/'' # p) ps)"

definition locator_part :: "string \<Rightarrow> bool" where
  "locator_part p \<longleftrightarrow> CHR ''/'' \<notin> set p \<and> p \<noteq> [] \<and> hd p \<noteq> CHR ''a''"

definition chain_name :: "string \<Rightarrow> bool" where
  "chain_name chain \<longleftrightarrow> CHR ''/'' \<notin> set chain
     \<and> list_all (\<lambda>r. \<not> startsWith chain r) [''context-graph:'', ''activity:'', ''join-request:'']"

definition locator :: "string \<Rightarrow> bool" where
  "locator u \<longleftrightarrow> (\<exists>chain ps. u = ual_parts chain ps \<and> chain_name chain \<and> ps \<noteq> [] \<and> list_all locator_part ps)"

fun slash_a :: "string \<Rightarrow> bool" where
  "slash_a (x # y # s) \<longleftrightarrow> x = CHR ''/'' \<and> y = CHR ''a'' \<or> slash_a (y # s)"
| "slash_a _ \<longleftrightarrow> False"

lemma slash_a_found: "slash_a (x @ CHR ''/'' # CHR ''a'' # y)"
proof (induction x)
  case (Cons c x)
  then show ?case by (cases x) simp_all
qed simp

lemma slash_a_skip: "CHR ''/'' \<notin> set x \<Longrightarrow> slash_a (x @ y) \<longleftrightarrow> slash_a y"
proof (induction x)
  case (Cons c x)
  then show ?case by (cases "x @ y") auto
qed simp

lemma slash_a_parts: "list_all locator_part ps \<Longrightarrow> \<not> slash_a (concat (map (\<lambda>p. CHR ''/'' # p) ps))"
proof (induction ps)
  case (Cons p ps)
  then obtain c cs where p: "p = c # cs" "c \<noteq> CHR ''a''" by (cases p) (auto simp: locator_part_def)
  have "\<not> slash_a (p @ concat (map (\<lambda>p. CHR ''/'' # p) ps))"
    using Cons slash_a_skip [of p] by (simp add: locator_part_def)
  then show ?case using p by simp
qed simp

lemma locator_no_assertion:
  assumes "locator u" shows "\<not> str_includes u ''/assertion/''"
proof
  assume "str_includes u ''/assertion/''"
  then obtain n where "startsWith (drop n u) ''/assertion/''" using indexOf_Some by (auto simp: str_includes_def)
  then obtain t where "drop n u = ''/assertion/'' @ t" by (metis startsWith_prefix prefix_def)
  then have "u = take n u @ ''/assertion/'' @ t" by (metis append_take_drop_id)
  then have "slash_a u" using slash_a_found [of "take n u" "''ssertion/'' @ t"] by simp
  moreover obtain chain ps where u: "u = ual_parts chain ps" "CHR ''/'' \<notin> set chain" "list_all locator_part ps"
    using assms by (auto simp: locator_def chain_name_def)
  have "\<not> slash_a u"
    using slash_a_skip [of "''did:dkg:'' @ chain"] slash_a_parts [OF u(3)] u(1,2) by (simp add: ual_parts_def)
  ultimately show False by simp
qed

lemma startsWith_split:
  assumes "startsWith (x @ c # y) r" "c \<notin> set r" shows "startsWith x r"
proof (cases "length r \<le> length x")
  case True
  then show ?thesis using assms(1) by (simp add: startsWith_def)
next
  case False
  have "take (length r) (x @ c # y) ! length x = c" using False by (simp add: nth_append)
  then show ?thesis using False assms by (metis linorder_not_le nth_mem startsWith_def)
qed

lemma locator_not_named:
  assumes "locator u" shows "\<not> durable_meta_named cg u" "\<not> startsWith u ''did:dkg:context-graph:''" "\<not> startsWith u ''urn:''"
proof -
  obtain chain p ps where u: "u = ual_parts chain (p # ps)" "chain_name chain"
    using assms by (auto simp: locator_def neq_Nil_conv)
  define rest where "rest = p @ concat (map (\<lambda>p. CHR ''/'' # p) ps)"
  have u': "u = ''did:dkg:'' @ chain @ CHR ''/'' # rest" using u(1) by (simp add: ual_parts_def rest_def)
  have "\<not> startsWith u (''did:dkg:'' @ r)" if "r \<in> {''context-graph:'', ''activity:'', ''join-request:''}" for r
  proof
    assume "startsWith u (''did:dkg:'' @ r)"
    then have "startsWith (chain @ CHR ''/'' # rest) r" by (simp add: u' startsWith_def)
    moreover have "CHR ''/'' \<notin> set r" using that by auto
    ultimately show False using startsWith_split that u(2) by (auto simp: chain_name_def)
  qed
  from this [of "''context-graph:''"] this [of "''activity:''"] this [of "''join-request:''"]
  have n: "\<not> startsWith u ''did:dkg:context-graph:''" "\<not> startsWith u ''did:dkg:activity:''" "\<not> startsWith u ''did:dkg:join-request:''"
    by simp_all
  have "startsWith (''did:dkg:context-graph:'' @ cg) ''did:dkg:context-graph:''" by (simp add: startsWith_def)
  then show "\<not> durable_meta_named cg u" using n by (auto simp: durable_meta_named_def)
  show "\<not> startsWith u ''did:dkg:context-graph:''" "\<not> startsWith u ''urn:''" using n by (simp_all add: u' startsWith_def)
qed

lemma locator_ka:
  assumes "locator u" shows "locator (u @ ''/'' @ show_nat n)"
proof -
  obtain chain ps where u: "u = ual_parts chain ps" "chain_name chain" "ps \<noteq> []" "list_all locator_part ps"
    using assms by (auto simp: locator_def)
  have d: "is_digit c" if "c \<in> set (show_nat n)" for c using show_nat_digits that .
  have "show_nat n \<noteq> []" by (rule show_nat_nonempty)
  then have "locator_part (show_nat n)" using d [of "hd (show_nat n)"] d [of "CHR ''/''"] by (auto simp: locator_part_def is_digit_def)
  then have "list_all locator_part (ps @ [show_nat n])" using u(4) by simp
  moreover have "u @ ''/'' @ show_nat n = ual_parts chain (ps @ [show_nat n])" using u(1) by (simp add: ual_parts_def)
  ultimately show ?thesis using u(2) by (metis locator_def append_is_Nil_conv not_Cons_self2)
qed

section \<open>The metadata of published collections\<close>

text \<open>
  What the program writes into the metadata graph: lifecycle statements have the subjects of
  \<^verbatim>\<open>assertionLifecycleUri\<close> (or an assertion graph) and their events, assertion graphs are graphs of a context graph, and
  a root is claimed of a locator only.
\<close>

definition lifecycle_subject :: "string \<Rightarrow> bool" where
  "lifecycle_subject u \<longleftrightarrow> startsWith u ''urn:dkg:assertion:'' \<or> startsWith u ''did:dkg:context-graph:''"

definition meta_graph_ok :: "string \<Rightarrow> Quad list \<Rightarrow> bool" where
  "meta_graph_ok cg S \<longleftrightarrow> (\<forall>q \<in> set S. graph q = meta_uri cg \<longrightarrow>
     (predicate q \<in> {DKG @ ''memoryLayer'', PROV @ ''generated'', PROV @ ''used''} \<longrightarrow> lifecycle_subject (subject q))
     \<and> (predicate q = DKG @ ''assertionGraph'' \<longrightarrow> startsWith (object q) ''did:dkg:context-graph:'')
     \<and> (predicate q = DKG @ ''merkleRoot'' \<longrightarrow> locator (subject q)))"

lemma locator_no_lifecycle: "locator u \<Longrightarrow> \<not> lifecycle_subject u"
proof -
  assume "locator u"
  moreover have "startsWith u ''urn:''" if "startsWith u ''urn:dkg:assertion:''"
    using that prefix_order.trans [of "''urn:''" "''urn:dkg:assertion:''" u] by (simp add: startsWith_prefix)
  ultimately show ?thesis using locator_not_named(2,3) by (auto simp: lifecycle_subject_def)
qed

lemma locator_not_selected:
  assumes "meta_graph_ok cg S" "locator u"
  shows "\<not> durable_meta_possible cg S u"
proof -
  have lc: "lifecycle_subject l" if "shared_lifecycle cg S l" for l
    using that assms(1) by (auto simp: shared_lifecycle_def list_ex_iff meta_graph_ok_def)
  show ?thesis
    using assms lc locator_no_lifecycle locator_no_assertion locator_not_named(1,2)
    unfolding durable_meta_possible_def list_ex_iff meta_graph_ok_def by blast
qed

text \<open>No root is claimed by what the query selects.\<close>

lemma selected_unclaimed:
  assumes "meta_graph_ok cg S" "selected_meta cg S M"
  shows "kcMerkleRoots sl M = []"
proof -
  have "\<not> (\<exists>q \<in> set M. predicate q = DKG @ ''merkleRoot'')"
    using assms locator_not_selected [OF assms(1)] by (fastforce simp: selected_meta_def meta_graph_ok_def)
  then show ?thesis unfolding kcMerkleRoots_def meta_map_def by (induction M) simp_all
qed

definition published_in :: "(nat \<Rightarrow> string) \<Rightarrow> Quad list \<Rightarrow> publication \<Rightarrow> bool" where
  "published_in isoDate S p \<longleftrightarrow> set (p_meta isoDate p) \<subseteq> set S \<and> locator (p_ual p) \<and> list_all (\<lambda>ka. ka_kcUal ka = p_ual p) (p_kas p)"

lemma p_meta_subjects:
  assumes "q \<in> set (p_meta isoDate p)"
  shows "subject q = p_ual p \<or> (\<exists>ka \<in> set (p_kas p). subject q = kaUri ka)"
  using assms unfolding p_meta_split
  by (auto simp: generateKCMetadata_def generateConfirmedMetadata_def kaQuads_def Let_def split: option.splits if_splits)

lemma published_not_selected:
  assumes "meta_graph_ok cg S" "selected_meta cg S M" "published_in isoDate S p"
  shows "set (p_meta isoDate p) \<inter> set M = {}"
proof -
  have "locator (subject q)" if "q \<in> set (p_meta isoDate p)" for q
    using p_meta_subjects [OF that] assms(3) locator_ka by (auto simp: published_in_def kaUri_def list_all_iff)
  then show ?thesis using assms(2) locator_not_selected [OF assms(1)] by (auto simp: selected_meta_def)
qed

end
