(* ===== verification/SyncProperties.thy ===== *)
theory SyncProperties
  imports SyncSelect
begin

text \<open>
  The properties of the synchronisation between nodes, with the samples that show their hypotheses can
  hold: a responder that serves one published collection, and a private request.
\<close>

section \<open>Samples\<close>

definition demo_cg :: string where "demo_cg = ''demo''"

definition demo_triple :: Quad where
  "demo_triple = \<lparr>subject = ''urn:a'', predicate = ''urn:p'', object = sparqlString ''v'', graph = graph_uri demo_cg\<rparr>"

definition demo_km :: KCMetadata where
  "demo_km = \<lparr>km_ual = ''did:dkg:x/1'', km_contextGraphId = demo_cg,
     km_merkleRoot = computeFlatKCRootV10 pad32 [demo_triple] [], km_kaCount = 1, km_publisherPeerId = ''P'',
     km_accessPolicy = None, km_allowedPeers = None, km_timestamp = ''T'', km_subGraphName = None\<rparr>"

definition demo_ka :: KAMetadata where
  "demo_ka = \<lparr>ka_rootEntity = ''urn:a'', ka_kcUal = ''did:dkg:x/1'', ka_tokenId = 1, ka_publicTripleCount = 1,
     ka_privateTripleCount = 0, ka_privateMerkleRoot = None\<rparr>"

definition demo_publication :: publication where
  "demo_publication = (demo_km, [demo_ka],
     \<lparr>pv_txHash = ''0x1'', pv_blockNumber = 1, pv_blockTimestamp = 1, pv_publisherAddress = ''0x2'', pv_batchId = 1, pv_chainId = ''c''\<rparr>)"

definition demo_meta :: "Quad list" where
  "demo_meta =
     [mq ''did:dkg:x/1'' (DKG @ ''merkleRoot'') (lit (hex_bytes (computeFlatKCRootV10 pad32 [demo_triple] []))) (kcMetaGraph demo_cg),
      mq (kaUri demo_ka) (DKG @ ''rootEntity'') ''urn:a'' (kcMetaGraph demo_cg),
      mq (kaUri demo_ka) (DKG @ ''partOf'') ''did:dkg:x/1'' (kcMetaGraph demo_cg)]"

text \<open>The store of the peer: the published triple, the metadata of its collection, and a statement about the context graph.\<close>

definition demo_cg_meta :: "Quad list" where
  "demo_cg_meta = [mq (''did:dkg:context-graph:'' @ demo_cg) (DKG @ ''creator'') ''did:dkg:agent:1'' (kcMetaGraph demo_cg)]"

definition demo_store :: "Quad list" where
  "demo_store = demo_triple # p_meta (\<lambda>_. []) demo_publication @ demo_cg_meta"

text \<open>A store that answers from a table: the pages of a query over a list of quads.\<close>

definition page_table :: "(int \<Rightarrow> int \<Rightarrow> string) \<Rightarrow> Quad list \<Rightarrow> string \<Rightarrow> QueryResult option" where
  "page_table text rows q =
     map_option (\<lambda>n. Bindings (map solution (take (nat SYNC_PAGE_SIZE) (drop n rows))))
       (List.find (\<lambda>n. q = text (int n) SYNC_PAGE_SIZE) [0..<length rows])"

definition demo_query :: sparql_query where
  "demo_query q = Inr
     (if q = accessPolicyQuery demo_cg then Bindings []
      else if q = allowlistQuery demo_cg then BooleanResult False
      else case page_table (page_query demo_cg False MetaPhase) demo_cg_meta q of
        Some r \<Rightarrow> r
      | None \<Rightarrow> (case page_table (page_query demo_cg False DataPhase) [demo_triple] q of Some r \<Rightarrow> r | None \<Rightarrow> Bindings []))"

definition demo_auth :: "unit AuthEnv" where
  "demo_auth = \<lparr>ae_localPeerId = ''me'', ae_packed = (\<lambda>_. Inr []), ae_recoverAddress = (\<lambda>_ _ _. Some ''0xAB''),
     ae_verifyIdentity = None, ae_getParticipants = (\<lambda>_ _. Inr (Some [''0xab''])), ae_getAllowedPeers = (\<lambda>_ _. Inr None),
     ae_refreshMeta = (\<lambda>_. ret False)\<rparr>"

definition demo_responder :: "unit Responder" where
  "demo_responder = \<lparr>rs_auth = demo_auth, rs_query = (\<lambda>_. demo_query), rs_readJson = (\<lambda>_. None), rs_isoDate = (\<lambda>_. []),
     rs_deniedResponse = ''__DKG_SYNC_DENIED__'', rs_pageSize = SYNC_PAGE_SIZE, rs_sharedMemoryTtlMs = 0\<rparr>"

definition demo_auth_state :: "unit AuthState" where
  "demo_auth_state = \<lparr>as_seen = [], as_world = ()\<rparr>"

definition demo_engine :: SyncEngine where
  "demo_engine = \<lparr>en_hash = pad32, en_spread = (\<lambda>n. n < 65536)\<rparr>"

definition demo_agent :: "(unit AuthState \<times> int) SyncAgent" where
  "demo_agent = \<lparr>ag_net = peer_net demo_responder ''me'' 10, ag_engine = demo_engine, ag_insert = (\<lambda>_. None)\<rparr>"

definition demo_sync_state :: "(unit AuthState \<times> int) SyncState" where
  "demo_sync_state = \<lparr>ss_net = (demo_auth_state, 0), ss_store = [], ss_checkpoints = [], ss_denied = [], ss_owned = []\<rparr>"

lemma find_upt_unique:
  assumes "n < m" "\<And>k. P k \<longleftrightarrow> k = n"
  shows "List.find P [0..<m] = Some n"
  unfolding find_Some_iff using assms(1) by (intro exI [of _ n]) (simp add: assms(2))

lemma page_table_answers:
  assumes inj: "\<And>m n. text m SYNC_PAGE_SIZE = text n SYNC_PAGE_SIZE \<Longrightarrow> m = n" and "0 \<le> offset"
  shows "(case page_table text rows (text offset SYNC_PAGE_SIZE) of Some r \<Rightarrow> r | None \<Rightarrow> Bindings [])
    = Bindings (map solution (take (nat SYNC_PAGE_SIZE) (drop (nat offset) rows)))"
proof (cases "nat offset < length rows")
  case True
  have "List.find (\<lambda>n. text offset SYNC_PAGE_SIZE = text (int n) SYNC_PAGE_SIZE) [0..<length rows] = Some (nat offset)"
    by (rule find_upt_unique [OF True]) (use inj assms(2) in \<open>metis int_nat_eq nat_int\<close>)
  then show ?thesis by (simp add: page_table_def)
next
  case False
  have "text offset SYNC_PAGE_SIZE \<noteq> text (int n) SYNC_PAGE_SIZE" if "n < length rows" for n
    using inj [of offset "int n"] that False by auto
  then have "List.find (\<lambda>n. text offset SYNC_PAGE_SIZE = text (int n) SYNC_PAGE_SIZE) [0..<length rows] = None"
    by (simp add: find_None_iff)
  then show ?thesis using False by (simp add: page_table_def)
qed

lemma page_table_other: "(\<And>n. q \<noteq> text (int n) SYNC_PAGE_SIZE) \<Longrightarrow> page_table text rows q = None"
  by (simp add: page_table_def find_None_iff)

lemma page_suffix_inj: "page_suffix v m l = page_suffix v n l \<Longrightarrow> m = n"
proof -
  assume "page_suffix v m l = page_suffix v n l"
  then have "show_int m @ '' LIMIT '' @ show_int l = show_int n @ '' LIMIT '' @ show_int l" by (simp add: page_suffix_def)
  then show "m = n" using show_int_inj by simp
qed

lemma durable_query_inj:
  "page_query cg False ph m l = page_query cg False ph n l \<Longrightarrow> m = n"
  by (cases ph) (auto simp: page_query_def durable_meta_query_def durable_data_query_def Let_def intro: page_suffix_inj)

lemma durable_query_differs:
  "page_query cg False MetaPhase m l \<noteq> page_query cg False DataPhase n l"
  "page_query cg False ph m l \<noteq> accessPolicyQuery cg" "page_query cg False ph m l \<noteq> allowlistQuery cg"
  by (cases ph; simp add: page_query_def durable_meta_query_def durable_data_query_def accessPolicyQuery_def allowlistQuery_def Let_def)+

lemma demo_public: "public_graph demo_responder demo_auth_state demo_cg"
proof -
  have "accessPolicyQuery demo_cg \<noteq> allowlistQuery demo_cg" by (simp add: accessPolicyQuery_def allowlistQuery_def)
  then show ?thesis
    by (auto simp: public_graph_def plain_cg_def demo_responder_def isPrivateContextGraph_def demo_query_def bindE_def
        demo_cg_def startsWith_def is_space_def)
qed

lemma demo_quads_ok: "quad_ok demo_triple" "q \<in> set demo_meta \<Longrightarrow> quad_ok q" "q \<in> set demo_cg_meta \<Longrightarrow> quad_ok q"
proof -
  have quote: "startsWith (sparqlString v) [QUOTE]" for v by (simp add: sparqlString_def startsWith_def)
  show "quad_ok demo_triple"
    using lit_ok_sparqlString quote
    by (simp add: quad_ok_def iri_ok_def demo_triple_def graph_uri_def contextGraphDataUri_def demo_cg_def)
  have hex: "lit (hex_bytes bs) = sparqlString (hex_bytes bs)" for bs
  proof -
    have "c \<notin> set (hex_bytes bs)" if "c \<in> {QUOTE, BACKSLASH, NL, CR, TAB}" for c
      using that by (intro hex_not) (auto simp: is_hex_def is_digit_def)
    then show ?thesis
      unfolding lit_hex by (simp add: sparqlString_def escapeSparqlLiteral_def replace_char_id)
  qed
  have uri: "kaUri demo_ka = ''did:dkg:x/1/1''" by code_simp
  show "quad_ok q" if "q \<in> set demo_meta"
    using that lit_ok_sparqlString quote
    by (auto simp: demo_meta_def quad_ok_def iri_ok_def kcMetaGraph_def demo_cg_def DKG_def uri hex startsWith_def)
  show "quad_ok q" if "q \<in> set demo_cg_meta"
    using that by (auto simp: demo_cg_meta_def quad_ok_def iri_ok_def kcMetaGraph_def demo_cg_def DKG_def startsWith_def)
qed

lemma demo_rows:
  "holds_rows demo_responder demo_auth_state demo_cg False MetaPhase demo_cg_meta"
  "holds_rows demo_responder demo_auth_state demo_cg False DataPhase [demo_triple]"
proof -
  have meta: "demo_query (page_query demo_cg False MetaPhase offset SYNC_PAGE_SIZE)
      = Inr (Bindings (map solution (take (nat SYNC_PAGE_SIZE) (drop (nat offset) demo_cg_meta))))" if "0 \<le> offset" for offset
  proof -
    have "page_table (page_query demo_cg False DataPhase) [demo_triple] (page_query demo_cg False MetaPhase offset SYNC_PAGE_SIZE) = None"
      by (rule page_table_other) (rule durable_query_differs(1))
    then show ?thesis
      using page_table_answers [of "page_query demo_cg False MetaPhase" offset demo_cg_meta] durable_query_inj that
      by (auto simp: demo_query_def durable_query_differs split: option.splits)
  qed
  have data: "demo_query (page_query demo_cg False DataPhase offset SYNC_PAGE_SIZE)
      = Inr (Bindings (map solution (take (nat SYNC_PAGE_SIZE) (drop (nat offset) [demo_triple]))))" if "0 \<le> offset" for offset
  proof -
    have "page_table (page_query demo_cg False MetaPhase) demo_cg_meta (page_query demo_cg False DataPhase offset SYNC_PAGE_SIZE) = None"
      by (rule page_table_other) (metis durable_query_differs(1))
    then show ?thesis
      using page_table_answers [of "page_query demo_cg False DataPhase" offset "[demo_triple]"] durable_query_inj that
      by (auto simp: demo_query_def durable_query_differs split: option.splits)
  qed
  show "holds_rows demo_responder demo_auth_state demo_cg False MetaPhase demo_cg_meta"
    using meta demo_quads_ok(3)
    by (auto simp: holds_rows_def answers_pages_def demo_responder_def rows_fit_def page_graph_def demo_cg_meta_def
        meta_uri_def contextGraphMetaUri_def kcMetaGraph_def)
  show "holds_rows demo_responder demo_auth_state demo_cg False DataPhase [demo_triple]"
    using data demo_quads_ok(1) by (simp add: holds_rows_def answers_pages_def demo_responder_def rows_fit_def)
qed

lemma demo_honest: "honest_batch demo_engine (\<lambda>_. []) [demo_publication] [demo_triple] demo_meta"
proof -
  have scope: "in_scope ''urn:a'' demo_triple" by (simp add: in_scope_def demo_triple_def)
  have clean: "clean_root ''urn:a''" by code_simp
  have iri: "plain_iri ''did:dkg:x/1''" "plain_iri ''urn:a''" by code_simp+
  have blank: "\<not> isBlankNode (subject demo_triple)" "\<not> isBlankNode (object demo_triple)"
    by (simp_all add: demo_triple_def isBlankNode_def startsWith_def sparqlString_def)
  have statements: "set (filter (\<lambda>q. \<not> silent q) demo_meta) = set (filter (\<lambda>q. \<not> silent q) (p_meta (\<lambda>_. []) demo_publication))"
    by (auto simp: demo_meta_def p_meta_def generateConfirmedFullMetadata_def generateKCMetadata_def generateConfirmedMetadata_def
        demo_publication_def demo_km_def kaQuads_def demo_ka_def silent_def Let_def)
  have "length (case map_of (autoPartition [demo_triple]) ''urn:a'' of None \<Rightarrow> [] | Some qs \<Rightarrow> qs) = 1" by code_simp
  then have spread: "spreads demo_engine [demo_triple] [''urn:a'']" by (simp add: spreads_def demo_engine_def)
  have hash: "en_hash demo_engine = pad32" by (simp add: demo_engine_def)
  show ?thesis
    unfolding honest_batch_def hash
    using scope clean iri blank statements spread
    by (simp add: publication_fits_def ka_fits_def demo_publication_def demo_km_def demo_ka_def private_of_def)
      (simp add: demo_triple_def)
qed

section \<open>Properties\<close>

text \<open>
  C5. A synchronisation with an honest peer completes and delivers what the peer's queries select. The peer
  holds a store \<open>S\<close> of a public context graph and answers the data query with the quads of the graph's data
  graphs and the metadata query with statements its filter lets through (at most a million rows each, in
  any order, in the form that N-Quads carries, and at least one of each). Over a link that delivers every
  request within the time budget the synchronisation returns, inserts exactly these rows, rejects no
  collection, reports no failure and leaves no checkpoint behind. The metadata of the published collections
  is not among the rows: the filter passes no statement about a locator, so the check of the batch finds no
  root to compare and the data is taken as it comes.
\<close>

theorem honest_peer_synced:
  assumes "public_graph rs s cg" "holds_rows rs s cg False MetaPhase M" "holds_rows rs s cg False DataPhase D"
    and "selected_data cg S D" "selected_meta cg S M" "meta_graph_ok cg S" "\<forall>p \<in> set pubs. published_in isoDate S p"
    and "length M \<le> 1000000" "length D \<le> 1000000" "D \<noteq> []" "M \<noteq> []"
    and "ag_net ag = peer_net rs self latency" "\<And>qs. ag_insert ag qs = None"
    and "ss_net st = (s, t)" "0 \<le> latency" "int (pages M + pages D) * latency \<le> 120000"
    and "no_checkpoint peer cg False (ss_checkpoints st)"
  shows "\<exists>sm st'. runDurableSync ag peer [cg] st = Some (sm, st') \<and> ss_store st' = ss_store st @ D @ M
    \<and> ds_insertedTriples sm = length D + length M \<and> ds_rejectedKcs sm = 0 \<and> ds_failedPeers sm = 0
    \<and> ss_checkpoints st' = ss_checkpoints st \<and> (\<forall>p \<in> set pubs. set (p_meta isoDate p) \<inter> set M = {})"
proof -
  have time: "int (pages M + pages D) * latency
      \<le> max SYNC_MIN_GRAPH_BUDGET_MS (SYNC_TOTAL_TIMEOUT_MS div max 1 (int (Suc 0)))"
    using assms(16) by (simp add: SYNC_MIN_GRAPH_BUDGET_MS_def SYNC_TOTAL_TIMEOUT_MS_def)
  have "passes (ag_engine ag) D M" using unclaimed_passes [OF selected_unclaimed [OF assms(6,5)]] .
  from durable_graph_complete [OF assms(1-3,8,9,12-15) time assms(17) this assms(10,11) selected_data_graphs [OF assms(4)], of durable_zero]
    published_not_selected [OF assms(6,5)] assms(7)
  show ?thesis by (fastforce simp: runDurableSync_def durable_zero_def)
qed

lemma demo_locator: "locator ''did:dkg:x/1''"
  unfolding locator_def
  by (intro exI [of _ "''x''"] exI [of _ "[''1'']"])
    (simp add: ual_parts_def chain_name_def locator_part_def startsWith_def)

lemma demo_p_meta:
  assumes "q \<in> set (p_meta (\<lambda>_. []) demo_publication)"
  shows "graph q = meta_uri demo_cg" "subject q \<in> {''did:dkg:x/1'', ''did:dkg:x/1/1''}"
    "predicate q \<notin> {DKG @ ''memoryLayer'', PROV @ ''generated'', PROV @ ''used'', DKG @ ''assertionGraph'', DKG @ ''assertionName''}"
    "predicate q = DKG @ ''merkleRoot'' \<Longrightarrow> subject q = ''did:dkg:x/1''"
proof -
  have uri: "kaUri demo_ka = ''did:dkg:x/1/1''" by code_simp
  show "graph q = meta_uri demo_cg" "subject q \<in> {''did:dkg:x/1'', ''did:dkg:x/1/1''}"
    "predicate q \<notin> {DKG @ ''memoryLayer'', PROV @ ''generated'', PROV @ ''used'', DKG @ ''assertionGraph'', DKG @ ''assertionName''}"
    "predicate q = DKG @ ''merkleRoot'' \<Longrightarrow> subject q = ''did:dkg:x/1''"
    using assms uri
    by (auto simp: p_meta_def generateConfirmedFullMetadata_def generateKCMetadata_def generateConfirmedMetadata_def
        demo_publication_def demo_km_def kaQuads_def demo_ka_def Let_def meta_uri_def contextGraphMetaUri_def kcMetaGraph_def vocab)
qed

lemma demo_selected:
  "selected_data demo_cg demo_store [demo_triple]" "selected_meta demo_cg demo_store demo_cg_meta" "meta_graph_ok demo_cg demo_store"
  "published_in (\<lambda>_. []) demo_store demo_publication"
proof -
  have meta: "meta_uri demo_cg = ''did:dkg:context-graph:demo/_meta''" "graph demo_triple = ''did:dkg:context-graph:demo''"
    by (simp_all add: meta_uri_def contextGraphMetaUri_def demo_cg_def demo_triple_def graph_uri_def contextGraphDataUri_def)
  have cg: "graph q = meta_uri demo_cg \<and> subject q = ''did:dkg:context-graph:demo'' \<and> predicate q = DKG @ ''creator''" if "q \<in> set demo_cg_meta" for q
    using that by (simp add: demo_cg_meta_def meta_uri_def contextGraphMetaUri_def kcMetaGraph_def) (simp add: demo_cg_def)
  have sel: "durable_data_selected demo_cg demo_store q \<longleftrightarrow> q = demo_triple" if "q \<in> set demo_store" for q
  proof -
    have "durable_data_selected demo_cg S demo_triple" for S
      by (simp add: durable_data_selected_def meta demo_cg_def endsWith_def startsWith_def str_includes_def)
    moreover have "\<not> durable_data_selected demo_cg S q" if "graph q = meta_uri demo_cg" for S
      using that by (simp add: durable_data_selected_def meta endsWith_def startsWith_def)
    ultimately show ?thesis using that cg demo_p_meta(1) by (auto simp: demo_store_def)
  qed
  then show "selected_data demo_cg demo_store [demo_triple]" by (auto simp: selected_data_def demo_store_def)
  show ok: "meta_graph_ok demo_cg demo_store"
    using cg demo_p_meta demo_locator meta unfolding meta_graph_ok_def demo_store_def
    by (auto simp: vocab) 
  have named: "durable_meta_named demo_cg ''did:dkg:context-graph:demo''" by (simp add: durable_meta_named_def demo_cg_def)
  have "\<not> durable_meta_named demo_cg (subject q)" if "q \<in> set (p_meta (\<lambda>_. []) demo_publication)" for q
    using demo_p_meta(2) [OF that] by (auto simp: durable_meta_named_def demo_cg_def startsWith_def)
  moreover have "graph demo_triple \<noteq> meta_uri demo_cg" by (simp add: meta)
  ultimately show "selected_meta demo_cg demo_store demo_cg_meta"
    using cg named by (auto simp: selected_meta_def demo_store_def durable_meta_possible_def)
  show "published_in (\<lambda>_. []) demo_store demo_publication"
    using demo_locator by (simp add: published_in_def demo_store_def demo_publication_def demo_km_def demo_ka_def subset_iff)
qed

theorem honest_peer_synced_witness:
  "\<exists>sm st'. runDurableSync demo_agent ''peer'' [demo_cg] demo_sync_state = Some (sm, st')
    \<and> ss_store st' = ss_store demo_sync_state @ [demo_triple] @ demo_cg_meta
    \<and> ds_insertedTriples sm = length [demo_triple] + length demo_cg_meta \<and> ds_rejectedKcs sm = 0 \<and> ds_failedPeers sm = 0
    \<and> ss_checkpoints st' = ss_checkpoints demo_sync_state
    \<and> (\<forall>p \<in> set [demo_publication]. set (p_meta (\<lambda>_. []) p) \<inter> set demo_cg_meta = {})"
proof (rule honest_peer_synced [OF demo_public demo_rows demo_selected(1-3)])
  show "\<forall>p \<in> set [demo_publication]. published_in (\<lambda>_. []) demo_store p" using demo_selected(4) by simp
  show "ag_net demo_agent = peer_net demo_responder ''me'' 10" "ag_insert demo_agent qs = None" for qs
    by (simp_all add: demo_agent_def)
  show "ss_net demo_sync_state = (demo_auth_state, 0)" by (simp add: demo_sync_state_def)
  show "no_checkpoint ''peer'' demo_cg False (ss_checkpoints demo_sync_state)" by (simp add: no_checkpoint_def demo_sync_state_def)
qed (simp_all add: demo_cg_meta_def pages_def SYNC_PAGE_SIZE_def)

text \<open>A batch with the metadata that the publisher wrote would pass the check, with its root compared.\<close>

lemma demo_batch_passes: "passes demo_engine [demo_triple] demo_meta \<and> kcMerkleRoots worker_stripLiteral demo_meta \<noteq> []"
  using honest_passes [OF demo_honest] by (simp add: kcMerkleRoots_def meta_map_def demo_meta_def vocab)

text \<open>
  C14. What the check of a synchronised batch keeps, exactly. The metadata claims a root for at least one
  collection, and the batch is not of a system graph. A collection passes iff it lists no asset with a root
  entity, or one of its root entities is listed for another asset too (then its root is not compared), or
  its claimed root is the root of the triples received under its root entities, with or without its private
  roots (and each group of triples fits into the arguments of one call). Then: a data triple is dropped iff
  its subject is a root entity and every collection that lists it fails, so that triples of other subjects
  stay, also those of the skolemized children of a root entity whose collection fails; a metadata statement
  is dropped iff its subject is a collection that fails, or an asset of a collection that fails or
  claims no root; and the collections that fail are counted.
\<close>

theorem sync_check_exact:
  assumes "kcMerkleRoots worker_stripLiteral M \<noteq> []"
  shows "vr_data (worker_verifySyncedData en D M False) = filter (\<lambda>q. kept_subject en worker_stripLiteral D M (subject q)) D
    \<and> vr_meta (worker_verifySyncedData en D M False) = filter (\<lambda>q. kept_meta en worker_stripLiteral D M (subject q)) M
    \<and> vr_rejected (worker_verifySyncedData en D M False) = card (rejected_kcs en worker_stripLiteral D M)"
  using verify_synced_eq [OF assms] by (simp add: worker_verifySyncedData_def Let_def)

theorem sync_check_exact_witness:
  "kcMerkleRoots worker_stripLiteral demo_meta \<noteq> []
    \<and> vr_data (worker_verifySyncedData demo_engine [demo_triple] demo_meta False)
      = filter (\<lambda>q. kept_subject demo_engine worker_stripLiteral [demo_triple] demo_meta (subject q)) [demo_triple]
    \<and> vr_meta (worker_verifySyncedData demo_engine [demo_triple] demo_meta False)
      = filter (\<lambda>q. kept_meta demo_engine worker_stripLiteral [demo_triple] demo_meta (subject q)) demo_meta
    \<and> vr_rejected (worker_verifySyncedData demo_engine [demo_triple] demo_meta False)
      = card (rejected_kcs demo_engine worker_stripLiteral [demo_triple] demo_meta)"
proof -
  have "kcMerkleRoots worker_stripLiteral demo_meta \<noteq> []" by (simp add: kcMerkleRoots_def meta_map_def demo_meta_def vocab)
  then show ?thesis using sync_check_exact [of demo_meta demo_engine "[demo_triple]"] by blast
qed

text \<open>
  C28. A private sync request is not accepted twice. Once a responder has accepted a request that was not
  dated in its future, it denies every later request with the same request id and issue time, whoever
  presents it and whatever other requests it handles in between, as long as its clock does not go back.
\<close>

theorem sync_request_not_replayed:
  assumes "accepts env t r p s" "sorted (t # map fst es)" "last (t # map fst es) \<le> t'"
    and "sr_requestId r' = sr_requestId r" "sr_issuedAtMs r' = Some t0" "t0 \<le> t"
  shows "\<not> accepts env t' r' p' (fold (after env) es (after env (t, r, p) s))"
proof -
  obtain i where i: "sr_requestId r = Some i"
    using accepted_shown [OF assms(1)] by (auto simp: envelope_ok_def nonempty_def)
  have "remembers i t t (after env (t, r, p) s)" using accepted_remembered [OF assms(1)] i by (simp add: or_empty_def)
  from remembers_run [OF this order_refl assms(2)] show ?thesis
    by (rule remembered_denied [OF _ assms(3)]) (use assms(4-6) i in auto)
qed

definition demo_request :: "int \<Rightarrow> SyncRequestEnvelope" where
  "demo_request issued = (plain_request ''secret'' 0 500 False (Some DataPhase))
     \<lparr>sr_targetPeerId := Some ''me'', sr_requesterPeerId := Some ''you'', sr_requestId := Some ''0x01'', sr_issuedAtMs := Some issued,
      sr_requesterIdentityId := Some ''0'', sr_requesterAgentAddress := Some ''0xab'', sr_requesterSignatureR := Some ''r'',
      sr_requesterSignatureVS := Some ''vs''\<rparr>"

theorem sync_request_not_replayed_witness:
  "accepts demo_auth 1000 (demo_request 900) ''you'' demo_auth_state
    \<and> \<not> accepts demo_auth 2000 (demo_request 900) ''me'' (fold (after demo_auth) [] (after demo_auth (1000, demo_request 900, ''you'') demo_auth_state))"
proof -
  have a: "accepts demo_auth 1000 (demo_request 900) ''you'' demo_auth_state" by code_simp
  from sync_request_not_replayed [OF a, of "[]" 2000 "demo_request 900" 900 "''me''"] show ?thesis
    using a by (simp add: demo_request_def)
qed

text \<open>A request dated up to five seconds ahead can be accepted again once its record has expired, and two copies
  that are checked before either is decided are both accepted.\<close>

lemma future_dated_request_replayed:
  "accepts demo_auth 1000 (demo_request 6000) ''you'' demo_auth_state
    \<and> accepts demo_auth 91001 (demo_request 6000) ''you'' (after demo_auth (1000, demo_request 6000, ''you'') demo_auth_state)"
  by code_simp

lemma concurrent_request_replayed:
  "(let r = demo_request 900;
        (c1, s1) = auth_check demo_auth 1000 r ''you'' demo_auth_state;
        (c2, s2) = auth_check demo_auth 1000 r ''you'' s1;
        (d1, s3) = auth_decide demo_auth 1000 r ''you'' ''0xAB'' s2;
        (d2, s4) = auth_decide demo_auth 1000 r ''you'' ''0xAB'' s3
    in c1 = Inr (Some ''0xAB'') \<and> c2 = Inr (Some ''0xAB'') \<and> d1 = Inr True \<and> d2 = Inr True)"
  by code_simp

text \<open>
  C13. Pages of a private context graph go to authorised requesters only. When the responder answers a
  request for a private context graph with anything but the denial, the envelope was addressed to this
  node by the connected peer, fresh and unused, its signature recovers to a signer that passes the
  identity check, and the signer, its identity or the peer is allowed by the metadata before or after a
  refresh from the curator.
\<close>

theorem private_pages_guarded:
  assumes "sync_handler rs now data peer s = (Inr text, s')" "text \<noteq> rs_deniedResponse rs" "text \<noteq> []"
    and "r = parseSyncRequest rs data" "isPrivateContextGraph (rs_query rs (as_world s)) (sr_contextGraphId r) = Inr True"
  shows "envelope_ok (rs_auth rs) now r peer \<and> map_of (purge_seen now (as_seen s)) (or_empty (sr_requestId r)) = None
    \<and> (\<exists>addr. recover_signer (rs_auth rs) r = Inr (Some addr) \<and> identity_ok (rs_auth rs) r addr = Inr True
        \<and> (permitted (rs_auth rs) (as_world s) r peer addr
           \<or> permitted (rs_auth rs) (as_world (after (rs_auth rs) (now, r, peer) s)) r peer addr))"
proof (rule accepted_shown)
  have "fst (authorizeSyncRequest (rs_auth rs) (\<lambda>w. isPrivateContextGraph (rs_query rs w)) now r peer s) = Inr True"
  proof (rule ccontr)
    assume "\<not> ?thesis"
    then show False
      using assms(1-4) by (auto simp: sync_handler_def Let_def bindM_def ret_def split: if_splits sum.splits prod.splits)
  qed
  then show "accepts (rs_auth rs) now r peer s" using assms(5) by (simp add: authorizeSyncRequest_def accepts_def)
qed

definition demo_private :: "unit Responder" where
  "demo_private = demo_responder\<lparr>
     rs_query := (\<lambda>_ q. Inr (if q = accessPolicyQuery ''secret'' then Bindings [[(''policy'', [QUOTE] @ ''private'' @ [QUOTE])]]
                           else Bindings [solution demo_triple])),
     rs_readJson := (\<lambda>_. Some (demo_request 900))\<rparr>"

theorem private_pages_guarded_witness:
  "isPrivateContextGraph (rs_query demo_private (as_world demo_auth_state)) ''secret'' = Inr True
    \<and> envelope_ok (rs_auth demo_private) 1000 (demo_request 900) ''you''
    \<and> map_of (purge_seen 1000 (as_seen demo_auth_state)) (or_empty (sr_requestId (demo_request 900))) = None
    \<and> (\<exists>addr. recover_signer (rs_auth demo_private) (demo_request 900) = Inr (Some addr)
        \<and> identity_ok (rs_auth demo_private) (demo_request 900) addr = Inr True
        \<and> (permitted (rs_auth demo_private) (as_world demo_auth_state) (demo_request 900) ''you'' addr
           \<or> permitted (rs_auth demo_private)
               (as_world (after (rs_auth demo_private) (1000, demo_request 900, ''you'') demo_auth_state)) (demo_request 900) ''you'' addr))"
proof -
  have p: "isPrivateContextGraph (rs_query demo_private (as_world demo_auth_state)) ''secret'' = Inr True"
    by (simp add: isPrivateContextGraph_def demo_private_def bindE_def)
  have r: "demo_request 900 = parseSyncRequest demo_private ''{}''"
    by (simp add: parseSyncRequest_def demo_private_def str_trim_def startsWith_def is_space_def Let_def)
  have cg: "sr_contextGraphId (demo_request 900) = ''secret''" by (simp add: demo_request_def)
  have "case fst (sync_handler demo_private 1000 ''{}'' ''you'' demo_auth_state) of
      Inr t \<Rightarrow> t \<noteq> rs_deniedResponse demo_private \<and> t \<noteq> [] | Inl _ \<Rightarrow> False" by code_simp
  then obtain t s' where "sync_handler demo_private 1000 ''{}'' ''you'' demo_auth_state = (Inr t, s')"
    "t \<noteq> rs_deniedResponse demo_private" "t \<noteq> []"
    by (cases "sync_handler demo_private 1000 ''{}'' ''you'' demo_auth_state") (auto split: sum.splits)
  from private_pages_guarded [OF this r] p show ?thesis unfolding cg by blast
qed

text \<open>
  C30. Synchronised shared memory admits exactly what its operations declare. A triple survives iff its
  subject is a root entity, or a skolemized child of one, that an operation with a type and a
  publication time lists; the rest is counted as dropped; and an entity is attributed to the creator of
  the first such operation that has one.
\<close>

theorem shared_memory_admits_declared:
  "sp_validQuads (processSharedMemory D M) = filter (\<lambda>q. \<exists>r. declared_root M r \<and> in_scope r q) D
    \<and> sp_dropped (processSharedMemory D M) = length (filter (\<lambda>q. \<not> (\<exists>r. declared_root M r \<and> in_scope r q)) D)
    \<and> map_of (sp_entityCreators (processSharedMemory D M)) e =
      (case List.find (\<lambda>(op, entity). entity = e \<and> map_of (opCreators M) op \<noteq> None \<and> map_of (opCreators M) op \<noteq> Some [])
        (rootStatements M) of None \<Rightarrow> None | Some (op, _) \<Rightarrow> map_of (opCreators M) op)"
proof (intro conjI)
  show valid: "sp_validQuads (processSharedMemory D M) = filter (\<lambda>q. \<exists>r. declared_root M r \<and> in_scope r q) D"
    by (rule shared_memory_exact)
  have "sp_dropped (processSharedMemory D M) = length D - length (sp_validQuads (processSharedMemory D M))"
    by (simp add: processSharedMemory_def Let_def)
  also have "\<dots> = length (filter (\<lambda>q. \<not> (\<exists>r. declared_root M r \<and> in_scope r q)) D)"
    unfolding valid using sum_length_filter_compl [of "\<lambda>q. \<exists>r. declared_root M r \<and> in_scope r q" D] by linarith
  finally show "sp_dropped (processSharedMemory D M) = length (filter (\<lambda>q. \<not> (\<exists>r. declared_root M r \<and> in_scope r q)) D)" .
  show "map_of (sp_entityCreators (processSharedMemory D M)) e =
      (case List.find (\<lambda>(op, entity). entity = e \<and> map_of (opCreators M) op \<noteq> None \<and> map_of (opCreators M) op \<noteq> Some [])
        (rootStatements M) of None \<Rightarrow> None | Some (op, _) \<Rightarrow> map_of (opCreators M) op)"
    using entity_creator_first [of M e] by (simp add: processSharedMemory_def Let_def)
qed

text \<open>
  C29. The wire format of the sync protocol loses nothing. The lines a responder writes for quads whose
  IRIs have no closing bracket and no line break, and whose objects are such IRIs or escaped literals of
  any text, are parsed back to the same quads in the same order.
\<close>

definition wire_object :: "string \<Rightarrow> bool" where
  "wire_object ob \<longleftrightarrow> (\<not> startsWith ob [QUOTE] \<and> iri_ok ob) \<or> (\<exists>v. ob = sparqlString v)"

theorem nquads_roundtrip:
  assumes "list_all (\<lambda>q. iri_ok (subject q) \<and> iri_ok (predicate q) \<and> iri_ok (graph q) \<and> wire_object (object q)) qs"
  shows "parseNQuads (nquads_text qs) = qs"
proof (rule parseNQuads_text)
  have "startsWith (sparqlString v) [QUOTE]" for v by (simp add: sparqlString_def startsWith_def)
  then have "if startsWith ob [QUOTE] then lit_ok ob else iri_ok ob" if "wire_object ob" for ob
    using that lit_ok_sparqlString unfolding wire_object_def by metis
  then show "\<forall>q \<in> set qs. quad_ok q" using assms unfolding list_all_iff quad_ok_def by blast
qed

theorem nquads_roundtrip_witness:
  "list_all (\<lambda>q. iri_ok (subject q) \<and> iri_ok (predicate q) \<and> iri_ok (graph q) \<and> wire_object (object q)) [demo_triple]
    \<and> parseNQuads (nquads_text [demo_triple]) = [demo_triple]"
proof -
  have "list_all (\<lambda>q. iri_ok (subject q) \<and> iri_ok (predicate q) \<and> iri_ok (graph q) \<and> wire_object (object q)) [demo_triple]"
    using demo_quads_ok(1) by (auto simp: quad_ok_def demo_triple_def wire_object_def)
  then show ?thesis using nquads_roundtrip by blast
qed

text \<open>The interface of \<^theory_text>\<open>SyncComplete\<close> on the sample responder.\<close>

interpretation demo_peer: public_responder demo_responder demo_auth_state demo_cg False DataPhase "[demo_triple]"
    "''me''" "''peer''" "graph_uri demo_cg" 10 120000
  by unfold_locales (rule demo_public, rule demo_rows)

section \<open>Limits of the check\<close>

text \<open>
  Only triples whose subject is itself a root entity depend on the check: the skolemized children of a
  rejected collection are kept.
\<close>

lemma children_of_rejected_kept:
  assumes "kcMerkleRoots worker_stripLiteral M \<noteq> []" "q \<in> set D" "\<nexists>ka u. part worker_stripLiteral M ka u (subject q)"
  shows "q \<in> set (vr_data (worker_verifySyncedData en D M False))"
  using verify_synced_eq [OF assms(1), of en D False] assms(2,3)
  by (simp add: worker_verifySyncedData_def Let_def kept_subject_def)

text \<open>The metadata of assets whose collection claims no root is dropped as soon as another collection claims one.\<close>

lemma unclaimed_assets_dropped:
  assumes "kcMerkleRoots worker_stripLiteral M \<noteq> []" "map_of (kaToKc worker_stripLiteral M) s = Some u" "u \<noteq> []"
    and "map_of (kcMerkleRoots worker_stripLiteral M) u = None" "map_of (kcMerkleRoots worker_stripLiteral M) s = None"
  shows "q \<in> set (vr_meta (worker_verifySyncedData en D M False)) \<Longrightarrow> subject q \<noteq> s"
  using verify_synced_eq [OF assms(1), of en D False] assms(2-5)
  by (auto simp: worker_verifySyncedData_def Let_def kept_meta_def committed_kc_def)

text \<open>A collection that lists one root entity twice is accepted without a check of its root.\<close>

lemma repeated_root_unchecked:
  assumes "part sl M ka u r" "part sl M ka' u r" "ka \<noteq> ka'"
  shows "committed_kc en sl D M u"
proof -
  obtain c where "map_of (kcMerkleRoots sl M) u = Some c" using assms(1) by (auto simp: part_def)
  moreover have "shared_kc sl M u" using assms by (auto simp: shared_kc_def)
  ultimately show ?thesis by (simp add: committed_kc_def Let_def)
qed

text \<open>
  A collection with more triples under one root entity than a call takes arguments is rejected, whatever root it claims.
\<close>

lemma oversized_group_rejected:
  assumes "\<not> spreads en D (rootsOf (kcRootEntities sl M) u)" "part sl M ka u r" "\<not> shared_kc sl M u"
  shows "u \<in> rejected_kcs en sl D M"
  using assms by (auto simp: rejected_kcs_def committed_kc_def part_def Let_def)

text \<open>The reader of literals does not invert the escaping of a backslash before a letter.\<close>

lemma unescape_backslash_n: "stripLiteral (sparqlString [BACKSLASH, CHR ''n'']) = [BACKSLASH, NL]"
  by code_simp

text \<open>An empty batch leaves the checkpoints it was resumed from.\<close>

lemma empty_batch_keeps_checkpoint:
  assumes "pg_quads mr = []" "pg_quads dr = []"
  shows "ss_checkpoints (snd (snd (durable_batch ag pid mr dr (sm, st)))) = ss_checkpoints st"
  using assms by (simp add: durable_batch_def processDurableBatch_def Let_def bindM_def modM_def ret_def)

end
