(* ===== verification/SyncOnConnect.thy ===== *)
theory SyncOnConnect
  imports SyncComplete
begin

text \<open>
  The synchronisation that a new connection starts, \<^verbatim>\<open>packages/agent/src/sync/on-connect/sync-on-connect.ts\<close>:
  one run per peer at a time, the peer's protocols decide whether it is known as a core node and whether
  it is synchronised with, context graphs discovered on the way are synchronised too, and the mark of the
  running synchronisation is removed however the run ends. The operations it calls are parameters.
\<close>

record 'w OnConnectState =
  oc_syncingPeers :: "string list"
  oc_knownCorePeerIds :: "string list"
  oc_world :: 'w

record 'w OnConnectOps =
  op_getPeerProtocols :: "string \<Rightarrow> ('w, string list) op"
  op_getSyncContextGraphs :: "'w \<Rightarrow> string list"
  op_syncFromPeer :: "string \<Rightarrow> string list option \<Rightarrow> ('w, nat) op"
  op_refreshMetaSyncedFlags :: "string list \<Rightarrow> ('w, unit) op"
  op_discoverContextGraphs :: "('w, nat) op"
  op_syncSharedMemory :: "string \<Rightarrow> string list \<Rightarrow> ('w, nat) op"

definition in_world :: "('w, 'a) op \<Rightarrow> ('w OnConnectState, 'a) op" where
  "in_world f s = (case f (oc_world s) of (r, w) \<Rightarrow> (r, s\<lparr>oc_world := w\<rparr>))"

definition PROTOCOL_SYNC :: string where "PROTOCOL_SYNC = ''/dkg/10.0.0/sync''"
definition PROTOCOL_STORAGE_ACK :: string where "PROTOCOL_STORAGE_ACK = ''/dkg/10.0.0/storage-ack''"

definition note_core :: "string \<Rightarrow> string list \<Rightarrow> 'w OnConnectState \<Rightarrow> 'w OnConnectState" where
  "note_core peer protocols s =
     (if PROTOCOL_STORAGE_ACK \<in> set protocols then s\<lparr>oc_knownCorePeerIds := set_add peer (oc_knownCorePeerIds s)\<rparr>
      else s\<lparr>oc_knownCorePeerIds := filter (\<lambda>p. p \<noteq> peer) (oc_knownCorePeerIds s)\<rparr>)"

definition sync_connected :: "'w OnConnectOps \<Rightarrow> string \<Rightarrow> ('w OnConnectState, unit) op" where
  "sync_connected ops peer =
     bindM (getM (\<lambda>s. op_getSyncContextGraphs ops (oc_world s))) (\<lambda>before.
     bindM (in_world (op_syncFromPeer ops peer None)) (\<lambda>_.
     bindM (getM (\<lambda>s. js_unique ([''agents'', ''ontology''] @ op_getSyncContextGraphs ops (oc_world s)))) (\<lambda>scope.
     bindM (in_world (op_refreshMetaSyncedFlags ops scope)) (\<lambda>_.
     bindM (in_world (op_discoverContextGraphs ops)) (\<lambda>_.
     bindM (getM (\<lambda>s. filter (\<lambda>i. i \<notin> set before) (op_getSyncContextGraphs ops (oc_world s)))) (\<lambda>discovered.
     bindM (if discovered \<noteq> [] then
              bindM (in_world (op_syncFromPeer ops peer (Some discovered))) (\<lambda>_.
              in_world (op_refreshMetaSyncedFlags ops discovered))
            else ret ()) (\<lambda>_.
     bindM (getM (\<lambda>s. op_getSyncContextGraphs ops (oc_world s))) (\<lambda>shared.
     if shared \<noteq> [] then bindM (in_world (op_syncSharedMemory ops peer shared)) (\<lambda>_. ret ()) else ret ()))))))))"

definition on_connect_body :: "'w OnConnectOps \<Rightarrow> string \<Rightarrow> ('w OnConnectState, unit) op" where
  "on_connect_body ops peer =
     bindM (in_world (op_getPeerProtocols ops peer)) (\<lambda>protocols.
     bindM (modM (note_core peer protocols)) (\<lambda>_.
     if PROTOCOL_SYNC \<notin> set protocols then ret () else sync_connected ops peer))"

definition runSyncOnConnect :: "'w OnConnectOps \<Rightarrow> string \<Rightarrow> ('w OnConnectState, unit) op" where
  "runSyncOnConnect ops peer s =
     (if peer \<in> set (oc_syncingPeers s) then (Inr (), s)
      else case on_connect_body ops peer (s\<lparr>oc_syncingPeers := set_add peer (oc_syncingPeers s)\<rparr>) of
        (r, s') \<Rightarrow> (r, s'\<lparr>oc_syncingPeers := filter (\<lambda>p. p \<noteq> peer) (oc_syncingPeers s')\<rparr>))"

section \<open>One run per peer\<close>

definition same_marks :: "('w OnConnectState, 'a) op \<Rightarrow> bool" where
  "same_marks f \<longleftrightarrow> (\<forall>s. oc_syncingPeers (snd (f s)) = oc_syncingPeers s)"

named_theorems same_marks_rules

lemma same_marks_bind [same_marks_rules]: "same_marks f \<Longrightarrow> (\<And>x. same_marks (g x)) \<Longrightarrow> same_marks (bindM f g)"
  by (auto simp: same_marks_def bindM_def split: prod.splits sum.splits) (metis snd_conv)+

lemma same_marks_basic [same_marks_rules]:
  "same_marks (in_world h)" "same_marks (getM k)" "same_marks (ret x)" "same_marks (modM (note_core peer protocols))"
  by (simp_all add: same_marks_def in_world_def getM_def ret_def modM_def note_core_def split: prod.splits)

lemma same_marks_if [same_marks_rules]: "same_marks f \<Longrightarrow> same_marks g \<Longrightarrow> same_marks (if b then f else g)"
  by simp

lemma body_same_marks: "same_marks (on_connect_body ops peer)"
  unfolding on_connect_body_def sync_connected_def by (intro same_marks_rules)

text \<open>
  A run that starts removes its own mark and no other, whether it succeeds or fails; while the mark of a
  peer is set, another run for the same peer does nothing.
\<close>

lemma on_connect_marks:
  "oc_syncingPeers (snd (runSyncOnConnect ops peer s)) = oc_syncingPeers s"
proof (cases "peer \<in> set (oc_syncingPeers s)")
  case False
  then have add: "set_add peer (oc_syncingPeers s) = oc_syncingPeers s @ [peer]" by (simp add: set_add_def)
  obtain r s' where b: "on_connect_body ops peer (s\<lparr>oc_syncingPeers := set_add peer (oc_syncingPeers s)\<rparr>) = (r, s')" by fastforce
  then have "oc_syncingPeers s' = oc_syncingPeers s @ [peer]"
    using body_same_marks [of ops peer] add by (metis OnConnectState.select_convs(1) OnConnectState.surjective
        OnConnectState.update_convs(1) same_marks_def snd_conv)
  then show ?thesis using False b by (auto simp: runSyncOnConnect_def filter_id_conv)
qed (simp add: runSyncOnConnect_def)

end
