(* ===== verification/AckDigest.thy ===== *)
theory AckDigest
  imports Merkle SyncAuth
begin

text \<open>
  The digests that nodes sign for a publish or an update (\<^verbatim>\<open>packages/core/src/crypto/ack.ts\<close>): numbers and
  addresses are packed at their width and hashed. Keccak is a parameter. The lemmas show that a packing determines
  its fields, so a digest binds them unless two of the packed texts at hand collide.
\<close>

section \<open>Packing\<close>

text \<open>The low \<open>n\<close> bytes of an integer, most significant first; a negative number wraps.\<close>

fun be_bytes :: "nat \<Rightarrow> int \<Rightarrow> bytes" where
  "be_bytes 0 v = []"
| "be_bytes (Suc n) v = be_bytes n (v div 256) @ [word_of_int v]"

definition uint256ToBytes :: "int \<Rightarrow> bytes" where
  "uint256ToBytes v = be_bytes 32 v"

definition uint72ToBytes :: "int \<Rightarrow> string + bytes" where
  "uint72ToBytes v =
     (if v < 0 \<or> v > 2 ^ 72 - 1 then Inl (''identityId must fit in uint72, got: '' @ show_int v)
      else Inr (be_bytes 9 v))"

fun address_pairs :: "string \<Rightarrow> bytes" where
  "address_pairs (a # b # s) = of_nat (16 * hex_value a + hex_value b) # address_pairs s"
| "address_pairs _ = []"

definition addressToBytes :: "string \<Rightarrow> string + bytes" where
  "addressToBytes address =
     (if length address \<noteq> 42 \<or> \<not> startsWith address ''0x'' then
        Inl (''kav10Address must be a 0x-prefixed 20-byte hex string, got: '' @ address)
      else if \<not> list_all is_hex (drop 2 address) then
        Inl (''kav10Address contains non-hex characters: '' @ address)
      else Inr (address_pairs (drop 2 address)))"

section \<open>Digests\<close>

definition root32 :: "bytes \<Rightarrow> string + unit" where
  "root32 mroot =
     throw_if (length mroot \<noteq> 32) (''merkleRoot must be 32 bytes, got '' @ show_nat (length mroot))"

text \<open>
  The digest of the verify flow: the two-field shape, and the six-field shape that is chosen by giving a number of
  knowledge assets.
\<close>

definition computeACKDigest ::
  "(bytes \<Rightarrow> bytes) \<Rightarrow> int \<Rightarrow> bytes \<Rightarrow> int option \<Rightarrow> int option \<Rightarrow> int option \<Rightarrow> int option \<Rightarrow> string + bytes"
where
  "computeACKDigest keccak cgId mroot kas nbytes eps amount =
     bindE (root32 mroot) (\<lambda>_.
       Inr (keccak (uint256ToBytes cgId @ mroot @
         (case kas of
            None \<Rightarrow> []
          | Some k \<Rightarrow> uint256ToBytes k @ uint256ToBytes (case nbytes of None \<Rightarrow> 0 | Some b \<Rightarrow> b)
              @ uint256ToBytes (case eps of None \<Rightarrow> 1 | Some e \<Rightarrow> e)
              @ uint256ToBytes (case amount of None \<Rightarrow> 0 | Some t \<Rightarrow> t)))))"

definition eip191Hash :: "(bytes \<Rightarrow> bytes) \<Rightarrow> bytes \<Rightarrow> bytes" where
  "eip191Hash keccak digest = keccak (utf8 (CHR 0x19 # ''Ethereum Signed Message:'' @ [NL] @ ''32'') @ digest)"

text \<open>The fields of a publish, as both sides of the protocol hash them.\<close>

record PublishFields =
  pf_chainId :: int
  pf_kav10Address :: string
  pf_contextGraphId :: int
  pf_merkleRoot :: bytes
  pf_kaCount :: int
  pf_byteSize :: int
  pf_epochs :: int
  pf_tokenAmount :: int
  pf_merkleLeafCount :: int

definition publish_packed :: "bytes \<Rightarrow> PublishFields \<Rightarrow> bytes" where
  "publish_packed addr f =
     uint256ToBytes (pf_chainId f) @ addr @ uint256ToBytes (pf_contextGraphId f) @ pf_merkleRoot f
       @ uint256ToBytes (pf_kaCount f) @ uint256ToBytes (pf_byteSize f) @ uint256ToBytes (pf_epochs f)
       @ uint256ToBytes (pf_tokenAmount f) @ uint256ToBytes (pf_merkleLeafCount f)"

definition computePublishACKDigest :: "(bytes \<Rightarrow> bytes) \<Rightarrow> PublishFields \<Rightarrow> string + bytes" where
  "computePublishACKDigest keccak f =
     bindE (root32 (pf_merkleRoot f)) (\<lambda>_.
     bindE (addressToBytes (pf_kav10Address f)) (\<lambda>addr. Inr (keccak (publish_packed addr f))))"

record UpdateFields =
  uf_chainId :: int
  uf_kav10Address :: string
  uf_contextGraphId :: int
  uf_kcId :: int
  uf_preUpdateMerkleRootCount :: int
  uf_newMerkleRoot :: bytes
  uf_newByteSize :: int
  uf_newTokenAmount :: int
  uf_mintAmount :: int
  uf_burnTokenIds :: "int list"
  uf_newMerkleLeafCount :: int

definition update_packed :: "(bytes \<Rightarrow> bytes) \<Rightarrow> bytes \<Rightarrow> UpdateFields \<Rightarrow> bytes" where
  "update_packed keccak addr f =
     uint256ToBytes (uf_chainId f) @ addr @ uint256ToBytes (uf_contextGraphId f) @ uint256ToBytes (uf_kcId f)
       @ uint256ToBytes (uf_preUpdateMerkleRootCount f) @ uf_newMerkleRoot f @ uint256ToBytes (uf_newByteSize f)
       @ uint256ToBytes (uf_newTokenAmount f) @ uint256ToBytes (uf_mintAmount f)
       @ keccak (concat (map uint256ToBytes (uf_burnTokenIds f))) @ uint256ToBytes (uf_newMerkleLeafCount f)"

definition computeUpdateACKDigest :: "(bytes \<Rightarrow> bytes) \<Rightarrow> UpdateFields \<Rightarrow> string + bytes" where
  "computeUpdateACKDigest keccak f =
     bindE (throw_if (length (uf_newMerkleRoot f) \<noteq> 32)
              (''newMerkleRoot must be 32 bytes, got '' @ show_nat (length (uf_newMerkleRoot f)))) (\<lambda>_.
     bindE (addressToBytes (uf_kav10Address f)) (\<lambda>addr. Inr (keccak (update_packed keccak addr f))))"

definition publisher_packed :: "int \<Rightarrow> bytes \<Rightarrow> bytes \<Rightarrow> int \<Rightarrow> bytes \<Rightarrow> bytes" where
  "publisher_packed chain addr idBytes cgId mroot =
     uint256ToBytes chain @ addr @ idBytes @ uint256ToBytes cgId @ mroot"

definition computePublishPublisherDigest ::
  "(bytes \<Rightarrow> bytes) \<Rightarrow> int \<Rightarrow> string \<Rightarrow> int \<Rightarrow> int \<Rightarrow> bytes \<Rightarrow> string + bytes" where
  "computePublishPublisherDigest keccak chain kav10Address publisherNodeIdentityId cgId mroot =
     bindE (root32 mroot) (\<lambda>_.
     bindE (addressToBytes kav10Address) (\<lambda>addr.
     bindE (uint72ToBytes publisherNodeIdentityId) (\<lambda>idBytes.
       Inr (keccak (publisher_packed chain addr idBytes cgId mroot)))))"

section \<open>A packing determines its fields\<close>

lemma length_be_bytes [simp]: "length (be_bytes n v) = n"
  by (induction n arbitrary: v) simp_all

lemma length_uint256 [simp]: "length (uint256ToBytes v) = 32"
  by (simp add: uint256ToBytes_def)

lemma be_bytes_eq_iff: "be_bytes n v = be_bytes n w \<longleftrightarrow> v mod 256 ^ n = w mod 256 ^ n"
proof (induction n arbitrary: v w)
  case (Suc n)
  have split: "x mod 256 ^ Suc n = 256 * (x div 256 mod 256 ^ n) + x mod 256" for x :: int
    using zmod_zmult2_eq [of "256 ^ n" x 256] by (simp add: mult.commute)
  have "word_of_int v = (word_of_int w :: byte) \<longleftrightarrow> v mod 256 = w mod 256"
    by (simp add: word_of_int_eq_iff take_bit_eq_mod)
  moreover have "(256 * a + b = 256 * c + d) = (a = c \<and> b = d)"
    if "0 \<le> b" "b < 256" "0 \<le> d" "d < 256" for a b c d :: int
  proof -
    have "(256 * x + y) div 256 = x" "(256 * x + y) mod 256 = y" if "0 \<le> y" "y < 256" for x y :: int using that by auto
    then show ?thesis using that by metis
  qed
  ultimately show ?case unfolding split by (auto simp: Suc.IH)
qed simp

lemma uint256_eq_iff: "uint256ToBytes v = uint256ToBytes w \<longleftrightarrow> v mod 2 ^ 256 = w mod 2 ^ 256"
proof -
  have "(256 :: int) ^ 32 = 2 ^ 256" using power_mult [of "2 :: int" 8 32] by simp
  then show ?thesis unfolding uint256ToBytes_def be_bytes_eq_iff by (simp only:)
qed

lemma uint256_inj:
  assumes "uint256ToBytes v = uint256ToBytes w" "0 \<le> v" "v < 2 ^ 256" "0 \<le> w" "w < 2 ^ 256" shows "v = w"
  using assms(1) mod_pos_pos_trivial [OF assms(2,3)] mod_pos_pos_trivial [OF assms(4,5)] unfolding uint256_eq_iff by (simp only:)

lemma length_address_pairs: "length (address_pairs s) = length s div 2"
  by (induction s rule: address_pairs.induct) simp_all

lemma hex_value_less: "is_hex c \<Longrightarrow> hex_value c < 16"
  by (auto simp: is_hex_def hex_value_def is_digit_def Let_def split: if_splits)

lemma addressToBytes_length: "addressToBytes a = Inr b \<Longrightarrow> length b = 20"
  by (auto simp: addressToBytes_def length_address_pairs split: if_splits)

text \<open>Two texts of an address have the same bytes iff they agree up to the case of letters.\<close>

lemma is_hex_cases: "is_hex c \<longleftrightarrow> c \<in> set ''0123456789abcdefABCDEF''"
proof -
  have "is_digit c \<longleftrightarrow> c \<in> set ''0123456789''"
  proof
    assume "is_digit c"
    then have "48 \<le> (of_char c :: nat)" "of_char c \<le> (57 :: nat)" by (auto simp: is_digit_def Let_def)
    then have "of_char c \<in> {48, 49, 50, 51, 52, 53, 54, 55, 56, 57 :: nat}" by (simp; arith)
    then have "char_of (of_char c :: nat) \<in> set ''0123456789''" by (elim insertE) (simp_all, (simp add: char_of_def bit_simps)+)
    then show "c \<in> set ''0123456789''" by simp
  qed (auto simp: is_digit_def)
  then show ?thesis by (auto simp: is_hex_def)
qed

lemma hex_value_toLower:
  assumes "is_hex c" "is_hex d" shows "hex_value c = hex_value d \<longleftrightarrow> lower_char c = lower_char d"
  using assms unfolding is_hex_cases by (simp, elim disjE; simp add: hex_value_def lower_char_def char_of_def bit_simps)

lemma radix_nat: "b < k \<Longrightarrow> d < k \<Longrightarrow> k * a + b = k * c + d \<longleftrightarrow> a = c \<and> b = (d :: nat)"
proof -
  assume less: "b < k" "d < k"
  have "(k * x + y) div k = x" "(k * x + y) mod k = y" if "y < k" for x y using that by auto
  then show ?thesis using less by metis
qed

lemma address_pairs_eq_iff:
  assumes "list_all is_hex s" "list_all is_hex t" "length s = length t" "even (length s)"
  shows "address_pairs s = address_pairs t \<longleftrightarrow> toLowerCase s = toLowerCase t"
  using assms
proof (induction s arbitrary: t rule: address_pairs.induct)
  case (1 a b s)
  then obtain c d u where t: "t = c # d # u" by (cases t rule: address_pairs.cases) auto
  have "(of_nat (16 * hex_value a + hex_value b) :: byte) = of_nat (16 * hex_value c + hex_value d)
      \<longleftrightarrow> hex_value a = hex_value c \<and> hex_value b = hex_value d"
  proof -
    have "hex_value x < 16" if "x \<in> {a, b, c, d}" for x using that 1(2,3) t hex_value_less by auto
    then have less: "hex_value a < 16" "hex_value b < 16" "hex_value c < 16" "hex_value d < 16" by auto
    then have "(of_nat (16 * hex_value a + hex_value b) :: byte) = of_nat (16 * hex_value c + hex_value d)
        \<longleftrightarrow> 16 * hex_value a + hex_value b = 16 * hex_value c + hex_value d"
      by (simp add: word_of_nat_eq_iff take_bit_eq_mod del: of_nat_add of_nat_mult)
    then show ?thesis using less by (simp only: radix_nat)
  qed
  then show ?case using 1 t hex_value_toLower by (auto simp: toLowerCase_def)
qed (auto simp: toLowerCase_def)

lemma addressToBytes_eq_iff:
  assumes "addressToBytes a = Inr x" "addressToBytes b = Inr y"
  shows "x = y \<longleftrightarrow> toLowerCase a = toLowerCase b"
proof -
  have a: "length a = 42" "startsWith a ''0x''" "list_all is_hex (drop 2 a)" "x = address_pairs (drop 2 a)"
    and b: "length b = 42" "startsWith b ''0x''" "list_all is_hex (drop 2 b)" "y = address_pairs (drop 2 b)"
    using assms by (auto simp: addressToBytes_def split: if_splits)
  have "take 2 a = ''0x''" "take 2 b = ''0x''" using a(2) b(2) by (simp_all add: startsWith_def numeral_2_eq_2)
  then have "a = ''0x'' @ drop 2 a" "b = ''0x'' @ drop 2 b" by (metis append_take_drop_id)+
  then have "toLowerCase a = toLowerCase b \<longleftrightarrow> toLowerCase (drop 2 a) = toLowerCase (drop 2 b)"
    by (metis toLowerCase_def map_append same_append_eq)
  then show ?thesis using address_pairs_eq_iff [OF a(3) b(3)] a b by simp
qed

definition publish_input :: "PublishFields \<Rightarrow> bytes" where
  "publish_input f = publish_packed (address_pairs (drop 2 (pf_kav10Address f))) f"

definition in_uint256 :: "int \<Rightarrow> bool" where
  "in_uint256 v \<longleftrightarrow> 0 \<le> v \<and> v < 2 ^ 256"

lemma in_uint256_inj: "uint256ToBytes v = uint256ToBytes w \<Longrightarrow> in_uint256 v \<Longrightarrow> in_uint256 w \<Longrightarrow> v = w"
  unfolding in_uint256_def by (elim conjE) (rule uint256_inj)

definition publish_fields_ok :: "PublishFields \<Rightarrow> bool" where
  "publish_fields_ok f \<longleftrightarrow> in_uint256 (pf_chainId f) \<and> in_uint256 (pf_contextGraphId f) \<and> in_uint256 (pf_kaCount f)
     \<and> in_uint256 (pf_byteSize f) \<and> in_uint256 (pf_epochs f) \<and> in_uint256 (pf_tokenAmount f) \<and> in_uint256 (pf_merkleLeafCount f)"

lemma publish_digest_Inr:
  "computePublishACKDigest keccak f = Inr d \<longleftrightarrow>
     length (pf_merkleRoot f) = 32 \<and> addressToBytes (pf_kav10Address f) = Inr (address_pairs (drop 2 (pf_kav10Address f)))
     \<and> d = keccak (publish_input f)"
  by (auto simp: computePublishACKDigest_def root32_def throw_if_def bindE_def publish_input_def addressToBytes_def
      split: sum.splits if_splits)

lemma length_publish_input:
  "computePublishACKDigest keccak f = Inr d \<Longrightarrow> length (publish_input f) = 276"
  using addressToBytes_length by (auto simp: publish_digest_Inr publish_input_def publish_packed_def)

lemma publish_digest_fields:
  assumes "computePublishACKDigest keccak f = Inr d" "computePublishACKDigest keccak g = Inr d"
    and "inj_on keccak {publish_input f, publish_input g}"
  shows "toLowerCase (pf_kav10Address f) = toLowerCase (pf_kav10Address g)" "pf_merkleRoot f = pf_merkleRoot g"
    "uint256ToBytes (pf_chainId f) = uint256ToBytes (pf_chainId g)"
    "uint256ToBytes (pf_contextGraphId f) = uint256ToBytes (pf_contextGraphId g)"
    "uint256ToBytes (pf_kaCount f) = uint256ToBytes (pf_kaCount g)"
    "uint256ToBytes (pf_byteSize f) = uint256ToBytes (pf_byteSize g)"
    "uint256ToBytes (pf_epochs f) = uint256ToBytes (pf_epochs g)"
    "uint256ToBytes (pf_tokenAmount f) = uint256ToBytes (pf_tokenAmount g)"
    "uint256ToBytes (pf_merkleLeafCount f) = uint256ToBytes (pf_merkleLeafCount g)"
proof -
  have fg: "length (pf_merkleRoot f) = 32" "length (pf_merkleRoot g) = 32"
    "addressToBytes (pf_kav10Address f) = Inr (address_pairs (drop 2 (pf_kav10Address f)))"
    "addressToBytes (pf_kav10Address g) = Inr (address_pairs (drop 2 (pf_kav10Address g)))"
    and "keccak (publish_input f) = keccak (publish_input g)"
    using assms(1,2) unfolding publish_digest_Inr by blast+
  then have eq: "publish_input f = publish_input g" using assms(3) unfolding inj_on_def by blast
  note len = fg(3,4) [THEN addressToBytes_length]
  show "pf_merkleRoot f = pf_merkleRoot g"
    "uint256ToBytes (pf_chainId f) = uint256ToBytes (pf_chainId g)"
    "uint256ToBytes (pf_contextGraphId f) = uint256ToBytes (pf_contextGraphId g)"
    "uint256ToBytes (pf_kaCount f) = uint256ToBytes (pf_kaCount g)"
    "uint256ToBytes (pf_byteSize f) = uint256ToBytes (pf_byteSize g)"
    "uint256ToBytes (pf_epochs f) = uint256ToBytes (pf_epochs g)"
    "uint256ToBytes (pf_tokenAmount f) = uint256ToBytes (pf_tokenAmount g)"
    "uint256ToBytes (pf_merkleLeafCount f) = uint256ToBytes (pf_merkleLeafCount g)"
    using eq fg by (simp_all add: publish_input_def publish_packed_def len)
  have "address_pairs (drop 2 (pf_kav10Address f)) = address_pairs (drop 2 (pf_kav10Address g))"
    using eq fg by (simp add: publish_input_def publish_packed_def len)
  then show "toLowerCase (pf_kav10Address f) = toLowerCase (pf_kav10Address g)"
    using addressToBytes_eq_iff [OF fg(3,4)] by blast
qed

lemma publish_digest_binds:
  assumes "computePublishACKDigest keccak f = Inr d" "computePublishACKDigest keccak g = Inr d"
    and "inj_on keccak {publish_input f, publish_input g}" and "publish_fields_ok f" "publish_fields_ok g"
  shows "toLowerCase (pf_kav10Address f) = toLowerCase (pf_kav10Address g) \<and>
    f\<lparr>pf_kav10Address := []\<rparr> = g\<lparr>pf_kav10Address := []\<rparr>"
proof -
  note fields = publish_digest_fields [OF assms(1-3)]
  have "pf_chainId f = pf_chainId g" "pf_contextGraphId f = pf_contextGraphId g" "pf_kaCount f = pf_kaCount g"
    "pf_byteSize f = pf_byteSize g" "pf_epochs f = pf_epochs g" "pf_tokenAmount f = pf_tokenAmount g"
    "pf_merkleLeafCount f = pf_merkleLeafCount g"
    using fields(3-9) [THEN in_uint256_inj] assms(4,5) by (simp_all only: publish_fields_ok_def)
  then show ?thesis using fields(1,2) by simp
qed

text \<open>The packings of a publish, of an update and of a publisher's own signature have different lengths.\<close>

lemma update_digest_Inr:
  "computeUpdateACKDigest keccak f = Inr d \<Longrightarrow> \<exists>addr. length addr = 20 \<and> length (uf_newMerkleRoot f) = 32
     \<and> addressToBytes (uf_kav10Address f) = Inr addr \<and> d = keccak (update_packed keccak addr f)"
  using addressToBytes_length
  by (fastforce simp: computeUpdateACKDigest_def throw_if_def bindE_def split: sum.splits if_splits)

lemma publisher_digest_Inr:
  "computePublishPublisherDigest keccak c a i g r = Inr d \<Longrightarrow> \<exists>addr idb. length addr = 20 \<and> length r = 32 \<and> length idb = 9
     \<and> addressToBytes a = Inr addr \<and> uint72ToBytes i = Inr idb \<and> d = keccak (publisher_packed c addr idb g r)"
  using addressToBytes_length
  by (fastforce simp: computePublishPublisherDigest_def root32_def throw_if_def bindE_def uint72ToBytes_def
      split: sum.splits if_splits)

lemma packing_lengths:
  assumes "length addr = 20" "length idb = 9" "length r = 32" "length (uf_newMerkleRoot u) = 32" "\<And>x. length (keccak x) = 32"
  shows "length (update_packed keccak addr u) = 340" "length (publisher_packed c addr idb g r) = 125"
  using assms by (simp_all add: update_packed_def publisher_packed_def)

end
