(* ===== verification/AckHandler.thy ===== *)
theory AckHandler
  imports AckDigest FlatKC SyncNQuads
begin

text \<open>
  The core node's side of storage acknowledgements (\<^verbatim>\<open>packages/publisher/src/storage-ack-handler.ts\<close>): a publisher's
  intent is checked against the quads it carries or against the shared memory of the node, the quads it carries are
  kept in a staging graph, and the digest of what was checked is signed. The triple store, the signing key, the chain
  and the protobuf codecs are fields of the node.
\<close>

section \<open>Messages\<close>

record PublishIntentMsg =
  pi_merkleRoot :: bytes
  pi_contextGraphId :: string
  pi_publisherPeerId :: string
  pi_publicByteSize :: int
  pi_isPrivate :: bool
  pi_kaCount :: int
  pi_rootEntities :: "string list"
  pi_stagingQuads :: "bytes option"
  pi_epochs :: "int option"
  pi_tokenAmountStr :: "string option"
  pi_swmGraphId :: "string option"
  pi_subGraphName :: "string option"
  pi_merkleLeafCount :: "int option"

text \<open>A 64-bit number of a message: a number, or a low and a high half.\<close>

datatype ProtoNum = Num int | Long int int

record StorageACKMsg =
  sa_merkleRoot :: bytes
  sa_coreNodeSignatureR :: bytes
  sa_coreNodeSignatureVS :: bytes
  sa_contextGraphId :: string
  sa_nodeIdentityId :: ProtoNum

datatype AckError =
    NotCore
  | BadIntent string
  | StagingTooLarge nat
  | NoParseableQuads
  | KaCountMismatch int nat nat
  | RootEntityMissing string
  | InlineRootMismatch
  | NoDataFound string
  | RootMismatch
  | NonNumericContextGraph string
  | NonPositiveContextGraph int
  | BadTokenAmount string
  | EmptyCollection
  | LeafCountMismatch int nat
  | LookupFailed
  | SignerNotRegistered
  | IdentityTooLarge int
  | Failed string

section \<open>The node\<close>

datatype SignerEvent = SignerLookupFailed string | SignerUnregistered

text \<open>
  What the node keeps: the quads of its store, the staging graphs that a timer will drop, and the notices about its
  signer.
\<close>

record AckState =
  as_store :: "Quad list"
  as_cleanups :: "string list"
  as_notices :: "SignerEvent list"

record StorageACKNode =
  sn_isCore :: bool
  sn_nodeIdentityId :: int
  sn_signMessage :: "bytes \<Rightarrow> string + bytes \<times> bytes"
  sn_contextGraphSharedMemoryUri :: "string \<Rightarrow> string option \<Rightarrow> string"
  sn_chainId :: int
  sn_kav10Address :: string
  sn_isSignerRegistered :: "(string + bool) option"
  sn_keccak :: "bytes \<Rightarrow> bytes"
  sn_decodeIntent :: "bytes \<Rightarrow> string + PublishIntentMsg"
  sn_encodeACK :: "StorageACKMsg \<Rightarrow> bytes"
  sn_decodeText :: "bytes \<Rightarrow> string"
  sn_query :: "Quad list \<Rightarrow> sparql_query"
  sn_dropGraph :: "string \<Rightarrow> Quad list \<Rightarrow> string + Quad list"
  sn_insert :: "Quad list \<Rightarrow> Quad list \<Rightarrow> string + Quad list"

text \<open>The publisher's copy of the N-Quads parser is that of the sync protocol.\<close>

definition parseSimpleNQuads :: "string \<Rightarrow> Quad list" where
  "parseSimpleNQuads txt = List.map_filter line_quad (split_lines txt)"

definition MAX_STAGING_BYTES :: int where
  "MAX_STAGING_BYTES = 4 * 1024 * 1024"

definition uniqueSubjects :: "Quad list \<Rightarrow> string list" where
  "uniqueSubjects qs = js_unique (map subject qs)"

definition rootSubjects :: "Quad list \<Rightarrow> string list" where
  "rootSubjects qs = filter (\<lambda>s. \<not> str_includes s ''/.well-known/genid/'') (uniqueSubjects qs)"

definition stagingGraphUri :: "string \<Rightarrow> bytes \<Rightarrow> string" where
  "stagingGraphUri swmGraphUri mroot = swmGraphUri @ ''/staging/'' @ take 16 (hex_bytes mroot)"

section \<open>Checking the quads\<close>

definition check_staged :: "StorageACKNode \<Rightarrow> PublishIntentMsg \<Rightarrow> bytes \<Rightarrow> AckError + Quad list" where
  "check_staged n i staging =
     (if int (length staging) > MAX_STAGING_BYTES then Inl (StagingTooLarge (length staging))
      else let parsed = parseSimpleNQuads (sn_decodeText n staging); roots = rootSubjects parsed in
        if parsed = [] then Inl NoParseableQuads
        else if pi_kaCount i > 0 \<and> int (length roots) \<noteq> pi_kaCount i then
          Inl (KaCountMismatch (pi_kaCount i) (length roots) (length (uniqueSubjects parsed)))
        else case find (\<lambda>e. e \<notin> set roots) (pi_rootEntities i) of
          Some e \<Rightarrow> Inl (RootEntityMissing e)
        | None \<Rightarrow>
            if \<not> bytesEqual (computeFlatKCRootV10 (sn_keccak n) parsed []) (pi_merkleRoot i) then Inl InlineRootMismatch
            else Inr parsed)"

definition store_op :: "(Quad list \<Rightarrow> string + Quad list) \<Rightarrow> (AckState, AckError, unit) eop" where
  "store_op f st = (case f (as_store st) of Inl e \<Rightarrow> (Inl (Failed e), st) | Inr qs \<Rightarrow> (Inr (), st\<lparr>as_store := qs\<rparr>))"

text \<open>The verified quads go into the staging graph, which a timer will drop after ten minutes.\<close>

definition stage :: "StorageACKNode \<Rightarrow> string \<Rightarrow> Quad list \<Rightarrow> (AckState, AckError, unit) eop" where
  "stage n g parsed =
     bindM (store_op (sn_dropGraph n g)) (\<lambda>_.
     bindM (store_op (sn_insert n (map (\<lambda>q. q\<lparr>graph := g\<rparr>) parsed))) (\<lambda>_.
       modM (\<lambda>st. st\<lparr>as_cleanups := as_cleanups st @ [g]\<rparr>)))"

text \<open>The timer: a failure to drop the graph is ignored.\<close>

definition cleanup :: "StorageACKNode \<Rightarrow> string \<Rightarrow> AckState \<Rightarrow> AckState" where
  "cleanup n g st = (if g \<in> set (as_cleanups st)
     then (snd (store_op (sn_dropGraph n g) st))\<lparr>as_cleanups := remove1 g (as_cleanups st)\<rparr> else st)"

definition swmQuery :: "string \<Rightarrow> string" where
  "swmQuery g = ''CONSTRUCT { ?s ?p ?o } WHERE { GRAPH <'' @ g @ ''> { ?s ?p ?o } }''"

definition swmEntityQuery :: "string \<Rightarrow> string \<Rightarrow> string" where
  "swmEntityQuery g e =
     ''CONSTRUCT { ?s ?p ?o } WHERE { GRAPH <'' @ g @ ''> { ?s ?p ?o . FILTER(?s = <'' @ e
       @ ''> || STRSTARTS(STR(?s), '' @ [QUOTE] @ e @ ''/.well-known/genid/'' @ [QUOTE] @ '')) } }''"

fun result_quads :: "QueryResult \<Rightarrow> Quad list" where
  "result_quads (QuadsResult qs) = qs"
| "result_quads _ = []"

fun load_entities :: "sparql_query \<Rightarrow> string \<Rightarrow> string list \<Rightarrow> string + Quad list" where
  "load_entities query g [] = Inr []"
| "load_entities query g (e # es) =
     bindE (assertSafeIri e) (\<lambda>_.
     bindE (query (swmEntityQuery g e)) (\<lambda>r.
     bindE (load_entities query g es) (\<lambda>qs. Inr (result_quads r @ qs))))"

definition loadSWMQuads :: "sparql_query \<Rightarrow> string \<Rightarrow> string list \<Rightarrow> string + Quad list" where
  "loadSWMQuads query g entities =
     bindE (assertSafeIri g) (\<lambda>_.
       if entities = [] then bindE (query (swmQuery g)) (\<lambda>r. Inr (result_quads r))
       else load_entities query g entities)"

definition check_shared :: "StorageACKNode \<Rightarrow> PublishIntentMsg \<Rightarrow> string \<Rightarrow> Quad list \<Rightarrow> AckError + Quad list" where
  "check_shared n i g store =
     bindE (map_sum Failed id (loadSWMQuads (sn_query n store) g (pi_rootEntities i))) (\<lambda>qs.
       if qs = [] then Inl (NoDataFound g)
       else if \<not> bytesEqual (computeFlatKCRootV10 (sn_keccak n) qs []) (pi_merkleRoot i) then Inl RootMismatch
       else Inr qs)"

definition nonblank :: "string option \<Rightarrow> string option" where
  "nonblank s = (case s of Some t \<Rightarrow> (if t = [] then None else Some t) | None \<Rightarrow> None)"

definition swm_graph :: "StorageACKNode \<Rightarrow> PublishIntentMsg \<Rightarrow> string" where
  "swm_graph n i = sn_contextGraphSharedMemoryUri n
     (case nonblank (pi_swmGraphId i) of Some g \<Rightarrow> g | None \<Rightarrow> pi_contextGraphId i) (nonblank (pi_subGraphName i))"

definition verified_quads :: "StorageACKNode \<Rightarrow> PublishIntentMsg \<Rightarrow> (AckState, AckError, Quad list) eop" where
  "verified_quads n i =
     (case pi_stagingQuads i of
        Some (b # bs) \<Rightarrow>
          bindM (liftE (check_staged n i (b # bs))) (\<lambda>parsed.
          bindM (stage n (stagingGraphUri (swm_graph n i) (pi_merkleRoot i)) parsed) (\<lambda>_. ret parsed))
      | _ \<Rightarrow> bindM (getM as_store) (\<lambda>store. liftE (check_shared n i (swm_graph n i) store)))"

section \<open>Signing\<close>

text \<open>The fields that are signed: counts from the verified quads, sizes and amounts as claimed.\<close>

definition ack_fields :: "StorageACKNode \<Rightarrow> PublishIntentMsg \<Rightarrow> Quad list \<Rightarrow> AckError + PublishFields" where
  "ack_fields n i qs =
     (case toBigInt (pi_contextGraphId i) of
        None \<Rightarrow> Inl (NonNumericContextGraph (pi_contextGraphId i))
      | Some cg \<Rightarrow>
          if cg \<le> 0 then Inl (NonPositiveContextGraph cg)
          else let eps = (case pi_epochs i of Some e \<Rightarrow> (if e > 0 then e else 1) | None \<Rightarrow> 1) in
            case (case nonblank (pi_tokenAmountStr i) of None \<Rightarrow> Some 0 | Some t \<Rightarrow> toBigInt t) of
              None \<Rightarrow> Inl (BadTokenAmount (the (pi_tokenAmountStr i)))
            | Some amount \<Rightarrow>
                let leaves = computeFlatKCMerkleLeafCountV10 (sn_keccak n) qs [];
                    claimed = (case pi_merkleLeafCount i of None \<Rightarrow> 0 | Some c \<Rightarrow> c) in
                if leaves = 0 then Inl EmptyCollection
                else if claimed \<noteq> int leaves then Inl (LeafCountMismatch claimed leaves)
                else Inr \<lparr>pf_chainId = sn_chainId n, pf_kav10Address = sn_kav10Address n, pf_contextGraphId = cg,
                          pf_merkleRoot = pi_merkleRoot i,
                          pf_kaCount = int (length (js_unique (filter (\<lambda>s. \<not> str_includes s ''/.well-known/genid/'') (map subject qs)))),
                          pf_byteSize = pi_publicByteSize i, pf_epochs = eps, pf_tokenAmount = amount,
                          pf_merkleLeafCount = int leaves\<rparr>)"

definition check_signer :: "StorageACKNode \<Rightarrow> (AckState, AckError, unit) eop" where
  "check_signer n =
     (case sn_isSignerRegistered n of
        None \<Rightarrow> ret ()
      | Some (Inl e) \<Rightarrow> bindM (modM (\<lambda>st. st\<lparr>as_notices := as_notices st @ [SignerLookupFailed e]\<rparr>)) (\<lambda>_. throw LookupFailed)
      | Some (Inr False) \<Rightarrow> bindM (modM (\<lambda>st. st\<lparr>as_notices := as_notices st @ [SignerUnregistered]\<rparr>)) (\<lambda>_. throw SignerNotRegistered)
      | Some (Inr True) \<Rightarrow> ret ())"

definition wire_identity :: "int \<Rightarrow> ProtoNum" where
  "wire_identity v = (if v \<le> 2 ^ 53 - 1 then Num v else Long (take_bit 32 v) (take_bit 32 (drop_bit 32 v)))"

definition sign_ack :: "StorageACKNode \<Rightarrow> PublishIntentMsg \<Rightarrow> bytes \<Rightarrow> AckError + bytes" where
  "sign_ack n i digest =
     bindE (map_sum Failed id (sn_signMessage n digest)) (\<lambda>(r, vs).
       if sn_nodeIdentityId n > 2 ^ 64 - 1 then Inl (IdentityTooLarge (sn_nodeIdentityId n))
       else Inr (sn_encodeACK n \<lparr>sa_merkleRoot = pi_merkleRoot i, sa_coreNodeSignatureR = r, sa_coreNodeSignatureVS = vs,
                   sa_contextGraphId = pi_contextGraphId i, sa_nodeIdentityId = wire_identity (sn_nodeIdentityId n)\<rparr>))"

text \<open>
  The handler as one step. The code awaits the look-up of the signer and the signature after it has staged the quads, so the
  timer of an earlier request can drop the staging graph in between (\<open>cleanup\<close> is a step of its own); what the handler promises
  is that the quads were staged in the call that signed.
\<close>

definition storage_ack_handler :: "StorageACKNode \<Rightarrow> bytes \<Rightarrow> (AckState, AckError, bytes) eop" where
  "storage_ack_handler n data =
     (if \<not> sn_isCore n then throw NotCore
      else bindM (liftE (map_sum BadIntent id (sn_decodeIntent n data))) (\<lambda>i.
           bindM (verified_quads n i) (\<lambda>qs.
           bindM (liftE (ack_fields n i qs)) (\<lambda>f.
           bindM (liftE (map_sum Failed id (computePublishACKDigest (sn_keccak n) f))) (\<lambda>digest.
           bindM (check_signer n) (\<lambda>_. liftE (sign_ack n i digest)))))))"

section \<open>What an acknowledgement rests on\<close>

lemmas eop_defs = bindM_def throw_def ret_def liftE_def getM_def modM_def

text \<open>The triple store: dropping a graph removes its quads, inserting adds quads, nothing else changes.\<close>

definition store_laws :: "StorageACKNode \<Rightarrow> bool" where
  "store_laws n \<longleftrightarrow>
     (\<forall>g s s'. sn_dropGraph n g s = Inr s' \<longrightarrow> set s' = {q \<in> set s. graph q \<noteq> g}) \<and>
     (\<forall>qs s s'. sn_insert n qs s = Inr s' \<longrightarrow> set s' = set s \<union> set qs)"

lemma bindM_Inr:
  "bindM m f s = (Inr y, t) \<longleftrightarrow> (\<exists>x u. m s = (Inr x, u) \<and> f x u = (Inr y, t))"
  by (auto simp: bindM_def split: prod.splits sum.splits)

lemma liftE_Inr: "liftE m s = (Inr y, t) \<longleftrightarrow> m = Inr y \<and> t = s"
  by (auto simp: liftE_def)

lemma map_sum_Inr: "map_sum c id m = Inr y \<longleftrightarrow> m = Inr y"
  by (cases m) auto

lemma check_signer_Inr:
  "check_signer n s = (Inr u, t) \<longleftrightarrow> t = s \<and> (sn_isSignerRegistered n = None \<or> sn_isSignerRegistered n = Some (Inr True))"
  by (auto simp: check_signer_def eop_defs split: option.splits sum.splits bool.splits)

lemma check_staged_Inr:
  "check_staged n i b = Inr qs \<longleftrightarrow>
     int (length b) \<le> MAX_STAGING_BYTES \<and> qs = parseSimpleNQuads (sn_decodeText n b) \<and> qs \<noteq> []
     \<and> (pi_kaCount i > 0 \<longrightarrow> int (length (rootSubjects qs)) = pi_kaCount i)
     \<and> set (pi_rootEntities i) \<subseteq> set (rootSubjects qs)
     \<and> computeFlatKCRootV10 (sn_keccak n) qs [] = pi_merkleRoot i"
  by (auto simp: check_staged_def Let_def find_None_iff find_Some_iff subset_eq split: if_splits option.splits)

lemma check_shared_Inr:
  "check_shared n i g s = Inr qs \<longleftrightarrow>
     loadSWMQuads (sn_query n s) g (pi_rootEntities i) = Inr qs \<and> qs \<noteq> []
     \<and> computeFlatKCRootV10 (sn_keccak n) qs [] = pi_merkleRoot i"
  by (auto simp: check_shared_def bindE_Inr map_sum_Inr split: if_splits)

lemma stage_Inr:
  assumes "stage n g qs s = (Inr u, t)" "store_laws n"
  shows "set (as_store t) = {q \<in> set (as_store s). graph q \<noteq> g} \<union> (\<lambda>q. q\<lparr>graph := g\<rparr>) ` set qs
    \<and> as_cleanups t = as_cleanups s @ [g]"
  using assms
  by (fastforce simp: stage_def bindM_Inr store_op_def modM_def store_laws_def split: sum.splits)

definition staged_in :: "AckState \<Rightarrow> string \<Rightarrow> Quad list" where
  "staged_in s g = filter (\<lambda>q. graph q = g) (as_store s)"

text \<open>
  Where the checked quads are after an acknowledgement: in the staging graph, alone, with a timer set, or in the shared memory
  as the node's store answers for it.
\<close>

definition holds_quads :: "StorageACKNode \<Rightarrow> PublishIntentMsg \<Rightarrow> Quad list \<Rightarrow> AckState \<Rightarrow> bool" where
  "holds_quads n i qs s \<longleftrightarrow>
     (case pi_stagingQuads i of
        Some (b # bs) \<Rightarrow>
          (let g = stagingGraphUri (swm_graph n i) (pi_merkleRoot i) in
           set (staged_in s g) = (\<lambda>q. q\<lparr>graph := g\<rparr>) ` set qs \<and> g \<in> set (as_cleanups s))
      | _ \<Rightarrow> loadSWMQuads (sn_query n (as_store s)) (swm_graph n i) (pi_rootEntities i) = Inr qs)"

lemma verified_quads_Inr:
  assumes "verified_quads n i s = (Inr qs, t)" "store_laws n"
  shows "holds_quads n i qs t \<and> qs \<noteq> [] \<and> computeFlatKCRootV10 (sn_keccak n) qs [] = pi_merkleRoot i
    \<and> as_notices t = as_notices s"
proof (cases "pi_stagingQuads i")
  case (Some b)
  show ?thesis
  proof (cases b)
    case (Cons c cs)
    let ?g = "stagingGraphUri (swm_graph n i) (pi_merkleRoot i)"
    obtain u where "check_staged n i b = Inr qs" and st: "stage n ?g qs s = (Inr u, t)"
      using assms(1) Some Cons by (auto simp: verified_quads_def bindM_Inr liftE_Inr ret_def)
    moreover have "set (staged_in t ?g) = (\<lambda>q. q\<lparr>graph := ?g\<rparr>) ` set qs" "?g \<in> set (as_cleanups t)"
      using stage_Inr [OF st assms(2)] by (auto simp: staged_in_def)
    moreover have "as_notices t = as_notices s"
      using st by (auto simp: stage_def bindM_Inr store_op_def modM_def split: sum.splits)
    ultimately show ?thesis using Some Cons by (auto simp: holds_quads_def Let_def check_staged_Inr)
  qed (use assms Some in \<open>auto simp: verified_quads_def holds_quads_def bindM_Inr getM_def liftE_Inr check_shared_Inr\<close>)
qed (use assms in \<open>auto simp: verified_quads_def holds_quads_def bindM_Inr getM_def liftE_Inr check_shared_Inr\<close>)

lemma ack_fields_Inr:
  assumes "ack_fields n i qs = Inr f"
  shows "pf_merkleRoot f = pi_merkleRoot i \<and> pf_chainId f = sn_chainId n \<and> pf_kav10Address f = sn_kav10Address n
    \<and> toBigInt (pi_contextGraphId i) = Some (pf_contextGraphId f) \<and> pf_contextGraphId f > 0
    \<and> pf_kaCount f = int (length (rootSubjects qs)) \<and> pf_byteSize f = pi_publicByteSize i
    \<and> pf_merkleLeafCount f = int (computeFlatKCMerkleLeafCountV10 (sn_keccak n) qs [])
    \<and> pi_merkleLeafCount i = Some (pf_merkleLeafCount f) \<and> pf_merkleLeafCount f > 0"
proof -
  have "length (js_unique (filter P xs)) = length (filter P (js_unique xs))" for P and xs :: "string list"
    by (metis distinct_card distinct_filter distinct_js_unique set_filter set_js_unique)
  then show ?thesis using assms
    by (auto simp: ack_fields_def Let_def rootSubjects_def uniqueSubjects_def split: option.splits if_splits)
qed

lemma storage_ack_Inr:
  assumes "storage_ack_handler n data s = (Inr resp, t)"
  obtains i qs f d r vs where "sn_isCore n" "sn_decodeIntent n data = Inr i" "verified_quads n i s = (Inr qs, t)"
    "ack_fields n i qs = Inr f" "computePublishACKDigest (sn_keccak n) f = Inr d"
    "sn_isSignerRegistered n = None \<or> sn_isSignerRegistered n = Some (Inr True)"
    "sn_signMessage n d = Inr (r, vs)"
    "resp = sn_encodeACK n \<lparr>sa_merkleRoot = pi_merkleRoot i, sa_coreNodeSignatureR = r, sa_coreNodeSignatureVS = vs,
       sa_contextGraphId = pi_contextGraphId i, sa_nodeIdentityId = wire_identity (sn_nodeIdentityId n)\<rparr>"
  using assms
  by (auto simp: storage_ack_handler_def throw_def bindM_Inr liftE_Inr map_sum_Inr check_signer_Inr sign_ack_def bindE_Inr
      split: if_splits prod.splits)

end
