(* ===== verification/AckCollect.thy ===== *)
theory AckCollect
  imports AckHandler
begin

unbundle bit_operations_syntax

text \<open>
  Collecting signatures from peers: storage acknowledgements (\<^verbatim>\<open>packages/publisher/src/ack-collector.ts\<close>) and approvals
  of a verify proposal (\<^verbatim>\<open>verify-collector.ts\<close>), and the peer's side of the latter (\<^verbatim>\<open>verify-proposal-handler.ts\<close>).
  The peers answer concurrently; a run is the order in which their requests settle and the timer fires. The locale
  \<open>quorum_collector\<close> holds what both collectors share.
\<close>

section \<open>The race of the peers\<close>

datatype Completion = Settled string | TimedOut

text \<open>
  \<open>race offer enough answer pending st es\<close> runs until every request has settled, enough answers are collected or the
  timer fires; the flag says whether it was the timer. With no events left it is still waiting.
\<close>

fun race ::
  "('st \<Rightarrow> 'a \<Rightarrow> 'st) \<Rightarrow> ('st \<Rightarrow> bool) \<Rightarrow> (string \<Rightarrow> 'a option) \<Rightarrow> string list \<Rightarrow> 'st \<Rightarrow> Completion list \<Rightarrow> ('st \<times> bool) option"
where
  "race offer enough answer [] st es = Some (st, False)"
| "race offer enough answer (p # ps) st [] = None"
| "race offer enough answer (p # ps) st (TimedOut # es) = Some (st, True)"
| "race offer enough answer (p # ps) st (Settled q # es) =
     (if q \<notin> set (p # ps) then race offer enough answer (p # ps) st es
      else case answer q of
        None \<Rightarrow> race offer enough answer (remove1 q (p # ps)) st es
      | Some a \<Rightarrow>
          let st' = offer st a in
          if enough st' then Some (st', False) else race offer enough answer (remove1 q (p # ps)) st' es)"

lemma race_skip: "q \<notin> set ps \<Longrightarrow> race offer enough answer ps st (Settled q # es) = race offer enough answer ps st es"
  by (cases ps) auto

lemma race_settled:
  "q \<in> set ps \<Longrightarrow> race offer enough answer ps st (Settled q # es) =
     (case answer q of
        None \<Rightarrow> race offer enough answer (remove1 q ps) st es
      | Some a \<Rightarrow> if enough (offer st a) then Some (offer st a, False)
                  else race offer enough answer (remove1 q ps) (offer st a) es)"
  by (cases ps) (auto simp: Let_def split: option.splits)

locale quorum_collector =
  fixes offer :: "'st \<Rightarrow> 'a \<Rightarrow> 'st" and got :: "'st \<Rightarrow> 'a list" and from_peer :: "'a \<Rightarrow> string" and key :: "'a \<Rightarrow> 'k"
    and consistent :: "'st \<Rightarrow> bool"
  assumes consistent_offer: "consistent st \<Longrightarrow> consistent (offer st a)"
    and got_offer: "consistent st \<Longrightarrow> got (offer st a) = got st \<or> got (offer st a) = got st @ [a]"
    and key_offer: "consistent st \<Longrightarrow> from_peer a \<notin> from_peer ` set (got st) \<Longrightarrow> key a \<in> key ` set (got (offer st a))"
    and key_distinct: "consistent st \<Longrightarrow> distinct (map key (got st))"
begin

text \<open>Whatever the order of the answers: what is collected was answered, and nothing is collected beyond the quorum.\<close>

lemma race_sound:
  assumes "race offer (\<lambda>st. req \<le> length (got st)) answer ps st es = Some (st', timedOut)"
    and "consistent st" "length (got st) < req"
  shows "consistent st' \<and> length (got st') \<le> req \<and> set (got st') \<subseteq> set (got st) \<union> {a. \<exists>p \<in> set ps. answer p = Some a}"
  using assms
proof (induction es arbitrary: ps st)
  case Nil
  then show ?case by (cases ps) auto
next
  case (Cons e es)
  show ?case
  proof (cases e)
    case TimedOut
    then show ?thesis using Cons.prems by (cases ps) auto
  next
    case (Settled q)
    show ?thesis
    proof (cases "q \<in> set ps")
      case False
      then show ?thesis using Cons Settled by (simp add: race_skip)
    next
      case True
      show ?thesis
      proof (cases "answer q")
        case None
        then have "race offer (\<lambda>st. req \<le> length (got st)) answer (remove1 q ps) st es = Some (st', timedOut)"
          using Cons.prems(1) Settled True by (simp add: race_settled)
        from Cons.IH [OF this Cons.prems(2,3)] show ?thesis using set_remove1_subset [of q ps] by blast
      next
        case (Some a)
        note g = got_offer [OF Cons.prems(2), of a] and c = consistent_offer [OF Cons.prems(2), of a]
        show ?thesis
        proof (cases "req \<le> length (got (offer st a))")
          case full: True
          then have "st' = offer st a" using Cons.prems(1) Settled True Some by (simp add: race_settled)
          then show ?thesis using g c full Cons.prems(3) True Some by auto
        next
          case False
          then have "race offer (\<lambda>st. req \<le> length (got st)) answer (remove1 q ps) (offer st a) es = Some (st', timedOut)"
            using Cons.prems(1) Settled True Some by (simp add: race_settled)
          from Cons.IH [OF this c] False
          have "consistent st' \<and> length (got st') \<le> req \<and>
            set (got st') \<subseteq> set (got (offer st a)) \<union> {a. \<exists>p \<in> set (remove1 q ps). answer p = Some a}" by simp
          moreover have "set (got (offer st a)) \<subseteq> set (got st) \<union> {a}" using g by auto
          ultimately show ?thesis using set_remove1_subset [of q ps] True Some by blast
        qed
      qed
    qed
  qed
qed

text \<open>
  The race succeeds when the requests of some peers with enough different keys settle before the timer fires, whatever the
  other peers do.
\<close>

lemma race_live:
  assumes "consistent st" "distinct ps" "from_peer ` set (got st) \<inter> set ps = {}"
    and answers: "\<And>p a. answer p = Some a \<Longrightarrow> from_peer a = p"
    and "H \<subseteq> set ps" "\<And>p. p \<in> H \<Longrightarrow> \<exists>a. answer p = Some a \<and> key a = k p"
    and "TimedOut \<notin> set es" "Settled ` H \<subseteq> set es"
    and "req \<le> card (key ` set (got st) \<union> k ` H)" "length (got st) < req"
  shows "\<exists>st'. race offer (\<lambda>st. req \<le> length (got st)) answer ps st (es @ fs) = Some (st', False) \<and> req \<le> length (got st')"
  using assms(1-3,5-)
proof (induction es arbitrary: ps st H)
  case Nil
  then have "card (key ` set (got st)) \<ge> req" by simp
  then show ?case using Nil.prems(9) card_image_le [of "set (got st)" key] card_length [of "got st"] by simp
next
  case (Cons e es)
  then obtain q where e: "e = Settled q" by (cases e) auto
  show ?case
  proof (cases "q \<in> set ps")
    case False
    then have "q \<notin> H" using Cons.prems(4) by blast
    then have "Settled ` H \<subseteq> set es" using Cons.prems(7) e by auto
    then show ?thesis using Cons.IH [OF Cons.prems(1-5)] Cons.prems(6,8,9) False e by (simp add: race_skip)
  next
    case True
    have H': "H - {q} \<subseteq> set (remove1 q ps)" using Cons.prems(2,4) by (simp add: set_remove1_eq) blast
    show ?thesis
    proof (cases "answer q")
      case None
      then have q: "q \<notin> H" using Cons.prems(5) by fastforce
      then have "Settled ` H \<subseteq> set es" "H \<subseteq> set (remove1 q ps)" using Cons.prems(7) H' e by auto
      moreover have "from_peer ` set (got st) \<inter> set (remove1 q ps) = {}"
        using Cons.prems(3) set_remove1_subset [of q ps] by blast
      ultimately show ?thesis using Cons.IH [of st "remove1 q ps" H] Cons.prems True None e
        by (simp add: race_settled)
    next
      case (Some a)
      let ?st = "offer st a"
      have c: "consistent ?st" using consistent_offer Cons.prems(1) .
      have "from_peer a = q" using answers Some .
      then have "from_peer a \<notin> from_peer ` set (got st)" and ps: "from_peer a \<notin> set (remove1 q ps)"
        using Cons.prems(2,3) True by auto
      then have ka: "key a \<in> key ` set (got ?st)" using key_offer [OF Cons.prems(1)] by blast
      have fp: "from_peer ` set (got ?st) \<inter> set (remove1 q ps) = {}"
        using got_offer [OF Cons.prems(1), of a] Cons.prems(3) set_remove1_subset [of q ps] ps by auto blast+
      have "key ` set (got st) \<subseteq> key ` set (got ?st)" using got_offer [OF Cons.prems(1), of a] by auto
      moreover have "k x \<in> key ` set (got ?st) \<union> k ` (H - {q})" if "x \<in> H" for x
        using that Cons.prems(5) [of q] Some ka by (cases "x = q") auto
      ultimately have sub: "key ` set (got st) \<union> k ` H \<subseteq> key ` set (got ?st) \<union> k ` (H - {q})" by auto
      have "finite (key ` set (got ?st) \<union> k ` (H - {q}))" using finite_subset [OF Cons.prems(4)] by simp
      then have "req \<le> card (key ` set (got ?st) \<union> k ` (H - {q}))"
        using Cons.prems(8) card_mono [OF _ sub] by linarith
      moreover have "Settled ` (H - {q}) \<subseteq> set es" using Cons.prems(7) e by auto
      ultimately show ?thesis
        using Cons.IH [of ?st "remove1 q ps" "H - {q}"] c fp H' Cons.prems(2,5,6) True Some e
        by (auto simp: race_settled not_le)
    qed
  qed
qed

end

section \<open>Storage acknowledgements\<close>

record CollectedACK =
  ca_peerId :: string
  ca_signatureR :: bytes
  ca_signatureVS :: bytes
  ca_nodeIdentityId :: int

record ACKCollectionResult =
  ar_acks :: "CollectedACK list"
  ar_merkleRoot :: bytes
  ar_contextGraphId :: int

record CollectParams =
  cp_merkleRoot :: bytes
  cp_contextGraphId :: int
  cp_contextGraphIdStr :: string
  cp_publisherPeerId :: string
  cp_publicByteSize :: int
  cp_isPrivate :: bool
  cp_kaCount :: int
  cp_rootEntities :: "string list"
  cp_chainId :: int
  cp_kav10Address :: string
  cp_requiredACKs :: "int option"
  cp_stagingQuads :: "bytes option"
  cp_epochs :: "int option"
  cp_tokenAmount :: "int option"
  cp_swmGraphId :: "string option"
  cp_subGraphName :: "string option"
  cp_merkleLeafCount :: int

text \<open>What the collector is given: the peers' answers to each attempt, the chain's view of identities, and cryptography.\<close>

record ACKCollectorDeps =
  ad_sendP2P :: "string \<Rightarrow> nat \<Rightarrow> bytes \<Rightarrow> string + bytes"
  ad_getConnectedCorePeers :: "string list"
  ad_verifyIdentity :: "(string \<Rightarrow> int \<Rightarrow> string + bool) option"
  ad_keccak :: "bytes \<Rightarrow> bytes"
  ad_hashMessage :: "bytes \<Rightarrow> bytes"
  ad_recoverAddress :: "bytes \<Rightarrow> bytes \<Rightarrow> bytes \<Rightarrow> string + string"
  ad_encodeIntent :: "PublishIntentMsg \<Rightarrow> bytes"
  ad_decodeACK :: "bytes \<Rightarrow> string + StorageACKMsg"

datatype CollectError =
    BadLeafCount int
  | NoCorePeers
  | QuorumImpossible int nat
  | DigestError string
  | AckTimeout nat int
  | AckInsufficient nat int nat

definition DEFAULT_REQUIRED_ACKS :: int where
  "DEFAULT_REQUIRED_ACKS = 3"

definition MAX_RETRIES :: nat where
  "MAX_RETRIES = 3"

definition publish_intent :: "CollectParams \<Rightarrow> PublishIntentMsg" where
  "publish_intent p =
     \<lparr>pi_merkleRoot = cp_merkleRoot p, pi_contextGraphId = cp_contextGraphIdStr p,
      pi_publisherPeerId = cp_publisherPeerId p, pi_publicByteSize = cp_publicByteSize p,
      pi_isPrivate = cp_isPrivate p, pi_kaCount = cp_kaCount p, pi_rootEntities = cp_rootEntities p,
      pi_stagingQuads = cp_stagingQuads p,
      pi_epochs = Some (case cp_epochs p of None \<Rightarrow> 1 | Some e \<Rightarrow> e),
      pi_tokenAmountStr = map_option show_int (cp_tokenAmount p),
      pi_swmGraphId = (case nonblank (cp_swmGraphId p) of
                         Some g \<Rightarrow> (if g \<noteq> cp_contextGraphIdStr p then Some g else None) | None \<Rightarrow> None),
      pi_subGraphName = cp_subGraphName p, pi_merkleLeafCount = Some (cp_merkleLeafCount p)\<rparr>"

definition collect_fields :: "CollectParams \<Rightarrow> PublishFields" where
  "collect_fields p =
     \<lparr>pf_chainId = cp_chainId p, pf_kav10Address = cp_kav10Address p, pf_contextGraphId = cp_contextGraphId p,
      pf_merkleRoot = cp_merkleRoot p, pf_kaCount = cp_kaCount p, pf_byteSize = cp_publicByteSize p,
      pf_epochs = (case cp_epochs p of None \<Rightarrow> 1 | Some e \<Rightarrow> e),
      pf_tokenAmount = (case cp_tokenAmount p of None \<Rightarrow> 0 | Some t \<Rightarrow> t),
      pf_merkleLeafCount = cp_merkleLeafCount p\<rparr>"

definition recoverACKSigner :: "ACKCollectorDeps \<Rightarrow> StorageACKMsg \<Rightarrow> bytes \<Rightarrow> string option" where
  "recoverACKSigner deps ack expectedDigest =
     (case ad_recoverAddress deps (ad_hashMessage deps expectedDigest) (sa_coreNodeSignatureR ack) (sa_coreNodeSignatureVS ack) of
        Inl _ \<Rightarrow> None | Inr a \<Rightarrow> if a = [] then None else Some a)"

text \<open>\<^verbatim>\<open>BigInt(low) | (BigInt(high) << 32n)\<close>: the halves are taken with their sign.\<close>

fun ack_identity :: "ProtoNum \<Rightarrow> int" where
  "ack_identity (Num v) = v"
| "ack_identity (Long low high) = low OR push_bit 32 high"

definition ack_attempt ::
  "ACKCollectorDeps \<Rightarrow> bytes \<Rightarrow> bytes \<Rightarrow> bytes \<Rightarrow> string \<Rightarrow> nat \<Rightarrow> string + CollectedACK option" where
  "ack_attempt deps intentBytes ackDigest mroot peer attempt =
     bindE (ad_sendP2P deps peer attempt intentBytes) (\<lambda>response.
     bindE (ad_decodeACK deps response) (\<lambda>ack.
       case recoverACKSigner deps ack ackDigest of
         None \<Rightarrow> Inr None
       | Some recovered \<Rightarrow>
           if \<not> bytesEqual (sa_merkleRoot ack) mroot then Inr None
           else let identity = ack_identity (sa_nodeIdentityId ack) in
             bindE (case ad_verifyIdentity deps of None \<Rightarrow> Inr True | Some vf \<Rightarrow> vf recovered identity) (\<lambda>valid.
               if valid then Inr (Some \<lparr>ca_peerId = peer, ca_signatureR = sa_coreNodeSignatureR ack,
                                        ca_signatureVS = sa_coreNodeSignatureVS ack, ca_nodeIdentityId = identity\<rparr>)
               else Inr None)))"

text \<open>A failed attempt is repeated, an answer that is refused is final.\<close>

fun request_retry :: "(nat \<Rightarrow> string + 'a option) \<Rightarrow> nat \<Rightarrow> nat \<Rightarrow> 'a option" where
  "request_retry attempt n 0 = None"
| "request_retry attempt n (Suc left) = (case attempt n of Inr r \<Rightarrow> r | Inl _ \<Rightarrow> request_retry attempt (n + 1) left)"

definition requestACK :: "ACKCollectorDeps \<Rightarrow> bytes \<Rightarrow> bytes \<Rightarrow> bytes \<Rightarrow> string \<Rightarrow> CollectedACK option" where
  "requestACK deps intentBytes ackDigest mroot peer =
     request_retry (ack_attempt deps intentBytes ackDigest mroot peer) 0 MAX_RETRIES"

record ACKProgress =
  collected :: "CollectedACK list"
  seenPeers :: "string list"
  seenIdentityIds :: "int list"

definition no_acks :: ACKProgress where
  "no_acks = \<lparr>collected = [], seenPeers = [], seenIdentityIds = []\<rparr>"

definition offer_ack :: "ACKProgress \<Rightarrow> CollectedACK \<Rightarrow> ACKProgress" where
  "offer_ack st ack =
     (if ca_peerId ack \<notin> set (seenPeers st) \<and> ca_nodeIdentityId ack \<notin> set (seenIdentityIds st)
      then \<lparr>collected = collected st @ [ack], seenPeers = set_add (ca_peerId ack) (seenPeers st),
            seenIdentityIds = set_add (ca_nodeIdentityId ack) (seenIdentityIds st)\<rparr>
      else st)"

definition required_acks :: "CollectParams \<Rightarrow> int" where
  "required_acks p = (case cp_requiredACKs p of None \<Rightarrow> DEFAULT_REQUIRED_ACKS | Some r \<Rightarrow> r)"

text \<open>\<open>None\<close>: requests are still pending and the timer has not fired.\<close>

definition collect_acks ::
  "ACKCollectorDeps \<Rightarrow> CollectParams \<Rightarrow> Completion list \<Rightarrow> (CollectError + ACKCollectionResult) option" where
  "collect_acks deps p es =
     (let req = required_acks p; peers = ad_getConnectedCorePeers deps in
      if cp_merkleLeafCount p < 1 then Some (Inl (BadLeafCount (cp_merkleLeafCount p)))
      else if peers = [] then Some (Inl NoCorePeers)
      else if int (length peers) < req then Some (Inl (QuorumImpossible req (length peers)))
      else case computePublishACKDigest (ad_keccak deps) (collect_fields p) of
        Inl e \<Rightarrow> Some (Inl (DigestError e))
      | Inr ackDigest \<Rightarrow>
          case race offer_ack (\<lambda>st. nat req \<le> length (collected st))
                 (requestACK deps (ad_encodeIntent deps (publish_intent p)) ackDigest (cp_merkleRoot p))
                 (if req \<le> 0 then [] else peers) no_acks es of
            None \<Rightarrow> None
          | Some (st, True) \<Rightarrow> Some (Inl (AckTimeout (length (collected st)) req))
          | Some (st, False) \<Rightarrow>
              if int (length (collected st)) < req
              then Some (Inl (AckInsufficient (length (collected st)) req (length peers)))
              else Some (Inr \<lparr>ar_acks = take (nat req) (collected st), ar_merkleRoot = cp_merkleRoot p,
                              ar_contextGraphId = cp_contextGraphId p\<rparr>))"

definition acks_consistent :: "ACKProgress \<Rightarrow> bool" where
  "acks_consistent st \<longleftrightarrow> set (seenPeers st) = ca_peerId ` set (collected st)
     \<and> set (seenIdentityIds st) = ca_nodeIdentityId ` set (collected st)
     \<and> distinct (map ca_peerId (collected st)) \<and> distinct (map ca_nodeIdentityId (collected st))"

interpretation acks: quorum_collector offer_ack collected ca_peerId ca_nodeIdentityId acks_consistent
  by unfold_locales (auto simp: acks_consistent_def offer_ack_def)

section \<open>Approvals of a verify proposal\<close>

record VerifyProposalMsg =
  vp_proposalId :: bytes
  vp_verifiedMemoryId :: ProtoNum
  vp_batchId :: ProtoNum
  vp_merkleRoot :: bytes
  vp_entities :: "string list"
  vp_agentSignatureR :: bytes
  vp_agentSignatureVS :: bytes
  vp_expiresAt :: string
  vp_contextGraphId :: string

record VerifyApprovalMsg =
  va_proposalId :: bytes
  va_agentSignatureR :: bytes
  va_agentSignatureVS :: bytes
  va_approverAddress :: string

record CollectedApproval =
  co_peerId :: string
  co_signatureR :: bytes
  co_signatureVS :: bytes
  co_approverAddress :: string
  co_identityId :: int

record VerifyParams =
  vq_contextGraphId :: string
  vq_contextGraphIdOnChain :: int
  vq_verifiedMemoryId :: int
  vq_batchId :: int
  vq_merkleRoot :: bytes
  vq_entities :: "string list"
  vq_proposerSignature :: "bytes \<times> bytes"
  vq_requiredSignatures :: int
  vq_timeoutMs :: int

record VerifyCollectionResult =
  vr_approvals :: "CollectedApproval list"
  vr_merkleRoot :: bytes
  vr_contextGraphId :: string
  vr_verifiedMemoryId :: int

record VerifyCollectorDeps =
  vd_sendP2P :: "string \<Rightarrow> nat \<Rightarrow> bytes \<Rightarrow> string + bytes"
  vd_getParticipantPeers :: "string \<Rightarrow> string list"
  vd_verifyIdentity :: "(string \<Rightarrow> int \<Rightarrow> string + bool) option"
  vd_keccak :: "bytes \<Rightarrow> bytes"
  vd_hashMessage :: "bytes \<Rightarrow> bytes"
  vd_recoverAddress :: "bytes \<Rightarrow> bytes \<Rightarrow> bytes \<Rightarrow> string + string"
  vd_encodeProposal :: "VerifyProposalMsg \<Rightarrow> bytes"
  vd_decodeApproval :: "bytes \<Rightarrow> string + VerifyApprovalMsg"
  vd_toISOString :: "int \<Rightarrow> string"

datatype VerifyError =
    VerifyNoPeers
  | VerifyInsufficientPeers int nat
  | VerifyDigestError string
  | VerifyTimeout nat int
  | VerifyInsufficient nat int nat

definition toLong :: "int \<Rightarrow> ProtoNum" where
  "toLong v = Long (take_bit 32 v) (take_bit 32 (drop_bit 32 v))"

definition verify_proposal :: "VerifyCollectorDeps \<Rightarrow> int \<Rightarrow> bytes \<Rightarrow> VerifyParams \<Rightarrow> VerifyProposalMsg" where
  "verify_proposal deps now proposalId p =
     \<lparr>vp_proposalId = proposalId, vp_verifiedMemoryId = toLong (vq_verifiedMemoryId p), vp_batchId = toLong (vq_batchId p),
      vp_merkleRoot = vq_merkleRoot p, vp_entities = vq_entities p,
      vp_agentSignatureR = fst (vq_proposerSignature p), vp_agentSignatureVS = snd (vq_proposerSignature p),
      vp_expiresAt = vd_toISOString deps (now + vq_timeoutMs p), vp_contextGraphId = vq_contextGraphId p\<rparr>"

definition recoverSigner :: "VerifyCollectorDeps \<Rightarrow> VerifyApprovalMsg \<Rightarrow> bytes \<Rightarrow> string option" where
  "recoverSigner deps approval digest =
     (case vd_recoverAddress deps (vd_hashMessage deps digest) (va_agentSignatureR approval) (va_agentSignatureVS approval) of
        Inl _ \<Rightarrow> None | Inr a \<Rightarrow> if a = [] then None else Some a)"

definition approval_attempt ::
  "VerifyCollectorDeps \<Rightarrow> bytes \<Rightarrow> bytes \<Rightarrow> string \<Rightarrow> nat \<Rightarrow> string + CollectedApproval option" where
  "approval_attempt deps proposalBytes digest peer attempt =
     bindE (vd_sendP2P deps peer attempt proposalBytes) (\<lambda>response.
     bindE (vd_decodeApproval deps response) (\<lambda>approval.
       case recoverSigner deps approval digest of
         None \<Rightarrow> Inr None
       | Some recovered \<Rightarrow>
           Inr (Some \<lparr>co_peerId = peer, co_signatureR = va_agentSignatureR approval,
                      co_signatureVS = va_agentSignatureVS approval, co_approverAddress = recovered, co_identityId = 0\<rparr>)))"

definition requestApproval :: "VerifyCollectorDeps \<Rightarrow> bytes \<Rightarrow> bytes \<Rightarrow> string \<Rightarrow> CollectedApproval option" where
  "requestApproval deps proposalBytes digest peer = request_retry (approval_attempt deps proposalBytes digest peer) 0 (2 + 1)"

record VerifyProgress =
  approvals :: "CollectedApproval list"
  seenAddresses :: "string list"

definition offer_approval :: "VerifyProgress \<Rightarrow> CollectedApproval \<Rightarrow> VerifyProgress" where
  "offer_approval st a =
     (if co_approverAddress a \<notin> set (seenAddresses st)
      then \<lparr>approvals = approvals st @ [a], seenAddresses = set_add (co_approverAddress a) (seenAddresses st)\<rparr> else st)"

definition collect_approvals ::
  "VerifyCollectorDeps \<Rightarrow> int \<Rightarrow> bytes \<Rightarrow> VerifyParams \<Rightarrow> Completion list \<Rightarrow> (VerifyError + VerifyCollectionResult) option"
where
  "collect_approvals deps now proposalId p es =
     (let remoteRequired = max 0 (vq_requiredSignatures p - 1);
          peers = vd_getParticipantPeers deps (vq_contextGraphId p);
          result = (\<lambda>as. \<lparr>vr_approvals = as, vr_merkleRoot = vq_merkleRoot p, vr_contextGraphId = vq_contextGraphId p,
                            vr_verifiedMemoryId = vq_verifiedMemoryId p\<rparr>) in
      if remoteRequired > 0 \<and> peers = [] then Some (Inl VerifyNoPeers)
      else if int (length peers) < remoteRequired then Some (Inl (VerifyInsufficientPeers remoteRequired (length peers)))
      else if remoteRequired = 0 then Some (Inr (result []))
      else case computeACKDigest (vd_keccak deps) (vq_contextGraphIdOnChain p) (vq_merkleRoot p) None None None None of
        Inl e \<Rightarrow> Some (Inl (VerifyDigestError e))
      | Inr digest \<Rightarrow>
          case race offer_approval (\<lambda>st. nat remoteRequired \<le> length (approvals st))
                 (requestApproval deps (vd_encodeProposal deps (verify_proposal deps now proposalId p)) digest)
                 peers \<lparr>approvals = [], seenAddresses = []\<rparr> es of
            None \<Rightarrow> None
          | Some (st, True) \<Rightarrow> Some (Inl (VerifyTimeout (length (approvals st)) remoteRequired))
          | Some (st, False) \<Rightarrow>
              if int (length (approvals st)) < remoteRequired
              then Some (Inl (VerifyInsufficient (length (approvals st)) remoteRequired (length peers)))
              else Some (Inr (result (take (nat remoteRequired) (approvals st)))))"

definition approvals_consistent :: "VerifyProgress \<Rightarrow> bool" where
  "approvals_consistent st \<longleftrightarrow> set (seenAddresses st) = co_approverAddress ` set (approvals st)
     \<and> distinct (map co_approverAddress (approvals st))"

interpretation approvals: quorum_collector offer_approval approvals co_peerId co_approverAddress approvals_consistent
  by unfold_locales (auto simp: approvals_consistent_def offer_approval_def)

subsection \<open>The participant\<close>

record VerifyNode =
  vn_agentAddress :: string
  vn_sign :: "bytes \<Rightarrow> bytes \<times> bytes"
  vn_hashMessage :: "bytes \<Rightarrow> bytes"
  vn_keccak :: "bytes \<Rightarrow> bytes"
  vn_getBatchMerkleRoot :: "string \<Rightarrow> int \<Rightarrow> string + bytes option"
  vn_getContextGraphIdOnChain :: "string \<Rightarrow> string + int option"
  vn_decodeProposal :: "bytes \<Rightarrow> string + VerifyProposalMsg"
  vn_encodeApproval :: "VerifyApprovalMsg \<Rightarrow> bytes"
  vn_getTime :: "string \<Rightarrow> int option"

datatype ProposalError =
    InvalidProposal | ProposalExpired | BatchNotFound | MerkleRootMismatch | ContextGraphNotFound | ProposalFailed string

text \<open>
  \<open>vn_getTime\<close> is \<^verbatim>\<open>new Date(s).getTime()\<close>, \<open>None\<close> where that is \<^verbatim>\<open>NaN\<close>; a comparison with \<^verbatim>\<open>NaN\<close> is false. The number
  zero counts as no on-chain id.
\<close>

definition handleProposal :: "VerifyNode \<Rightarrow> int \<Rightarrow> bytes \<Rightarrow> ProposalError + bytes" where
  "handleProposal n now data =
     (case vn_decodeProposal n data of
        Inl _ \<Rightarrow> Inl InvalidProposal
      | Inr p \<Rightarrow>
          if (case vn_getTime n (vp_expiresAt p) of None \<Rightarrow> False | Some t \<Rightarrow> t \<le> now) then Inl ProposalExpired
          else
            bindE (map_sum ProposalFailed id (vn_getBatchMerkleRoot n (vp_contextGraphId p) (ack_identity (vp_batchId p)))) (\<lambda>localRoot.
            case localRoot of
              None \<Rightarrow> Inl BatchNotFound
            | Some r \<Rightarrow>
                if \<not> bytesEqual r (vp_merkleRoot p) then Inl MerkleRootMismatch
                else bindE (map_sum ProposalFailed id (vn_getContextGraphIdOnChain n (vp_contextGraphId p))) (\<lambda>onChain.
                  case onChain of
                    None \<Rightarrow> Inl ContextGraphNotFound
                  | Some cg \<Rightarrow>
                      if cg = 0 then Inl ContextGraphNotFound
                      else bindE (map_sum ProposalFailed id (computeACKDigest (vn_keccak n) cg (vp_merkleRoot p) None None None None)) (\<lambda>digest.
                        let (sr, vs) = vn_sign n (vn_hashMessage n digest) in
                        Inr (vn_encodeApproval n \<lparr>va_proposalId = vp_proposalId p, va_agentSignatureR = sr,
                               va_agentSignatureVS = vs, va_approverAddress = vn_agentAddress n\<rparr>)))))"

end
