(* ===== verification/DirectPublish.thy ===== *)
theory DirectPublish
  imports AckCollect PublishMetadata
begin

text \<open>
  The direct publish path: \<^verbatim>\<open>publish\<close> of \<^verbatim>\<open>packages/publisher/src/dkg-publisher.ts\<close>, the private triples it stores
  (\<^verbatim>\<open>packages/storage/src/private-store.ts\<close>) and the provider of acknowledgements that the agent hands to it
  (\<^verbatim>\<open>createV10ACKProvider\<close> of \<^verbatim>\<open>dkg-agent.ts\<close>). The triple store, the chain adapter and the wallet are fields of
  the environment; phase callbacks and log lines are left out.
\<close>

section \<open>Names\<close>

definition RESERVED_SUBJECT_PREFIXES :: "string list" where
  "RESERVED_SUBJECT_PREFIXES = [''urn:dkg:file:'', ''urn:dkg:extraction:'']"

definition findReservedSubjectPrefix :: "string \<Rightarrow> string option" where
  "findReservedSubjectPrefix s = find (startsWith (toLowerCase s)) RESERVED_SUBJECT_PREFIXES"

definition isReservedSubject :: "string \<Rightarrow> bool" where
  "isReservedSubject s = (findReservedSubjectPrefix s \<noteq> None)"

definition unsafe_name_char :: "char \<Rightarrow> bool" where
  "unsafe_name_char c = (c \<in> set (''<>{}|^`'' @ [QUOTE, BACKSLASH]) \<or> is_space c)"

text \<open>\<open>None\<close>: the name is valid; otherwise the reason why not.\<close>

definition validateSubGraphName :: "string \<Rightarrow> string option" where
  "validateSubGraphName name =
     (if name = [] then Some ''Sub-graph name cannot be empty''
      else if startsWith name ''_'' then
        Some (''Sub-graph names starting with '' @ [QUOTE] @ ''_'' @ [QUOTE] @ '' are reserved for protocol graphs'')
      else if str_includes name ''/'' then Some (''Sub-graph names cannot contain '' @ [QUOTE] @ ''/'' @ [QUOTE])
      else if list_ex unsafe_name_char name then Some ''Sub-graph name contains characters unsafe for IRIs''
      else if name \<in> {''context'', ''assertion'', ''draft''} then
        Some ([QUOTE] @ name @ [QUOTE] @ '' is a reserved path segment'')
      else None)"

definition contextGraphSubGraphUri :: "string \<Rightarrow> string \<Rightarrow> string" where
  "contextGraphSubGraphUri cg sg = ''did:dkg:context-graph:'' @ cg @ ''/'' @ sg"

definition contextGraphPrivateUri :: "string \<Rightarrow> string" where
  "contextGraphPrivateUri cg = ''did:dkg:context-graph:'' @ cg @ ''/_private''"

definition contextGraphSubGraphPrivateUri :: "string \<Rightarrow> string \<Rightarrow> string" where
  "contextGraphSubGraphPrivateUri cg sg = ''did:dkg:context-graph:'' @ cg @ ''/'' @ sg @ ''/_private''"

definition contextGraphSharedMemoryUri :: "string \<Rightarrow> string option \<Rightarrow> string" where
  "contextGraphSharedMemoryUri cg sg =
     ''did:dkg:context-graph:'' @ cg @ (case nonblank sg of Some s \<Rightarrow> ''/'' @ s | None \<Rightarrow> []) @ ''/_shared_memory''"

definition contextGraphSharedMemoryMetaUri :: "string \<Rightarrow> string option \<Rightarrow> string" where
  "contextGraphSharedMemoryMetaUri cg sg =
     ''did:dkg:context-graph:'' @ cg @ (case nonblank sg of Some s \<Rightarrow> ''/'' @ s | None \<Rightarrow> []) @ ''/_shared_memory_meta''"

text \<open>The key of ownership and of the tracker of private entities: the context graph, with the sub-graph after a zero character.\<close>

definition scope_key :: "string \<Rightarrow> string option \<Rightarrow> string" where
  "scope_key cg sg = (case nonblank sg of Some s \<Rightarrow> cg @ [CHR 0x00] @ s | None \<Rightarrow> cg)"

section \<open>State and environment\<close>

record OnChainKC =
  oc_batchId :: nat
  oc_startKAId :: nat
  oc_txHash :: string
  oc_blockNumber :: nat
  oc_blockTimestamp :: nat
  oc_publisherAddress :: string
  oc_tokenAmount :: "int option"

text \<open>The transaction; its constant fields (\<^verbatim>\<open>isImmutable\<close>, \<^verbatim>\<open>paymaster\<close>) and its write-ahead hook are left out.\<close>

record V10PublishParams =
  vx_publishOperationId :: string
  vx_contextGraphId :: int
  vx_merkleRoot :: bytes
  vx_knowledgeAssetsAmount :: nat
  vx_byteSize :: int
  vx_epochs :: int
  vx_tokenAmount :: int
  vx_merkleLeafCount :: nat
  vx_publisherNodeIdentityId :: int
  vx_publisherSignature :: "bytes \<times> bytes"
  vx_ackSignatures :: "(int \<times> bytes \<times> bytes) list"

record PublisherWallet =
  wl_address :: string
  wl_signMessage :: "bytes \<Rightarrow> string + string"

record PublisherEnv =
  pe_keccak :: "bytes \<Rightarrow> bytes"
  pe_createGraph :: "string \<Rightarrow> string + unit"
  pe_insert :: "Quad list \<Rightarrow> Quad list \<Rightarrow> string + Quad list"
  pe_query :: "Quad list \<Rightarrow> sparql_query"
  pe_wallet :: "PublisherWallet option"
  pe_signature :: "string \<Rightarrow> string + bytes \<times> bytes"
  pe_identityId :: int
  pe_publisherAddress :: string
  pe_sessionId :: string
  pe_chainId :: string
  pe_requiredPublishTokenAmount :: "(int \<Rightarrow> int \<Rightarrow> string + int) option"
  pe_evmChainId :: "string + int"
  pe_kav10Address :: "string + string"
  pe_isV10Ready :: bool
  pe_createKnowledgeAssetsV10 :: "V10PublishParams \<Rightarrow> string + OnChainKC"
  pe_timestamp :: string
  pe_isoDate :: "nat \<Rightarrow> string"

record PublisherState =
  db_store :: "Quad list"
  db_ensured :: "string list"
  db_private :: "(string \<times> string list) list"
  db_owned :: "(string \<times> string list) list"
  db_batches :: "(string \<times> string) list"
  db_tentative :: nat

text \<open>The call of an ACK provider: root, context graph, assets, entities, size, staging text, epochs, amount, source graph, sub-graph, leaves.\<close>

record AckRequest =
  aq_merkleRoot :: bytes
  aq_contextGraphId :: string
  aq_kaCount :: nat
  aq_rootEntities :: "string list"
  aq_publicByteSize :: int
  aq_stagingQuads :: "bytes option"
  aq_epochs :: "int option"
  aq_tokenAmount :: "int option"
  aq_swmGraphId :: "string option"
  aq_subGraphName :: "string option"
  aq_merkleLeafCount :: nat

record DirectOptions =
  do_contextGraphId :: string
  do_quads :: "Quad list"
  do_privateQuads :: "Quad list"
  do_publisherPeerId :: string
  do_accessPolicy :: "AccessPolicy option"
  do_allowedPeers :: "string list"
  do_targetGraphUri :: "string option"
  do_targetMetaGraphUri :: "string option"
  do_subGraphName :: "string option"
  do_v10ACKProvider :: "(AckRequest \<Rightarrow> string + CollectedACK list) option"
  do_publishContextGraphId :: "string option"
  do_fromSharedMemory :: bool
  do_internalOrigin :: bool

datatype DirectStatus = Tentative | Confirmed

record DirectResult =
  res_kcId :: nat
  res_ual :: string
  res_merkleRoot :: bytes
  res_kaManifest :: "KAManifestEntry list"
  res_status :: DirectStatus
  res_onChainResult :: "OnChainKC option"
  res_publicQuads :: "Quad list"
  res_v10ACKs :: "CollectedACK list option"
  res_v10Origin :: bool
  res_subGraphName :: "string option"

datatype PublishError =
    InvalidSubGraph string
  | UnregisteredSubGraph string string
  | ReservedNamespace string
  | PolicyNeedsPeer AccessPolicy
  | AllowListEmpty
  | AllowedPeersWithoutList
  | ValidationFailed "rule_error list"
  | LeafCountTooLarge nat
  | NonPositiveDomain string int
  | Raised string

section \<open>Checks of a request\<close>

definition subGraphQuery :: "string \<Rightarrow> string \<Rightarrow> string" where
  "subGraphQuery cg sg =
     ''ASK { GRAPH <did:dkg:context-graph:'' @ cg @ ''/_meta> {'' @ [NL]
       @ ''        <'' @ contextGraphSubGraphUri cg sg @ ''> a <http://dkg.io/ontology/SubGraph> ;'' @ [NL]
       @ ''          <http://schema.org/name> '' @ json_string sg @ '' ;'' @ [NL]
       @ ''          <http://dkg.io/ontology/createdBy> ?createdBy .'' @ [NL] @ ''      } }''"

definition isSubGraphRegistered :: "sparql_query \<Rightarrow> string \<Rightarrow> string \<Rightarrow> string + bool" where
  "isSubGraphRegistered query cg sg =
     bindE (assertSafeIri cg) (\<lambda>_.
     bindE (assertSafeIri (contextGraphSubGraphUri cg sg)) (\<lambda>_.
     bindE (query (subGraphQuery cg sg)) (\<lambda>r. Inr (r = BooleanResult True))))"

text \<open>A sub-graph without a target of its own is checked and becomes the target.\<close>

definition route_subgraph :: "PublisherEnv \<Rightarrow> DirectOptions \<Rightarrow> Quad list \<Rightarrow> PublishError + DirectOptions" where
  "route_subgraph env o1 store =
     (case (nonblank (do_subGraphName o1), nonblank (do_targetGraphUri o1)) of
        (Some sg, None) \<Rightarrow>
          (case validateSubGraphName sg of
             Some reason \<Rightarrow> Inl (InvalidSubGraph reason)
           | None \<Rightarrow>
               bindE (map_sum Raised id (isSubGraphRegistered (pe_query env store) (do_contextGraphId o1) sg)) (\<lambda>registered.
                 if registered then Inr (o1\<lparr>do_targetGraphUri := Some (contextGraphSubGraphUri (do_contextGraphId o1) sg)\<rparr>)
                 else Inl (UnregisteredSubGraph sg (do_contextGraphId o1))))
      | _ \<Rightarrow> Inr o1)"

definition rejectReservedSubjectPrefixes :: "Quad list \<Rightarrow> PublishError + unit" where
  "rejectReservedSubjectPrefixes qs =
     (case find (\<lambda>q. isReservedSubject (subject q)) qs of Some q \<Rightarrow> Inl (ReservedNamespace (subject q)) | None \<Rightarrow> Inr ())"

definition effectiveAccessPolicy :: "DirectOptions \<Rightarrow> AccessPolicy" where
  "effectiveAccessPolicy o1 =
     (case do_accessPolicy o1 of Some a \<Rightarrow> a | None \<Rightarrow> if do_privateQuads o1 \<noteq> [] then OwnerOnly else Public)"

definition normalizedAllowedPeers :: "DirectOptions \<Rightarrow> string list" where
  "normalizedAllowedPeers o1 = js_unique (filter (\<lambda>p. p \<noteq> []) (map str_trim (do_allowedPeers o1)))"

definition publish_checks :: "DirectOptions \<Rightarrow> PublishError + unit" where
  "publish_checks o1 =
     bindE (if do_internalOrigin o1 then Inr ()
            else bindE (rejectReservedSubjectPrefixes (do_quads o1)) (\<lambda>_. rejectReservedSubjectPrefixes (do_privateQuads o1))) (\<lambda>_.
     bindE (throw_if (effectiveAccessPolicy o1 \<noteq> Public \<and> str_trim (do_publisherPeerId o1) = [])
              (PolicyNeedsPeer (effectiveAccessPolicy o1))) (\<lambda>_.
     bindE (throw_if (effectiveAccessPolicy o1 = AllowList \<and> normalizedAllowedPeers o1 = []) AllowListEmpty) (\<lambda>_.
       throw_if (effectiveAccessPolicy o1 \<noteq> AllowList \<and> normalizedAllowedPeers o1 \<noteq> []) AllowedPeersWithoutList)))"

section \<open>Preparation\<close>

definition entity_private :: "Quad list \<Rightarrow> string \<Rightarrow> Quad list" where
  "entity_private priv r =
     filter (\<lambda>q. subject q = r \<or> startsWith (subject q) (r @ ''/.well-known/genid/'')) priv"

definition manifest_entry :: "(bytes \<Rightarrow> bytes) \<Rightarrow> Quad list \<Rightarrow> nat \<times> string \<times> Quad list \<Rightarrow> KAManifestEntry" where
  "manifest_entry h priv = (\<lambda>(i, r, _).
     \<lparr>tokenId = i, rootEntity = r,
      privateMerkleRoot = (if entity_private priv r \<noteq> [] then computePrivateRootV10 h (entity_private priv r) else None),
      privateTripleCount = Some (int (length (entity_private priv r)))\<rparr>)"

definition asset_metadata :: "(bytes \<Rightarrow> bytes) \<Rightarrow> Quad list \<Rightarrow> string \<Rightarrow> nat \<times> string \<times> Quad list \<Rightarrow> KAMetadata" where
  "asset_metadata h priv u = (\<lambda>(i, r, qs).
     \<lparr>ka_rootEntity = r, ka_kcUal = u, ka_tokenId = i, ka_publicTripleCount = length qs,
      ka_privateTripleCount = length (entity_private priv r),
      ka_privateMerkleRoot = (if entity_private priv r \<noteq> [] then computePrivateRootV10 h (entity_private priv r) else None)\<rparr>)"

record PreparedPublish =
  pp_parts :: "(nat \<times> string \<times> Quad list) list"
  pp_manifest :: "KAManifestEntry list"
  pp_quads :: "Quad list"
  pp_privateRoots :: "bytes list"
  pp_merkleRoot :: bytes
  pp_leafCount :: nat

definition prepare_publish :: "(bytes \<Rightarrow> bytes) \<Rightarrow> DirectOptions \<Rightarrow> string list \<Rightarrow> PublishError + PreparedPublish" where
  "prepare_publish h o1 existing =
     (let parts = enumerate 1 (autoPartition (do_quads o1));
          manifest = map (manifest_entry h (do_privateQuads o1)) parts;
          allQuads = concat (map (\<lambda>(_, _, qs). qs) parts);
          validation = validatePublishRequest allQuads manifest (do_contextGraphId o1) existing no_options;
          privateRoots = List.map_filter privateMerkleRoot manifest;
          leaves = computeFlatKCMerkleLeafCountV10 h allQuads privateRoots in
      if \<not> fst validation then Inl (ValidationFailed (snd validation))
      else if int leaves > 0xffffffff then Inl (LeafCountTooLarge leaves)
      else Inr \<lparr>pp_parts = parts, pp_manifest = manifest, pp_quads = allQuads, pp_privateRoots = privateRoots,
                pp_merkleRoot = computeFlatKCRootV10 h allQuads privateRoots, pp_leafCount = leaves\<rparr>)"

section \<open>Effects on the store\<close>

type_synonym 'a pub = "(PublisherState, PublishError, 'a) eop"

definition pub_insert :: "PublisherEnv \<Rightarrow> Quad list \<Rightarrow> unit pub" where
  "pub_insert env qs st =
     (case pe_insert env qs (db_store st) of Inl e \<Rightarrow> (Inl (Raised e), st) | Inr s \<Rightarrow> (Inr (), st\<lparr>db_store := s\<rparr>))"

definition ensureContextGraph :: "PublisherEnv \<Rightarrow> string \<Rightarrow> unit pub" where
  "ensureContextGraph env cg =
     bindM (getM db_ensured) (\<lambda>ensured.
       if cg \<in> set ensured then ret ()
       else bindM (forM [contextGraphDataUri cg None, contextGraphMetaUri cg None, contextGraphPrivateUri cg,
                         contextGraphSharedMemoryUri cg None, contextGraphSharedMemoryMetaUri cg None]
                    (\<lambda>g. liftE (map_sum Raised id (pe_createGraph env g)))) (\<lambda>_.
            modM (\<lambda>st. st\<lparr>db_ensured := set_add cg (db_ensured st)\<rparr>)))"

definition privateGraph :: "string \<Rightarrow> string option \<Rightarrow> string" where
  "privateGraph cg sg =
     (case nonblank sg of Some s \<Rightarrow> contextGraphSubGraphPrivateUri cg s | None \<Rightarrow> contextGraphPrivateUri cg)"

definition add_to_set :: "string \<Rightarrow> string \<Rightarrow> (string \<times> string list) list \<Rightarrow> (string \<times> string list) list" where
  "add_to_set k x m = AList.update k (set_add x (case map_of m k of Some xs \<Rightarrow> xs | None \<Rightarrow> [])) m"

definition storePrivateTriples :: "PublisherEnv \<Rightarrow> string \<Rightarrow> string \<Rightarrow> Quad list \<Rightarrow> string option \<Rightarrow> unit pub" where
  "storePrivateTriples env cg r qs sg =
     (if qs = [] then ret ()
      else bindM (liftE (map_sum Raised id (assertSafeIri r))) (\<lambda>_.
           bindM (pub_insert env (map (\<lambda>q. q\<lparr>graph := privateGraph cg sg\<rparr>) qs)) (\<lambda>_.
             modM (\<lambda>st. st\<lparr>db_private := add_to_set (scope_key cg sg) r (db_private st)\<rparr>))))"

definition store_publish :: "PublisherEnv \<Rightarrow> DirectOptions \<Rightarrow> PreparedPublish \<Rightarrow> unit pub" where
  "store_publish env o1 pp =
     (let dataGraph = (case do_targetGraphUri o1 of Some g \<Rightarrow> g | None \<Rightarrow> contextGraphDataUri (do_contextGraphId o1) None) in
      bindM (pub_insert env (map (\<lambda>q. q\<lparr>graph := dataGraph\<rparr>) (pp_quads pp))) (\<lambda>_.
        forM (map (\<lambda>(_, r, _). r) (pp_parts pp)) (\<lambda>r.
          storePrivateTriples env (do_contextGraphId o1) r (entity_private (do_privateQuads o1) r) (do_subGraphName o1))))"

section \<open>Acknowledgements\<close>

definition or_else :: "'a option \<Rightarrow> 'a \<Rightarrow> 'a" where
  "or_else x d = (case x of Some v \<Rightarrow> v | None \<Rightarrow> d)"

text \<open>The text of the public quads, whose length is the size that is paid for.\<close>

definition public_text :: "PreparedPublish \<Rightarrow> string" where
  "public_text pp = nquads_text (pp_quads pp)"

definition publicByteSize :: "PreparedPublish \<Rightarrow> int" where
  "publicByteSize pp = int (length (utf8 (public_text pp)))"

definition token_amount :: "PublisherEnv \<Rightarrow> PreparedPublish \<Rightarrow> PublishError + int" where
  "token_amount env pp =
     (case (pe_wallet env, pe_requiredPublishTokenAmount env) of
        (Some _, Some f) \<Rightarrow> bindE (map_sum Raised id (f (publicByteSize pp) 1)) (\<lambda>a. Inr (if a \<le> 0 then 1 else a))
      | _ \<Rightarrow> Inr 0)"

definition ack_domain :: "DirectOptions \<Rightarrow> string" where
  "ack_domain o1 = or_else (do_publishContextGraphId o1) (do_contextGraphId o1)"

definition check_domain :: "DirectOptions \<Rightarrow> PublishError + unit" where
  "check_domain o1 =
     (case toBigInt (ack_domain o1) of
        Some v \<Rightarrow> (if v \<le> 0 then Inl (NonPositiveDomain (ack_domain o1) v) else Inr ())
      | None \<Rightarrow> Inr ())"

definition ack_request :: "DirectOptions \<Rightarrow> PreparedPublish \<Rightarrow> int \<Rightarrow> AckRequest" where
  "ack_request o1 pp amount =
     \<lparr>aq_merkleRoot = pp_merkleRoot pp, aq_contextGraphId = ack_domain o1, aq_kaCount = length (pp_manifest pp),
      aq_rootEntities = map rootEntity (pp_manifest pp), aq_publicByteSize = publicByteSize pp,
      aq_stagingQuads = (if do_fromSharedMemory o1 then None else Some (utf8 (public_text pp))),
      aq_epochs = Some 1, aq_tokenAmount = Some amount, aq_swmGraphId = Some (do_contextGraphId o1),
      aq_subGraphName = do_subGraphName o1, aq_merkleLeafCount = pp_leafCount pp\<rparr>"

text \<open>A provider is asked unless there are private roots; its failure is only logged.\<close>

definition provided_acks :: "DirectOptions \<Rightarrow> PreparedPublish \<Rightarrow> int \<Rightarrow> CollectedACK list option" where
  "provided_acks o1 pp amount =
     (case do_v10ACKProvider o1 of
        Some provider \<Rightarrow>
          (if pp_privateRoots pp = [] then (case provider (ack_request o1 pp amount) of Inr acks \<Rightarrow> Some acks | Inl _ \<Rightarrow> None)
           else None)
      | None \<Rightarrow> None)"

definition chain_ids :: "PublisherEnv \<Rightarrow> (int \<times> string) option" where
  "chain_ids env = (case (pe_evmChainId env, pe_kav10Address env) of (Inr c, Inr a) \<Rightarrow> Some (c, a) | _ \<Rightarrow> None)"

definition v10CgId :: "DirectOptions \<Rightarrow> int" where
  "v10CgId o1 = or_else (toBigInt (ack_domain o1)) 0"

definition publish_fields :: "DirectOptions \<Rightarrow> PreparedPublish \<Rightarrow> int \<Rightarrow> int \<times> string \<Rightarrow> PublishFields" where
  "publish_fields o1 pp amount ids =
     \<lparr>pf_chainId = fst ids, pf_kav10Address = snd ids, pf_contextGraphId = v10CgId o1, pf_merkleRoot = pp_merkleRoot pp,
      pf_kaCount = int (length (pp_manifest pp)), pf_byteSize = publicByteSize pp, pf_epochs = 1, pf_tokenAmount = amount,
      pf_merkleLeafCount = int (pp_leafCount pp)\<rparr>"

definition wallet_sign :: "PublisherEnv \<Rightarrow> PublisherWallet \<Rightarrow> bytes \<Rightarrow> string + bytes \<times> bytes" where
  "wallet_sign env w digest = bindE (wl_signMessage w digest) (pe_signature env)"

text \<open>Without acknowledgements the publisher signs one itself.\<close>

definition self_signed :: "PublisherEnv \<Rightarrow> DirectOptions \<Rightarrow> PreparedPublish \<Rightarrow> int \<Rightarrow> CollectedACK list option
    \<Rightarrow> PublishError + CollectedACK list option" where
  "self_signed env o1 pp amount acks =
     (case (pe_wallet env, chain_ids env) of
        (Some w, Some ids) \<Rightarrow>
          if (acks = None \<or> acks = Some []) \<and> pe_identityId env > 0 then
            bindE (map_sum Raised id (computePublishACKDigest (pe_keccak env) (publish_fields o1 pp amount ids))) (\<lambda>digest.
            bindE (map_sum Raised id (wallet_sign env w digest)) (\<lambda>(r, vs).
              Inr (Some [\<lparr>ca_peerId = ''self'', ca_signatureR = r, ca_signatureVS = vs, ca_nodeIdentityId = pe_identityId env\<rparr>])))
          else Inr acks
      | _ \<Rightarrow> Inr acks)"

section \<open>The chain\<close>

definition submit_publish ::
  "PublisherEnv \<Rightarrow> DirectOptions \<Rightarrow> PreparedPublish \<Rightarrow> int \<Rightarrow> CollectedACK list option \<Rightarrow> PublisherWallet \<Rightarrow> nat
    \<Rightarrow> string + OnChainKC" where
  "submit_publish env o1 pp amount acks w seq =
     (case (acks, chain_ids env) of
        (Some (a # as), Some (chain, kav)) \<Rightarrow>
          (if \<not> pe_isV10Ready env then Inl ''Chain adapter is not V10-ready''
           else bindE (computePublishPublisherDigest (pe_keccak env) chain kav (pe_identityId env) (v10CgId o1) (pp_merkleRoot pp)) (\<lambda>digest.
                bindE (wallet_sign env w digest) (\<lambda>sig.
                bindE (pe_createKnowledgeAssetsV10 env
                   \<lparr>vx_publishOperationId = pe_sessionId env @ ''-'' @ show_nat seq, vx_contextGraphId = v10CgId o1,
                    vx_merkleRoot = pp_merkleRoot pp, vx_knowledgeAssetsAmount = length (pp_manifest pp),
                    vx_byteSize = publicByteSize pp, vx_epochs = 1, vx_tokenAmount = amount,
                    vx_merkleLeafCount = pp_leafCount pp, vx_publisherNodeIdentityId = pe_identityId env,
                    vx_publisherSignature = sig,
                    vx_ackSignatures = map (\<lambda>k. (ca_nodeIdentityId k, ca_signatureR k, ca_signatureVS k)) (a # as)\<rparr>) (\<lambda>oc.
                  Inr (oc\<lparr>oc_tokenAmount := Some amount\<rparr>)))))
      | (Some (a # as), None) \<Rightarrow> Inl ''V10 publish requires the chain adapter to expose getEvmChainId() and getKnowledgeAssetsV10Address()''
      | _ \<Rightarrow> Inl ''V10 ACKs required for on-chain publish'')"

definition kc_metadata :: "PublisherEnv \<Rightarrow> DirectOptions \<Rightarrow> PreparedPublish \<Rightarrow> string \<Rightarrow> KCMetadata" where
  "kc_metadata env o1 pp u =
     \<lparr>km_ual = u, km_contextGraphId = do_contextGraphId o1, km_merkleRoot = pp_merkleRoot pp,
      km_kaCount = length (pp_manifest pp), km_publisherPeerId = or_unknown (str_trim (do_publisherPeerId o1)),
      km_accessPolicy = Some (effectiveAccessPolicy o1), km_allowedPeers = Some (normalizedAllowedPeers o1),
      km_timestamp = pe_timestamp env, km_subGraphName = do_subGraphName o1\<rparr>"

definition assets :: "PublisherEnv \<Rightarrow> DirectOptions \<Rightarrow> PreparedPublish \<Rightarrow> string \<Rightarrow> KAMetadata list" where
  "assets env o1 pp u = map (asset_metadata (pe_keccak env) (do_privateQuads o1) u) (pp_parts pp)"

definition provenance :: "PublisherEnv \<Rightarrow> OnChainKC \<Rightarrow> OnChainProvenance" where
  "provenance env oc = \<lparr>pv_txHash = oc_txHash oc, pv_blockNumber = oc_blockNumber oc, pv_blockTimestamp = oc_blockTimestamp oc,
     pv_publisherAddress = oc_publisherAddress oc, pv_batchId = oc_batchId oc, pv_chainId = pe_chainId env\<rparr>"

definition retarget_meta :: "DirectOptions \<Rightarrow> Quad list \<Rightarrow> Quad list" where
  "retarget_meta o1 qs =
     (case nonblank (do_targetMetaGraphUri o1) of
        Some g \<Rightarrow> map (\<lambda>q. if graph q = kcMetaGraph (do_contextGraphId o1) then q\<lparr>graph := g\<rparr> else q) qs
      | None \<Rightarrow> qs)"

definition hexlify :: "bytes \<Rightarrow> string" where
  "hexlify b = ''0x'' @ hex_bytes b"

text \<open>The proof of authorship is best effort.\<close>

definition store_authorship :: "PublisherEnv \<Rightarrow> DirectOptions \<Rightarrow> PreparedPublish \<Rightarrow> PublisherWallet \<Rightarrow> string \<Rightarrow> PublisherState \<Rightarrow> PublisherState" where
  "store_authorship env o1 pp w u st =
     (let hash = pe_keccak env (pp_merkleRoot pp) in
      case wl_signMessage w hash of
        Inl _ \<Rightarrow> st
      | Inr sig \<Rightarrow>
          snd (pub_insert env (retarget_meta o1 (generateAuthorshipProof
                \<lparr>au_kcUal = u, au_contextGraphId = do_contextGraphId o1, au_agentAddress = wl_address w,
                 au_signature = sig, au_signedHash = hexlify hash\<rparr>)) st))"

definition confirmed_ual :: "PublisherEnv \<Rightarrow> OnChainKC \<Rightarrow> string" where
  "confirmed_ual env oc = ''did:dkg:'' @ pe_chainId env @ ''/'' @ oc_publisherAddress oc @ ''/'' @ show_nat (oc_startKAId oc)"

text \<open>
  The transaction and what follows it: any failure leaves the publish tentative. The identifier is already the
  confirmed one when storing the metadata fails.
\<close>

definition chain_publish ::
  "PublisherEnv \<Rightarrow> DirectOptions \<Rightarrow> PreparedPublish \<Rightarrow> int \<Rightarrow> CollectedACK list option \<Rightarrow> string \<Rightarrow> PublisherState
    \<Rightarrow> (string \<times> OnChainKC option \<times> DirectStatus) \<times> PublisherState" where
  "chain_publish env o1 pp amount acks tentativeUal st =
     (case pe_wallet env of
        None \<Rightarrow> ((tentativeUal, None, Tentative), st)
      | Some w \<Rightarrow>
          if pe_identityId env = 0 then ((tentativeUal, None, Tentative), st)
          else case submit_publish env o1 pp amount acks w (db_tentative st) of
            Inl _ \<Rightarrow> ((tentativeUal, None, Tentative), st)
          | Inr oc \<Rightarrow>
              let u = confirmed_ual env oc;
                  confirmed = retarget_meta o1 (generateConfirmedFullMetadata (pe_isoDate env) (kc_metadata env o1 pp u)
                                 (assets env o1 pp u) (provenance env oc)) in
              case pub_insert env confirmed st of
                (Inl _, st') \<Rightarrow> ((u, Some oc, Tentative), st')
              | (Inr _, st') \<Rightarrow> ((u, Some oc, Confirmed), store_authorship env o1 pp w u st'))"

definition record_ownership :: "DirectOptions \<Rightarrow> PreparedPublish \<Rightarrow> OnChainKC \<Rightarrow> PublisherState \<Rightarrow> PublisherState" where
  "record_ownership o1 pp oc st =
     st\<lparr>db_owned := fold (\<lambda>m. add_to_set (scope_key (do_contextGraphId o1) (do_subGraphName o1)) (rootEntity m))
                      (pp_manifest pp) (db_owned st),
        db_batches := AList.update (show_nat (oc_batchId oc)) (do_contextGraphId o1) (db_batches st)\<rparr>"

section \<open>Publish\<close>

definition owned_in :: "PublisherState \<Rightarrow> DirectOptions \<Rightarrow> string list" where
  "owned_in st o1 = or_else (map_of (db_owned st) (scope_key (do_contextGraphId o1) (do_subGraphName o1))) []"

definition finish_publish ::
  "PublisherEnv \<Rightarrow> DirectOptions \<Rightarrow> PreparedPublish \<Rightarrow> int \<Rightarrow> CollectedACK list option \<Rightarrow> DirectResult pub" where
  "finish_publish env o1 pp amount acks =
     bindM (modM (\<lambda>st. st\<lparr>db_tentative := db_tentative st + 1\<rparr>)) (\<lambda>_.
     bindM (getM db_tentative) (\<lambda>seq.
     bindM (\<lambda>st. let (r, st') = chain_publish env o1 pp amount acks
              (''did:dkg:'' @ pe_chainId env @ ''/'' @ pe_publisherAddress env @ ''/t'' @ pe_sessionId env @ ''-'' @ show_nat seq) st
            in (Inr r, st')) (\<lambda>(u, oc, status).
     bindM (case (status, oc) of
              (Confirmed, Some oc1) \<Rightarrow> modM (record_ownership o1 pp oc1)
            | (Confirmed, None) \<Rightarrow> ret ()
            | (Tentative, _) \<Rightarrow> pub_insert env (retarget_meta o1 (generateTentativeMetadata (kc_metadata env o1 pp u) (assets env o1 pp u)))) (\<lambda>_.
       ret \<lparr>res_kcId = (case oc of Some oc1 \<Rightarrow> oc_batchId oc1 | None \<Rightarrow> 0), res_ual = u, res_merkleRoot = pp_merkleRoot pp,
            res_kaManifest = pp_manifest pp, res_status = status, res_onChainResult = oc, res_publicQuads = pp_quads pp,
            res_v10ACKs = acks, res_v10Origin = (pe_wallet env \<noteq> None \<and> pe_identityId env \<noteq> 0),
            res_subGraphName = do_subGraphName o1\<rparr>))))"

definition publish :: "PublisherEnv \<Rightarrow> DirectOptions \<Rightarrow> DirectResult pub" where
  "publish env options =
     bindM (getM db_store) (\<lambda>store.
     bindM (liftE (route_subgraph env options store)) (\<lambda>o1.
     bindM (liftE (publish_checks o1)) (\<lambda>_.
     bindM (ensureContextGraph env (do_contextGraphId o1)) (\<lambda>_.
     bindM (getM (\<lambda>st. owned_in st o1)) (\<lambda>existing.
     bindM (liftE (prepare_publish (pe_keccak env) o1 existing)) (\<lambda>pp.
     bindM (store_publish env o1 pp) (\<lambda>_.
     bindM (liftE (token_amount env pp)) (\<lambda>amount.
     bindM (liftE (check_domain o1)) (\<lambda>_.
     bindM (liftE (self_signed env o1 pp amount (provided_acks o1 pp amount))) (\<lambda>acks.
       finish_publish env o1 pp amount acks))))))))))"

section \<open>The agent's provider of acknowledgements\<close>

text \<open>Known core peers are preferred; before any is known all connected peers are asked.\<close>

definition connected_core_peers :: "string \<Rightarrow> string list \<Rightarrow> string list \<Rightarrow> string list" where
  "connected_core_peers self peers known =
     (let connected = filter (\<lambda>p. p \<noteq> self) peers; filtered = filter (\<lambda>p. p \<in> set known) connected in
      if known \<noteq> [] \<and> filtered \<noteq> [] then filtered else connected)"

definition verify_identity_or_false :: "(string \<Rightarrow> int \<Rightarrow> string + bool) \<Rightarrow> string \<Rightarrow> int \<Rightarrow> string + bool" where
  "verify_identity_or_false f addr i = (case f addr i of Inl _ \<Rightarrow> Inr False | Inr b \<Rightarrow> Inr b)"

record AgentChain =
  ac_minimumRequiredSignatures :: "(string + int) option"
  ac_evmChainId :: "string + int"
  ac_kav10Address :: "string + string"
  ac_verifyACKIdentity :: "string \<Rightarrow> int \<Rightarrow> string + bool"

datatype ProviderError = ProviderNonNumeric string | ProviderNonPositive int | ProviderLeafCount nat | ProviderFailed string | ProviderCollect CollectError

definition provider_deps :: "ACKCollectorDeps \<Rightarrow> AgentChain \<Rightarrow> string \<Rightarrow> string list \<Rightarrow> string list \<Rightarrow> ACKCollectorDeps" where
  "provider_deps net chain self peers known =
     net\<lparr>ad_getConnectedCorePeers := connected_core_peers self peers known,
         ad_verifyIdentity := Some (verify_identity_or_false (ac_verifyACKIdentity chain))\<rparr>"

definition provider_params :: "string \<Rightarrow> AckRequest \<Rightarrow> int \<Rightarrow> int option \<Rightarrow> int \<Rightarrow> string \<Rightarrow> CollectParams" where
  "provider_params self q cg required chainId1 kav =
     \<lparr>cp_merkleRoot = aq_merkleRoot q, cp_contextGraphId = cg, cp_contextGraphIdStr = aq_contextGraphId q,
      cp_publisherPeerId = self, cp_publicByteSize = aq_publicByteSize q, cp_isPrivate = False,
      cp_kaCount = int (aq_kaCount q), cp_rootEntities = aq_rootEntities q, cp_chainId = chainId1, cp_kav10Address = kav,
      cp_requiredACKs = required, cp_stagingQuads = aq_stagingQuads q, cp_epochs = aq_epochs q,
      cp_tokenAmount = aq_tokenAmount q, cp_swmGraphId = aq_swmGraphId q, cp_subGraphName = aq_subGraphName q,
      cp_merkleLeafCount = int (aq_merkleLeafCount q)\<rparr>"

definition v10_ack_provider ::
  "ACKCollectorDeps \<Rightarrow> AgentChain \<Rightarrow> string \<Rightarrow> string list \<Rightarrow> string list \<Rightarrow> Completion list \<Rightarrow> AckRequest
    \<Rightarrow> (ProviderError + CollectedACK list) option" where
  "v10_ack_provider net chain self peers known es q =
     (case toBigInt (aq_contextGraphId q) of
        None \<Rightarrow> Some (Inl (ProviderNonNumeric (aq_contextGraphId q)))
      | Some cg \<Rightarrow>
          if cg \<le> 0 then Some (Inl (ProviderNonPositive cg))
          else if aq_merkleLeafCount q < 1 then Some (Inl (ProviderLeafCount (aq_merkleLeafCount q)))
          else case bindE (case ac_minimumRequiredSignatures chain of None \<Rightarrow> Inr None | Some m \<Rightarrow> map_sum id Some m) (\<lambda>required.
                    bindE (ac_evmChainId chain) (\<lambda>c. bindE (ac_kav10Address chain) (\<lambda>kav. Inr (provider_params self q cg required c kav)))) of
            Inl e \<Rightarrow> Some (Inl (ProviderFailed e))
          | Inr p \<Rightarrow> map_option (map_sum ProviderCollect ar_acks) (collect_acks (provider_deps net chain self peers known) p es))"

section \<open>Forgetting\<close>

text \<open>
  What a publisher remembers besides its store is kept in memory. \<^verbatim>\<open>removeSubGraph\<close> of the agent calls
  \<^verbatim>\<open>clearSubGraphOwnership\<close>; a restart constructs a new publisher on the same store.
\<close>

definition clearSubGraphOwnership :: "string \<Rightarrow> PublisherState \<Rightarrow> PublisherState" where
  "clearSubGraphOwnership key st =
     st\<lparr>db_owned := AList.delete key (db_owned st), db_private := AList.delete key (db_private st)\<rparr>"

definition newPublisher :: "Quad list \<Rightarrow> PublisherState" where
  "newPublisher store = \<lparr>db_store = store, db_ensured = [], db_private = [], db_owned = [], db_batches = [], db_tentative = 0\<rparr>"

datatype PublisherCall = PublishCall PublisherEnv DirectOptions | ClearSubGraph string | RestartPublisher

fun publisher_call :: "PublisherCall \<Rightarrow> PublisherState \<Rightarrow> PublisherState" where
  "publisher_call (PublishCall env options) st = snd (publish env options st)"
| "publisher_call (ClearSubGraph key) st = clearSubGraphOwnership key st"
| "publisher_call RestartPublisher st = newPublisher (db_store st)"

definition publisher_calls :: "PublisherCall list \<Rightarrow> PublisherState \<Rightarrow> PublisherState" where
  "publisher_calls calls st = fold publisher_call calls st"

end
