(* ===== verification/AckLive.thy ===== *)
theory AckLive
  imports DirectPublish
begin

text \<open>
  Publisher, agent and core nodes together: the acknowledgement an honest core node gives to a direct publish is one the
  collector accepts, so a quorum of honest core nodes is enough, and what is collected was attested by nodes that
  checked the quads.
\<close>

section \<open>What is collected\<close>

lemma request_retry_Some: "request_retry f n left = Some a \<Longrightarrow> \<exists>k. f k = Inr (Some a)"
  by (induction f n left rule: request_retry.induct) (auto split: sum.splits)

text \<open>An accepted acknowledgement: signed over the digest by an address that owns the claimed identity.\<close>

definition ack_valid :: "ACKCollectorDeps \<Rightarrow> CollectParams \<Rightarrow> CollectedACK \<Rightarrow> bool" where
  "ack_valid deps p a \<longleftrightarrow>
     ca_peerId a \<in> set (ad_getConnectedCorePeers deps) \<and>
     (\<exists>d addr. computePublishACKDigest (ad_keccak deps) (collect_fields p) = Inr d \<and>
        ad_recoverAddress deps (ad_hashMessage deps d) (ca_signatureR a) (ca_signatureVS a) = Inr addr \<and> addr \<noteq> [] \<and>
        (\<forall>vf. ad_verifyIdentity deps = Some vf \<longrightarrow> vf addr (ca_nodeIdentityId a) = Inr True))"

lemma ack_attempt_Some:
  assumes "ack_attempt deps b d mroot peer k = Inr (Some a)"
  shows "ca_peerId a = peer \<and> (\<exists>addr. ad_recoverAddress deps (ad_hashMessage deps d) (ca_signatureR a) (ca_signatureVS a) = Inr addr
    \<and> addr \<noteq> [] \<and> (\<forall>vf. ad_verifyIdentity deps = Some vf \<longrightarrow> vf addr (ca_nodeIdentityId a) = Inr True))"
  using assms
  by (auto simp: ack_attempt_def bindE_Inr recoverACKSigner_def Let_def split: option.splits sum.splits if_splits)

lemma requestACK_Some:
  assumes "requestACK deps b d mroot peer = Some a"
  shows "ca_peerId a = peer \<and> (\<exists>addr. ad_recoverAddress deps (ad_hashMessage deps d) (ca_signatureR a) (ca_signatureVS a) = Inr addr
    \<and> addr \<noteq> [] \<and> (\<forall>vf. ad_verifyIdentity deps = Some vf \<longrightarrow> vf addr (ca_nodeIdentityId a) = Inr True))"
  using request_retry_Some assms unfolding requestACK_def by (metis ack_attempt_Some)

lemma no_acks_consistent: "acks_consistent no_acks"
  by (simp add: acks_consistent_def no_acks_def)

lemma collect_acks_sound:
  assumes "collect_acks deps p es = Some (Inr res)"
  shows "length (ar_acks res) = nat (required_acks p) \<and> distinct (map ca_peerId (ar_acks res))
    \<and> distinct (map ca_nodeIdentityId (ar_acks res)) \<and> (\<forall>a \<in> set (ar_acks res). ack_valid deps p a)
    \<and> ar_merkleRoot res = cp_merkleRoot p \<and> ar_contextGraphId res = cp_contextGraphId p"
proof -
  let ?req = "required_acks p"
  obtain d st where d: "computePublishACKDigest (ad_keccak deps) (collect_fields p) = Inr d"
    and race: "race offer_ack (\<lambda>st. nat ?req \<le> length (collected st))
       (requestACK deps (ad_encodeIntent deps (publish_intent p)) d (cp_merkleRoot p))
       (if ?req \<le> 0 then [] else ad_getConnectedCorePeers deps) no_acks es = Some (st, False)"
    and len: "?req \<le> int (length (collected st))"
    and res: "res = \<lparr>ar_acks = take (nat ?req) (collected st), ar_merkleRoot = cp_merkleRoot p, ar_contextGraphId = cp_contextGraphId p\<rparr>"
    using assms by (auto simp: collect_acks_def Let_def split: if_splits option.splits sum.splits prod.splits bool.splits)
  show ?thesis
  proof (cases "?req \<le> 0")
    case True
    then show ?thesis using res by simp
  next
    case False
    then have "acks_consistent st \<and> length (collected st) \<le> nat ?req \<and> set (collected st) \<subseteq> set (collected no_acks)
        \<union> {a. \<exists>q \<in> set (ad_getConnectedCorePeers deps). requestACK deps (ad_encodeIntent deps (publish_intent p)) d (cp_merkleRoot p) q = Some a}"
      using race no_acks_consistent by (intro acks.race_sound) (auto simp: no_acks_def)
    then have c: "acks_consistent st" and l: "length (collected st) = nat ?req"
      and v: "\<forall>a \<in> set (collected st). ack_valid deps p a"
      using len d requestACK_Some by (fastforce simp: no_acks_def ack_valid_def)+
    then show ?thesis using res by (simp add: acks_consistent_def)
  qed
qed

section \<open>An honest core node\<close>

text \<open>
  What decoding returns for an encoded message: absent fields have their defaults, and a 64-bit number comes back as two
  signed halves.
\<close>

definition wire_intent :: "PublishIntentMsg \<Rightarrow> PublishIntentMsg" where
  "wire_intent i = i\<lparr>pi_stagingQuads := Some (or_else (pi_stagingQuads i) []), pi_epochs := Some (or_else (pi_epochs i) 0),
     pi_tokenAmountStr := Some (or_else (pi_tokenAmountStr i) []), pi_swmGraphId := Some (or_else (pi_swmGraphId i) []),
     pi_subGraphName := Some (or_else (pi_subGraphName i) []), pi_merkleLeafCount := Some (or_else (pi_merkleLeafCount i) 0)\<rparr>"

fun proto_value :: "ProtoNum \<Rightarrow> int" where
  "proto_value (Num v) = v"
| "proto_value (Long l h) = take_bit 32 l + 2 ^ 32 * take_bit 32 h"

definition wire_uint64 :: "ProtoNum \<Rightarrow> ProtoNum" where
  "wire_uint64 m = Long (signed_take_bit 31 (proto_value m)) (signed_take_bit 31 (drop_bit 32 (proto_value m)))"

lemma wire_identity_value:
  assumes "0 \<le> v" "v < 2 ^ 64" shows "proto_value (wire_identity v) = v"
proof -
  have "drop_bit 32 v < 2 ^ 32" "0 \<le> drop_bit 32 v" using assms by (simp_all add: drop_bit_eq_div div_less_iff_less_mult)
  then have "take_bit 32 (drop_bit 32 v) = drop_bit 32 v" by (simp add: take_bit_int_eq_self)
  then show ?thesis by (simp add: wire_identity_def take_bit_eq_mod drop_bit_eq_div)
qed

text \<open>
  An identity that survives the way to the collector: the sign bits of the two halves are clear. The handler serves every
  64-bit identity, so this is a condition on the identity and not on the node.
\<close>

definition readable_identity :: "int \<Rightarrow> bool" where
  "readable_identity v \<longleftrightarrow> 0 \<le> v \<and> v < 2 ^ 64 \<and> \<not> bit v 31 \<and> \<not> bit v 63"

lemma high_bits_clear:
  assumes "0 \<le> v" "v < 2 ^ 64" "64 \<le> n" shows "\<not> bit (v :: int) n"
proof -
  have "take_bit 64 v = v" using assms by (simp add: take_bit_int_eq_self)
  then show ?thesis using assms(3) by (metis bit_take_bit_iff not_less)
qed

lemma readable_identity_read:
  assumes "readable_identity v" shows "ack_identity (wire_uint64 (wire_identity v)) = v"
proof (rule bit_eqI)
  fix n :: nat
  have r: "0 \<le> v" "v < 2 ^ 64" "\<not> bit v 31" "\<not> bit v 63" using assms by (simp_all add: readable_identity_def)
  consider "n < 31" | "n = 31" | "32 \<le> n" "n < 63" | "n = 63" | "64 \<le> n" by linarith
  then show "bit (ack_identity (wire_uint64 (wire_identity v))) n = bit v n"
    using r high_bits_clear [OF r(1,2), of n]
    by cases (auto simp: wire_uint64_def wire_identity_value bit_or_iff bit_push_bit_iff bit_signed_take_bit_iff bit_drop_bit_eq min_def)
qed

text \<open>The condition is exact: the collector reads every other 64-bit identity as a negative number.\<close>

lemma unreadable_identity_negative:
  assumes "0 \<le> v" "v < 2 ^ 64" "\<not> readable_identity v" shows "ack_identity (wire_uint64 (wire_identity v)) < 0"
  using assms by (auto simp: wire_uint64_def wire_identity_value readable_identity_def or_negative_int_iff push_bit_negative_int_iff signed_take_bit_negative_iff bit_drop_bit_eq)

text \<open>
  A core node that works for this request: it runs the handler on the same chain, its signer is registered, its store
  accepts the quads, its messages decode, and its signature is recovered as an address registered for its identity. Whether
  the collector can read that identity is a condition of its own.
\<close>

definition honest_core :: "ACKCollectorDeps \<Rightarrow> CollectParams \<Rightarrow> string \<Rightarrow> StorageACKNode \<Rightarrow> AckState \<Rightarrow> bool" where
  "honest_core deps p peer n s \<longleftrightarrow>
     (let intentBytes = ad_encodeIntent deps (publish_intent p) in
      sn_isCore n \<and> sn_keccak n = ad_keccak deps \<and> sn_chainId n = cp_chainId p \<and> sn_kav10Address n = cp_kav10Address p \<and>
      (sn_isSignerRegistered n = None \<or> sn_isSignerRegistered n = Some (Inr True)) \<and>
      (\<forall>t. sn_decodeText n (utf8 t) = t) \<and>
      (\<forall>g qs. \<exists>qs'. sn_dropGraph n g qs = Inr qs') \<and> (\<forall>xs qs. \<exists>qs'. sn_insert n xs qs = Inr qs') \<and>
      sn_decodeIntent n intentBytes = Inr (wire_intent (publish_intent p)) \<and>
      (\<forall>d. computePublishACKDigest (ad_keccak deps) (collect_fields p) = Inr d \<longrightarrow> (\<exists>r vs addr. sn_signMessage n d = Inr (r, vs)
         \<and> ad_recoverAddress deps (ad_hashMessage deps d) r vs = Inr addr \<and> addr \<noteq> []
         \<and> (\<forall>vf. ad_verifyIdentity deps = Some vf \<longrightarrow> vf addr (sn_nodeIdentityId n) = Inr True)
         \<and> (\<forall>a. sa_coreNodeSignatureR a = r \<and> sa_coreNodeSignatureVS a = vs \<and> sa_merkleRoot a = cp_merkleRoot p
              \<and> sa_nodeIdentityId a = wire_identity (sn_nodeIdentityId n) \<and> sa_contextGraphId a = cp_contextGraphIdStr p \<longrightarrow>
              ad_decodeACK deps (sn_encodeACK n a) = Inr (a\<lparr>sa_nodeIdentityId := wire_uint64 (sa_nodeIdentityId a)\<rparr>)))) \<and>
      ad_sendP2P deps peer 0 intentBytes = map_sum (\<lambda>_. ''stream reset'') id (fst (storage_ack_handler n intentBytes s)))"

text \<open>The parameters of a direct publish of quads: they travel with the request.\<close>

definition direct_params :: "(bytes \<Rightarrow> bytes) \<Rightarrow> Quad list \<Rightarrow> CollectParams \<Rightarrow> bool" where
  "direct_params h qs p \<longleftrightarrow>
     qs \<noteq> [] \<and> (\<forall>q \<in> set qs. quad_ok q) \<and> cp_stagingQuads p = Some (utf8 (nquads_text qs)) \<and>
     int (length (utf8 (nquads_text qs))) \<le> MAX_STAGING_BYTES \<and> cp_merkleRoot p = computeFlatKCRootV10 h qs [] \<and>
     cp_merkleLeafCount p = int (computeFlatKCMerkleLeafCountV10 h qs []) \<and> cp_kaCount p = int (length (rootSubjects qs)) \<and>
     set (cp_rootEntities p) \<subseteq> set (rootSubjects qs) \<and> toBigInt (cp_contextGraphIdStr p) = Some (cp_contextGraphId p) \<and>
     cp_contextGraphId p > 0 \<and> (case cp_epochs p of Some e \<Rightarrow> e > 0 | None \<Rightarrow> True) \<and>
     (case cp_tokenAmount p of Some t \<Rightarrow> t \<ge> 0 | None \<Rightarrow> True)"

lemma toBigInt_show_nat: "toBigInt (show_nat m) = Some (int m)"
proof -
  have dig: "is_digit c" if "c \<in> set (show_nat m)" for c using show_nat_digits that .
  have sp: "\<not> is_space c" if "is_digit c" for c
    using that by (auto simp: is_space_def is_digit_def Let_def)
  have trim: "str_trim (show_nat m) = show_nat m"
    by (rule str_trim_id) (auto intro!: sp dig)
  have "\<not> startsWith (show_nat m) (x # y # [])" if "\<not> is_digit y" for x y
    using dig that by (cases "show_nat m" rule: address_pairs.cases) (auto simp: startsWith_def)
  then have hex: "\<not> startsWith (show_nat m) ''0x''" "\<not> startsWith (show_nat m) ''0X''" by (simp_all add: is_digit_def)
  have sign: "\<not> startsWith (show_nat m) [c]" if "\<not> is_digit c" for c
    using dig that by (cases "show_nat m") (auto simp: startsWith_def)
  have "list_all is_digit (show_nat m)" using dig by (simp add: list_all_iff)
  then show ?thesis using hex sign [of "CHR ''-''"] sign [of "CHR ''+''"]
    by (simp add: toBigInt_def trim Let_def is_digit_def)
qed

lemma flat_leaves_pos: "qs \<noteq> [] \<Longrightarrow> computeFlatKCMerkleLeafCountV10 h qs [] \<noteq> 0"
  by (simp add: computeFlatKCMerkleLeafCountV10_def leafCount_v10 flatLeavesV10_def)

lemma utf8_eq_Nil: "utf8 s = [] \<longleftrightarrow> s = []"
  by (cases s) (auto simp: Let_def)

lemma nquads_text_nonempty: "qs \<noteq> [] \<Longrightarrow> nquads_text qs \<noteq> []"
  by (cases qs; cases "tl qs") (auto simp: nquads_text_def nquad_line_def)

lemma parseSimple: "parseSimpleNQuads = parseNQuads"
  by (simp add: fun_eq_iff parseSimpleNQuads_def parseNQuads_def)

lemma honest_fields:
  assumes "direct_params (sn_keccak n) qs p" "sn_chainId n = cp_chainId p" "sn_kav10Address n = cp_kav10Address p"
  shows "ack_fields n (wire_intent (publish_intent p)) qs = Inr (collect_fields p)"
proof -
  have "length (js_unique (filter P xs)) = length (filter P (js_unique xs))" for P and xs :: "string list"
    by (metis distinct_card distinct_filter distinct_js_unique set_filter set_js_unique)
  moreover have "show_int t = show_nat (nat t)" if "t \<ge> 0" for t using that by (simp add: show_int_def)
  ultimately show ?thesis using assms flat_leaves_pos [of qs "sn_keccak n"]
    by (auto simp: ack_fields_def direct_params_def wire_intent_def publish_intent_def collect_fields_def or_else_def nonblank_def
        rootSubjects_def uniqueSubjects_def Let_def toBigInt_show_nat split: option.splits)
qed

lemma honest_quads:
  assumes "direct_params (sn_keccak n) qs p" and "\<forall>t. sn_decodeText n (utf8 t) = t"
    and "\<forall>g qs. \<exists>qs'. sn_dropGraph n g qs = Inr qs'" "\<forall>xs qs. \<exists>qs'. sn_insert n xs qs = Inr qs'"
  shows "\<exists>t. verified_quads n (wire_intent (publish_intent p)) s = (Inr qs, t)"
proof -
  let ?i = "wire_intent (publish_intent p)" and ?b = "utf8 (nquads_text qs)"
  have st: "\<exists>t. stage n g qs s = (Inr (), t)" for g
  proof -
    obtain q1 where 1: "sn_dropGraph n g (as_store s) = Inr q1" using assms(3) by blast
    obtain q2 where "sn_insert n (map (\<lambda>q. q\<lparr>graph := g\<rparr>) qs) q1 = Inr q2" using assms(4) by blast
    with 1 show ?thesis by (simp add: stage_def bindM_def store_op_def modM_def)
  qed
  obtain c cs where b: "?b = c # cs"
    using assms(1) nquads_text_nonempty utf8_eq_Nil by (metis direct_params_def list.exhaust)
  have "parseSimpleNQuads (sn_decodeText n ?b) = qs"
    using assms(1,2) by (simp add: parseSimple parseNQuads_text direct_params_def)
  then have "check_staged n ?i ?b = Inr qs"
    using assms(1) by (auto simp: check_staged_Inr direct_params_def wire_intent_def publish_intent_def)
  moreover have "pi_stagingQuads ?i = Some (c # cs)"
    using assms(1) b by (simp add: direct_params_def wire_intent_def publish_intent_def or_else_def)
  moreover obtain t where "stage n (stagingGraphUri (swm_graph n ?i) (pi_merkleRoot ?i)) qs s = (Inr (), t)" using st by blast
  ultimately show ?thesis using b by (auto simp: verified_quads_def bindM_Inr liftE_Inr ret_def)
qed

lemma honest_ack:
  assumes honest: "honest_core deps p peer n s" and params: "direct_params (ad_keccak deps) qs p"
    and digest: "computePublishACKDigest (ad_keccak deps) (collect_fields p) = Inr d"
    and id: "readable_identity (sn_nodeIdentityId n)"
  shows "\<exists>a. requestACK deps (ad_encodeIntent deps (publish_intent p)) d (cp_merkleRoot p) peer = Some a
    \<and> ca_nodeIdentityId a = sn_nodeIdentityId n"
proof -
  let ?i = "wire_intent (publish_intent p)" and ?b = "ad_encodeIntent deps (publish_intent p)" and ?id = "sn_nodeIdentityId n"
  note h = honest [unfolded honest_core_def Let_def]
  have k: "sn_keccak n = ad_keccak deps" and dec: "sn_decodeIntent n ?b = Inr ?i"
    using h by blast+
  obtain t where vq: "verified_quads n ?i s = (Inr qs, t)" using honest_quads [of n qs p s] params h by metis
  have f: "ack_fields n ?i qs = Inr (collect_fields p)" using honest_fields [of n qs p] params h by metis
  obtain r vs addr where sig: "sn_signMessage n d = Inr (r, vs)"
    and rec: "ad_recoverAddress deps (ad_hashMessage deps d) r vs = Inr addr" "addr \<noteq> []"
    and vf: "\<forall>vf. ad_verifyIdentity deps = Some vf \<longrightarrow> vf addr ?id = Inr True"
    and codec: "\<forall>a. sa_coreNodeSignatureR a = r \<and> sa_coreNodeSignatureVS a = vs \<and> sa_merkleRoot a = cp_merkleRoot p
        \<and> sa_nodeIdentityId a = wire_identity ?id \<and> sa_contextGraphId a = cp_contextGraphIdStr p \<longrightarrow>
        ad_decodeACK deps (sn_encodeACK n a) = Inr (a\<lparr>sa_nodeIdentityId := wire_uint64 (sa_nodeIdentityId a)\<rparr>)"
    using h digest by metis
  define ack where "ack = \<lparr>sa_merkleRoot = cp_merkleRoot p, sa_coreNodeSignatureR = r, sa_coreNodeSignatureVS = vs,
     sa_contextGraphId = cp_contextGraphIdStr p, sa_nodeIdentityId = wire_identity ?id\<rparr>"
  have "check_signer n t = (Inr (), t)" using h by (auto simp: check_signer_Inr)
  moreover have "sign_ack n ?i d = Inr (sn_encodeACK n ack)"
    using sig id by (simp add: readable_identity_def sign_ack_def bindE_Inr map_sum_Inr wire_intent_def publish_intent_def ack_def)
  ultimately have "storage_ack_handler n ?b s = (Inr (sn_encodeACK n ack), t)"
    using h dec vq f digest k by (simp add: storage_ack_handler_def bindM_def liftE_def)
  then have "ad_sendP2P deps peer 0 ?b = Inr (sn_encodeACK n ack)" using h by simp
  moreover have "ad_decodeACK deps (sn_encodeACK n ack) = Inr (ack\<lparr>sa_nodeIdentityId := wire_uint64 (wire_identity ?id)\<rparr>)"
    using codec by (simp add: ack_def)
  ultimately have "ack_attempt deps ?b d (cp_merkleRoot p) peer 0
      = Inr (Some \<lparr>ca_peerId = peer, ca_signatureR = r, ca_signatureVS = vs, ca_nodeIdentityId = ?id\<rparr>)"
    using rec vf readable_identity_read [OF id]
    by (auto simp: ack_attempt_def bindE_def recoverACKSigner_def ack_def Let_def split: option.splits)
  then show ?thesis by (simp add: requestACK_def MAX_RETRIES_def numeral_3_eq_3)
qed

text \<open>
  The collection succeeds when enough honest core nodes with different identities answer before the timer fires, whatever
  the other peers answer and in whatever order.
\<close>

lemma collect_acks_live:
  assumes params: "direct_params (ad_keccak deps) qs p" and addr: "computePublishACKDigest (ad_keccak deps) (collect_fields p) = Inr d"
    and peers: "distinct (ad_getConnectedCorePeers deps)" "H \<subseteq> set (ad_getConnectedCorePeers deps)"
    and honest: "\<And>q. q \<in> H \<Longrightarrow> honest_core deps p q (node q) (state q)" and ids: "inj_on (sn_nodeIdentityId \<circ> node) H"
    and readable: "\<And>q. q \<in> H \<Longrightarrow> readable_identity (sn_nodeIdentityId (node q))"
    and quorum: "required_acks p \<le> int (card H)" and settled: "Settled ` H \<subseteq> set es" "TimedOut \<notin> set es"
    and nonempty: "ad_getConnectedCorePeers deps \<noteq> []"
  shows "\<exists>res. collect_acks deps p (es @ fs) = Some (Inr res)"
proof -
  let ?peers = "ad_getConnectedCorePeers deps" and ?req = "required_acks p"
  let ?ask = "requestACK deps (ad_encodeIntent deps (publish_intent p)) d (cp_merkleRoot p)"
  have leaf: "\<not> cp_merkleLeafCount p < 1"
    using params flat_leaves_pos [of qs "ad_keccak deps"] by (auto simp: direct_params_def)
  have "card H \<le> length ?peers" using peers(2) card_mono [of "set ?peers" H] card_length [of ?peers] by simp
  then have len: "\<not> int (length ?peers) < ?req" using quorum by simp
  have "\<exists>st. race offer_ack (\<lambda>st. nat ?req \<le> length (collected st)) ?ask (if ?req \<le> 0 then [] else ?peers) no_acks (es @ fs)
      = Some (st, False) \<and> nat ?req \<le> length (collected st)"
  proof (cases "?req \<le> 0")
    case False
    have "\<exists>st. race offer_ack (\<lambda>st. nat ?req \<le> length (collected st)) ?ask ?peers no_acks (es @ fs)
      = Some (st, False) \<and> nat ?req \<le> length (collected st)"
    proof (rule acks.race_live [where H = H and k = "\<lambda>q. sn_nodeIdentityId (node q)"])
      show "ca_peerId a = q" if "?ask q = Some a" for q a using requestACK_Some that by blast
      show "\<exists>a. ?ask q = Some a \<and> ca_nodeIdentityId a = sn_nodeIdentityId (node q)" if "q \<in> H" for q
        using honest_ack [OF honest [OF that] params addr readable [OF that]] .
      show "nat ?req \<le> card (ca_nodeIdentityId ` set (collected no_acks) \<union> (\<lambda>q. sn_nodeIdentityId (node q)) ` H)"
        using card_image [OF ids] quorum by (simp add: no_acks_def comp_def)
    qed (use peers settled no_acks_consistent False in \<open>auto simp: no_acks_def\<close>)
    then show ?thesis using False by simp
  qed (simp add: no_acks_def)
  then obtain st where "race offer_ack (\<lambda>st. nat ?req \<le> length (collected st)) ?ask (if ?req \<le> 0 then [] else ?peers) no_acks (es @ fs)
      = Some (st, False)" "nat ?req \<le> length (collected st)" by blast
  then show ?thesis using leaf len nonempty addr by (auto simp: collect_acks_def Let_def nat_le_iff)
qed

section \<open>A prepared publish is a request that honest nodes acknowledge\<close>

lemma set_rootSubjects: "set (rootSubjects qs) = {s \<in> subject ` set qs. \<not> isSkolemizedUri s}"
  by (auto simp: rootSubjects_def uniqueSubjects_def isSkolemizedUri_def GENID_SEGMENT_def)

lemma distinct_rootSubjects: "distinct (rootSubjects qs)"
  by (simp add: rootSubjects_def uniqueSubjects_def)

lemma partition_rootSubjects:
  "set (rootSubjects (concat (map snd (autoPartition qs)))) = set (map fst (autoPartition qs))" (is "set (rootSubjects ?all) = _")
proof
  show "set (rootSubjects ?all) \<subseteq> set (map fst (autoPartition qs))"
  proof
    fix s assume "s \<in> set (rootSubjects ?all)"
    then obtain r g q where g: "(r, g) \<in> set (autoPartition qs)" "q \<in> set g" "s = subject q" and s: "\<not> isSkolemizedUri s"
      by (auto simp: set_rootSubjects)
    from group_subject [OF g(1,2)] have "s = r" using s g(3) child_is_skolemized by metis
    then show "s \<in> set (map fst (autoPartition qs))" using g(1) by force
  qed
  show "set (map fst (autoPartition qs)) \<subseteq> set (rootSubjects ?all)"
  proof
    fix r assume "r \<in> set (map fst (autoPartition qs))"
    then obtain g where g: "(r, g) \<in> set (autoPartition qs)" by auto
    then obtain q where q: "q \<in> set qs" "subject q = r" "\<not> isBlankNode r" "\<not> isSkolemizedUri r"
      by (auto simp: autoPartition_mem set_findRootEntities)
    then have "skolemQuad r q \<in> set g" "subject (skolemQuad r q) = r"
      using g by (auto simp: autoPartition_mem quadsOfRoot_def skolemQuad_def skolemTerm_def)
    then show "r \<in> set (rootSubjects ?all)" using g q(4) by (force simp: set_rootSubjects)
  qed
qed

lemma partition_count: "length (rootSubjects (concat (map snd (autoPartition qs)))) = length (autoPartition qs)"
proof -
  have "distinct (map fst (autoPartition qs))" by (simp add: autoPartition_keys distinct_findRootEntities)
  then have "card (set (map fst (autoPartition qs))) = length (autoPartition qs)" using distinct_card by fastforce
  then show ?thesis using distinct_card [OF distinct_rootSubjects] partition_rootSubjects by metis
qed

lemma prepared_Inr:
  assumes "prepare_publish h o1 existing = Inr pp"
  shows "pp_parts pp = enumerate 1 (autoPartition (do_quads o1)) \<and>
    pp_manifest pp = map (manifest_entry h (do_privateQuads o1)) (pp_parts pp) \<and>
    map rootEntity (pp_manifest pp) = map fst (autoPartition (do_quads o1)) \<and>
    pp_quads pp = concat (map snd (autoPartition (do_quads o1))) \<and>
    pp_privateRoots pp = List.map_filter privateMerkleRoot (pp_manifest pp) \<and>
    pp_merkleRoot pp = computeFlatKCRootV10 h (pp_quads pp) (pp_privateRoots pp) \<and>
    pp_leafCount pp = computeFlatKCMerkleLeafCountV10 h (pp_quads pp) (pp_privateRoots pp) \<and> int (pp_leafCount pp) \<le> 0xffffffff \<and>
    fst (validatePublishRequest (pp_quads pp) (pp_manifest pp) (do_contextGraphId o1) existing no_options)"
proof -
  have e: "map (\<lambda>(i, r, qs). f r qs) (enumerate k xs) = map (\<lambda>(r, qs). f r qs) xs" for f :: "string \<Rightarrow> Quad list \<Rightarrow> 'b" and k xs
    by (induction xs arbitrary: k) auto
  have "map (\<lambda>(_, _, qs). qs) (enumerate 1 xs) = map snd xs" for xs :: "(string \<times> Quad list) list"
    using e [of "\<lambda>_ qs. qs" 1 xs] by (simp add: case_prod_unfold)
  moreover have "map rootEntity (map (manifest_entry h priv) (enumerate 1 xs)) = map fst xs" for priv xs
    using e [of "\<lambda>r _. r" 1 xs] by (simp add: manifest_entry_def case_prod_unfold comp_def)
  ultimately show ?thesis using assms by (auto simp: prepare_publish_def Let_def split: if_splits)
qed

lemma prepared_direct:
  assumes prep: "prepare_publish h o1 existing = Inr pp" and "pp_privateRoots pp = []" "\<not> do_fromSharedMemory o1"
    and "pp_quads pp \<noteq> []" "\<forall>q \<in> set (pp_quads pp). quad_ok q" "int (length (utf8 (public_text pp))) \<le> MAX_STAGING_BYTES"
    and "toBigInt (ack_domain o1) = Some cg" "cg > 0" "amount \<ge> 0"
  shows "direct_params h (pp_quads pp) (provider_params self (ack_request o1 pp amount) cg req c kav)"
proof -
  note p = prepared_Inr [OF prep]
  have "length (pp_manifest pp) = length (map fst (autoPartition (do_quads o1)))" using p by (metis length_map)
  then have "length (pp_manifest pp) = length (rootSubjects (pp_quads pp))" using p partition_count by simp
  moreover have "set (map rootEntity (pp_manifest pp)) = set (rootSubjects (pp_quads pp))" using p partition_rootSubjects by metis
  moreover have "pp_merkleRoot pp = computeFlatKCRootV10 h (pp_quads pp) []" "pp_leafCount pp = computeFlatKCMerkleLeafCountV10 h (pp_quads pp) []"
    using p assms(2) by simp_all
  ultimately show ?thesis using assms(2-)
    by (simp add: direct_params_def provider_params_def ack_request_def public_text_def)
qed

section \<open>What an acknowledgement attests\<close>

text \<open>A call of the handler that was answered, and the fields it signed.\<close>

definition answered :: "StorageACKNode \<Rightarrow> bytes \<times> AckState \<Rightarrow> PublishFields \<Rightarrow> bool" where
  "answered n call f \<longleftrightarrow> (\<exists>resp t i qs. storage_ack_handler n (fst call) (snd call) = (Inr resp, t) \<and>
     sn_decodeIntent n (fst call) = Inr i \<and> verified_quads n i (snd call) = (Inr qs, t) \<and> ack_fields n i qs = Inr f)"

text \<open>The node holds the quads of a publish after the call.\<close>

definition attests :: "StorageACKNode \<Rightarrow> bytes \<times> AckState \<Rightarrow> CollectParams \<Rightarrow> bool" where
  "attests n call p \<longleftrightarrow> (\<exists>i qs. sn_decodeIntent n (fst call) = Inr i \<and>
     holds_quads n i qs (snd (storage_ack_handler n (fst call) (snd call))) \<and>
     computeFlatKCRootV10 (sn_keccak n) qs [] = cp_merkleRoot p \<and>
     int (computeFlatKCMerkleLeafCountV10 (sn_keccak n) qs []) mod 2 ^ 256 = cp_merkleLeafCount p mod 2 ^ 256 \<and>
     int (length (rootSubjects qs)) mod 2 ^ 256 = cp_kaCount p mod 2 ^ 256)"

lemma answered_attests:
  assumes "answered n call f" "store_laws n" "computePublishACKDigest (sn_keccak n) f = Inr d"
    and "computePublishACKDigest (sn_keccak n) (collect_fields p) = Inr d"
    and "inj_on (sn_keccak n) {publish_input f, publish_input (collect_fields p)}"
  shows "attests n call p"
proof -
  obtain resp t i qs where c: "storage_ack_handler n (fst call) (snd call) = (Inr resp, t)" "sn_decodeIntent n (fst call) = Inr i"
    and vq: "verified_quads n i (snd call) = (Inr qs, t)" and f: "ack_fields n i qs = Inr f"
    using assms(1) unfolding answered_def by blast
  note v = verified_quads_Inr [OF vq assms(2)] and fields = publish_digest_fields [OF assms(3,4,5)]
  have "pf_merkleRoot f = cp_merkleRoot p" using fields(2) by (simp add: collect_fields_def)
  moreover have "pf_merkleLeafCount f mod 2 ^ 256 = cp_merkleLeafCount p mod 2 ^ 256" "pf_kaCount f mod 2 ^ 256 = cp_kaCount p mod 2 ^ 256"
    using fields(9,5) unfolding uint256_eq_iff by (simp_all add: collect_fields_def)
  ultimately show ?thesis unfolding attests_def using c v ack_fields_Inr [OF f] by (intro exI [of _ i] exI [of _ qs]) auto
qed

end
