(* ===== verification/DirectSafety.thy ===== *)
theory DirectSafety
  imports AckLive
begin

text \<open>
  What a direct publish guarantees: what is stored, committed to and submitted when it is confirmed, what it leaves
  behind when it is refused, and that a root entity is published once in its scope.
\<close>

section \<open>Growth of the store\<close>

text \<open>Inserting quads into the triple store adds them and removes nothing.\<close>

definition insert_law :: "PublisherEnv \<Rightarrow> bool" where
  "insert_law env \<longleftrightarrow> (\<forall>qs s s'. pe_insert env qs s = Inr s' \<longrightarrow> set s' = set s \<union> set qs)"

definition grown :: "PublisherState \<Rightarrow> PublisherState \<Rightarrow> bool" where
  "grown s t \<longleftrightarrow> set (db_store s) \<subseteq> set (db_store t) \<and> db_owned t = db_owned s \<and> db_batches t = db_batches s"

lemma grown_refl [simp]: "grown s s"
  by (simp add: grown_def)

lemma grown_trans [trans]: "grown s t \<Longrightarrow> grown t u \<Longrightarrow> grown s u"
  by (auto simp: grown_def)

lemma pub_insert_grown: "insert_law env \<Longrightarrow> pub_insert env qs s = (r, t) \<Longrightarrow> grown s t"
  by (auto simp: pub_insert_def insert_law_def grown_def split: sum.splits)

lemma pub_insert_stored: "insert_law env \<Longrightarrow> pub_insert env qs s = (Inr u, t) \<Longrightarrow> set qs \<subseteq> set (db_store t)"
  by (auto simp: pub_insert_def insert_law_def split: sum.splits)

lemma storePrivate_grown:
  "insert_law env \<Longrightarrow> storePrivateTriples env cg r qs sg s = (x, t) \<Longrightarrow> grown s t"
  by (auto simp: storePrivateTriples_def eop_defs grown_def pub_insert_def insert_law_def split: if_splits sum.splits prod.splits)

lemma storePrivate_stored:
  assumes "insert_law env" "storePrivateTriples env cg r qs sg s = (Inr u, t)"
  shows "(\<lambda>q. q\<lparr>graph := privateGraph cg sg\<rparr>) ` set qs \<subseteq> set (db_store t)"
proof (cases "qs = []")
  case False
  then obtain m where m: "pub_insert env (map (\<lambda>q. q\<lparr>graph := privateGraph cg sg\<rparr>) qs) s = (Inr (), m)"
    and "db_store t = db_store m"
    using assms(2) by (auto simp: storePrivateTriples_def bindM_Inr liftE_Inr modM_def)
  then show ?thesis using pub_insert_stored [OF assms(1) m] by simp
qed simp

lemma forM_private_grown:
  assumes "insert_law env" "forM rs (\<lambda>r. storePrivateTriples env cg r (f r) sg) s = (x, t)"
  shows "grown s t"
  using assms(2)
proof (induction rs arbitrary: s)
  case (Cons r rs)
  obtain y u where y: "storePrivateTriples env cg r (f r) sg s = (y, u)" by fastforce
  show ?case using storePrivate_grown [OF assms(1) y] Cons y
    by (auto simp: bindM_def split: sum.splits intro: grown_trans)
qed (simp add: ret_def)

lemma forM_private_stored:
  assumes "insert_law env" "forM rs (\<lambda>r. storePrivateTriples env cg r (f r) sg) s = (Inr x, t)" "r \<in> set rs"
  shows "(\<lambda>q. q\<lparr>graph := privateGraph cg sg\<rparr>) ` set (f r) \<subseteq> set (db_store t)"
  using assms(2,3)
proof (induction rs arbitrary: s)
  case (Cons r1 rs)
  then obtain u where u: "storePrivateTriples env cg r1 (f r1) sg s = (Inr (), u)"
    and rest: "forM rs (\<lambda>r. storePrivateTriples env cg r (f r) sg) u = (Inr x, t)" by (auto simp: bindM_Inr)
  show ?case
  proof (cases "r \<in> set rs")
    case True
    then show ?thesis using Cons.IH rest by blast
  next
    case False
    then have "r = r1" using Cons.prems(2) by simp
    then show ?thesis using storePrivate_stored [OF assms(1) u] forM_private_grown [OF assms(1) rest] by (auto simp: grown_def)
  qed
qed simp

section \<open>Inversion\<close>

definition publish_graph :: "DirectOptions \<Rightarrow> string" where
  "publish_graph options =
     (case (nonblank (do_subGraphName options), nonblank (do_targetGraphUri options)) of
        (Some sg, None) \<Rightarrow> contextGraphSubGraphUri (do_contextGraphId options) sg
      | _ \<Rightarrow> or_else (do_targetGraphUri options) (contextGraphDataUri (do_contextGraphId options) None))"

lemma route_Inr:
  assumes "route_subgraph env options store = Inr o1"
  shows "o1 = options\<lparr>do_targetGraphUri := do_targetGraphUri o1\<rparr> \<and>
    or_else (do_targetGraphUri o1) (contextGraphDataUri (do_contextGraphId o1) None) = publish_graph options"
  using assms by (auto simp: route_subgraph_def publish_graph_def or_else_def bindE_Inr split: option.splits if_splits)

lemma route_options: "route_subgraph env options store = Inr o1 \<Longrightarrow> \<exists>g. o1 = options\<lparr>do_targetGraphUri := g\<rparr>"
  using route_Inr by blast

lemma ensure_grown: "ensureContextGraph env cg s = (r, t) \<Longrightarrow> grown s t \<and> db_store t = db_store s"
  by (auto simp: ensureContextGraph_def eop_defs grown_def split: if_splits sum.splits prod.splits)

lemma store_publish_Inr:
  assumes "insert_law env" "store_publish env o1 pp s = (Inr u, t)"
  shows "grown s t \<and>
    (\<lambda>q. q\<lparr>graph := or_else (do_targetGraphUri o1) (contextGraphDataUri (do_contextGraphId o1) None)\<rparr>) ` set (pp_quads pp) \<subseteq> set (db_store t) \<and>
    (\<forall>(i, r, qs) \<in> set (pp_parts pp). (\<lambda>q. q\<lparr>graph := privateGraph (do_contextGraphId o1) (do_subGraphName o1)\<rparr>)
       ` set (entity_private (do_privateQuads o1) r) \<subseteq> set (db_store t))"
proof -
  let ?g = "or_else (do_targetGraphUri o1) (contextGraphDataUri (do_contextGraphId o1) None)"
  let ?rs = "map (\<lambda>(_, r, _). r) (pp_parts pp)"
  obtain m where 1: "pub_insert env (map (\<lambda>q. q\<lparr>graph := ?g\<rparr>) (pp_quads pp)) s = (Inr (), m)"
    and 2: "forM ?rs (\<lambda>r. storePrivateTriples env (do_contextGraphId o1) r (entity_private (do_privateQuads o1) r) (do_subGraphName o1)) m = (Inr u, t)"
    using assms(2) by (auto simp: store_publish_def bindM_Inr Let_def or_else_def)
  have t: "grown m t" using forM_private_grown [OF assms(1) 2] .
  have "(\<lambda>q. q\<lparr>graph := privateGraph (do_contextGraphId o1) (do_subGraphName o1)\<rparr>)
      ` set (entity_private (do_privateQuads o1) r) \<subseteq> set (db_store t)" if "(i, r, qs) \<in> set (pp_parts pp)" for i r qs
    using that by (intro forM_private_stored [OF assms(1) 2]) force
  then have "\<forall>(i, r, qs) \<in> set (pp_parts pp). (\<lambda>q. q\<lparr>graph := privateGraph (do_contextGraphId o1) (do_subGraphName o1)\<rparr>)
      ` set (entity_private (do_privateQuads o1) r) \<subseteq> set (db_store t)" by blast
  moreover have "set (map (\<lambda>q. q\<lparr>graph := ?g\<rparr>) (pp_quads pp)) \<subseteq> set (db_store t)"
    using pub_insert_stored [OF assms(1) 1] t unfolding grown_def by blast
  ultimately show ?thesis
    using grown_trans [OF pub_insert_grown [OF assms(1) 1] t] by simp
qed

lemma publish_Inr:
  assumes "publish env options s = (Inr res, t)"
  obtains o1 pp amount acks u v where "route_subgraph env options (db_store s) = Inr o1" "publish_checks o1 = Inr ()"
    "grown s u" "prepare_publish (pe_keccak env) o1 (owned_in u o1) = Inr pp" "store_publish env o1 pp u = (Inr (), v)"
    "self_signed env o1 pp amount (provided_acks o1 pp amount) = Inr acks" "token_amount env pp = Inr amount"
    "check_domain o1 = Inr ()" "finish_publish env o1 pp amount acks v = (Inr res, t)"
proof -
  obtain o1 u pp v amount acks where p: "route_subgraph env options (db_store s) = Inr o1" "publish_checks o1 = Inr ()"
    and u: "ensureContextGraph env (do_contextGraphId o1) s = (Inr (), u)"
    and q: "prepare_publish (pe_keccak env) o1 (owned_in u o1) = Inr pp" "store_publish env o1 pp u = (Inr (), v)"
    "self_signed env o1 pp amount (provided_acks o1 pp amount) = Inr acks" "token_amount env pp = Inr amount"
    "check_domain o1 = Inr ()" "finish_publish env o1 pp amount acks v = (Inr res, t)"
    using assms(1) by (auto simp: publish_def bindM_Inr liftE_Inr getM_def)
  show thesis using that [OF p _ q] ensure_grown [OF u] by blast
qed

section \<open>A confirmed publish\<close>

lemma submit_Inr:
  assumes "submit_publish env o1 pp amount acks w seq = Inr oc"
  obtains as vx oc1 where "acks = Some as" "as \<noteq> []" "pe_isV10Ready env" "pe_createKnowledgeAssetsV10 env vx = Inr oc1"
    "oc = oc1\<lparr>oc_tokenAmount := Some amount\<rparr>" "vx_merkleRoot vx = pp_merkleRoot pp" "vx_merkleLeafCount vx = pp_leafCount pp"
    "vx_knowledgeAssetsAmount vx = length (pp_manifest pp)" "vx_contextGraphId vx = v10CgId o1"
    "vx_byteSize vx = publicByteSize pp" "vx_tokenAmount vx = amount"
    "vx_ackSignatures vx = map (\<lambda>k. (ca_nodeIdentityId k, ca_signatureR k, ca_signatureVS k)) as"
proof -
  obtain a as where acks: "acks = Some (a # as)"
    using assms by (auto simp: submit_publish_def split: option.splits list.splits)
  obtain chain kav where ids: "chain_ids env = Some (chain, kav)"
    using assms acks by (auto simp: submit_publish_def split: option.splits)
  obtain sig oc1 where "pe_isV10Ready env" "oc = oc1\<lparr>oc_tokenAmount := Some amount\<rparr>"
    "pe_createKnowledgeAssetsV10 env
       \<lparr>vx_publishOperationId = pe_sessionId env @ ''-'' @ show_nat seq, vx_contextGraphId = v10CgId o1,
        vx_merkleRoot = pp_merkleRoot pp, vx_knowledgeAssetsAmount = length (pp_manifest pp),
        vx_byteSize = publicByteSize pp, vx_epochs = 1, vx_tokenAmount = amount,
        vx_merkleLeafCount = pp_leafCount pp, vx_publisherNodeIdentityId = pe_identityId env, vx_publisherSignature = sig,
        vx_ackSignatures = map (\<lambda>k. (ca_nodeIdentityId k, ca_signatureR k, ca_signatureVS k)) (a # as)\<rparr> = Inr oc1"
    using assms acks ids by (auto simp: submit_publish_def bindE_Inr split: if_splits)
  then show thesis using acks by (intro that) auto
qed

lemma chain_publish_confirmed:
  assumes "chain_publish env o1 pp amount acks tu s = ((u, oc, Confirmed), t)"
  obtains w oc1 m where "pe_wallet env = Some w" "submit_publish env o1 pp amount acks w (db_tentative s) = Inr oc1" "oc = Some oc1"
    "u = confirmed_ual env oc1" "t = store_authorship env o1 pp w u m"
    "pub_insert env (retarget_meta o1 (generateConfirmedFullMetadata (pe_isoDate env) (kc_metadata env o1 pp u)
       (assets env o1 pp u) (provenance env oc1))) s = (Inr (), m)"
  using assms by (auto simp: chain_publish_def Let_def split: option.splits if_splits sum.splits prod.splits)

lemma store_authorship_grown: "insert_law env \<Longrightarrow> grown s (store_authorship env o1 pp w u s)"
  by (auto simp: store_authorship_def Let_def split: sum.splits intro: pub_insert_grown [OF _ surjective_pairing])

lemma finish_confirmed:
  assumes "finish_publish env o1 pp amount acks s = (Inr res, t)" "res_status res = Confirmed" "insert_law env"
  obtains w oc m where "pe_wallet env = Some w" "submit_publish env o1 pp amount acks w (db_tentative s + 1) = Inr oc"
    "grown s m" "t = record_ownership o1 pp oc m" "res_ual res = confirmed_ual env oc" "res_merkleRoot res = pp_merkleRoot pp"
    "res_kaManifest res = pp_manifest pp" "res_publicQuads res = pp_quads pp" "res_v10ACKs res = acks" "res_onChainResult res = Some oc"
    "set (retarget_meta o1 (generateConfirmedFullMetadata (pe_isoDate env) (kc_metadata env o1 pp (res_ual res))
       (assets env o1 pp (res_ual res)) (provenance env oc))) \<subseteq> set (db_store m)"
proof -
  let ?s = "s\<lparr>db_tentative := db_tentative s + 1\<rparr>"
  let ?tu = "''did:dkg:'' @ pe_chainId env @ ''/'' @ pe_publisherAddress env @ ''/t'' @ pe_sessionId env @ ''-'' @ show_nat (db_tentative s + 1)"
  obtain u oc st m where c: "chain_publish env o1 pp amount acks ?tu ?s = ((u, oc, st), m)" by (metis prod_cases3 surj_pair)
  then have st: "st = Confirmed" and res: "res_ual res = u" "res_merkleRoot res = pp_merkleRoot pp" "res_kaManifest res = pp_manifest pp"
    "res_publicQuads res = pp_quads pp" "res_v10ACKs res = acks" "res_onChainResult res = oc"
    and t: "(case oc of Some oc1 \<Rightarrow> record_ownership o1 pp oc1 m | None \<Rightarrow> m) = t"
    using assms(1,2) by (auto simp: finish_publish_def bindM_Inr modM_def getM_def ret_def split: DirectStatus.splits option.splits)
  obtain w oc1 m1 where w: "pe_wallet env = Some w" "submit_publish env o1 pp amount acks w (db_tentative ?s) = Inr oc1" "oc = Some oc1"
    "u = confirmed_ual env oc1" "m = store_authorship env o1 pp w u m1"
    and ins: "pub_insert env (retarget_meta o1 (generateConfirmedFullMetadata (pe_isoDate env) (kc_metadata env o1 pp u)
       (assets env o1 pp u) (provenance env oc1))) ?s = (Inr (), m1)"
    using chain_publish_confirmed c st by metis
  have "grown ?s m1" "grown m1 m" using pub_insert_grown [OF assms(3) ins] store_authorship_grown [OF assms(3)] w(5) by auto
  moreover from this(2) have "set (retarget_meta o1 (generateConfirmedFullMetadata (pe_isoDate env) (kc_metadata env o1 pp u)
       (assets env o1 pp u) (provenance env oc1))) \<subseteq> set (db_store m)"
    using pub_insert_stored [OF assms(3) ins] by (auto simp: grown_def)
  ultimately show thesis using w res t by (intro that [of w oc1 m]) (auto simp: grown_def)
qed

section \<open>Ownership of root entities\<close>

definition owns :: "string \<Rightarrow> string \<Rightarrow> PublisherState \<Rightarrow> bool" where
  "owns k x s \<longleftrightarrow> x \<in> set (or_else (map_of (db_owned s) k) [])"

lemma owns_update [simp]:
  "owns k x (s\<lparr>db_private := p\<rparr>) = owns k x s" "owns k x (s\<lparr>db_ensured := e\<rparr>) = owns k x s"
  "owns k x (s\<lparr>db_tentative := n\<rparr>) = owns k x s" "owns k x (s\<lparr>db_store := q\<rparr>) = owns k x s"
  by (simp_all add: owns_def)

lemma owned_in_iff: "x \<in> set (owned_in s o1) \<longleftrightarrow> owns (scope_key (do_contextGraphId o1) (do_subGraphName o1)) x s"
  by (simp add: owned_in_def owns_def)

lemma add_to_set_iff:
  "x \<in> set (or_else (map_of (add_to_set k y m) k') []) \<longleftrightarrow> (k' = k \<and> x = y) \<or> x \<in> set (or_else (map_of m k') [])"
  by (auto simp: add_to_set_def or_else_def update_conv' split: option.splits)

lemma fold_add_to_set_iff:
  "x \<in> set (or_else (map_of (fold (\<lambda>e. add_to_set k (f e)) es m) k') []) \<longleftrightarrow>
     (k' = k \<and> x \<in> f ` set es) \<or> x \<in> set (or_else (map_of m k') [])"
  by (induction es arbitrary: m) (auto simp: add_to_set_iff)

lemma record_ownership_iff:
  "owns k x (record_ownership o1 pp oc s) \<longleftrightarrow>
     (k = scope_key (do_contextGraphId o1) (do_subGraphName o1) \<and> x \<in> rootEntity ` set (pp_manifest pp)) \<or> owns k x s"
  by (simp add: owns_def record_ownership_def fold_add_to_set_iff)

lemma pub_insert_owns: "keeps (owns k x) (pub_insert env qs)"
  by (auto simp: keeps_def pub_insert_def split: sum.splits)

lemma storePrivate_owns: "keeps (owns k x) (storePrivateTriples env cg r qs sg)"
  by (auto simp: storePrivateTriples_def intro!: keeps_intros keeps_modM pub_insert_owns)

lemma chain_publish_owns: "owns k x s \<Longrightarrow> owns k x (snd (chain_publish env o1 pp amount acks tu s))"
proof -
  assume o: "owns k x s"
  have i: "owns k x t" if "pub_insert env qs u = (r, t)" "owns k x u" for qs u r t
    using keepsD [OF pub_insert_owns] that by blast
  then have "owns k x (store_authorship env o1 pp w v u)" if "owns k x u" for w v u
    using that by (auto simp: store_authorship_def Let_def split: sum.splits dest: i [OF surjective_pairing])
  then show ?thesis using o i by (auto simp: chain_publish_def Let_def split: option.splits sum.splits prod.splits)
qed

lemma finish_publish_owns: "keeps (owns k x) (finish_publish env o1 pp amount acks)"
proof -
  have "keeps (owns k x) (\<lambda>st. let (r, st') = chain_publish env o1 pp amount acks tu st in (Inr r, st'))" for tu
    using chain_publish_owns by (auto simp: keeps_def case_prod_unfold Let_def)
  then show ?thesis unfolding finish_publish_def
    by (auto intro!: keeps_intros keeps_modM pub_insert_owns simp: record_ownership_iff
        split: DirectStatus.splits option.splits prod.splits)
qed

lemma publish_owns: "keeps (owns k x) (publish env options)"
  unfolding publish_def ensureContextGraph_def store_publish_def Let_def
  by (auto intro!: keeps_intros keeps_modM pub_insert_owns storePrivate_owns finish_publish_owns)

text \<open>Calls that do not forget the ownership of a scope.\<close>

fun forgets :: "string \<Rightarrow> PublisherCall \<Rightarrow> bool" where
  "forgets k (PublishCall env options) = False"
| "forgets k (ClearSubGraph key) = (key = k)"
| "forgets k RestartPublisher = True"

lemma publisher_call_owns: "owns k x s \<Longrightarrow> \<not> forgets k c \<Longrightarrow> owns k x (publisher_call c s)"
proof (cases c)
  case (PublishCall env options)
  then show "owns k x s \<Longrightarrow> ?thesis" using publish_owns [of k x env options] by (simp add: keeps_def)
qed (simp_all add: owns_def clearSubGraphOwnership_def delete_conv')

lemma publisher_calls_owns: "owns k x s \<Longrightarrow> list_all (\<lambda>c. \<not> forgets k c) calls \<Longrightarrow> owns k x (publisher_calls calls s)"
  unfolding publisher_calls_def by (induction calls arbitrary: s) (simp_all add: publisher_call_owns)

lemma owned_root_rejected:
  assumes "fst (validatePublishRequest nq manifest cg existing no_options)" "m \<in> set manifest"
  shows "rootEntity m \<notin> set existing"
  using assms by (auto simp: validatePublishRequest_def no_options_def Let_def filter_empty_conv)

lemma published_owned:
  assumes "publish env options s = (Inr res, t)" "res_status res = Confirmed" "insert_law env" "m \<in> set (res_kaManifest res)"
  shows "owns (scope_key (do_contextGraphId options) (do_subGraphName options)) (rootEntity m) t"
proof -
  obtain o1 pp amount acks v where o1: "route_subgraph env options (db_store s) = Inr o1"
    and f: "finish_publish env o1 pp amount acks v = (Inr res, t)" using publish_Inr [OF assms(1)] .
  obtain oc m' where "t = record_ownership o1 pp oc m'" "res_kaManifest res = pp_manifest pp"
    using finish_confirmed [OF f assms(2,3)] .
  moreover have "do_contextGraphId o1 = do_contextGraphId options" "do_subGraphName o1 = do_subGraphName options"
    using route_options [OF o1] by auto
  ultimately show ?thesis using assms(4) by (auto simp: record_ownership_iff)
qed

lemma owned_not_published:
  assumes "publish env options s = (Inr res, t)" "m \<in> set (res_kaManifest res)"
  shows "\<not> owns (scope_key (do_contextGraphId options) (do_subGraphName options)) (rootEntity m) s"
proof -
  obtain o1 pp amount acks u v where o1: "route_subgraph env options (db_store s) = Inr o1" and g: "grown s u"
    and prep: "prepare_publish (pe_keccak env) o1 (owned_in u o1) = Inr pp"
    and f: "finish_publish env o1 pp amount acks v = (Inr res, t)" using publish_Inr [OF assms(1)] .
  have "res_kaManifest res = pp_manifest pp"
    using f by (auto simp: finish_publish_def bindM_Inr ret_def)
  then have "rootEntity m \<notin> set (owned_in u o1)"
    using owned_root_rejected [of "pp_quads pp" "pp_manifest pp"] prepared_Inr [OF prep] assms(2) by auto
  moreover have "do_contextGraphId o1 = do_contextGraphId options" "do_subGraphName o1 = do_subGraphName options"
    using route_options [OF o1] by auto
  ultimately show ?thesis using g by (simp add: owned_in_iff) (simp add: owns_def grown_def)
qed

end
