(* ===== verification/DirectProperties.thy ===== *)
theory DirectProperties
  imports DirectSafety
begin

text \<open>
  The properties of direct publishing and of storage acknowledgements, with instances on a small network, and the
  findings of this part.
\<close>

section \<open>A network for the examples\<close>

text \<open>One byte after another; the decoder of \<open>utf8\<close>.\<close>

fun utf8_decode :: "bytes \<Rightarrow> string" where
  "utf8_decode [] = []"
| "utf8_decode [b] = [char_of (unat b)]"
| "utf8_decode (b # c # bs) =
     (if b < 128 then char_of (unat b) # utf8_decode (c # bs)
      else char_of (64 * (unat b - 192) + (unat c - 128)) # utf8_decode bs)"

lemma utf8_decode_ascii: "b < 128 \<Longrightarrow> utf8_decode (b # bs) = char_of (unat b) # utf8_decode bs"
  by (cases bs) auto

lemma utf8_decode_utf8: "utf8_decode (utf8 s) = s"
proof (induction s)
  case (Cons c s)
  define n where "n = (of_char c :: nat)"
  have n: "n < 256" "char_of n = c" by (simp_all add: n_def)
  show ?case
  proof (cases "n < 128")
    case True
    then have "unat (of_nat n :: byte) = n" "(of_nat n :: byte) < 128" by (simp_all add: word_less_nat_alt unat_of_nat)
    then show ?thesis using Cons True n by (simp add: n_def [symmetric] utf8_decode_ascii Let_def)
  next
    case False
    then have "unat (of_nat (192 + n div 64) :: byte) = 192 + n div 64" "unat (of_nat (128 + n mod 64) :: byte) = 128 + n mod 64"
      using n(1) by (simp_all add: unat_of_nat del: of_nat_add)
    moreover from this(1) have "\<not> (of_nat (192 + n div 64) :: byte) < 128" by (simp add: word_less_nat_alt del: of_nat_add)
    moreover have "64 * (n div 64) + n mod 64 = n" by simp
    ultimately show ?thesis using Cons False n by (simp add: n_def [symmetric] Let_def del: of_nat_add)
  qed
qed simp

section \<open>The root of a publish\<close>

lemma treeOf_root_mem: "xs \<noteq> [] \<Longrightarrow> hd (last (buildTree h xs)) \<in> set xs \<union> range h"
proof (induction h xs rule: buildTree.induct)
  case (1 h xs)
  show ?case
  proof (cases "1 < length xs")
    case False
    then show ?thesis using 1(2) by (simp add: buildTree_stop)
  next
    case True
    let ?r = "hashRow h (padLayer xs)"
    have "length ?r = (length xs + 1) div 2" by (simp add: length_padLayer)
    then have r: "?r \<noteq> []" using True by (cases ?r) auto
    have "hd (last (buildTree h ?r)) \<in> set ?r \<union> range h" using 1(1) [OF True refl refl r] .
    then show ?thesis using True set_hashRow [of h "padLayer xs"] by (auto simp: buildTree_step)
  qed
qed

lemma flat_root_length:
  assumes "\<And>x. length (h x) = 32" "qs \<noteq> []" shows "length (computeFlatKCRootV10 h qs []) = 32"
proof -
  let ?l = "v10Leaves (map (computeTripleHashV10 h) qs)"
  have l: "set ?l = computeTripleHashV10 h ` set qs" "?l \<noteq> []" using assms(2) by (simp_all add: v10Leaves_set)
  then have "hd (last (buildTree h ?l)) \<in> set ?l \<union> range h" using treeOf_root_mem by blast
  then have "length (hd (last (buildTree h ?l))) = 32"
    using l(1) assms(1) by (auto simp: computeTripleHashV10_def hashTripleV10_def)
  then show ?thesis using l(2) by (simp add: computeFlatKCRootV10_def flatLeavesV10_def V10MerkleTree_new_treeOf root_treeOf)
qed

section \<open>Properties\<close>

text \<open>
  C6. A direct publish within the limits of the protocol gets its acknowledgements. The request that \<^verbatim>\<open>publish\<close> makes is
  answered with a full quorum by the agent's provider, when as many honest core nodes with different identities as the chain
  requires settle before the timer fires; the other peers may answer anything, in any order. The limits are conditions of the
  theorem, and beyond each of them the program does not acknowledge: the quads are public and N-Quads can carry them, their
  text has at most 4 MiB (\<^verbatim>\<open>MAX_STAGING_BYTES\<close>), the context graph id is a positive number, and the identities of the honest
  nodes are readable (bits 31 and 63 clear: the collector reads any other identity as a negative number, see
  \<^verbatim>\<open>unreadable_identity_negative\<close>). Every acknowledgement returned is signed over the digest of this publish by an address
  registered for its identity.
\<close>

theorem direct_publish_acknowledged:
  assumes prep: "prepare_publish (ad_keccak net) o1 existing = Inr pp"
    and quads: "pp_privateRoots pp = []" "\<not> do_fromSharedMemory o1" "pp_quads pp \<noteq> []" "\<forall>q \<in> set (pp_quads pp). quad_ok q"
      "int (length (utf8 (public_text pp))) \<le> MAX_STAGING_BYTES"
    and cg: "toBigInt (ack_domain o1) = Some cg" "cg > 0" and amount: "amount \<ge> 0"
    and chain: "ac_minimumRequiredSignatures chain = Some (Inr req)" "ac_evmChainId chain = Inr c" "ac_kav10Address chain = Inr kav"
      "addressToBytes kav = Inr kb"
    and keccak: "\<And>x. length (ad_keccak net x) = 32"
    and peers: "distinct peers" "H \<subseteq> set (connected_core_peers self peers known)" "H \<noteq> {}"
    and honest: "\<And>q. q \<in> H \<Longrightarrow> honest_core (provider_deps net chain self peers known)
        (provider_params self (ack_request o1 pp amount) cg (Some req) c kav) q (node q) (state q)"
    and readable: "\<And>q. q \<in> H \<Longrightarrow> readable_identity (sn_nodeIdentityId (node q))"
    and quorum: "inj_on (sn_nodeIdentityId \<circ> node) H" "req \<le> int (card H)"
    and settled: "Settled ` H \<subseteq> set es" "TimedOut \<notin> set es"
  shows "\<exists>acks. v10_ack_provider net chain self peers known (es @ fs) (ack_request o1 pp amount) = Some (Inr acks)
    \<and> length acks = nat req \<and> distinct (map ca_nodeIdentityId acks)
    \<and> (\<forall>a \<in> set acks. ack_valid (provider_deps net chain self peers known)
          (provider_params self (ack_request o1 pp amount) cg (Some req) c kav) a)"
proof -
  let ?deps = "provider_deps net chain self peers known" and ?p = "provider_params self (ack_request o1 pp amount) cg (Some req) c kav"
  have k: "ad_keccak ?deps = ad_keccak net" and conn: "ad_getConnectedCorePeers ?deps = connected_core_peers self peers known"
    by (simp_all add: provider_deps_def)
  have params: "direct_params (ad_keccak ?deps) (pp_quads pp) ?p" using prepared_direct [OF prep quads cg amount] k by simp
  have root: "pp_merkleRoot pp = computeFlatKCRootV10 (ad_keccak net) (pp_quads pp) []" using prepared_Inr [OF prep] quads(1) by simp
  have "kb = address_pairs (drop 2 kav)" using chain(4) by (auto simp: addressToBytes_def split: if_splits)
  then have "computePublishACKDigest (ad_keccak ?deps) (collect_fields ?p) = Inr (ad_keccak ?deps (publish_input (collect_fields ?p)))"
    using chain(4) flat_root_length [OF keccak quads(3)] root
    by (simp add: publish_digest_Inr collect_fields_def provider_params_def ack_request_def)
  moreover have "distinct (ad_getConnectedCorePeers ?deps)" using peers(1) by (simp add: conn connected_core_peers_def Let_def)
  moreover have "required_acks ?p = req" by (simp add: required_acks_def provider_params_def)
  ultimately obtain res where res: "collect_acks ?deps ?p (es @ fs) = Some (Inr res)"
    using collect_acks_live [OF params _ _ _ honest quorum(1) readable _ settled] peers(2,3) quorum(2) conn by fastforce
  have "pp_leafCount pp \<noteq> 0" using prepared_Inr [OF prep] quads(1,3) flat_leaves_pos [of "pp_quads pp" "ad_keccak net"] by simp
  then have "v10_ack_provider net chain self peers known (es @ fs) (ack_request o1 pp amount) = Some (Inr (ar_acks res))"
    using res cg chain by (simp add: v10_ack_provider_def ack_request_def)
  then show ?thesis using collect_acks_sound [OF res] \<open>required_acks ?p = req\<close> by simp
qed

definition demo_quads :: "Quad list" where
  "demo_quads = [\<lparr>subject = ''u:a'', predicate = ''u:p'', object = ''u:b'', graph = []\<rparr>]"

definition demo_options :: DirectOptions where
  "demo_options = \<lparr>do_contextGraphId = ''7'', do_quads = demo_quads, do_privateQuads = [], do_publisherPeerId = ''P'',
     do_accessPolicy = None, do_allowedPeers = [], do_targetGraphUri = None, do_targetMetaGraphUri = None, do_subGraphName = None,
     do_v10ACKProvider = None, do_publishContextGraphId = None, do_fromSharedMemory = False, do_internalOrigin = False\<rparr>"

definition demo_pp :: PreparedPublish where
  "demo_pp = projr (prepare_publish pad32 demo_options [])"

definition demo_kav :: string where
  "demo_kav = ''0x00000000000000000000000000000000000000Aa''"

definition demo_params :: CollectParams where
  "demo_params = provider_params ''P'' (ack_request demo_options demo_pp 0) 7 (Some 2) 31337 demo_kav"

definition demo_node :: "int \<Rightarrow> StorageACKNode" where
  "demo_node i = \<lparr>sn_isCore = True, sn_nodeIdentityId = i, sn_signMessage = (\<lambda>d. Inr (pad32 d, [word_of_int i])),
     sn_contextGraphSharedMemoryUri = contextGraphSharedMemoryUri, sn_chainId = 31337, sn_kav10Address = demo_kav,
     sn_isSignerRegistered = Some (Inr True), sn_keccak = pad32,
     sn_decodeIntent = (\<lambda>_. Inr (wire_intent (publish_intent demo_params))),
     sn_encodeACK = (\<lambda>a. sa_coreNodeSignatureR a @ sa_coreNodeSignatureVS a), sn_decodeText = utf8_decode,
     sn_query = (\<lambda>_ _. Inl ''no query''), sn_dropGraph = (\<lambda>g qs. Inr (filter (\<lambda>q. graph q \<noteq> g) qs)),
     sn_insert = (\<lambda>xs qs. Inr (qs @ xs))\<rparr>"

definition demo_state :: AckState where
  "demo_state = \<lparr>as_store = [], as_cleanups = [], as_notices = []\<rparr>"

definition demo_peer_id :: "string \<Rightarrow> int" where
  "demo_peer_id q = (if q = ''n1'' then 1 else 2)"

text \<open>Only the two nodes have signed, and only this digest.\<close>

definition demo_digest :: bytes where
  "demo_digest = pad32 (publish_input (collect_fields demo_params))"

definition demo_net :: ACKCollectorDeps where
  "demo_net = \<lparr>ad_sendP2P = (\<lambda>q _ b. if q = ''n1'' \<or> q = ''n2''
       then map_sum (\<lambda>_. ''stream reset'') id (fst (storage_ack_handler (demo_node (demo_peer_id q)) b demo_state)) else Inl ''no route''),
     ad_getConnectedCorePeers = [], ad_verifyIdentity = None, ad_keccak = pad32, ad_hashMessage = (\<lambda>d. d),
     ad_recoverAddress = (\<lambda>h r vs. if h = demo_digest \<and> r = pad32 h then Inr (''addr'' @ show_int (uint (hd vs))) else Inl ''bad signature''),
     ad_encodeIntent = (\<lambda>_. [1]),
     ad_decodeACK = (\<lambda>b. Inr \<lparr>sa_merkleRoot = cp_merkleRoot demo_params, sa_coreNodeSignatureR = take 32 b,
        sa_coreNodeSignatureVS = drop 32 b, sa_contextGraphId = ''7'', sa_nodeIdentityId = wire_uint64 (Num (uint (hd (drop 32 b))))\<rparr>)\<rparr>"

definition demo_chain :: AgentChain where
  "demo_chain = \<lparr>ac_minimumRequiredSignatures = Some (Inr 2), ac_evmChainId = Inr 31337, ac_kav10Address = Inr demo_kav,
     ac_verifyACKIdentity = (\<lambda>addr i. Inr (addr = ''addr'' @ show_int i))\<rparr>"

lemma demo_prepared: "prepare_publish pad32 demo_options [] = Inr demo_pp"
proof -
  have "\<not> isl (prepare_publish pad32 demo_options [])" by code_simp
  then show ?thesis by (simp add: demo_pp_def)
qed

lemma demo_pp_facts:
  "pp_privateRoots demo_pp = []" "pp_quads demo_pp = demo_quads" "length (utf8 (public_text demo_pp)) = 22"
  by code_simp+

lemma demo_pp_quads_ok: "\<forall>q \<in> set demo_quads. quad_ok q"
  by (simp add: demo_quads_def quad_ok_def iri_ok_def startsWith_def)

lemma demo_chain_facts: "toBigInt (ack_domain demo_options) = Some 7" "\<not> isl (addressToBytes demo_kav)"
  by code_simp+

lemma demo_core_honest:
  assumes "q \<in> {''n1'', ''n2''}"
  shows "honest_core (provider_deps demo_net demo_chain ''P'' [''n1'', ''n2'', ''n3''] []) demo_params q (demo_node (demo_peer_id q)) demo_state"
proof -
  have i: "demo_peer_id q \<in> {1, 2}" by (simp add: demo_peer_id_def)
  then have "uint (word_of_int (demo_peer_id q) :: byte) = demo_peer_id q" by auto
  moreover have "wire_identity (demo_peer_id q) = Num (demo_peer_id q)" using i by (auto simp: wire_identity_def)
  moreover have "cp_contextGraphIdStr demo_params = ''7''" "cp_chainId demo_params = 31337" "cp_kav10Address demo_params = demo_kav"
    by (simp_all add: demo_params_def provider_params_def ack_request_def ack_domain_def or_else_def demo_options_def)
  ultimately show ?thesis using assms i
    by (auto simp: publish_digest_Inr demo_digest_def honest_core_def Let_def demo_node_def demo_net_def provider_deps_def verify_identity_or_false_def demo_chain_def utf8_decode_utf8)
qed

theorem direct_publish_acknowledged_witness:
  "\<exists>acks. v10_ack_provider demo_net demo_chain ''P'' [''n1'', ''n2'', ''n3''] []
     [Settled ''n3'', Settled ''n2'', Settled ''n1'', TimedOut] (ack_request demo_options demo_pp 0) = Some (Inr acks)
     \<and> length acks = 2 \<and> distinct (map ca_nodeIdentityId acks)"
proof -
  let ?H = "{''n1'', ''n2''}"
  obtain kb where kb: "addressToBytes demo_kav = Inr kb" using demo_chain_facts(2) by (metis sum.collapse(2))
  have inj: "inj_on (sn_nodeIdentityId \<circ> (\<lambda>q. demo_node (demo_peer_id q))) ?H" by (simp add: demo_node_def demo_peer_id_def)
  have conn: "?H \<subseteq> set (connected_core_peers ''P'' [''n1'', ''n2'', ''n3''] [])" by (simp add: connected_core_peers_def)
  have hon: "honest_core (provider_deps demo_net demo_chain ''P'' [''n1'', ''n2'', ''n3''] [])
      (provider_params ''P'' (ack_request demo_options demo_pp 0) 7 (Some 2) 31337 demo_kav) q (demo_node (demo_peer_id q)) demo_state"
    if "q \<in> ?H" for q using demo_core_honest [OF that] by (simp add: demo_params_def)
  have ids: "readable_identity (sn_nodeIdentityId (demo_node (demo_peer_id q)))" for q
    by (simp add: demo_node_def demo_peer_id_def readable_identity_def bit_iff_odd)
  have "prepare_publish (ad_keccak demo_net) demo_options [] = Inr demo_pp" using demo_prepared by (simp add: demo_net_def)
  from direct_publish_acknowledged [OF this, of 7 0 demo_chain 2 31337 demo_kav kb "[''n1'', ''n2'', ''n3'']" ?H "''P''" "[]"
      "\<lambda>q. demo_node (demo_peer_id q)" "\<lambda>_. demo_state" "[Settled ''n3'', Settled ''n2'', Settled ''n1'']" "[TimedOut]"]
  show ?thesis
    using demo_pp_facts demo_pp_quads_ok demo_chain_facts(1) kb inj conn hon ids
    by (auto simp: demo_options_def demo_quads_def demo_chain_def demo_net_def MAX_STAGING_BYTES_def)
qed









text \<open>What a stored publish and its metadata hold.\<close>

lemma private_entry_stored:
  assumes "prepare_publish (pe_keccak env) o1 ex = Inr pp" "store_publish env o1 pp u = (Inr (), v)" "insert_law env"
    and "k \<in> set (pp_manifest pp)"
  shows "privateMerkleRoot k = computePrivateRootV10 (pe_keccak env) (entity_private (do_privateQuads o1) (rootEntity k)) \<and>
      (\<lambda>q. q\<lparr>graph := privateGraph (do_contextGraphId o1) (do_subGraphName o1)\<rparr>)
        ` set (entity_private (do_privateQuads o1) (rootEntity k)) \<subseteq> set (db_store v)"
proof -
  have "pp_manifest pp = map (manifest_entry (pe_keccak env) (do_privateQuads o1)) (pp_parts pp)"
    using prepared_Inr [OF assms(1)] by metis
  then obtain i r qs where part: "(i, r, qs) \<in> set (pp_parts pp)"
    "k = manifest_entry (pe_keccak env) (do_privateQuads o1) (i, r, qs)" using assms(4) by auto
  have "(\<lambda>q. q\<lparr>graph := privateGraph (do_contextGraphId o1) (do_subGraphName o1)\<rparr>)
      ` set (entity_private (do_privateQuads o1) r) \<subseteq> set (db_store v)"
    using store_publish_Inr [OF assms(3,2)] part(1) by fastforce
  then show ?thesis using part(2) by (auto simp: manifest_entry_def computePrivateRootV10_def)
qed

lemma retarget_meta_data_graph: "retarget_meta (options\<lparr>do_targetGraphUri := g\<rparr>) qs = retarget_meta options qs"
  by (cases "nonblank (do_targetMetaGraphUri options)") (simp_all add: retarget_meta_def)

lemma confirmed_status_recorded:
  assumes "set (retarget_meta o1 (generateConfirmedFullMetadata date (kc_metadata env o1 pp ual) kas prov)) \<subseteq> S"
  shows "set (retarget_meta o1 [getConfirmedStatusQuad ual (do_contextGraphId o1),
      mq ual (DKG @ ''merkleRoot'') (lit (hex_bytes (pp_merkleRoot pp))) (kcMetaGraph (do_contextGraphId o1))]) \<subseteq> S"
  using assms by (auto simp: retarget_meta_def generateConfirmedFullMetadata_def generateConfirmedMetadata_def generateKCMetadata_def
      getConfirmedStatusQuad_def kc_metadata_def Let_def split: option.splits)

text \<open>
  C8. What a confirmed publish has done. When \<^verbatim>\<open>publish\<close> returns \<^verbatim>\<open>confirmed\<close>, the chain accepted a transaction for the root and the leaf count of the
  quads it returns, with at least one acknowledgement, all of them those of the result; the quads are in the target graph, the
  private quads of every root entity are in the private graph and their root is in the manifest, the status and the root are
  recorded in the metadata, and the root entities are owned.
\<close>

theorem confirmed_publish_committed:
  assumes "publish env options s = (Inr res, t)" "res_status res = Confirmed" "insert_law env"
  shows "\<exists>vx oc acks privateRoots. pe_createKnowledgeAssetsV10 env vx = Inr oc \<and> res_ual res = confirmed_ual env oc \<and>
    res_v10ACKs res = Some acks \<and> acks \<noteq> [] \<and>
    vx_ackSignatures vx = map (\<lambda>k. (ca_nodeIdentityId k, ca_signatureR k, ca_signatureVS k)) acks \<and>
    privateRoots = List.map_filter privateMerkleRoot (res_kaManifest res) \<and>
    res_merkleRoot res = computeFlatKCRootV10 (pe_keccak env) (res_publicQuads res) privateRoots \<and>
    vx_merkleRoot vx = res_merkleRoot res \<and> vx_knowledgeAssetsAmount vx = length (res_kaManifest res) \<and>
    vx_merkleLeafCount vx = computeFlatKCMerkleLeafCountV10 (pe_keccak env) (res_publicQuads res) privateRoots \<and>
    (\<lambda>q. q\<lparr>graph := publish_graph options\<rparr>) ` set (res_publicQuads res) \<subseteq> set (db_store t) \<and>
    (\<forall>m \<in> set (res_kaManifest res).
       owns (scope_key (do_contextGraphId options) (do_subGraphName options)) (rootEntity m) t \<and>
       privateMerkleRoot m = computePrivateRootV10 (pe_keccak env) (entity_private (do_privateQuads options) (rootEntity m)) \<and>
       (\<lambda>q. q\<lparr>graph := privateGraph (do_contextGraphId options) (do_subGraphName options)\<rparr>)
         ` set (entity_private (do_privateQuads options) (rootEntity m)) \<subseteq> set (db_store t)) \<and>
    set (retarget_meta options
      [getConfirmedStatusQuad (res_ual res) (do_contextGraphId options),
       mq (res_ual res) (DKG @ ''merkleRoot'') (lit (hex_bytes (res_merkleRoot res))) (kcMetaGraph (do_contextGraphId options))])
      \<subseteq> set (db_store t)"
proof -
  obtain o1 pp amount acks u v where o1: "route_subgraph env options (db_store s) = Inr o1"
    and prep: "prepare_publish (pe_keccak env) o1 (owned_in u o1) = Inr pp" and st: "store_publish env o1 pp u = (Inr (), v)"
    and f: "finish_publish env o1 pp amount acks v = (Inr res, t)" using publish_Inr [OF assms(1)] .
  obtain w oc m where sub: "submit_publish env o1 pp amount acks w (db_tentative v + 1) = Inr oc" and m: "grown v m"
    "t = record_ownership o1 pp oc m" and res: "res_ual res = confirmed_ual env oc" "res_merkleRoot res = pp_merkleRoot pp"
    "res_kaManifest res = pp_manifest pp" "res_publicQuads res = pp_quads pp" "res_v10ACKs res = acks"
    and meta: "set (retarget_meta o1 (generateConfirmedFullMetadata (pe_isoDate env) (kc_metadata env o1 pp (res_ual res))
       (assets env o1 pp (res_ual res)) (provenance env oc))) \<subseteq> set (db_store m)"
    using finish_confirmed [OF f assms(2,3)] .
  obtain as vx oc1 where vx: "acks = Some as" "as \<noteq> []" "pe_createKnowledgeAssetsV10 env vx = Inr oc1"
    "oc = oc1\<lparr>oc_tokenAmount := Some amount\<rparr>" "vx_merkleRoot vx = pp_merkleRoot pp" "vx_merkleLeafCount vx = pp_leafCount pp"
    "vx_knowledgeAssetsAmount vx = length (pp_manifest pp)"
    "vx_ackSignatures vx = map (\<lambda>k. (ca_nodeIdentityId k, ca_signatureR k, ca_signatureVS k)) as"
    using submit_Inr [OF sub] .
  obtain g where opt: "o1 = options\<lparr>do_targetGraphUri := g\<rparr>" using route_options [OF o1] by blast
  have tm: "set (db_store v) \<subseteq> set (db_store t)" "db_store t = db_store m" using m by (auto simp: grown_def record_ownership_def)
  note p = prepared_Inr [OF prep] and stored = store_publish_Inr [OF assms(3) st]
  have quads: "(\<lambda>q. q\<lparr>graph := publish_graph options\<rparr>) ` set (pp_quads pp) \<subseteq> set (db_store t)"
    using stored route_Inr [OF o1] tm(1) by (metis order_trans)
  have entry: "privateMerkleRoot k = computePrivateRootV10 (pe_keccak env) (entity_private (do_privateQuads options) (rootEntity k)) \<and>
      (\<lambda>q. q\<lparr>graph := privateGraph (do_contextGraphId options) (do_subGraphName options)\<rparr>)
        ` set (entity_private (do_privateQuads options) (rootEntity k)) \<subseteq> set (db_store t)" if "k \<in> set (pp_manifest pp)" for k
    using private_entry_stored [OF prep st assms(3) that] tm(1) opt by auto
  have owned: "owns (scope_key (do_contextGraphId options) (do_subGraphName options)) (rootEntity k) t" if "k \<in> set (pp_manifest pp)" for k
    using m(2) that opt by (simp add: record_ownership_iff)
  have "set (retarget_meta options
      [getConfirmedStatusQuad (res_ual res) (do_contextGraphId options),
       mq (res_ual res) (DKG @ ''merkleRoot'') (lit (hex_bytes (res_merkleRoot res))) (kcMetaGraph (do_contextGraphId options))])
      \<subseteq> set (db_store t)"
    using confirmed_status_recorded [OF meta] res(2) opt tm(2) by (simp add: retarget_meta_data_graph)
  moreover have "confirmed_ual env oc = confirmed_ual env oc1" using vx(4) by (simp add: confirmed_ual_def)
  moreover have "pp_privateRoots pp = List.map_filter privateMerkleRoot (pp_manifest pp)"
    "pp_merkleRoot pp = computeFlatKCRootV10 (pe_keccak env) (pp_quads pp) (pp_privateRoots pp)"
    "pp_leafCount pp = computeFlatKCMerkleLeafCountV10 (pe_keccak env) (pp_quads pp) (pp_privateRoots pp)" using p by blast+
  moreover note vx res(1) quads entry owned
  ultimately show ?thesis unfolding res(2-5)
    by (intro exI [of _ vx] exI [of _ oc1] exI [of _ as] exI [of _ "pp_privateRoots pp"]) simp
qed

text \<open>A publisher that signs for itself, on a chain that accepts one acknowledgement; the second request has a private quad.\<close>

definition demo_env :: PublisherEnv where
  "demo_env = \<lparr>pe_keccak = pad32, pe_createGraph = (\<lambda>_. Inr ()), pe_insert = (\<lambda>qs s. Inr (s @ qs)), pe_query = (\<lambda>_ _. Inl ''no query''),
     pe_wallet = Some \<lparr>wl_address = ''0xW'', wl_signMessage = (\<lambda>_. Inr ''sig'')\<rparr>, pe_signature = (\<lambda>_. Inr ([1], [2])),
     pe_identityId = 5, pe_publisherAddress = ''0xW'', pe_sessionId = ''s'', pe_chainId = ''evm:1'',
     pe_requiredPublishTokenAmount = None, pe_evmChainId = Inr 1, pe_kav10Address = Inr demo_kav, pe_isV10Ready = True,
     pe_createKnowledgeAssetsV10 = (\<lambda>vx. if vx_ackSignatures vx = [] then Inl ''no acks''
        else Inr \<lparr>oc_batchId = 9, oc_startKAId = 1, oc_txHash = ''0xT'', oc_blockNumber = 1, oc_blockTimestamp = 2,
                   oc_publisherAddress = ''0xW'', oc_tokenAmount = None\<rparr>),
     pe_timestamp = ''now'', pe_isoDate = (\<lambda>_. ''then'')\<rparr>"

definition demo_db :: PublisherState where
  "demo_db = \<lparr>db_store = [], db_ensured = [], db_private = [], db_owned = [], db_batches = [], db_tentative = 0\<rparr>"

definition demo_private_options :: DirectOptions where
  "demo_private_options = demo_options\<lparr>do_quads := [\<lparr>subject = ''u:c'', predicate = ''u:p'', object = ''u:d'', graph = []\<rparr>],
     do_privateQuads := [\<lparr>subject = ''u:c'', predicate = ''u:q'', object = ''u:e'', graph = []\<rparr>]\<rparr>"

definition demo_publish :: "PublishError + DirectResult" where
  "demo_publish = fst (publish demo_env demo_private_options demo_db)"

lemma demo_publish_confirmed: "case demo_publish of Inr res \<Rightarrow> res_status res = Confirmed \<and> map rootEntity (res_kaManifest res) = [''u:c''] | Inl _ \<Rightarrow> False"
  by code_simp

lemma demo_insert_law: "insert_law demo_env"
  by (simp add: insert_law_def demo_env_def)

theorem confirmed_publish_committed_witness:
  "\<exists>res t vx oc. publish demo_env demo_private_options demo_db = (Inr res, t) \<and> res_status res = Confirmed \<and>
     pe_createKnowledgeAssetsV10 demo_env vx = Inr oc \<and> vx_merkleRoot vx = res_merkleRoot res \<and> res_kaManifest res \<noteq> []"
proof -
  obtain res t where p: "publish demo_env demo_private_options demo_db = (Inr res, t)" "res_status res = Confirmed" "res_kaManifest res \<noteq> []"
    using demo_publish_confirmed by (cases "publish demo_env demo_private_options demo_db") (auto simp: demo_publish_def split: sum.splits)
  have "\<exists>vx oc. pe_createKnowledgeAssetsV10 demo_env vx = Inr oc \<and> vx_merkleRoot vx = res_merkleRoot res"
    using confirmed_publish_committed [OF p(1,2) demo_insert_law] by (elim exE conjE) (intro exI conjI)
  then show ?thesis using p by blast
qed

text \<open>
  C15. A root entity is published once in its scope while the publisher remembers it. After a confirmed publish, no later
  publish into the same context graph and sub-graph that succeeds contains one of its root entities, whatever is
  published in between, whatever chain, wallet and store the calls meet, and whatever other sub-graphs are removed:
  as long as the publisher is not restarted and the sub-graph is not removed (both forget the ownership, which is
  kept in memory only).
\<close>

theorem root_published_once:
  assumes "publish env options s = (Inr res, t)" "res_status res = Confirmed" "insert_law env" "m \<in> set (res_kaManifest res)"
    and "list_all (\<lambda>c. \<not> forgets (scope_key (do_contextGraphId options) (do_subGraphName options)) c) calls"
    and "publish env' options' (publisher_calls calls t) = (Inr res', t')" "m' \<in> set (res_kaManifest res')"
    and "scope_key (do_contextGraphId options') (do_subGraphName options') = scope_key (do_contextGraphId options) (do_subGraphName options)"
  shows "rootEntity m \<noteq> rootEntity m'"
proof -
  have "owns (scope_key (do_contextGraphId options) (do_subGraphName options)) (rootEntity m) (publisher_calls calls t)"
    using published_owned [OF assms(1-4)] publisher_calls_owns assms(5) by blast
  then show ?thesis using owned_not_published [OF assms(6,7)] assms(8) by auto
qed

text \<open>In between the same request is tried again, and an unrelated sub-graph is removed.\<close>

definition demo_between :: "PublisherCall list" where
  "demo_between = [PublishCall demo_env demo_private_options, ClearSubGraph ''other'']"

definition demo_second :: "PublishError + DirectResult" where
  "demo_second = fst (publish demo_env demo_options (publisher_calls demo_between (snd (publish demo_env demo_private_options demo_db))))"

lemma demo_second_ok: "case demo_second of Inr res \<Rightarrow> res_kaManifest res \<noteq> [] | Inl _ \<Rightarrow> False"
  by code_simp

lemma demo_between_keeps:
  "list_all (\<lambda>c. \<not> forgets (scope_key (do_contextGraphId demo_private_options) (do_subGraphName demo_private_options)) c) demo_between"
  by (simp add: demo_between_def demo_private_options_def demo_options_def scope_key_def nonblank_def)

theorem root_published_once_witness:
  "\<exists>res t res' t'. publish demo_env demo_private_options demo_db = (Inr res, t) \<and>
     publish demo_env demo_options (publisher_calls demo_between t) = (Inr res', t') \<and>
     rootEntity (hd (res_kaManifest res)) \<noteq> rootEntity (hd (res_kaManifest res'))"
proof -
  obtain res t where p: "publish demo_env demo_private_options demo_db = (Inr res, t)" "res_status res = Confirmed" "res_kaManifest res \<noteq> []"
    using demo_publish_confirmed by (cases "publish demo_env demo_private_options demo_db") (auto simp: demo_publish_def split: sum.splits)
  obtain res' t' where q: "publish demo_env demo_options (publisher_calls demo_between t) = (Inr res', t')" "res_kaManifest res' \<noteq> []"
    using demo_second_ok p(1)
    by (cases "publish demo_env demo_options (publisher_calls demo_between t)")
      (auto simp: demo_second_def split: sum.splits)
  have "scope_key (do_contextGraphId demo_options) (do_subGraphName demo_options)
      = scope_key (do_contextGraphId demo_private_options) (do_subGraphName demo_private_options)"
    by (simp add: demo_private_options_def demo_options_def)
  from root_published_once [OF p(1,2) demo_insert_law _ demo_between_keeps q(1) _ this] p q show ?thesis by (metis hd_in_set)
qed

section \<open>Findings\<close>

text \<open>
  A 64-bit identity whose bit 31 is set comes back negative from the wire: the halves of a decoded number are signed, and the
  collector combines them without clearing the sign.
\<close>

lemma high_identity_misread: "ack_identity (wire_uint64 (wire_identity (2 ^ 31))) = - (2 ^ 31)"
  by code_simp

text \<open>A proposal whose expiry is no date never expires.\<close>

lemma failed_not_expired: "map_sum ProposalFailed id x \<noteq> Inl ProposalExpired"
  by (cases x) auto

lemma undated_proposal_never_expires:
  assumes "vn_decodeProposal n data = Inr p" "vn_getTime n (vp_expiresAt p) = None"
  shows "handleProposal n now data \<noteq> Inl ProposalExpired"
  using assms by (auto simp: handleProposal_def bindE_def Let_def failed_not_expired split: option.splits sum.splits prod.splits)

text \<open>
  Any recoverable signature counts as the approval of a participant: \<^verbatim>\<open>verifyIdentity\<close> is never asked, and the address that the
  approval claims is not compared.
\<close>

lemma any_signer_approves:
  assumes "vd_sendP2P deps q 0 b = Inr r" "vd_decodeApproval deps r = Inr a"
    and "vd_recoverAddress deps (vd_hashMessage deps d) (va_agentSignatureR a) (va_agentSignatureVS a) = Inr addr" "addr \<noteq> []"
  shows "\<exists>c. requestApproval (deps\<lparr>vd_verifyIdentity := vf\<rparr>) b d q = Some c \<and> co_approverAddress c = addr"
proof -
  have "approval_attempt (deps\<lparr>vd_verifyIdentity := vf\<rparr>) b d q 0 = Inr (Some \<lparr>co_peerId = q, co_signatureR = va_agentSignatureR a,
      co_signatureVS = va_agentSignatureVS a, co_approverAddress = addr, co_identityId = 0\<rparr>)"
    using assms by (simp add: approval_attempt_def recoverSigner_def)
  then show ?thesis by (simp add: requestApproval_def eval_nat_numeral)
qed

text \<open>The timer of one request drops the quads that a later request for the same root staged again.\<close>

lemma earlier_timer_drops_restaged:
  assumes "store_laws n" "stage n g qs s = (Inr u, s1)" "stage n g qs s1 = (Inr v, s2)" "sn_dropGraph n g (as_store s2) = Inr left"
  shows "staged_in (cleanup n g s2) g = [] \<and> g \<in> set (as_cleanups (cleanup n g s2))"
  using stage_Inr [OF assms(2,1)] stage_Inr [OF assms(3,1)] assms(1,4)
  by (auto simp: cleanup_def store_op_def staged_in_def store_laws_def filter_empty_conv remove1_append)

text \<open>When the metadata cannot be stored after the transaction, the publish is tentative under the confirmed identifier.\<close>

lemma tentative_with_confirmed_ual:
  assumes "pe_wallet env = Some w" "pe_identityId env \<noteq> 0" "submit_publish env o1 pp amount acks w (db_tentative s) = Inr oc"
    and "\<And>qs st. pe_insert env qs st = Inl e"
  shows "fst (chain_publish env o1 pp amount acks tu s) = (confirmed_ual env oc, Some oc, Tentative)"
  using assms by (simp add: chain_publish_def pub_insert_def Let_def)

text \<open>Ownership is kept in memory only: after a restart the same root entities are published again.\<close>

definition demo_restarted :: "PublishError + DirectResult" where
  "demo_restarted = fst (publish demo_env demo_private_options
     (publisher_calls [RestartPublisher] (snd (publish demo_env demo_private_options demo_db))))"

lemma restart_publishes_again: "case demo_restarted of Inr res \<Rightarrow> res_status res = Confirmed \<and> res_kaManifest res \<noteq> [] | Inl _ \<Rightarrow> False"
  by code_simp

end
