(* ===== verification/Spec2Isabelle.thy ===== *)
theory Spec2Isabelle
  imports FlatKC LiftProperties LiftControlPlane AkaProperties RsProperties CclProperties SyncProperties SyncOnConnect DirectProperties
begin

text \<open>
  Verification of the core of the decentralized knowledge graph node (the TypeScript packages under
  \<^verbatim>\<open>packages/\<close>).

  \<^bold>\<open>The program.\<close> A node keeps RDF knowledge in a triple store. A publisher turns quads into a
  \<^emph>\<open>knowledge collection\<close>: blank nodes are skolemized, the triples are split by root entity, hashed
  into sorted leaves and committed to by a Merkle root that the chain records. Publishing from shared
  memory is asynchronous: a request becomes a job that wallets claim, validate, broadcast, include
  and finalize, and that survives restarts in the triple store. Nodes that hold a collection are
  challenged by the chain and answer with a Merkle proof (random sampling). Before a publish goes to the
  chain, core nodes verify its quads and sign storage acknowledgements. A node that connects to another
  synchronises the context graphs they share, page by page, and checks what it received against the
  committed roots. Groups of nodes agree on shared assets in sessions of signed rounds exchanged over
  gossip (attested assets), and policies over facts of the graph are evaluated by a small rule language (CCL).

  \<^bold>\<open>Theories and sources.\<close>

  \<^item> \<^theory_text>\<open>Prelude\<close>: strings, bytes, \<^verbatim>\<open>sort\<close> with a comparator, insertion-ordered maps and sets, decimal and
    hexadecimal text, errors as sums (\<open>bindE\<close>) and the state-and-error operations (\<open>eop\<close>) with their
    rules for kept predicates.
  \<^item> \<^theory_text>\<open>Merkle\<close> (\<^verbatim>\<open>core/src/crypto/merkle.ts\<close>, \<^verbatim>\<open>v10-merkle.ts\<close>, \<^verbatim>\<open>proof-material.ts\<close>), \<^theory_text>\<open>Rdf\<close>
    (\<^verbatim>\<open>canonicalize.ts\<close>, \<^verbatim>\<open>root-entity.ts\<close>, \<^verbatim>\<open>publisher/src/skolemize.ts\<close>, \<^verbatim>\<open>auto-partition.ts\<close>,
    \<^verbatim>\<open>validation.ts\<close>), \<^theory_text>\<open>FlatKC\<close> (\<^verbatim>\<open>publisher/src/merkle.ts\<close>): commitments. Every leaf of a committed
    collection has a proof that verifies, a root binds the set of triples, a proof binds its leaf, and
    the proof-material builder fails exactly where it should.
  \<^item> \<^theory_text>\<open>LiftJob\<close>, \<^theory_text>\<open>LiftSlice\<close>, \<^theory_text>\<open>LiftPublisher\<close>: the states, failure policies, slice resolution and
    validation, and every method of the asynchronous publisher (\<^verbatim>\<open>publisher/src/lift-job-*.ts\<close>,
    \<^verbatim>\<open>workspace-resolution.ts\<close>, \<^verbatim>\<open>async-lift-*.ts\<close>). \<^theory_text>\<open>LiftLifecycle\<close> states the abstract life cycle of a
    job as an inductive relation, \<^theory_text>\<open>LiftSafety\<close> and \<^theory_text>\<open>LiftProcessing\<close> show that the operations refine it
    (as sequences of calls, \<open>run_calls\<close>, of which \<open>calls_ok\<close> asks that updates carry progress metadata only, which the
    code does not check, and that new ids are fresh) and what each returns, \<^theory_text>\<open>LiftControlPlane\<close> that the quads of \<^verbatim>\<open>async-lift-control-plane.ts\<close> refine the
    map of jobs. \<^theory_text>\<open>SparqlSafe\<close> is \<^verbatim>\<open>core/src/sparql-safe.ts\<close>.
  \<^item> \<^theory_text>\<open>AkaCanonical\<close>, \<^theory_text>\<open>AkaValidator\<close>, \<^theory_text>\<open>AkaManager\<close>: the data, canonical encoding, quorum rules, event
    validation, gossip handler and session manager of \<^verbatim>\<open>packages/attested-assets/src\<close>. \<^theory_text>\<open>AkaConcurrent\<close> has
    validations that overlap at their awaits, and from when on the replay check protects an event. \<^theory_text>\<open>AkaSafety\<close> gives
    a proof rule for invariants of every run (locale \<open>aka_invariant\<close>), \<^theory_text>\<open>AkaInvariants\<close> its
    interpretations, \<^theory_text>\<open>AkaFinality\<close> certificates, agreement and time-outs.
  \<^item> \<^theory_text>\<open>JsonText\<close> (\<^verbatim>\<open>JSON.parse\<close>, \<^verbatim>\<open>JSON.stringify\<close>), \<^theory_text>\<open>RsExtract\<close>, \<^theory_text>\<open>RsWal\<close>, \<^theory_text>\<open>RsProver\<close>, \<^theory_text>\<open>RsWorker\<close>,
    \<^theory_text>\<open>RsLoop\<close>: the random-sampling prover of \<^verbatim>\<open>packages/random-sampling/src\<close> and its binding in
    \<^verbatim>\<open>agent/src/random-sampling-bind.ts\<close>; \<^theory_text>\<open>PublishMetadata\<close> (\<^verbatim>\<open>publisher/src/metadata.ts\<close>) and \<^theory_text>\<open>RsSynced\<close>
    connect publisher and prover: what is published is what a challenge can be answered from.
  \<^item> \<^theory_text>\<open>CclEval\<close>, \<^theory_text>\<open>CclValidate\<close>: the evaluator and the validation of policies (\<^verbatim>\<open>agent/src/ccl-evaluator.ts\<close>). \<^theory_text>\<open>CclSemantics\<close> gives the meaning of conditions and rules over sets of tuples.
    \<^theory_text>\<open>CclFixpoint\<close>: one round gives the unique model where rules refer only to earlier ones, without negation the fixpoint is the
    least model, and rules without recursion reach it within the 64 rounds when their chains are short enough.
    \<^theory_text>\<open>CclOrder\<close>: the sets of tuples of a result depend on the facts as a set, whatever the collation; lists and hashes
    do not depend on the order of the facts where the comparator has no ties.
  \<^item> \<^theory_text>\<open>SyncNQuads\<close> (the lines on the wire), \<^theory_text>\<open>SyncVerify\<close>, \<^theory_text>\<open>SyncBatch\<close> (the check of a batch and its two copies,
    \<^verbatim>\<open>agent/src/sync-verify-worker-impl.ts\<close>, \<^verbatim>\<open>dkg-agent-utils.ts\<close>), \<^theory_text>\<open>SyncAuth\<close> (\<^verbatim>\<open>sync/auth\<close>), \<^theory_text>\<open>SyncResponder\<close>
    (\<^verbatim>\<open>sync/responder\<close>), \<^theory_text>\<open>SyncFetch\<close> (\<^verbatim>\<open>sync/requester\<close>, \<^verbatim>\<open>core/src/retry.ts\<close>), \<^theory_text>\<open>SyncOnConnect\<close>: the sync protocol.
    \<^theory_text>\<open>SyncHonest\<close> shows that the check accepts what an honest peer published (locale \<open>literal_reader\<close>, interpreted for both
    copies), \<^theory_text>\<open>SyncComplete\<close> that the pages of a responder add up to its graph (locales \<open>window_peer\<close> and
    \<open>public_responder\<close>), \<^theory_text>\<open>SyncSelect\<close> which quads of a store the filters of its queries select: data, and of the
    metadata no statement about a published collection.
  \<^item> \<^theory_text>\<open>AckDigest\<close> (\<^verbatim>\<open>core/src/crypto/ack.ts\<close>), \<^theory_text>\<open>AckHandler\<close> (\<^verbatim>\<open>publisher/src/storage-ack-handler.ts\<close>), \<^theory_text>\<open>AckCollect\<close>
    (\<^verbatim>\<open>ack-collector.ts\<close>, \<^verbatim>\<open>verify-collector.ts\<close>, \<^verbatim>\<open>verify-proposal-handler.ts\<close>; locale \<open>quorum_collector\<close>, interpreted for both
    collectors), \<^theory_text>\<open>DirectPublish\<close> (\<^verbatim>\<open>publish\<close> of \<^verbatim>\<open>dkg-publisher.ts\<close>, \<^verbatim>\<open>storage/src/private-store.ts\<close>, the provider in
    \<^verbatim>\<open>dkg-agent.ts\<close>): storage acknowledgements and the direct publish path. \<^theory_text>\<open>AckLive\<close> composes publisher, collector and
    core nodes, \<^theory_text>\<open>DirectSafety\<close> shows what a confirmed publish has done and that a root entity is published once
    while the publisher is not restarted and the sub-graph not removed.
  \<^item> The theories named \<^verbatim>\<open>*Properties\<close>, \<^theory_text>\<open>FlatKC\<close> and \<^theory_text>\<open>LiftControlPlane\<close> hold the properties, each
    after a text that states it, with instances on concrete inputs.

  \<^bold>\<open>How code becomes definitions.\<close> A class with mutable fields is a record and each of its methods a
  function from the record to a result and the new record; exceptions are the left injection of a sum.
  A method that awaits is one step: two calls of one object are not interleaved inside a method, except
  where the code itself splits (the single-flight gate and the loop of \<^theory_text>\<open>RsLoop\<close>, the messages of the
  worker thread in \<^theory_text>\<open>RsWorker\<close>, timers and incoming events in \<^theory_text>\<open>AkaSafety\<close>, overlapping validations in
  \<^theory_text>\<open>AkaConcurrent\<close>, the two halves of the authorization of a sync request in \<^theory_text>\<open>SyncAuth\<close>, the order in which the
  requests to peers settle in \<^theory_text>\<open>AckCollect\<close>). Promises that the code
  detaches run at once and their rejections are dropped, timers are entries that fire at most once
  and at any later moment, the clock and generated identifiers are arguments. A \<^verbatim>\<open>Map\<close> whose iteration
  order matters is an association list. Characters are code points below 256.

  \<^bold>\<open>Parameters.\<close> SHA-256, Keccak and Ed25519, the SPARQL engine, the chain, the publish executor,
  \<^verbatim>\<open>localeCompare\<close>, the network and the answers of peers, signature recovery, the decoding of text and
  dates, the protobuf codecs and the YAML reader are arguments of the definitions that use
  them, and so is the number of arguments that the engine lets a call spread (\<open>SyncEngine\<close>). What a property needs of
  them (no collision among the values at hand, signatures that verify, a comparator without ties on the texts at hand) is a hypothesis of that property, and its instance satisfies it.

  \<^bold>\<open>Bounds.\<close> Loops of the code are structural recursion or have a termination proof. Only the parser of
  JSON texts takes fuel, twice the length of the text plus one, which \<open>jval_fuel\<close> proves enough. The page
  loop of the sync protocol may run until its deadline and is a partial function; that it returns is part
  of the property about honest peers. Fields of signed digests wrap at two to the power 256.
  Numbers are integers: chunk and index arithmetic is exact below two to the power 53, beyond which the
  code itself refuses or is not reached.

  \<^bold>\<open>Not modelled.\<close> The network (libp2p), protobuf codecs, EVM calls and the contracts, SPARQL
  engines, HTTP routes, the command line, the user interfaces and the adapters: they are I/O and
  glue, or third-party code behind an interface. The store of jobs and wallet locks of the asynchronous publisher always
  answers; that \<^verbatim>\<open>writeJob\<close> loses a job when its insertion throws is outside the model. A page, which the page
  loop spreads into \<^verbatim>\<open>push\<close>, is taken to fit (an honest peer sends \<open>SYNC_PAGE_SIZE\<close> quads). \<^verbatim>\<open>canonicalize()\<close> calls a third-party package. Of the
  publisher the update of a collection, shares and assertions, and the handlers of publish, share, update
  and access messages; of the agent the finalization and gossip handlers and the resolution of CCL facts;
  the query engine: they are left out for their size, each mostly queries of the store between the
  functions that are modelled here.
\<close>

end
